(* ===== verification/Prelude.thy ===== *)
theory Prelude
  imports "HOL-Library.Word"
begin

section \<open>Shared types and lemmas\<close>

text \<open>
  The types that every component of the model uses, the loop lemmas for C's counted
  loops, and facts on exclusive-or, words and lists that the component proofs share.

  C's integer types are words of their width: \<open>uint8_t\<close> and \<open>unsigned char\<close> are \<open>u8\<close>,
  \<open>uint16_t\<close> is \<open>u16\<close>, \<open>unsigned int\<close> and \<open>uint32_t\<close> are \<open>u32\<close>.  A buffer is the list of
  its elements, and a loop \<open>for (i = 0; i < n; i++)\<close> that changes a state is
  \<open>fold step [0..<n] state\<close>; when iteration \<open>i\<close> only fills element \<open>i\<close> of a fresh array
  the loop is \<open>map entry [0..<n]\<close>.  A loop counter with a constant bound is a \<open>nat\<close>.
  Access outside a buffer is undefined behaviour in C: the model gives it no meaning,
  and the lemmas state the buffer sizes the callers guarantee.
\<close>

unbundle bit_operations_syntax

type_synonym u8 = "8 word"
type_synonym u16 = "16 word"
type_synonym u32 = "32 word"
type_synonym bytes = "u8 list"

named_theorems xor_rules "normalisation of exclusive-or on truth values and words"
named_theorems buffer_simps "reading and writing packed bit buffers"

subsection \<open>Exclusive-or on truth values\<close>

text \<open>C's \<open>^\<close> on \<open>bool\<close> operands.\<close>

definition bxor :: "bool \<Rightarrow> bool \<Rightarrow> bool" where
  "bxor a b \<longleftrightarrow> a \<noteq> b"

text \<open>The exclusive-or of a list of truth values, as the parity equations write it.\<close>

definition bxors :: "bool list \<Rightarrow> bool" where
  "bxors bs = foldr bxor bs False"

lemma bxor_simps [simp]:
  "bxor a False = a" "bxor False a = a" "bxor a True = (\<not> a)" "bxor True a = (\<not> a)"
  "bxor a a = False" "bxor a (bxor a b) = b"
  by (auto simp: bxor_def)

lemma bxor_not [xor_rules]: "bxor (\<not> a) b = (\<not> bxor a b)" "bxor a (\<not> b) = (\<not> bxor a b)"
  by (auto simp: bxor_def)

lemma bxor_commute [xor_rules]: "bxor a b = bxor b a"
  by (auto simp: bxor_def)

lemma bxor_left_commute [xor_rules]: "bxor a (bxor b c) = bxor b (bxor a c)"
  by (auto simp: bxor_def)

lemma bxor_assoc [xor_rules]: "bxor (bxor a b) c = bxor a (bxor b c)"
  by (auto simp: bxor_def)

lemma bxor_neq: "(a \<noteq> b) = bxor a b"
  by (simp add: bxor_def)

lemma bxors_simps [simp]: "bxors [] = False" "bxors (b # bs) = bxor b (bxors bs)"
  by (simp_all add: bxors_def)

subsection \<open>Counted loops\<close>

lemma fold_upt_Suc [simp]: "fold f [0..<Suc n] s = f n (fold f [0..<n] s)"
  by simp

text \<open>The invariant rule for a loop \<open>for (i = 0; i < n; i++)\<close>.\<close>

lemma fold_upt_inv:
  assumes "P 0 s"
    and "\<And>i s. i < n \<Longrightarrow> P i s \<Longrightarrow> P (Suc i) (f i s)"
  shows "P n (fold f [0..<n] s)"
proof -
  have "m \<le> n \<Longrightarrow> P m (fold f [0..<m] s)" for m
    by (induction m) (use assms in auto)
  then show ?thesis by simp
qed

lemma fold_upt_cong:
  assumes "\<And>i s. i < n \<Longrightarrow> f i s = g i s"
  shows "fold f [0..<n] s = fold g [0..<n] s"
  by (rule fold_cong) (use assms in auto)

lemma fold_length_inv:
  assumes "\<And>i a. length (f i a) = length a"
  shows "length (fold f is a) = length a"
  by (induction "is" arbitrary: a) (auto simp: assms)

subsection \<open>Lists\<close>

lemma nth_map_upt0 [simp]: "i < n \<Longrightarrow> map f [0..<n] ! i = f i"
  by simp

lemma list_eq_iff_map_upt: "length xs = n \<Longrightarrow> xs = map (\<lambda>i. xs ! i) [0..<n]"
  by (auto intro: nth_equalityI)

lemma all_less_Suc: "(\<forall>i<Suc n. P i) = (P n \<and> (\<forall>i<n. P i))"
  by (auto simp: less_Suc_eq)

lemma less8_iff: "(n::nat) < 8 \<longleftrightarrow> n \<in> {0, 1, 2, 3, 4, 5, 6, 7}"
  by (auto simp: numeral_eq_Suc less_Suc_eq)

lemma all_less_8: "(\<forall>n<8. P n) \<longleftrightarrow> P 0 \<and> P 1 \<and> P 2 \<and> P 3 \<and> P 4 \<and> P 5 \<and> P 6 \<and> P (7::nat)"
  unfolding less8_iff by blast

lemma find_unique: "p < n \<Longrightarrow> (\<And>q. q < n \<Longrightarrow> Q q \<longleftrightarrow> q = p) \<Longrightarrow> find Q [0..<n] = Some p"
  by (auto simp: find_Some_iff)

lemma fold_nested: "fold (\<lambda>i. fold (\<lambda>b. f (i * k + b)) [0..<k]) [0..<m] s = fold f [0..<m * k] s"
proof (induction m)
  case (Suc m)
  have "map (\<lambda>b. m * k + b) [0..<k] = [m * k..<m * k + k]"
    using map_add_upt [of "m * k" k] by (simp only: add.commute [of "m * k"])
  then have "[0..<Suc m * k] = [0..<m * k] @ map (\<lambda>b. m * k + b) [0..<k]"
    using upt_add_eq_append [of 0 "m * k" k] by (simp add: add.commute)
  then show ?case using Suc by (simp add: fold_map o_def)
qed simp

lemma fold_list_written:
  "distinct (map pos ns) \<Longrightarrow> (\<And>n. n \<in> set ns \<Longrightarrow> pos n < length d) \<Longrightarrow> k \<in> set ns \<Longrightarrow>
    fold (\<lambda>n d. d[pos n := v n]) ns d ! pos k = v k"
proof (induction ns rule: rev_induct)
  case (snoc n ns)
  have len: "length (fold (\<lambda>n d. d[pos n := v n]) ns d) = length d" by (rule fold_length_inv) simp
  show ?case
  proof (cases "k = n")
    case True
    then show ?thesis using snoc.prems(2) [of n] len by simp
  next
    case False
    then have "k \<in> set ns" "pos k \<noteq> pos n" using snoc.prems by (auto simp: image_iff)
    then show ?thesis using snoc by simp
  qed
qed simp

lemma less16_iff: "(n::nat) < 16 \<longleftrightarrow> n \<in> {0, 1, 2, 3, 4, 5, 6, 7, 8, 9, 10, 11, 12, 13, 14, 15}"
  by (auto simp: numeral_eq_Suc less_Suc_eq)

subsection \<open>Words\<close>

lemma word_xor_cancel [simp]:
  fixes a b :: "'a::len word"
  shows "a XOR (a XOR b) = b" "(b XOR a) XOR a = b"
  by (simp_all add: bit_eq_iff bit_simps) blast+

lemma word_xor_left_commute: "a XOR (b XOR c) = b XOR (a XOR (c :: 'a::len word))"
  by (rule xor.left_commute)

lemma word_xor_eq_0 [simp]: "a XOR b = 0 \<longleftrightarrow> a = (b :: 'a::len word)"
  by (metis xor.right_neutral xor_self_eq word_xor_cancel(1))

lemma word_eq_bits: "a = b \<longleftrightarrow> (\<forall>n<LENGTH('a). bit a n = bit b n)"
  for a b :: "'a::len word"
  by (auto intro: bit_word_eqI)

text \<open>A word is below a power of two exactly when it has no bit from there on.\<close>

lemma word_less_exp_bits:
  fixes w :: "'a::len word"
  assumes "n < LENGTH('a)"
  shows "w < 2 ^ n \<longleftrightarrow> (\<forall>i\<ge>n. \<not> bit w i)"
proof -
  have "w < 2 ^ n \<longleftrightarrow> take_bit n w = w"
    using assms mask_eq_iff_w2p [of n w] by (simp add: take_bit_eq_mask word_size)
  also have "\<dots> \<longleftrightarrow> (\<forall>i\<ge>n. \<not> bit w i)"
    by (simp add: bit_eq_iff bit_take_bit_iff) (meson bit_imp_le_length not_le)
  finally show ?thesis .
qed

lemma word_xor_less_exp:
  fixes a b :: "'a::len word"
  assumes "n < LENGTH('a)" "a < 2 ^ n" "b < 2 ^ n"
  shows "a XOR b < 2 ^ n"
  using assms by (simp add: word_less_exp_bits bit_xor_iff)

text \<open>A byte widened to \<open>u32\<close>, as C's integer promotion does.\<close>

lemma ucast_byte_back [simp]: "ucast (ucast b :: u32) = (b :: u8)"
  by (rule bit_word_eqI) (auto simp: bit_simps)

lemma unat_ucast_byte [simp]: "unat (ucast (b :: u8) :: u32) = unat b"
proof -
  have "unat b < 2 ^ LENGTH(32)" by (rule order.strict_trans2 [OF unsigned_less]) simp
  then show ?thesis by (simp only: unsigned_ucast_eq take_bit_nat_eq_self)
qed

lemma unat_byte_less: "unat (b :: u8) < 256"
  by (rule order.strict_trans2 [OF unsigned_less]) simp

end
