(* ===== verification/Hamming.thy ===== *)
theory Hamming
  imports Prelude
begin

section \<open>Hamming codes (tools/fec_tools.c, hamming_encode and hamming_decode)\<close>

text \<open>
  The six Hamming codes on arrays of \<open>bool\<close>.  Each decoder is the syndrome \<open>n\<close> (the parity
  equations and their comparison with the received parity bits), the \<open>switch\<close> on it, and
  the correction.  A decoder returns the C function's result and the array it leaves.
  The locale \<open>single_error_code\<close> states what the encoder, the syndrome and the switch of
  one code promise each other; the theorems on clean and damaged blocks are proved in it
  once, and every code is an interpretation.
\<close>

text \<open>\<open>d[j1] ^ d[j2] ^ ...\<close>\<close>

definition parity :: "bool list \<Rightarrow> nat list \<Rightarrow> bool" where
  "parity d js = bxors (map (\<lambda>j. d ! j) js)"

definition hamming_syndrome15113_1 :: "bool list \<Rightarrow> u8" where
  "hamming_syndrome15113_1 d =
     (let c0 = parity d [0, 1, 2, 3, 4, 5, 6];
          c1 = parity d [0, 1, 2, 3, 7, 8, 9];
          c2 = parity d [0, 1, 4, 5, 7, 8, 10];
          c3 = parity d [0, 2, 4, 6, 7, 9, 10]
      in (if c0 \<noteq> d ! 11 then 0x01 else 0x00) OR
         (if c1 \<noteq> d ! 12 then 0x02 else 0x00) OR
         (if c2 \<noteq> d ! 13 then 0x04 else 0x00) OR
         (if c3 \<noteq> d ! 14 then 0x08 else 0x00))"

definition hamming_switch15113_1 :: "(u8 \<times> nat) list" where
  "hamming_switch15113_1 =
     [(0x01, 11), (0x02, 12), (0x04, 13), (0x08, 14), (0x0f, 0), (0x07, 1),
      (0x0b, 2), (0x03, 3), (0x0d, 4), (0x05, 5), (0x09, 6), (0x0e, 7),
      (0x06, 8), (0x0a, 9), (0x0c, 10)]"

definition hamming_decode15113_1 :: "bool list \<Rightarrow> bool \<times> bool list" where
  "hamming_decode15113_1 d =
     (let n = hamming_syndrome15113_1 d
      in case map_of hamming_switch15113_1 n of
           Some i \<Rightarrow> (True, d[i := \<not> d ! i])
         | None \<Rightarrow> (False, d))"

definition hamming_encode15113_1 :: "bool list \<Rightarrow> bool list" where
  "hamming_encode15113_1 d =
     d[11 := parity d [0, 1, 2, 3, 4, 5, 6],
       12 := parity d [0, 1, 2, 3, 7, 8, 9],
       13 := parity d [0, 1, 4, 5, 7, 8, 10],
       14 := parity d [0, 2, 4, 6, 7, 9, 10]]"

definition hamming_syndrome15113_2 :: "bool list \<Rightarrow> u8" where
  "hamming_syndrome15113_2 d =
     (let c0 = parity d [0, 1, 2, 3, 5, 7, 8];
          c1 = parity d [1, 2, 3, 4, 6, 8, 9];
          c2 = parity d [2, 3, 4, 5, 7, 9, 10];
          c3 = parity d [0, 1, 2, 4, 6, 7, 10]
      in (if c0 \<noteq> d ! 11 then 0x01 else 0x00) OR
         (if c1 \<noteq> d ! 12 then 0x02 else 0x00) OR
         (if c2 \<noteq> d ! 13 then 0x04 else 0x00) OR
         (if c3 \<noteq> d ! 14 then 0x08 else 0x00))"

definition hamming_switch15113_2 :: "(u8 \<times> nat) list" where
  "hamming_switch15113_2 =
     [(0x01, 11), (0x02, 12), (0x04, 13), (0x08, 14), (0x09, 0), (0x0b, 1),
      (0x0f, 2), (0x07, 3), (0x0e, 4), (0x05, 5), (0x0a, 6), (0x0d, 7),
      (0x03, 8), (0x06, 9), (0x0c, 10)]"

definition hamming_decode15113_2 :: "bool list \<Rightarrow> bool \<times> bool list" where
  "hamming_decode15113_2 d =
     (let n = hamming_syndrome15113_2 d
      in case map_of hamming_switch15113_2 n of
           Some i \<Rightarrow> (True, d[i := \<not> d ! i])
         | None \<Rightarrow> (False, d))"

definition hamming_encode15113_2 :: "bool list \<Rightarrow> bool list" where
  "hamming_encode15113_2 d =
     d[11 := parity d [0, 1, 2, 3, 5, 7, 8],
       12 := parity d [1, 2, 3, 4, 6, 8, 9],
       13 := parity d [2, 3, 4, 5, 7, 9, 10],
       14 := parity d [0, 1, 2, 4, 6, 7, 10]]"

definition hamming_syndrome1393 :: "bool list \<Rightarrow> u8" where
  "hamming_syndrome1393 d =
     (let c0 = parity d [0, 1, 3, 5, 6];
          c1 = parity d [0, 1, 2, 4, 6, 7];
          c2 = parity d [0, 1, 2, 3, 5, 7, 8];
          c3 = parity d [0, 2, 4, 5, 8]
      in (if c0 \<noteq> d ! 9 then 0x01 else 0x00) OR
         (if c1 \<noteq> d ! 10 then 0x02 else 0x00) OR
         (if c2 \<noteq> d ! 11 then 0x04 else 0x00) OR
         (if c3 \<noteq> d ! 12 then 0x08 else 0x00))"

definition hamming_switch1393 :: "(u8 \<times> nat) list" where
  "hamming_switch1393 =
     [(0x01, 9), (0x02, 10), (0x04, 11), (0x08, 12), (0x0f, 0), (0x07, 1),
      (0x0e, 2), (0x05, 3), (0x0a, 4), (0x0d, 5), (0x03, 6), (0x06, 7),
      (0x0c, 8)]"

definition hamming_decode1393 :: "bool list \<Rightarrow> bool \<times> bool list" where
  "hamming_decode1393 d =
     (let n = hamming_syndrome1393 d
      in case map_of hamming_switch1393 n of
           Some i \<Rightarrow> (True, d[i := \<not> d ! i])
         | None \<Rightarrow> (False, d))"

definition hamming_encode1393 :: "bool list \<Rightarrow> bool list" where
  "hamming_encode1393 d =
     d[9 := parity d [0, 1, 3, 5, 6],
       10 := parity d [0, 1, 2, 4, 6, 7],
       11 := parity d [0, 1, 2, 3, 5, 7, 8],
       12 := parity d [0, 2, 4, 5, 8]]"

definition hamming_syndrome1063 :: "bool list \<Rightarrow> u8" where
  "hamming_syndrome1063 d =
     (let c0 = parity d [0, 1, 2, 5];
          c1 = parity d [0, 1, 3, 5];
          c2 = parity d [0, 2, 3, 4];
          c3 = parity d [1, 2, 3, 4]
      in (if c0 \<noteq> d ! 6 then 0x01 else 0x00) OR
         (if c1 \<noteq> d ! 7 then 0x02 else 0x00) OR
         (if c2 \<noteq> d ! 8 then 0x04 else 0x00) OR
         (if c3 \<noteq> d ! 9 then 0x08 else 0x00))"

definition hamming_switch1063 :: "(u8 \<times> nat) list" where
  "hamming_switch1063 =
     [(0x01, 6), (0x02, 7), (0x04, 8), (0x08, 9), (0x07, 0), (0x0b, 1),
      (0x0d, 2), (0x0e, 3), (0x0c, 4), (0x03, 5)]"

definition hamming_decode1063 :: "bool list \<Rightarrow> bool \<times> bool list" where
  "hamming_decode1063 d =
     (let n = hamming_syndrome1063 d
      in case map_of hamming_switch1063 n of
           Some i \<Rightarrow> (True, d[i := \<not> d ! i])
         | None \<Rightarrow> (False, d))"

definition hamming_encode1063 :: "bool list \<Rightarrow> bool list" where
  "hamming_encode1063 d =
     d[6 := parity d [0, 1, 2, 5],
       7 := parity d [0, 1, 3, 5],
       8 := parity d [0, 2, 3, 4],
       9 := parity d [1, 2, 3, 4]]"

definition hamming_syndrome16114 :: "bool list \<Rightarrow> u8" where
  "hamming_syndrome16114 d =
     (let c0 = parity d [0, 1, 2, 3, 5, 7, 8];
          c1 = parity d [1, 2, 3, 4, 6, 8, 9];
          c2 = parity d [2, 3, 4, 5, 7, 9, 10];
          c3 = parity d [0, 1, 2, 4, 6, 7, 10];
          c4 = parity d [0, 2, 5, 6, 8, 9, 10]
      in (if c0 \<noteq> d ! 11 then 0x01 else 0x00) OR
         (if c1 \<noteq> d ! 12 then 0x02 else 0x00) OR
         (if c2 \<noteq> d ! 13 then 0x04 else 0x00) OR
         (if c3 \<noteq> d ! 14 then 0x08 else 0x00) OR
         (if c4 \<noteq> d ! 15 then 0x10 else 0x00))"

definition hamming_switch16114 :: "(u8 \<times> nat) list" where
  "hamming_switch16114 =
     [(0x01, 11), (0x02, 12), (0x04, 13), (0x08, 14), (0x10, 15), (0x19, 0),
      (0x0b, 1), (0x1f, 2), (0x07, 3), (0x0e, 4), (0x15, 5), (0x1a, 6),
      (0x0d, 7), (0x13, 8), (0x16, 9), (0x1c, 10)]"

definition hamming_decode16114 :: "bool list \<Rightarrow> bool \<times> bool list" where
  "hamming_decode16114 d =
     (let n = hamming_syndrome16114 d
      in case map_of hamming_switch16114 n of
           Some i \<Rightarrow> (True, d[i := \<not> d ! i])
         | None \<Rightarrow> (n = 0x00, d))"

definition hamming_encode16114 :: "bool list \<Rightarrow> bool list" where
  "hamming_encode16114 d =
     d[11 := parity d [0, 1, 2, 3, 5, 7, 8],
       12 := parity d [1, 2, 3, 4, 6, 8, 9],
       13 := parity d [2, 3, 4, 5, 7, 9, 10],
       14 := parity d [0, 1, 2, 4, 6, 7, 10],
       15 := parity d [0, 2, 5, 6, 8, 9, 10]]"

definition hamming_syndrome17123 :: "bool list \<Rightarrow> u8" where
  "hamming_syndrome17123 d =
     (let c0 = parity d [0, 1, 2, 3, 6, 7, 9];
          c1 = parity d [0, 1, 2, 3, 4, 7, 8, 10];
          c2 = parity d [1, 2, 3, 4, 5, 8, 9, 11];
          c3 = parity d [0, 1, 4, 5, 7, 10];
          c4 = parity d [0, 1, 2, 5, 6, 8, 11]
      in (if c0 \<noteq> d ! 12 then 0x01 else 0x00) OR
         (if c1 \<noteq> d ! 13 then 0x02 else 0x00) OR
         (if c2 \<noteq> d ! 14 then 0x04 else 0x00) OR
         (if c3 \<noteq> d ! 15 then 0x08 else 0x00) OR
         (if c4 \<noteq> d ! 16 then 0x10 else 0x00))"

definition hamming_switch17123 :: "(u8 \<times> nat) list" where
  "hamming_switch17123 =
     [(0x01, 12), (0x02, 13), (0x04, 14), (0x08, 15), (0x10, 16), (0x1b, 0),
      (0x1f, 1), (0x17, 2), (0x07, 3), (0x0e, 4), (0x1c, 5), (0x11, 6),
      (0x0b, 7), (0x16, 8), (0x05, 9), (0x0a, 10), (0x14, 11)]"

definition hamming_decode17123 :: "bool list \<Rightarrow> bool \<times> bool list" where
  "hamming_decode17123 d =
     (let n = hamming_syndrome17123 d
      in case map_of hamming_switch17123 n of
           Some i \<Rightarrow> (True, d[i := \<not> d ! i])
         | None \<Rightarrow> (n = 0x00, d))"

definition hamming_encode17123 :: "bool list \<Rightarrow> bool list" where
  "hamming_encode17123 d =
     d[12 := parity d [0, 1, 2, 3, 6, 7, 9],
       13 := parity d [0, 1, 2, 3, 4, 7, 8, 10],
       14 := parity d [1, 2, 3, 4, 5, 8, 9, 11],
       15 := parity d [0, 1, 4, 5, 7, 10],
       16 := parity d [0, 1, 2, 5, 6, 8, 11]]"

subsection \<open>Parity equations under updates\<close>

lemma parity_update [simp]: "j \<notin> set js \<Longrightarrow> parity (d[j := v]) js = parity d js"
proof -
  assume "j \<notin> set js"
  then have "map (\<lambda>k. d[j := v] ! k) js = map (\<lambda>k. d ! k) js"
    by (intro map_cong refl nth_list_update_neq) auto
  then show ?thesis unfolding parity_def by (rule arg_cong)
qed

lemma parity_flip:
  assumes "distinct js" "list_all (\<lambda>j. j < length d) js"
  shows "parity (d[i := \<not> d ! i]) js = bxor (i \<in> set js) (parity d js)"
  using assms
proof (induction js)
  case (Cons j js)
  then show ?case
    by (cases "i = j") (auto simp: parity_def bxor_def)
qed (simp add: parity_def)

text \<open>The syndrome of a single flipped bit, as the switch lists it.\<close>

definition switch_col :: "(u8 \<times> nat) list \<Rightarrow> nat \<Rightarrow> u8" where
  "switch_col sw i = the (map_of (map prod.swap sw) i)"

subsection \<open>Codes that correct one error\<close>

locale single_error_code =
  fixes size_n :: nat
    and enc :: "bool list \<Rightarrow> bool list"
    and syn :: "bool list \<Rightarrow> u8"
    and switch :: "(u8 \<times> nat) list"
    and ok :: "u8 \<Rightarrow> bool"
    and dec :: "bool list \<Rightarrow> bool \<times> bool list"
  assumes length_enc: "length (enc d) = length d"
    and syn_enc: "length d = size_n \<Longrightarrow> syn (enc d) = 0"
    and syn_flip: "length d = size_n \<Longrightarrow> i < size_n \<Longrightarrow>
      syn (d[i := \<not> d ! i]) = syn d XOR switch_col switch i"
    and switch_hit: "i < size_n \<Longrightarrow> map_of switch (switch_col switch i) = Some i"
    and switch_clean: "map_of switch 0 = None"
    and dec_switch: "dec d = (case map_of switch (syn d) of
        Some i \<Rightarrow> (True, d[i := \<not> d ! i]) | None \<Rightarrow> (ok (syn d), d))"
begin

lemma decode_clean: "length d = size_n \<Longrightarrow> dec (enc d) = (ok 0, enc d)"
  by (simp add: dec_switch syn_enc switch_clean)

lemma decode_one_error:
  assumes "length d = size_n" "i < size_n" "c = enc d"
  shows "dec (c[i := \<not> c ! i]) = (True, c)"
proof -
  have len: "length c = size_n" using assms by (simp add: length_enc)
  have "syn (c[i := \<not> c ! i]) = switch_col switch i"
    using assms len by (simp add: syn_flip syn_enc)
  then show ?thesis
    using assms len by (simp add: dec_switch switch_hit)
qed

end

text \<open>A code whose distance also lets it notice every pair of errors.\<close>

locale double_error_code = single_error_code +
  assumes switch_pair: "i < size_n \<Longrightarrow> j < size_n \<Longrightarrow> i \<noteq> j \<Longrightarrow>
      map_of switch (switch_col switch i XOR switch_col switch j) = None"
    and ok_pair: "i < size_n \<Longrightarrow> j < size_n \<Longrightarrow> i \<noteq> j \<Longrightarrow>
      \<not> ok (switch_col switch i XOR switch_col switch j)"
begin

lemma decode_two_errors:
  assumes "length d = size_n" "i < size_n" "j < size_n" "i \<noteq> j" "c = enc d"
    and r: "r = c[i := \<not> c ! i, j := \<not> c ! j]"
  shows "dec r = (False, r)"
proof -
  define c' where "c' = c[i := \<not> c ! i]"
  have len: "length c' = size_n" using assms by (simp add: length_enc c'_def)
  have c': "syn c' = switch_col switch i"
    using assms by (simp add: syn_flip syn_enc length_enc c'_def)
  have "r = c'[j := \<not> c' ! j]" using assms by (simp add: c'_def)
  then have "syn r = switch_col switch i XOR switch_col switch j"
    using assms(3) len by (simp add: syn_flip c')
  then show ?thesis
    using assms by (simp add: dec_switch switch_pair ok_pair)
qed

end

subsection \<open>The six codes\<close>

lemma less_17_iff: "(i::nat) < 17 \<longleftrightarrow> i \<in> {0, 1, 2, 3, 4, 5, 6, 7, 8, 9, 10, 11, 12, 13, 14, 15, 16}"
  by (auto simp: numeral_eq_Suc less_Suc_eq)

lemma less_16_iff: "(i::nat) < 16 \<longleftrightarrow> i \<in> {0, 1, 2, 3, 4, 5, 6, 7, 8, 9, 10, 11, 12, 13, 14, 15}"
  by (auto simp: numeral_eq_Suc less_Suc_eq)

lemma less_15_iff: "(i::nat) < 15 \<longleftrightarrow> i \<in> {0, 1, 2, 3, 4, 5, 6, 7, 8, 9, 10, 11, 12, 13, 14}"
  by (auto simp: numeral_eq_Suc less_Suc_eq)

lemma less_13_iff: "(i::nat) < 13 \<longleftrightarrow> i \<in> {0, 1, 2, 3, 4, 5, 6, 7, 8, 9, 10, 11, 12}"
  by (auto simp: numeral_eq_Suc less_Suc_eq)

lemma less_10_iff: "(i::nat) < 10 \<longleftrightarrow> i \<in> {0, 1, 2, 3, 4, 5, 6, 7, 8, 9}"
  by (auto simp: numeral_eq_Suc less_Suc_eq)

lemma hamming_flip15113_1:
  assumes "length d = 15" "i < 15"
  shows "hamming_syndrome15113_1 (d[i := \<not> d ! i]) =
    hamming_syndrome15113_1 d XOR switch_col hamming_switch15113_1 i"
  using assms(2) unfolding less_15_iff
  by (elim insertE)
     (simp_all add: hamming_syndrome15113_1_def hamming_switch15113_1_def switch_col_def parity_flip assms(1)
        split: if_split)

lemma hamming_switch_hit15113_1:
  assumes "i < 15"
  shows "map_of hamming_switch15113_1 (switch_col hamming_switch15113_1 i) = Some i"
  using assms unfolding less_15_iff
  by (elim insertE) (simp_all add: hamming_switch15113_1_def switch_col_def)

interpretation h15113_1: single_error_code 15 hamming_encode15113_1 hamming_syndrome15113_1 hamming_switch15113_1
  "\<lambda>n. False" hamming_decode15113_1
proof unfold_locales
  fix d :: "bool list"
  show "length (hamming_encode15113_1 d) = length d"
    by (simp add: hamming_encode15113_1_def)
  show "length d = 15 \<Longrightarrow> hamming_syndrome15113_1 (hamming_encode15113_1 d) = 0"
    by (simp add: hamming_encode15113_1_def hamming_syndrome15113_1_def)
  show "map_of hamming_switch15113_1 0 = None"
    by (simp add: hamming_switch15113_1_def)
  show "hamming_decode15113_1 d = (case map_of hamming_switch15113_1 (hamming_syndrome15113_1 d) of
      Some i \<Rightarrow> (True, d[i := \<not> d ! i]) | None \<Rightarrow> (False, d))"
    by (simp add: hamming_decode15113_1_def Let_def)
qed (rule hamming_flip15113_1 hamming_switch_hit15113_1; assumption)+

lemma hamming_flip15113_2:
  assumes "length d = 15" "i < 15"
  shows "hamming_syndrome15113_2 (d[i := \<not> d ! i]) =
    hamming_syndrome15113_2 d XOR switch_col hamming_switch15113_2 i"
  using assms(2) unfolding less_15_iff
  by (elim insertE)
     (simp_all add: hamming_syndrome15113_2_def hamming_switch15113_2_def switch_col_def parity_flip assms(1)
        split: if_split)

lemma hamming_switch_hit15113_2:
  assumes "i < 15"
  shows "map_of hamming_switch15113_2 (switch_col hamming_switch15113_2 i) = Some i"
  using assms unfolding less_15_iff
  by (elim insertE) (simp_all add: hamming_switch15113_2_def switch_col_def)

interpretation h15113_2: single_error_code 15 hamming_encode15113_2 hamming_syndrome15113_2 hamming_switch15113_2
  "\<lambda>n. False" hamming_decode15113_2
proof unfold_locales
  fix d :: "bool list"
  show "length (hamming_encode15113_2 d) = length d"
    by (simp add: hamming_encode15113_2_def)
  show "length d = 15 \<Longrightarrow> hamming_syndrome15113_2 (hamming_encode15113_2 d) = 0"
    by (simp add: hamming_encode15113_2_def hamming_syndrome15113_2_def)
  show "map_of hamming_switch15113_2 0 = None"
    by (simp add: hamming_switch15113_2_def)
  show "hamming_decode15113_2 d = (case map_of hamming_switch15113_2 (hamming_syndrome15113_2 d) of
      Some i \<Rightarrow> (True, d[i := \<not> d ! i]) | None \<Rightarrow> (False, d))"
    by (simp add: hamming_decode15113_2_def Let_def)
qed (rule hamming_flip15113_2 hamming_switch_hit15113_2; assumption)+

lemma hamming_flip1393:
  assumes "length d = 13" "i < 13"
  shows "hamming_syndrome1393 (d[i := \<not> d ! i]) =
    hamming_syndrome1393 d XOR switch_col hamming_switch1393 i"
  using assms(2) unfolding less_13_iff
  by (elim insertE)
     (simp_all add: hamming_syndrome1393_def hamming_switch1393_def switch_col_def parity_flip assms(1)
        split: if_split)

lemma hamming_switch_hit1393:
  assumes "i < 13"
  shows "map_of hamming_switch1393 (switch_col hamming_switch1393 i) = Some i"
  using assms unfolding less_13_iff
  by (elim insertE) (simp_all add: hamming_switch1393_def switch_col_def)

interpretation h1393: single_error_code 13 hamming_encode1393 hamming_syndrome1393 hamming_switch1393
  "\<lambda>n. False" hamming_decode1393
proof unfold_locales
  fix d :: "bool list"
  show "length (hamming_encode1393 d) = length d"
    by (simp add: hamming_encode1393_def)
  show "length d = 13 \<Longrightarrow> hamming_syndrome1393 (hamming_encode1393 d) = 0"
    by (simp add: hamming_encode1393_def hamming_syndrome1393_def)
  show "map_of hamming_switch1393 0 = None"
    by (simp add: hamming_switch1393_def)
  show "hamming_decode1393 d = (case map_of hamming_switch1393 (hamming_syndrome1393 d) of
      Some i \<Rightarrow> (True, d[i := \<not> d ! i]) | None \<Rightarrow> (False, d))"
    by (simp add: hamming_decode1393_def Let_def)
qed (rule hamming_flip1393 hamming_switch_hit1393; assumption)+

lemma hamming_flip1063:
  assumes "length d = 10" "i < 10"
  shows "hamming_syndrome1063 (d[i := \<not> d ! i]) =
    hamming_syndrome1063 d XOR switch_col hamming_switch1063 i"
  using assms(2) unfolding less_10_iff
  by (elim insertE)
     (simp_all add: hamming_syndrome1063_def hamming_switch1063_def switch_col_def parity_flip assms(1)
        split: if_split)

lemma hamming_switch_hit1063:
  assumes "i < 10"
  shows "map_of hamming_switch1063 (switch_col hamming_switch1063 i) = Some i"
  using assms unfolding less_10_iff
  by (elim insertE) (simp_all add: hamming_switch1063_def switch_col_def)

interpretation h1063: single_error_code 10 hamming_encode1063 hamming_syndrome1063 hamming_switch1063
  "\<lambda>n. False" hamming_decode1063
proof unfold_locales
  fix d :: "bool list"
  show "length (hamming_encode1063 d) = length d"
    by (simp add: hamming_encode1063_def)
  show "length d = 10 \<Longrightarrow> hamming_syndrome1063 (hamming_encode1063 d) = 0"
    by (simp add: hamming_encode1063_def hamming_syndrome1063_def)
  show "map_of hamming_switch1063 0 = None"
    by (simp add: hamming_switch1063_def)
  show "hamming_decode1063 d = (case map_of hamming_switch1063 (hamming_syndrome1063 d) of
      Some i \<Rightarrow> (True, d[i := \<not> d ! i]) | None \<Rightarrow> (False, d))"
    by (simp add: hamming_decode1063_def Let_def)
qed (rule hamming_flip1063 hamming_switch_hit1063; assumption)+

lemma hamming_flip16114:
  assumes "length d = 16" "i < 16"
  shows "hamming_syndrome16114 (d[i := \<not> d ! i]) =
    hamming_syndrome16114 d XOR switch_col hamming_switch16114 i"
  using assms(2) unfolding less_16_iff
  by (elim insertE)
     (simp_all add: hamming_syndrome16114_def hamming_switch16114_def switch_col_def parity_flip assms(1)
        split: if_split)

lemma hamming_switch_hit16114:
  assumes "i < 16"
  shows "map_of hamming_switch16114 (switch_col hamming_switch16114 i) = Some i"
  using assms unfolding less_16_iff
  by (elim insertE) (simp_all add: hamming_switch16114_def switch_col_def)

lemma hamming_pair16114:
  assumes "i < 16" "j < 16" "i \<noteq> j"
  shows "map_of hamming_switch16114 (switch_col hamming_switch16114 i XOR switch_col hamming_switch16114 j) = None"
    and "switch_col hamming_switch16114 i XOR switch_col hamming_switch16114 j \<noteq> 0"
  using assms unfolding less_16_iff
  by (elim insertE; simp add: hamming_switch16114_def switch_col_def)+

interpretation h16114: double_error_code 16 hamming_encode16114 hamming_syndrome16114 hamming_switch16114
  "\<lambda>n. n = 0" hamming_decode16114
proof unfold_locales
  fix d :: "bool list"
  show "length (hamming_encode16114 d) = length d"
    by (simp add: hamming_encode16114_def)
  show "length d = 16 \<Longrightarrow> hamming_syndrome16114 (hamming_encode16114 d) = 0"
    by (simp add: hamming_encode16114_def hamming_syndrome16114_def)
  show "map_of hamming_switch16114 0 = None"
    by (simp add: hamming_switch16114_def)
  show "hamming_decode16114 d = (case map_of hamming_switch16114 (hamming_syndrome16114 d) of
      Some i \<Rightarrow> (True, d[i := \<not> d ! i]) | None \<Rightarrow> (hamming_syndrome16114 d = 0, d))"
    by (simp add: hamming_decode16114_def Let_def)
qed (rule hamming_flip16114 hamming_switch_hit16114 hamming_pair16114; assumption)+

lemma hamming_flip17123:
  assumes "length d = 17" "i < 17"
  shows "hamming_syndrome17123 (d[i := \<not> d ! i]) =
    hamming_syndrome17123 d XOR switch_col hamming_switch17123 i"
  using assms(2) unfolding less_17_iff
  by (elim insertE)
     (simp_all add: hamming_syndrome17123_def hamming_switch17123_def switch_col_def parity_flip assms(1)
        split: if_split)

lemma hamming_switch_hit17123:
  assumes "i < 17"
  shows "map_of hamming_switch17123 (switch_col hamming_switch17123 i) = Some i"
  using assms unfolding less_17_iff
  by (elim insertE) (simp_all add: hamming_switch17123_def switch_col_def)

interpretation h17123: single_error_code 17 hamming_encode17123 hamming_syndrome17123 hamming_switch17123
  "\<lambda>n. n = 0" hamming_decode17123
proof unfold_locales
  fix d :: "bool list"
  show "length (hamming_encode17123 d) = length d"
    by (simp add: hamming_encode17123_def)
  show "length d = 17 \<Longrightarrow> hamming_syndrome17123 (hamming_encode17123 d) = 0"
    by (simp add: hamming_encode17123_def hamming_syndrome17123_def)
  show "map_of hamming_switch17123 0 = None"
    by (simp add: hamming_switch17123_def)
  show "hamming_decode17123 d = (case map_of hamming_switch17123 (hamming_syndrome17123 d) of
      Some i \<Rightarrow> (True, d[i := \<not> d ! i]) | None \<Rightarrow> (hamming_syndrome17123 d = 0, d))"
    by (simp add: hamming_decode17123_def Let_def)
qed (rule hamming_flip17123 hamming_switch_hit17123; assumption)+

end
