(* ===== verification/HammingCode.thy ===== *)
theory HammingCode
  imports Hamming
begin

section \<open>What the Hamming codes guarantee\<close>

text \<open>
  The properties of the six codes of \<open>Hamming\<close>, read off the interpretations.  A code is its
  block length, its encoder and its decoder.
\<close>

definition hamming_codes :: "(nat \<times> (bool list \<Rightarrow> bool list) \<times> (bool list \<Rightarrow> bool \<times> bool list)) list" where
  "hamming_codes =
     [(15, hamming_encode15113_1, hamming_decode15113_1), (15, hamming_encode15113_2, hamming_decode15113_2),
      (13, hamming_encode1393, hamming_decode1393), (10, hamming_encode1063, hamming_decode1063),
      (16, hamming_encode16114, hamming_decode16114), (17, hamming_encode17123, hamming_decode17123)]"

lemmas one_errors = h15113_1.decode_one_error h15113_2.decode_one_error h1393.decode_one_error
  h1063.decode_one_error h16114.decode_one_error h17123.decode_one_error

lemmas no_errors = h15113_1.decode_clean h15113_2.decode_clean h1393.decode_clean
  h1063.decode_clean h16114.decode_clean h17123.decode_clean

text \<open>C22: each of the six Hamming decoders repairs any single wrong bit of an encoded block, data or
  parity, and reports it with true.\<close>

theorem hamming_corrects_one_error:
  assumes "(n, enc, dec) \<in> set hamming_codes" "length d = n" "i < n"
  shows "dec ((enc d)[i := \<not> enc d ! i]) = (True, enc d)"
  using assms one_errors [OF _ _ refl, of d i] by (auto simp: hamming_codes_def)

lemma hamming_corrects_one_error_witness:
  "hamming_decode1063 ((hamming_encode1063 (replicate 10 True))[7 := \<not> hamming_encode1063 (replicate 10 True) ! 7]) =
    (True, hamming_encode1063 (replicate 10 True))"
  by (rule hamming_corrects_one_error [where n = 10]) (simp_all add: hamming_codes_def)

text \<open>An undamaged block is left alone; the (16,11,4) and (17,12,3) decoders report it with true, the other
  four with false.\<close>

theorem hamming_clean_block:
  assumes "(n, enc, dec) \<in> set hamming_codes" "length d = n"
  shows "dec (enc d) = (16 \<le> n, enc d)"
  using assms no_errors [of d] by (auto simp: hamming_codes_def)

lemma hamming_clean_block_witness:
  "hamming_decode17123 (hamming_encode17123 (replicate 17 True)) = (16 \<le> (17::nat), hamming_encode17123 (replicate 17 True))"
  by (rule hamming_clean_block [where n = 17]) (simp_all add: hamming_codes_def)

text \<open>C23: the (16,11,4) decoder notices every pair of wrong bits: it returns false and changes
  nothing.\<close>

theorem hamming16114_detects_two_errors:
  assumes "length d = 16" "i < 16" "j < 16" "i \<noteq> j" "c = hamming_encode16114 d"
    and "r = c[i := \<not> c ! i, j := \<not> c ! j]"
  shows "hamming_decode16114 r = (False, r)"
  using assms by (rule h16114.decode_two_errors)

lemma hamming16114_detects_two_errors_witness:
  "hamming_decode16114 ((hamming_encode16114 (replicate 16 True))
      [3 := \<not> hamming_encode16114 (replicate 16 True) ! 3, 12 := \<not> hamming_encode16114 (replicate 16 True) ! 12]) =
    (False, (hamming_encode16114 (replicate 16 True))
      [3 := \<not> hamming_encode16114 (replicate 16 True) ! 3, 12 := \<not> hamming_encode16114 (replicate 16 True) ! 12])"
  by (rule hamming16114_detects_two_errors [OF _ _ _ _ refl refl]) simp_all

end
