(* ===== verification/Bits.thy ===== *)
theory Bits
  imports Prelude
begin

section \<open>Bits, bytes and packed bit buffers (tools/fec_tools.c)\<close>

text \<open>
  The bit access macros \<open>READ_BIT\<close> and \<open>WRITE_BIT\<close>, the byte/bit conversions, the six bit
  symbol access of the Reed-Solomon codes and \<open>countBits\<close>.  A packed buffer is abstracted
  to the list of its bits by \<open>bits_of\<close>; the lemmas in \<open>buffer_simps\<close> show that the macros
  are \<open>nth\<close> and list update on that list.
\<close>

definition BIT_MASK_TABLE :: "u8 list" where
  "BIT_MASK_TABLE = [0x80, 0x40, 0x20, 0x10, 0x08, 0x04, 0x02, 0x01]"

definition READ_BIT :: "bytes \<Rightarrow> nat \<Rightarrow> u8" where
  "READ_BIT p i = (p ! (i div 8)) AND (BIT_MASK_TABLE ! (i mod 8))"

definition WRITE_BIT :: "bytes \<Rightarrow> nat \<Rightarrow> bool \<Rightarrow> bytes" where
  "WRITE_BIT p i b = p[i div 8 :=
     (if b then (p ! (i div 8)) OR (BIT_MASK_TABLE ! (i mod 8))
      else (p ! (i div 8)) AND NOT (BIT_MASK_TABLE ! (i mod 8)))]"

definition byteToBitsBE :: "u8 \<Rightarrow> bool list" where
  "byteToBitsBE byte =
     [byte AND 0x80 = 0x80, byte AND 0x40 = 0x40, byte AND 0x20 = 0x20, byte AND 0x10 = 0x10,
      byte AND 0x08 = 0x08, byte AND 0x04 = 0x04, byte AND 0x02 = 0x02, byte AND 0x01 = 0x01]"

definition byteToBitsLE :: "u8 \<Rightarrow> bool list" where
  "byteToBitsLE byte =
     [byte AND 0x01 = 0x01, byte AND 0x02 = 0x02, byte AND 0x04 = 0x04, byte AND 0x08 = 0x08,
      byte AND 0x10 = 0x10, byte AND 0x20 = 0x20, byte AND 0x40 = 0x40, byte AND 0x80 = 0x80]"

definition bitsToByteBE :: "bool list \<Rightarrow> u8" where
  "bitsToByteBE bits =
     (if bits ! 0 then 0x80 else 0x00) OR (if bits ! 1 then 0x40 else 0x00) OR
     (if bits ! 2 then 0x20 else 0x00) OR (if bits ! 3 then 0x10 else 0x00) OR
     (if bits ! 4 then 0x08 else 0x00) OR (if bits ! 5 then 0x04 else 0x00) OR
     (if bits ! 6 then 0x02 else 0x00) OR (if bits ! 7 then 0x01 else 0x00)"

definition bitsToByteLE :: "bool list \<Rightarrow> u8" where
  "bitsToByteLE bits =
     (if bits ! 0 then 0x01 else 0x00) OR (if bits ! 1 then 0x02 else 0x00) OR
     (if bits ! 2 then 0x04 else 0x00) OR (if bits ! 3 then 0x08 else 0x00) OR
     (if bits ! 4 then 0x10 else 0x00) OR (if bits ! 5 then 0x20 else 0x00) OR
     (if bits ! 6 then 0x40 else 0x00) OR (if bits ! 7 then 0x80 else 0x00)"

text \<open>A six bit symbol at a bit offset, first bit most significant.\<close>

definition bin2Hex :: "bytes \<Rightarrow> nat \<Rightarrow> u8" where
  "bin2Hex input offset =
     (if READ_BIT input (offset + 0) \<noteq> 0 then 0x20 else 0x00) OR
     (if READ_BIT input (offset + 1) \<noteq> 0 then 0x10 else 0x00) OR
     (if READ_BIT input (offset + 2) \<noteq> 0 then 0x08 else 0x00) OR
     (if READ_BIT input (offset + 3) \<noteq> 0 then 0x04 else 0x00) OR
     (if READ_BIT input (offset + 4) \<noteq> 0 then 0x02 else 0x00) OR
     (if READ_BIT input (offset + 5) \<noteq> 0 then 0x01 else 0x00)"

definition hex2Bin :: "u8 \<Rightarrow> bytes \<Rightarrow> nat \<Rightarrow> bytes" where
  "hex2Bin input output0 offset =
     (let output1 = WRITE_BIT output0 (offset + 0) (input AND 0x20 \<noteq> 0);
          output2 = WRITE_BIT output1 (offset + 1) (input AND 0x10 \<noteq> 0);
          output3 = WRITE_BIT output2 (offset + 2) (input AND 0x08 \<noteq> 0);
          output4 = WRITE_BIT output3 (offset + 3) (input AND 0x04 \<noteq> 0);
          output5 = WRITE_BIT output4 (offset + 4) (input AND 0x02 \<noteq> 0)
      in WRITE_BIT output5 (offset + 5) (input AND 0x01 \<noteq> 0))"

text \<open>The loop of \<open>countBits\<close> clears the lowest set bit until the value is zero.\<close>

lemma word_and_dec_less: "v \<noteq> 0 \<Longrightarrow> v AND (v - 1) < (v :: u32)"
  by (rule le_less_trans [OF word_and_le1]) (simp add: word_less_nat_alt unat_minus_one unat_gt_0 [symmetric])

function countBits_loop :: "u32 \<Rightarrow> u32 \<Rightarrow> u32" where
  "countBits_loop v count =
     (if v \<noteq> 0 then countBits_loop (v AND (v - 1)) (count + 1) else count)"
  by pat_completeness auto
termination
  by (relation "measure (\<lambda>(v, count). unat v)") (auto simp: word_less_nat_alt [symmetric] word_and_dec_less)

declare countBits_loop.simps [simp del]

definition countBits :: "u32 \<Rightarrow> u32" where
  "countBits v = countBits_loop v 0"

subsection \<open>A packed buffer as the list of its bits\<close>

definition rbit :: "bytes \<Rightarrow> nat \<Rightarrow> bool" where
  "rbit p i \<longleftrightarrow> READ_BIT p i \<noteq> 0"

definition bits_of :: "bytes \<Rightarrow> bool list" where
  "bits_of p = map (rbit p) [0..<8 * length p]"

lemma mask_table_bit: "k < 8 \<Longrightarrow> BIT_MASK_TABLE ! k = push_bit (7 - k) 1"
  by (auto simp: less8_iff BIT_MASK_TABLE_def)

lemma rbit_bit [buffer_simps]: "rbit p i = bit (p ! (i div 8)) (7 - i mod 8)"
proof -
  have "READ_BIT p i = (p ! (i div 8)) AND push_bit (7 - i mod 8) 1"
    by (simp add: READ_BIT_def mask_table_bit)
  then show ?thesis
    by (auto simp: rbit_def word_eq_bits bit_simps)
qed

lemma length_WRITE_BIT [simp]: "length (WRITE_BIT p i b) = length p"
  by (simp add: WRITE_BIT_def)

lemma rbit_WRITE_BIT [buffer_simps]:
  assumes "i < 8 * length p"
  shows "rbit (WRITE_BIT p i b) j = (if j = i then b else rbit p j)"
proof (cases "j div 8 = i div 8")
  case True
  then have "j = i \<longleftrightarrow> j mod 8 = i mod 8" by (metis mod_div_decomp)
  also have "\<dots> \<longleftrightarrow> 7 - j mod 8 = 7 - i mod 8"
    using mod_less_divisor [of 8 i] mod_less_divisor [of 8 j] by linarith
  finally show ?thesis
    using True assms by (auto simp: rbit_bit WRITE_BIT_def mask_table_bit bit_simps)
next
  case False
  then show ?thesis by (auto simp: rbit_bit WRITE_BIT_def)
qed

lemma length_bits_of [simp]: "length (bits_of p) = 8 * length p"
  by (simp add: bits_of_def)

lemma bits_of_nth [simp]: "i < 8 * length p \<Longrightarrow> bits_of p ! i = rbit p i"
  by (simp add: bits_of_def)

lemma bits_of_WRITE_BIT [buffer_simps]: "bits_of (WRITE_BIT p i b) = (bits_of p)[i := b]"
proof (cases "i < 8 * length p")
  case True
  then show ?thesis by (intro nth_equalityI) (auto simp: rbit_WRITE_BIT nth_list_update)
next
  case False
  then have "WRITE_BIT p i b = p" by (simp add: WRITE_BIT_def list_update_beyond)
  then show ?thesis using False by (simp add: list_update_beyond)
qed

lemma rbit_inject:
  assumes "length p = length q" "\<And>i. i < 8 * length p \<Longrightarrow> rbit p i = rbit q i"
  shows "p = q"
proof (rule nth_equalityI)
  fix k assume k: "k < length p"
  show "p ! k = q ! k"
  proof (rule bit_word_eqI)
    fix n assume n: "n < LENGTH(8)"
    have "rbit p (8 * k + (7 - n)) = rbit q (8 * k + (7 - n))"
      using k n by (intro assms(2)) simp
    then show "bit (p ! k) n = bit (q ! k) n"
      using n by (simp add: rbit_bit)
  qed
qed (rule assms(1))

lemma bits_of_inject: "bits_of p = bits_of q \<Longrightarrow> p = q"
proof (rule rbit_inject)
  assume eq: "bits_of p = bits_of q"
  then have "length (bits_of p) = length (bits_of q)" by simp
  then show len: "length p = length q" by simp
  fix i assume "i < 8 * length p"
  with eq len show "rbit p i = rbit q i" by (metis bits_of_nth)
qed

subsection \<open>Bit stores\<close>

text \<open>
  What the codecs need of a buffer they fill bit by bit: a read after a write, and a size
  that writing keeps.  The packed buffers and the \<open>bool\<close> arrays both promise it.
\<close>

locale bit_store =
  fixes rd :: "'s \<Rightarrow> nat \<Rightarrow> bool"
    and wr :: "'s \<Rightarrow> nat \<Rightarrow> bool \<Rightarrow> 's"
    and size_of :: "'s \<Rightarrow> nat"
  assumes rd_wr: "i < size_of s \<Longrightarrow> rd (wr s i b) j = (if j = i then b else rd s j)"
    and size_wr: "size_of (wr s i b) = size_of s"
begin

lemma size_fold: "size_of (fold (\<lambda>n s. wr s (pos n) (val n)) ns s) = size_of s"
  by (induction ns arbitrary: s) (simp_all add: size_wr)

lemma fold_other:
  assumes "\<And>n. n \<in> set ns \<Longrightarrow> pos n < size_of s" "\<And>n. n \<in> set ns \<Longrightarrow> pos n \<noteq> j"
  shows "rd (fold (\<lambda>n s. wr s (pos n) (val n)) ns s) j = rd s j"
  using assms by (induction ns arbitrary: s) (auto simp: size_wr rd_wr)

lemma fold_written:
  assumes "distinct (map pos ns)" "\<And>n. n \<in> set ns \<Longrightarrow> pos n < size_of s" "m \<in> set ns"
  shows "rd (fold (\<lambda>n s. wr s (pos n) (val n)) ns s) (pos m) = val m"
  using assms
proof (induction ns arbitrary: s)
  case (Cons n ns)
  show ?case
  proof (cases "m \<in> set ns")
    case True
    with Cons show ?thesis by (auto simp: size_wr)
  next
    case False
    with Cons.prems have m: "m = n" by simp
    from Cons.prems(1) have ne: "\<And>k. k \<in> set ns \<Longrightarrow> pos k \<noteq> pos n"
      by (metis distinct.simps(2) image_eqI list.map(2) list.set_map)
    have "rd (fold (\<lambda>n s. wr s (pos n) (val n)) ns (wr s (pos n) (val n))) (pos n)
        = rd (wr s (pos n) (val n)) (pos n)"
      using Cons.prems ne by (intro fold_other) (auto simp: size_wr)
    then show ?thesis using Cons.prems m by (simp add: rd_wr)
  qed
qed simp

end

interpretation packed: bit_store rbit WRITE_BIT "\<lambda>p. 8 * length p"
  by unfold_locales (auto simp: rbit_WRITE_BIT)

interpretation bools: bit_store "(!)" "\<lambda>xs i b. xs[i := b]" length
  by unfold_locales (auto simp: nth_list_update)

subsection \<open>Bytes and their bits\<close>

lemma byte_mask_test:
  fixes b :: u8
  shows "b AND 0x80 = 0x80 \<longleftrightarrow> bit b 7" "b AND 0x40 = 0x40 \<longleftrightarrow> bit b 6"
    "b AND 0x20 = 0x20 \<longleftrightarrow> bit b 5" "b AND 0x10 = 0x10 \<longleftrightarrow> bit b 4"
    "b AND 0x08 = 0x08 \<longleftrightarrow> bit b 3" "b AND 0x04 = 0x04 \<longleftrightarrow> bit b 2"
    "b AND 0x02 = 0x02 \<longleftrightarrow> bit b 1" "b AND 0x01 = 0x01 \<longleftrightarrow> bit b 0"
  by (auto simp: word_eq_bits bit_simps all_less_8)

lemma byte_mask_nonzero:
  fixes b :: u8
  shows "b AND 0x80 = 0 \<longleftrightarrow> \<not> bit b 7" "b AND 0x40 = 0 \<longleftrightarrow> \<not> bit b 6"
    "b AND 0x20 = 0 \<longleftrightarrow> \<not> bit b 5" "b AND 0x10 = 0 \<longleftrightarrow> \<not> bit b 4"
    "b AND 0x08 = 0 \<longleftrightarrow> \<not> bit b 3" "b AND 0x04 = 0 \<longleftrightarrow> \<not> bit b 2"
    "b AND 0x02 = 0 \<longleftrightarrow> \<not> bit b 1" "b AND 0x01 = 0 \<longleftrightarrow> \<not> bit b 0"
  by (auto simp: word_eq_bits bit_simps all_less_8)

lemma bitsToByteBE_byteToBitsBE: "bitsToByteBE (byteToBitsBE b) = b"
  by (simp add: bitsToByteBE_def byteToBitsBE_def byte_mask_test word_eq_bits bit_simps all_less_8)

lemma bitsToByteLE_byteToBitsLE: "bitsToByteLE (byteToBitsLE b) = b"
  by (simp add: bitsToByteLE_def byteToBitsLE_def byte_mask_test word_eq_bits bit_simps all_less_8)

lemma length_byteToBitsBE [simp]: "length (byteToBitsBE b) = 8"
  by (simp add: byteToBitsBE_def)

lemma bit_bitsToByteBE: "n < 8 \<Longrightarrow> bit (bitsToByteBE bs) n = bs ! (7 - n)"
  unfolding less8_iff by (elim insertE) (simp_all add: bitsToByteBE_def bit_simps)

lemma byteToBitsBE_bitsToByteBE:
  assumes "length bs = 8"
  shows "byteToBitsBE (bitsToByteBE bs) = bs"
proof (rule nth_equalityI)
  fix i assume "i < length (byteToBitsBE (bitsToByteBE bs))"
  then have "i < 8" by simp
  then have "i \<in> {0, 1, 2, 3, 4, 5, 6, 7}" by (simp only: less8_iff)
  then show "byteToBitsBE (bitsToByteBE bs) ! i = bs ! i"
    by (elim insertE) (simp_all add: byteToBitsBE_def byte_mask_test bit_bitsToByteBE)
qed (simp add: assms)

lemma byteToBitsLE_rev: "byteToBitsLE b = rev (byteToBitsBE b)"
  by (simp add: byteToBitsLE_def byteToBitsBE_def)

subsection \<open>Six bit symbols\<close>

lemma bit_bin2Hex: "bit (bin2Hex p off) n \<longleftrightarrow> n < 6 \<and> rbit p (off + (5 - n))"
proof (cases "n < 8")
  case True
  then have "n \<in> {0, 1, 2, 3, 4, 5, 6, 7}" by (simp only: less8_iff)
  then show ?thesis
    by (elim insertE) (simp_all add: bin2Hex_def rbit_def bit_simps)
next
  case False
  then show ?thesis by (auto dest: bit_imp_le_length)
qed

lemma bin2Hex_less: "bin2Hex p off < 64"
  using word_less_exp_bits [of 6 "bin2Hex p off"] by (simp add: bit_bin2Hex)

lemma length_hex2Bin [simp]: "length (hex2Bin v p off) = length p"
  by (simp add: hex2Bin_def Let_def)

lemma rbit_hex2Bin [buffer_simps]:
  assumes "off + 6 \<le> 8 * length p"
  shows "rbit (hex2Bin v p off) j =
    (if off \<le> j \<and> j < off + 6 then bit v (5 - (j - off)) else rbit p j)"
proof -
  have "j = off \<or> j = off + 1 \<or> j = off + 2 \<or> j = off + 3 \<or> j = off + 4 \<or> j = off + 5
      \<or> j < off \<or> off + 6 \<le> j" by linarith
  then show ?thesis
    using assms by (auto simp: hex2Bin_def Let_def rbit_WRITE_BIT byte_mask_nonzero)
qed

lemma bin2Hex_hex2Bin [buffer_simps]:
  assumes "off + 6 \<le> 8 * length p" "v < 64"
  shows "bin2Hex (hex2Bin v p off) off = v"
proof -
  have "bit v n \<Longrightarrow> n < 6" for n
    using assms(2) word_less_exp_bits [of 6 v] not_less [of n 6] by auto
  then have bits: "n < 6 \<and> bit v (5 - (5 - n)) \<longleftrightarrow> bit v n" for n
    by (cases "n < 6") auto
  have "5 - n < 6" for n :: nat by simp
  then show ?thesis
    using assms(1) by (intro bit_word_eqI) (simp add: bit_bin2Hex rbit_hex2Bin bits)
qed

lemma bin2Hex_hex2Bin_other [buffer_simps]:
  assumes "off + 6 \<le> 8 * length p" "off' + 6 \<le> off \<or> off + 6 \<le> off'"
  shows "bin2Hex (hex2Bin v p off) off' = bin2Hex p off'"
  using assms by (intro bit_word_eqI) (auto simp: bit_bin2Hex rbit_hex2Bin)

lemma bin2Hex_cong:
  assumes "\<And>j. off \<le> j \<Longrightarrow> j < off + 6 \<Longrightarrow> rbit p j = rbit q j"
  shows "bin2Hex p off = bin2Hex q off"
  using assms by (intro bit_word_eqI) (auto simp: bit_bin2Hex)

subsection \<open>Counting bits\<close>

definition weight :: "'a::len word \<Rightarrow> nat" where
  "weight w = card {i. bit w i}"

lemma finite_bits [simp]: "finite {i. bit (w :: 'a::len word) i}"
  by (rule finite_subset [of _ "{..<LENGTH('a)}"]) (auto dest: bit_imp_le_length)

lemma weight_0 [simp]: "weight 0 = 0"
  by (simp add: weight_def)

lemma weight_eq_0 [simp]: "weight w = 0 \<longleftrightarrow> w = 0"
  by (auto simp: weight_def word_eq_bits dest: bit_imp_le_length)

lemma weight_le: "weight (w :: 'a::len word) \<le> LENGTH('a)"
proof -
  have "{i. bit w i} \<subseteq> {..<LENGTH('a)}" by (auto dest: bit_imp_le_length)
  then show ?thesis unfolding weight_def by (metis card_lessThan card_mono finite_lessThan)
qed

text \<open>\<open>v & (v - 1)\<close> is \<open>v\<close> without its lowest set bit.\<close>

lemma and_dec_bits:
  fixes v :: "'a::len word"
  assumes low: "bit v k" "\<And>j. j < k \<Longrightarrow> \<not> bit v j"
  shows "bit (v AND (v - 1)) n \<longleftrightarrow> bit v n \<and> n \<noteq> k"
proof -
  define u where "u = v AND NOT (push_bit k 1)"
  have k: "k < LENGTH('a)" using low(1) by (rule bit_imp_le_length)
  have ub: "bit u i \<longleftrightarrow> bit v i \<and> i \<noteq> k" for i
    using k by (auto simp: u_def bit_simps dest: bit_imp_le_length)
  have "v = u OR push_bit k 1"
    using low(1) by (intro bit_word_eqI) (auto simp: ub bit_simps)
  also have "\<dots> = u + push_bit k 1"
    by (rule disjunctive_add [symmetric]) (auto simp: ub bit_simps)
  finally have "v - 1 = u + mask k"
    by (simp add: mask_eq_exp_minus_1 push_bit_eq_mult)
  also have "\<dots> = u OR mask k"
    by (rule disjunctive_add) (use low(2) in \<open>auto simp: ub bit_simps\<close>)
  finally show ?thesis
    using low by (auto simp: bit_simps ub)
qed

lemma weight_and_dec:
  fixes v :: "'a::len word"
  assumes "v \<noteq> 0"
  shows "weight v = Suc (weight (v AND (v - 1)))"
proof -
  obtain i where "bit v i" using assms by (auto simp: word_eq_bits)
  define k where "k = (LEAST k. bit v k)"
  have low: "bit v k" "\<And>j. j < k \<Longrightarrow> \<not> bit v j"
    using \<open>bit v i\<close> unfolding k_def by (auto intro: LeastI dest: not_less_Least)
  have "{i. bit (v AND (v - 1)) i} = {i. bit v i} - {k}"
    using and_dec_bits [OF low] by auto
  moreover have "card {i. bit v i} = Suc (card ({i. bit v i} - {k}))"
    by (rule card.remove) (use low in auto)
  ultimately show ?thesis by (simp add: weight_def)
qed

lemma countBits_loop_weight: "countBits_loop v c = c + of_nat (weight v)"
proof (induction v c rule: countBits_loop.induct)
  case (1 v c)
  then show ?case
    by (simp add: countBits_loop.simps [of v c] weight_and_dec [of v])
qed

lemma countBits_weight: "countBits v = of_nat (weight v)"
  by (simp add: countBits_def countBits_loop_weight)

lemma unat_countBits: "unat (countBits v) = weight v"
  using weight_le [of v] by (simp add: countBits_weight unat_of_nat)

end
