(* ===== verification/Cyclic.thy ===== *)
theory Cyclic
  imports Bits
begin

section \<open>Cyclic codes: the syndrome loop and linear tables\<close>

text \<open>
  \<open>get_syndrome_23127\<close> and \<open>QR1676_getSyndrome1576\<close> (tools/fec_tools.c) are the same two
  nested \<open>while\<close> loops over different constants; \<open>syn_align\<close> is the inner loop and
  \<open>syn_loop\<close> the outer one.  Neither loop has a bound in the source, so both are partial:
  \<open>None\<close> means that the C function never returns.  The reference is the remainder of the
  division by the generator polynomial, \<open>poly_rem\<close>.  The locale \<open>syndrome_code\<close> is the
  interface of a table decoder to its code.
\<close>

partial_function (option) syn_align :: "u32 \<Rightarrow> u32 \<Rightarrow> u32 option" where
  "syn_align aux pattern =
     (if aux AND pattern \<noteq> 0 then Some aux else syn_align (drop_bit 1 aux) pattern)"

partial_function (option) syn_loop :: "u32 \<Rightarrow> u32 \<Rightarrow> u32 \<Rightarrow> u32 \<Rightarrow> u32 \<Rightarrow> u32 option" where
  "syn_loop msk xdeg gen aux pattern =
     (if pattern AND msk \<noteq> 0
      then Option.bind (syn_align aux pattern)
             (\<lambda>aux'. syn_loop msk xdeg gen aux' (pattern XOR (aux' div xdeg) * gen))
      else Some pattern)"

subsection \<open>Division by the generator polynomial\<close>

definition rem_step :: "u32 \<Rightarrow> nat \<Rightarrow> nat \<Rightarrow> u32 \<Rightarrow> u32" where
  "rem_step gen deg k p = (if bit p k then p XOR push_bit (k - deg) gen else p)"

definition poly_rem :: "u32 \<Rightarrow> nat \<Rightarrow> nat \<Rightarrow> u32 \<Rightarrow> u32" where
  "poly_rem gen deg hi p = fold (rem_step gen deg) (rev [deg..<Suc hi]) p"

lemma rem_step_xor: "rem_step gen deg k (p XOR q) = rem_step gen deg k p XOR rem_step gen deg k q"
  by (auto simp: rem_step_def bit_simps intro!: bit_word_eqI)

lemma fold_rem_xor:
  "fold (rem_step gen deg) ks (p XOR q) = fold (rem_step gen deg) ks p XOR fold (rem_step gen deg) ks q"
  by (induction ks arbitrary: p q) (simp_all add: rem_step_xor)

lemma poly_rem_xor: "poly_rem gen deg hi (p XOR q) = poly_rem gen deg hi p XOR poly_rem gen deg hi q"
  unfolding poly_rem_def by (rule fold_rem_xor)

lemma poly_rem_0 [simp]: "poly_rem gen deg hi 0 = 0"
  using poly_rem_xor [of gen deg hi 0 0] by simp

lemma fold_rem_id: "(\<And>k. k \<in> set ks \<Longrightarrow> \<not> bit p k) \<Longrightarrow> fold (rem_step gen deg) ks p = p"
  by (induction ks) (auto simp: rem_step_def)

lemma poly_rem_small: "(\<And>k. deg \<le> k \<Longrightarrow> \<not> bit p k) \<Longrightarrow> poly_rem gen deg hi p = p"
  unfolding poly_rem_def by (rule fold_rem_id) auto

lemma poly_rem_Suc:
  "deg \<le> Suc k \<Longrightarrow> poly_rem gen deg (Suc k) p = poly_rem gen deg k (rem_step gen deg (Suc k) p)"
  by (simp add: poly_rem_def)

text \<open>A generator polynomial of degree \<open>deg\<close>.\<close>

definition is_gen :: "u32 \<Rightarrow> nat \<Rightarrow> bool" where
  "is_gen gen deg \<longleftrightarrow> 0 < deg \<and> bit gen deg \<and> gen < 2 ^ Suc deg \<and> Suc deg < 32"

lemma rem_step_clears:
  assumes g: "is_gen gen deg" and k: "deg \<le> k" "k < 31" and p: "p < 2 ^ Suc k"
  shows "rem_step gen deg k p < 2 ^ k"
proof -
  have gb: "\<And>i. Suc deg \<le> i \<Longrightarrow> \<not> bit gen i" and gd: "bit gen deg"
    using g word_less_exp_bits [of "Suc deg" gen] by (auto simp: is_gen_def)
  have pb: "\<And>i. Suc k \<le> i \<Longrightarrow> \<not> bit p i"
    using p k word_less_exp_bits [of "Suc k" p] by auto
  have "\<not> bit (rem_step gen deg k p) i" if "k \<le> i" for i
  proof (cases "i = k")
    case True
    then show ?thesis using gd k by (auto simp: rem_step_def bit_simps)
  next
    case False
    with that have "Suc k \<le> i" by simp
    with pb [of i] gb [of "i - (k - deg)"] k show ?thesis
      by (auto simp: rem_step_def bit_simps)
  qed
  then show ?thesis using k word_less_exp_bits [of k "rem_step gen deg k p"] by auto
qed

lemma poly_rem_less:
  assumes g: "is_gen gen deg" and "hi < 31" "deg \<le> Suc hi" "p < 2 ^ Suc hi"
  shows "poly_rem gen deg hi p < 2 ^ deg"
  using assms(2-)
proof (induction hi arbitrary: p)
  case 0
  then show ?case
    using rem_step_clears [OF g, of 0 p] by (cases deg) (auto simp: poly_rem_def)
next
  case (Suc k)
  show ?case
  proof (cases "deg \<le> Suc k")
    case True
    have "rem_step gen deg (Suc k) p < 2 ^ Suc k"
      using Suc.prems True by (intro rem_step_clears [OF g]) auto
    then show ?thesis
      using Suc.IH Suc.prems True by (simp add: poly_rem_Suc del: power_Suc)
  next
    case False
    then have "deg = Suc (Suc k)" using Suc.prems by simp
    with Suc.prems show ?thesis by (simp add: poly_rem_def del: power_Suc)
  qed
qed

subsection \<open>The loop computes the remainder\<close>

definition high_mask :: "nat \<Rightarrow> u32" where
  "high_mask deg = NOT (2 ^ deg - 1)"

lemma bit_high_mask: "bit (high_mask deg) n \<longleftrightarrow> n < 32 \<and> deg \<le> n"
proof -
  have "high_mask deg = NOT (mask deg)" by (simp add: high_mask_def mask_eq_exp_minus_1)
  then show ?thesis by (auto simp: bit_simps)
qed

lemma and_high_mask: "p AND high_mask deg = 0 \<longleftrightarrow> (\<forall>k\<ge>deg. \<not> bit (p :: u32) k)"
proof -
  have "p AND high_mask deg = 0 \<longleftrightarrow> (\<forall>n<32. \<not> (bit p n \<and> deg \<le> n))"
    by (auto simp: word_eq_bits bit_and_iff bit_high_mask)
  then show ?thesis using bit_imp_le_length [of p] by fastforce
qed

lemma exp_and_bit: "k < 32 \<Longrightarrow> (2 ^ k AND p = 0) \<longleftrightarrow> \<not> bit (p :: u32) k"
  by (auto simp: word_eq_bits bit_simps)

lemma exp_drop_1: "0 < k \<Longrightarrow> k < 32 \<Longrightarrow> drop_bit (Suc 0) (2 ^ k :: u32) = 2 ^ (k - Suc 0)"
  by (rule bit_word_eqI) (auto simp: bit_simps)

lemma syn_align_hit: "k < 32 \<Longrightarrow> bit p k \<Longrightarrow> syn_align (2 ^ k) p = Some (2 ^ k)"
  by (simp add: syn_align.simps [of "2 ^ k"] exp_and_bit)

lemma syn_align_miss:
  "k < 32 \<Longrightarrow> \<not> bit p k \<Longrightarrow> 0 < k \<Longrightarrow> syn_align (2 ^ k) p = syn_align (2 ^ (k - 1)) p"
  by (subst syn_align.simps) (simp add: exp_and_bit exp_drop_1)

lemma quotient_shift:
  assumes g: "is_gen gen deg" and k: "deg \<le> k" "k < 32"
  shows "(2 ^ k div 2 ^ deg) * gen = push_bit (k - deg) gen"
proof -
  have "(2 ^ k :: u32) div 2 ^ deg = drop_bit deg (2 ^ k)"
    by (simp add: drop_bit_eq_div)
  also have "\<dots> = 2 ^ (k - deg)"
    by (rule bit_word_eqI) (use k in \<open>auto simp: bit_simps\<close>)
  finally show ?thesis by (simp add: push_bit_eq_mult mult.commute)
qed

lemma syn_loop_done:
  "p AND high_mask deg = 0 \<Longrightarrow> syn_loop (high_mask deg) x gen aux p = Some p"
  by (simp add: syn_loop.simps [of _ _ _ _ p])

lemma syn_loop_miss:
  assumes "k < 32" "\<not> bit p k" "0 < k"
  shows "syn_loop m x gen (2 ^ k) p = syn_loop m x gen (2 ^ (k - 1)) p"
  by (simp add: syn_loop.simps [of _ _ _ _ p] syn_align_miss [OF assms])

lemma syn_loop_rem:
  assumes g: "is_gen gen deg" and "deg \<le> Suc k" "k < 31" "p < 2 ^ Suc k"
  shows "syn_loop (high_mask deg) (2 ^ deg) gen (2 ^ k) p = Some (poly_rem gen deg k p)"
  using assms(2-)
proof (induction k arbitrary: p)
  case 0
  have "deg = Suc 0" using g 0 by (simp add: is_gen_def)
  then have "\<forall>i\<ge>deg. \<not> bit p i"
    using 0 word_less_exp_bits [of "Suc 0" p] by auto
  then show ?case by (simp add: syn_loop_done and_high_mask poly_rem_small)
next
  case (Suc k)
  show ?case
  proof (cases "deg \<le> Suc k")
    case False
    then have "deg = Suc (Suc k)" using Suc.prems by simp
    then have "\<forall>i\<ge>deg. \<not> bit p i"
      using Suc.prems word_less_exp_bits [of "Suc (Suc k)" p] by auto
    then show ?thesis by (simp add: syn_loop_done and_high_mask poly_rem_small)
  next
    case True
    define q where "q = rem_step gen deg (Suc k) p"
    have q: "q < 2 ^ Suc k"
      unfolding q_def using Suc.prems True by (intro rem_step_clears [OF g]) auto
    have nq: "\<not> bit q (Suc k)" using q Suc.prems word_less_exp_bits [of "Suc k" q] by auto
    have "syn_loop (high_mask deg) (2 ^ deg) gen (2 ^ Suc k) p
        = syn_loop (high_mask deg) (2 ^ deg) gen (2 ^ Suc k) q"
    proof (cases "bit p (Suc k)")
      case hit: True
      then have "p AND high_mask deg \<noteq> 0" using True by (auto simp: and_high_mask)
      then show ?thesis
        using hit Suc.prems True syn_align_hit [of "Suc k" p] quotient_shift [OF g, of "Suc k"]
        by (simp add: syn_loop.simps [of _ _ _ _ p] q_def rem_step_def del: power_Suc)
    next
      case False
      then show ?thesis by (simp add: q_def rem_step_def)
    qed
    also have "\<dots> = syn_loop (high_mask deg) (2 ^ deg) gen (2 ^ k) q"
      using syn_loop_miss [of "Suc k" q] nq Suc.prems by simp
    also have "\<dots> = Some (poly_rem gen deg k q)"
      using Suc.IH [OF True _ q] Suc.prems by simp
    finally show ?thesis using True by (simp add: poly_rem_Suc q_def)
  qed
qed

subsection \<open>Words too wide for the loop\<close>

text \<open>
  \<open>aux\<close> starts at \<open>2 ^ k\<close> and is only shifted right, so a bit of the pattern above \<open>k\<close> is
  never cancelled: the loop can only return a word that still has it, and its guard
  forbids that.
\<close>

definition pow_or_0 :: "nat \<Rightarrow> u32 set" where
  "pow_or_0 k = insert 0 {2 ^ j |j. j \<le> k}"

lemma pow_or_0_drop: "k < 32 \<Longrightarrow> aux \<in> pow_or_0 k \<Longrightarrow> drop_bit (Suc 0) aux \<in> pow_or_0 k"
proof -
  assume k: "k < 32" and "aux \<in> pow_or_0 k"
  then consider "aux = 0" | j where "aux = 2 ^ j" "j \<le> k" by (auto simp: pow_or_0_def)
  then show ?thesis
  proof cases
    case 2
    show ?thesis
    proof (cases j)
      case 0
      then show ?thesis using 2 by (simp add: pow_or_0_def)
    next
      case (Suc i)
      then have "drop_bit (Suc 0) aux = 2 ^ i" using 2 k exp_drop_1 [of j] by simp
      then show ?thesis using 2 Suc by (auto simp: pow_or_0_def)
    qed
  qed (simp add: pow_or_0_def)
qed

lemma syn_align_pow:
  assumes ret: "syn_align aux p = Some r" and aux: "aux \<in> pow_or_0 k" and k: "k < 32"
  shows "r \<in> pow_or_0 k"
proof -
  have "aux \<in> pow_or_0 k \<longrightarrow> r \<in> pow_or_0 k"
  proof (rule syn_align.raw_induct [where P = "\<lambda>aux p r. aux \<in> pow_or_0 k \<longrightarrow> r \<in> pow_or_0 k", OF _ ret])
    fix f aux pattern r
    assume IH: "\<And>aux pattern r. f aux pattern = Some r \<Longrightarrow> aux \<in> pow_or_0 k \<longrightarrow> r \<in> pow_or_0 k"
      and eq: "(if aux AND pattern \<noteq> 0 then Some aux else f (drop_bit 1 aux) pattern) = Some r"
    show "aux \<in> pow_or_0 k \<longrightarrow> r \<in> pow_or_0 k"
      using IH [of "drop_bit 1 aux" pattern r] eq pow_or_0_drop [OF k] by (auto split: if_splits)
  qed
  with aux show ?thesis by simp
qed

lemma quotient_high_bits:
  assumes "aux \<in> pow_or_0 k" "k < 32" "gen < 2 ^ Suc deg" "Suc deg < 32" "k < i"
  shows "\<not> bit ((aux div 2 ^ deg) * gen) i"
proof -
  have gb: "\<And>n. Suc deg \<le> n \<Longrightarrow> \<not> bit gen n"
    using assms word_less_exp_bits [of "Suc deg" gen] by auto
  from assms(1) consider "aux = 0" | j where "aux = 2 ^ j" "j \<le> k" by (auto simp: pow_or_0_def)
  then show ?thesis
  proof cases
    case 2
    have dv: "aux div 2 ^ deg = drop_bit deg aux" by (simp add: drop_bit_eq_div)
    show ?thesis
    proof (cases "deg \<le> j")
      case True
      have "drop_bit deg aux = 2 ^ (j - deg)"
        by (rule bit_word_eqI) (use True 2 assms in \<open>auto simp: bit_simps\<close>)
      then have "(aux div 2 ^ deg) * gen = push_bit (j - deg) gen"
        by (simp add: dv push_bit_eq_mult mult.commute)
      then show ?thesis using gb [of "i - (j - deg)"] 2 True assms by (auto simp: bit_simps)
    next
      case False
      have "drop_bit deg aux = 0"
        by (rule bit_word_eqI) (use False 2 in \<open>auto simp: bit_simps\<close>)
      then show ?thesis by (simp add: dv)
    qed
  qed simp
qed

lemma syn_loop_keeps_high:
  assumes ret: "syn_loop m x gen aux p = Some r"
    and "x = 2 ^ deg" "aux \<in> pow_or_0 k" "k < 32" "gen < 2 ^ Suc deg" "Suc deg < 32" "k < i"
  shows "r AND m = 0 \<and> bit r i = bit p i"
proof -
  let ?P = "\<lambda>m x gen aux p r. x = 2 ^ deg \<longrightarrow> aux \<in> pow_or_0 k \<longrightarrow> gen < 2 ^ Suc deg \<longrightarrow>
      r AND m = 0 \<and> bit r i = bit p i"
  have "?P m x gen aux p r"
  proof (rule syn_loop.raw_induct [where P = "?P", OF _ ret], intro impI)
    fix f :: "u32 \<Rightarrow> u32 \<Rightarrow> u32 \<Rightarrow> u32 \<Rightarrow> u32 \<Rightarrow> u32 option" and m x gen aux p r
    assume IH: "\<And>m x gen aux p r. f m x gen aux p = Some r \<Longrightarrow> ?P m x gen aux p r"
      and eq: "(if p AND m \<noteq> 0 then Option.bind (syn_align aux p)
          (\<lambda>aux'. f m x gen aux' (p XOR (aux' div x) * gen)) else Some p) = Some r"
      and x: "x = 2 ^ deg" and aux: "aux \<in> pow_or_0 k" and gen: "gen < 2 ^ Suc deg"
    show "r AND m = 0 \<and> bit r i = bit p i"
    proof (cases "p AND m = 0")
      case False
      with eq obtain aux' where al: "syn_align aux p = Some aux'"
        and rec: "f m x gen aux' (p XOR (aux' div x) * gen) = Some r"
        by (auto simp: bind_eq_Some_conv)
      have aux': "aux' \<in> pow_or_0 k" using syn_align_pow [OF al aux] assms by simp
      then have "\<not> bit ((aux' div x) * gen) i"
        using quotient_high_bits x gen assms by blast
      then show ?thesis
        using IH [OF rec] aux' gen x by (simp add: bit_xor_iff)
    qed (use eq in auto)
  qed
  with assms show ?thesis by simp
qed

lemma syn_loop_diverges:
  assumes "is_gen gen deg" "deg \<le> k" "k < 31" "2 ^ Suc k \<le> p"
  shows "syn_loop (high_mask deg) (2 ^ deg) gen (2 ^ k) p = None"
proof (rule ccontr)
  assume "syn_loop (high_mask deg) (2 ^ deg) gen (2 ^ k) p \<noteq> None"
  then obtain r where ret: "syn_loop (high_mask deg) (2 ^ deg) gen (2 ^ k) p = Some r" by auto
  obtain i where i: "Suc k \<le> i" "bit p i"
    using assms word_less_exp_bits [of "Suc k" p] by (auto simp: not_less [symmetric])
  have "2 ^ k \<in> pow_or_0 k" by (auto simp: pow_or_0_def)
  then have "r AND high_mask deg = 0 \<and> bit r i = bit p i"
    using assms i by (intro syn_loop_keeps_high [OF ret, where deg = deg and k = k]) (auto simp: is_gen_def)
  then show False using i assms by (auto simp: and_high_mask)
qed

subsection \<open>Tables of linear functions\<close>

text \<open>
  A table whose second half is its first half with a constant exclusive-ored in, down to a
  single zero, is the table of a linear function; \<open>xor_table\<close> builds it from the images of
  the unit words.
\<close>

fun xor_table_from :: "'a::len word list \<Rightarrow> 'a word list \<Rightarrow> 'a word list" where
  "xor_table_from acc [] = acc"
| "xor_table_from acc (g # gs) = xor_table_from (acc @ map (\<lambda>x. g XOR x) acc) gs"

definition xor_table :: "'a::len word list \<Rightarrow> 'a word list" where
  "xor_table gs = xor_table_from [0] gs"

lemma xor_table_from_append:
  "xor_table_from acc (gs @ hs) = xor_table_from (xor_table_from acc gs) hs"
  by (induction gs arbitrary: acc) simp_all

lemma xor_table_snoc: "xor_table (gs @ [g]) = xor_table gs @ map (\<lambda>x. g XOR x) (xor_table gs)"
  by (simp add: xor_table_def xor_table_from_append)

lemma length_xor_table [simp]: "length (xor_table gs) = 2 ^ length gs"
proof (induction gs rule: rev_induct)
  case (snoc g gs)
  then show ?case by (simp add: xor_table_snoc)
qed (simp add: xor_table_def)

lemma of_nat_add_exp:
  assumes "i < 2 ^ n" "n < 32"
  shows "(of_nat (2 ^ n + i) :: u32) = 2 ^ n XOR of_nat i"
proof -
  have "\<not> bit (of_nat i :: u32) n"
    using assms by (auto simp: bit_simps) (simp add: bit_nat_def)
  then have "\<not> bit (2 ^ n :: u32) m \<or> \<not> bit (of_nat i :: u32) m" for m
    by (auto simp: bit_simps)
  then have dj: "\<And>m. \<not> bit (2 ^ n :: u32) m \<or> \<not> bit (of_nat i :: u32) m" .
  have "(2 ^ n :: u32) + of_nat i = 2 ^ n OR of_nat i" by (rule disjunctive_add) (rule dj)
  moreover have "(2 ^ n :: u32) XOR of_nat i = 2 ^ n OR of_nat i"
    by (rule bit_word_eqI) (use dj in \<open>auto simp: bit_or_iff bit_xor_iff\<close>)
  ultimately show ?thesis by simp
qed

lemma linear_table:
  fixes f :: "u32 \<Rightarrow> 'a::len word"
  assumes lin: "\<And>a b. f (a XOR b) = f a XOR f b" and "n < 32" "i < 2 ^ n"
  shows "xor_table (map (\<lambda>k. f (2 ^ k)) [0..<n]) ! i = f (of_nat i)"
  using assms(2-)
proof (induction n arbitrary: i)
  case 0
  then show ?case using lin [of 0 0] by (simp add: xor_table_def)
next
  case (Suc n)
  let ?t = "xor_table (map (\<lambda>k. f (2 ^ k)) [0..<n])"
  have len: "length ?t = 2 ^ n" by simp
  show ?case
  proof (cases "i < 2 ^ n")
    case True
    then show ?thesis using Suc len by (simp add: xor_table_snoc nth_append)
  next
    case False
    then obtain j where j: "i = 2 ^ n + j" using le_Suc_ex not_less by blast
    then have "j < 2 ^ n" using Suc.prems by simp
    then have "xor_table (map (\<lambda>k. f (2 ^ k)) [0..<Suc n]) ! i = f (2 ^ n) XOR f (of_nat j)"
      using Suc len j by (simp add: xor_table_snoc nth_append)
    also have "\<dots> = f (of_nat i)"
      using \<open>j < 2 ^ n\<close> Suc.prems by (simp add: j of_nat_add_exp lin del: of_nat_add)
    finally show ?thesis .
  qed
qed

subsection \<open>Words of bounded weight\<close>

lemma obtain_word_with_bits:
  assumes "B \<subseteq> {..<32}"
  obtains e :: u32 where "{i. bit e i} = B"
proof
  show "{i. bit (horner_sum of_bool 2 (map (\<lambda>i. i \<in> B) [0..<32]) :: u32) i} = B"
    using assms by (auto simp: bit_horner_sum_bit_word_iff)
qed

lemma inj_bits: "inj (\<lambda>e :: u32. {i. bit e i})"
  by (auto intro!: injI bit_word_eqI)

lemma card_bounded_weight:
  assumes "n < 32"
  shows "card {e :: u32. e < 2 ^ n \<and> weight e \<le> t} = (\<Sum>j\<le>t. n choose j)"
proof -
  let ?E = "{e :: u32. e < 2 ^ n \<and> weight e \<le> t}"
  let ?S = "\<lambda>j. {B. B \<subseteq> {..<n} \<and> card B = j}"
  have "(\<lambda>e :: u32. {i. bit e i}) ` ?E = (\<Union>j\<le>t. ?S j)"
  proof (intro equalityI subsetI)
    fix B assume "B \<in> (\<lambda>e :: u32. {i. bit e i}) ` ?E"
    then show "B \<in> (\<Union>j\<le>t. ?S j)"
      using assms by (auto simp: weight_def word_less_exp_bits)
  next
    fix B assume B: "B \<in> (\<Union>j\<le>t. ?S j)"
    then have "B \<subseteq> {..<32}" using assms by auto
    then obtain e :: u32 where e: "{i. bit e i} = B" by (rule obtain_word_with_bits)
    with B assms have "e \<in> ?E" by (auto simp: weight_def word_less_exp_bits)
    with e show "B \<in> (\<lambda>e :: u32. {i. bit e i}) ` ?E" by auto
  qed
  moreover have "card ((\<lambda>e :: u32. {i. bit e i}) ` ?E) = card ?E"
    by (rule card_image) (rule inj_on_subset [OF inj_bits], simp)
  moreover have "card (\<Union>j\<le>t. ?S j) = (\<Sum>j\<le>t. card (?S j))"
    by (rule card_UN_disjoint) (auto intro: finite_subset [of _ "Pow {..<n}"])
  ultimately show ?thesis by (simp add: n_subsets)
qed

lemma weight_xor_le: "weight (a XOR b) \<le> weight a + weight (b :: 'a::len word)"
proof -
  have "{i. bit (a XOR b) i} \<subseteq> {i. bit a i} \<union> {i. bit b i}" by (auto simp: bit_xor_iff)
  then have "card {i. bit (a XOR b) i} \<le> card ({i. bit a i} \<union> {i. bit b i})"
    by (intro card_mono) auto
  then show ?thesis
    using card_Un_le [of "{i. bit a i}" "{i. bit b i}"] by (simp add: weight_def)
qed

lemma weight_xor_card:
  "weight (a XOR b) + 2 * card {i. bit a i \<and> bit b i} = weight a + weight (b :: 'a::len word)"
proof -
  let ?A = "{i. bit a i}" and ?B = "{i. bit b i}"
  have "card {i. bit (a XOR b) i} = card (?A - ?B) + card (?B - ?A)"
    by (subst card_Un_disjoint [symmetric]) (auto simp: bit_xor_iff intro!: arg_cong [where f = card])
  moreover have "card ?A = card (?A - ?B) + card (?A \<inter> ?B)"
    by (subst card_Un_disjoint [symmetric]) (auto intro!: arg_cong [where f = card])
  moreover have "card ?B = card (?B - ?A) + card (?A \<inter> ?B)"
    by (subst card_Un_disjoint [symmetric]) (auto intro!: arg_cong [where f = card])
  ultimately show ?thesis by (simp add: weight_def Int_def)
qed

lemma odd_weight_xor: "odd (weight (a XOR b)) \<longleftrightarrow> odd (weight a) \<noteq> odd (weight (b :: 'a::len word))"
proof -
  have "odd (weight (a XOR b) + 2 * card {i. bit a i \<and> bit b i}) \<longleftrightarrow> odd (weight a + weight b)"
    by (simp only: weight_xor_card)
  then show ?thesis by simp
qed

lemma weight_drop_1: "weight w = weight (drop_bit 1 w) + of_bool (bit w 0)"
  for w :: "'a::len word"
proof -
  let ?D = "{i. bit (drop_bit 1 w) i}"
  have "{i. bit w i} = Suc ` ?D \<union> (if bit w 0 then {0} else {})"
  proof (rule set_eqI)
    fix i show "i \<in> {i. bit w i} \<longleftrightarrow> i \<in> Suc ` ?D \<union> (if bit w 0 then {0} else {})"
      by (cases i) (auto simp: bit_drop_bit_eq)
  qed
  moreover have "card (Suc ` ?D) = card ?D" by (rule card_image) simp
  ultimately show ?thesis by (auto simp: weight_def card_insert_if)
qed

lemma split_weight:
  fixes w :: u32
  assumes "weight w \<le> 2 * t" "w < 2 ^ m" "m < 32"
  obtains a b where "w = a XOR b" "weight a \<le> t" "weight b \<le> t" "a < 2 ^ m" "b < 2 ^ m"
proof -
  let ?B = "{i. bit w i}"
  obtain S where S: "S \<subseteq> ?B" "card S = min t (card ?B)"
    by (metis min.cobounded2 obtain_subset_with_card_n)
  have B: "?B \<subseteq> {..<32}" by (auto dest: bit_imp_le_length)
  obtain a :: u32 where a: "{i. bit a i} = S" using S B by (meson obtain_word_with_bits order_trans)
  obtain b :: u32 where b: "{i. bit b i} = ?B - S" using B by (meson Diff_subset obtain_word_with_bits order_trans)
  have "w = a XOR b" using a b S by (intro bit_word_eqI) (auto simp: bit_xor_iff)
  moreover have "weight a \<le> t" using a S by (simp add: weight_def)
  moreover have "weight b \<le> t"
    using S assms b by (simp add: weight_def card_Diff_subset finite_subset min_def split: if_splits)
  moreover have "a < 2 ^ m" "b < 2 ^ m"
    using assms a b S by (auto simp: word_less_exp_bits)
  ultimately show thesis by (rule that)
qed

subsection \<open>Checking a decoding table in one pass over each entry\<close>

text \<open>
  \<open>scan n cs s t\<close> reads the binary digits of the numeral \<open>n\<close> against the images \<open>cs\<close> of the
  unit words under a linear function: the word has at most \<open>t\<close> bits, none beyond the list,
  and its image is \<open>s\<close>.
\<close>

fun scan :: "num \<Rightarrow> u32 list \<Rightarrow> u32 \<Rightarrow> nat \<Rightarrow> bool" where
  "scan num.One (c # cs) s (Suc t) = (s = c)"
| "scan (num.Bit0 n) (c # cs) s t = scan n cs s t"
| "scan (num.Bit1 n) (c # cs) s (Suc t) = scan n cs (c XOR s) t"
| "scan _ _ _ _ = False"

fun table_ok :: "u32 list \<Rightarrow> nat \<Rightarrow> u32 \<Rightarrow> u32 list \<Rightarrow> bool" where
  "table_ok cs t s [] = True"
| "table_ok cs t s (e # es) =
    ((if e = 0 then s = 0 else \<exists>n. e = numeral n \<and> scan n cs s t) \<and> table_ok cs t (s + 1) es)"


lemma push_bit_numeral:
  fixes k :: nat
  shows "push_bit k (numeral (num.Bit0 n) :: u32) = push_bit (Suc k) (numeral n)"
    "push_bit k (numeral (num.Bit1 n) :: u32) = 2 ^ k XOR push_bit (Suc k) (numeral n)"
proof -
  have s: "\<And>w :: u32. push_bit (Suc k) w = push_bit k (2 * w)"
    by (metis (no_types, lifting) mult.commute push_bit_Suc)
  show "push_bit k (numeral (num.Bit0 n) :: u32) = push_bit (Suc k) (numeral n)"
    unfolding s by simp
  have "(numeral (num.Bit1 n) :: u32) = 1 XOR numeral (num.Bit0 n)" by simp
  then have "push_bit k (numeral (num.Bit1 n) :: u32) = push_bit k (1 XOR numeral (num.Bit0 n))"
    by (rule arg_cong)
  also have "\<dots> = 2 ^ k XOR push_bit k (numeral (num.Bit0 n))"
    unfolding push_bit_xor by (simp add: push_bit_eq_mult)
  finally show "push_bit k (numeral (num.Bit1 n) :: u32) = 2 ^ k XOR push_bit (Suc k) (numeral n)"
    unfolding s by simp
qed

lemma weight_exp: "weight (2 ^ k :: 'a::len word) \<le> 1"
proof -
  have "{i. bit (2 ^ k :: 'a word) i} \<subseteq> {k}" by (auto simp: bit_simps)
  then show ?thesis unfolding weight_def by (metis card_mono card.empty card_insert_disjoint empty_iff finite.emptyI finite_insert One_nat_def)
qed

lemma exp_less_exp: "k < m \<Longrightarrow> m \<le> 31 \<Longrightarrow> (2 :: u32) ^ k < 2 ^ m"
  by (subst word_less_exp_bits) (auto simp: bit_simps)

lemma scan_sound:
  fixes f :: "u32 \<Rightarrow> u32"
  assumes lin: "\<And>a b. f (a XOR b) = f a XOR f b"
  shows "scan n cs s t \<Longrightarrow> cs = map (\<lambda>i. f (2 ^ i)) [k..<m] \<Longrightarrow> m \<le> 31 \<Longrightarrow>
    f (push_bit k (numeral n)) = s \<and> weight (push_bit k (numeral n) :: u32) \<le> t \<and>
    push_bit k (numeral n) < (2 ^ m :: u32)"
proof (induction n cs s t arbitrary: k rule: scan.induct)
  case (1 c cs s t)
  then have k: "k < m" "c = f (2 ^ k)" by (cases "k < m"; auto simp: upt_conv_Cons)+
  have "(2 :: u32) ^ k < 2 ^ m" using k 1 by (simp add: exp_less_exp)
  then show ?case using 1 k weight_exp [of k, where 'a = 32] by (simp add: push_bit_eq_mult)
next
  case (2 n c cs s t)
  then have k: "k < m" "cs = map (\<lambda>i. f (2 ^ i)) [Suc k..<m]" by (cases "k < m"; auto simp: upt_conv_Cons)+
  have "scan n cs s t" using 2(2) by (simp only: scan.simps)
  from 2(1) [OF this k(2) 2(4)] show ?case by (simp only: push_bit_numeral)
next
  case (3 n c cs s t)
  then have k: "k < m" "c = f (2 ^ k)" "cs = map (\<lambda>i. f (2 ^ i)) [Suc k..<m]"
    by (cases "k < m"; auto simp: upt_conv_Cons)+
  let ?w = "push_bit (Suc k) (numeral n) :: u32"
  have "scan n cs (c XOR s) t" using 3(2) by (simp only: scan.simps)
  from 3(1) [OF this k(3) 3(4)] have IH: "f ?w = c XOR s" "weight ?w \<le> t" "?w < 2 ^ m"
    by simp_all
  have "(2 :: u32) ^ k < 2 ^ m" using k 3 by (simp add: exp_less_exp)
  then have "2 ^ k XOR ?w < 2 ^ m" using IH 3 by (intro word_xor_less_exp) auto
  moreover have "weight (2 ^ k XOR ?w) \<le> Suc t"
    using weight_xor_le [of "2 ^ k" ?w] weight_exp [of k, where 'a = 32] IH by simp
  ultimately show ?case unfolding push_bit_numeral using IH k by (simp add: lin)
qed simp_all

lemma table_ok_sound:
  fixes f :: "u32 \<Rightarrow> u32"
  assumes lin: "\<And>a b. f (a XOR b) = f a XOR f b" and m: "m \<le> 31"
  shows "table_ok (map (\<lambda>i. f (2 ^ i)) [0..<m]) t s es \<Longrightarrow> i < length es \<Longrightarrow>
    f (es ! i) = s + of_nat i \<and> weight (es ! i) \<le> t \<and> es ! i < 2 ^ m"
proof (induction es arbitrary: s i)
  case (Cons e es)
  show ?case
  proof (cases i)
    case 0
    have "f 0 = 0" using lin [of 0 0] by simp
    moreover have "(0 :: u32) < 2 ^ m" using m by (simp add: word_gt_0)
    ultimately show ?thesis
      using Cons.prems 0 scan_sound [where f = f and k = 0 and m = m and s = s and t = t, OF lin _ refl m]
      by (auto split: if_splits)
  next
    case (Suc j)
    then show ?thesis using Cons.IH [of "s + 1" j] Cons.prems by (simp add: algebra_simps)
  qed
qed simp

lemma table_ok_append:
  "table_ok cs t s (xs @ ys) \<longleftrightarrow> table_ok cs t s xs \<and> table_ok cs t (s + of_nat (length xs)) ys"
  by (induction xs arbitrary: s) (auto simp: algebra_simps)


lemma table_ok_Nil: "table_ok cs t s []"
  by simp

lemma table_ok_0: "table_ok cs t s (0 # es) = (s = 0 \<and> table_ok cs t (s + 1) es)"
  by simp

lemma table_ok_numeral:
  assumes "scan n cs s t" "numeral n \<noteq> (0 :: u32)"
  shows "table_ok cs t s (numeral n # es) = table_ok cs t (s + 1) es"
proof -
  have "\<exists>k. (numeral n :: u32) = numeral k \<and> scan k cs s t" using assms by blast
  with assms(2) show ?thesis by (simp only: table_ok.simps if_False simp_thms)
qed

lemmas table_ok_eval = table_ok_Nil table_ok_0 table_ok_numeral
  table_ok_numeral [where n = num.One, unfolded numeral_One]

subsection \<open>Table decoders\<close>

text \<open>
  A table decoder needs a linear syndrome and a table that lists, under its syndrome,
  every error pattern it claims to correct.
\<close>

locale syndrome_code =
  fixes syn :: "u32 \<Rightarrow> u32"
    and tab :: "u32 list"
    and correctable :: "u32 \<Rightarrow> bool"
  assumes syn_xor: "syn (a XOR b) = syn a XOR syn b"
    and tab_syn: "correctable e \<Longrightarrow> tab ! unat (syn e) = e"
begin

lemma corrects:
  "syn c = 0 \<Longrightarrow> correctable e \<Longrightarrow> (c XOR e) XOR tab ! unat (syn (c XOR e)) = c"
  by (simp add: syn_xor tab_syn)

text \<open>No code word but zero is the sum of two correctable patterns.\<close>

lemma distance: "syn (e XOR e') = 0 \<Longrightarrow> correctable e \<Longrightarrow> correctable e' \<Longrightarrow> e = e'"
  by (metis syn_xor tab_syn word_xor_eq_0)

end

end
