(* ===== verification/Golay.thy ===== *)
theory Golay
  imports GolayTables Cyclic
begin

section \<open>The Golay codes (tools/fec_tools.c)\<close>

text \<open>
  The Golay (23,12) code and its extension (24,12), as P25, D-Star, YSF and AMBE voice use
  them.  A function that calls \<open>get_syndrome_23127\<close> returns \<open>None\<close> where that loop does not
  end.  The tables are proved to be the code: every entry of the encoding tables is the
  systematic code word of its index, and the decoding table is a bijection onto the error
  patterns of weight at most 3 (the code is perfect).
\<close>

definition X22 :: u32 where "X22 = 0x00400000"
definition X11 :: u32 where "X11 = 0x00000800"
definition MASK12 :: u32 where "MASK12 = 0xfffff800"
definition GENPOL1 :: u32 where "GENPOL1 = 0x00000c75"

definition get_syndrome_23127 :: "u32 \<Rightarrow> u32 option" where
  "get_syndrome_23127 pattern =
     (let aux = X22
      in if pattern \<ge> X11 then syn_loop MASK12 X11 GENPOL1 aux pattern else Some pattern)"

definition golay24128_encode23127 :: "u32 \<Rightarrow> u32" where
  "golay24128_encode23127 data = ENCODING_TABLE_23127 ! unat data"

definition golay24128_encode24128 :: "u32 \<Rightarrow> u32" where
  "golay24128_encode24128 data = ENCODING_TABLE_24128 ! unat data"

definition golay24128_decode23127 :: "u32 \<Rightarrow> u32 option" where
  "golay24128_decode23127 code =
     (case get_syndrome_23127 code of
        None \<Rightarrow> None
      | Some syndrome \<Rightarrow>
          (let error_pattern = DECODING_TABLE_23127 ! unat syndrome;
               code' = code XOR error_pattern
           in Some (drop_bit 11 code')))"

definition golay24128_correct23127 :: "u32 \<Rightarrow> u32 option" where
  "golay24128_correct23127 code =
     (case get_syndrome_23127 code of
        None \<Rightarrow> None
      | Some syndrome \<Rightarrow> Some (code XOR DECODING_TABLE_23127 ! unat syndrome))"

definition golay24128_decode24128 :: "bytes \<Rightarrow> u32 option" where
  "golay24128_decode24128 bs =
     (let code0 = ucast (bs ! 0);
          code1 = push_bit 8 code0 OR ucast (bs ! 1);
          code2 = push_bit 8 code1 OR ucast (bs ! 2)
      in golay24128_decode23127 (drop_bit 1 code2))"

text \<open>The count of corrected bits and the data word that \<open>*data\<close> receives.\<close>

definition golay24128_errors23127 :: "u32 \<Rightarrow> (u32 \<times> u32) option" where
  "golay24128_errors23127 w =
     (case golay24128_decode23127 w of
        None \<Rightarrow> None
      | Some d \<Rightarrow> Some (countBits (w XOR drop_bit 1 (golay24128_encode23127 d)), d))"

definition golay24128_errors24128 :: "u32 \<Rightarrow> (u32 \<times> u32) option" where
  "golay24128_errors24128 w =
     (case golay24128_decode23127 (drop_bit 1 w) of
        None \<Rightarrow> None
      | Some d \<Rightarrow> Some (countBits (w XOR golay24128_encode24128 d), d))"

subsection \<open>The syndrome\<close>

definition golay_rem :: "u32 \<Rightarrow> u32" where
  "golay_rem p = poly_rem GENPOL1 11 22 p"

lemma gen_golay: "is_gen GENPOL1 11"
  by (simp add: is_gen_def GENPOL1_def)

lemma get_syndrome_rem: "p < 2 ^ 23 \<Longrightarrow> get_syndrome_23127 p = Some (golay_rem p)"
proof -
  assume p: "p < 2 ^ 23"
  show ?thesis
  proof (cases "p \<ge> X11")
    case True
    have "X22 = 2 ^ 22" "X11 = 2 ^ 11" "MASK12 = high_mask 11"
      by (simp_all add: X22_def X11_def MASK12_def high_mask_def)
    then show ?thesis
      using syn_loop_rem [OF gen_golay, of 22 p] True p
      by (simp add: get_syndrome_23127_def golay_rem_def)
  next
    case False
    then have "p < 2 ^ 11" by (simp add: X11_def)
    then have "\<And>k. 11 \<le> k \<Longrightarrow> \<not> bit p k" using word_less_exp_bits [of 11 p] by auto
    then show ?thesis using False
      by (simp add: get_syndrome_23127_def golay_rem_def poly_rem_small)
  qed
qed

lemma get_syndrome_diverges: "2 ^ 23 \<le> p \<Longrightarrow> get_syndrome_23127 p = None"
proof -
  assume p: "2 ^ 23 \<le> p"
  then have "p \<ge> X11" by (simp add: X11_def) unat_arith
  moreover have "X22 = 2 ^ 22" "X11 = 2 ^ 11" "MASK12 = high_mask 11"
    by (simp_all add: X22_def X11_def MASK12_def high_mask_def)
  ultimately show ?thesis
    using syn_loop_diverges [OF gen_golay, of 22 p] p by (simp add: get_syndrome_23127_def)
qed

subsection \<open>The encoding tables\<close>

lemma golay_rem_xor: "golay_rem (a XOR b) = golay_rem a XOR golay_rem b"
  by (simp add: golay_rem_def poly_rem_xor)

text \<open>The systematic code word, shifted left by one as the table holds it, and extended.\<close>

definition golay_word :: "u32 \<Rightarrow> u32" where
  "golay_word d = push_bit 11 d XOR golay_rem (push_bit 11 d)"

definition golay_shifted :: "u32 \<Rightarrow> u32" where
  "golay_shifted d = push_bit 1 (golay_word d)"

definition golay_extended :: "u32 \<Rightarrow> u32" where
  "golay_extended d = golay_shifted d XOR (if odd (weight (golay_shifted d)) then 1 else 0)"

lemma golay_word_xor: "golay_word (a XOR b) = golay_word a XOR golay_word b"
  by (simp add: golay_word_def golay_rem_xor push_bit_xor ac_simps)

lemma golay_shifted_xor: "golay_shifted (a XOR b) = golay_shifted a XOR golay_shifted b"
  unfolding golay_shifted_def golay_word_xor by (rule push_bit_xor)

lemma golay_extended_xor: "golay_extended (a XOR b) = golay_extended a XOR golay_extended b"
  by (simp add: golay_extended_def golay_shifted_xor odd_weight_xor ac_simps)

lemma golay_rem_fold:
  "golay_rem p = fold (rem_step GENPOL1 11) [22, 21, 20, 19, 18, 17, 16, 15, 14, 13, 12, 11] p"
  by (simp add: golay_rem_def poly_rem_def upt_rec)

lemma golay_steps:
  "rem_step GENPOL1 11 22 p = (if bit p 22 then p XOR 0x63a800 else p)"
  "rem_step GENPOL1 11 21 p = (if bit p 21 then p XOR 0x31d400 else p)"
  "rem_step GENPOL1 11 20 p = (if bit p 20 then p XOR 0x18ea00 else p)"
  "rem_step GENPOL1 11 19 p = (if bit p 19 then p XOR 0xc7500 else p)"
  "rem_step GENPOL1 11 18 p = (if bit p 18 then p XOR 0x63a80 else p)"
  "rem_step GENPOL1 11 17 p = (if bit p 17 then p XOR 0x31d40 else p)"
  "rem_step GENPOL1 11 16 p = (if bit p 16 then p XOR 0x18ea0 else p)"
  "rem_step GENPOL1 11 15 p = (if bit p 15 then p XOR 0xc750 else p)"
  "rem_step GENPOL1 11 14 p = (if bit p 14 then p XOR 0x63a8 else p)"
  "rem_step GENPOL1 11 13 p = (if bit p 13 then p XOR 0x31d4 else p)"
  "rem_step GENPOL1 11 12 p = (if bit p 12 then p XOR 0x18ea else p)"
  "rem_step GENPOL1 11 11 p = (if bit p 11 then p XOR 0xc75 else p)"
  by (simp_all add: rem_step_def GENPOL1_def push_bit_eq_mult)

definition golay_columns :: "u32 list" where
  "golay_columns = [0x001, 0x002, 0x004, 0x008, 0x010, 0x020, 0x040, 0x080, 0x100, 0x200, 0x400,
   0x475, 0x49F, 0x54B, 0x6E3, 0x1B3, 0x366, 0x6CC, 0x1ED, 0x3DA, 0x7B4, 0x31D, 0x63A]"


lemma upt_23: "[0..<23] = [0, 1, 2, 3, 4, 5, 6, 7, 8, 9, 10, 11, 12, 13, 14, 15, 16, 17, 18, 19, 20, 21, 22]"
  by (simp add: upt_rec)

lemma golay_rem_units:
  "golay_rem 1 = 1"
  "golay_rem 0x000002 = 0x002"
  "golay_rem 0x000004 = 0x004"
  "golay_rem 0x000008 = 0x008"
  "golay_rem 0x000010 = 0x010"
  "golay_rem 0x000020 = 0x020"
  "golay_rem 0x000040 = 0x040"
  "golay_rem 0x000080 = 0x080"
  "golay_rem 0x000100 = 0x100"
  "golay_rem 0x000200 = 0x200"
  "golay_rem 0x000400 = 0x400"
  "golay_rem 0x000800 = 0x475"
  "golay_rem 0x001000 = 0x49F"
  "golay_rem 0x002000 = 0x54B"
  "golay_rem 0x004000 = 0x6E3"
  "golay_rem 0x008000 = 0x1B3"
  "golay_rem 0x010000 = 0x366"
  "golay_rem 0x020000 = 0x6CC"
  "golay_rem 0x040000 = 0x1ED"
  "golay_rem 0x080000 = 0x3DA"
  "golay_rem 0x100000 = 0x7B4"
  "golay_rem 0x200000 = 0x31D"
  "golay_rem 0x400000 = 0x63A"
  by (simp_all add: golay_rem_fold golay_steps)

lemma golay_columns: "map (\<lambda>k. golay_rem (2 ^ k)) [0..<23] = golay_columns"
  unfolding upt_23 by (simp add: golay_columns_def golay_rem_units)

definition golay_rows :: "u32 list" where
  "golay_rows = [0x0018EA, 0x00293E, 0x004A96, 0x008DC6, 0x010366, 0x0206CC, 0x040D98, 0x0803DA, 0x1007B4, 0x200F68, 0x40063A, 0x800C74]"

definition golay_rows_ext :: "u32 list" where
  "golay_rows_ext = [0x0018EB, 0x00293E, 0x004A97, 0x008DC6, 0x010367, 0x0206CD, 0x040D99, 0x0803DA, 0x1007B4, 0x200F68, 0x40063B, 0x800C75]"

lemma golay_words_units:
  "golay_shifted 1 = 0x0018EA"
  "golay_shifted 0x002 = 0x00293E"
  "golay_shifted 0x004 = 0x004A96"
  "golay_shifted 0x008 = 0x008DC6"
  "golay_shifted 0x010 = 0x010366"
  "golay_shifted 0x020 = 0x0206CC"
  "golay_shifted 0x040 = 0x040D98"
  "golay_shifted 0x080 = 0x0803DA"
  "golay_shifted 0x100 = 0x1007B4"
  "golay_shifted 0x200 = 0x200F68"
  "golay_shifted 0x400 = 0x40063A"
  "golay_shifted 0x800 = 0x800C74"
  by (simp_all add: golay_shifted_def golay_word_def golay_rem_units push_bit_eq_mult)

lemma weight_units:
  "weight (0x0018EA :: u32) = 7"
  "weight (0x00293E :: u32) = 8"
  "weight (0x004A96 :: u32) = 7"
  "weight (0x008DC6 :: u32) = 8"
  "weight (0x010366 :: u32) = 7"
  "weight (0x0206CC :: u32) = 7"
  "weight (0x040D98 :: u32) = 7"
  "weight (0x0803DA :: u32) = 8"
  "weight (0x1007B4 :: u32) = 8"
  "weight (0x200F68 :: u32) = 8"
  "weight (0x40063A :: u32) = 7"
  "weight (0x800C74 :: u32) = 7"
  by (simp_all add: unat_countBits [symmetric] countBits_def countBits_loop.simps)

lemma upt_12: "[0..<12] = [0, 1, 2, 3, 4, 5, 6, 7, 8, 9, 10, 11]"
  by (simp add: upt_rec)

lemma golay_rows: "map (\<lambda>k. golay_shifted (2 ^ k)) [0..<12] = golay_rows"
  unfolding upt_12 by (simp add: golay_rows_def golay_words_units)

lemma golay_rows_ext: "map (\<lambda>k. golay_extended (2 ^ k)) [0..<12] = golay_rows_ext"
  unfolding upt_12 golay_extended_def by (simp add: golay_rows_ext_def golay_words_units weight_units)


lemma golay_rows_pieces:
  "xor_table [0x0018EA, 0x00293E, 0x004A96, 0x008DC6, 0x010366, 0x0206CC, 0x040D98, 0x0803DA, 0x1007B4, 0x200F68] = ENCODING_TABLE_23127_0"
  "map (\<lambda>x. 0x40063A XOR x) ENCODING_TABLE_23127_0 = ENCODING_TABLE_23127_1"
  "map (\<lambda>x. 0x800C74 XOR x) ENCODING_TABLE_23127_0 = ENCODING_TABLE_23127_2"
  "map (\<lambda>x. 0x800C74 XOR x) ENCODING_TABLE_23127_1 = ENCODING_TABLE_23127_3"
  subgoal by (simp add: ENCODING_TABLE_23127_0_def xor_table_def)
  subgoal by (simp add: ENCODING_TABLE_23127_0_def ENCODING_TABLE_23127_1_def)
  subgoal by (simp add: ENCODING_TABLE_23127_0_def ENCODING_TABLE_23127_2_def)
  subgoal by (simp add: ENCODING_TABLE_23127_1_def ENCODING_TABLE_23127_3_def)
  done

lemma golay_rows_table: "ENCODING_TABLE_23127 = xor_table golay_rows"
proof -
  have eq: "golay_rows = ([0x0018EA, 0x00293E, 0x004A96, 0x008DC6, 0x010366, 0x0206CC, 0x040D98, 0x0803DA, 0x1007B4, 0x200F68] @ [0x40063A]) @ [0x800C74]"
    by (simp add: golay_rows_def)
  show ?thesis
    unfolding eq xor_table_snoc golay_rows_pieces map_append ENCODING_TABLE_23127_def by simp
qed

lemma golay_rows_entry: "d < 4096 \<Longrightarrow> ENCODING_TABLE_23127 ! unat d = golay_shifted d"
  unfolding golay_rows_table golay_rows [symmetric]
  by (subst linear_table) (simp_all add: golay_shifted_xor word_less_nat_alt)

lemma golay_rows_ext_pieces:
  "xor_table [0x0018EB, 0x00293E, 0x004A97, 0x008DC6, 0x010367, 0x0206CD, 0x040D99, 0x0803DA, 0x1007B4, 0x200F68] = ENCODING_TABLE_24128_0"
  "map (\<lambda>x. 0x40063B XOR x) ENCODING_TABLE_24128_0 = ENCODING_TABLE_24128_1"
  "map (\<lambda>x. 0x800C75 XOR x) ENCODING_TABLE_24128_0 = ENCODING_TABLE_24128_2"
  "map (\<lambda>x. 0x800C75 XOR x) ENCODING_TABLE_24128_1 = ENCODING_TABLE_24128_3"
  subgoal by (simp add: ENCODING_TABLE_24128_0_def xor_table_def)
  subgoal by (simp add: ENCODING_TABLE_24128_0_def ENCODING_TABLE_24128_1_def)
  subgoal by (simp add: ENCODING_TABLE_24128_0_def ENCODING_TABLE_24128_2_def)
  subgoal by (simp add: ENCODING_TABLE_24128_1_def ENCODING_TABLE_24128_3_def)
  done

lemma golay_rows_ext_table: "ENCODING_TABLE_24128 = xor_table golay_rows_ext"
proof -
  have eq: "golay_rows_ext = ([0x0018EB, 0x00293E, 0x004A97, 0x008DC6, 0x010367, 0x0206CD, 0x040D99, 0x0803DA, 0x1007B4, 0x200F68] @ [0x40063B]) @ [0x800C75]"
    by (simp add: golay_rows_ext_def)
  show ?thesis
    unfolding eq xor_table_snoc golay_rows_ext_pieces map_append ENCODING_TABLE_24128_def by simp
qed

lemma golay_rows_ext_entry: "d < 4096 \<Longrightarrow> ENCODING_TABLE_24128 ! unat d = golay_extended d"
  unfolding golay_rows_ext_table golay_rows_ext [symmetric]
  by (subst linear_table) (simp_all add: golay_extended_xor word_less_nat_alt)


subsection \<open>The decoding table\<close>

lemma length_decoding [simp]:
  "length DECODING_TABLE_23127_0 = 1024" "length DECODING_TABLE_23127_1 = 1024"
  by (simp_all add: DECODING_TABLE_23127_0_def DECODING_TABLE_23127_1_def)

lemma decoding_0_ok: "table_ok golay_columns 3 0 DECODING_TABLE_23127_0"
  by (simp add: DECODING_TABLE_23127_0_def golay_columns_def table_ok_eval numeral_3_eq_3 del: table_ok.simps(2))

lemma decoding_1_ok: "table_ok golay_columns 3 1024 DECODING_TABLE_23127_1"
  by (simp add: DECODING_TABLE_23127_1_def golay_columns_def table_ok_eval numeral_3_eq_3 del: table_ok.simps(2))

lemma decoding_ok: "table_ok golay_columns 3 0 DECODING_TABLE_23127"
  by (simp add: DECODING_TABLE_23127_def table_ok_append decoding_0_ok decoding_1_ok)

definition golay_errors :: "u32 set" where
  "golay_errors = {e. e < 2 ^ 23 \<and> weight e \<le> 3}"

lemma decoding_entry:
  assumes "s < 2048"
  shows "golay_rem (DECODING_TABLE_23127 ! s) = of_nat s" "DECODING_TABLE_23127 ! s \<in> golay_errors"
proof -
  have "length DECODING_TABLE_23127 = 2048" by (simp add: DECODING_TABLE_23127_def)
  then show "golay_rem (DECODING_TABLE_23127 ! s) = of_nat s" "DECODING_TABLE_23127 ! s \<in> golay_errors"
    using table_ok_sound [of golay_rem 23 3 0 DECODING_TABLE_23127 s] assms decoding_ok
    by (simp_all add: golay_rem_xor golay_columns golay_errors_def)
qed

lemma card_golay_errors: "card golay_errors = 2048"
proof -
  have "{..3} = {0, 1, 2, 3 :: nat}" by auto
  then have "(\<Sum>j\<le>3. 23 choose j) = (2048 :: nat)"
    by (simp add: numeral_eq_Suc)
  then show ?thesis using card_bounded_weight [of 23 3] by (simp add: golay_errors_def)
qed

text \<open>The code is perfect: the table lists every pattern of weight at most 3 exactly once.\<close>

lemma decoding_bij: "bij_betw (\<lambda>s. DECODING_TABLE_23127 ! s) {..<2048} golay_errors"
proof -
  have inj: "inj_on (\<lambda>s. DECODING_TABLE_23127 ! s) {..<2048}"
  proof (rule inj_onI)
    fix s s' assume "s \<in> {..<2048::nat}" "s' \<in> {..<2048::nat}"
      and "DECODING_TABLE_23127 ! s = DECODING_TABLE_23127 ! s'"
    then have "(of_nat s :: u32) = of_nat s'" "s < 2048" "s' < 2048"
      using decoding_entry(1) by (metis lessThan_iff)+
    then show "s = s'" by (simp add: word_unat_eq_iff unat_of_nat)
  qed
  have "(\<lambda>s. DECODING_TABLE_23127 ! s) ` {..<2048} \<subseteq> golay_errors"
    using decoding_entry(2) by auto
  moreover have "card ((\<lambda>s. DECODING_TABLE_23127 ! s) ` {..<2048::nat}) = card golay_errors"
    using card_image [OF inj] card_golay_errors by simp
  moreover have "finite golay_errors" using card_golay_errors by (simp add: card_ge_0_finite)
  ultimately show ?thesis using inj by (simp add: bij_betw_def card_subset_eq)
qed

interpretation golay: syndrome_code golay_rem DECODING_TABLE_23127 "\<lambda>e. e \<in> golay_errors"
proof
  fix e assume "e \<in> golay_errors"
  then have "e \<in> (\<lambda>s. DECODING_TABLE_23127 ! s) ` {..<2048}"
    using decoding_bij by (simp only: bij_betw_def)
  then obtain s where "s < 2048" "DECODING_TABLE_23127 ! s = e" by auto
  moreover have "unat (of_nat s :: u32) = s" using \<open>s < 2048\<close> by (simp add: unat_of_nat)
  ultimately show "DECODING_TABLE_23127 ! unat (golay_rem e) = e"
    using decoding_entry(1) by force
qed (rule golay_rem_xor)

end
