(* ===== verification/GolayCode.thy ===== *)
theory GolayCode
  imports Golay
begin

section \<open>The Golay codes correct three errors\<close>

text \<open>
  What the tables of \<open>Golay\<close> give: the encoders produce code words, every 23 bit word is
  within distance 3 of exactly one of them, and the decoders find it.
\<close>

subsection \<open>Code words\<close>

text \<open>The powers of two below which the data, the syndromes and the words are.\<close>

lemma less_exp_bits:
  fixes w :: u32
  shows "w < 2048 \<longleftrightarrow> (\<forall>i\<ge>11. \<not> bit w i)" "w < 4096 \<longleftrightarrow> (\<forall>i\<ge>12. \<not> bit w i)"
    "w < 8388608 \<longleftrightarrow> (\<forall>i\<ge>23. \<not> bit w i)"
  using word_less_exp_bits [of 11 w] word_less_exp_bits [of 12 w] word_less_exp_bits [of 23 w]
  by simp_all

lemma golay_errors_iff: "e \<in> golay_errors \<longleftrightarrow> e < 8388608 \<and> weight e \<le> 3"
  by (simp add: golay_errors_def)

lemma xor_less_23: "a < 8388608 \<Longrightarrow> b < 8388608 \<Longrightarrow> a XOR b < (8388608 :: u32)"
  by (simp add: less_exp_bits bit_xor_iff)

lemma golay_rem_small: "p < 2048 \<Longrightarrow> golay_rem p = p"
  unfolding golay_rem_def by (rule poly_rem_small) (simp add: less_exp_bits)

lemma golay_rem_less: "p < 8388608 \<Longrightarrow> golay_rem p < 2048"
  unfolding golay_rem_def using poly_rem_less [OF gen_golay, of 22 p] by simp

lemma push_11_less: "d < 4096 \<Longrightarrow> push_bit 11 d < (8388608 :: u32)"
  by (auto simp: less_exp_bits bit_push_bit_iff)

lemma golay_word_less: "d < 4096 \<Longrightarrow> golay_word d < 8388608"
  unfolding golay_word_def
  by (intro xor_less_23 push_11_less order.strict_trans [OF golay_rem_less [OF push_11_less]]) simp_all

lemma golay_rem_word: "d < 4096 \<Longrightarrow> golay_rem (golay_word d) = 0"
  by (simp add: golay_word_def golay_rem_xor golay_rem_small golay_rem_less push_11_less)

lemma drop_golay_word: "d < 4096 \<Longrightarrow> drop_bit 11 (golay_word d) = d"
proof -
  assume d: "d < 4096"
  then have "\<And>i. 11 \<le> i \<Longrightarrow> \<not> bit (golay_rem (push_bit 11 d)) i"
    using golay_rem_less [OF push_11_less [OF d]] by (simp add: less_exp_bits)
  moreover have d12: "\<And>i. bit d i \<Longrightarrow> i < 12" using d by (meson less_exp_bits(2) not_le)
  ultimately show ?thesis
    by (intro bit_word_eqI)
      (auto simp: golay_word_def bit_drop_bit_eq bit_xor_iff bit_push_bit_iff dest: d12)
qed

lemma golay_word_of_rem:
  assumes "w < 8388608" "golay_rem w = 0"
  shows "drop_bit 11 w < 4096" "w = golay_word (drop_bit 11 w)"
proof -
  let ?d = "drop_bit 11 w"
  have wb: "\<And>i. 23 \<le> i \<Longrightarrow> \<not> bit w i" using assms by (simp add: less_exp_bits)
  then show "?d < 4096" by (simp add: less_exp_bits bit_drop_bit_eq)
  have w: "w = push_bit 11 ?d XOR take_bit 11 w"
    by (rule bit_word_eqI) (auto simp: bit_simps)
  have "take_bit 11 w < 2048" by (simp add: less_exp_bits bit_take_bit_iff)
  then have "golay_rem (push_bit 11 ?d) = take_bit 11 w"
    using assms(2) w golay_rem_xor [of "push_bit 11 ?d" "take_bit 11 w"] golay_rem_small by simp
  then show "w = golay_word ?d" using w by (simp add: golay_word_def)
qed

lemma golay_distance:
  assumes "w < 8388608" "golay_rem w = 0" "weight w \<le> 6"
  shows "w = 0"
proof -
  obtain a b where "w = a XOR b" "a \<in> golay_errors" "b \<in> golay_errors"
    by (rule split_weight [of w 3 23]) (use assms in \<open>simp_all add: golay_errors_iff\<close>)
  then show ?thesis using golay.distance assms by simp
qed

lemma drop_shifted: "d < 4096 \<Longrightarrow> drop_bit 1 (golay_shifted d) = golay_word d"
proof -
  assume "d < 4096"
  then have "\<And>i. bit (golay_word d) i \<Longrightarrow> i < 23"
    using golay_word_less by (meson less_exp_bits(3) not_le)
  then have "Suc i < LENGTH(32)" if "bit (golay_word d) i" for i using that by fastforce
  then show ?thesis
    unfolding golay_shifted_def
    by (intro bit_word_eqI) (auto simp only: bit_drop_bit_eq bit_push_bit_iff o_def possible_bit_word plus_1_eq_Suc diff_Suc_1)
qed

lemma drop_extended: "d < 4096 \<Longrightarrow> drop_bit 1 (golay_extended d) = golay_word d"
  by (simp add: golay_extended_def drop_bit_xor drop_shifted [simplified])

lemma even_extended: "even (weight (golay_extended d))"
proof -
  have "weight (1 :: u32) = 1" by (simp add: unat_countBits [symmetric] countBits_def countBits_loop.simps)
  then show ?thesis using odd_weight_xor [of "golay_shifted d" 1] by (auto simp: golay_extended_def)
qed

lemma encode23127_word: "d < 4096 \<Longrightarrow> drop_bit 1 (golay24128_encode23127 d) = golay_word d"
  by (simp only: golay24128_encode23127_def golay_rows_entry drop_shifted)

lemma encode24128_word:
  "d < 4096 \<Longrightarrow> golay24128_encode24128 d = golay_extended d"
  by (simp only: golay24128_encode24128_def golay_rows_ext_entry)

subsection \<open>Decoding\<close>

lemma decode_near:
  assumes "d < 4096" "e \<in> golay_errors"
  shows "golay24128_decode23127 (golay_word d XOR e) = Some d"
    "golay24128_correct23127 (golay_word d XOR e) = Some (golay_word d)"
proof -
  have "golay_word d XOR e < 8388608"
    using assms golay_word_less [of d] by (simp add: xor_less_23 golay_errors_iff)
  then show "golay24128_decode23127 (golay_word d XOR e) = Some d"
    "golay24128_correct23127 (golay_word d XOR e) = Some (golay_word d)"
    using golay.corrects [of "golay_word d" e] assms
    by (simp_all add: golay24128_decode23127_def golay24128_correct23127_def get_syndrome_rem
        golay_rem_word drop_golay_word del: drop_bit_xor)
qed

lemma every_word_near:
  assumes "w < 8388608"
  obtains d e where "d < 4096" "e \<in> golay_errors" "w = golay_word d XOR e"
proof -
  let ?e = "DECODING_TABLE_23127 ! unat (golay_rem w)"
  have s: "unat (golay_rem w) < 2048"
    using golay_rem_less [OF assms] by (simp add: word_less_nat_alt)
  have e: "?e \<in> golay_errors" "golay_rem ?e = golay_rem w"
    using decoding_entry [OF s] by simp_all
  then have "w XOR ?e < 8388608" "golay_rem (w XOR ?e) = 0"
    using assms by (simp_all add: golay_rem_xor golay_errors_iff xor_less_23)
  from golay_word_of_rem [OF this]
  have d: "drop_bit 11 (w XOR ?e) < 4096" "w XOR ?e = golay_word (drop_bit 11 (w XOR ?e))" .
  then have "w = golay_word (drop_bit 11 (w XOR ?e)) XOR ?e" by (metis word_xor_cancel(2))
  with d(1) e(1) show thesis by (rule that)
qed

text \<open>Near a code word the decoder finds it, so near code words are unique.\<close>

lemma word_near_encoded:
  assumes "w < 8388608"
  shows "\<exists>d. d < 4096 \<and> weight (w XOR drop_bit 1 (golay24128_encode23127 d)) \<le> 3"
proof -
  obtain d e where d: "d < 4096" and e: "e \<in> golay_errors" and w: "w = golay_word d XOR e" using assms by (rule every_word_near)
  have "w XOR golay_word d = e" unfolding w by (simp only: xor.commute [of "golay_word d"] word_xor_cancel)
  then have "weight (w XOR drop_bit 1 (golay24128_encode23127 d)) \<le> 3"
    using e by (simp only: encode23127_word [OF d] golay_errors_iff)
  then show ?thesis using d by blast
qed

lemma near_encoded:
  assumes "w < 8388608" "d < 4096" "weight (w XOR drop_bit 1 (golay24128_encode23127 d)) \<le> 3"
  shows "golay24128_decode23127 w = Some d \<and> golay24128_correct23127 w = Some (drop_bit 1 (golay24128_encode23127 d))"
proof -
  let ?e = "golay_word d XOR w"
  have "w XOR drop_bit 1 (golay24128_encode23127 d) = ?e" by (simp only: encode23127_word [OF assms(2)] xor.commute)
  then have "weight ?e \<le> 3" using assms(3) by (simp only:)
  then have "?e \<in> golay_errors"
    using xor_less_23 [OF golay_word_less [OF assms(2)] assms(1)] by (simp only: golay_errors_iff)
  then show ?thesis using decode_near [OF assms(2), of ?e] by (simp only: encode23127_word [OF assms(2)] word_xor_cancel xor.left_commute xor.assoc [symmetric] xor_self_eq xor.left_neutral)
qed

lemma extended_near:
  assumes "d < 4096" "e < 2 ^ 24" "weight (drop_bit 1 e) \<le> 3"
  shows "golay24128_decode23127 (drop_bit 1 (golay_extended d XOR e)) = Some d"
proof -
  have "drop_bit 1 e \<in> golay_errors"
    using assms word_less_exp_bits [of 24 e] by (simp add: golay_errors_iff less_exp_bits bit_drop_bit_eq)
  then show ?thesis
    using decode_near(1) [OF assms(1)] assms(1) unfolding drop_bit_xor drop_extended [OF assms(1)] by simp
qed

lemma extended_less: "d < 4096 \<Longrightarrow> golay_extended d < 2 ^ 24"
proof -
  assume d: "d < 4096"
  have "\<not> bit (golay_extended d) (Suc j)" if "23 \<le> j" for j
  proof -
    have "bit (golay_extended d) (Suc j) = bit (golay_word d) j"
      using drop_extended [OF d] by (metis bit_drop_bit_eq comp_apply plus_1_eq_Suc)
    then show ?thesis using golay_word_less [OF d] that by (simp add: less_exp_bits)
  qed
  then have "\<not> bit (golay_extended d) i" if "24 \<le> i" for i
    using that by (cases i) auto
  then show ?thesis using word_less_exp_bits [of 24 "golay_extended d"] by simp
qed

lemma every_extended_near:
  assumes "d < 4096" "e < 2 ^ 24"
  obtains d' e' where "d' < 4096" "golay24128_decode23127 (drop_bit 1 (golay_extended d XOR e)) = Some d'"
    "weight e' \<le> 3" "drop_bit 1 (golay_extended d XOR e) = golay_word d' XOR e'"
proof -
  have "drop_bit 1 (golay_extended d XOR e) < 8388608"
    using extended_less [OF assms(1)] assms(2) word_xor_less_exp [of 24 "golay_extended d" e]
      word_less_exp_bits [of 24 "golay_extended d XOR e"]
    by (simp add: less_exp_bits bit_drop_bit_eq del: drop_bit_xor)
  then obtain d' e' where "d' < 4096" "e' \<in> golay_errors"
    and "drop_bit 1 (golay_extended d XOR e) = golay_word d' XOR e'"
    by (rule every_word_near)
  then show thesis using decode_near(1) [of d' e']
    by (intro that [of d' e']) (simp_all only: golay_errors_iff)
qed

lemma join_24:
  fixes w :: u32
  assumes "w < 2 ^ 24"
  shows "push_bit 8 (push_bit 8 (ucast (ucast (drop_bit 16 w) :: u8)) OR ucast (ucast (drop_bit 8 w) :: u8))
    OR ucast (ucast w :: u8) = w"
proof -
  have b: "\<And>i. bit w i \<Longrightarrow> i < 24" using assms word_less_exp_bits [of 24 w] by (auto simp: not_le [symmetric])
  show ?thesis (is "?j = w")
  proof (rule bit_word_eqI)
    fix n :: nat
    consider "n < 8" | "8 \<le> n" "n < 16" | "16 \<le> n" by linarith
    then show "bit ?j n = bit w n"
      by cases (use b [of n] in \<open>auto simp: bit_simps\<close>)
  qed
qed

text \<open>Two extended code words differ in at least eight places.\<close>

lemma extended_distance:
  assumes "d < 4096" "d' < 4096" "d \<noteq> d'"
  shows "8 \<le> weight (golay_extended d XOR golay_extended d')"
proof (rule ccontr)
  let ?w = "golay_extended (d XOR d')"
  assume "\<not> 8 \<le> weight (golay_extended d XOR golay_extended d')"
  then have "weight ?w < 8" by (simp add: golay_extended_xor)
  moreover have "even (weight ?w)" by (rule even_extended)
  ultimately have "weight ?w \<le> 6" by (auto elim!: evenE)
  then have "weight (drop_bit 1 ?w) \<le> 6" using weight_drop_1 [of ?w] by simp
  moreover have x: "d XOR d' < 4096" using assms by (simp add: less_exp_bits bit_xor_iff)
  ultimately have "golay_word (d XOR d') = 0"
    using golay_distance [OF golay_word_less [OF x]] golay_rem_word drop_extended by simp
  then have "d XOR d' = 0" using drop_golay_word [OF x] by simp
  then show False using assms by simp
qed



text \<open>C3: the decoder of the three byte buffers of the extended code undoes the encoder when
  at most three of the 24 bits are wrong.\<close>

theorem golay24128_corrects_three_errors:
  assumes "d < 4096" "e < 2 ^ 24" "weight e \<le> 3" "w = golay24128_encode24128 d XOR e"
  shows "golay24128_decode24128 [ucast (drop_bit 16 w), ucast (drop_bit 8 w), ucast w] = Some d"
proof -
  let ?b0 = "ucast (drop_bit 16 w) :: u8" and ?b1 = "ucast (drop_bit 8 w) :: u8" and ?b2 = "ucast w :: u8"
  have "golay_extended d < 2 ^ 24" using extended_less [OF assms(1)] .
  then have w: "w < 2 ^ 24" unfolding assms(4) encode24128_word [OF assms(1)]
    using assms(2) by (intro word_xor_less_exp) simp_all
  have "push_bit 8 (push_bit 8 (ucast ?b0) OR ucast ?b1) OR ucast ?b2 = w"
    using w by (rule join_24)
  then have "golay24128_decode24128 [?b0, ?b1, ?b2] = golay24128_decode23127 (drop_bit 1 w)"
    by (simp only: golay24128_decode24128_def Let_def nth_Cons_0 nth_Cons_Suc One_nat_def numeral_2_eq_2)
  also have "\<dots> = Some d"
    unfolding assms(4) encode24128_word [OF assms(1)]
    using assms weight_drop_1 [of e] by (intro extended_near) simp_all
  finally show ?thesis .
qed

lemma golay24128_corrects_three_errors_witness:
  "golay24128_decode24128 [ucast (drop_bit 16 (golay24128_encode24128 0x123 XOR 0x800101)),
     ucast (drop_bit 8 (golay24128_encode24128 0x123 XOR 0x800101)),
     ucast (golay24128_encode24128 0x123 XOR 0x800101)] = Some 0x123"
  by (rule golay24128_corrects_three_errors [OF _ _ _ refl])
    (simp_all add: unat_countBits [symmetric] countBits_def countBits_loop.simps)

text \<open>Counting errors.\<close>

lemma extended_counts:
  assumes "d < 4096" "e < 2 ^ 24" "weight e \<le> 4"
  shows "\<exists>d'. golay24128_errors24128 (golay24128_encode24128 d XOR e) = Some (of_nat (weight e), d') \<and>
    (weight e \<le> 3 \<longrightarrow> d' = d)"
proof -
  let ?w = "golay24128_encode24128 d XOR e"
  have w: "?w = golay_extended d XOR e" by (simp add: encode24128_word assms)
  obtain d' e' where d': "d' < 4096" "golay24128_decode23127 (drop_bit 1 ?w) = Some d'"
    and e': "weight e' \<le> 3" "drop_bit 1 ?w = golay_word d' XOR e'"
    unfolding w by (rule every_extended_near [OF assms(1,2)])
  have dec: "golay24128_errors24128 ?w = Some (of_nat (weight (?w XOR golay_extended d')), d')"
    by (simp only: golay24128_errors24128_def d' option.case encode24128_word countBits_weight)
  show ?thesis
  proof (cases "d' = d")
    case True
    then have "?w XOR golay_extended d' = e" by (simp only: w xor.commute [of "golay_extended d"] word_xor_cancel)
    with dec True show ?thesis by simp
  next
    case False
    let ?x = "golay_extended d XOR golay_extended d'"
    have x: "?w XOR golay_extended d' = e XOR ?x" unfolding w by (simp add: ac_simps)
    have "drop_bit 1 (?w XOR golay_extended d') = e'"
      using e'(2) unfolding drop_bit_xor drop_extended [OF d'(1)] by (metis word_xor_cancel(2) xor.commute)
    then have "weight (e XOR ?x) \<le> 4"
      unfolding x using e'(1) weight_drop_1 [of "e XOR ?x"] by simp
    moreover have "8 \<le> weight ?x" using extended_distance assms(1) d'(1) False by simp
    moreover have "weight ?x \<le> weight e + weight (e XOR ?x)"
      using weight_xor_le [of e "e XOR ?x"] by simp
    ultimately have "weight e = 4" "weight (e XOR ?x) = 4" using assms by auto
    then show ?thesis using dec x by simp
  qed
qed

lemma errors23127_near:
  assumes "d < 4096" "e < 8388608" "weight e \<le> 3"
  shows "golay24128_errors23127 (golay_word d XOR e) = Some (of_nat (weight e), d)"
proof -
  have "(golay_word d XOR e) XOR golay_word d = e" by (simp only: xor.commute [of "golay_word d"] word_xor_cancel)
  moreover have "golay24128_decode23127 (golay_word d XOR e) = Some d"
    using decode_near(1) assms by (simp add: golay_errors_iff)
  moreover have "drop_bit 1 (golay24128_encode23127 d) = golay_word d" by (rule encode23127_word [OF assms(1)])
  ultimately show ?thesis
    unfolding golay24128_errors23127_def by (simp only: option.case countBits_weight)
qed

text \<open>\<open>golay24128_errors24128\<close> counts up to three wrong bits exactly and returns the data; a word
  with four wrong bits is always reported as four, never taken for a word with fewer.\<close>

theorem golay24128_counts_errors:
  assumes "d < 4096" "e < 2 ^ 24" "weight e \<le> 4"
  shows "\<exists>d'. golay24128_errors24128 (golay24128_encode24128 d XOR e) = Some (of_nat (weight e), d') \<and>
    (weight e \<le> 3 \<longrightarrow> d' = d)"
  using assms by (rule extended_counts)

lemma golay24128_counts_errors_witness:
  "\<exists>d'. golay24128_errors24128 (golay24128_encode24128 0x123 XOR 0x800103) =
     Some (of_nat (weight (0x800103 :: u32)), d') \<and> (weight (0x800103 :: u32) \<le> 3 \<longrightarrow> d' = 0x123)"
  by (rule golay24128_counts_errors)
    (simp_all add: unat_countBits [symmetric] countBits_def countBits_loop.simps)

text \<open>C2: every 23 bit word is within three bits of exactly one code word, and of that code word
  \<open>golay24128_decode23127\<close> returns the data and \<open>golay24128_correct23127\<close> the word itself.\<close>

theorem golay23127_nearest:
  assumes "w < 2 ^ 23"
  shows "(\<exists>!d. d < 4096 \<and> weight (w XOR drop_bit 1 (golay24128_encode23127 d)) \<le> 3) \<and>
    (\<forall>d. d < 4096 \<and> weight (w XOR drop_bit 1 (golay24128_encode23127 d)) \<le> 3 \<longrightarrow>
       golay24128_decode23127 w = Some d \<and> golay24128_correct23127 w = Some (drop_bit 1 (golay24128_encode23127 d)))"
proof -
  have w: "w < 8388608" using assms by simp
  have near: "\<exists>d. d < 4096 \<and> weight (w XOR drop_bit 1 (golay24128_encode23127 d)) \<le> 3" by (rule word_near_encoded [OF w])
  have found: "golay24128_decode23127 w = Some d \<and> golay24128_correct23127 w = Some (drop_bit 1 (golay24128_encode23127 d))"
    if "d < 4096" "weight (w XOR drop_bit 1 (golay24128_encode23127 d)) \<le> 3" for d
    using that by (rule near_encoded [OF w])
  from near obtain d where d: "d < 4096" "weight (w XOR drop_bit 1 (golay24128_encode23127 d)) \<le> 3" by blast
  have same: "d' = d" if "d' < 4096 \<and> weight (w XOR drop_bit 1 (golay24128_encode23127 d')) \<le> 3" for d'
    using found [OF conjunct1 conjunct2, OF that that] found [OF d] by (simp only: option.inject)
  show ?thesis by (rule conjI [OF ex1I [of _ d]]) (use d same found in blast)+
qed

lemma golay23127_nearest_witness:
  "\<exists>w. w = drop_bit 1 (golay24128_encode23127 0x123) XOR 0x10101 \<and>
    (\<exists>!d. d < 4096 \<and> weight (w XOR drop_bit 1 (golay24128_encode23127 d)) \<le> 3) \<and> golay24128_decode23127 w = Some 0x123 \<and>
    golay24128_correct23127 w = Some (drop_bit 1 (golay24128_encode23127 0x123))"
proof (intro exI conjI)
  let ?c = "drop_bit 1 (golay24128_encode23127 0x123)"
  have d: "(0x123 :: u32) < 4096" by simp
  have w: "?c XOR 0x10101 < 2 ^ 23"
    using xor_less_23 [OF golay_word_less [OF d], of "0x10101"] by (simp add: encode23127_word [OF d, simplified])
  have "(?c XOR 0x10101) XOR ?c = 0x10101" by (simp only: xor.commute [of "?c"] word_xor_cancel)
  moreover have "weight (0x10101 :: u32) \<le> 3" by (simp add: unat_countBits [symmetric] countBits_def countBits_loop.simps)
  ultimately have near: "weight ((?c XOR 0x10101) XOR ?c) \<le> 3" by (simp only:)
  note r = golay23127_nearest [OF w]
  show "?c XOR 0x10101 = ?c XOR 0x10101" by (rule refl)
  show "\<exists>!d. d < 4096 \<and> weight ((?c XOR 0x10101) XOR drop_bit 1 (golay24128_encode23127 d)) \<le> 3" by (rule conjunct1 [OF r])
  note f = conjunct2 [OF r, THEN spec, THEN mp, OF conjI [OF d near]]
  show "golay24128_decode23127 (?c XOR 0x10101) = Some 0x123" "golay24128_correct23127 (?c XOR 0x10101) = Some ?c"
    by (rule conjunct1 [OF f], rule conjunct2 [OF f])
qed

text \<open>C40: the syndrome loop, whose two \<open>while\<close>s have no bound, returns exactly on the words of at
  most 23 bits, and then it is the remainder modulo the generator polynomial.\<close>

theorem get_syndrome_23127_returns:
  "get_syndrome_23127 p = (if p < 0x800000 then Some (poly_rem GENPOL1 11 22 p) else None)"
  using get_syndrome_rem [of p] get_syndrome_diverges [of p] by (simp add: golay_rem_def)

end
