(* ===== verification/Qr1676.thy ===== *)
theory Qr1676
  imports Cyclic
begin

section \<open>The quadratic residue (16,7,6) code (tools/fec_tools.c)\<close>

text \<open>
  The code of the DMR embedded signalling field.  Its syndrome is the loop of \<open>Cyclic\<close> with
  other constants.  The decoder repairs any two wrong bits of the 15 it looks at; the
  parity bit is not used.
\<close>

definition X14 :: u32 where "X14 = 0x00004000"
definition X8 :: u32 where "X8 = 0x00000100"
definition MASK7 :: u32 where "MASK7 = 0xffffff00"
definition GENPOL2 :: u32 where "GENPOL2 = 0x00000139"

definition ENCODING_TABLE_1676 :: "u32 list" where
  "ENCODING_TABLE_1676 = concat
    [[0x0000, 0x0273, 0x04E5, 0x0696, 0x09C9, 0x0BBA, 0x0D2C, 0x0F5F, 0x11E2, 0x1391, 0x1507, 0x1774],
     [0x182B, 0x1A58, 0x1CCE, 0x1EBD, 0x21B7, 0x23C4, 0x2552, 0x2721, 0x287E, 0x2A0D, 0x2C9B, 0x2EE8],
     [0x3055, 0x3226, 0x34B0, 0x36C3, 0x399C, 0x3BEF, 0x3D79, 0x3F0A, 0x411E, 0x436D, 0x45FB, 0x4788],
     [0x48D7, 0x4AA4, 0x4C32, 0x4E41, 0x50FC, 0x528F, 0x5419, 0x566A, 0x5935, 0x5B46, 0x5DD0, 0x5FA3],
     [0x60A9, 0x62DA, 0x644C, 0x663F, 0x6960, 0x6B13, 0x6D85, 0x6FF6, 0x714B, 0x7338, 0x75AE, 0x77DD],
     [0x7882, 0x7AF1, 0x7C67, 0x7E14, 0x804F, 0x823C, 0x84AA, 0x86D9, 0x8986, 0x8BF5, 0x8D63, 0x8F10],
     [0x91AD, 0x93DE, 0x9548, 0x973B, 0x9864, 0x9A17, 0x9C81, 0x9EF2, 0xA1F8, 0xA38B, 0xA51D, 0xA76E],
     [0xA831, 0xAA42, 0xACD4, 0xAEA7, 0xB01A, 0xB269, 0xB4FF, 0xB68C, 0xB9D3, 0xBBA0, 0xBD36, 0xBF45],
     [0xC151, 0xC322, 0xC5B4, 0xC7C7, 0xC898, 0xCAEB, 0xCC7D, 0xCE0E, 0xD0B3, 0xD2C0, 0xD456, 0xD625],
     [0xD97A, 0xDB09, 0xDD9F, 0xDFEC, 0xE0E6, 0xE295, 0xE403, 0xE670, 0xE92F, 0xEB5C, 0xEDCA, 0xEFB9],
     [0xF104, 0xF377, 0xF5E1, 0xF792, 0xF8CD, 0xFABE, 0xFC28, 0xFE5B]]"

definition DECODING_TABLE_1576 :: "u32 list" where
  "DECODING_TABLE_1576 = concat
    [[0x0000, 0x0001, 0x0002, 0x0003, 0x0004, 0x0005, 0x0006, 0x4020, 0x0008, 0x0009, 0x000A, 0x000B],
     [0x000C, 0x000D, 0x2081, 0x2080, 0x0010, 0x0011, 0x0012, 0x0013, 0x0014, 0x0C00, 0x0016, 0x0C02],
     [0x0018, 0x0120, 0x001A, 0x0122, 0x4102, 0x0124, 0x4100, 0x4101, 0x0020, 0x0021, 0x0022, 0x4004],
     [0x0024, 0x4002, 0x4001, 0x4000, 0x0028, 0x0110, 0x1800, 0x1801, 0x002C, 0x400A, 0x4009, 0x4008],
     [0x0030, 0x0108, 0x0240, 0x0241, 0x0034, 0x4012, 0x4011, 0x4010, 0x0101, 0x0100, 0x0103, 0x0102],
     [0x0105, 0x0104, 0x1401, 0x1400, 0x0040, 0x0041, 0x0042, 0x0043, 0x0044, 0x0045, 0x0046, 0x4060],
     [0x0048, 0x0049, 0x0301, 0x0300, 0x004C, 0x1600, 0x0305, 0x0304, 0x0050, 0x0051, 0x0220, 0x0221],
     [0x3000, 0x4200, 0x3002, 0x4202, 0x0058, 0x1082, 0x1081, 0x1080, 0x3008, 0x4208, 0x2820, 0x1084],
     [0x0060, 0x0061, 0x0210, 0x0211, 0x0480, 0x0481, 0x4041, 0x4040, 0x0068, 0x2402, 0x2401, 0x2400],
     [0x0488, 0x3100, 0x2810, 0x2404, 0x0202, 0x0880, 0x0200, 0x0201, 0x0206, 0x0884, 0x0204, 0x0205],
     [0x0141, 0x0140, 0x0208, 0x0209, 0x2802, 0x0144, 0x2800, 0x2801, 0x0080, 0x0081, 0x0082, 0x0A00],
     [0x0084, 0x0085, 0x2009, 0x2008, 0x0088, 0x0089, 0x2005, 0x2004, 0x2003, 0x2002, 0x2001, 0x2000],
     [0x0090, 0x0091, 0x0092, 0x1048, 0x0602, 0x0C80, 0x0600, 0x0601, 0x0098, 0x1042, 0x1041, 0x1040],
     [0x2013, 0x2012, 0x2011, 0x2010, 0x00A0, 0x00A1, 0x00A2, 0x4084, 0x0440, 0x0441, 0x4081, 0x4080],
     [0x6000, 0x1200, 0x6002, 0x1202, 0x6004, 0x2022, 0x2021, 0x2020, 0x0841, 0x0840, 0x2104, 0x0842],
     [0x2102, 0x0844, 0x2100, 0x2101, 0x0181, 0x0180, 0x0B00, 0x0182, 0x5040, 0x0184, 0x2108, 0x2030],
     [0x00C0, 0x00C1, 0x4401, 0x4400, 0x0420, 0x0421, 0x0422, 0x4404, 0x0900, 0x0901, 0x1011, 0x1010],
     [0x0904, 0x2042, 0x2041, 0x2040, 0x0821, 0x0820, 0x1009, 0x1008, 0x4802, 0x0824, 0x4800, 0x4801],
     [0x1003, 0x1002, 0x1001, 0x1000, 0x0501, 0x0500, 0x1005, 0x1004, 0x0404, 0x0810, 0x1100, 0x1101],
     [0x0400, 0x0401, 0x0402, 0x0403, 0x040C, 0x0818, 0x1108, 0x1030, 0x0408, 0x0409, 0x040A, 0x2060],
     [0x0801, 0x0800, 0x0280, 0x0802, 0x0410, 0x0804, 0x0412, 0x0806, 0x0809, 0x0808, 0x1021, 0x1020],
     [0x5000, 0x2200, 0x5002, 0x2202]]"

definition QR1676_getSyndrome1576 :: "u32 \<Rightarrow> u32 option" where
  "QR1676_getSyndrome1576 pattern =
     (let aux = X14
      in if pattern \<ge> X8 then syn_loop MASK7 X8 GENPOL2 aux pattern else Some pattern)"

definition QR1676_encode :: "bytes \<Rightarrow> bytes" where
  "QR1676_encode data =
     (let value = drop_bit 1 (data ! 0) AND 0x7F;
          cksum = ENCODING_TABLE_1676 ! unat value
      in data[0 := ucast (drop_bit 8 cksum), 1 := ucast (cksum AND 0xFF)])"

definition QR1676_decode :: "bytes \<Rightarrow> u8 option" where
  "QR1676_decode data =
     (let code = push_bit 7 (ucast (data ! 0)) + ucast (drop_bit 1 (data ! 1))
      in case QR1676_getSyndrome1576 code of
           None \<Rightarrow> None
         | Some syndrome \<Rightarrow>
             (let error_pattern = DECODING_TABLE_1576 ! unat syndrome;
                  code' = code XOR error_pattern
              in Some (ucast (drop_bit 7 code'))))"

subsection \<open>The syndrome\<close>

definition qr_rem :: "u32 \<Rightarrow> u32" where
  "qr_rem p = poly_rem GENPOL2 8 14 p"

lemma gen_qr: "is_gen GENPOL2 8"
  by (simp add: is_gen_def GENPOL2_def)

lemma qr_constants: "X14 = 2 ^ 14" "X8 = 2 ^ 8" "MASK7 = high_mask 8"
  by (simp_all add: X14_def X8_def MASK7_def high_mask_def)

lemma qr_syndrome_rem: "p < 2 ^ 15 \<Longrightarrow> QR1676_getSyndrome1576 p = Some (qr_rem p)"
proof -
  assume p: "p < 2 ^ 15"
  show ?thesis
  proof (cases "p \<ge> X8")
    case True
    then show ?thesis
      using syn_loop_rem [OF gen_qr, of 14 p] p
      by (simp add: QR1676_getSyndrome1576_def qr_rem_def qr_constants)
  next
    case False
    then have "\<And>k. 8 \<le> k \<Longrightarrow> \<not> bit p k" using word_less_exp_bits [of 8 p] by (auto simp: X8_def)
    then show ?thesis using False
      by (simp add: QR1676_getSyndrome1576_def qr_rem_def poly_rem_small)
  qed
qed

lemma qr_rem_xor: "qr_rem (a XOR b) = qr_rem a XOR qr_rem b"
  by (simp add: qr_rem_def poly_rem_xor)

lemma qr_rem_fold: "qr_rem p = fold (rem_step GENPOL2 8) [14, 13, 12, 11, 10, 9, 8] p"
  by (simp add: qr_rem_def poly_rem_def upt_rec)

lemma qr_steps:
  "rem_step GENPOL2 8 14 p = (if bit p 14 then p XOR 0x4E40 else p)"
  "rem_step GENPOL2 8 13 p = (if bit p 13 then p XOR 0x2720 else p)"
  "rem_step GENPOL2 8 12 p = (if bit p 12 then p XOR 0x1390 else p)"
  "rem_step GENPOL2 8 11 p = (if bit p 11 then p XOR 0x09C8 else p)"
  "rem_step GENPOL2 8 10 p = (if bit p 10 then p XOR 0x04E4 else p)"
  "rem_step GENPOL2 8 9 p = (if bit p 9 then p XOR 0x0272 else p)"
  "rem_step GENPOL2 8 8 p = (if bit p 8 then p XOR 0x0139 else p)"
  by (simp_all add: rem_step_def GENPOL2_def push_bit_eq_mult)

lemma qr_rem_units:
  "qr_rem 0 = 0"
  "qr_rem 1 = 1"
  "qr_rem 0x0002 = 0x02"
  "qr_rem 0x0004 = 0x04"
  "qr_rem 0x0008 = 0x08"
  "qr_rem 0x0010 = 0x10"
  "qr_rem 0x0020 = 0x20"
  "qr_rem 0x0040 = 0x40"
  "qr_rem 0x0080 = 0x80"
  "qr_rem 0x0100 = 0x39"
  "qr_rem 0x0200 = 0x72"
  "qr_rem 0x0400 = 0xE4"
  "qr_rem 0x0800 = 0xF1"
  "qr_rem 0x1000 = 0xDB"
  "qr_rem 0x2000 = 0x8F"
  "qr_rem 0x4000 = 0x27"
  by (simp_all add: qr_rem_fold qr_steps)

subsection \<open>The encoding table\<close>

definition qr_word :: "u32 \<Rightarrow> u32" where
  "qr_word d = push_bit 8 d XOR qr_rem (push_bit 8 d)"

definition qr_shifted :: "u32 \<Rightarrow> u32" where
  "qr_shifted d = push_bit 1 (qr_word d)"

definition qr_extended :: "u32 \<Rightarrow> u32" where
  "qr_extended d = qr_shifted d XOR (if odd (weight (qr_shifted d)) then 1 else 0)"

lemma qr_extended_xor: "qr_extended (a XOR b) = qr_extended a XOR qr_extended b"
proof -
  have "qr_word (a XOR b) = qr_word a XOR qr_word b"
    by (simp add: qr_word_def qr_rem_xor push_bit_xor ac_simps)
  then have "qr_shifted (a XOR b) = qr_shifted a XOR qr_shifted b"
    unfolding qr_shifted_def by (simp only: push_bit_xor)
  then show ?thesis by (simp add: qr_extended_def odd_weight_xor ac_simps)
qed

lemma qr_shifted_units:
  "qr_shifted 1 = 0x0272"
  "qr_shifted 0x02 = 0x04E4"
  "qr_shifted 0x04 = 0x09C8"
  "qr_shifted 0x08 = 0x11E2"
  "qr_shifted 0x10 = 0x21B6"
  "qr_shifted 0x20 = 0x411E"
  "qr_shifted 0x40 = 0x804E"
  by (simp_all add: qr_shifted_def qr_word_def qr_rem_units push_bit_eq_mult)

lemma weight_qr_units:
  "weight (0x0272 :: u32) = 5"
  "weight (0x04E4 :: u32) = 5"
  "weight (0x09C8 :: u32) = 5"
  "weight (0x11E2 :: u32) = 6"
  "weight (0x21B6 :: u32) = 7"
  "weight (0x411E :: u32) = 6"
  "weight (0x804E :: u32) = 5"
  by (simp_all add: unat_countBits [symmetric] countBits_def countBits_loop.simps)

lemma upt_7: "[0..<7] = [0, 1, 2, 3, 4, 5, 6]"
  by (simp add: upt_rec)

lemma qr_rows: "map (\<lambda>k. qr_extended (2 ^ k)) [0..<7] = [0x0273, 0x04E5, 0x09C9, 0x11E2, 0x21B7, 0x411E, 0x804F]"
  unfolding upt_7 qr_extended_def by (simp add: qr_shifted_units weight_qr_units)

lemma qr_table: "ENCODING_TABLE_1676 = xor_table [0x0273, 0x04E5, 0x09C9, 0x11E2, 0x21B7, 0x411E, 0x804F]"
  by (simp add: ENCODING_TABLE_1676_def xor_table_def)

lemma qr_entry: "d < 128 \<Longrightarrow> ENCODING_TABLE_1676 ! unat d = qr_extended d"
  unfolding qr_table qr_rows [symmetric]
  by (subst linear_table) (simp_all add: qr_extended_xor word_less_nat_alt)

subsection \<open>The decoding table\<close>

definition qr_errors :: "u32 set" where
  "qr_errors = {e. e < 2 ^ 15 \<and> weight e \<le> 2}"

definition qr_units :: "u32 list" where
  "qr_units = [0, 1, 0x0002, 0x0004, 0x0008, 0x0010, 0x0020, 0x0040, 0x0080, 0x0100, 0x0200, 0x0400, 0x0800, 0x1000, 0x2000, 0x4000]"

lemma weight_le_1:
  fixes e :: u32
  assumes "weight e \<le> 1"
  shows "e = 0 \<or> (\<exists>i. e = 2 ^ i)"
proof (cases "e = 0")
  case False
  with assms have "card {i. bit e i} = 1" using weight_eq_0 [of e] unfolding weight_def by linarith
  then obtain i where "{i. bit e i} = {i}" by (auto simp: card_1_singleton_iff)
  then have b: "bit e j \<longleftrightarrow> j = i" for j by blast
  have "e = 2 ^ i"
  proof (rule bit_word_eqI)
    fix n show "n < LENGTH(32) \<Longrightarrow> bit e n = bit (2 ^ i :: u32) n" using b [of n] b [of i] bit_imp_le_length [of e i] by (auto simp: bit_exp_iff)
  qed
  then show ?thesis by blast
qed simp

lemma qr_unit_in:
  assumes "weight e \<le> 1" "e < 2 ^ 15"
  shows "e \<in> set qr_units"
proof (cases "e = 0")
  case False
  with weight_le_1 [OF assms(1)] obtain i where i: "e = 2 ^ i" by auto
  have "i < 32"
  proof (rule ccontr)
    assume "\<not> i < 32"
    then have "e = 0" unfolding i by simp
    with False show False ..
  qed
  then have "bit e i" unfolding i by (simp add: bit_simps)
  then have "i < 15" using word_less_exp_bits [of 15 e] assms(2) by (auto simp: not_le [symmetric])
  then have "i \<in> {0, 1, 2, 3, 4, 5, 6, 7, 8, 9, 10, 11, 12, 13, 14}" by (simp add: numeral_eq_Suc less_Suc_eq)
  then show ?thesis unfolding i by (elim insertE) (simp_all add: qr_units_def)
qed (simp add: qr_units_def)

fun qr_pairs_ok :: "u32 list \<Rightarrow> bool" where
  "qr_pairs_ok [] = True"
| "qr_pairs_ok (a # as) =
    (list_all (\<lambda>b. DECODING_TABLE_1576 ! unat (qr_rem a XOR qr_rem b) = a XOR b) (a # as) \<and> qr_pairs_ok as)"

lemma qr_pairs_ok_sound:
  "qr_pairs_ok as \<Longrightarrow> a \<in> set as \<Longrightarrow> b \<in> set as \<Longrightarrow>
    DECODING_TABLE_1576 ! unat (qr_rem a XOR qr_rem b) = a XOR b"
  by (induction "as") (auto simp: list_all_iff xor.commute)

lemma qr_pairs: "qr_pairs_ok qr_units"
  by (simp add: qr_units_def qr_rem_units DECODING_TABLE_1576_def)

interpretation qr: syndrome_code qr_rem DECODING_TABLE_1576 "\<lambda>e. e \<in> qr_errors"
proof
  fix e assume e: "e \<in> qr_errors"
  obtain a b where "e = a XOR b" "weight a \<le> 1" "weight b \<le> 1" "a < 2 ^ 15" "b < 2 ^ 15"
    by (rule split_weight [of e 1 15]) (use e in \<open>simp_all add: qr_errors_def\<close>)
  then have "e = a XOR b" "a \<in> set qr_units" "b \<in> set qr_units"
    by (auto intro: qr_unit_in)
  then show "DECODING_TABLE_1576 ! unat (qr_rem e) = e"
    using qr_pairs_ok_sound [OF qr_pairs] by (simp add: qr_rem_xor)
qed (rule qr_rem_xor)

subsection \<open>The decoder\<close>

lemma less_qr_bits:
  fixes w :: u32
  shows "w < 128 \<longleftrightarrow> (\<forall>i\<ge>7. \<not> bit w i)" "w < 256 \<longleftrightarrow> (\<forall>i\<ge>8. \<not> bit w i)"
    "w < 32768 \<longleftrightarrow> (\<forall>i\<ge>15. \<not> bit w i)" "w < 65536 \<longleftrightarrow> (\<forall>i\<ge>16. \<not> bit w i)"
  using word_less_exp_bits [of 7 w] word_less_exp_bits [of 8 w]
    word_less_exp_bits [of 15 w] word_less_exp_bits [of 16 w]
  by simp_all

lemma qr_rem_small: "p < 256 \<Longrightarrow> qr_rem p = p"
  unfolding qr_rem_def by (rule poly_rem_small) (simp add: less_qr_bits)

lemma push_8_less: "d < 128 \<Longrightarrow> push_bit 8 d < (32768 :: u32)"
  by (auto simp: less_qr_bits bit_push_bit_iff)

lemma qr_rem_less: "p < 32768 \<Longrightarrow> qr_rem p < 256"
  unfolding qr_rem_def using poly_rem_less [OF gen_qr, of 14 p] by simp

lemma qr_word_facts:
  assumes d: "d < 128"
  shows "qr_word d < 32768" "qr_rem (qr_word d) = 0" "drop_bit 8 (qr_word d) = d"
proof -
  have r: "qr_rem (push_bit 8 d) < 256" by (rule qr_rem_less [OF push_8_less [OF d]])
  then show "qr_rem (qr_word d) = 0" by (simp add: qr_word_def qr_rem_xor qr_rem_small)
  show "qr_word d < 32768"
    using r push_8_less [OF d] by (simp add: qr_word_def less_qr_bits bit_xor_iff)
  have d7: "\<And>i. bit d i \<Longrightarrow> i < 7" using d by (meson less_qr_bits(1) not_le)
  show "drop_bit 8 (qr_word d) = d"
    using r by (intro bit_word_eqI)
      (auto simp: qr_word_def less_qr_bits bit_drop_bit_eq bit_xor_iff bit_push_bit_iff dest: d7)
qed

text \<open>The 16 bits on the air: the code word above the parity bit.\<close>

lemma bit_qr_extended: "bit (qr_extended d) (Suc i) \<longleftrightarrow> i < 31 \<and> bit (qr_word d) i"
proof -
  have "bit (qr_shifted d) (Suc i) \<longleftrightarrow> i < 31 \<and> bit (qr_word d) i"
    unfolding qr_shifted_def bit_push_bit_iff by (auto simp: possible_bit_word)
  then show ?thesis by (auto simp: qr_extended_def bit_xor_iff bit_1_iff)
qed

lemma qr_extended_less: "d < 128 \<Longrightarrow> qr_extended d < 65536"
proof -
  assume d: "d < 128"
  have "\<not> bit (qr_extended d) i" if "16 \<le> i" for i
    using that qr_word_facts(1) [OF d] by (cases i) (auto simp: bit_qr_extended less_qr_bits)
  then show ?thesis by (simp add: less_qr_bits)
qed

lemma drop_qr_extended:
  assumes "d < 128"
  shows "drop_bit 1 (qr_extended d) = qr_word d"
proof (rule bit_word_eqI)
  fix n
  have "bit (qr_word d) n \<Longrightarrow> n < 15" using qr_word_facts(1) [OF assms]
    by (meson less_qr_bits(3) not_le)
  then show "bit (drop_bit 1 (qr_extended d)) n = bit (qr_word d) n"
    by (auto simp: bit_drop_bit_eq bit_qr_extended)
qed

lemma join_15:
  fixes b0 b1 :: u8
  shows "push_bit 7 (ucast b0 :: u32) + ucast (drop_bit 1 b1) = push_bit 7 (ucast b0) OR ucast (drop_bit 1 b1)"
proof (rule disjunctive_add)
  fix n show "\<not> bit (push_bit 7 (ucast b0 :: u32)) n \<or> \<not> bit (ucast (drop_bit 1 b1) :: u32) n"
    using bit_imp_le_length [of b1 "Suc n"] by (auto simp: bit_simps)
qed

lemma qr_code:
  fixes w :: u32
  assumes "w < 65536"
  shows "push_bit 7 (ucast (ucast (drop_bit 8 w) :: u8) :: u32) + ucast (drop_bit 1 (ucast w :: u8)) = drop_bit 1 w"
  unfolding join_15
proof (rule bit_word_eqI)
  fix n :: nat
  have "\<And>i. bit w i \<Longrightarrow> i < 16" using assms by (meson less_qr_bits(4) not_le)
  then have "bit w (Suc n) \<Longrightarrow> n < 15" by fastforce
  moreover have "n < 7 \<or> (\<exists>k. n = 7 + k)" by presburger
  ultimately show "bit (push_bit 7 (ucast (ucast (drop_bit 8 w) :: u8) :: u32) OR ucast (drop_bit 1 (ucast w :: u8))) n
      = bit (drop_bit 1 w) n"
    by (auto simp: bit_simps)
qed

lemma qr_decode_near:
  fixes e :: u32
  assumes d: "d < 128" and e: "e < 65536" "weight e \<le> 2" and w: "w = qr_extended d XOR e"
    and b: "b0 = ucast (drop_bit 8 w)" "b1 = ucast w"
  shows "QR1676_decode (b0 # b1 # bs) = Some (ucast (drop_bit 8 (qr_extended d)))"
proof -
  have lw: "w < 65536" using qr_extended_less [OF d] e unfolding w by (simp add: less_qr_bits bit_xor_iff)
  have code: "drop_bit 1 w = qr_word d XOR drop_bit 1 e"
    unfolding w drop_bit_xor drop_qr_extended [OF d] ..
  have err: "drop_bit 1 e \<in> qr_errors"
    using e weight_drop_1 [of e] by (simp add: qr_errors_def less_qr_bits bit_drop_bit_eq)
  have "drop_bit 1 w < 2 ^ 15" using lw by (simp add: less_qr_bits bit_drop_bit_eq)
  then have syn: "QR1676_getSyndrome1576 (drop_bit 1 w) = Some (qr_rem (drop_bit 1 w))"
    by (rule qr_syndrome_rem)
  have "drop_bit 1 w XOR DECODING_TABLE_1576 ! unat (qr_rem (drop_bit 1 w)) = drop_bit 1 (qr_extended d)"
    unfolding code drop_qr_extended [OF d] by (rule qr.corrects [OF qr_word_facts(2) [OF d] err])
  moreover have "push_bit 7 (ucast b0) + ucast (drop_bit 1 b1) = drop_bit 1 w"
    using qr_code [OF lw] by (simp only: b)
  ultimately have "QR1676_decode (b0 # b1 # bs) = Some (ucast (drop_bit 7 (drop_bit 1 (qr_extended d))))"
    by (simp only: QR1676_decode_def Let_def nth_Cons_0 nth_Cons_Suc One_nat_def syn [unfolded One_nat_def] option.case)
  then show ?thesis by simp
qed

lemma take_7_bit:
  fixes a :: u8
  shows "unat (ucast (drop_bit 1 a) :: u32) = unat (drop_bit 1 a)" "(ucast (drop_bit 1 a) :: u32) < 128"
    "drop_bit 1 a AND 0x7F = drop_bit 1 a"
proof -
  show "unat (ucast (drop_bit 1 a) :: u32) = unat (drop_bit 1 a)" by simp
  show "(ucast (drop_bit 1 a) :: u32) < 128"
    using bit_imp_le_length [of a] by (fastforce simp: less_qr_bits bit_simps)
  have m: "(0x7F :: u8) = mask 7" by (simp add: mask_eq_exp_minus_1)
  show "drop_bit 1 a AND 0x7F = drop_bit 1 a"
    unfolding m by (intro bit_word_eqI) (auto simp: bit_simps bit_mask_iff dest: bit_imp_le_length)
qed

lemma QR1676_encode_word:
  "QR1676_encode (a # b # bs) =
    ucast (drop_bit 8 (qr_extended (ucast (drop_bit 1 a)))) # ucast (qr_extended (ucast (drop_bit 1 a))) # bs"
proof -
  let ?d = "ucast (drop_bit 1 a) :: u32"
  have m: "(0xFF :: u32) = mask 8" by (simp add: mask_eq_exp_minus_1)
  have "(ucast (qr_extended ?d AND 0xFF) :: u8) = ucast (qr_extended ?d)"
    unfolding m by (intro bit_word_eqI) (auto simp: bit_simps bit_mask_iff)
  moreover have "ENCODING_TABLE_1676 ! unat (drop_bit 1 a AND 0x7F) = qr_extended ?d"
    using qr_entry [OF take_7_bit(2), of a] by (simp only: take_7_bit)
  ultimately show ?thesis
    by (simp add: QR1676_encode_def Let_def)
qed

text \<open>C7: a two byte DMR signalling word with at most two of its sixteen bits wrong decodes to the
  first byte of the word that was sent, whose upper seven bits are the data.\<close>

theorem QR1676_corrects_two_errors:
  fixes e :: u32
  assumes "2 \<le> length data" "e < 2 ^ 16" "weight e \<le> 2"
    and sent: "sent = QR1676_encode data"
    and got: "got = sent[0 := sent ! 0 XOR ucast (drop_bit 8 e), 1 := sent ! 1 XOR ucast e]"
  shows "QR1676_decode got = Some (sent ! 0) \<and> drop_bit 1 (sent ! 0) = drop_bit 1 (data ! 0)"
proof -
  obtain a b bs where data: "data = a # b # bs"
    using assms(1) by (auto simp: numeral_2_eq_2 Suc_le_length_iff)
  define d where "d = (ucast (drop_bit 1 a) :: u32)"
  have d: "d < 128" unfolding d_def by (rule take_7_bit)
  have s: "sent = ucast (drop_bit 8 (qr_extended d)) # ucast (qr_extended d) # bs"
    unfolding sent data d_def by (rule QR1676_encode_word)
  have "got = ucast (drop_bit 8 (qr_extended d XOR e)) # ucast (qr_extended d XOR e) # bs"
    unfolding got s by (simp add: unsigned_xor_eq)
  then have "QR1676_decode got = Some (sent ! 0)"
    using qr_decode_near [OF d _ assms(3) refl refl refl] assms(2) s by simp
  moreover have "drop_bit 1 (sent ! 0) = drop_bit 1 (data ! 0)"
  proof (rule bit_word_eqI)
    fix n assume n: "n < LENGTH(8)"
    have "bit (qr_word d) (8 + n) = bit d n"
      using arg_cong [OF qr_word_facts(3) [OF d], of "\<lambda>w. bit w n"] by (simp add: bit_drop_bit_eq)
    then show "bit (drop_bit 1 (sent ! 0)) n = bit (drop_bit 1 (data ! 0)) n"
      using n bit_qr_extended [of d "8 + n"] bit_imp_le_length [of a "Suc n"]
      by (auto simp: s data d_def bit_simps)
  qed
  ultimately show ?thesis ..
qed

lemma QR1676_corrects_two_errors_witness:
  "QR1676_decode ((QR1676_encode [0xA5, 0])[0 := QR1676_encode [0xA5, 0] ! 0 XOR ucast (drop_bit 8 (0x4001 :: u32)),
     1 := QR1676_encode [0xA5, 0] ! 1 XOR ucast (0x4001 :: u32)]) = Some (QR1676_encode [0xA5, 0] ! 0) \<and>
   drop_bit 1 (QR1676_encode [0xA5, 0] ! 0) = drop_bit 1 ([0xA5, 0 :: u8] ! 0)"
  by (rule QR1676_corrects_two_errors [OF _ _ _ refl refl])
    (simp_all add: unat_countBits [symmetric] countBits_def countBits_loop.simps)

end
