(* ===== verification/Crc.thy ===== *)
theory Crc
  imports Cyclic
begin

section \<open>Checksums (tools/fec_tools.c, tools/CCITTChecksumReverse.c)\<close>

text \<open>
  The table driven CRCs, the five bit checksum of DMR, and the incremental
  \<open>CCITTChecksumReverse\<close> object of D-Star.  The tables are proved to be those of the bit
  serial division by the generator polynomial, and the locale \<open>byte_checksum\<close> is the contract by
  which a changed byte is detected.

  The source reads the 16 bit register byte by byte through a union and states that it
  assumes a little-endian host; \<open>crc8 c i\<close> is byte \<open>i\<close> of the register on such a host.
\<close>

definition CRC8_TABLE :: "u8 list" where
  "CRC8_TABLE = concat
    [[0x00, 0x07, 0x0E, 0x09, 0x1C, 0x1B, 0x12, 0x15, 0x38, 0x3F, 0x36, 0x31],
     [0x24, 0x23, 0x2A, 0x2D, 0x70, 0x77, 0x7E, 0x79, 0x6C, 0x6B, 0x62, 0x65],
     [0x48, 0x4F, 0x46, 0x41, 0x54, 0x53, 0x5A, 0x5D, 0xE0, 0xE7, 0xEE, 0xE9],
     [0xFC, 0xFB, 0xF2, 0xF5, 0xD8, 0xDF, 0xD6, 0xD1, 0xC4, 0xC3, 0xCA, 0xCD],
     [0x90, 0x97, 0x9E, 0x99, 0x8C, 0x8B, 0x82, 0x85, 0xA8, 0xAF, 0xA6, 0xA1],
     [0xB4, 0xB3, 0xBA, 0xBD, 0xC7, 0xC0, 0xC9, 0xCE, 0xDB, 0xDC, 0xD5, 0xD2],
     [0xFF, 0xF8, 0xF1, 0xF6, 0xE3, 0xE4, 0xED, 0xEA, 0xB7, 0xB0, 0xB9, 0xBE],
     [0xAB, 0xAC, 0xA5, 0xA2, 0x8F, 0x88, 0x81, 0x86, 0x93, 0x94, 0x9D, 0x9A],
     [0x27, 0x20, 0x29, 0x2E, 0x3B, 0x3C, 0x35, 0x32, 0x1F, 0x18, 0x11, 0x16],
     [0x03, 0x04, 0x0D, 0x0A, 0x57, 0x50, 0x59, 0x5E, 0x4B, 0x4C, 0x45, 0x42],
     [0x6F, 0x68, 0x61, 0x66, 0x73, 0x74, 0x7D, 0x7A, 0x89, 0x8E, 0x87, 0x80],
     [0x95, 0x92, 0x9B, 0x9C, 0xB1, 0xB6, 0xBF, 0xB8, 0xAD, 0xAA, 0xA3, 0xA4],
     [0xF9, 0xFE, 0xF7, 0xF0, 0xE5, 0xE2, 0xEB, 0xEC, 0xC1, 0xC6, 0xCF, 0xC8],
     [0xDD, 0xDA, 0xD3, 0xD4, 0x69, 0x6E, 0x67, 0x60, 0x75, 0x72, 0x7B, 0x7C],
     [0x51, 0x56, 0x5F, 0x58, 0x4D, 0x4A, 0x43, 0x44, 0x19, 0x1E, 0x17, 0x10],
     [0x05, 0x02, 0x0B, 0x0C, 0x21, 0x26, 0x2F, 0x28, 0x3D, 0x3A, 0x33, 0x34],
     [0x4E, 0x49, 0x40, 0x47, 0x52, 0x55, 0x5C, 0x5B, 0x76, 0x71, 0x78, 0x7F],
     [0x6A, 0x6D, 0x64, 0x63, 0x3E, 0x39, 0x30, 0x37, 0x22, 0x25, 0x2C, 0x2B],
     [0x06, 0x01, 0x08, 0x0F, 0x1A, 0x1D, 0x14, 0x13, 0xAE, 0xA9, 0xA0, 0xA7],
     [0xB2, 0xB5, 0xBC, 0xBB, 0x96, 0x91, 0x98, 0x9F, 0x8A, 0x8D, 0x84, 0x83],
     [0xDE, 0xD9, 0xD0, 0xD7, 0xC2, 0xC5, 0xCC, 0xCB, 0xE6, 0xE1, 0xE8, 0xEF],
     [0xFA, 0xFD, 0xF4, 0xF3, 0x01]]"

definition CCITT16_TABLE1 :: "u16 list" where
  "CCITT16_TABLE1 = concat
    [[0x0000, 0x1189, 0x2312, 0x329b, 0x4624, 0x57ad, 0x6536, 0x74bf],
     [0x8c48, 0x9dc1, 0xaf5a, 0xbed3, 0xca6c, 0xdbe5, 0xe97e, 0xf8f7],
     [0x1081, 0x0108, 0x3393, 0x221a, 0x56a5, 0x472c, 0x75b7, 0x643e],
     [0x9cc9, 0x8d40, 0xbfdb, 0xae52, 0xdaed, 0xcb64, 0xf9ff, 0xe876],
     [0x2102, 0x308b, 0x0210, 0x1399, 0x6726, 0x76af, 0x4434, 0x55bd],
     [0xad4a, 0xbcc3, 0x8e58, 0x9fd1, 0xeb6e, 0xfae7, 0xc87c, 0xd9f5],
     [0x3183, 0x200a, 0x1291, 0x0318, 0x77a7, 0x662e, 0x54b5, 0x453c],
     [0xbdcb, 0xac42, 0x9ed9, 0x8f50, 0xfbef, 0xea66, 0xd8fd, 0xc974],
     [0x4204, 0x538d, 0x6116, 0x709f, 0x0420, 0x15a9, 0x2732, 0x36bb],
     [0xce4c, 0xdfc5, 0xed5e, 0xfcd7, 0x8868, 0x99e1, 0xab7a, 0xbaf3],
     [0x5285, 0x430c, 0x7197, 0x601e, 0x14a1, 0x0528, 0x37b3, 0x263a],
     [0xdecd, 0xcf44, 0xfddf, 0xec56, 0x98e9, 0x8960, 0xbbfb, 0xaa72],
     [0x6306, 0x728f, 0x4014, 0x519d, 0x2522, 0x34ab, 0x0630, 0x17b9],
     [0xef4e, 0xfec7, 0xcc5c, 0xddd5, 0xa96a, 0xb8e3, 0x8a78, 0x9bf1],
     [0x7387, 0x620e, 0x5095, 0x411c, 0x35a3, 0x242a, 0x16b1, 0x0738],
     [0xffcf, 0xee46, 0xdcdd, 0xcd54, 0xb9eb, 0xa862, 0x9af9, 0x8b70],
     [0x8408, 0x9581, 0xa71a, 0xb693, 0xc22c, 0xd3a5, 0xe13e, 0xf0b7],
     [0x0840, 0x19c9, 0x2b52, 0x3adb, 0x4e64, 0x5fed, 0x6d76, 0x7cff],
     [0x9489, 0x8500, 0xb79b, 0xa612, 0xd2ad, 0xc324, 0xf1bf, 0xe036],
     [0x18c1, 0x0948, 0x3bd3, 0x2a5a, 0x5ee5, 0x4f6c, 0x7df7, 0x6c7e],
     [0xa50a, 0xb483, 0x8618, 0x9791, 0xe32e, 0xf2a7, 0xc03c, 0xd1b5],
     [0x2942, 0x38cb, 0x0a50, 0x1bd9, 0x6f66, 0x7eef, 0x4c74, 0x5dfd],
     [0xb58b, 0xa402, 0x9699, 0x8710, 0xf3af, 0xe226, 0xd0bd, 0xc134],
     [0x39c3, 0x284a, 0x1ad1, 0x0b58, 0x7fe7, 0x6e6e, 0x5cf5, 0x4d7c],
     [0xc60c, 0xd785, 0xe51e, 0xf497, 0x8028, 0x91a1, 0xa33a, 0xb2b3],
     [0x4a44, 0x5bcd, 0x6956, 0x78df, 0x0c60, 0x1de9, 0x2f72, 0x3efb],
     [0xd68d, 0xc704, 0xf59f, 0xe416, 0x90a9, 0x8120, 0xb3bb, 0xa232],
     [0x5ac5, 0x4b4c, 0x79d7, 0x685e, 0x1ce1, 0x0d68, 0x3ff3, 0x2e7a],
     [0xe70e, 0xf687, 0xc41c, 0xd595, 0xa12a, 0xb0a3, 0x8238, 0x93b1],
     [0x6b46, 0x7acf, 0x4854, 0x59dd, 0x2d62, 0x3ceb, 0x0e70, 0x1ff9],
     [0xf78f, 0xe606, 0xd49d, 0xc514, 0xb1ab, 0xa022, 0x92b9, 0x8330],
     [0x7bc7, 0x6a4e, 0x58d5, 0x495c, 0x3de3, 0x2c6a, 0x1ef1, 0x0f78]]"

definition CCITT16_TABLE2 :: "u16 list" where
  "CCITT16_TABLE2 = concat
    [[0x0000, 0x1021, 0x2042, 0x3063, 0x4084, 0x50A5, 0x60C6, 0x70E7],
     [0x8108, 0x9129, 0xA14A, 0xB16B, 0xC18C, 0xD1AD, 0xE1CE, 0xF1EF],
     [0x1231, 0x0210, 0x3273, 0x2252, 0x52B5, 0x4294, 0x72F7, 0x62D6],
     [0x9339, 0x8318, 0xB37B, 0xA35A, 0xD3BD, 0xC39C, 0xF3FF, 0xE3DE],
     [0x2462, 0x3443, 0x0420, 0x1401, 0x64E6, 0x74C7, 0x44A4, 0x5485],
     [0xA56A, 0xB54B, 0x8528, 0x9509, 0xE5EE, 0xF5CF, 0xC5AC, 0xD58D],
     [0x3653, 0x2672, 0x1611, 0x0630, 0x76D7, 0x66F6, 0x5695, 0x46B4],
     [0xB75B, 0xA77A, 0x9719, 0x8738, 0xF7DF, 0xE7FE, 0xD79D, 0xC7BC],
     [0x48C4, 0x58E5, 0x6886, 0x78A7, 0x0840, 0x1861, 0x2802, 0x3823],
     [0xC9CC, 0xD9ED, 0xE98E, 0xF9AF, 0x8948, 0x9969, 0xA90A, 0xB92B],
     [0x5AF5, 0x4AD4, 0x7AB7, 0x6A96, 0x1A71, 0x0A50, 0x3A33, 0x2A12],
     [0xDBFD, 0xCBDC, 0xFBBF, 0xEB9E, 0x9B79, 0x8B58, 0xBB3B, 0xAB1A],
     [0x6CA6, 0x7C87, 0x4CE4, 0x5CC5, 0x2C22, 0x3C03, 0x0C60, 0x1C41],
     [0xEDAE, 0xFD8F, 0xCDEC, 0xDDCD, 0xAD2A, 0xBD0B, 0x8D68, 0x9D49],
     [0x7E97, 0x6EB6, 0x5ED5, 0x4EF4, 0x3E13, 0x2E32, 0x1E51, 0x0E70],
     [0xFF9F, 0xEFBE, 0xDFDD, 0xCFFC, 0xBF1B, 0xAF3A, 0x9F59, 0x8F78],
     [0x9188, 0x81A9, 0xB1CA, 0xA1EB, 0xD10C, 0xC12D, 0xF14E, 0xE16F],
     [0x1080, 0x00A1, 0x30C2, 0x20E3, 0x5004, 0x4025, 0x7046, 0x6067],
     [0x83B9, 0x9398, 0xA3FB, 0xB3DA, 0xC33D, 0xD31C, 0xE37F, 0xF35E],
     [0x02B1, 0x1290, 0x22F3, 0x32D2, 0x4235, 0x5214, 0x6277, 0x7256],
     [0xB5EA, 0xA5CB, 0x95A8, 0x8589, 0xF56E, 0xE54F, 0xD52C, 0xC50D],
     [0x34E2, 0x24C3, 0x14A0, 0x0481, 0x7466, 0x6447, 0x5424, 0x4405],
     [0xA7DB, 0xB7FA, 0x8799, 0x97B8, 0xE75F, 0xF77E, 0xC71D, 0xD73C],
     [0x26D3, 0x36F2, 0x0691, 0x16B0, 0x6657, 0x7676, 0x4615, 0x5634],
     [0xD94C, 0xC96D, 0xF90E, 0xE92F, 0x99C8, 0x89E9, 0xB98A, 0xA9AB],
     [0x5844, 0x4865, 0x7806, 0x6827, 0x18C0, 0x08E1, 0x3882, 0x28A3],
     [0xCB7D, 0xDB5C, 0xEB3F, 0xFB1E, 0x8BF9, 0x9BD8, 0xABBB, 0xBB9A],
     [0x4A75, 0x5A54, 0x6A37, 0x7A16, 0x0AF1, 0x1AD0, 0x2AB3, 0x3A92],
     [0xFD2E, 0xED0F, 0xDD6C, 0xCD4D, 0xBDAA, 0xAD8B, 0x9DE8, 0x8DC9],
     [0x7C26, 0x6C07, 0x5C64, 0x4C45, 0x3CA2, 0x2C83, 0x1CE0, 0x0CC1],
     [0xEF1F, 0xFF3E, 0xCF5D, 0xDF7C, 0xAF9B, 0xBFBA, 0x8FD9, 0x9FF8],
     [0x6E17, 0x7E36, 0x4E55, 0x5E74, 0x2E93, 0x3EB2, 0x0ED1, 0x1EF0]]"

definition ccittTab :: "u16 list" where
  "ccittTab = concat
    [[0x0000, 0x1189, 0x2312, 0x329b, 0x4624, 0x57ad, 0x6536, 0x74bf],
     [0x8c48, 0x9dc1, 0xaf5a, 0xbed3, 0xca6c, 0xdbe5, 0xe97e, 0xf8f7],
     [0x1081, 0x0108, 0x3393, 0x221a, 0x56a5, 0x472c, 0x75b7, 0x643e],
     [0x9cc9, 0x8d40, 0xbfdb, 0xae52, 0xdaed, 0xcb64, 0xf9ff, 0xe876],
     [0x2102, 0x308b, 0x0210, 0x1399, 0x6726, 0x76af, 0x4434, 0x55bd],
     [0xad4a, 0xbcc3, 0x8e58, 0x9fd1, 0xeb6e, 0xfae7, 0xc87c, 0xd9f5],
     [0x3183, 0x200a, 0x1291, 0x0318, 0x77a7, 0x662e, 0x54b5, 0x453c],
     [0xbdcb, 0xac42, 0x9ed9, 0x8f50, 0xfbef, 0xea66, 0xd8fd, 0xc974],
     [0x4204, 0x538d, 0x6116, 0x709f, 0x0420, 0x15a9, 0x2732, 0x36bb],
     [0xce4c, 0xdfc5, 0xed5e, 0xfcd7, 0x8868, 0x99e1, 0xab7a, 0xbaf3],
     [0x5285, 0x430c, 0x7197, 0x601e, 0x14a1, 0x0528, 0x37b3, 0x263a],
     [0xdecd, 0xcf44, 0xfddf, 0xec56, 0x98e9, 0x8960, 0xbbfb, 0xaa72],
     [0x6306, 0x728f, 0x4014, 0x519d, 0x2522, 0x34ab, 0x0630, 0x17b9],
     [0xef4e, 0xfec7, 0xcc5c, 0xddd5, 0xa96a, 0xb8e3, 0x8a78, 0x9bf1],
     [0x7387, 0x620e, 0x5095, 0x411c, 0x35a3, 0x242a, 0x16b1, 0x0738],
     [0xffcf, 0xee46, 0xdcdd, 0xcd54, 0xb9eb, 0xa862, 0x9af9, 0x8b70],
     [0x8408, 0x9581, 0xa71a, 0xb693, 0xc22c, 0xd3a5, 0xe13e, 0xf0b7],
     [0x0840, 0x19c9, 0x2b52, 0x3adb, 0x4e64, 0x5fed, 0x6d76, 0x7cff],
     [0x9489, 0x8500, 0xb79b, 0xa612, 0xd2ad, 0xc324, 0xf1bf, 0xe036],
     [0x18c1, 0x0948, 0x3bd3, 0x2a5a, 0x5ee5, 0x4f6c, 0x7df7, 0x6c7e],
     [0xa50a, 0xb483, 0x8618, 0x9791, 0xe32e, 0xf2a7, 0xc03c, 0xd1b5],
     [0x2942, 0x38cb, 0x0a50, 0x1bd9, 0x6f66, 0x7eef, 0x4c74, 0x5dfd],
     [0xb58b, 0xa402, 0x9699, 0x8710, 0xf3af, 0xe226, 0xd0bd, 0xc134],
     [0x39c3, 0x284a, 0x1ad1, 0x0b58, 0x7fe7, 0x6e6e, 0x5cf5, 0x4d7c],
     [0xc60c, 0xd785, 0xe51e, 0xf497, 0x8028, 0x91a1, 0xa33a, 0xb2b3],
     [0x4a44, 0x5bcd, 0x6956, 0x78df, 0x0c60, 0x1de9, 0x2f72, 0x3efb],
     [0xd68d, 0xc704, 0xf59f, 0xe416, 0x90a9, 0x8120, 0xb3bb, 0xa232],
     [0x5ac5, 0x4b4c, 0x79d7, 0x685e, 0x1ce1, 0x0d68, 0x3ff3, 0x2e7a],
     [0xe70e, 0xf687, 0xc41c, 0xd595, 0xa12a, 0xb0a3, 0x8238, 0x93b1],
     [0x6b46, 0x7acf, 0x4854, 0x59dd, 0x2d62, 0x3ceb, 0x0e70, 0x1ff9],
     [0xf78f, 0xe606, 0xd49d, 0xc514, 0xb1ab, 0xa022, 0x92b9, 0x8330],
     [0x7bc7, 0x6a4e, 0x58d5, 0x495c, 0x3de3, 0x2c6a, 0x1ef1, 0x0f78]]"

definition crc8 :: "'a::len word \<Rightarrow> nat \<Rightarrow> u8" where
  "crc8 crc i = ucast (drop_bit (8 * i) crc)"

definition CRC_encodeFiveBit :: "bool list \<Rightarrow> u32" where
  "CRC_encodeFiveBit inp =
     (let total = fold (\<lambda>i total. total + ucast (bitsToByteBE (drop i inp))) [0, 8, 16, 24, 32, 40, 48, 56, 64] (0 :: u16);
          total' = total mod 31
      in ucast total')"

definition CRC_checkFiveBit :: "bool list \<Rightarrow> u32 \<Rightarrow> bool" where
  "CRC_checkFiveBit inp tcrc = (let crc = CRC_encodeFiveBit inp in crc = tcrc)"

text \<open>The register after the loop over the first \<open>length - 2\<close> bytes.\<close>

definition crc_loop162 :: "bytes \<Rightarrow> nat \<Rightarrow> u16" where
  "crc_loop162 inp n =
     fold (\<lambda>i crc16. push_bit 8 (ucast (crc8 crc16 0)) XOR CCITT16_TABLE2 ! unat (crc8 crc16 1 XOR inp ! i))
       [0..<n - 2] 0"

definition CRC_addCCITT162 :: "bytes \<Rightarrow> nat \<Rightarrow> bytes" where
  "CRC_addCCITT162 inp n =
     (let crc16 = NOT (crc_loop162 inp n)
      in inp[n - 1 := crc8 crc16 0, n - 2 := crc8 crc16 1])"

definition CRC_checkCCITT162 :: "bytes \<Rightarrow> nat \<Rightarrow> bool" where
  "CRC_checkCCITT162 inp n =
     (let crc16 = NOT (crc_loop162 inp n)
      in crc8 crc16 0 = inp ! (n - 1) \<and> crc8 crc16 1 = inp ! (n - 2))"

definition crc_loop161 :: "bytes \<Rightarrow> nat \<Rightarrow> u16" where
  "crc_loop161 inp n =
     fold (\<lambda>i crc16. ucast (crc8 crc16 1) XOR CCITT16_TABLE1 ! unat (crc8 crc16 0 XOR inp ! i))
       [0..<n - 2] 0xFFFF"

definition CRC_addCCITT161 :: "bytes \<Rightarrow> nat \<Rightarrow> bytes" where
  "CRC_addCCITT161 inp n =
     (let crc16 = NOT (crc_loop161 inp n)
      in inp[n - 2 := crc8 crc16 0, n - 1 := crc8 crc16 1])"

definition CRC_checkCCITT161 :: "bytes \<Rightarrow> nat \<Rightarrow> bool" where
  "CRC_checkCCITT161 inp n =
     (let crc16 = NOT (crc_loop161 inp n)
      in crc8 crc16 0 = inp ! (n - 2) \<and> crc8 crc16 1 = inp ! (n - 1))"

definition CRC_crc8 :: "bytes \<Rightarrow> nat \<Rightarrow> u8" where
  "CRC_crc8 inp n = fold (\<lambda>i crc. CRC8_TABLE ! unat (crc XOR inp ! i)) [0..<n] 0"

subsection \<open>The incremental checksum\<close>

record CCITTChecksumReverse =
  crc16 :: u32

definition bitsToByte :: "bool list \<Rightarrow> u8" where
  "bitsToByte bits =
     fold (\<lambda>i val. let val' = push_bit 1 val in if bits ! i then val' OR 0x01 else val') [0..<8] 0x00"

definition bitsToByteRev :: "bool list \<Rightarrow> u8" where
  "bitsToByteRev bits =
     fold (\<lambda>i val. let val' = drop_bit 1 val in if bits ! i then val' OR 0x80 else val') [0..<8] 0x00"

definition byteToBits :: "u8 \<Rightarrow> bool list \<Rightarrow> bool list" where
  "byteToBits byte dat =
     snd (fold (\<lambda>i (msk, dat). (drop_bit 1 msk, dat[i := byte AND msk \<noteq> 0])) [0..<8] (0x80 :: u8, dat))"

definition byteToBitsRev :: "u8 \<Rightarrow> bool list \<Rightarrow> bool list" where
  "byteToBitsRev byte dat =
     snd (fold (\<lambda>i (msk, dat). (push_bit 1 msk, dat[i := byte AND msk \<noteq> 0])) [0..<8] (0x01 :: u8, dat))"

definition ccitt_checksum_init :: "CCITTChecksumReverse \<Rightarrow> CCITTChecksumReverse" where
  "ccitt_checksum_init checksum = checksum\<lparr>crc16 := 0xFFFF\<rparr>"

definition ccitt_checksum_update_byte :: "u8 \<Rightarrow> CCITTChecksumReverse \<Rightarrow> CCITTChecksumReverse" where
  "ccitt_checksum_update_byte b checksum = checksum\<lparr>crc16 :=
     ucast (crc8 (crc16 checksum) 1) XOR ucast (ccittTab ! unat (crc8 (crc16 checksum) 0 XOR b))\<rparr>"

definition ccitt_checksum_update_bytes ::
    "CCITTChecksumReverse \<Rightarrow> bytes \<Rightarrow> nat \<Rightarrow> CCITTChecksumReverse" where
  "ccitt_checksum_update_bytes checksum dat n =
     fold (\<lambda>i. ccitt_checksum_update_byte (dat ! i)) [0..<n] checksum"

definition ccitt_checksum_update_bits :: "CCITTChecksumReverse \<Rightarrow> bool list \<Rightarrow> CCITTChecksumReverse" where
  "ccitt_checksum_update_bits checksum dat =
     (let byte = bitsToByte dat in ccitt_checksum_update_byte byte checksum)"

definition ccitt_checksum_result_bytes :: "CCITTChecksumReverse \<Rightarrow> CCITTChecksumReverse \<times> bytes" where
  "ccitt_checksum_result_bytes checksum =
     (let checksum' = checksum\<lparr>crc16 := NOT (crc16 checksum)\<rparr>
      in (checksum', [crc8 (crc16 checksum') 0, crc8 (crc16 checksum') 1]))"

definition ccitt_checksum_result_bits :: "CCITTChecksumReverse \<Rightarrow> CCITTChecksumReverse \<times> bool list" where
  "ccitt_checksum_result_bits checksum =
     (let checksum' = checksum\<lparr>crc16 := NOT (crc16 checksum)\<rparr>
      in (checksum',
          map (\<lambda>i. crc8 (crc16 checksum') 0 AND drop_bit i 0x80 \<noteq> 0) [0..<8] @
          map (\<lambda>i. crc8 (crc16 checksum') 1 AND drop_bit i 0x80 \<noteq> 0) [0..<8]))"

definition ccitt_checksum_check_bytes :: "CCITTChecksumReverse \<Rightarrow> bytes \<Rightarrow> CCITTChecksumReverse \<times> bool" where
  "ccitt_checksum_check_bytes checksum dat =
     (let (checksum', sum) = ccitt_checksum_result_bytes checksum
      in (checksum', sum ! 0 = dat ! 0 \<and> sum ! 1 = dat ! 1))"

definition ccitt_checksum_check_bits :: "CCITTChecksumReverse \<Rightarrow> bool list \<Rightarrow> CCITTChecksumReverse \<times> bool" where
  "ccitt_checksum_check_bits checksum dat =
     (let (checksum', sum) = ccitt_checksum_result_bits checksum
      in (checksum', \<forall>i<16. sum ! i = dat ! i))"

definition ccitt_checksum_reset :: "CCITTChecksumReverse \<Rightarrow> CCITTChecksumReverse" where
  "ccitt_checksum_reset checksum = checksum\<lparr>crc16 := 0xFFFF\<rparr>"

subsection \<open>The bit serial reference\<close>

text \<open>
  One step of the shift register that divides by the generator polynomial: most significant
  bit first for \<open>x^16 + x^12 + x^5 + 1\<close> (0x1021) and \<open>x^8 + x^2 + x + 1\<close> (0x07), least
  significant bit first for the reflected polynomial 0x8408.
\<close>

definition msb_step :: "'a::len word \<Rightarrow> bool \<Rightarrow> 'a word \<Rightarrow> 'a word" where
  "msb_step poly m c =
     push_bit 1 c XOR (if bit c (LENGTH('a) - 1) \<noteq> m then poly else 0)"

definition lsb_step :: "'a::len word \<Rightarrow> bool \<Rightarrow> 'a word \<Rightarrow> 'a word" where
  "lsb_step poly m c = drop_bit 1 c XOR (if bit c 0 \<noteq> m then poly else 0)"

definition msb_byte :: "'a::len word \<Rightarrow> u8 \<Rightarrow> 'a word \<Rightarrow> 'a word" where
  "msb_byte poly b c = fold (\<lambda>k. msb_step poly (bit b k)) [7, 6, 5, 4, 3, 2, 1, 0] c"

definition lsb_byte :: "'a::len word \<Rightarrow> u8 \<Rightarrow> 'a word \<Rightarrow> 'a word" where
  "lsb_byte poly b c = fold (\<lambda>k. lsb_step poly (bit b k)) [0, 1, 2, 3, 4, 5, 6, 7] c"

lemma msb_step_xor: "msb_step poly (m \<noteq> m') (c XOR c') = msb_step poly m c XOR msb_step poly m' c'"
  by (auto simp: msb_step_def push_bit_xor bit_xor_iff ac_simps)

lemma lsb_step_xor: "lsb_step poly (m \<noteq> m') (c XOR c') = lsb_step poly m c XOR lsb_step poly m' c'"
  by (auto simp: lsb_step_def drop_bit_xor bit_xor_iff ac_simps)

lemma msb_byte_xor: "msb_byte poly (b XOR b') (c XOR c') = msb_byte poly b c XOR msb_byte poly b' c'"
proof -
  have "fold (\<lambda>k. msb_step poly (bit (b XOR b') k)) ks (c XOR c') =
    fold (\<lambda>k. msb_step poly (bit b k)) ks c XOR fold (\<lambda>k. msb_step poly (bit b' k)) ks c'" for ks
    by (induction ks arbitrary: c c') (simp_all only: fold_simps bit_xor_iff msb_step_xor)
  then show ?thesis unfolding msb_byte_def .
qed

lemma lsb_byte_xor: "lsb_byte poly (b XOR b') (c XOR c') = lsb_byte poly b c XOR lsb_byte poly b' c'"
proof -
  have "fold (\<lambda>k. lsb_step poly (bit (b XOR b') k)) ks (c XOR c') =
    fold (\<lambda>k. lsb_step poly (bit b k)) ks c XOR fold (\<lambda>k. lsb_step poly (bit b' k)) ks c'" for ks
    by (induction ks arbitrary: c c') (simp_all only: fold_simps bit_xor_iff lsb_step_xor)
  then show ?thesis unfolding lsb_byte_def .
qed

text \<open>Linear functions that agree on the unit words agree.\<close>

lemma linear_ext:
  fixes f g :: "u32 \<Rightarrow> 'a::len word"
  assumes "\<And>a b. f (a XOR b) = f a XOR f b" "\<And>a b. g (a XOR b) = g a XOR g b"
    and "n < 32" "map (\<lambda>k. f (2 ^ k)) [0..<n] = map (\<lambda>k. g (2 ^ k)) [0..<n]" "unat w < 2 ^ n"
  shows "f w = g w"
proof -
  show ?thesis
    using assms(5) linear_table [of f n "unat w", OF assms(1,3)] linear_table [of g n "unat w", OF assms(2,3)] assms(4)
    by simp
qed

lemma upt_8: "[0..<8] = [0, 1, 2, 3, 4, 5, 6, 7]"
  by (simp add: upt_rec)

lemma crc8_table: "CRC8_TABLE = xor_table [0x7, 0xE, 0x1C, 0x38, 0x70, 0xE0, 0xC7, 0x89] @ [0x01]"
  by (simp add: CRC8_TABLE_def xor_table_def)

lemma ccitt1_table: "CCITT16_TABLE1 = xor_table [0x1189, 0x2312, 0x4624, 0x8C48, 0x1081, 0x2102, 0x4204, 0x8408]"
  by (simp add: CCITT16_TABLE1_def xor_table_def)

lemma ccitt2_table: "CCITT16_TABLE2 = xor_table [0x1021, 0x2042, 0x4084, 0x8108, 0x1231, 0x2462, 0x48C4, 0x9188]"
  by (simp add: CCITT16_TABLE2_def xor_table_def)

lemma ccittTab_table: "ccittTab = CCITT16_TABLE1"
  by (simp add: ccittTab_def CCITT16_TABLE1_def)

lemma linear_ext_byte:
  fixes f g :: "u8 \<Rightarrow> 'a::len word"
  assumes f: "\<And>a b. f (a XOR b) = f a XOR f b" and g: "\<And>a b. g (a XOR b) = g a XOR g b"
    and units: "map (\<lambda>k. f (2 ^ k)) [0..<8] = map (\<lambda>k. g (2 ^ k)) [0..<8]"
  shows "f b = g b"
proof -
  have x: "(ucast (c XOR d :: u32) :: u8) = ucast c XOR ucast d" for c d
    by (rule unsigned_xor_eq)
  have p: "(ucast (2 ^ k :: u32) :: u8) = 2 ^ k" if "k < 8" for k
    using that unfolding less8_iff by (elim insertE) simp_all
  have "unat (ucast b :: u32) < 2 ^ 8" using unat_byte_less [of b] by simp
  then have "f (ucast (ucast b :: u32)) = g (ucast (ucast b :: u32))"
    using units by (intro linear_ext [of "\<lambda>w. f (ucast w)" "\<lambda>w. g (ucast w)" 8]) (simp_all add: x f g p)
  then show ?thesis by simp
qed

lemma table_entry:
  fixes f :: "u8 \<Rightarrow> 'a::len word"
  assumes f: "\<And>a b. f (a XOR b) = f a XOR f b" and t: "xor_table (map (\<lambda>k. f (2 ^ k)) [0..<8]) = t"
  shows "t ! unat b = f b"
proof -
  have x: "(ucast (c XOR d :: u32) :: u8) = ucast c XOR ucast d" for c d
    by (rule unsigned_xor_eq)
  have p: "(ucast (2 ^ k :: u32) :: u8) = 2 ^ k" if "k < 8" for k
    using that unfolding less8_iff by (elim insertE) simp_all
  have "unat b < 2 ^ 8" using unat_byte_less [of b] by simp
  then have "xor_table (map (\<lambda>k. f (ucast (2 ^ k :: u32))) [0..<8]) ! unat b = f (ucast (of_nat (unat b) :: u32))"
    by (intro linear_table) (simp_all add: x f)
  moreover have "map (\<lambda>k. f (ucast (2 ^ k :: u32))) [0..<8] = map (\<lambda>k. f (2 ^ k)) [0..<8]"
    by (simp add: p)
  moreover have "(of_nat (unat b) :: u32) = ucast b" by simp
  then have "(ucast (of_nat (unat b) :: u32) :: u8) = b" by (simp only: ucast_byte_back)
  ultimately show ?thesis using t by simp
qed

lemmas serial_simps = msb_byte_def lsb_byte_def msb_step_def lsb_step_def

lemma crc_units:
  "map (\<lambda>k. msb_byte 0x07 (2 ^ k) (0 :: u8)) [0..<8] = [0x7, 0xE, 0x1C, 0x38, 0x70, 0xE0, 0xC7, 0x89]"
  "map (\<lambda>k. lsb_byte 0x8408 (2 ^ k) (0 :: u16)) [0..<8] = [0x1189, 0x2312, 0x4624, 0x8C48, 0x1081, 0x2102, 0x4204, 0x8408]"
  "map (\<lambda>k. msb_byte 0x1021 (2 ^ k) (0 :: u16)) [0..<8] = [0x1021, 0x2042, 0x4084, 0x8108, 0x1231, 0x2462, 0x48C4, 0x9188]"
  unfolding upt_8 by (simp_all add: serial_simps)

lemma CRC8_entry: "CRC8_TABLE ! unat b = msb_byte 0x07 b 0"
proof -
  have "unat b < 256" by (rule unat_byte_less)
  then have "CRC8_TABLE ! unat b = xor_table [0x7, 0xE, 0x1C, 0x38, 0x70, 0xE0, 0xC7, 0x89] ! unat b"
    by (simp add: crc8_table nth_append)
  also have "\<dots> = msb_byte 0x07 b 0"
    using crc_units(1) msb_byte_xor [where c = 0 and c' = 0] by (intro table_entry) simp_all
  finally show ?thesis .
qed

lemma CCITT1_entry: "CCITT16_TABLE1 ! unat b = lsb_byte 0x8408 b 0"
  using crc_units(2) lsb_byte_xor [where c = 0 and c' = 0]
  by (intro table_entry) (simp_all add: ccitt1_table)

lemma CCITT2_entry: "CCITT16_TABLE2 ! unat b = msb_byte 0x1021 b 0"
  using crc_units(3) msb_byte_xor [where c = 0 and c' = 0]
  by (intro table_entry) (simp_all add: ccitt2_table)

text \<open>The register is consumed byte by byte: the byte that leaves it meets the data byte.\<close>

lemma serial_xor_0:
  "msb_byte poly 0 (c XOR c') = msb_byte poly 0 c XOR msb_byte poly 0 c'"
  "lsb_byte poly 0 (d XOR d') = lsb_byte poly 0 d XOR lsb_byte poly 0 d'"
  using msb_byte_xor [of poly 0 0 c c'] lsb_byte_xor [of poly 0 0 d d'] by simp_all

lemma serial_shift:
  "msb_byte 0x1021 0 (ucast (b :: u8)) = (push_bit 8 (ucast b) :: u16)"
  "msb_byte 0x1021 b (push_bit 8 (ucast b)) = (0 :: u16)"
  "lsb_byte 0x8408 0 (push_bit 8 (ucast b)) = (ucast b :: u16)"
  "lsb_byte 0x8408 b (ucast b) = (0 :: u16)"
  "msb_byte 0x07 b b = (0 :: u8)"
proof -
  have u: "ucast (a XOR b :: u8) = (ucast a XOR ucast b :: u16)" for a b by (rule unsigned_xor_eq)
  show "msb_byte 0x1021 0 (ucast (b :: u8)) = (push_bit 8 (ucast b) :: u16)"
    by (rule linear_ext_byte; (simp only: u serial_xor_0 push_bit_xor)?)
      (simp only: upt_8 list.map, simp add: serial_simps push_bit_eq_mult)
  show "msb_byte 0x1021 b (push_bit 8 (ucast b)) = (0 :: u16)"
    by (rule linear_ext_byte; (simp only: u msb_byte_xor push_bit_xor xor_self_eq)?)
      (simp only: upt_8 list.map, simp add: serial_simps push_bit_eq_mult)
  show "lsb_byte 0x8408 0 (push_bit 8 (ucast b)) = (ucast b :: u16)"
    by (rule linear_ext_byte; (simp only: u serial_xor_0 push_bit_xor)?)
      (simp only: upt_8 list.map, simp add: serial_simps push_bit_eq_mult)
  show "lsb_byte 0x8408 b (ucast b) = (0 :: u16)"
    by (rule linear_ext_byte; (simp only: u lsb_byte_xor push_bit_xor xor_self_eq)?)
      (simp only: upt_8 list.map, simp add: serial_simps)
  show "msb_byte 0x07 b b = (0 :: u8)"
    by (rule linear_ext_byte; (simp only: msb_byte_xor xor_self_eq)?)
      (simp only: upt_8 list.map, simp add: serial_simps)
qed

lemma join_bytes: "push_bit 8 (ucast (crc8 c 1)) XOR ucast (crc8 c 0) = c"
  for c :: u16
proof (rule bit_word_eqI)
  fix n :: nat assume "n < LENGTH(16)"
  then show "bit (push_bit 8 (ucast (crc8 c 1)) XOR ucast (crc8 c 0) :: u16) n = bit c n"
    by (cases "n < 8") (auto simp: crc8_def bit_simps)
qed

lemma step162: "push_bit 8 (ucast (crc8 c 0)) XOR CCITT16_TABLE2 ! unat (crc8 c 1 XOR b) = msb_byte 0x1021 b c"
proof -
  let ?h = "crc8 c 1" and ?l = "crc8 c 0"
  have "msb_byte 0x1021 b c = msb_byte 0x1021 ((b XOR ?h) XOR ?h) (push_bit 8 (ucast ?h) XOR ucast ?l)"
    by (simp only: join_bytes word_xor_cancel)
  also have "\<dots> = msb_byte 0x1021 (b XOR ?h) (ucast ?l)"
    using msb_byte_xor [of "0x1021 :: u16" "b XOR ?h" ?h "ucast ?l" "push_bit 8 (ucast ?h)"]
    by (simp only: serial_shift xor.commute [of "ucast ?l"] xor.right_neutral)
  also have "\<dots> = msb_byte 0x1021 (b XOR ?h) 0 XOR msb_byte 0x1021 0 (ucast ?l)"
    using msb_byte_xor [of "0x1021 :: u16" "b XOR ?h" 0 0 "ucast ?l"] by simp
  finally show ?thesis by (simp add: CCITT2_entry serial_shift ac_simps)
qed

lemma step161: "ucast (crc8 c 1) XOR CCITT16_TABLE1 ! unat (crc8 c 0 XOR b) = lsb_byte 0x8408 b (c :: u16)"
proof -
  let ?h = "crc8 c 1" and ?l = "crc8 c 0"
  have "lsb_byte 0x8408 b c = lsb_byte 0x8408 ((b XOR ?l) XOR ?l) (push_bit 8 (ucast ?h) XOR ucast ?l)"
    by (simp only: join_bytes word_xor_cancel)
  also have "\<dots> = lsb_byte 0x8408 (b XOR ?l) (push_bit 8 (ucast ?h))"
    using lsb_byte_xor [of "0x8408 :: u16" "b XOR ?l" ?l "push_bit 8 (ucast ?h)" "ucast ?l"]
    by (simp only: serial_shift xor.right_neutral)
  also have "\<dots> = lsb_byte 0x8408 (b XOR ?l) 0 XOR lsb_byte 0x8408 0 (push_bit 8 (ucast ?h))"
    using lsb_byte_xor [of "0x8408 :: u16" "b XOR ?l" 0 0 "push_bit 8 (ucast ?h)"] by simp
  finally show ?thesis by (simp add: CCITT1_entry serial_shift ac_simps)
qed

lemma step8: "CRC8_TABLE ! unat (c XOR b) = msb_byte 0x07 b c"
  using msb_byte_xor [of "0x07 :: u8" "b XOR c" c 0 c] by (simp add: CRC8_entry serial_shift ac_simps)

subsection \<open>The contract of a checksum\<close>

text \<open>
  A checksum register is updated byte by byte.  If no update merges two registers, or two
  bytes from the same register, then two messages that differ in one byte leave different
  registers.
\<close>

locale byte_checksum =
  fixes upd :: "u8 \<Rightarrow> 'c \<Rightarrow> 'c"
  assumes upd_register: "upd b c = upd b c' \<Longrightarrow> c = c'"
    and upd_byte: "upd b c = upd b' c \<Longrightarrow> b = b'"
begin

lemma run_register: "fold upd bs c = fold upd bs c' \<Longrightarrow> c = c'"
  by (induction bs arbitrary: c c') (auto dest: upd_register)

lemma run_byte: "fold upd (xs @ b # ys) c = fold upd (xs @ b' # ys) c \<Longrightarrow> b = b'"
  by (auto dest!: run_register upd_byte)

lemma run_changed:
  assumes "i < length bs" "v \<noteq> bs ! i"
  shows "fold upd (bs[i := v]) c \<noteq> fold upd bs c"
proof
  assume eq: "fold upd (bs[i := v]) c = fold upd bs c"
  have "fold upd (take i bs @ v # drop (Suc i) bs) c = fold upd (take i bs @ bs ! i # drop (Suc i) bs) c"
    using eq assms by (simp only: upd_conv_take_nth_drop [symmetric] list_update_id)
  then show False using run_byte assms by blast
qed

end

lemma msb_step_kernel: "bit poly 0 \<Longrightarrow> msb_step poly False d = 0 \<Longrightarrow> d = (0 :: 'a::len word)"
proof -
  assume p: "bit poly 0" and z: "msb_step poly False d = 0"
  have "\<not> bit (msb_step poly False d) 0" using z by simp
  then have nb: "\<not> bit d (LENGTH('a) - 1)"
    using p unfolding msb_step_def bit_xor_iff bit_push_bit_iff by (auto split: if_splits)
  have "\<not> bit d n" if "n < LENGTH('a)" for n
  proof (cases "n = LENGTH('a) - 1")
    case False
    then have "Suc n < LENGTH('a)" using that by simp
    moreover have "\<not> bit (msb_step poly False d) (Suc n)" using z by simp
    ultimately show ?thesis
      using nb unfolding msb_step_def bit_xor_iff bit_push_bit_iff by (simp add: possible_bit_word)
  qed (use nb in simp)
  then show "d = 0" by (auto simp: word_eq_bits)
qed

lemma lsb_step_kernel: "bit poly (LENGTH('a) - 1) \<Longrightarrow> lsb_step poly False d = 0 \<Longrightarrow> d = (0 :: 'a::len word)"
proof -
  assume p: "bit poly (LENGTH('a) - 1)" and z: "lsb_step poly False d = 0"
  have "\<not> bit (lsb_step poly False d) (LENGTH('a) - 1)" using z by simp
  moreover have "\<not> bit d LENGTH('a)" using bit_imp_le_length [of d "LENGTH('a)"] by auto
  ultimately have nb: "\<not> bit d 0" using p by (auto simp: lsb_step_def bit_simps split: if_splits)
  have "\<not> bit d n" for n
  proof (cases n)
    case (Suc m)
    have "\<not> bit (lsb_step poly False d) m" using z by simp
    then show ?thesis using nb Suc by (simp add: lsb_step_def bit_drop_bit_eq)
  qed (use nb in simp)
  then show "d = 0" by (auto simp: word_eq_bits)
qed

lemma msb_fold_kernel: "bit poly 0 \<Longrightarrow> fold (\<lambda>k. msb_step poly False) ks c = 0 \<Longrightarrow> c = 0"
  by (induction ks arbitrary: c) (auto dest: msb_step_kernel)

lemma lsb_fold_kernel:
  assumes "bit (poly :: 'a::len word) (LENGTH('a) - 1)"
  shows "fold (\<lambda>k. lsb_step poly False) ks c = 0 \<Longrightarrow> c = 0"
  by (induction ks arbitrary: c) (auto dest: lsb_step_kernel [OF assms])

lemma msb_byte_kernel: "bit poly 0 \<Longrightarrow> msb_byte poly 0 d = 0 \<Longrightarrow> d = 0"
  unfolding msb_byte_def bit_0_eq bot_fun_def bot_bool_def by (rule msb_fold_kernel)

lemma lsb_byte_kernel: "bit (poly :: 'a::len word) (LENGTH('a) - 1) \<Longrightarrow> lsb_byte poly 0 d = 0 \<Longrightarrow> d = 0"
  unfolding lsb_byte_def bit_0_eq bot_fun_def bot_bool_def by (rule lsb_fold_kernel)

lemma msb_register:
  assumes "bit poly 0" "msb_byte poly b c = msb_byte poly b c'"
  shows "c = c'"
proof -
  have "msb_byte poly 0 (c XOR c') = 0"
    using msb_byte_xor [of poly b b c c'] unfolding assms(2) xor_self_eq .
  then show ?thesis using msb_byte_kernel [OF assms(1)] word_xor_eq_0 by blast
qed

lemma lsb_register:
  assumes "bit (poly :: 'a::len word) (LENGTH('a) - 1)" "lsb_byte poly b c = lsb_byte poly b c'"
  shows "c = c'"
proof -
  have "lsb_byte poly 0 (c XOR c') = 0"
    using lsb_byte_xor [of poly b b c c'] unfolding assms(2) xor_self_eq .
  then show ?thesis using lsb_byte_kernel [OF assms(1)] word_xor_eq_0 by blast
qed

lemma serial_byte_0:
  "msb_byte (0x07 :: u8) x 0 = 0 \<Longrightarrow> x = 0"
  "msb_byte (0x1021 :: u16) x 0 = 0 \<Longrightarrow> x = 0"
  "lsb_byte (0x8408 :: u16) x 0 = 0 \<Longrightarrow> x = 0"
proof -
  assume "msb_byte (0x07 :: u8) x 0 = 0"
  then have "msb_byte (0x07 :: u8) 0 x = 0"
    using msb_byte_xor [of "0x07 :: u8" x 0 0 x] by (simp add: serial_shift)
  then show "x = 0" by (rule msb_byte_kernel [rotated]) simp
next
  assume "msb_byte (0x1021 :: u16) x 0 = 0"
  then have "msb_byte (0x1021 :: u16) 0 (push_bit 8 (ucast x)) = 0"
    using msb_byte_xor [of "0x1021 :: u16" x 0 0 "push_bit 8 (ucast x)"] by (simp add: serial_shift)
  then have "push_bit 8 (ucast x :: u16) = 0" by (rule msb_byte_kernel [rotated]) simp
  then have "\<not> bit (push_bit 8 (ucast x :: u16)) (n + 8)" for n by simp
  then show "x = 0" by (simp add: word_eq_bits bit_push_bit_iff bit_ucast_iff possible_bit_word)
next
  assume "lsb_byte (0x8408 :: u16) x 0 = 0"
  then have "lsb_byte (0x8408 :: u16) 0 (ucast x) = 0"
    using lsb_byte_xor [of "0x8408 :: u16" x 0 0 "ucast x"] by (simp add: serial_shift)
  then have "(ucast x :: u16) = 0" by (rule lsb_byte_kernel [rotated]) simp
  then have "\<not> bit (ucast x :: u16) n" for n by simp
  then show "x = 0" by (simp add: word_eq_bits bit_ucast_iff)
qed

lemma serial_byte:
  "msb_byte (0x07 :: u8) b c = msb_byte 0x07 b' c \<Longrightarrow> b = b'"
  "msb_byte (0x1021 :: u16) b d = msb_byte 0x1021 b' d \<Longrightarrow> b = b'"
  "lsb_byte (0x8408 :: u16) b d = lsb_byte 0x8408 b' d \<Longrightarrow> b = b'"
  using serial_byte_0 [of "b XOR b'"] msb_byte_xor [of "0x07 :: u8" b b' c c]
    msb_byte_xor [of "0x1021 :: u16" b b' d d] lsb_byte_xor [of "0x8408 :: u16" b b' d d]
  by simp_all

interpretation crc_8: byte_checksum "msb_byte (0x07 :: u8)"
  by unfold_locales (auto dest: serial_byte msb_register [rotated])

interpretation ccitt_162: byte_checksum "msb_byte (0x1021 :: u16)"
  by unfold_locales (auto dest: serial_byte msb_register [rotated])

interpretation ccitt_161: byte_checksum "lsb_byte (0x8408 :: u16)"
  by unfold_locales (auto dest: serial_byte lsb_register [rotated])

subsection \<open>Adding and checking\<close>

lemma fold_nth_take: "n \<le> length xs \<Longrightarrow> fold (\<lambda>i. f (xs ! i)) [0..<n] s = fold f (take n xs) s"
  by (induction n) (simp_all add: take_Suc_conv_app_nth)

lemma loop162: "n - 2 \<le> length bs \<Longrightarrow> crc_loop162 bs n = fold (msb_byte 0x1021) (take (n - 2) bs) 0"
  unfolding crc_loop162_def step162 by (rule fold_nth_take)

lemma loop161: "n - 2 \<le> length bs \<Longrightarrow> crc_loop161 bs n = fold (lsb_byte 0x8408) (take (n - 2) bs) 0xFFFF"
  unfolding crc_loop161_def step161 by (rule fold_nth_take)

lemma crc8_inject: "crc8 c 0 = crc8 d 0 \<Longrightarrow> crc8 c 1 = crc8 d 1 \<Longrightarrow> c = d"
  for c d :: u16
  by (metis join_bytes)

text \<open>Changing a byte of the block changes the register or the stored checksum.\<close>

lemma loop_changed:
  assumes "2 < n" "n \<le> length bs" "i < n - 2" "v \<noteq> bs ! i"
  shows "crc_loop162 (bs[i := v]) n \<noteq> crc_loop162 bs n" "crc_loop161 (bs[i := v]) n \<noteq> crc_loop161 bs n"
proof -
  have t: "take (n - 2) (bs[i := v]) = (take (n - 2) bs)[i := v]"
    by (simp add: take_update_swap)
  have l: "i < length (take (n - 2) bs)" "v \<noteq> take (n - 2) bs ! i" using assms by simp_all
  show "crc_loop162 (bs[i := v]) n \<noteq> crc_loop162 bs n"
    using ccitt_162.run_changed [OF l] assms by (simp add: loop162 t)
  show "crc_loop161 (bs[i := v]) n \<noteq> crc_loop161 bs n"
    using ccitt_161.run_changed [OF l] assms by (simp add: loop161 t)
qed

lemma loop_tail:
  assumes "n - 2 \<le> i"
  shows "crc_loop162 (bs[i := v]) n = crc_loop162 bs n" "crc_loop161 (bs[i := v]) n = crc_loop161 bs n"
  using assms unfolding crc_loop162_def crc_loop161_def by (auto intro!: fold_upt_cong)

lemma last_two: "2 < n \<Longrightarrow> i < n \<Longrightarrow> n - 2 \<le> i \<Longrightarrow> i = n - 2 \<or> i = n - (1 :: nat)"
  by linarith

text \<open>C8: the three table driven CRCs are the bit serial divisions: \<open>x^8 + x^2 + x + 1\<close> from zero,
  \<open>x^16 + x^12 + x^5 + 1\<close> from zero, and its reflection from 0xFFFF.\<close>

theorem crc_tables_divide:
  assumes "n \<le> length bs"
  shows "CRC_crc8 bs n = fold (msb_byte 0x07) (take n bs) 0 \<and>
    crc_loop162 bs n = fold (msb_byte 0x1021) (take (n - 2) bs) 0 \<and>
    crc_loop161 bs n = fold (lsb_byte 0x8408) (take (n - 2) bs) 0xFFFF"
  using assms fold_nth_take [of n bs "msb_byte 0x07" 0]
  by (simp add: loop162 loop161 CRC_crc8_def step8)

lemma crc_tables_divide_witness:
  "CRC_crc8 [0x31, 0x32] 2 = fold (msb_byte 0x07) (take 2 [0x31, 0x32]) 0 \<and>
   crc_loop162 [0x31, 0x32] 2 = fold (msb_byte 0x1021) (take (2 - 2) [0x31, 0x32]) 0 \<and>
   crc_loop161 [0x31, 0x32] 2 = fold (lsb_byte 0x8408) (take (2 - 2) [0x31, 0x32]) 0xFFFF"
  by (rule crc_tables_divide) simp

lemma added_passes:
  assumes "2 < n" "n \<le> length bs"
  shows "CRC_checkCCITT162 (CRC_addCCITT162 bs n) n" "CRC_checkCCITT161 (CRC_addCCITT161 bs n) n"
proof -
  have "n - 1 \<noteq> n - 2" "n - 1 < length bs" "n - 2 < length bs" using assms by auto
  then show "CRC_checkCCITT162 (CRC_addCCITT162 bs n) n" "CRC_checkCCITT161 (CRC_addCCITT161 bs n) n"
    by (simp_all add: CRC_checkCCITT162_def CRC_addCCITT162_def CRC_checkCCITT161_def CRC_addCCITT161_def
        Let_def loop_tail nth_list_update del: One_nat_def)
qed

text \<open>A block to which either CCITT checksum has been added passes its check, and its data is
  unchanged.\<close>

theorem ccitt_add_check:
  assumes "2 < n" "n \<le> length bs"
  shows "CRC_checkCCITT162 (CRC_addCCITT162 bs n) n \<and> CRC_checkCCITT161 (CRC_addCCITT161 bs n) n \<and>
    take (n - 2) (CRC_addCCITT162 bs n) = take (n - 2) bs \<and>
    take (n - 2) (CRC_addCCITT161 bs n) = take (n - 2) bs"
  using added_passes [OF assms] by (simp add: CRC_addCCITT162_def CRC_addCCITT161_def Let_def)

lemma ccitt_add_check_witness:
  "CRC_checkCCITT162 (CRC_addCCITT162 [1, 2, 3, 0, 0] 5) 5 \<and> CRC_checkCCITT161 (CRC_addCCITT161 [1, 2, 3, 0, 0] 5) 5 \<and>
   take (5 - 2) (CRC_addCCITT162 [1, 2, 3, 0, 0] 5) = take (5 - 2) [1, 2, 3, 0, 0] \<and>
   take (5 - 2) (CRC_addCCITT161 [1, 2, 3, 0, 0] 5) = take (5 - 2) [1, 2, 3, 0, 0]"
  by (rule ccitt_add_check) simp_all

text \<open>In a block that passes a CCITT check, changing any one byte (data or checksum, by any
  number of bits) makes the check fail.\<close>

theorem ccitt_detects_changed_byte:
  assumes "2 < n" "n \<le> length bs" "i < n" "v \<noteq> bs ! i"
  shows "(CRC_checkCCITT162 bs n \<longrightarrow> \<not> CRC_checkCCITT162 (bs[i := v]) n) \<and>
    (CRC_checkCCITT161 bs n \<longrightarrow> \<not> CRC_checkCCITT161 (bs[i := v]) n)"
proof (cases "i < n - 2")
  case True
  then have k: "(bs[i := v]) ! (n - 1) = bs ! (n - 1)" "(bs[i := v]) ! (n - 2) = bs ! (n - 2)"
    by simp_all
  have "NOT a = NOT b \<Longrightarrow> a = b" for a b :: u16
    by (metis bit.double_compl)
  then show ?thesis
    using loop_changed [OF assms(1,2) True assms(4)]
    unfolding CRC_checkCCITT162_def CRC_checkCCITT161_def Let_def k
    by (metis crc8_inject)
next
  case False
  then have "i = n - 2 \<or> i = n - 1" using last_two assms by simp
  moreover have "n - 1 < length bs" "n - 2 < length bs" using assms by auto
  ultimately show ?thesis
    using False assms(4)
    by (auto simp: CRC_checkCCITT162_def CRC_checkCCITT161_def Let_def loop_tail simp del: One_nat_def)
qed

lemma ccitt_detects_changed_byte_witness:
  "CRC_checkCCITT162 (CRC_addCCITT162 [1, 2, 0, 0] 4) 4 \<and>
   \<not> CRC_checkCCITT162 ((CRC_addCCITT162 [1, 2, 0, 0] 4)[1 := 7]) 4"
proof -
  let ?c = "CRC_addCCITT162 [1, 2, 0, 0] 4"
  have "7 \<noteq> ?c ! 1" "length ?c = 4" by (simp_all add: CRC_addCCITT162_def Let_def)
  moreover have "CRC_checkCCITT162 ?c 4" by (rule added_passes) simp_all
  ultimately show ?thesis using ccitt_detects_changed_byte [of 4 ?c 1 7] by linarith
qed

subsection \<open>The five bit checksum\<close>

lemma add_bytes_u16:
  "unat t + (\<Sum>b\<leftarrow>bs. unat (b :: u8)) < 65536 \<Longrightarrow>
    unat (fold (\<lambda>b t. t + ucast b) bs (t :: u16)) = unat t + (\<Sum>b\<leftarrow>bs. unat b)"
proof (induction bs arbitrary: t)
  case (Cons b bs)
  have "unat (ucast b :: u16) = unat b"
    using unat_byte_less [of b] by (simp add: unsigned_ucast_eq take_bit_nat_eq_self)
  moreover have "unat t + unat b < 2 ^ LENGTH(16)" using Cons.prems by simp
  ultimately have "unat (t + ucast b) = unat t + unat b"
    by (simp add: unat_word_ariths)
  then show ?case using Cons.IH [of "t + ucast b"] Cons.prems by simp
qed simp

lemma CRC_encodeFiveBit_sum:
  "unat (CRC_encodeFiveBit bits) =
    (\<Sum>i\<leftarrow>[0, 8, 16, 24, 32, 40, 48, 56, 64]. unat (bitsToByteBE (drop i bits))) mod 31"
proof -
  let ?is = "[0, 8, 16, 24, 32, 40, 48, 56, 64] :: nat list"
  let ?bs = "map (\<lambda>i. bitsToByteBE (drop i bits)) ?is"
  let ?t = "fold (\<lambda>b t. t + ucast b) ?bs (0 :: u16)"
  have "(\<Sum>b\<leftarrow>bs. unat (b :: u8)) \<le> 255 * length bs" for bs
  proof (induction bs)
    case (Cons b bs)
    then show ?case using unat_byte_less [of b] by simp
  qed simp
  from this [of ?bs] have "(\<Sum>b\<leftarrow>?bs. unat b) < 65536" by simp
  then have "unat ?t = (\<Sum>b\<leftarrow>?bs. unat b)" using add_bytes_u16 [of 0 ?bs] by simp
  moreover have "unat (CRC_encodeFiveBit bits) = unat (?t mod 31)"
  proof -
    have "unat w < 2 ^ LENGTH(32)" for w :: u16
      by (rule order.strict_trans2 [OF unsigned_less]) simp
    then have "unat (ucast w :: u32) = unat w" for w :: u16
      by (simp only: unsigned_ucast_eq take_bit_nat_eq_self)
    then show ?thesis by (simp add: CRC_encodeFiveBit_def Let_def)
  qed
  ultimately show ?thesis by (simp add: unat_mod_distrib)
qed

subsection \<open>The incremental checksum\<close>

text \<open>The low half of the 32 bit field is the register; the upper half is never read.\<close>

definition register16 :: "CCITTChecksumReverse \<Rightarrow> u16" where
  "register16 checksum = ucast (crc16 checksum)"

lemma crc8_register16 [simp]: "i < 2 \<Longrightarrow> crc8 (register16 s) i = crc8 (crc16 s) i"
proof -
  assume "i < 2"
  then consider "i = 0" | "i = 1" by linarith
  then show ?thesis
    by cases (auto simp: crc8_def register16_def word_eq_bits bit_simps)
qed

lemma register16_update:
  "register16 (ccitt_checksum_update_byte b s) = lsb_byte 0x8408 b (register16 s)"
proof -
  have "register16 (ccitt_checksum_update_byte b s) =
    ucast (crc8 (register16 s) 1) XOR CCITT16_TABLE1 ! unat (crc8 (register16 s) 0 XOR b)"
    by (simp add: ccittTab_table ccitt_checksum_update_byte_def register16_def [of "s\<lparr>crc16 := _\<rparr>"]
        unsigned_xor_eq) (auto simp: word_eq_bits bit_simps)
  then show ?thesis by (simp only: step161)
qed

lemma register16_updates:
  "n \<le> length bs \<Longrightarrow>
    register16 (ccitt_checksum_update_bytes s bs n) = fold (lsb_byte 0x8408) (take n bs) (register16 s)"
proof (induction n)
  case (Suc n)
  then show ?case
    by (simp add: ccitt_checksum_update_bytes_def register16_update take_Suc_conv_app_nth)
qed (simp add: ccitt_checksum_update_bytes_def)

lemma register16_init: "register16 (ccitt_checksum_init s) = 0xFFFF"
  by (simp add: register16_def ccitt_checksum_init_def)

lemma result_register16:
  "snd (ccitt_checksum_result_bytes s) = [crc8 (NOT (register16 s)) 0, crc8 (NOT (register16 s)) 1]"
  by (simp add: ccitt_checksum_result_bytes_def Let_def)
    (auto simp: crc8_def register16_def word_eq_bits bit_simps)

lemma bitsToByte_BE: "bitsToByte bits = bitsToByteBE bits"
  unfolding bitsToByte_def bitsToByteBE_def Let_def upt_8
  by (cases "bits ! 0"; cases "bits ! 1"; cases "bits ! 2"; cases "bits ! 3"; cases "bits ! 4"; cases "bits ! 5"; cases "bits ! 6"; cases "bits ! 7"; simp)

lemma bitsToByteRev_LE: "bitsToByteRev bits = bitsToByteLE bits"
  unfolding bitsToByteRev_def bitsToByteLE_def Let_def upt_8
  by (cases "bits ! 0"; cases "bits ! 1"; cases "bits ! 2"; cases "bits ! 3"; cases "bits ! 4"; cases "bits ! 5"; cases "bits ! 6"; cases "bits ! 7"; simp)

lemma length_8: "length xs = 8 \<Longrightarrow> \<exists>a b c d e f g h. xs = [a, b, c, d, e, f, g, h]"
  by (auto simp: numeral_eq_Suc length_Suc_conv)

lemma byteToBits_BE: "length dat = 8 \<Longrightarrow> byteToBits b dat = byteToBitsBE b"
  unfolding byteToBits_def upt_8 using length_8 [of dat]
  by (auto simp: byteToBitsBE_def byte_mask_test byte_mask_nonzero)

lemma byteToBitsRev_LE: "length dat = 8 \<Longrightarrow> byteToBitsRev b dat = byteToBitsLE b"
  unfolding byteToBitsRev_def upt_8 using length_8 [of dat]
  by (auto simp: byteToBitsLE_def byte_mask_test byte_mask_nonzero)

text \<open>The bit oriented entry points are the byte oriented ones on most significant bit first octets.\<close>

lemma update_bits_byte:
  "ccitt_checksum_update_bits s (byteToBitsBE b) = ccitt_checksum_update_byte b s"
  by (simp add: ccitt_checksum_update_bits_def bitsToByte_BE bitsToByteBE_byteToBitsBE)

lemma result_bits_bytes:
  "snd (ccitt_checksum_result_bits s) = concat (map byteToBitsBE (snd (ccitt_checksum_result_bytes s)))"
  unfolding ccitt_checksum_result_bits_def ccitt_checksum_result_bytes_def Let_def upt_8
  by (simp add: byteToBitsBE_def byte_mask_test byte_mask_nonzero)

text \<open>C9: feeding the D-Star checksum object in pieces and reading its two result bytes gives the bytes
  that \<open>CRC_addCCITT161\<close> appends to the whole message.\<close>

theorem ccitt_incremental:
  "snd (ccitt_checksum_result_bytes
      (ccitt_checksum_update_bytes
        (ccitt_checksum_update_bytes (ccitt_checksum_init s) xs (length xs)) ys (length ys))) =
    drop (length xs + length ys) (CRC_addCCITT161 (xs @ ys @ [0, 0]) (length xs + length ys + 2))"
  (is "snd (ccitt_checksum_result_bytes ?s) = _")
proof -
  have "register16 ?s = crc_loop161 (xs @ ys @ [0, 0]) (length xs + length ys + 2)"
    by (simp add: register16_updates register16_init loop161)
  then show ?thesis
    by (simp add: result_register16 CRC_addCCITT161_def Let_def list_update_append)
qed

end
