(* ===== verification/Gf.thy ===== *)
theory Gf
  imports Bits
begin

section \<open>Finite field arithmetic and Reed-Solomon distance\<close>

text \<open>
  What the Reed-Solomon codes of tools/fec_tools.c need of their multiplications
  (\<open>gmult\<close> on bytes, \<open>gf6Mult\<close> on six bit symbols).  The locale \<open>gf_mult\<close> is the contract:
  every nonzero element is a power of the primitive element, multiplication by it is the
  linear map \<open>xt\<close>, and a product with a power is an iterate of \<open>xt\<close>.  The field laws, the
  Vandermonde argument and the minimum distance of a Reed-Solomon code follow.
\<close>

subsection \<open>Exclusive-or sums\<close>

definition xsum :: "u8 list \<Rightarrow> u8" where
  "xsum xs = foldr (XOR) xs 0"

lemma xsum_simps [simp]: "xsum [] = 0" "xsum (x # xs) = x XOR xsum xs"
  by (simp_all add: xsum_def)

lemma xsum_append [simp]: "xsum (xs @ ys) = xsum xs XOR xsum ys"
  by (induction xs) (simp_all add: ac_simps)

lemma xsum_xor: "xsum (map (\<lambda>i. f i XOR g i) is) = xsum (map f is) XOR xsum (map g is)"
  by (induction "is") (simp_all add: ac_simps)

lemma xsum_zero: "(\<And>i. i \<in> set is \<Longrightarrow> f i = 0) \<Longrightarrow> xsum (map f is) = 0"
  by (induction "is") auto

lemma xsum_filter:
  "(\<And>i. i \<in> set is \<Longrightarrow> \<not> P i \<Longrightarrow> f i = 0) \<Longrightarrow> xsum (map f (filter P is)) = xsum (map f is)"
  by (induction "is") auto

text \<open>Evaluation of a word, first symbol most significant, as the syndrome loops do it.\<close>

definition horner :: "(u8 \<Rightarrow> u8 \<Rightarrow> u8) \<Rightarrow> u8 \<Rightarrow> bytes \<Rightarrow> u8" where
  "horner mul x cw = fold (\<lambda>c r. mul r x XOR c) cw 0"

lemma horner_Nil [simp]: "horner mul x [] = 0"
  by (simp add: horner_def)

lemma horner_snoc [simp]: "horner mul x (cw @ [c]) = mul (horner mul x cw) x XOR c"
  by (simp add: horner_def)

subsection \<open>The field laws\<close>

locale gf_mult =
  fixes mul :: "u8 \<Rightarrow> u8 \<Rightarrow> u8"
    and xt :: "u8 \<Rightarrow> u8"
    and carrier :: "u8 set"
  assumes zero_in: "0 \<in> carrier"
    and one_in: "1 \<in> carrier"
    and xor_in: "a \<in> carrier \<Longrightarrow> b \<in> carrier \<Longrightarrow> a XOR b \<in> carrier"
    and xt_in: "a \<in> carrier \<Longrightarrow> xt a \<in> carrier"
    and xt_xor: "xt (a XOR b) = xt a XOR xt b"
    and xt_eq_0: "a \<in> carrier \<Longrightarrow> xt a = 0 \<Longrightarrow> a = 0"
    and power_of: "a \<in> carrier \<Longrightarrow> a \<noteq> 0 \<Longrightarrow> \<exists>k. a = (xt ^^ k) 1"
    and mul_0 [simp]: "mul 0 b = 0"
    and mul_power: "b \<in> carrier \<Longrightarrow> mul ((xt ^^ k) 1) b = (xt ^^ k) b"
begin

lemma xt_0 [simp]: "xt 0 = 0"
  using xt_xor [of 0 0] by simp

lemma iter_0 [simp]: "(xt ^^ k) 0 = 0"
  by (induction k) simp_all

lemma iter_xor: "(xt ^^ k) (a XOR b) = (xt ^^ k) a XOR (xt ^^ k) b"
  by (induction k) (simp_all add: xt_xor)

lemma iter_in: "a \<in> carrier \<Longrightarrow> (xt ^^ k) a \<in> carrier"
  by (induction k) (simp_all add: xt_in)

lemma iter_eq_0: "a \<in> carrier \<Longrightarrow> (xt ^^ k) a = 0 \<Longrightarrow> a = 0"
  by (induction k) (auto dest: xt_eq_0 [rotated] simp: iter_in)

lemma element_cases:
  assumes "a \<in> carrier"
  obtains "a = 0" | k where "a = (xt ^^ k) 1"
  using power_of assms by blast

lemma mul_in: "a \<in> carrier \<Longrightarrow> b \<in> carrier \<Longrightarrow> mul a b \<in> carrier"
  by (cases rule: element_cases [of a]) (auto simp: mul_power iter_in zero_in)

lemma mul_0_right [simp]: "a \<in> carrier \<Longrightarrow> mul a 0 = 0"
  by (cases rule: element_cases [of a]) (auto simp: mul_power zero_in)

lemma mul_1_left [simp]: "b \<in> carrier \<Longrightarrow> mul 1 b = b"
  using mul_power [of b 0] by simp

lemma mul_xor_right:
  "a \<in> carrier \<Longrightarrow> b \<in> carrier \<Longrightarrow> c \<in> carrier \<Longrightarrow> mul a (b XOR c) = mul a b XOR mul a c"
  by (cases rule: element_cases [of a]) (auto simp: mul_power iter_xor xor_in)

lemma power_mul: "mul ((xt ^^ i) 1) ((xt ^^ j) 1) = (xt ^^ (i + j)) 1"
  by (simp add: mul_power iter_in one_in funpow_add)

lemma mul_commute: "a \<in> carrier \<Longrightarrow> b \<in> carrier \<Longrightarrow> mul a b = mul b a"
  by (cases rule: element_cases [of a]; cases rule: element_cases [of b])
    (auto simp: power_mul add.commute)

lemma mul_1_right [simp]: "b \<in> carrier \<Longrightarrow> mul b 1 = b"
  using mul_commute one_in by simp

lemma mul_xor_left:
  "a \<in> carrier \<Longrightarrow> b \<in> carrier \<Longrightarrow> c \<in> carrier \<Longrightarrow> mul (a XOR b) c = mul a c XOR mul b c"
  using mul_xor_right [of c a b] mul_commute xor_in by metis

lemma mul_assoc:
  "a \<in> carrier \<Longrightarrow> b \<in> carrier \<Longrightarrow> c \<in> carrier \<Longrightarrow> mul (mul a b) c = mul a (mul b c)"
proof -
  assume F: "a \<in> carrier" "b \<in> carrier" "c \<in> carrier"
  have "mul (mul a b) c = mul a (mul b c)" if "a = (xt ^^ k) 1" for k
    by (cases rule: element_cases [OF F(2)]; cases rule: element_cases [OF F(3)])
      (auto simp: that power_mul add.assoc iter_in one_in)
  with F show ?thesis using power_of [of a] by fastforce
qed

lemma mul_left_commute:
  "a \<in> carrier \<Longrightarrow> b \<in> carrier \<Longrightarrow> c \<in> carrier \<Longrightarrow> mul a (mul b c) = mul b (mul a c)"
  by (metis mul_assoc mul_commute)

lemma mul_eq_0: "a \<in> carrier \<Longrightarrow> b \<in> carrier \<Longrightarrow> mul a b = 0 \<longleftrightarrow> a = 0 \<or> b = 0"
  by (cases rule: element_cases [of a]) (auto simp: mul_power dest: iter_eq_0 iter_eq_0 [OF one_in])

lemma xsum_in: "(\<And>i. i \<in> set is \<Longrightarrow> f i \<in> carrier) \<Longrightarrow> xsum (map f is) \<in> carrier"
  by (induction "is") (auto simp: zero_in xor_in)

lemma mul_xsum:
  "a \<in> carrier \<Longrightarrow> (\<And>i. i \<in> set is \<Longrightarrow> f i \<in> carrier) \<Longrightarrow>
    mul a (xsum (map f is)) = xsum (map (\<lambda>i. mul a (f i)) is)"
  by (induction "is") (auto simp: mul_xor_right xsum_in)

text \<open>Powers of an element.\<close>

definition gpow :: "u8 \<Rightarrow> nat \<Rightarrow> u8" where
  "gpow x n = ((\<lambda>y. mul y x) ^^ n) 1"

lemma gpow_0 [simp]: "gpow x 0 = 1"
  by (simp add: gpow_def)

lemma gpow_Suc [simp]: "gpow x (Suc n) = mul (gpow x n) x"
  by (simp add: gpow_def)

lemma gpow_in: "x \<in> carrier \<Longrightarrow> gpow x n \<in> carrier"
  by (induction n) (simp_all add: one_in mul_in)

lemma gpow_power: "gpow ((xt ^^ i) 1) n = (xt ^^ (i * n)) 1"
  by (induction n) (simp_all add: power_mul add.commute)

lemma gpow_swap: "gpow ((xt ^^ i) 1) j = gpow ((xt ^^ j) 1) i"
  by (simp add: gpow_power mult.commute)

subsection \<open>The Vandermonde argument\<close>

text \<open>
  If the sums of \<open>e * x ^ j\<close> over \<open>n\<close> pairs with distinct \<open>x\<close> are zero for \<open>n\<close> exponents from
  0 on, every \<open>e\<close> is zero: eliminate the first pair and use the statement for the others.
\<close>

lemma vandermonde:
  assumes "\<And>e x. (e, x) \<in> set ps \<Longrightarrow> e \<in> carrier \<and> x \<in> carrier" "distinct (map snd ps)"
    and "\<And>j. j < length ps \<Longrightarrow> xsum (map (\<lambda>(e, x). mul e (gpow x j)) ps) = 0"
    and "(e, x) \<in> set ps"
  shows "e = 0"
  using assms
proof (induction "length ps" arbitrary: ps e x)
  case (Suc n pps)
  then obtain p ps where pps: "pps = p # ps" "length ps = n" by (cases pps) auto
  note Cons = Suc [unfolded pps(1)]
  obtain e0 x0 where p: "p = (e0, x0)" by (cases p)
  have F: "e0 \<in> carrier" "x0 \<in> carrier" "\<And>e x. (e, x) \<in> set ps \<Longrightarrow> e \<in> carrier \<and> x \<in> carrier"
    using Cons(3) p by auto
  let ?ps = "map (\<lambda>(e, x). (mul e (x XOR x0), x)) ps"
  have zero: "xsum (map (\<lambda>(e, x). mul e (gpow x j)) ?ps) = 0" if j: "j < length ?ps" for j
  proof -
    let ?S = "\<lambda>j. xsum (map (\<lambda>(e, x). mul e (gpow x j)) ps)"
    have eq: "?S j = mul e0 (gpow x0 j)" "?S (Suc j) = mul e0 (gpow x0 (Suc j))"
      using Cons(5) [of j] Cons(5) [of "Suc j"] j p by simp_all
    have "mul e0 (gpow x0 (Suc j)) = mul x0 (mul e0 (gpow x0 j))"
      using F mul_commute [of "gpow x0 j" x0] mul_left_commute [of e0 x0 "gpow x0 j"] by (simp add: gpow_in)
    then have "?S (Suc j) = mul x0 (?S j)" by (simp only: eq)
    also have "\<dots> = xsum (map (\<lambda>(e, x). mul x0 (mul e (gpow x j))) ps)"
      using F by (subst mul_xsum) (auto simp: mul_in gpow_in case_prod_unfold intro!: arg_cong [of _ _ xsum])
    finally have "?S (Suc j) XOR xsum (map (\<lambda>(e, x). mul x0 (mul e (gpow x j))) ps) = 0" by simp
    then have "xsum (map (\<lambda>p. (\<lambda>(e, x). mul e (gpow x (Suc j))) p XOR (\<lambda>(e, x). mul x0 (mul e (gpow x j))) p) ps) = 0"
      by (simp only: xsum_xor)
    moreover have "mul e (gpow x (Suc j)) XOR mul x0 (mul e (gpow x j)) = mul (mul e (x XOR x0)) (gpow x j)"
      if "(e, x) \<in> set ps" for e x
    proof -
      have m: "e \<in> carrier" "x \<in> carrier" "gpow x j \<in> carrier" "x0 \<in> carrier"
        using F that by (auto simp: gpow_in)
      then have "mul (mul e (x XOR x0)) (gpow x j) = mul e (mul x (gpow x j)) XOR mul e (mul x0 (gpow x j))"
        by (simp add: mul_assoc xor_in mul_in mul_xor_left mul_xor_right)
      with m show ?thesis by (simp add: mul_commute [of "gpow x j" x] mul_left_commute [of x0])
    qed
    ultimately show ?thesis
      by (simp add: case_prod_unfold o_def cong: map_cong)
  qed
  have ms: "map snd ?ps = map snd ps" by (simp add: case_prod_unfold o_def)
  have dist: "distinct (map snd ?ps)" unfolding ms using Cons(4) by simp
  have in_F: "\<And>e x. (e, x) \<in> set ?ps \<Longrightarrow> e \<in> carrier \<and> x \<in> carrier"
    using F by (auto simp: mul_in xor_in)
  have rest: "e = 0" if ex: "(e, x) \<in> set ps" for e x
  proof -
    have "(mul e (x XOR x0), x) \<in> set ?ps" using ex by (auto intro!: image_eqI [where x = "(e, x)"])
    have n: "n = length ?ps" using pps by simp
    from Suc.hyps(1) [OF n in_F dist zero \<open>(mul e (x XOR x0), x) \<in> set ?ps\<close>]
    have "mul e (x XOR x0) = 0" .
    moreover have "x \<noteq> x0" using Cons(4) ex p by force
    ultimately show "e = 0" using F ex by (auto simp: mul_eq_0 xor_in)
  qed
  then have "xsum (map (\<lambda>(e, x). mul e (gpow x 0)) ps) = 0"
    using F by (intro xsum_zero) auto
  then have "e0 = 0" using Cons(5) [of 0] p F by simp
  with rest Cons(6) p show ?case by auto
qed simp

subsection \<open>Evaluating words\<close>

lemma horner_in: "x \<in> carrier \<Longrightarrow> set cw \<subseteq> carrier \<Longrightarrow> horner mul x cw \<in> carrier"
  by (induction cw rule: rev_induct) (simp_all add: zero_in mul_in xor_in)

lemma horner_Cons_0: "x \<in> carrier \<Longrightarrow> horner mul x (0 # cw) = horner mul x cw"
  by (simp add: horner_def)

lemma horner_xor:
  "length cw = length dw \<Longrightarrow> x \<in> carrier \<Longrightarrow> set cw \<subseteq> carrier \<Longrightarrow> set dw \<subseteq> carrier \<Longrightarrow>
    horner mul x (map2 (XOR) cw dw) = horner mul x cw XOR horner mul x dw"
proof (induction cw arbitrary: dw rule: rev_induct)
  case (snoc c cw)
  then obtain d ds where "dw = ds @ [d]" "length ds = length cw"
    by (metis length_append_singleton length_Suc_conv_rev)
  with snoc show ?case by (simp add: mul_xor_left horner_in ac_simps)
qed simp

lemma horner_scale:
  "a \<in> carrier \<Longrightarrow> x \<in> carrier \<Longrightarrow> set cw \<subseteq> carrier \<Longrightarrow>
    horner mul x (map (mul a) cw) = mul a (horner mul x cw)"
  by (induction cw rule: rev_induct) (simp_all add: mul_xor_right horner_in mul_in mul_assoc)

text \<open>The value at \<open>x\<close> is the sum of the symbols times the powers of \<open>x\<close>.\<close>

lemma horner_sum:
  "x \<in> carrier \<Longrightarrow> set cw \<subseteq> carrier \<Longrightarrow>
    horner mul x cw = xsum (map (\<lambda>i. mul (cw ! i) (gpow x (length cw - 1 - i))) [0..<length cw])"
proof (induction cw rule: rev_induct)
  case (snoc c cw)
  let ?f = "\<lambda>i. mul (cw ! i) (gpow x (length cw - 1 - i))"
  have F: "\<And>i. i < length cw \<Longrightarrow> cw ! i \<in> carrier" using snoc.prems by auto
  have "mul (xsum (map ?f [0..<length cw])) x = mul x (xsum (map ?f [0..<length cw]))"
    using snoc.prems F by (intro mul_commute xsum_in) (auto simp: mul_in gpow_in)
  also have "\<dots> = xsum (map (\<lambda>i. mul x (?f i)) [0..<length cw])"
    using snoc.prems F by (intro mul_xsum) (auto simp: mul_in gpow_in)
  also have "map (\<lambda>i. mul x (?f i)) [0..<length cw] =
      map (\<lambda>i. mul ((cw @ [c]) ! i) (gpow x (length cw - i))) [0..<length cw]"
  proof (rule map_cong [OF refl])
    fix i assume "i \<in> set [0..<length cw]"
    then have i: "i < length cw" by simp
    then have "length cw - i = Suc (length cw - 1 - i)" by simp
    then show "mul x (?f i) = mul ((cw @ [c]) ! i) (gpow x (length cw - i))"
      using snoc.prems F [OF i] i mul_left_commute [of x "cw ! i" "gpow x (length cw - 1 - i)"]
        mul_commute [of x "gpow x (length cw - 1 - i)"]
      by (simp add: nth_append gpow_in del: One_nat_def)
  qed
  finally show ?case using snoc by (simp add: nth_append)
qed simp

text \<open>
  The minimum distance: two words of length at most the order of the primitive element that
  both vanish at its powers 1 to \<open>par\<close> and differ in at most \<open>par\<close> places are equal.
\<close>

lemma rs_distance:
  assumes len: "length cw = n" "length dw = n" and F: "set cw \<subseteq> carrier" "set dw \<subseteq> carrier"
    and dist: "inj_on (\<lambda>k. (xt ^^ k) 1) {..<n}"
    and syn: "\<And>j. 1 \<le> j \<Longrightarrow> j \<le> par \<Longrightarrow> horner mul ((xt ^^ j) 1) cw = horner mul ((xt ^^ j) 1) dw"
    and near: "length (filter (\<lambda>i. cw ! i \<noteq> dw ! i) [0..<n]) \<le> par"
  shows "cw = dw"
proof (rule nth_equalityI)
  let ?D = "filter (\<lambda>i. cw ! i \<noteq> dw ! i) [0..<n]"
  let ?X = "\<lambda>i. (xt ^^ (n - 1 - i)) 1"
  let ?e = "\<lambda>i. mul (cw ! i XOR dw ! i) (?X i)"
  have inF: "i < n \<Longrightarrow> cw ! i \<in> carrier" "i < n \<Longrightarrow> dw ! i \<in> carrier" for i using F len by auto
  let ?ps = "map (\<lambda>i. (?e i, ?X i)) ?D"
  have "xsum (map (\<lambda>(e, x). mul e (gpow x j)) ?ps) = 0" if "j < length ?ps" for j
  proof -
    let ?x = "(xt ^^ (Suc j)) 1"
    have x: "?x \<in> carrier" by (rule iter_in [OF one_in])
    have w: "set (map2 (XOR) cw dw) \<subseteq> carrier"
      using len inF by (auto simp: set_zip xor_in)
    have t: "mul (mul (cw ! i XOR dw ! i) (?X i)) (gpow (?X i) j) =
        mul (map2 (XOR) cw dw ! i) (gpow ?x (n - 1 - i))" if "i < n" for i
    proof -
      have "gpow (?X i) (Suc j) = gpow ?x (n - 1 - i)" by (rule gpow_swap)
      moreover have "mul (mul (cw ! i XOR dw ! i) (?X i)) (gpow (?X i) j) =
          mul (cw ! i XOR dw ! i) (gpow (?X i) (Suc j))"
        using that inF mul_commute [of "?X i" "gpow (?X i) j"]
        by (simp add: mul_assoc xor_in iter_in one_in gpow_in)
      ultimately show ?thesis using that len by simp
    qed
    have "xsum (map (\<lambda>(e, x). mul e (gpow x j)) ?ps) =
        xsum (map (\<lambda>i. mul (mul (cw ! i XOR dw ! i) (?X i)) (gpow (?X i) j)) ?D)"
      by (simp add: o_def)
    also have "\<dots> = xsum (map (\<lambda>i. mul (mul (cw ! i XOR dw ! i) (?X i)) (gpow (?X i) j)) [0..<n])"
      by (rule xsum_filter) simp
    also have "\<dots> = xsum (map (\<lambda>i. mul (map2 (XOR) cw dw ! i) (gpow ?x (n - 1 - i))) [0..<n])"
      by (intro arg_cong [of _ _ xsum] map_cong refl t) simp
    also have "\<dots> = horner mul ?x (map2 (XOR) cw dw)"
      using horner_sum [OF x w] len by simp
    also have "\<dots> = 0"
      using horner_xor [OF _ x F] syn [of "Suc j"] len near that by simp
    finally show ?thesis .
  qed
  moreover have "distinct (map snd ?ps)"
  proof -
    have "inj_on ?X {0..<n}"
    proof (rule inj_onI)
      fix i i' assume "i \<in> {0..<n}" "i' \<in> {0..<n}" "?X i = ?X i'"
      then show "i = i'" using inj_onD [OF dist, of "n - 1 - i" "n - 1 - i'"] by auto
    qed
    then show ?thesis by (auto simp: o_def distinct_map intro: inj_on_subset)
  qed
  moreover have "\<And>e x. (e, x) \<in> set ?ps \<Longrightarrow> e \<in> carrier \<and> x \<in> carrier"
    using inF by (auto simp: mul_in xor_in iter_in one_in)
  ultimately have zero: "\<And>e x. (e, x) \<in> set ?ps \<Longrightarrow> e = 0" using vandermonde by blast
  fix i assume i: "i < length cw"
  show "cw ! i = dw ! i"
  proof (rule ccontr)
    assume ne: "cw ! i \<noteq> dw ! i"
    then have "(?e i, ?X i) \<in> set ?ps" using i len by auto
    from zero [OF this] have "cw ! i XOR dw ! i = 0 \<or> ?X i = 0"
      using i len inF by (simp add: mul_eq_0 xor_in iter_in one_in)
    moreover have "?X i \<noteq> 0" using iter_eq_0 [OF one_in] by fastforce
    ultimately show False using ne by simp
  qed
qed (simp add: len)

end

end
