(* ===== verification/Gf256.thy ===== *)
theory Gf256
  imports Gf
begin

section \<open>The field of 256 elements (tools/fec_tools.c)\<close>

text \<open>
  The multiplication \<open>gmult\<close> and its tables.  The tables are proved to be the powers and the
  logarithms of the primitive element 2, and \<open>gmult\<close> to be the multiplication of the field
  (an interpretation of \<open>gf_mult\<close>).
\<close>

definition EXP_TABLE :: bytes where
  "EXP_TABLE = concat
    [[0x01, 0x02, 0x04, 0x08, 0x10, 0x20, 0x40, 0x80, 0x1D, 0x3A, 0x74, 0xE8, 0xCD, 0x87, 0x13, 0x26],
     [0x4C, 0x98, 0x2D, 0x5A, 0xB4, 0x75, 0xEA, 0xC9, 0x8F, 0x03, 0x06, 0x0C, 0x18, 0x30, 0x60, 0xC0],
     [0x9D, 0x27, 0x4E, 0x9C, 0x25, 0x4A, 0x94, 0x35, 0x6A, 0xD4, 0xB5, 0x77, 0xEE, 0xC1, 0x9F, 0x23],
     [0x46, 0x8C, 0x05, 0x0A, 0x14, 0x28, 0x50, 0xA0, 0x5D, 0xBA, 0x69, 0xD2, 0xB9, 0x6F, 0xDE, 0xA1],
     [0x5F, 0xBE, 0x61, 0xC2, 0x99, 0x2F, 0x5E, 0xBC, 0x65, 0xCA, 0x89, 0x0F, 0x1E, 0x3C, 0x78, 0xF0],
     [0xFD, 0xE7, 0xD3, 0xBB, 0x6B, 0xD6, 0xB1, 0x7F, 0xFE, 0xE1, 0xDF, 0xA3, 0x5B, 0xB6, 0x71, 0xE2],
     [0xD9, 0xAF, 0x43, 0x86, 0x11, 0x22, 0x44, 0x88, 0x0D, 0x1A, 0x34, 0x68, 0xD0, 0xBD, 0x67, 0xCE],
     [0x81, 0x1F, 0x3E, 0x7C, 0xF8, 0xED, 0xC7, 0x93, 0x3B, 0x76, 0xEC, 0xC5, 0x97, 0x33, 0x66, 0xCC],
     [0x85, 0x17, 0x2E, 0x5C, 0xB8, 0x6D, 0xDA, 0xA9, 0x4F, 0x9E, 0x21, 0x42, 0x84, 0x15, 0x2A, 0x54],
     [0xA8, 0x4D, 0x9A, 0x29, 0x52, 0xA4, 0x55, 0xAA, 0x49, 0x92, 0x39, 0x72, 0xE4, 0xD5, 0xB7, 0x73],
     [0xE6, 0xD1, 0xBF, 0x63, 0xC6, 0x91, 0x3F, 0x7E, 0xFC, 0xE5, 0xD7, 0xB3, 0x7B, 0xF6, 0xF1, 0xFF],
     [0xE3, 0xDB, 0xAB, 0x4B, 0x96, 0x31, 0x62, 0xC4, 0x95, 0x37, 0x6E, 0xDC, 0xA5, 0x57, 0xAE, 0x41],
     [0x82, 0x19, 0x32, 0x64, 0xC8, 0x8D, 0x07, 0x0E, 0x1C, 0x38, 0x70, 0xE0, 0xDD, 0xA7, 0x53, 0xA6],
     [0x51, 0xA2, 0x59, 0xB2, 0x79, 0xF2, 0xF9, 0xEF, 0xC3, 0x9B, 0x2B, 0x56, 0xAC, 0x45, 0x8A, 0x09],
     [0x12, 0x24, 0x48, 0x90, 0x3D, 0x7A, 0xF4, 0xF5, 0xF7, 0xF3, 0xFB, 0xEB, 0xCB, 0x8B, 0x0B, 0x16],
     [0x2C, 0x58, 0xB0, 0x7D, 0xFA, 0xE9, 0xCF, 0x83, 0x1B, 0x36, 0x6C, 0xD8, 0xAD, 0x47, 0x8E, 0x01],
     [0x02, 0x04, 0x08, 0x10, 0x20, 0x40, 0x80, 0x1D, 0x3A, 0x74, 0xE8, 0xCD, 0x87, 0x13, 0x26, 0x4C],
     [0x98, 0x2D, 0x5A, 0xB4, 0x75, 0xEA, 0xC9, 0x8F, 0x03, 0x06, 0x0C, 0x18, 0x30, 0x60, 0xC0, 0x9D],
     [0x27, 0x4E, 0x9C, 0x25, 0x4A, 0x94, 0x35, 0x6A, 0xD4, 0xB5, 0x77, 0xEE, 0xC1, 0x9F, 0x23, 0x46],
     [0x8C, 0x05, 0x0A, 0x14, 0x28, 0x50, 0xA0, 0x5D, 0xBA, 0x69, 0xD2, 0xB9, 0x6F, 0xDE, 0xA1, 0x5F],
     [0xBE, 0x61, 0xC2, 0x99, 0x2F, 0x5E, 0xBC, 0x65, 0xCA, 0x89, 0x0F, 0x1E, 0x3C, 0x78, 0xF0, 0xFD],
     [0xE7, 0xD3, 0xBB, 0x6B, 0xD6, 0xB1, 0x7F, 0xFE, 0xE1, 0xDF, 0xA3, 0x5B, 0xB6, 0x71, 0xE2, 0xD9],
     [0xAF, 0x43, 0x86, 0x11, 0x22, 0x44, 0x88, 0x0D, 0x1A, 0x34, 0x68, 0xD0, 0xBD, 0x67, 0xCE, 0x81],
     [0x1F, 0x3E, 0x7C, 0xF8, 0xED, 0xC7, 0x93, 0x3B, 0x76, 0xEC, 0xC5, 0x97, 0x33, 0x66, 0xCC, 0x85],
     [0x17, 0x2E, 0x5C, 0xB8, 0x6D, 0xDA, 0xA9, 0x4F, 0x9E, 0x21, 0x42, 0x84, 0x15, 0x2A, 0x54, 0xA8],
     [0x4D, 0x9A, 0x29, 0x52, 0xA4, 0x55, 0xAA, 0x49, 0x92, 0x39, 0x72, 0xE4, 0xD5, 0xB7, 0x73, 0xE6],
     [0xD1, 0xBF, 0x63, 0xC6, 0x91, 0x3F, 0x7E, 0xFC, 0xE5, 0xD7, 0xB3, 0x7B, 0xF6, 0xF1, 0xFF, 0xE3],
     [0xDB, 0xAB, 0x4B, 0x96, 0x31, 0x62, 0xC4, 0x95, 0x37, 0x6E, 0xDC, 0xA5, 0x57, 0xAE, 0x41, 0x82],
     [0x19, 0x32, 0x64, 0xC8, 0x8D, 0x07, 0x0E, 0x1C, 0x38, 0x70, 0xE0, 0xDD, 0xA7, 0x53, 0xA6, 0x51],
     [0xA2, 0x59, 0xB2, 0x79, 0xF2, 0xF9, 0xEF, 0xC3, 0x9B, 0x2B, 0x56, 0xAC, 0x45, 0x8A, 0x09, 0x12],
     [0x24, 0x48, 0x90, 0x3D, 0x7A, 0xF4, 0xF5, 0xF7, 0xF3, 0xFB, 0xEB, 0xCB, 0x8B, 0x0B, 0x16, 0x2C],
     [0x58, 0xB0, 0x7D, 0xFA, 0xE9, 0xCF, 0x83, 0x1B, 0x36, 0x6C, 0xD8, 0xAD, 0x47, 0x8E, 0x01, 0x00]]"

definition LOG_TABLE :: bytes where
  "LOG_TABLE = concat
    [[0x00, 0x00, 0x01, 0x19, 0x02, 0x32, 0x1A, 0xC6, 0x03, 0xDF, 0x33, 0xEE, 0x1B, 0x68, 0xC7, 0x4B],
     [0x04, 0x64, 0xE0, 0x0E, 0x34, 0x8D, 0xEF, 0x81, 0x1C, 0xC1, 0x69, 0xF8, 0xC8, 0x08, 0x4C, 0x71],
     [0x05, 0x8A, 0x65, 0x2F, 0xE1, 0x24, 0x0F, 0x21, 0x35, 0x93, 0x8E, 0xDA, 0xF0, 0x12, 0x82, 0x45],
     [0x1D, 0xB5, 0xC2, 0x7D, 0x6A, 0x27, 0xF9, 0xB9, 0xC9, 0x9A, 0x09, 0x78, 0x4D, 0xE4, 0x72, 0xA6],
     [0x06, 0xBF, 0x8B, 0x62, 0x66, 0xDD, 0x30, 0xFD, 0xE2, 0x98, 0x25, 0xB3, 0x10, 0x91, 0x22, 0x88],
     [0x36, 0xD0, 0x94, 0xCE, 0x8F, 0x96, 0xDB, 0xBD, 0xF1, 0xD2, 0x13, 0x5C, 0x83, 0x38, 0x46, 0x40],
     [0x1E, 0x42, 0xB6, 0xA3, 0xC3, 0x48, 0x7E, 0x6E, 0x6B, 0x3A, 0x28, 0x54, 0xFA, 0x85, 0xBA, 0x3D],
     [0xCA, 0x5E, 0x9B, 0x9F, 0x0A, 0x15, 0x79, 0x2B, 0x4E, 0xD4, 0xE5, 0xAC, 0x73, 0xF3, 0xA7, 0x57],
     [0x07, 0x70, 0xC0, 0xF7, 0x8C, 0x80, 0x63, 0x0D, 0x67, 0x4A, 0xDE, 0xED, 0x31, 0xC5, 0xFE, 0x18],
     [0xE3, 0xA5, 0x99, 0x77, 0x26, 0xB8, 0xB4, 0x7C, 0x11, 0x44, 0x92, 0xD9, 0x23, 0x20, 0x89, 0x2E],
     [0x37, 0x3F, 0xD1, 0x5B, 0x95, 0xBC, 0xCF, 0xCD, 0x90, 0x87, 0x97, 0xB2, 0xDC, 0xFC, 0xBE, 0x61],
     [0xF2, 0x56, 0xD3, 0xAB, 0x14, 0x2A, 0x5D, 0x9E, 0x84, 0x3C, 0x39, 0x53, 0x47, 0x6D, 0x41, 0xA2],
     [0x1F, 0x2D, 0x43, 0xD8, 0xB7, 0x7B, 0xA4, 0x76, 0xC4, 0x17, 0x49, 0xEC, 0x7F, 0x0C, 0x6F, 0xF6],
     [0x6C, 0xA1, 0x3B, 0x52, 0x29, 0x9D, 0x55, 0xAA, 0xFB, 0x60, 0x86, 0xB1, 0xBB, 0xCC, 0x3E, 0x5A],
     [0xCB, 0x59, 0x5F, 0xB0, 0x9C, 0xA9, 0xA0, 0x51, 0x0B, 0xF5, 0x16, 0xEB, 0x7A, 0x75, 0x2C, 0xD7],
     [0x4F, 0xAE, 0xD5, 0xE9, 0xE6, 0xE7, 0xAD, 0xE8, 0x74, 0xD6, 0xF4, 0xEA, 0xA8, 0x50, 0x58, 0xAF]]"

definition gmult :: "u8 \<Rightarrow> u8 \<Rightarrow> u8" where
  "gmult a b =
     (if a = 0 \<or> b = 0 then 0
      else let i = unat (LOG_TABLE ! unat a);
               j = unat (LOG_TABLE ! unat b)
           in EXP_TABLE ! (i + j))"

subsection \<open>The tables are exponential and logarithm\<close>

text \<open>Multiplication by the primitive element: a shift, reduced by the field polynomial 0x11D.\<close>

definition xtime8 :: "u8 \<Rightarrow> u8" where
  "xtime8 a = push_bit 1 a XOR (if bit a 7 then 0x1D else 0)"

lemma xtime8_xor: "xtime8 (a XOR b) = xtime8 a XOR xtime8 b"
  by (auto simp: xtime8_def push_bit_xor bit_xor_iff ac_simps)

lemma xtime8_eq_0: "xtime8 a = 0 \<Longrightarrow> a = 0"
proof -
  assume z: "xtime8 a = 0"
  have "\<not> bit (xtime8 a) 0" "\<And>n. \<not> bit (xtime8 a) (Suc n)" using z by simp_all
  then have "\<not> bit a 7" "\<And>n. n < 7 \<Longrightarrow> \<not> bit a n"
    unfolding xtime8_def bit_xor_iff bit_push_bit_iff by (auto simp: possible_bit_word split: if_splits)
  then show "a = 0" by (auto simp: word_eq_bits less_Suc_eq numeral_eq_Suc)
qed

fun powers_ok :: "u8 \<Rightarrow> u8 list \<Rightarrow> bool" where
  "powers_ok x [] = True"
| "powers_ok x (e # es) = (e = x \<and> powers_ok (xtime8 x) es)"

lemma powers_ok_nth: "powers_ok x es \<Longrightarrow> k < length es \<Longrightarrow> es ! k = (xtime8 ^^ k) x"
proof (induction es arbitrary: x k)
  case (Cons e es)
  then show ?case by (cases k) (auto simp: funpow_swap1)
qed simp

lemma EXP_TABLE_powers: "powers_ok 1 (take 511 EXP_TABLE)"
  by (simp add: EXP_TABLE_def xtime8_def)

fun logs_ok :: "u8 \<Rightarrow> u8 list \<Rightarrow> bool" where
  "logs_ok a [] = True"
| "logs_ok a (l # ls) = (EXP_TABLE ! unat l = a \<and> logs_ok (a + 1) ls)"

lemma logs_ok_nth: "logs_ok a ls \<Longrightarrow> k < length ls \<Longrightarrow> EXP_TABLE ! unat (ls ! k) = a + of_nat k"
proof (induction ls arbitrary: a k)
  case (Cons l ls)
  then show ?case by (cases k) (auto simp: algebra_simps)
qed simp

lemma LOG_TABLE_logs: "logs_ok 1 (tl LOG_TABLE)"
  by (simp add: LOG_TABLE_def EXP_TABLE_def)


lemma LOG_TABLE_less: "list_all (\<lambda>l. l < 255) LOG_TABLE"
  by (simp add: LOG_TABLE_def)

lemma length_tables: "length EXP_TABLE = 512" "length LOG_TABLE = 256"
  by (simp_all add: EXP_TABLE_def LOG_TABLE_def)

lemma EXP_entry: "k < 511 \<Longrightarrow> EXP_TABLE ! k = (xtime8 ^^ k) 1"
  using powers_ok_nth [OF EXP_TABLE_powers, of k] by (simp add: length_tables)

lemma LOG_less: "unat (LOG_TABLE ! unat a) < 255"
  for a :: u8
proof -
  have "LOG_TABLE ! unat a < 255"
    using LOG_TABLE_less unat_byte_less [of a] by (simp add: list_all_length length_tables)
  then show ?thesis by (simp add: word_less_nat_alt)
qed

lemma LOG_entry:
  fixes a :: u8
  assumes "a \<noteq> 0"
  shows "a = (xtime8 ^^ unat (LOG_TABLE ! unat a)) 1"
proof -
  obtain k where k: "unat a = Suc k" using assms by (metis not0_implies_Suc unat_eq_zero)
  have "EXP_TABLE ! unat (tl LOG_TABLE ! k) = 1 + of_nat k"
    using k unat_byte_less [of a] by (intro logs_ok_nth LOG_TABLE_logs) (simp add: length_tables)
  moreover have "tl LOG_TABLE ! k = LOG_TABLE ! unat a"
    using k unat_byte_less [of a] by (simp add: nth_tl length_tables)
  moreover have "1 + of_nat k = a" using arg_cong [OF k, of "of_nat :: nat \<Rightarrow> u8"] by simp
  ultimately show ?thesis using EXP_entry [of "unat (LOG_TABLE ! unat a)"] LOG_less [of a] by simp
qed

interpretation gf8: gf_mult gmult xtime8 UNIV
proof
  fix a b :: u8 and k :: nat
  show "xtime8 (a XOR b) = xtime8 a XOR xtime8 b" by (rule xtime8_xor)
  show "xtime8 a = 0 \<Longrightarrow> a = 0" by (rule xtime8_eq_0)
  show "a \<noteq> 0 \<Longrightarrow> \<exists>k. a = (xtime8 ^^ k) 1" using LOG_entry by blast
  show "gmult 0 b = 0" by (simp add: gmult_def)
  show "gmult ((xtime8 ^^ k) 1) b = (xtime8 ^^ k) b"
  proof (cases "b = 0")
    case True
    have "(xtime8 ^^ k) 0 = 0" by (induction k) (simp_all add: xtime8_def)
    with True show ?thesis by (simp add: gmult_def)
  next
    case False
    let ?a = "(xtime8 ^^ k) 1"
    let ?i = "unat (LOG_TABLE ! unat ?a)" and ?j = "unat (LOG_TABLE ! unat b)"
    have b: "b = (xtime8 ^^ ?j) 1" using LOG_entry [OF False] .
    have "(xtime8 ^^ k) 1 \<noteq> 0" by (induction k) (auto dest: xtime8_eq_0)
    then have a: "?a = (xtime8 ^^ ?i) 1" and nz: "?a \<noteq> 0" using LOG_entry by blast+
    then have "gmult ?a b = (xtime8 ^^ (?i + ?j)) 1"
      using False EXP_entry [of "?i + ?j"] LOG_less [of ?a] LOG_less [of b] by (simp add: gmult_def Let_def)
    also have "\<dots> = (xtime8 ^^ ?j) ((xtime8 ^^ ?i) 1)" by (simp only: add.commute [of ?i] funpow_add o_def)
    also have "\<dots> = (xtime8 ^^ ?j) ?a" using a by simp
    also have "\<dots> = (xtime8 ^^ k) ((xtime8 ^^ ?j) 1)" by (metis add.commute funpow_add comp_apply)
    finally show ?thesis using b by simp
  qed
qed simp_all

text \<open>The first 255 powers are distinct: their logarithms are.\<close>

lemma gf8_order: "inj_on (\<lambda>k. (xtime8 ^^ k) (1 :: u8)) {..<255}"
proof -
  have "(\<lambda>k. (xtime8 ^^ k) (1 :: u8)) ` {..<255} = UNIV - {0}"
  proof (intro equalityI subsetI)
    fix a :: u8 assume "a \<in> UNIV - {0}"
    then show "a \<in> (\<lambda>k. (xtime8 ^^ k) 1) ` {..<255}" using LOG_entry [of a] LOG_less [of a] by blast
  qed (auto dest: gf8.iter_eq_0 [rotated])
  moreover have "card (UNIV - {0 :: u8}) = 255" by (simp add: card_word)
  ultimately show ?thesis by (intro eq_card_imp_inj_on) simp_all
qed


end
