(* ===== verification/Rs129.thy ===== *)
theory Rs129
  imports Gf256
begin

section \<open>The Reed-Solomon (12,9) code (tools/fec_tools.c)\<close>

text \<open>
  The code of the DMR full link control.  The encoder is proved to divide by the generator
  polynomial with roots 2, 4 and 8, \<open>RS129_check\<close> to be the test that the word vanishes at
  these roots, and the minimum distance 4 follows.
\<close>

definition NPAR :: nat where "NPAR = 3"

definition POLY :: bytes where
  "POLY = [64, 56, 14, 1, 0, 0, 0, 0, 0, 0, 0, 0]"

text \<open>The shift register step for one message byte, with the inner loop from \<open>NPAR - 1\<close> down to 1.\<close>

definition rs129_step :: "u8 \<Rightarrow> bytes \<Rightarrow> bytes" where
  "rs129_step m parity =
     (let dbyte = m XOR parity ! (NPAR - 1);
          parity' = fold (\<lambda>j p. p[j := p ! (j - 1) XOR gmult (POLY ! j) dbyte]) (rev [1..<NPAR]) parity
      in parity'[0 := gmult (POLY ! 0) dbyte])"

definition RS129_encode :: "bytes \<Rightarrow> nat \<Rightarrow> bytes" where
  "RS129_encode msg nbytes =
     (let parity = replicate (NPAR + 1) 0x00
      in fold (\<lambda>i. rs129_step (msg ! i)) [0..<nbytes] parity)"

definition RS129_check :: "bytes \<Rightarrow> bool" where
  "RS129_check inp =
     (let parity = RS129_encode inp 9
      in inp ! 9 = parity ! 2 \<and> inp ! 10 = parity ! 1 \<and> inp ! 11 = parity ! 0)"

subsection \<open>The shift register divides by the generator polynomial\<close>

lemmas field8 = gf8.mul_assoc [OF UNIV_I UNIV_I UNIV_I] gf8.mul_commute [OF UNIV_I UNIV_I]
  gf8.mul_left_commute [OF UNIV_I UNIV_I UNIV_I] gf8.mul_xor_left [OF UNIV_I UNIV_I UNIV_I]
  gf8.mul_xor_right [OF UNIV_I UNIV_I UNIV_I]

lemma rs129_step_list:
  "rs129_step m [p0, p1, p2, p3] =
    (let d = m XOR p2 in [gmult 64 d, p0 XOR gmult 56 d, p1 XOR gmult 14 d, p3])"
  by (simp add: rs129_step_def NPAR_def POLY_def Let_def upt_rec numeral_2_eq_2 numeral_3_eq_3)

definition is_root :: "u8 \<Rightarrow> bool" where
  "is_root r \<longleftrightarrow> gmult r (gmult r r) = gmult 14 (gmult r r) XOR gmult 56 r XOR 64"

lemma roots: "is_root 2" "is_root 4" "is_root 8"
  by (simp_all add: is_root_def gmult_def LOG_TABLE_def EXP_TABLE_def)

definition parity_value :: "u8 \<Rightarrow> bytes \<Rightarrow> u8" where
  "parity_value r p = gmult (p ! 2) (gmult r r) XOR gmult (p ! 1) r XOR p ! 0"

lemma parity_value_step:
  assumes r: "is_root r" and p: "p = [p0, p1, p2, p3]"
  shows "parity_value r (rs129_step m p) = gmult (parity_value r p) r XOR gmult m (gmult r (gmult r r))"
proof -
  let ?d = "m XOR p2" and ?R2 = "gmult r r" and ?R3 = "gmult r (gmult r r)"
  have "gmult (parity_value r p) r XOR gmult m ?R3 = gmult ?d ?R3 XOR gmult p1 ?R2 XOR gmult p0 r"
    by (simp add: p parity_value_def field8 numeral_2_eq_2 ac_simps)
  also have "gmult ?d ?R3 = gmult ?d (gmult 14 ?R2) XOR gmult ?d (gmult 56 r) XOR gmult ?d 64"
    using r by (simp only: is_root_def field8)
  finally show ?thesis
    by (simp add: p rs129_step_list parity_value_def Let_def field8 numeral_2_eq_2 ac_simps)
qed

lemma RS129_encode_value:
  assumes "n \<le> length msg"
  shows "\<exists>p0 p1 p2. RS129_encode msg n = [p0, p1, p2, 0] \<and>
    (\<forall>r. is_root r \<longrightarrow> parity_value r (RS129_encode msg n) = gmult (horner gmult r (take n msg)) (gmult r (gmult r r)))"
  using assms
proof (induction n)
  case (Suc n)
  then obtain p0 p1 p2 where p: "RS129_encode msg n = [p0, p1, p2, 0]"
    and v: "\<And>r. is_root r \<Longrightarrow> parity_value r (RS129_encode msg n) = gmult (horner gmult r (take n msg)) (gmult r (gmult r r))"
    by auto
  have e: "RS129_encode msg (Suc n) = rs129_step (msg ! n) (RS129_encode msg n)"
    by (simp add: RS129_encode_def Let_def)
  have "parity_value r (RS129_encode msg (Suc n)) = gmult (horner gmult r (take (Suc n) msg)) (gmult r (gmult r r))"
    if r: "is_root r" for r
    using Suc.prems by (simp add: e parity_value_step [OF r p] v [OF r] take_Suc_conv_app_nth field8)
  then show ?case unfolding e p rs129_step_list Let_def by auto
qed (simp add: RS129_encode_def NPAR_def Let_def parity_value_def numeral_eq_Suc)

subsection \<open>The check is the vanishing of the syndromes\<close>

lemma horner_split_3:
  "length inp = 12 \<Longrightarrow>
    horner gmult r inp = gmult (gmult (gmult (horner gmult r (take 9 inp)) r XOR inp ! 9) r XOR inp ! 10) r XOR inp ! 11"
proof -
  assume len: "length inp = 12"
  then have "take 12 inp = ((take 9 inp @ [inp ! 9]) @ [inp ! 10]) @ [inp ! 11]"
    using take_Suc_conv_app_nth [of 9 inp] take_Suc_conv_app_nth [of 10 inp] take_Suc_conv_app_nth [of 11 inp]
    by simp
  then have e: "inp = ((take 9 inp @ [inp ! 9]) @ [inp ! 10]) @ [inp ! 11]" using len by simp
  show ?thesis by (subst e) (simp only: horner_snoc)
qed

text \<open>With the computed parity in place the word vanishes at every root of the generator.\<close>

lemma encoded_vanishes:
  assumes "is_root r" "length inp = 12" "RS129_check inp"
  shows "horner gmult r inp = 0"
proof -
  obtain p0 p1 p2 where p: "RS129_encode inp 9 = [p0, p1, p2, 0]"
    and v: "parity_value r (RS129_encode inp 9) = gmult (horner gmult r (take 9 inp)) (gmult r (gmult r r))"
    using RS129_encode_value [of 9 inp] assms(1,2) by auto
  have "inp ! 9 = p2" "inp ! 10 = p1" "inp ! 11 = p0"
    using assms(3) by (simp_all add: RS129_check_def Let_def p)
  then have "horner gmult r inp = gmult (horner gmult r (take 9 inp)) (gmult r (gmult r r)) XOR parity_value r [p0, p1, p2, 0]"
    by (simp add: horner_split_3 [OF assms(2)] parity_value_def field8 numeral_2_eq_2 ac_simps)
  then show ?thesis using v p by simp
qed

lemma root_powers: "(xtime8 ^^ 1) 1 = 2" "(xtime8 ^^ 2) 1 = 4" "(xtime8 ^^ 3) 1 = 8"
  by (simp_all add: xtime8_def numeral_2_eq_2 numeral_3_eq_3)

lemma same_syndromes_equal:
  assumes "length xs = 12" "length ys = 12"
    and "\<And>r. r \<in> {2, 4, 8} \<Longrightarrow> horner gmult r xs = horner gmult r ys"
    and "length (filter (\<lambda>i. xs ! i \<noteq> ys ! i) [0..<12]) \<le> 3"
  shows "xs = ys"
proof (rule gf8.rs_distance [where par = 3 and n = 12])
  fix j :: nat assume "1 \<le> j" "j \<le> 3"
  then consider "j = 1" | "j = 2" | "j = 3" by linarith
  then show "horner gmult ((xtime8 ^^ j) 1) xs = horner gmult ((xtime8 ^^ j) 1) ys"
    by cases (simp_all only: root_powers assms(3) insert_iff simp_thms)
next
  show "inj_on (\<lambda>k. (xtime8 ^^ k) 1) {..<12}" by (rule inj_on_subset [OF gf8_order]) auto
next
  show "length (filter (\<lambda>i. xs ! i \<noteq> ys ! i) [0..<12]) \<le> 3" by (rule assms(4))
qed (simp_all add: assms(1,2))

definition set_parity :: "bytes \<Rightarrow> bytes" where
  "set_parity inp = (let p = RS129_encode inp 9 in inp[9 := p ! 2, 10 := p ! 1, 11 := p ! 0])"

lemma RS129_encode_cong: "(\<And>i. i < n \<Longrightarrow> xs ! i = ys ! i) \<Longrightarrow> RS129_encode xs n = RS129_encode ys n"
  unfolding RS129_encode_def Let_def by (intro fold_upt_cong) simp

lemma length_set_parity [simp]: "length (set_parity inp) = length inp"
  by (simp add: set_parity_def Let_def)

lemma set_parity_check: "length inp = 12 \<Longrightarrow> RS129_check (set_parity inp)"
proof -
  assume len: "length inp = 12"
  have "RS129_encode (set_parity inp) 9 = RS129_encode inp 9"
    by (rule RS129_encode_cong) (simp add: set_parity_def Let_def)
  then show ?thesis using len by (simp add: RS129_check_def set_parity_def Let_def)
qed

text \<open>C6: \<open>RS129_check\<close> accepts a block exactly when it vanishes at the three roots 2, 4 and 8 of the
  generator polynomial, that is, when its syndromes are zero.\<close>

theorem RS129_check_syndromes:
  assumes "length inp = 12"
  shows "RS129_check inp \<longleftrightarrow> (\<forall>r\<in>{2, 4, 8}. horner gmult r inp = 0)"
proof
  assume "RS129_check inp"
  then show "\<forall>r\<in>{2, 4, 8}. horner gmult r inp = 0" using encoded_vanishes roots assms by auto
next
  assume zero: "\<forall>r\<in>{2, 4, 8}. horner gmult r inp = 0"
  let ?c = "set_parity inp"
  have len: "length ?c = 12" using assms by (simp add: set_parity_def Let_def)
  have "filter (\<lambda>i. inp ! i \<noteq> ?c ! i) [0..<12] = filter (\<lambda>i. inp ! i \<noteq> ?c ! i) [9..<12]"
  proof -
    have "[0..<12] = [0..<9] @ [9..<12]" by (simp add: upt_rec)
    moreover have "filter (\<lambda>i. inp ! i \<noteq> ?c ! i) [0..<9] = []"
      by (auto simp: filter_empty_conv set_parity_def Let_def)
    ultimately show ?thesis by simp
  qed
  moreover have "length (filter (\<lambda>i. inp ! i \<noteq> ?c ! i) [9..<12]) \<le> 3"
    by (rule order_trans [OF length_filter_le]) simp
  ultimately have "inp = ?c"
    using zero encoded_vanishes [OF _ len set_parity_check [OF assms]] roots assms len
    by (intro same_syndromes_equal) auto
  then show "RS129_check inp" using set_parity_check [OF assms] by simp
qed

lemma RS129_check_syndromes_witness:
  "RS129_check [1, 2, 3, 4, 5, 6, 7, 8, 9, 10, 11, 12] \<longleftrightarrow>
    (\<forall>r\<in>{2, 4, 8}. horner gmult r [1, 2, 3, 4, 5, 6, 7, 8, 9, 10, 11, 12] = 0)"
  by (rule RS129_check_syndromes) simp

text \<open>Two different blocks that both pass \<open>RS129_check\<close> differ in at least four of their twelve
  bytes, so any one to three wrong bytes are detected.\<close>

theorem RS129_distance:
  assumes "length xs = 12" "length ys = 12" "RS129_check xs" "RS129_check ys" "xs \<noteq> ys"
  shows "4 \<le> length (filter (\<lambda>i. xs ! i \<noteq> ys ! i) [0..<12])"
proof (rule ccontr)
  assume "\<not> 4 \<le> length (filter (\<lambda>i. xs ! i \<noteq> ys ! i) [0..<12])"
  then have "xs = ys"
    using assms encoded_vanishes roots by (intro same_syndromes_equal) auto
  with assms show False by simp
qed

lemma RS129_distance_witness:
  "4 \<le> length (filter (\<lambda>i. set_parity [0, 0, 0, 0, 0, 0, 0, 0, 1, 0, 0, 0] ! i \<noteq> set_parity (replicate 12 0) ! i) [0..<12])"
proof (rule RS129_distance)
  have "set_parity [0, 0, 0, 0, 0, 0, 0, 0, 1, 0, 0, 0] ! 8 \<noteq> set_parity (replicate 12 0) ! 8"
    by (simp add: set_parity_def Let_def)
  then show "set_parity [0, 0, 0, 0, 0, 0, 0, 0, 1, 0, 0, 0] \<noteq> set_parity (replicate 12 0)" by metis
qed (simp, simp, rule set_parity_check, simp, rule set_parity_check, simp)

end
