(* ===== verification/Decoding.thy ===== *)
theory Decoding
  imports Gf
begin

section \<open>Decoding Reed-Solomon codes in the abstract\<close>

text \<open>
  The mathematics behind the decoders of tools/fec_tools.c, in the locale \<open>gf_mult\<close>: the
  Berlekamp-Massey step keeps a shortest linear recurrence of the syndromes; for a word
  with at most \<open>t\<close> wrong symbols that recurrence is the error locator; its roots are the
  error positions (the Chien search) and Forney's quotient is the error value.
  Sequences and polynomials are functions from exponents to field elements.
\<close>

subsection \<open>Finite sums\<close>

definition gsum :: "(nat \<Rightarrow> u8) \<Rightarrow> nat \<Rightarrow> u8" where
  "gsum f n = xsum (map f [0..<n])"

lemma gsum_0 [simp]: "gsum f 0 = 0"
  by (simp add: gsum_def)

lemma gsum_Suc [simp]: "gsum f (Suc n) = gsum f n XOR f n"
  by (simp add: gsum_def)

lemma gsum_cong: "(\<And>i. i < n \<Longrightarrow> f i = g i) \<Longrightarrow> gsum f n = gsum g n"
  by (induction n) auto

lemma gsum_zero: "(\<And>i. i < n \<Longrightarrow> f i = 0) \<Longrightarrow> gsum f n = 0"
  by (induction n) auto

lemma gsum_xor: "gsum (\<lambda>i. f i XOR g i) n = gsum f n XOR gsum g n"
  by (induction n) (simp_all add: ac_simps)

lemma gsum_swap: "gsum (\<lambda>i. gsum (\<lambda>j. f i j) m) n = gsum (\<lambda>j. gsum (\<lambda>i. f i j) n) m"
  by (induction n) (simp_all add: gsum_xor gsum_zero)

lemma gsum_first: "gsum f (Suc n) = f 0 XOR gsum (\<lambda>i. f (Suc i)) n"
  by (induction n) (simp_all add: ac_simps)

lemma gsum_extend: "n \<le> m \<Longrightarrow> (\<And>i. n \<le> i \<Longrightarrow> i < m \<Longrightarrow> f i = 0) \<Longrightarrow> gsum f m = gsum f n"
proof (induction m)
  case (Suc m)
  then show ?case by (cases "n = Suc m") auto
qed simp

lemma gsum_single: "k < n \<Longrightarrow> (\<And>i. i < n \<Longrightarrow> i \<noteq> k \<Longrightarrow> f i = 0) \<Longrightarrow> gsum f n = f k"
proof (induction n)
  case (Suc n)
  show ?case
  proof (cases "k = n")
    case True
    then show ?thesis using Suc.prems by (simp add: gsum_zero)
  next
    case False
    then show ?thesis using Suc by simp
  qed
qed simp

lemma gsum_shift: "gsum (\<lambda>i. if i < m then 0 else f (i - m)) (m + n) = gsum f n"
proof (induction n)
  case 0
  then show ?case by (simp add: gsum_zero)
qed simp

lemma xsum_gsum: "xsum (map f xs) = gsum (\<lambda>i. f (xs ! i)) (length xs)"
proof (induction xs rule: rev_induct)
  case (snoc x xs)
  have "gsum (\<lambda>i. f ((xs @ [x]) ! i)) (length xs) = gsum (\<lambda>i. f (xs ! i)) (length xs)"
    by (rule gsum_cong) (simp add: nth_append)
  then show ?case using snoc by simp
qed simp

context gf_mult begin

lemma gsum_in: "(\<And>i. i < n \<Longrightarrow> f i \<in> carrier) \<Longrightarrow> gsum f n \<in> carrier"
  by (induction n) (simp_all add: zero_in xor_in)

lemmas closed = zero_in one_in xor_in mul_in gpow_in iter_in gsum_in

lemma mul_gsum: "a \<in> carrier \<Longrightarrow> (\<And>i. i < n \<Longrightarrow> f i \<in> carrier) \<Longrightarrow> mul a (gsum f n) = gsum (\<lambda>i. mul a (f i)) n"
  by (induction n) (simp_all add: mul_xor_right gsum_in)

lemma gsum_mul: "a \<in> carrier \<Longrightarrow> (\<And>i. i < n \<Longrightarrow> f i \<in> carrier) \<Longrightarrow> mul (gsum f n) a = gsum (\<lambda>i. mul (f i) a) n"
  by (induction n) (simp_all add: mul_xor_left gsum_in)

lemma gpow_add: "x \<in> carrier \<Longrightarrow> gpow x (m + n) = mul (gpow x m) (gpow x n)"
  by (induction n) (simp_all add: gpow_in mul_assoc)

lemma gpow_1 [simp]: "x \<in> carrier \<Longrightarrow> gpow x (Suc 0) = x"
  by simp

lemma gpow_eq_0: "x \<in> carrier \<Longrightarrow> gpow x n = 0 \<Longrightarrow> x = 0"
  by (induction n) (auto simp: mul_eq_0 gpow_in)

lemma gpow_mul: "x \<in> carrier \<Longrightarrow> y \<in> carrier \<Longrightarrow> gpow (mul x y) n = mul (gpow x n) (gpow y n)"
proof (induction n)
  case (Suc n)
  then show ?case
    by (simp add: gpow_in mul_in mul_assoc mul_left_commute [of "gpow y n" x y])
qed (simp add: one_in)

lemma mul_cancel:
  "a \<in> carrier \<Longrightarrow> b \<in> carrier \<Longrightarrow> c \<in> carrier \<Longrightarrow> a \<noteq> 0 \<Longrightarrow> mul a b = mul a c \<Longrightarrow> b = c"
  by (metis mul_eq_0 mul_xor_right word_xor_eq_0 xor_in)

subsection \<open>Polynomials and their roots\<close>

fun pev :: "u8 list \<Rightarrow> u8 \<Rightarrow> u8" where
  "pev [] z = 0"
| "pev (c # cs) z = c XOR mul z (pev cs z)"

fun pdiv :: "u8 \<Rightarrow> u8 list \<Rightarrow> u8 list" where
  "pdiv a [] = []"
| "pdiv a [c] = []"
| "pdiv a (c # cs) = pev cs a # pdiv a cs"

lemma pev_in: "set cs \<subseteq> carrier \<Longrightarrow> z \<in> carrier \<Longrightarrow> pev cs z \<in> carrier"
  by (induction cs) (auto simp: closed)

lemma pdiv_in: "set cs \<subseteq> carrier \<Longrightarrow> a \<in> carrier \<Longrightarrow> set (pdiv a cs) \<subseteq> carrier"
  by (induction a cs rule: pdiv.induct) (auto simp: pev_in closed)

lemma length_pdiv [simp]: "length (pdiv a cs) = length cs - 1"
  by (induction a cs rule: pdiv.induct) auto

lemma pdiv_factor:
  "set cs \<subseteq> carrier \<Longrightarrow> a \<in> carrier \<Longrightarrow> z \<in> carrier \<Longrightarrow>
    pev cs z XOR pev cs a = mul (z XOR a) (pev (pdiv a cs) z)"
proof (induction a cs rule: pdiv.induct)
  case (3 a c d cs)
  let ?q = "pev (pdiv a (d # cs)) z" and ?p = "pev (d # cs)"
  have F: "?q \<in> carrier" "?p z \<in> carrier" "?p a \<in> carrier"
    using 3(2-4) pdiv_in [of "d # cs" a] by (auto simp del: pev.simps intro!: pev_in)
  have IH: "?p z = ?p a XOR mul (z XOR a) ?q" using 3 by (metis list.set_intros(2) subset_code(1) word_xor_cancel(1) xor.commute)
  have "pev (c # d # cs) z XOR pev (c # d # cs) a = mul z (?p z) XOR mul a (?p a)"
    by (simp add: ac_simps)
  also have "\<dots> = mul z (mul (z XOR a) ?q) XOR mul (z XOR a) (?p a)"
    unfolding IH using 3(3,4) F by (simp only: mul_xor_left mul_xor_right closed) (simp add: ac_simps)
  also have "\<dots> = mul (z XOR a) (pev (pdiv a (c # d # cs)) z)"
  proof -
    have w: "z XOR a \<in> carrier" using 3(3,4) by (simp add: closed)
    have "mul z (mul (z XOR a) ?q) = mul (z XOR a) (mul z ?q)"
      using w 3(4) F by (intro mul_left_commute)
    then show ?thesis
      using w 3(4) F by (simp add: mul_xor_right closed xor.commute [of "mul (z XOR a) (?p a)"]
          pev.simps(2) [of "?p a" "pdiv a (d # cs)"] del: pev.simps(2))
  qed
  finally show ?case .
qed (simp_all add: closed)

lemma pdiv_zero: "\<forall>q\<in>set (pdiv a cs). q = 0 \<Longrightarrow> pev cs a = 0 \<Longrightarrow> a \<in> carrier \<Longrightarrow> \<forall>c\<in>set cs. c = 0"
  by (induction a cs rule: pdiv.induct) (auto simp: closed)

text \<open>A polynomial with at least as many roots as coefficients is zero.\<close>

lemma root_count:
  assumes "distinct rs" "set rs \<subseteq> carrier" "set cs \<subseteq> carrier" "length cs \<le> length rs"
    and "\<And>r. r \<in> set rs \<Longrightarrow> pev cs r = 0"
  shows "\<forall>c\<in>set cs. c = 0"
  using assms
proof (induction rs arbitrary: cs)
  case (Cons a rs)
  have F: "a \<in> carrier" "set (pdiv a cs) \<subseteq> carrier" 
    using Cons.prems(2) pdiv_in [OF Cons.prems(3)] by simp_all
  have "pev (pdiv a cs) r = 0" if r: "r \<in> set rs" for r
  proof -
    have r': "r \<in> carrier" "r XOR a \<noteq> 0" using Cons.prems(1,2) r by auto
    have "mul (r XOR a) (pev (pdiv a cs) r) = pev cs r XOR pev cs a"
      using pdiv_factor [of cs a r] Cons.prems(3) F r' by simp
    also have "\<dots> = 0" using Cons.prems(5) r by simp
    finally show ?thesis
      using mul_eq_0 [OF xor_in [OF r'(1) F(1)] pev_in [OF F(2) r'(1)]] r' by blast
  qed
  then have "\<forall>q\<in>set (pdiv a cs). q = 0"
    using Cons.prems(1,2,4) F by (intro Cons.IH [of "pdiv a cs"]) simp_all
  then show ?case using Cons.prems(5) F(1) by (rule pdiv_zero) simp_all
qed simp

lemma pev_map: "(\<And>i. i < n \<Longrightarrow> f i \<in> carrier) \<Longrightarrow> z \<in> carrier \<Longrightarrow>
    pev (map f [0..<n]) z = gsum (\<lambda>i. mul (f i) (gpow z i)) n"
proof (induction n arbitrary: f)
  case (Suc n)
  have "pev (map f [0..<Suc n]) z = f 0 XOR mul z (pev (map (\<lambda>i. f (Suc i)) [0..<n]) z)"
    by (simp add: upt_conv_Cons map_Suc_upt [symmetric] o_def del: upt_Suc)
  also have "\<dots> = f 0 XOR gsum (\<lambda>i. mul z (mul (f (Suc i)) (gpow z i))) n"
    using Suc.IH [of "\<lambda>i. f (Suc i)"] Suc.prems by (simp add: mul_gsum closed)
  also have "\<dots> = f 0 XOR gsum (\<lambda>i. mul (f (Suc i)) (gpow z (Suc i))) n"
    using Suc.prems by (intro arg_cong2 [where f = "(XOR)"] gsum_cong refl)
      (simp add: mul_left_commute [of z] mul_commute [of z] mul_assoc closed)
  finally show ?case using Suc.prems by (simp add: gsum_first del: gsum_Suc)
qed simp

subsection \<open>Linear recurrences\<close>

text \<open>
  \<open>gen c n S k\<close>: the sequence \<open>S\<close> (from index 1) satisfies the recurrence with coefficients
  \<open>c\<close> of length \<open>n\<close> up to index \<open>k\<close>.
\<close>

definition conv :: "(nat \<Rightarrow> u8) \<Rightarrow> nat \<Rightarrow> (nat \<Rightarrow> u8) \<Rightarrow> nat \<Rightarrow> u8" where
  "conv c n S j = gsum (\<lambda>i. mul (c i) (S (j - i))) (Suc n)"

definition gen :: "(nat \<Rightarrow> u8) \<Rightarrow> nat \<Rightarrow> (nat \<Rightarrow> u8) \<Rightarrow> nat \<Rightarrow> bool" where
  "gen c n S k \<longleftrightarrow> (\<forall>j. n < j \<and> j \<le> k \<longrightarrow> conv c n S j = 0)"

definition in_field :: "(nat \<Rightarrow> u8) \<Rightarrow> bool" where
  "in_field f \<longleftrightarrow> (\<forall>i. f i \<in> carrier)"

lemma in_fieldD [simp]: "in_field f \<Longrightarrow> f i \<in> carrier"
  by (simp add: in_field_def)

lemma conv_in: "in_field c \<Longrightarrow> in_field S \<Longrightarrow> conv c n S j \<in> carrier"
  unfolding conv_def by (rule gsum_in) (simp add: closed)

lemma conv_extend:
  "n \<le> m \<Longrightarrow> (\<And>i. n < i \<Longrightarrow> c i = 0) \<Longrightarrow> conv c m S j = conv c n S j"
  unfolding conv_def by (rule gsum_extend) auto

text \<open>
  Massey: if \<open>c\<close> generates the sequence up to \<open>k\<close> but not at \<open>k + 1\<close>, a recurrence that
  generates it up to \<open>k + 1\<close> is at least \<open>k + 1 - n\<close> long.
\<close>

lemma massey:
  assumes F: "in_field c" "in_field d" "in_field S" and one: "c 0 = 1" "d 0 = 1"
    and c: "gen c n S k" and d: "gen d m S (Suc k)" and short: "n + m \<le> k"
  shows "conv c n S (Suc k) = 0"
proof -
  let ?D = "gsum (\<lambda>i. gsum (\<lambda>l. mul (mul (c i) (d l)) (S (Suc k - i - l))) (Suc m)) (Suc n)"
  have row: "gsum (\<lambda>l. mul (mul (c i) (d l)) (S (Suc k - i - l))) (Suc m) = mul (c i) (conv d m S (Suc k - i))" for i
    unfolding conv_def using F by (subst mul_gsum) (auto simp: closed mul_assoc intro!: gsum_cong)
  have col: "gsum (\<lambda>i. mul (mul (c i) (d l)) (S (Suc k - i - l))) (Suc n) = mul (d l) (conv c n S (Suc k - l))" for l
    unfolding conv_def using F
    by (subst mul_gsum)
      (auto simp: closed mul_assoc mul_left_commute [of "d l"] add.commute simp del: gsum_Suc intro!: gsum_cong)
  have "?D = mul (c 0) (conv d m S (Suc k))"
    using d short F by (subst row, subst gsum_single [where k = 0]) (auto simp: gen_def)
  also have "\<dots> = 0" using d short F by (simp add: gen_def)
  finally have "?D = 0" .
  moreover have "?D = gsum (\<lambda>l. gsum (\<lambda>i. mul (mul (c i) (d l)) (S (Suc k - i - l))) (Suc n)) (Suc m)"
    by (rule gsum_swap)
  moreover have "conv c n S (Suc k - i) = 0" if "0 < i" "i < Suc m" for i
  proof -
    have "n < Suc k - i" "Suc k - i \<le> k" using short that by linarith+
    then show ?thesis using c by (auto simp: gen_def)
  qed
  then have "gsum (\<lambda>l. gsum (\<lambda>i. mul (mul (c i) (d l)) (S (Suc k - i - l))) (Suc n)) (Suc m) =
      mul (d 0) (conv c n S (Suc k))"
    using F by (subst col, subst gsum_single [where k = 0]) auto
  ultimately show ?thesis using one F by (simp add: conv_in)
qed

text \<open>
  One Berlekamp-Massey correction: \<open>c\<close> fails at \<open>k + 1\<close> with discrepancy \<open>d\<close>, the older \<open>p\<close>
  failed at \<open>k + 1 - m\<close> with \<open>b\<close>.
\<close>

definition bm_fix :: "(nat \<Rightarrow> u8) \<Rightarrow> (nat \<Rightarrow> u8) \<Rightarrow> u8 \<Rightarrow> nat \<Rightarrow> nat \<Rightarrow> u8" where
  "bm_fix c p a m i = (if i < m then c i else c i XOR mul a (p (i - m)))"

lemma bm_fix_in: "in_field c \<Longrightarrow> in_field p \<Longrightarrow> a \<in> carrier \<Longrightarrow> in_field (bm_fix c p a m)"
  by (auto simp: in_field_def bm_fix_def closed)

lemma conv_bm_fix:
  assumes F: "in_field c" "in_field p" "in_field S" "a \<in> carrier"
    and len: "n \<le> n'" "m + q \<le> n'" "\<And>i. n < i \<Longrightarrow> c i = 0" "\<And>i. q < i \<Longrightarrow> p i = 0"
  shows "conv (bm_fix c p a m) n' S j = conv c n S j XOR mul a (conv p q S (j - m))"
proof -
  have "conv (bm_fix c p a m) n' S j =
    gsum (\<lambda>i. mul (c i) (S (j - i)) XOR (if i < m then 0 else mul a (mul (p (i - m)) (S (j - m - (i - m)))))) (Suc n')"
    unfolding conv_def using F
    by (intro gsum_cong) (auto simp: bm_fix_def mul_xor_left mul_assoc closed)
  also have "\<dots> = conv c n' S j XOR gsum (\<lambda>i. if i < m then 0 else mul a (mul (p (i - m)) (S (j - m - (i - m))))) (Suc n')"
    by (simp only: gsum_xor conv_def)
  also have "gsum (\<lambda>i. if i < m then 0 else mul a (mul (p (i - m)) (S (j - m - (i - m))))) (Suc n') =
      gsum (\<lambda>i. if i < m then 0 else mul a (mul (p (i - m)) (S (j - m - (i - m))))) (m + Suc q)"
    using len F by (intro gsum_extend) auto
  also have "\<dots> = gsum (\<lambda>i. mul a (mul (p i) (S (j - m - i)))) (Suc q)"
    by (rule gsum_shift)
  also have "\<dots> = mul a (conv p q S (j - m))"
    unfolding conv_def using F by (subst mul_gsum) (auto simp: closed)
  finally show ?thesis using conv_extend [of n n' c] len by simp
qed

text \<open>
  The state of the algorithm after \<open>k\<close> syndromes: \<open>c\<close> of length \<open>n\<close> generates them, and the
  remembered \<open>p\<close> first failed at \<open>k + 1 - m\<close>.
\<close>

definition bm_inv :: "(nat \<Rightarrow> u8) \<Rightarrow> nat \<Rightarrow> (nat \<Rightarrow> u8) \<Rightarrow> nat \<Rightarrow> (nat \<Rightarrow> u8) \<Rightarrow> nat \<Rightarrow> u8 \<Rightarrow> bool" where
  "bm_inv S k c n p m b \<longleftrightarrow>
     in_field c \<and> in_field p \<and> c 0 = 1 \<and> (\<forall>i>n. c i = 0) \<and> n \<le> k \<and> gen c n S k \<and>
     b \<in> carrier \<and> b \<noteq> 0 \<and> 0 < m \<and>
     (n = 0 \<and> m = Suc k \<and> p = (\<lambda>i. if i = 0 then 1 else 0) \<or>
      (\<exists>q. m \<le> k \<and> n + q = Suc k - m \<and> q \<le> k - m \<and> p 0 = 1 \<and> (\<forall>i>q. p i = 0) \<and> gen p q S (k - m) \<and>
         conv p q S (Suc k - m) = b))"

lemma bm_init: "bm_inv S 0 (\<lambda>i. if i = 0 then 1 else 0) 0 (\<lambda>i. if i = 0 then 1 else 0) 1 1"
  by (auto simp: bm_inv_def in_field_def closed gen_def)

lemma bm_step_zero:
  assumes inv: "bm_inv S k c n p m b" and z: "conv c n S (Suc k) = 0"
  shows "bm_inv S (Suc k) c n p (Suc m) b"
proof -
  have "gen c n S (Suc k)" using inv z by (auto simp: bm_inv_def gen_def le_Suc_eq)
  then show ?thesis using inv by (auto simp: bm_inv_def)
qed

lemma bm_step_fix:
  assumes inv: "bm_inv S k c n p m b" and S: "in_field S"
    and d: "conv c n S (Suc k) = d" "d \<noteq> 0" and a: "a \<in> carrier" "mul a b = d"
    and n': "n' = (if 2 * n \<le> k then Suc k - n else n)"
  shows "in_field (bm_fix c p a m) \<and> bm_fix c p a m 0 = 1 \<and> (\<forall>i>n'. bm_fix c p a m i = 0) \<and> n' \<le> Suc k \<and>
    gen (bm_fix c p a m) n' S (Suc k)"
proof -
  let ?c = "bm_fix c p a m"
  have F: "in_field c" "in_field p" using inv by (simp_all add: bm_inv_def)
  have m: "0 < m" "c 0 = 1" "n \<le> k" "\<And>i. n < i \<Longrightarrow> c i = 0" using inv by (auto simp: bm_inv_def)
  have nn: "n \<le> n'" "Suc k - n \<le> n'" "n' \<le> Suc k" using n' m(3) by (auto split: if_splits)
  have common: "in_field ?c" "?c 0 = 1" using F a m by (auto simp: bm_fix_in bm_fix_def)
  from inv consider (first) "n = 0" "m = Suc k" "p = (\<lambda>i. if i = 0 then 1 else 0)"
    | (later) q where "m \<le> k" "n + q = Suc k - m" "q \<le> k - m" "\<And>i. q < i \<Longrightarrow> p i = 0" "gen p q S (k - m)"
      "conv p q S (Suc k - m) = b"
    by (auto simp: bm_inv_def)
  then show ?thesis
  proof cases
    case first
    have "?c i = 0" if "n' < i" for i
      using that first n' m(4) a by (auto simp: bm_fix_def)
    moreover have "gen ?c n' S (Suc k)" using first n' by (auto simp: gen_def)
    ultimately show ?thesis using common nn by auto
  next
    case later
    have mq: "m + q \<le> n'" using later nn m by linarith
    have z: "?c i = 0" if "n' < i" for i
      using that nn mq later(4) m(4) a by (auto simp: bm_fix_def)
    have g: "conv ?c n' S j = conv c n S j XOR mul a (conv p q S (j - m))" for j
      using conv_bm_fix [OF F S a(1) nn(1) mq m(4) later(4)] .
    have "conv ?c n' S j = 0" if j: "n' < j" "j \<le> Suc k" for j
    proof (cases "j = Suc k")
      case True
      then show ?thesis using d(1) later a(2) by (simp add: g)
    next
      case False
      then have "conv c n S j = 0" using inv j nn by (auto simp: bm_inv_def gen_def)
      moreover have "q < j - m" "j - m \<le> k - m" using j mq False by linarith+
      then have "conv p q S (j - m) = 0" using later(5) by (auto simp: gen_def)
      ultimately show ?thesis using a by (simp add: g)
    qed
    then show ?thesis using common z nn by (auto simp: gen_def)
  qed
qed

lemma bm_step_short:
  assumes inv: "bm_inv S k c n p m b" and S: "in_field S"
    and d: "conv c n S (Suc k) = d" "d \<noteq> 0" and a: "a \<in> carrier" "mul a b = d" and long: "k < 2 * n"
  shows "bm_inv S (Suc k) (bm_fix c p a m) n p (Suc m) b"
proof -
  have "in_field (bm_fix c p a m) \<and> bm_fix c p a m 0 = 1 \<and> (\<forall>i>n. bm_fix c p a m i = 0) \<and> n \<le> Suc k \<and>
      gen (bm_fix c p a m) n S (Suc k)"
    by (rule bm_step_fix [OF inv S d a]) (use long in auto)
  then show ?thesis using inv long by (auto simp: bm_inv_def)
qed

lemma bm_step_grow:
  assumes inv: "bm_inv S k c n p m b" and S: "in_field S"
    and d: "conv c n S (Suc k) = d" "d \<noteq> 0" and a: "a \<in> carrier" "mul a b = d" and short: "2 * n \<le> k"
  shows "bm_inv S (Suc k) (bm_fix c p a m) (Suc k - n) c 1 d"
proof -
  have "in_field (bm_fix c p a m) \<and> bm_fix c p a m 0 = 1 \<and> (\<forall>i>Suc k - n. bm_fix c p a m i = 0) \<and>
      Suc k - n \<le> Suc k \<and> gen (bm_fix c p a m) (Suc k - n) S (Suc k)"
    by (rule bm_step_fix [OF inv S d a]) (use short in auto)
  moreover have "d \<in> carrier" using d(1) conv_in inv S by (auto simp: bm_inv_def)
  ultimately show ?thesis
    using inv short d unfolding bm_inv_def
    by (intro conjI disjI2 exI [of _ n]) auto
qed

subsection \<open>Syndromes of an error pattern\<close>

text \<open>An error pattern is a list of error values with their locators.\<close>

definition syndrome :: "(u8 \<times> u8) list \<Rightarrow> nat \<Rightarrow> u8" where
  "syndrome es j = xsum (map (\<lambda>(y, x). mul y (gpow x j)) es)"

definition pattern_ok :: "(u8 \<times> u8) list \<Rightarrow> bool" where
  "pattern_ok es \<longleftrightarrow> distinct (map snd es) \<and> (\<forall>(y, x)\<in>set es. y \<in> carrier \<and> x \<in> carrier \<and> y \<noteq> 0 \<and> x \<noteq> 0)"

lemma syndrome_in: "pattern_ok es \<Longrightarrow> syndrome es j \<in> carrier"
  unfolding syndrome_def by (rule xsum_in) (auto simp: pattern_ok_def closed)

lemma syndrome_Cons: "syndrome ((y, x) # es) j = mul y (gpow x j) XOR syndrome es j"
  by (simp add: syndrome_def)

text \<open>A recurrence acts on each error separately.\<close>

lemma conv_syndrome:
  assumes es: "pattern_ok es" and c: "in_field c" and j: "n \<le> j"
  shows "conv c n (syndrome es) j = xsum (map (\<lambda>(y, x). mul y (conv c n (gpow x) j)) es)"
  using es
proof (induction es)
  case (Cons e es)
  obtain y x where e: "e = (y, x)" by (cases e)
  have F: "y \<in> carrier" "x \<in> carrier" "pattern_ok es" using Cons.prems e by (auto simp: pattern_ok_def)
  have "conv c n (syndrome (e # es)) j =
      gsum (\<lambda>i. mul y (mul (c i) (gpow x (j - i))) XOR mul (c i) (syndrome es (j - i))) (Suc n)"
    unfolding conv_def using F c syndrome_in
    by (intro gsum_cong) (simp add: syndrome_Cons e mul_xor_right mul_left_commute [of y] closed)
  also have "\<dots> = mul y (conv c n (gpow x) j) XOR conv c n (syndrome es) j"
    unfolding conv_def gsum_xor using F c by (subst mul_gsum) (auto simp: closed)
  finally show ?case using Cons.IH F e by simp
qed (auto simp: syndrome_def conv_def gsum_zero c)

lemma conv_gpow:
  assumes "in_field c" "x \<in> carrier" "n \<le> j"
  shows "conv c n (gpow x) j = mul (gpow x (j - n)) (conv c n (gpow x) n)"
proof -
  have "mul (c i) (gpow x (j - i)) = mul (gpow x (j - n)) (mul (c i) (gpow x (n - i)))" if "i < Suc n" for i
  proof -
    have "j - i = (j - n) + (n - i)" using that assms(3) by simp
    then show ?thesis
      using assms by (simp only: gpow_add) (simp add: mul_left_commute [of "c i"] closed)
  qed
  then show ?thesis
    unfolding conv_def using assms by (subst mul_gsum) (auto simp: closed simp del: gsum_Suc intro!: gsum_cong)
qed

text \<open>The error locator of a list of locators.\<close>

fun locator :: "u8 list \<Rightarrow> nat \<Rightarrow> u8" where
  "locator [] = (\<lambda>i. if i = 0 then 1 else 0)"
| "locator (x # xs) = bm_fix (locator xs) (locator xs) x 1"

lemma locator_basic:
  "set xs \<subseteq> carrier \<Longrightarrow> in_field (locator xs) \<and> locator xs 0 = 1 \<and> (\<forall>i>length xs. locator xs i = 0)"
proof (induction xs)
  case (Cons x xs)
  then have "in_field (bm_fix (locator xs) (locator xs) x 1)" by (intro bm_fix_in) auto
  then show ?case using Cons by (simp, simp add: bm_fix_def)
qed (auto simp: in_field_def closed)

lemma in_field_gpow: "x \<in> carrier \<Longrightarrow> in_field (gpow x)"
  by (simp add: in_field_def gpow_in)

lemma locator_root:
  assumes "set xs \<subseteq> carrier" "y \<in> set xs"
  shows "conv (locator xs) (length xs) (gpow y) (length xs) = 0"
  using assms
proof (induction xs)
  case (Cons x xs)
  let ?n = "length xs" and ?c = "locator xs"
  have F: "in_field ?c" "\<And>i. ?n < i \<Longrightarrow> ?c i = 0" "x \<in> carrier" "y \<in> carrier"
    using Cons.prems locator_basic [of xs] by auto
  have G: "conv ?c ?n (gpow y) ?n \<in> carrier" using F by (simp add: conv_in in_field_gpow)
  have "conv (locator (x # xs)) (Suc ?n) (gpow y) (Suc ?n) =
      conv ?c ?n (gpow y) (Suc ?n) XOR mul x (conv ?c ?n (gpow y) (Suc ?n - 1))"
    unfolding locator.simps by (rule conv_bm_fix) (use F in \<open>auto simp: in_field_gpow\<close>)
  also have "conv ?c ?n (gpow y) (Suc ?n) = mul y (conv ?c ?n (gpow y) ?n)"
    using conv_gpow [of ?c y ?n "Suc ?n"] F by simp
  also have "mul y (conv ?c ?n (gpow y) ?n) XOR mul x (conv ?c ?n (gpow y) (Suc ?n - 1)) =
      mul (y XOR x) (conv ?c ?n (gpow y) ?n)"
    using F G by (simp add: mul_xor_left)
  also have "\<dots> = 0"
    using Cons F by (cases "y = x") (auto simp: closed)
  finally show ?case by simp
qed simp

lemma xsum_map_zero: "(\<And>y x. (y, x) \<in> set es \<Longrightarrow> f y x = 0) \<Longrightarrow> xsum (map (\<lambda>(y, x). f y x) es) = 0"
  by (rule xsum_zero) auto

lemma locator_gen:
  assumes "pattern_ok es"
  shows "gen (locator (map snd es)) (length es) (syndrome es) k"
proof -
  let ?xs = "map snd es" and ?n = "length es"
  have F: "set ?xs \<subseteq> carrier" "\<And>y x. (y, x) \<in> set es \<Longrightarrow> y \<in> carrier \<and> x \<in> carrier"
    using assms by (auto simp: pattern_ok_def)
  then have L: "in_field (locator ?xs)" using locator_basic by blast
  have "conv (locator ?xs) ?n (syndrome es) j = 0" if "?n < j" for j
  proof -
    have "conv (locator ?xs) ?n (syndrome es) j = xsum (map (\<lambda>(y, x). mul y (conv (locator ?xs) ?n (gpow x) j)) es)"
      using assms L that by (intro conv_syndrome) auto
    also have "\<dots> = 0"
    proof (rule xsum_map_zero)
      fix y x assume yx: "(y, x) \<in> set es"
      then have "x \<in> set ?xs" by force
      then have "conv (locator ?xs) ?n (gpow x) ?n = 0" using locator_root [OF F(1)] by simp
      then show "mul y (conv (locator ?xs) ?n (gpow x) j) = 0"
        using conv_gpow [OF L, of x ?n j] F(2) [OF yx] that by (simp add: closed)
    qed
    finally show ?thesis .
  qed
  then show ?thesis by (simp add: gen_def)
qed

text \<open>The recurrence the algorithm keeps is never longer than the number of errors.\<close>

lemma bm_grow_bound:
  assumes inv: "bm_inv (syndrome es) k c n p m b" and es: "pattern_ok es"
    and d: "conv c n (syndrome es) (Suc k) \<noteq> 0"
  shows "Suc k - n \<le> length es"
proof (rule ccontr)
  let ?d = "locator (map snd es)"
  assume "\<not> Suc k - n \<le> length es"
  then have short: "n + length es \<le> k" by linarith
  have F: "set (map snd es) \<subseteq> carrier" using es by (auto simp: pattern_ok_def)
  have "conv c n (syndrome es) (Suc k) = 0"
  proof (rule massey [OF _ _ _ _ _ _ locator_gen [OF es] short])
    show "in_field c" "c 0 = 1" "gen c n (syndrome es) k" using inv by (auto simp: bm_inv_def)
    show "in_field ?d" "?d 0 = 1" using locator_basic [OF F] by auto
    show "in_field (syndrome es)" using es by (simp add: in_field_def syndrome_in)
  qed
  with d show False ..
qed

subsection \<open>The recurrence is the error locator\<close>

lemma mul_shuffle:
  "a \<in> carrier \<Longrightarrow> b \<in> carrier \<Longrightarrow> c \<in> carrier \<Longrightarrow> d \<in> carrier \<Longrightarrow>
    mul a (mul (mul b c) d) = mul (mul (mul a c) d) b"
  by (simp add: mul_assoc mul_commute mul_left_commute closed)

lemma recurrence_roots:
  assumes es: "pattern_ok es" and c: "in_field c" "\<And>i. n < i \<Longrightarrow> c i = 0"
    and g: "gen c n (syndrome es) k" and n: "n \<le> length es" "2 * length es \<le> k"
    and e: "(y, x) \<in> set es"
  shows "conv c (length es) (gpow x) (length es) = 0"
proof -
  let ?v = "length es" and ?R = "\<lambda>x. conv c (length es) (gpow x) (length es)"
  let ?ps = "map (\<lambda>(y, x). (mul (mul y x) (?R x), x)) es"
  have F: "\<And>y x. (y, x) \<in> set es \<Longrightarrow> y \<in> carrier \<and> x \<in> carrier \<and> y \<noteq> 0 \<and> x \<noteq> 0"
    using es by (auto simp: pattern_ok_def)
  have R: "x \<in> carrier \<Longrightarrow> ?R x \<in> carrier" for x using c by (simp add: conv_in in_field_gpow)
  have zero: "xsum (map (\<lambda>(e, x). mul e (gpow x r)) ?ps) = 0" if r: "r < length ?ps" for r
  proof -
    let ?j = "?v + Suc r"
    have "conv c ?v (syndrome es) ?j = conv c n (syndrome es) ?j"
      using c n by (intro conv_extend) auto
    also have "\<dots> = 0" using g n r by (auto simp: gen_def)
    finally have "0 = xsum (map (\<lambda>(y, x). mul y (conv c ?v (gpow x) ?j)) es)"
      using conv_syndrome [OF es c(1), of ?v ?j] by simp
    also have "\<dots> = xsum (map (\<lambda>(e, x). mul e (gpow x r)) ?ps)"
      unfolding map_map
    proof (intro arg_cong [where f = xsum] map_cong refl)
      fix p assume in_es: "p \<in> set es"
      obtain y x where yx: "p = (y, x)" by (cases p) blast
      then have p: "p = (y, x)" "(y, x) \<in> set es" using in_es by simp_all
      have "x \<in> carrier" "y \<in> carrier" using F [OF p(2)] by auto
      then have "mul y (conv c ?v (gpow x) ?j) = mul (mul (mul y x) (?R x)) (gpow x r)"
        using mul_shuffle [of y "gpow x r" x "?R x"] R conv_gpow [OF c(1), of x ?v ?j]
        by (simp add: gpow_in)
      then show "(case p of (y, x) \<Rightarrow> mul y (conv c ?v (gpow x) ?j)) =
          ((\<lambda>(e, x). mul e (gpow x r)) \<circ> (\<lambda>(y, x). (mul (mul y x) (?R x), x))) p"
        by (simp only: p(1) comp_apply prod.case)
    qed
    finally show ?thesis by simp
  qed
  have "map snd ?ps = map snd es" by (simp add: case_prod_unfold o_def)
  moreover have "distinct (map snd es)" using es by (simp add: pattern_ok_def)
  ultimately have dist: "distinct (map snd ?ps)" by (simp only:)
  have "(mul (mul y x) (?R x), x) \<in> set ?ps" using e by (auto intro!: image_eqI [where x = "(y, x)"])
  moreover have "\<And>e x. (e, x) \<in> set ?ps \<Longrightarrow> e \<in> carrier \<and> x \<in> carrier"
    using F R by (auto simp: closed)
  ultimately have "mul (mul y x) (?R x) = 0" using vandermonde [OF _ dist zero] by blast
  then show ?thesis using F [OF e] R by (simp add: mul_eq_0 closed)
qed

definition inverse_of :: "u8 \<Rightarrow> u8 \<Rightarrow> bool" where
  "inverse_of x z \<longleftrightarrow> z \<in> carrier \<and> mul x z = 1"

lemma inverse_exists: "x \<in> carrier \<Longrightarrow> x \<noteq> 0 \<Longrightarrow> (xt ^^ q) 1 = 1 \<Longrightarrow> 0 < q \<Longrightarrow> \<exists>z. inverse_of x z"
proof -
  assume x: "x \<in> carrier" "x \<noteq> 0" and q: "(xt ^^ q) 1 = 1" "0 < q"
  obtain k where k: "x = (xt ^^ k) 1" using power_of [OF x] by auto
  have "(xt ^^ (q * k)) 1 = 1" for k using q(1) by (induction k) (simp_all add: funpow_add)
  moreover have "k + (q - 1) * k = q * k" using q(2) by (cases q) auto
  ultimately have "mul x ((xt ^^ ((q - 1) * k)) 1) = 1" unfolding k by (simp only: power_mul)
  then have "inverse_of x ((xt ^^ ((q - 1) * k)) 1)" by (simp add: inverse_of_def iter_in one_in)
  then show ?thesis ..
qed

lemma inverse_inject: "x \<in> carrier \<Longrightarrow> x' \<in> carrier \<Longrightarrow> inverse_of x z \<Longrightarrow> inverse_of x' z \<Longrightarrow> x = x'"
  unfolding inverse_of_def by (metis mul_1_right mul_assoc mul_commute)

text \<open>The reversed evaluation is the evaluation at the inverse.\<close>

lemma gpow_one [simp]: "gpow 1 n = 1"
  by (induction n) (simp_all add: one_in)

lemma inverse_gpow: "x \<in> carrier \<Longrightarrow> inverse_of x z \<Longrightarrow> i \<le> n \<Longrightarrow> mul (gpow x (n - i)) (gpow z n) = gpow z i"
proof -
  assume a: "x \<in> carrier" "inverse_of x z" "i \<le> n"
  then have z: "z \<in> carrier" "mul x z = 1" by (auto simp: inverse_of_def)
  have "gpow z n = mul (gpow z (n - i)) (gpow z i)" using gpow_add [OF z(1), of "n - i" i] a(3) by simp
  moreover have "mul (gpow x (n - i)) (gpow z (n - i)) = 1" using gpow_mul [OF a(1) z(1), of "n - i"] z by simp
  ultimately show ?thesis
    using a z mul_assoc [of "gpow x (n - i)" "gpow z (n - i)" "gpow z i"] by (simp add: gpow_in)
qed

definition peval :: "(nat \<Rightarrow> u8) \<Rightarrow> nat \<Rightarrow> u8 \<Rightarrow> u8" where
  "peval c n z = gsum (\<lambda>i. mul (c i) (gpow z i)) (Suc n)"

lemma peval_inverse:
  assumes "in_field c" "x \<in> carrier" "inverse_of x z"
  shows "peval c n z = mul (gpow z n) (conv c n (gpow x) n)"
proof -
  have z: "z \<in> carrier" using assms by (simp add: inverse_of_def)
  have "mul (c i) (gpow z i) = mul (gpow z n) (mul (c i) (gpow x (n - i)))" if "i < Suc n" for i
  proof -
    have "gpow z i = mul (gpow z n) (gpow x (n - i))"
      using inverse_gpow [OF assms(2,3), of i n] that assms(2) z by (simp add: mul_commute [of "gpow x (n - i)"] gpow_in)
    then show ?thesis using assms z by (simp add: mul_left_commute [of "c i"] closed)
  qed
  then show ?thesis
    unfolding peval_def conv_def using assms z
    by (subst mul_gsum) (auto simp: closed simp del: gsum_Suc intro!: gsum_cong)
qed

lemma peval_roots:
  assumes "distinct rs" "set rs \<subseteq> carrier" "in_field c" "n < length rs" "\<And>r. r \<in> set rs \<Longrightarrow> peval c n r = 0" "i \<le> n"
  shows "c i = 0"
proof -
  have "\<forall>q\<in>set (map c [0..<Suc n]). q = 0"
  proof (rule root_count [OF assms(1,2)])
    show "pev (map c [0..<Suc n]) r = 0" if "r \<in> set rs" for r
      using assms(5) [OF that] pev_map [of "Suc n" c r] assms(2,3) that by (auto simp: peval_def)
  qed (use assms in auto)
  then show ?thesis using assms(6) by (simp del: upt_Suc)
qed

text \<open>
  After at least twice as many syndromes as errors the recurrence has exactly the length of
  the error pattern, and its roots are the inverses \<open>zs\<close> of the locators.
\<close>

definition located :: "(u8 \<times> u8) list \<Rightarrow> u8 list \<Rightarrow> (nat \<Rightarrow> u8) \<Rightarrow> nat \<Rightarrow> nat \<Rightarrow> bool" where
  "located es zs c n k \<longleftrightarrow>
     pattern_ok es \<and> length zs = length es \<and> (\<forall>i<length es. inverse_of (snd (es ! i)) (zs ! i)) \<and>
     in_field c \<and> c 0 = 1 \<and> (\<forall>i>n. c i = 0) \<and> gen c n (syndrome es) k \<and> n \<le> length es \<and> 2 * length es \<le> k"

lemma locatedD:
  assumes "located es zs c n k"
  shows "pattern_ok es" "length zs = length es" "\<And>i. i < length es \<Longrightarrow> inverse_of (snd (es ! i)) (zs ! i)"
    "in_field c" "c 0 = 1" "\<And>i. n < i \<Longrightarrow> c i = 0" "gen c n (syndrome es) k" "n \<le> length es" "2 * length es \<le> k"
  using assms by (auto simp: located_def)

lemma error_in:
  "pattern_ok es \<Longrightarrow> i < length es \<Longrightarrow>
    fst (es ! i) \<in> carrier \<and> snd (es ! i) \<in> carrier \<and> fst (es ! i) \<noteq> 0 \<and> snd (es ! i) \<noteq> 0"
  using nth_mem [of i es] by (force simp: pattern_ok_def case_prod_unfold)

lemma located_zs_in: "located es zs c n k \<Longrightarrow> i < length es \<Longrightarrow> zs ! i \<in> carrier"
  by (auto simp: located_def inverse_of_def)

lemma located_zs_set: "located es zs c n k \<Longrightarrow> set zs \<subseteq> carrier"
  using located_zs_in locatedD(2) by (fastforce simp: in_set_conv_nth)

lemma located_zs_distinct:
  assumes L: "located es zs c n k"
  shows "distinct zs"
proof (rule distinct_conv_nth [THEN iffD2], intro allI impI)
  fix i j assume ij: "i < length zs" "j < length zs" "i \<noteq> j"
  then have "snd (es ! i) \<noteq> snd (es ! j)"
    using locatedD(1,2) [OF L] by (auto simp: pattern_ok_def distinct_conv_nth)
  then show "zs ! i \<noteq> zs ! j"
    using inverse_inject locatedD(1-3) [OF L] error_in ij by metis
qed

lemma located_roots:
  assumes L: "located es zs c n k" and i: "i < length es"
  shows "peval c (length es) (zs ! i) = 0"
proof -
  have "conv c (length es) (gpow (snd (es ! i))) (length es) = 0"
    using recurrence_roots [OF locatedD(1,4,6-9) [OF L], of "fst (es ! i)"] i by simp
  then show ?thesis
    using peval_inverse [OF locatedD(4) [OF L], of "snd (es ! i)" "zs ! i" "length es"]
      error_in [OF locatedD(1) [OF L] i] locatedD(3) [OF L i] located_zs_in [OF L i]
    by (simp add: closed)
qed

lemma peval_length: "z \<in> carrier \<Longrightarrow> n \<le> m \<Longrightarrow> (\<And>i. n < i \<Longrightarrow> c i = 0) \<Longrightarrow> peval c m z = peval c n z"
  unfolding peval_def by (intro gsum_extend) auto

lemma located_length:
  assumes L: "located es zs c n k"
  shows "n = length es"
proof (rule ccontr)
  assume "n \<noteq> length es"
  with locatedD(8) [OF L] have "n < length es" by (rule le_neq_trans)
  then have n: "n < length zs" by (simp only: locatedD(2) [OF L])
  have "peval c n r = 0" if r: "r \<in> set zs" for r
  proof -
    obtain i where i: "i < length zs" "zs ! i = r" using r by (auto simp: in_set_conv_nth)
    then have l: "i < length es" by (simp only: locatedD(2) [OF L])
    have "peval c (length es) (zs ! i) = peval c n (zs ! i)"
      by (rule peval_length [OF located_zs_in [OF L l] locatedD(8) [OF L]]) (rule locatedD(6) [OF L])
    then show ?thesis using located_roots [OF L l] i(2) by simp
  qed
  then have "c 0 = 0"
    by (rule peval_roots [OF located_zs_distinct [OF L] located_zs_set [OF L] locatedD(4) [OF L] n _ le0])
  then show False using locatedD(5) [OF L] by simp
qed

lemma located_only_roots:
  assumes L: "located es zs c n k" and z: "z \<in> carrier" "peval c n z = 0"
  shows "z \<in> set zs"
proof (rule ccontr)
  assume nz: "z \<notin> set zs"
  have "c 0 = 0"
  proof (rule peval_roots [of "z # zs" c n 0])
    show "peval c n r = 0" if "r \<in> set (z # zs)" for r
      using that z located_roots [OF L] locatedD(2) [OF L] located_length [OF L] by (auto simp: in_set_conv_nth)
  qed (use nz z located_zs_distinct [OF L] located_zs_set [OF L] locatedD(2,4) [OF L] located_length [OF L] in auto)
  then show False using locatedD(5) [OF L] by simp
qed

subsection \<open>Forney's error values\<close>

text \<open>
  \<open>quot c x i\<close> are the coefficients of the locator divided by the factor of \<open>x\<close>; the error
  evaluator is the sum of these quotients weighted by the errors.
\<close>

definition quot :: "(nat \<Rightarrow> u8) \<Rightarrow> u8 \<Rightarrow> nat \<Rightarrow> u8" where
  "quot c x i = conv c i (gpow x) i"

lemma quot_in: "in_field c \<Longrightarrow> x \<in> carrier \<Longrightarrow> quot c x i \<in> carrier"
  by (simp add: quot_def conv_in in_field_gpow)

lemma quot_0: "in_field c \<Longrightarrow> quot c x 0 = c 0"
  by (simp add: quot_def conv_def)

lemma quot_Suc:
  assumes "in_field c" "x \<in> carrier"
  shows "quot c x (Suc i) = mul x (quot c x i) XOR c (Suc i)"
proof -
  have "quot c x (Suc i) = conv c i (gpow x) (Suc i) XOR c (Suc i)"
    using assms by (simp add: quot_def conv_def)
  then show ?thesis using conv_gpow [of c x i "Suc i"] assms by (simp add: quot_def)
qed

text \<open>Multiplying the quotient by the factor gives the locator back.\<close>

lemma quot_factor:
  assumes c: "in_field c" and x: "x \<in> carrier" and z: "z \<in> carrier"
  shows "gsum (\<lambda>i. mul (quot c x i) (gpow z i)) (Suc n) XOR mul (mul x z) (gsum (\<lambda>i. mul (quot c x i) (gpow z i)) n) = peval c n z"
proof (induction n)
  case 0
  then show ?case using assms by (simp add: peval_def quot_0 closed)
next
  case (Suc n)
  let ?G = "\<lambda>n. gsum (\<lambda>i. mul (quot c x i) (gpow z i)) n"
  have F: "quot c x i \<in> carrier" "gpow z i \<in> carrier" "?G i \<in> carrier" for i
    using assms by (simp_all add: quot_in gpow_in gsum_in mul_in)
  have "mul (quot c x (Suc n)) (gpow z (Suc n)) =
      mul (mul x z) (mul (quot c x n) (gpow z n)) XOR mul (c (Suc n)) (gpow z (Suc n))"
  proof -
    have "mul (mul x (quot c x n)) (gpow z (Suc n)) = mul (mul x z) (mul (quot c x n) (gpow z n))"
      using assms F by (simp add: mul_assoc mul_left_commute [of _ z] mul_commute [of _ z] closed)
    then show ?thesis using assms F by (simp only: quot_Suc) (simp add: mul_xor_left closed)
  qed
  moreover have "mul (mul x z) (?G (Suc n)) = mul (mul x z) (?G n) XOR mul (mul x z) (mul (quot c x n) (gpow z n))"
    using assms F by (simp add: mul_xor_right closed)
  moreover have "peval c (Suc n) z = peval c n z XOR mul (c (Suc n)) (gpow z (Suc n))"
    by (simp add: peval_def)
  ultimately show ?case using Suc by (simp add: ac_simps)
qed

lemma quot_beyond:
  assumes L: "located es zs c n k" and m: "m < length es" and i: "length es \<le> i"
  shows "quot c (snd (es ! m)) i = 0"
proof -
  let ?x = "snd (es ! m)"
  have x: "?x \<in> carrier" using error_in [OF locatedD(1) [OF L] m] by simp
  have "conv c i (gpow ?x) i = conv c (length es) (gpow ?x) i"
    using locatedD(6) [OF L] located_length [OF L] i by (intro conv_extend) auto
  also have "\<dots> = mul (gpow ?x (i - length es)) (conv c (length es) (gpow ?x) (length es))"
    by (rule conv_gpow [OF locatedD(4) [OF L] x i])
  also have "conv c (length es) (gpow ?x) (length es) = 0"
    using recurrence_roots [OF locatedD(1,4,6-9) [OF L], of "fst (es ! m)"] m by simp
  finally show ?thesis using x by (simp add: quot_def gpow_in)
qed

lemma quot_other:
  assumes L: "located es zs c n k" and m: "m < length es" "l < length es" "l \<noteq> m"
  shows "gsum (\<lambda>i. mul (quot c (snd (es ! l)) i) (gpow (zs ! m) i)) (length es) = 0"
proof -
  let ?x = "snd (es ! l)" and ?z = "zs ! m"
  let ?Q = "gsum (\<lambda>i. mul (quot c ?x i) (gpow ?z i)) (length es)"
  have F: "in_field c" "?x \<in> carrier" "?z \<in> carrier"
    using locatedD(4) [OF L] error_in [OF locatedD(1) [OF L] m(2)] located_zs_in [OF L m(1)] by auto
  then have Q: "?Q \<in> carrier" by (auto simp: quot_in closed)
  have "?Q XOR mul (mul ?x ?z) ?Q = 0"
    using quot_factor [OF F, of "length es"] quot_beyond [OF L m(2), of "length es"] located_roots [OF L m(1)] F
    by (simp add: gpow_in)
  then have "mul (1 XOR mul ?x ?z) ?Q = 0" using F Q by (simp add: mul_xor_left closed)
  moreover have "mul ?x ?z \<noteq> 1"
  proof
    assume "mul ?x ?z = 1"
    then have "inverse_of ?x ?z" using F by (simp add: inverse_of_def)
    then have eq: "?x = snd (es ! m)"
      using inverse_inject [OF F(2) _ _ locatedD(3) [OF L m(1)]] error_in [OF locatedD(1) [OF L] m(1)] by simp
    have "distinct (map snd es)" using locatedD(1) [OF L] by (simp add: pattern_ok_def)
    then show False using m eq nth_eq_iff_index_eq [of "map snd es" l m] by simp
  qed
  then have "1 XOR mul ?x ?z \<noteq> 0" by (metis word_xor_eq_0)
  ultimately show ?thesis using mul_eq_0 [of "1 XOR mul ?x ?z" ?Q] F Q by (simp add: closed)
qed

text \<open>The formal derivative, as the decoders sum it: the odd coefficients.\<close>

definition deriv :: "(nat \<Rightarrow> u8) \<Rightarrow> nat \<Rightarrow> u8 \<Rightarrow> u8" where
  "deriv c n z = gsum (\<lambda>i. if odd i then mul (c i) (gpow z (i - 1)) else 0) (Suc n)"

definition parity_sum :: "bool \<Rightarrow> (nat \<Rightarrow> u8) \<Rightarrow> u8 \<Rightarrow> nat \<Rightarrow> u8" where
  "parity_sum b c z n = gsum (\<lambda>i. if odd i = b then mul (c i) (gpow z i) else 0) n"

lemma parity_sum_peval: "peval c n z = parity_sum True c z (Suc n) XOR parity_sum False c z (Suc n)"
  unfolding peval_def parity_sum_def gsum_xor [symmetric] by (rule gsum_cong) simp

lemma sum_of_pevals: "gsum (\<lambda>i. peval c i z) n = parity_sum (even n) c z n"
proof (induction n)
  case (Suc n)
  then show ?case by (cases "even n") (simp_all add: parity_sum_peval parity_sum_def ac_simps)
qed (simp add: parity_sum_def)

lemma parity_sum_deriv: "in_field c \<Longrightarrow> z \<in> carrier \<Longrightarrow> parity_sum True c z (Suc n) = mul z (deriv c n z)"
proof -
  assume F: "in_field c" "z \<in> carrier"
  have "mul z (if odd i then mul (c i) (gpow z (i - 1)) else 0) = (if odd i then mul (c i) (gpow z i) else 0)" for i
    using F by (cases i) (simp_all add: mul_left_commute [of z] mul_commute [of z] mul_assoc closed)
  then show ?thesis
    using F by (simp add: parity_sum_def deriv_def mul_gsum closed del: gsum_Suc)
qed

lemma quot_own:
  assumes L: "located es zs c n k" and m: "m < length es"
  shows "gsum (\<lambda>i. mul (quot c (snd (es ! m)) i) (gpow (zs ! m) i)) (length es) = mul (zs ! m) (deriv c (length es) (zs ! m))"
proof -
  let ?x = "snd (es ! m)" and ?z = "zs ! m" and ?v = "length es"
  have F: "in_field c" "?x \<in> carrier" "?z \<in> carrier" "inverse_of ?x ?z"
    using locatedD(4) [OF L] error_in [OF locatedD(1) [OF L] m] located_zs_in [OF L m] locatedD(3) [OF L m] by auto
  have "mul (quot c ?x i) (gpow ?z i) = peval c i ?z" for i
    using peval_inverse [OF F(1,2,4), of i] F by (simp add: quot_def mul_commute conv_in in_field_gpow gpow_in)
  then have "gsum (\<lambda>i. mul (quot c ?x i) (gpow ?z i)) ?v = parity_sum (even ?v) c ?z ?v"
    by (simp only: sum_of_pevals)
  also have "\<dots> = parity_sum (even ?v) c ?z (Suc ?v)" by (simp add: parity_sum_def)
  also have "\<dots> = parity_sum True c ?z (Suc ?v)"
    using located_roots [OF L m] parity_sum_peval [of c ?v ?z] by (cases "even ?v") simp_all
  finally show ?thesis using F by (simp add: parity_sum_deriv)
qed

lemma deriv_nonzero:
  assumes L: "located es zs c n k" and m: "m < length es"
  shows "deriv c (length es) (zs ! m) \<noteq> 0"
proof
  let ?x = "snd (es ! m)" and ?v = "length es"
  assume z: "deriv c ?v (zs ! m) = 0"
  have F: "in_field c" "?x \<in> carrier"
    using locatedD(4) [OF L] error_in [OF locatedD(1) [OF L] m] by auto
  obtain v where v: "?v = Suc v" using m by (cases ?v) auto
  have "quot c ?x 0 = 0"
  proof (rule peval_roots [OF located_zs_distinct [OF L] located_zs_set [OF L], of "quot c ?x" v 0])
    show "in_field (quot c ?x)" using F by (simp add: in_field_def quot_in)
    show "v < length zs" using v locatedD(2) [OF L] by simp
    fix r assume "r \<in> set zs"
    then obtain l where l: "l < ?v" "r = zs ! l" using locatedD(2) [OF L] by (metis in_set_conv_nth)
    then show "peval (quot c ?x) v r = 0"
      using quot_own [OF L m] z quot_other [OF L l(1) m] located_zs_in [OF L m] v
      unfolding peval_def by (cases "l = m") simp_all
  qed simp
  then show False using quot_0 [OF F(1)] locatedD(5) [OF L] by simp
qed

text \<open>Forney: the evaluator at the inverse locator is the error value times the derivative.\<close>

lemma forney:
  assumes L: "located es zs c n k" and m: "m < length es" and K: "length es \<le> K"
  shows "gsum (\<lambda>i. mul (conv c i (syndrome es) (Suc i)) (gpow (zs ! m) i)) K =
    mul (fst (es ! m)) (deriv c (length es) (zs ! m))"
proof -
  let ?v = "length es" and ?z = "zs ! m"
  let ?y = "\<lambda>l. fst (es ! l)" and ?x = "\<lambda>l. snd (es ! l)"
  have c: "in_field c" and es: "pattern_ok es" and z: "?z \<in> carrier" "inverse_of (?x m) ?z"
    using locatedD [OF L] located_zs_in [OF L m] m by auto
  have F: "l < ?v \<Longrightarrow> ?y l \<in> carrier" "l < ?v \<Longrightarrow> ?x l \<in> carrier" for l using error_in [OF es] by auto
  have entry: "mul (conv c i (syndrome es) (Suc i)) (gpow ?z i) =
      gsum (\<lambda>l. mul (mul (?y l) (?x l)) (mul (quot c (?x l) i) (gpow ?z i))) ?v" for i
  proof -
    have "conv c i (syndrome es) (Suc i) = gsum (\<lambda>l. mul (?y l) (conv c i (gpow (?x l)) (Suc i))) ?v"
      using conv_syndrome [OF es c, of i "Suc i"] by (simp add: xsum_gsum case_prod_unfold)
    also have "\<dots> = gsum (\<lambda>l. mul (mul (?y l) (?x l)) (quot c (?x l) i)) ?v"
      using F c conv_gpow [OF c, of _ i "Suc i"]
      by (intro gsum_cong) (simp add: quot_def mul_assoc conv_in in_field_gpow closed)
    finally have "mul (conv c i (syndrome es) (Suc i)) (gpow ?z i) =
        gsum (\<lambda>l. mul (mul (mul (?y l) (?x l)) (quot c (?x l) i)) (gpow ?z i)) ?v"
      using F c z by (simp add: gsum_mul quot_in closed)
    also have "\<dots> = gsum (\<lambda>l. mul (mul (?y l) (?x l)) (mul (quot c (?x l) i) (gpow ?z i))) ?v"
      using F c z by (intro gsum_cong) (simp add: mul_assoc quot_in closed)
    finally show ?thesis .
  qed
  have "gsum (\<lambda>i. mul (conv c i (syndrome es) (Suc i)) (gpow ?z i)) K =
      gsum (\<lambda>i. mul (conv c i (syndrome es) (Suc i)) (gpow ?z i)) ?v"
    using K F c z quot_beyond [OF L] by (intro gsum_extend) (auto simp: entry closed intro!: gsum_zero)
  also have "\<dots> = gsum (\<lambda>l. gsum (\<lambda>i. mul (mul (?y l) (?x l)) (mul (quot c (?x l) i) (gpow ?z i))) ?v) ?v"
    unfolding entry by (rule gsum_swap)
  also have "\<dots> = gsum (\<lambda>l. mul (mul (?y l) (?x l)) (gsum (\<lambda>i. mul (quot c (?x l) i) (gpow ?z i)) ?v)) ?v"
    using F c z by (intro gsum_cong) (simp add: mul_gsum quot_in closed)
  also have "\<dots> = mul (mul (?y m) (?x m)) (gsum (\<lambda>i. mul (quot c (?x m) i) (gpow ?z i)) ?v)"
    using m quot_other [OF L m] F by (intro gsum_single) (auto simp: closed)
  also have "\<dots> = mul (mul (?y m) (?x m)) (mul ?z (deriv c ?v ?z))"
    by (simp only: quot_own [OF L m])
  also have "\<dots> = mul (?y m) (mul (mul (?x m) ?z) (deriv c ?v ?z))"
  proof -
    have "deriv c ?v ?z \<in> carrier" unfolding deriv_def using c z by (intro gsum_in) (simp add: closed)
    then show ?thesis using F m z by (simp add: mul_assoc closed)
  qed
  also have "\<dots> = mul (?y m) (deriv c ?v ?z)"
  proof -
    have "deriv c ?v ?z \<in> carrier" unfolding deriv_def using c z by (intro gsum_in) (simp add: closed)
    then show ?thesis using z by (simp add: inverse_of_def)
  qed
  finally show ?thesis .
qed

end

end
