(* ===== verification/Gf64.thy ===== *)
theory Gf64
  imports Decoding
begin

section \<open>The field of 64 elements (tools/fec_tools.c)\<close>

text \<open>
  The multiplication \<open>gf6Mult\<close> of six bit symbols and the tables \<open>rsGFexp\<close> and \<open>rsGFlog\<close>.
  \<open>gf6Mult\<close> is proved to be the multiplication of a field whose primitive element is 2 (an
  interpretation of \<open>gf_mult\<close>), and the tables to be its powers and logarithms.
\<close>

definition rsGFexp :: "u32 list" where
  "rsGFexp = concat
    [[1, 2, 4, 8, 16, 32, 3, 6, 12, 24, 48, 35, 5, 10, 20, 40],
     [19, 38, 15, 30, 60, 59, 53, 41, 17, 34, 7, 14, 28, 56, 51, 37],
     [9, 18, 36, 11, 22, 44, 27, 54, 47, 29, 58, 55, 45, 25, 50, 39],
     [13, 26, 52, 43, 21, 42, 23, 46, 31, 62, 63, 61, 57, 49, 33, 0]]"

definition rsGFlog :: "u32 list" where
  "rsGFlog = concat
    [[63, 0, 1, 6, 2, 12, 7, 26, 3, 32, 13, 35, 8, 48, 27, 18],
     [4, 24, 33, 16, 14, 52, 36, 54, 9, 45, 49, 38, 28, 41, 19, 56],
     [5, 62, 25, 11, 34, 31, 17, 47, 15, 23, 53, 51, 37, 44, 55, 40],
     [10, 61, 46, 30, 50, 22, 39, 43, 29, 60, 42, 21, 20, 59, 57, 58]]"

text \<open>The loop keeps \<open>p\<close>, \<open>a\<close> and \<open>b\<close>; \<open>a <<= 1\<close> is the shift of a byte.\<close>

definition gf6_step :: "nat \<Rightarrow> u8 \<times> u8 \<times> u8 \<Rightarrow> u8 \<times> u8 \<times> u8" where
  "gf6_step i = (\<lambda>(p, a, b).
     let p = (if b AND 0x01 = 0x01 then p XOR a else p);
         a = push_bit 1 a;
         a = (if a AND 0x40 = 0x40 then a XOR 0x43 else a);
         b = drop_bit 1 b
     in (p, a, b))"

definition gf6Mult :: "u8 \<Rightarrow> u8 \<Rightarrow> u8" where
  "gf6Mult a b = fst (fold gf6_step [0..<6] (0x00, a, b))"

subsection \<open>Multiplication by the primitive element\<close>

definition xtime6 :: "u8 \<Rightarrow> u8" where
  "xtime6 a = push_bit 1 a XOR (if bit a 5 then 0x43 else 0)"

definition symbols :: "u8 set" where
  "symbols = {a. a < 64}"

lemma symbols_iff: "a \<in> symbols \<longleftrightarrow> a < 64"
  by (simp add: symbols_def)

lemma symbol_bits: "a < (64 :: u8) \<longleftrightarrow> (\<forall>i\<ge>6. \<not> bit a i)"
  using word_less_exp_bits [of 6 a] by simp

lemma xtime6_xor: "xtime6 (a XOR b) = xtime6 a XOR xtime6 b"
  by (auto simp: xtime6_def push_bit_xor bit_xor_iff ac_simps)

lemma bit_0x40: "bit (0x40 :: u8) n \<longleftrightarrow> n = 6"
  using bit_exp_iff [where 'a = u8, of 6 n] by (simp add: possible_bit_word) auto

lemma bit_0x43: "bit (0x43 :: u8) n \<longleftrightarrow> n \<in> {0, 1, 6}"
proof -
  have "(0x43 :: u8) = 0x40 XOR (2 XOR 1)" by simp
  then show ?thesis
    by (simp only: bit_xor_iff bit_0x40) (auto simp: bit_1_iff bit_2_iff)
qed

lemma xor_zero_if: "p XOR (if b then a else 0) = (if b then p XOR a else p)"
  by simp

lemma bit_xtime6: "bit (xtime6 a) n \<longleftrightarrow> n < 8 \<and> ((0 < n \<and> bit a (n - 1)) \<noteq> (bit a 5 \<and> n \<in> {0, 1, 6}))"
proof -
  have "bit (if bit a 5 then 0x43 else (0 :: u8)) n \<longleftrightarrow> bit a 5 \<and> n \<in> {0, 1, 6}"
    by (simp only: bit_0x43 bit_0_eq bot_apply split: if_split) simp
  then show ?thesis
    unfolding xtime6_def bit_xor_iff bit_push_bit_iff by (auto simp: possible_bit_word bit_imp_le_length)
qed

lemma xtime6_eq_0: "a < 64 \<Longrightarrow> xtime6 a = 0 \<Longrightarrow> a = 0"
proof -
  assume a: "a < 64" and z: "xtime6 a = 0"
  have "\<not> bit (xtime6 a) 0" "\<And>n. \<not> bit (xtime6 a) (Suc n)" using z by simp_all
  then have "\<not> bit a 5" "\<And>n. n < 7 \<Longrightarrow> \<not> bit a n"
    unfolding bit_xtime6 by auto (metis)?
  moreover have "\<not> bit a 7" using a by (auto simp: symbol_bits)
  ultimately show "a = 0" by (auto simp: word_eq_bits less_Suc_eq numeral_eq_Suc)
qed

subsection \<open>The product as a sum\<close>

lemma gf6_step_eq: "gf6_step i (p, a, b) = (p XOR (if bit b 0 then a else 0), xtime6 a, drop_bit 1 b)"
proof -
  have "b AND 0x01 = 0x01 \<longleftrightarrow> bit b 0"
    by (simp add: word_eq_bits bit_and_iff bit_1_iff all_less_8)
  moreover have "push_bit 1 a AND 0x40 = 0x40 \<longleftrightarrow> bit a 5"
    unfolding word_eq_bits bit_and_iff bit_0x40 bit_push_bit_iff by (simp add: all_less_8)
  ultimately show ?thesis unfolding gf6_step_def xtime6_def Let_def prod.case by (simp only: xor_zero_if)
qed

lemma gf6_fold:
  "fold gf6_step [0..<n] (p, a, b) =
    (p XOR gsum (\<lambda>i. if bit b i then (xtime6 ^^ i) a else 0) n, (xtime6 ^^ n) a, drop_bit n b)"
proof (induction n)
  case (Suc n)
  have "bit (drop_bit n b) 0 = bit b n" by (simp add: bit_drop_bit_eq)
  then show ?case
    unfolding fold_upt_Suc Suc gf6_step_eq by (simp add: ac_simps)
qed simp

lemma gf6Mult_sum: "gf6Mult a b = gsum (\<lambda>i. if bit b i then (xtime6 ^^ i) a else 0) 6"
  unfolding gf6Mult_def gf6_fold by simp

lemma xtime6_0 [simp]: "xtime6 0 = 0"
  by (simp add: xtime6_def)

lemma xtime6_gsum: "xtime6 (gsum f n) = gsum (\<lambda>i. xtime6 (f i)) n"
  by (induction n) (simp_all add: xtime6_xor)

lemma gf6Mult_xtime6: "gf6Mult (xtime6 a) b = xtime6 (gf6Mult a b)"
  unfolding gf6Mult_sum xtime6_gsum by (rule gsum_cong) (simp add: funpow_swap1)

lemma gf6Mult_power: "gf6Mult ((xtime6 ^^ k) a) b = (xtime6 ^^ k) (gf6Mult a b)"
  by (induction k) (simp_all add: gf6Mult_xtime6)

lemma xtime6_small: "a < 32 \<Longrightarrow> xtime6 a = push_bit 1 a"
proof -
  assume "a < 32"
  then have "\<not> bit a 5" using word_less_exp_bits [of 5 a] by simp
  then show ?thesis by (simp add: xtime6_def)
qed

lemma xtime6_powers: "i < 6 \<Longrightarrow> (xtime6 ^^ i) 1 = push_bit i (1 :: u8)"
proof (induction i)
  case (Suc i)
  have "push_bit i (1 :: u8) < 32"
  proof -
    have "i = 0 \<or> i = 1 \<or> i = 2 \<or> i = 3 \<or> i = 4" using Suc.prems by linarith
    then show ?thesis by auto
  qed
  then show ?case using Suc by (simp add: xtime6_small)
qed simp

lemma bit_gsum: "bit (gsum f n) k = (odd (card {i. i < n \<and> bit (f i) k}))"
proof (induction n)
  case (Suc n)
  have e: "{i. i < Suc n \<and> bit (f i) k} = {i. i < n \<and> bit (f i) k} \<union> (if bit (f n) k then {n} else {})"
    by (auto simp: less_Suc_eq)
  show ?case unfolding e using Suc by (simp add: bit_xor_iff)
qed simp

lemma gf6Mult_1: "b < 64 \<Longrightarrow> gf6Mult 1 b = b"
proof (rule bit_word_eqI)
  fix k assume b: "b < 64" and k: "k < LENGTH(8)"
  have "{i. i < 6 \<and> bit (if bit b i then (xtime6 ^^ i) 1 else 0) k} = (if bit b k then {k} else {})"
  proof -
    have own: "bit (if bit b i then (xtime6 ^^ i) 1 else 0) k \<longleftrightarrow> i = k \<and> bit b i" if "i < 6" for i
      using that k xtime6_powers [OF that] bit_push_bit_iff [of i "1 :: u8" k]
      by (auto simp: bit_1_iff simp del: push_bit_of_1)
    moreover have "bit b k \<Longrightarrow> k < 6" using b by (meson not_le symbol_bits)
    ultimately have "i < 6 \<and> bit (if bit b i then (xtime6 ^^ i) 1 else 0) k \<longleftrightarrow> i = k \<and> bit b k" for i
      by (cases "i < 6") (simp_all only:, blast+)
    then show ?thesis by auto
  qed
  then show "bit (gf6Mult 1 b) k = bit b k" unfolding gf6Mult_sum bit_gsum by simp
qed

subsection \<open>The tables are exponential and logarithm\<close>

fun powers6_ok :: "u8 \<Rightarrow> u32 list \<Rightarrow> bool" where
  "powers6_ok x [] = True"
| "powers6_ok x (e # es) = (e = ucast x \<and> powers6_ok (xtime6 x) es)"

lemma powers6_ok_nth: "powers6_ok x es \<Longrightarrow> k < length es \<Longrightarrow> es ! k = ucast ((xtime6 ^^ k) x)"
proof (induction es arbitrary: x k)
  case (Cons e es)
  then show ?case by (cases k) (auto simp: funpow_swap1)
qed simp

lemma rsGFexp_powers: "powers6_ok 1 (take 63 rsGFexp)"
  by (simp add: rsGFexp_def xtime6_def)

fun logs6_ok :: "u32 \<Rightarrow> u32 list \<Rightarrow> bool" where
  "logs6_ok a [] = True"
| "logs6_ok a (l # ls) = (rsGFexp ! unat l = a \<and> l < 63 \<and> logs6_ok (a + 1) ls)"

lemma logs6_ok_nth:
  "logs6_ok a ls \<Longrightarrow> k < length ls \<Longrightarrow> rsGFexp ! unat (ls ! k) = a + of_nat k \<and> ls ! k < 63"
proof (induction ls arbitrary: a k)
  case (Cons l ls)
  then show ?case by (cases k) (auto simp: algebra_simps)
qed simp

lemma rsGFlog_logs: "logs6_ok 1 (tl rsGFlog)"
  by (simp add: rsGFlog_def rsGFexp_def)

lemma length_tables6: "length rsGFexp = 64" "length rsGFlog = 64"
  by (simp_all add: rsGFexp_def rsGFlog_def)

lemma exp_entry: "k < 63 \<Longrightarrow> rsGFexp ! k = ucast ((xtime6 ^^ k) 1)"
  using powers6_ok_nth [OF rsGFexp_powers, of k] by (simp add: length_tables6)

lemma symbol_nat: "a < (64 :: u8) \<longleftrightarrow> unat a < 64"
  by (simp add: word_less_nat_alt)

lemma log_entry:
  fixes a :: u8
  assumes "a < 64" "a \<noteq> 0"
  shows "unat (rsGFlog ! unat a) < 63" "a = (xtime6 ^^ unat (rsGFlog ! unat a)) 1"
proof -
  obtain k where k: "unat a = Suc k" using assms by (metis not0_implies_Suc unat_eq_zero)
  have "rsGFexp ! unat (tl rsGFlog ! k) = 1 + of_nat k \<and> tl rsGFlog ! k < 63"
    using k assms by (intro logs6_ok_nth rsGFlog_logs) (simp add: length_tables6 symbol_nat)
  moreover have "tl rsGFlog ! k = rsGFlog ! unat a"
    using k assms by (simp add: nth_tl length_tables6 symbol_nat)
  moreover have "1 + of_nat k = (ucast a :: u32)"
    using arg_cong [OF k, of "of_nat :: nat \<Rightarrow> u32"] by simp
  ultimately have e: "rsGFexp ! unat (rsGFlog ! unat a) = ucast a" "rsGFlog ! unat a < 63" by simp_all
  from e(2) show l: "unat (rsGFlog ! unat a) < 63" by (simp add: word_less_nat_alt)
  show "a = (xtime6 ^^ unat (rsGFlog ! unat a)) 1" using exp_entry [OF l] e(1) by (metis ucast_byte_back)
qed

lemma xtime6_in: "a < 64 \<Longrightarrow> xtime6 a < 64"
proof -
  assume a: "a < 64"
  have "\<not> bit (xtime6 a) i" if i: "6 \<le> i" for i
  proof (cases "i = 6")
    case True
    then show ?thesis by (simp add: bit_xtime6)
  next
    case False
    then have "6 \<le> i - 1" using i by simp
    then have "\<not> bit a (i - 1)" using a by (simp only: symbol_bits) blast
    then show ?thesis using i False by (simp add: bit_xtime6)
  qed
  then show ?thesis by (simp only: symbol_bits) blast
qed

interpretation gf64: gf_mult gf6Mult xtime6 symbols
proof
  fix a b :: u8 and k :: nat
  show "0 \<in> symbols" "1 \<in> symbols" by (simp_all add: symbols_iff)
  show "a \<in> symbols \<Longrightarrow> b \<in> symbols \<Longrightarrow> a XOR b \<in> symbols" by (simp add: symbols_iff symbol_bits bit_xor_iff)
  show "a \<in> symbols \<Longrightarrow> xtime6 a \<in> symbols" by (simp add: symbols_iff xtime6_in)
  show "xtime6 (a XOR b) = xtime6 a XOR xtime6 b" by (rule xtime6_xor)
  show "xtime6 a = 0 \<Longrightarrow> a = 0" if "a \<in> symbols" using that by (auto simp: symbols_iff intro: xtime6_eq_0)
  show "a \<in> symbols \<Longrightarrow> a \<noteq> 0 \<Longrightarrow> \<exists>k. a = (xtime6 ^^ k) 1" using log_entry(2) symbols_iff by blast
  show "gf6Mult 0 b = 0"
  proof -
    have "(xtime6 ^^ i) 0 = 0" for i by (induction i) (simp_all add: xtime6_def)
    then show ?thesis by (simp add: gf6Mult_sum gsum_zero)
  qed
  show "b \<in> symbols \<Longrightarrow> gf6Mult ((xtime6 ^^ k) 1) b = (xtime6 ^^ k) b" by (simp add: symbols_iff gf6Mult_power gf6Mult_1)
qed

text \<open>The first 63 powers are distinct, and the 63rd is 1.\<close>

lemma card_symbols: "card symbols = 64"
proof -
  have "symbols = of_nat ` {..<64}"
  proof (intro equalityI subsetI)
    fix a :: u8 assume "a \<in> symbols"
    then have "a = of_nat (unat a)" "unat a \<in> {..<64}" by (simp_all add: symbols_iff symbol_nat)
    then show "a \<in> of_nat ` {..<64}" by (rule image_eqI)
  qed (auto simp: symbols_iff symbol_nat unat_of_nat)
  moreover have "inj_on (of_nat :: nat \<Rightarrow> u8) {..<64}"
    by (rule inj_on_subset [OF inj_on_word_of_nat]) auto
  ultimately show ?thesis using card_image [of "of_nat :: nat \<Rightarrow> u8" "{..<64}"] by simp
qed

lemma gf64_order: "inj_on (\<lambda>k. (xtime6 ^^ k) (1 :: u8)) {..<63}"
proof -
  have "(\<lambda>k. (xtime6 ^^ k) (1 :: u8)) ` {..<63} = symbols - {0}"
  proof (intro equalityI subsetI)
    fix a :: u8 assume "a \<in> symbols - {0}"
    then show "a \<in> (\<lambda>k. (xtime6 ^^ k) 1) ` {..<63}" using log_entry [of a] symbols_iff by blast
  next
    fix a assume "a \<in> (\<lambda>k. (xtime6 ^^ k) (1 :: u8)) ` {..<63}"
    then obtain k where "a = (xtime6 ^^ k) 1" by blast
    then show "a \<in> symbols - {0}"
      using gf64.iter_in [OF gf64.one_in, of k] gf64.iter_eq_0 [OF gf64.one_in, of k] by auto
  qed
  moreover have "card (symbols - {0}) = 63"
    using card_Diff_singleton [of 0 "symbols"] card_symbols gf64.zero_in by simp
  ultimately show ?thesis by (intro eq_card_imp_inj_on) simp_all
qed

lemma xtime6_cycle: "(xtime6 ^^ 63) (1 :: u8) = 1"
proof -
  have "ucast ((xtime6 ^^ 62) (1 :: u8)) = (33 :: u32)" using exp_entry [of 62] by (simp add: rsGFexp_def)
  then have "ucast (ucast ((xtime6 ^^ 62) (1 :: u8)) :: u32) = (33 :: u8)" by simp
  then have "(xtime6 ^^ 62) (1 :: u8) = 33" by (simp only: ucast_byte_back)
  then have "xtime6 ((xtime6 ^^ 62) (1 :: u8)) = xtime6 33" by simp
  then show ?thesis by (simp add: xtime6_def numeral_eq_Suc)
qed

lemma xtime6_mod: "(xtime6 ^^ (k mod 63)) (1 :: u8) = (xtime6 ^^ k) 1"
  by (rule funpow_mod_eq [OF xtime6_cycle])

end
