(* ===== verification/Rs6.thy ===== *)
theory Rs6
  imports Gf64
begin

section \<open>Reed-Solomon codes on six bit symbols (tools/fec_tools.c)\<close>

text \<open>
  The encoders of the (36,20,17), (24,16,9) and (24,12,13) codes with their matrices, and the
  decoder \<open>rs6Decode\<close> that the first two share, with the phases of the C function as
  definitions: tables, syndromes, Berlekamp-Massey, Chien search, evaluator, Forney, check.
  A word of \<open>n\<close> symbols is a packed buffer; symbol \<open>i\<close> starts at bit \<open>6 * i\<close>.
\<close>

subsection \<open>Encoding matrices\<close>

definition ENCODE_MATRIX_241213 :: "bytes list" where
  "ENCODE_MATRIX_241213 =
    [[1, 0, 0, 0, 0, 0, 0, 0, 0, 0, 0, 0, 50, 36, 3, 21, 12, 14, 23, 3, 43, 4, 30, 39],
     [0, 1, 0, 0, 0, 0, 0, 0, 0, 0, 0, 0, 9, 10, 9, 9, 14, 52, 55, 45, 1, 62, 22, 59],
     [0, 0, 1, 0, 0, 0, 0, 0, 0, 0, 0, 0, 3, 1, 5, 61, 12, 6, 16, 36, 54, 6, 56, 54],
     [0, 0, 0, 1, 0, 0, 0, 0, 0, 0, 0, 0, 17, 56, 23, 37, 14, 55, 19, 52, 59, 27, 36, 17],
     [0, 0, 0, 0, 1, 0, 0, 0, 0, 0, 0, 0, 24, 18, 3, 61, 13, 13, 27, 13, 41, 3, 43, 40],
     [0, 0, 0, 0, 0, 1, 0, 0, 0, 0, 0, 0, 1, 33, 23, 46, 62, 52, 17, 43, 4, 21, 1, 10],
     [0, 0, 0, 0, 0, 0, 1, 0, 0, 0, 0, 0, 49, 62, 17, 45, 62, 1, 51, 29, 24, 11, 52, 56],
     [0, 0, 0, 0, 0, 0, 0, 1, 0, 0, 0, 0, 20, 18, 57, 46, 17, 29, 59, 34, 47, 60, 35, 62],
     [0, 0, 0, 0, 0, 0, 0, 0, 1, 0, 0, 0, 58, 34, 5, 16, 35, 39, 27, 46, 1, 14, 11, 62],
     [0, 0, 0, 0, 0, 0, 0, 0, 0, 1, 0, 0, 58, 12, 53, 44, 29, 21, 33, 14, 13, 32, 57, 22],
     [0, 0, 0, 0, 0, 0, 0, 0, 0, 0, 1, 0, 59, 53, 30, 49, 34, 18, 15, 4, 36, 16, 21, 5],
     [0, 0, 0, 0, 0, 0, 0, 0, 0, 0, 0, 1, 57, 5, 45, 3, 57, 28, 48, 9, 60, 2, 33, 40]]"

definition ENCODE_MATRIX_24169 :: "bytes list" where
  "ENCODE_MATRIX_24169 =
    [[1, 0, 0, 0, 0, 0, 0, 0, 0, 0, 0, 0, 0, 0, 0, 0, 41, 37, 55, 13, 52, 55, 42, 10],
     [0, 1, 0, 0, 0, 0, 0, 0, 0, 0, 0, 0, 0, 0, 0, 0, 47, 21, 51, 59, 57, 18, 32, 13],
     [0, 0, 1, 0, 0, 0, 0, 0, 0, 0, 0, 0, 0, 0, 0, 0, 5, 1, 25, 4, 14, 44, 21, 62],
     [0, 0, 0, 1, 0, 0, 0, 0, 0, 0, 0, 0, 0, 0, 0, 0, 59, 7, 39, 12, 33, 63, 39, 9],
     [0, 0, 0, 0, 1, 0, 0, 0, 0, 0, 0, 0, 0, 0, 0, 0, 61, 13, 41, 41, 15, 55, 15, 47],
     [0, 0, 0, 0, 0, 1, 0, 0, 0, 0, 0, 0, 0, 0, 0, 0, 16, 26, 12, 34, 61, 34, 56, 44],
     [0, 0, 0, 0, 0, 0, 1, 0, 0, 0, 0, 0, 0, 0, 0, 0, 2, 61, 35, 5, 1, 32, 10, 52],
     [0, 0, 0, 0, 0, 0, 0, 1, 0, 0, 0, 0, 0, 0, 0, 0, 20, 60, 13, 58, 20, 22, 60, 49],
     [0, 0, 0, 0, 0, 0, 0, 0, 1, 0, 0, 0, 0, 0, 0, 0, 34, 52, 7, 18, 49, 16, 32, 53],
     [0, 0, 0, 0, 0, 0, 0, 0, 0, 1, 0, 0, 0, 0, 0, 0, 26, 26, 45, 33, 47, 54, 17, 63],
     [0, 0, 0, 0, 0, 0, 0, 0, 0, 0, 1, 0, 0, 0, 0, 0, 53, 30, 21, 7, 40, 14, 32, 41],
     [0, 0, 0, 0, 0, 0, 0, 0, 0, 0, 0, 1, 0, 0, 0, 0, 52, 6, 44, 26, 62, 38, 12, 30],
     [0, 0, 0, 0, 0, 0, 0, 0, 0, 0, 0, 0, 1, 0, 0, 0, 50, 51, 60, 56, 5, 23, 31, 38],
     [0, 0, 0, 0, 0, 0, 0, 0, 0, 0, 0, 0, 0, 1, 0, 0, 45, 35, 28, 57, 47, 62, 40, 52],
     [0, 0, 0, 0, 0, 0, 0, 0, 0, 0, 0, 0, 0, 0, 1, 0, 20, 19, 19, 5, 40, 56, 34, 19],
     [0, 0, 0, 0, 0, 0, 0, 0, 0, 0, 0, 0, 0, 0, 0, 1, 55, 61, 37, 48, 47, 20, 6, 22]]"

definition ENCODE_MATRIX_362017 :: "bytes list" where
  "ENCODE_MATRIX_362017 =
    [[1, 0, 0, 0, 0, 0, 0, 0, 0, 0, 0, 0, 0, 0, 0, 0, 0, 0, 0, 0, 60, 31, 28, 6, 2, 7, 36, 52, 22, 12, 22, 36, 44, 11, 63, 5],
     [0, 1, 0, 0, 0, 0, 0, 0, 0, 0, 0, 0, 0, 0, 0, 0, 0, 0, 0, 0, 4, 15, 40, 20, 9, 5, 24, 47, 27, 3, 2, 2, 13, 14, 21, 22],
     [0, 0, 1, 0, 0, 0, 0, 0, 0, 0, 0, 0, 0, 0, 0, 0, 0, 0, 0, 0, 7, 19, 31, 38, 46, 61, 35, 37, 45, 17, 40, 25, 37, 23, 57, 50],
     [0, 0, 0, 1, 0, 0, 0, 0, 0, 0, 0, 0, 0, 0, 0, 0, 0, 0, 0, 0, 22, 5, 7, 51, 51, 23, 51, 32, 6, 4, 32, 37, 39, 24, 61, 7],
     [0, 0, 0, 0, 1, 0, 0, 0, 0, 0, 0, 0, 0, 0, 0, 0, 0, 0, 0, 0, 19, 59, 59, 33, 58, 28, 17, 41, 55, 14, 25, 60, 9, 17, 10, 17],
     [0, 0, 0, 0, 0, 1, 0, 0, 0, 0, 0, 0, 0, 0, 0, 0, 0, 0, 0, 0, 20, 41, 21, 19, 18, 33, 60, 54, 60, 53, 56, 30, 55, 37, 52, 1],
     [0, 0, 0, 0, 0, 0, 1, 0, 0, 0, 0, 0, 0, 0, 0, 0, 0, 0, 0, 0, 42, 27, 12, 2, 16, 6, 12, 21, 42, 19, 29, 60, 61, 61, 35, 23],
     [0, 0, 0, 0, 0, 0, 0, 1, 0, 0, 0, 0, 0, 0, 0, 0, 0, 0, 0, 0, 45, 50, 46, 21, 59, 48, 13, 24, 11, 15, 16, 2, 56, 45, 12, 39],
     [0, 0, 0, 0, 0, 0, 0, 0, 1, 0, 0, 0, 0, 0, 0, 0, 0, 0, 0, 0, 44, 41, 26, 53, 63, 10, 44, 11, 29, 26, 46, 10, 61, 1, 58, 51],
     [0, 0, 0, 0, 0, 0, 0, 0, 0, 1, 0, 0, 0, 0, 0, 0, 0, 0, 0, 0, 60, 33, 24, 33, 35, 18, 41, 6, 52, 27, 3, 39, 23, 10, 45, 39],
     [0, 0, 0, 0, 0, 0, 0, 0, 0, 0, 1, 0, 0, 0, 0, 0, 0, 0, 0, 0, 44, 56, 9, 3, 11, 18, 14, 47, 3, 37, 58, 25, 24, 46, 29, 18],
     [0, 0, 0, 0, 0, 0, 0, 0, 0, 0, 0, 1, 0, 0, 0, 0, 0, 0, 0, 0, 41, 7, 58, 24, 53, 44, 6, 17, 30, 51, 40, 49, 52, 42, 1, 48],
     [0, 0, 0, 0, 0, 0, 0, 0, 0, 0, 0, 0, 1, 0, 0, 0, 0, 0, 0, 0, 1, 53, 26, 56, 11, 36, 59, 20, 10, 42, 17, 45, 10, 29, 12, 58],
     [0, 0, 0, 0, 0, 0, 0, 0, 0, 0, 0, 0, 0, 1, 0, 0, 0, 0, 0, 0, 9, 56, 5, 8, 53, 20, 13, 63, 18, 20, 20, 60, 7, 36, 7, 38],
     [0, 0, 0, 0, 0, 0, 0, 0, 0, 0, 0, 0, 0, 0, 1, 0, 0, 0, 0, 0, 6, 2, 53, 9, 33, 16, 37, 34, 38, 44, 29, 10, 32, 52, 53, 27],
     [0, 0, 0, 0, 0, 0, 0, 0, 0, 0, 0, 0, 0, 0, 0, 1, 0, 0, 0, 0, 28, 25, 1, 13, 36, 52, 14, 20, 42, 14, 6, 50, 16, 11, 45, 47],
     [0, 0, 0, 0, 0, 0, 0, 0, 0, 0, 0, 0, 0, 0, 0, 0, 1, 0, 0, 0, 51, 35, 21, 36, 63, 51, 15, 15, 52, 12, 32, 60, 25, 58, 44, 6],
     [0, 0, 0, 0, 0, 0, 0, 0, 0, 0, 0, 0, 0, 0, 0, 0, 0, 1, 0, 0, 57, 17, 56, 36, 46, 4, 24, 60, 4, 19, 57, 56, 51, 37, 46, 35],
     [0, 0, 0, 0, 0, 0, 0, 0, 0, 0, 0, 0, 0, 0, 0, 0, 0, 0, 1, 0, 2, 1, 43, 60, 2, 12, 42, 60, 10, 47, 20, 51, 13, 34, 42, 27],
     [0, 0, 0, 0, 0, 0, 0, 0, 0, 0, 0, 0, 0, 0, 0, 0, 0, 0, 0, 1, 28, 29, 2, 19, 17, 23, 18, 27, 52, 34, 5, 59, 41, 38, 59, 48]]"

definition ENCODE_MATRIX :: "bytes list" where
  "ENCODE_MATRIX =
    [[1, 0, 0, 0, 0, 0, 0, 0, 0, 0, 0, 0, 50, 36, 3, 21, 12, 14, 23, 3, 43, 4, 30, 39],
     [0, 1, 0, 0, 0, 0, 0, 0, 0, 0, 0, 0, 9, 10, 9, 9, 14, 52, 55, 45, 1, 62, 22, 59],
     [0, 0, 1, 0, 0, 0, 0, 0, 0, 0, 0, 0, 3, 1, 5, 61, 12, 6, 16, 36, 54, 6, 56, 54],
     [0, 0, 0, 1, 0, 0, 0, 0, 0, 0, 0, 0, 17, 56, 23, 37, 14, 55, 19, 52, 59, 27, 36, 17],
     [0, 0, 0, 0, 1, 0, 0, 0, 0, 0, 0, 0, 24, 18, 3, 61, 13, 13, 27, 13, 41, 3, 43, 40],
     [0, 0, 0, 0, 0, 1, 0, 0, 0, 0, 0, 0, 1, 33, 23, 46, 62, 52, 17, 43, 4, 21, 1, 10],
     [0, 0, 0, 0, 0, 0, 1, 0, 0, 0, 0, 0, 49, 62, 17, 45, 62, 1, 51, 29, 24, 11, 52, 56],
     [0, 0, 0, 0, 0, 0, 0, 1, 0, 0, 0, 0, 20, 18, 57, 46, 17, 29, 59, 34, 47, 60, 35, 62],
     [0, 0, 0, 0, 0, 0, 0, 0, 1, 0, 0, 0, 58, 34, 5, 16, 35, 39, 27, 46, 1, 14, 11, 62],
     [0, 0, 0, 0, 0, 0, 0, 0, 0, 1, 0, 0, 58, 12, 53, 44, 29, 21, 33, 14, 13, 32, 57, 22],
     [0, 0, 0, 0, 0, 0, 0, 0, 0, 0, 1, 0, 59, 53, 30, 49, 34, 18, 15, 4, 36, 16, 21, 5],
     [0, 0, 0, 0, 0, 0, 0, 0, 0, 0, 0, 1, 57, 5, 45, 3, 57, 28, 48, 9, 60, 2, 33, 40]]"

subsection \<open>Encoders\<close>

definition rs241213_encode :: "bytes \<Rightarrow> bytes" where
  "rs241213_encode data =
     (let codeword = map (\<lambda>i. fold (\<lambda>j c. c XOR gf6Mult (bin2Hex data (6 * j)) (ENCODE_MATRIX ! j ! i)) [0..<12] 0x00) [0..<24]
      in fold (\<lambda>i d. hex2Bin (codeword ! i) d (6 * i)) [0..<24] data)"

definition encode362017 :: "bytes \<Rightarrow> bytes" where
  "encode362017 data =
     (let codeword = map (\<lambda>i. fold (\<lambda>j c. c XOR gf6Mult (bin2Hex data (6 * j)) (ENCODE_MATRIX_362017 ! j ! i)) [0..<20] 0x00) [0..<36]
      in fold (\<lambda>i d. hex2Bin (codeword ! i) d (6 * i)) [0..<36] data)"

definition encode24169 :: "bytes \<Rightarrow> bytes" where
  "encode24169 data =
     (let codeword = map (\<lambda>i. fold (\<lambda>j c. c XOR gf6Mult (bin2Hex data (6 * j)) (ENCODE_MATRIX_24169 ! j ! i)) [0..<16] 0x00) [0..<24]
      in fold (\<lambda>i d. hex2Bin (codeword ! i) d (6 * i)) [0..<24] data)"

subsection \<open>The decoder\<close>

text \<open>Log and antilog tables; the C arrays start uninitialised and every entry read is written.\<close>

definition rs6_expTab :: bytes where
  "rs6_expTab = fold (\<lambda>i t. t[i := gf6Mult (t ! (i - 1)) 2]) [1..<63] ((replicate 63 0)[0 := 1])"

definition rs6_logTab :: bytes where
  "rs6_logTab = fold (\<lambda>i t. t[unat (rs6_expTab ! i) := of_nat i]) [0..<63] ((replicate 64 0)[0 := 0])"

definition rs6_symbols :: "bytes \<Rightarrow> nat \<Rightarrow> bytes" where
  "rs6_symbols data n = map (\<lambda>i. bin2Hex data (6 * i)) [0..<n]"

definition rs6_store :: "bytes \<Rightarrow> nat \<Rightarrow> bytes \<Rightarrow> bytes" where
  "rs6_store cw n data = fold (\<lambda>i d. hex2Bin (cw ! i) d (6 * i)) [0..<n] data"

text \<open>The word evaluated at \<open>alpha ^ j\<close>; \<open>synd[0]\<close> is never read.\<close>

definition rs6_syndrome :: "bytes \<Rightarrow> nat \<Rightarrow> nat \<Rightarrow> u8" where
  "rs6_syndrome cw n j = fold (\<lambda>i r. gf6Mult r (rs6_expTab ! j) XOR cw ! i) [0..<n] 0"

definition rs6_syndromes :: "bytes \<Rightarrow> nat \<Rightarrow> nat \<Rightarrow> bytes \<times> bool" where
  "rs6_syndromes cw n par = fold (\<lambda>j (synd, allZero).
     let r = rs6_syndrome cw n j in (synd[j := r], allZero \<and> r = 0)) [1..<par + 1] (replicate 17 0, True)"

text \<open>An entry of the exponent table at a sum of logarithms.\<close>

definition rs6_term :: "u8 \<Rightarrow> nat \<Rightarrow> u8" where
  "rs6_term a e = rs6_expTab ! ((unat (rs6_logTab ! unat a) + e) mod 63)"

definition rs6_quot :: "u8 \<Rightarrow> u8 \<Rightarrow> u8" where
  "rs6_quot a b = rs6_expTab ! ((unat (rs6_logTab ! unat a) + 63 - unat (rs6_logTab ! unat b)) mod 63)"

record rs6_bm =
  bm_lambda :: bytes
  bm_prev :: bytes
  bm_L :: nat
  bm_m :: nat
  bm_b :: u8

definition rs6_bm_step :: "bytes \<Rightarrow> nat \<Rightarrow> rs6_bm \<Rightarrow> rs6_bm" where
  "rs6_bm_step synd k s =
     (let d = fold (\<lambda>i d. d XOR gf6Mult (bm_lambda s ! i) (synd ! (k + 1 - i))) [1..<bm_L s + 1] (synd ! (k + 1))
      in if d = 0 then s\<lparr>bm_m := bm_m s + 1\<rparr>
         else
           let factor = rs6_quot d (bm_b s);
               temp = bm_lambda s;
               lambda = fold (\<lambda>i l. l[i + bm_m s := l ! (i + bm_m s) XOR gf6Mult factor (bm_prev s ! i)])
                 [0..<18 - bm_m s] (bm_lambda s)
           in if 2 * bm_L s \<le> k
              then \<lparr>bm_lambda = lambda, bm_prev = temp, bm_L = k + 1 - bm_L s, bm_m = 1, bm_b = d\<rparr>
              else s\<lparr>bm_lambda := lambda, bm_m := bm_m s + 1\<rparr>)"

definition rs6_berlekamp :: "bytes \<Rightarrow> nat \<Rightarrow> rs6_bm" where
  "rs6_berlekamp synd par = fold (rs6_bm_step synd) [0..<par]
     \<lparr>bm_lambda = (replicate 18 0)[0 := 1], bm_prev = (replicate 18 0)[0 := 1], bm_L = 0, bm_m = 1, bm_b = 1\<rparr>"

text \<open>The logarithm of the inverse locator of symbol \<open>i\<close>, and the locator polynomial there.\<close>

definition rs6_xinv :: "nat \<Rightarrow> nat \<Rightarrow> nat" where
  "rs6_xinv n i = (63 - (n - 1 - i)) mod 63"

definition rs6_value :: "bytes \<Rightarrow> nat \<Rightarrow> nat \<Rightarrow> u8" where
  "rs6_value lambda L xinv =
     fold (\<lambda>k v. if lambda ! k \<noteq> 0 then v XOR rs6_term (lambda ! k) (k * xinv) else v) [0..<L + 1] 0"

text \<open>The positions found are \<open>errPos[0..numErr)\<close>; \<open>None\<close> is the early return.\<close>

definition rs6_chien :: "bytes \<Rightarrow> nat \<Rightarrow> nat \<Rightarrow> nat \<Rightarrow> nat list option" where
  "rs6_chien lambda L n maxErr = fold (\<lambda>i found. case found of None \<Rightarrow> None
     | Some errPos \<Rightarrow>
         if rs6_value lambda L (rs6_xinv n i) = 0
         then (if maxErr \<le> length errPos then None else Some (errPos @ [i]))
         else Some errPos) [0..<n] (Some [])"

definition rs6_omega :: "bytes \<Rightarrow> nat \<Rightarrow> bytes \<Rightarrow> nat \<Rightarrow> bytes" where
  "rs6_omega lambda L synd par =
     map (\<lambda>i. fold (\<lambda>k v. v XOR gf6Mult (lambda ! k) (synd ! (i - k + 1))) [0..<min i L + 1] 0) [0..<par]"

definition rs6_num :: "bytes \<Rightarrow> nat \<Rightarrow> nat \<Rightarrow> u8" where
  "rs6_num omega par xinv =
     fold (\<lambda>k v. if omega ! k \<noteq> 0 then v XOR rs6_term (omega ! k) (k * xinv) else v) [0..<par] 0"

text \<open>The loop of the derivative runs over the odd indices up to \<open>L\<close>.\<close>

definition rs6_den :: "bytes \<Rightarrow> nat \<Rightarrow> nat \<Rightarrow> u8" where
  "rs6_den lambda L xinv =
     fold (\<lambda>k v. if lambda ! k \<noteq> 0 then v XOR rs6_term (lambda ! k) ((k - 1) * xinv) else v)
       (filter odd [1..<L + 1]) 0"

definition rs6_forney :: "bytes \<Rightarrow> nat \<Rightarrow> bytes \<Rightarrow> nat \<Rightarrow> nat \<Rightarrow> nat list \<Rightarrow> bytes \<Rightarrow> bytes option" where
  "rs6_forney lambda L omega n par errPos cw = fold (\<lambda>pos r. case r of None \<Rightarrow> None
     | Some cw \<Rightarrow>
         let xinv = rs6_xinv n pos;
             num = rs6_num omega par xinv;
             den = rs6_den lambda L xinv
         in if den = 0 then None
            else Some (if num \<noteq> 0 then cw[pos := cw ! pos XOR rs6_quot num den] else cw)) errPos (Some cw)"

definition rs6Decode :: "bytes \<Rightarrow> nat \<Rightarrow> nat \<Rightarrow> bool \<times> bytes" where
  "rs6Decode data n par =
     (let maxErr = par div 2;
          cw = rs6_symbols data n;
          (synd, allZero) = rs6_syndromes cw n par
      in if allZero then (True, data)
         else
           let s = rs6_berlekamp synd par
           in if bm_L s > maxErr then (False, data)
              else case rs6_chien (bm_lambda s) (bm_L s) n maxErr of None \<Rightarrow> (False, data)
              | Some errPos \<Rightarrow>
                  if length errPos \<noteq> bm_L s then (False, data)
                  else
                    let omega = rs6_omega (bm_lambda s) (bm_L s) synd par
                    in case rs6_forney (bm_lambda s) (bm_L s) omega n par errPos cw of None \<Rightarrow> (False, data)
                       | Some cw \<Rightarrow>
                           if (\<forall>j\<in>set [1..<par + 1]. rs6_syndrome cw n j = 0) then (True, rs6_store cw n data)
                           else (False, data))"

definition decode362017 :: "bytes \<Rightarrow> bool \<times> bytes" where
  "decode362017 data = rs6Decode data 36 16"

definition decode24169 :: "bytes \<Rightarrow> bool \<times> bytes" where
  "decode24169 data = rs6Decode data 24 8"

end
