(* ===== verification/Rs6Code.thy ===== *)
theory Rs6Code
  imports Rs6
begin

section \<open>Correctness of the codes on six bit symbols\<close>

text \<open>
  \<open>rs6Decode\<close> is related to the abstract decoding theory: its tables are the powers and
  logarithms of the primitive element, its Berlekamp-Massey loop keeps the invariant
  \<open>bm_inv\<close>, its Chien search finds the error positions and its Forney loop the values.
\<close>

abbreviation alpha :: "nat \<Rightarrow> u8" where
  "alpha k \<equiv> (xtime6 ^^ k) 1"

subsection \<open>Tables\<close>

lemma alpha_in [simp]: "alpha k \<in> symbols"
  by (rule gf64.iter_in [OF gf64.one_in])

lemma alpha_less [simp]: "alpha k < 64"
  using alpha_in symbols_iff by blast

lemma alpha_nz [simp]: "alpha k \<noteq> 0"
  using gf64.iter_eq_0 [OF gf64.one_in, of k] by auto

lemma alpha_mult: "gf6Mult (alpha i) (alpha j) = alpha (i + j)"
  by (rule gf64.power_mul)

lemma alpha_mod [simp]: "alpha (k mod 63) = alpha k"
  by (rule xtime6_mod)

lemma alpha_cong: "i mod 63 = j mod 63 \<Longrightarrow> alpha i = alpha j"
  using alpha_mod by metis

lemma alpha_inject: "i < 63 \<Longrightarrow> j < 63 \<Longrightarrow> alpha i = alpha j \<Longrightarrow> i = j"
  using inj_onD [OF gf64_order, of i j] by simp

lemma alpha_gpow: "gf64.gpow (alpha i) n = alpha (i * n)"
  by (rule gf64.gpow_power)

lemma mult_2: "a \<in> symbols \<Longrightarrow> gf6Mult a 2 = xtime6 a"
proof -
  assume a: "a \<in> symbols"
  have two: "alpha 1 = 2" by (simp add: xtime6_def)
  have "gf6Mult a 2 = gf6Mult (alpha 1) a"
    unfolding two [symmetric] using a by (intro gf64.mul_commute alpha_in)
  then show ?thesis using a gf64.mul_power [of a 1] by simp
qed

lemma expTab_fold:
  "m \<le> 62 \<Longrightarrow> length (fold (\<lambda>i t. t[i := gf6Mult (t ! (i - 1)) 2]) [1..<Suc m] ((replicate 63 0)[0 := 1])) = 63 \<and>
    (\<forall>k\<le>m. fold (\<lambda>i t. t[i := gf6Mult (t ! (i - 1)) 2]) [1..<Suc m] ((replicate 63 0)[0 := 1]) ! k = alpha k)"
proof (induction m)
  case (Suc m)
  let ?t = "fold (\<lambda>i t. t[i := gf6Mult (t ! (i - 1)) 2]) [1..<Suc m] ((replicate 63 0)[0 := 1])"
  have IH: "length ?t = 63" "\<And>k. k \<le> m \<Longrightarrow> ?t ! k = alpha k" using Suc by simp_all
  have e: "fold (\<lambda>i t. t[i := gf6Mult (t ! (i - 1)) 2]) [1..<Suc (Suc m)] ((replicate 63 0)[0 := 1]) =
      ?t[Suc m := gf6Mult (?t ! m) 2]"
    by (subst upt_Suc) simp
  have "gf6Mult (?t ! m) 2 = alpha (Suc m)" using IH(2) [of m] by (simp add: mult_2)
  then show ?case
    unfolding e using IH Suc.prems by (auto simp: nth_list_update le_Suc_eq simp del: funpow.simps)
qed simp

lemma rs6_expTab: "length rs6_expTab = 63" "k < 63 \<Longrightarrow> rs6_expTab ! k = alpha k"
  using expTab_fold [of 62] unfolding rs6_expTab_def by (simp_all add: less_Suc_eq_le)

lemma alpha_unat_inject: "i < 63 \<Longrightarrow> j < 63 \<Longrightarrow> unat (alpha i) = unat (alpha j) \<longleftrightarrow> i = j"
  using alpha_inject by (auto simp: word_unat_eq_iff [symmetric])

lemma logTab_fold:
  "m \<le> 63 \<Longrightarrow> length (fold (\<lambda>i t. t[unat (rs6_expTab ! i) := of_nat i]) [0..<m] ((replicate 64 (0 :: u8))[0 := 0])) = 64 \<and>
    (\<forall>k<m. fold (\<lambda>i t. t[unat (rs6_expTab ! i) := of_nat i]) [0..<m] ((replicate 64 (0 :: u8))[0 := 0]) ! unat (alpha k) = of_nat k)"
proof (induction m)
  case (Suc m)
  let ?t = "fold (\<lambda>i t. t[unat (rs6_expTab ! i) := of_nat i]) [0..<m] ((replicate 64 (0 :: u8))[0 := 0])"
  have IH: "length ?t = 64" "\<And>k. k < m \<Longrightarrow> ?t ! unat (alpha k) = of_nat k" using Suc by simp_all
  have "unat (alpha k) < 64" for k using alpha_less [of k] by (simp only: symbol_nat)
  then show ?case
    unfolding fold_upt_Suc using IH Suc.prems alpha_unat_inject
    by (auto simp: rs6_expTab(2) nth_list_update less_Suc_eq)
qed simp

lemma rs6_logTab: "k < 63 \<Longrightarrow> unat (rs6_logTab ! unat (alpha k)) = k"
proof -
  assume k: "k < 63"
  then have "rs6_logTab ! unat (alpha k) = of_nat k"
    using logTab_fold [of 63] unfolding rs6_logTab_def by simp
  then show ?thesis using k by (simp add: unat_of_nat)
qed

lemma symbol_alpha: "a \<in> symbols \<Longrightarrow> a \<noteq> 0 \<Longrightarrow> \<exists>k<63. a = alpha k"
  using log_entry [of a] symbols_iff by blast

lemma rs6_log: "a \<in> symbols \<Longrightarrow> a \<noteq> 0 \<Longrightarrow> unat (rs6_logTab ! unat a) < 63 \<and> alpha (unat (rs6_logTab ! unat a)) = a"
  using symbol_alpha [of a] rs6_logTab by auto

lemma rs6_term: "a \<in> symbols \<Longrightarrow> a \<noteq> 0 \<Longrightarrow> rs6_term a (k * x) = gf6Mult a (gf64.gpow (alpha x) k)"
  unfolding rs6_term_def using rs6_log [of a] alpha_mult [of "unat (rs6_logTab ! unat a)" "k * x"]
  by (simp add: rs6_expTab(2) alpha_gpow mult.commute)

lemma rs6_quot:
  assumes "a \<in> symbols" "a \<noteq> 0" "b \<in> symbols" "b \<noteq> 0"
  shows "rs6_quot a b \<in> symbols" "gf6Mult (rs6_quot a b) b = a"
proof -
  let ?a = "unat (rs6_logTab ! unat a)" and ?b = "unat (rs6_logTab ! unat b)"
  have l: "?a < 63" "?b < 63" "alpha ?a = a" "alpha ?b = b" using rs6_log assms by auto
  have q: "rs6_quot a b = alpha (?a + 63 - ?b)" by (simp add: rs6_quot_def rs6_expTab(2))
  then show "rs6_quot a b \<in> symbols" by simp
  have "gf6Mult (rs6_quot a b) b = alpha (?a + 63 - ?b + ?b)"
    using alpha_mult [of "?a + 63 - ?b" ?b] q l by simp
  also have "\<dots> = alpha ?a" using l by (intro alpha_cong) simp
  finally show "gf6Mult (rs6_quot a b) b = a" using l by simp
qed

lemma rs6_quot_unique:
  assumes "y \<in> symbols" "y \<noteq> 0" "b \<in> symbols" "b \<noteq> 0"
  shows "rs6_quot (gf6Mult y b) b = y"
proof -
  have m: "gf6Mult y b \<in> symbols" using gf64.mul_in [of y b] assms by simp
  have nz: "gf6Mult y b \<noteq> 0" using gf64.mul_eq_0 [of y b] assms by simp
  note q = rs6_quot [OF m nz assms(3,4)]
  have "gf6Mult b (rs6_quot (gf6Mult y b) b) = gf6Mult b y"
    using q assms gf64.mul_commute [of b] by simp
  then show ?thesis using gf64.mul_cancel [of b "rs6_quot (gf6Mult y b) b" y] q(1) assms by simp
qed

subsection \<open>Loops that sum\<close>

lemma fold_xor: "fold (\<lambda>k v. v XOR f k) ks v = v XOR xsum (map f ks)"
  by (induction ks arbitrary: v) (simp_all add: ac_simps)

lemma fold_xor_if:
  "fold (\<lambda>k v. if P k then v XOR f k else v) ks v = v XOR xsum (map (\<lambda>k. if P k then f k else 0) ks)"
  by (induction ks arbitrary: v) (simp_all add: ac_simps)

lemma fold_index: "fold (\<lambda>i r. f r (xs ! i)) [0..<length xs] r = fold (\<lambda>x r. f r x) xs r"
proof -
  have "fold (\<lambda>x r. f r x) (map ((!) xs) [0..<length xs]) r = fold (\<lambda>i r. f r (xs ! i)) [0..<length xs] r"
    by (simp add: fold_map o_def)
  then show ?thesis by (simp add: map_nth)
qed

text \<open>A coefficient array as a function.\<close>

definition nz :: "bytes \<Rightarrow> nat \<Rightarrow> u8" where
  "nz c i = (if i < length c then c ! i else 0)"

lemma nz_in: "set c \<subseteq> symbols \<Longrightarrow> gf64.in_field (nz c)"
  by (auto simp: gf64.in_field_def nz_def gf64.zero_in dest: nth_mem)

text \<open>The words the decoder is specified on: \<open>cw0\<close> sent, \<open>cw\<close> received.\<close>

definition rs6_diff :: "bytes \<Rightarrow> bytes \<Rightarrow> nat list" where
  "rs6_diff cw0 cw = filter (\<lambda>i. cw0 ! i \<noteq> cw ! i) [0..<length cw]"

definition rs6_errors :: "bytes \<Rightarrow> bytes \<Rightarrow> (u8 \<times> u8) list" where
  "rs6_errors cw0 cw = map (\<lambda>i. (cw0 ! i XOR cw ! i, alpha (length cw - 1 - i))) (rs6_diff cw0 cw)"

definition rs6_zs :: "bytes \<Rightarrow> bytes \<Rightarrow> bytes" where
  "rs6_zs cw0 cw = map (\<lambda>i. alpha (rs6_xinv (length cw) i)) (rs6_diff cw0 cw)"

definition rs6_word :: "nat \<Rightarrow> bytes \<Rightarrow> bool" where
  "rs6_word par cw \<longleftrightarrow> set cw \<subseteq> symbols \<and> (\<forall>j. 1 \<le> j \<and> j \<le> par \<longrightarrow> horner gf6Mult (alpha j) cw = 0)"

lemma rs6_pattern:
  assumes len: "length cw0 = length cw" "length cw \<le> 63" and F: "set cw0 \<subseteq> symbols" "set cw \<subseteq> symbols"
  shows "gf64.pattern_ok (rs6_errors cw0 cw)"
proof -
  have "inj_on (\<lambda>i. alpha (length cw - 1 - i)) {i. i < length cw \<and> P i}" for P
  proof (rule inj_onI)
    fix i i' assume i: "i \<in> {i. i < length cw \<and> P i}" "i' \<in> {i. i < length cw \<and> P i}"
      and e: "alpha (length cw - 1 - i) = alpha (length cw - 1 - i')"
    then have "length cw - 1 - i = length cw - 1 - i'" using len by (intro alpha_inject) auto
    then show "i = i'" using i by auto
  qed
  then have "distinct (map snd (rs6_errors cw0 cw))"
    by (simp add: rs6_errors_def rs6_diff_def o_def distinct_map atLeast0LessThan)
  moreover have "y \<in> symbols \<and> x \<in> symbols \<and> y \<noteq> 0 \<and> x \<noteq> 0" if yx: "(y, x) \<in> set (rs6_errors cw0 cw)" for y x
  proof -
    obtain i where i: "i < length cw" "cw0 ! i \<noteq> cw ! i" "y = cw0 ! i XOR cw ! i" "x = alpha (length cw - Suc i)"
      using yx by (auto simp: rs6_errors_def rs6_diff_def)
    have "cw0 ! i \<in> symbols" "cw ! i \<in> symbols"
      using F nth_mem [of i cw0] nth_mem [of i cw] i(1) len(1) by (simp_all only: subset_iff)
    then show ?thesis using i gf64.xor_in by simp
  qed
  ultimately show ?thesis by (auto simp: gf64.pattern_ok_def)
qed

lemma rs6_errors_syndrome:
  assumes len: "length cw0 = length cw" and F: "set cw \<subseteq> symbols" and sent: "rs6_word par cw0"
    and j: "1 \<le> j" "j \<le> par"
  shows "gf64.syndrome (rs6_errors cw0 cw) j = horner gf6Mult (alpha j) cw"
proof -
  let ?w = "map2 (XOR) cw0 cw" and ?n = "length cw"
  have F0: "set cw0 \<subseteq> symbols" "horner gf6Mult (alpha j) cw0 = 0" using sent j by (auto simp: rs6_word_def)
  have w: "set ?w \<subseteq> symbols"
    using F F0 gf64.xor_in by (force simp: set_zip dest: nth_mem)
  have "horner gf6Mult (alpha j) cw = horner gf6Mult (alpha j) ?w"
    using gf64.horner_xor [OF len alpha_in F0(1) F] F0(2) by simp
  also have "\<dots> = xsum (map (\<lambda>i. gf6Mult (?w ! i) (gf64.gpow (alpha j) (?n - 1 - i))) [0..<?n])"
    using gf64.horner_sum [OF alpha_in w] len by simp
  also have "\<dots> = xsum (map (\<lambda>i. gf6Mult (?w ! i) (gf64.gpow (alpha j) (?n - 1 - i))) (rs6_diff cw0 cw))"
    unfolding rs6_diff_def by (rule xsum_filter [symmetric]) (simp add: len)
  also have "\<dots> = gf64.syndrome (rs6_errors cw0 cw) j"
    unfolding gf64.syndrome_def rs6_errors_def map_map
    by (intro arg_cong [where f = xsum] map_cong refl)
      (simp add: rs6_diff_def len gf64.gpow_swap [of _ j])
  finally show ?thesis by simp
qed

lemma rs6_xinv:
  assumes "i < n" "n \<le> 63"
  shows "gf64.inverse_of (alpha (n - 1 - i)) (alpha (rs6_xinv n i))"
proof -
  have "gf6Mult (alpha (n - 1 - i)) (alpha (rs6_xinv n i)) = gf6Mult (alpha (n - 1 - i)) (alpha (63 - (n - 1 - i)))"
    by (simp add: rs6_xinv_def)
  also have "\<dots> = alpha 63" using assms by (simp add: alpha_mult)
  finally show ?thesis by (simp only: xtime6_cycle gf64.inverse_of_def alpha_in simp_thms)
qed

lemma rs6_located:
  assumes len: "length cw0 = length cw" "length cw \<le> 63" and F: "set cw \<subseteq> symbols" and sent: "rs6_word par cw0"
    and near: "2 * length (rs6_diff cw0 cw) \<le> par" and inv: "gf64.bm_inv (gf64.syndrome (rs6_errors cw0 cw)) par c n p m b"
    and n: "n \<le> length (rs6_diff cw0 cw)"
  shows "gf64.located (rs6_errors cw0 cw) (rs6_zs cw0 cw) c n par"
proof -
  have "gf64.pattern_ok (rs6_errors cw0 cw)" using rs6_pattern len F sent by (auto simp: rs6_word_def)
  moreover have "gf64.inverse_of (snd (rs6_errors cw0 cw ! i)) (rs6_zs cw0 cw ! i)" if "i < length (rs6_errors cw0 cw)" for i
  proof -
    have i: "i < length (rs6_diff cw0 cw)" using that by (simp add: rs6_errors_def)
    then have "rs6_diff cw0 cw ! i \<in> set (rs6_diff cw0 cw)" by (rule nth_mem)
    then have "rs6_diff cw0 cw ! i < length cw" by (simp add: rs6_diff_def)
    then show ?thesis using rs6_xinv [OF _ len(2)] i by (simp add: rs6_errors_def rs6_zs_def)
  qed
  ultimately show ?thesis
    using inv n near by (auto simp: gf64.located_def gf64.bm_inv_def rs6_errors_def rs6_zs_def)
qed

lemma rs6_syndrome: "j < 63 \<Longrightarrow> rs6_syndrome cw (length cw) j = horner gf6Mult (alpha j) cw"
  unfolding rs6_syndrome_def horner_def
  using fold_index [of "\<lambda>r c. gf6Mult r (rs6_expTab ! j) XOR c" cw 0] by (simp add: rs6_expTab(2))

lemma rs6_syndromes_fold:
  "m \<le> 16 \<Longrightarrow> fold (\<lambda>j (synd, allZero). let r = f j in (synd[j := r], allZero \<and> r = 0)) [1..<m + 1] (replicate 17 0, True) =
    (map (\<lambda>j. if 1 \<le> j \<and> j \<le> m then f j else 0) [0..<17], \<forall>j. 1 \<le> j \<and> j \<le> m \<longrightarrow> f j = 0)"
proof (induction m)
  case 0
  then show ?case by (simp add: list_eq_iff_nth_eq nth_Cons' numeral_eq_Suc less_Suc_eq)
next
  case (Suc m)
  have e: "[1..<Suc m + 1] = [1..<m + 1] @ [Suc m]" by simp
  have "(map (\<lambda>j. if 1 \<le> j \<and> j \<le> m then f j else 0) [0..<17])[Suc m := f (Suc m)] =
      map (\<lambda>j. if 1 \<le> j \<and> j \<le> Suc m then f j else 0) [0..<17]"
    using Suc.prems by (auto simp: list_eq_iff_nth_eq nth_list_update nth_append le_Suc_eq)
  then show ?case unfolding e fold_append using Suc by (auto simp: Let_def le_Suc_eq)
qed

subsection \<open>Berlekamp-Massey\<close>

definition rs6_sim :: "(nat \<Rightarrow> u8) \<Rightarrow> nat \<Rightarrow> rs6_bm \<Rightarrow> bool" where
  "rs6_sim S k s \<longleftrightarrow> length (bm_lambda s) = 18 \<and> length (bm_prev s) = 18 \<and>
     gf64.bm_inv S k (nz (bm_lambda s)) (bm_L s) (nz (bm_prev s)) (bm_m s) (bm_b s)"

lemma rs6_sim_init: "rs6_sim S 0 \<lparr>bm_lambda = (replicate 18 0)[0 := 1], bm_prev = (replicate 18 0)[0 := 1], bm_L = 0, bm_m = Suc 0, bm_b = 1\<rparr>"
proof -
  have "nz ((replicate 18 0)[0 := 1]) = (\<lambda>i. if i = 0 then 1 else 0)"
    by (rule ext) (simp add: nz_def nth_list_update)
  then show ?thesis using gf64.bm_init [of S] by (simp add: rs6_sim_def del: list_update.simps)
qed

lemma discrepancy:
  assumes F: "gf64.in_field c" "gf64.in_field S" and c: "c 0 = 1" and L: "L \<le> k"
    and l: "\<And>i. i \<le> L \<Longrightarrow> lambda ! i = c i" and s: "\<And>j. 1 \<le> j \<Longrightarrow> j \<le> Suc k \<Longrightarrow> synd ! j = S j"
  shows "fold (\<lambda>i d. d XOR gf6Mult (lambda ! i) (synd ! (k + 1 - i))) [1..<L + 1] (synd ! (k + 1)) = gf64.conv c L S (Suc k)"
proof -
  have e: "[1..<L + 1] = map Suc [0..<L]" by (simp add: map_Suc_upt)
  have "xsum (map (\<lambda>i. gf6Mult (lambda ! i) (synd ! (k + 1 - i))) [1..<L + 1]) =
      gsum (\<lambda>i. gf6Mult (c (Suc i)) (S (Suc k - Suc i))) L"
    unfolding e map_map gsum_def using L l s by (intro arg_cong [where f = xsum] map_cong refl) simp
  moreover have "gf64.conv c L S (Suc k) = S (Suc k) XOR gsum (\<lambda>i. gf6Mult (c (Suc i)) (S (Suc k - Suc i))) L"
    unfolding gf64.conv_def gsum_first using c F by simp
  ultimately show ?thesis unfolding fold_xor using s [of "Suc k"] by simp
qed

lemma lambda_fold:
  "m + n \<le> length l \<Longrightarrow>
    length (fold (\<lambda>i l. l[i + m := l ! (i + m) XOR f i]) [0..<n] l) = length l \<and>
    (\<forall>j<length l. fold (\<lambda>i l. l[i + m := l ! (i + m) XOR f i]) [0..<n] l ! j =
      (if m \<le> j \<and> j < m + n then l ! j XOR f (j - m) else l ! j))"
  by (induction n) (auto simp: nth_list_update)

lemma lambda_fix:
  assumes l: "length l = 18" "length p = 18" and m: "m \<le> 18"
    and z: "\<And>i. 18 \<le> i \<Longrightarrow> gf64.bm_fix (nz l) (nz p) a m i = 0"
  shows "nz (fold (\<lambda>i l. l[i + m := l ! (i + m) XOR gf6Mult a (p ! i)]) [0..<18 - m] l) = gf64.bm_fix (nz l) (nz p) a m"
proof
  fix i
  have F: "length (fold (\<lambda>i l. l[i + m := l ! (i + m) XOR gf6Mult a (p ! i)]) [0..<18 - m] l) = 18"
    "\<And>j. j < 18 \<Longrightarrow> fold (\<lambda>i l. l[i + m := l ! (i + m) XOR gf6Mult a (p ! i)]) [0..<18 - m] l ! j =
      (if m \<le> j then l ! j XOR gf6Mult a (p ! (j - m)) else l ! j)"
    using lambda_fold [of m "18 - m" l "\<lambda>i. gf6Mult a (p ! i)"] l m by auto
  show "nz (fold (\<lambda>i l. l[i + m := l ! (i + m) XOR gf6Mult a (p ! i)]) [0..<18 - m] l) i = gf64.bm_fix (nz l) (nz p) a m i"
  proof (cases "i < 18")
    case True
    then show ?thesis using F l by (auto simp: nz_def gf64.bm_fix_def)
  next
    case False
    then show ?thesis using F(1) z [of i] by (simp add: nz_def)
  qed
qed

lemma rs6_bm_step:
  assumes sim: "rs6_sim S k s" and S: "gf64.in_field S" and k: "k < 16"
    and s: "\<And>j. 1 \<le> j \<Longrightarrow> j \<le> Suc k \<Longrightarrow> synd ! j = S j"
    and t: "bm_L s \<le> t" "\<And>c n p m b. gf64.bm_inv S k c n p m b \<Longrightarrow> gf64.conv c n S (Suc k) \<noteq> 0 \<Longrightarrow> Suc k - n \<le> t"
  shows "rs6_sim S (Suc k) (rs6_bm_step synd k s) \<and> bm_L (rs6_bm_step synd k s) \<le> t"
proof -
  obtain l p n m b where s_eq: "s = \<lparr>bm_lambda = l, bm_prev = p, bm_L = n, bm_m = m, bm_b = b\<rparr>" by (cases s)
  have inv: "gf64.bm_inv S k (nz l) n (nz p) m b" and len: "length l = 18" "length p = 18"
    using sim by (simp_all add: rs6_sim_def s_eq)
  have I: "gf64.in_field (nz l)" "nz l 0 = 1" "n \<le> k" "m \<le> Suc k" "b \<in> symbols" "b \<noteq> 0"
    using inv by (auto simp: gf64.bm_inv_def)
  let ?d = "gf64.conv (nz l) n S (Suc k)"
  have d: "fold (\<lambda>i d. d XOR gf6Mult (l ! i) (synd ! (k + 1 - i))) [1..<n + 1] (synd ! (k + 1)) = ?d"
    using I k len s by (intro discrepancy S) (auto simp: nz_def)
  have d_in: "?d \<in> symbols" using I(1) S by (rule gf64.conv_in)
  show ?thesis
  proof (cases "?d = 0")
    case True
    then show ?thesis
      using gf64.bm_step_zero [OF inv True] d len t by (simp add: rs6_bm_step_def rs6_sim_def s_eq)
  next
    case False
    let ?a = "rs6_quot ?d b" and ?n = "if 2 * n \<le> k then Suc k - n else n"
    have a: "?a \<in> symbols" "gf6Mult ?a b = ?d" using rs6_quot [of ?d b] False d_in I by simp_all
    have "\<forall>i>?n. gf64.bm_fix (nz l) (nz p) ?a m i = 0"
      using gf64.bm_step_fix [OF inv S refl False a, of ?n] by simp
    then have fix_l: "nz (fold (\<lambda>i l. l[i + m := l ! (i + m) XOR gf6Mult ?a (p ! i)]) [0..<18 - m] l) =
        gf64.bm_fix (nz l) (nz p) ?a m"
      using I k by (intro lambda_fix len) (auto split: if_splits)
    have len': "length (fold (\<lambda>i l. l[i + m := l ! (i + m) XOR gf6Mult ?a (p ! i)]) [0..<18 - m] l) = 18"
      using lambda_fold [of m "18 - m" l] len I k by simp
    show ?thesis
    proof (cases "2 * n \<le> k")
      case True
      then show ?thesis
        using gf64.bm_step_grow [OF inv S refl False a True] t(2) [OF inv False] False d fix_l len' len
        by (simp add: rs6_bm_step_def rs6_sim_def s_eq Let_def)
    next
      case short: False
      then show ?thesis
        using gf64.bm_step_short [OF inv S refl False a] t(1) False d fix_l len' len
        by (simp add: rs6_bm_step_def rs6_sim_def s_eq Let_def)
    qed
  qed
qed

lemma rs6_berlekamp:
  assumes es: "gf64.pattern_ok es" and par: "par \<le> 16"
    and s: "\<And>j. 1 \<le> j \<Longrightarrow> j \<le> par \<Longrightarrow> synd ! j = gf64.syndrome es j"
  shows "rs6_sim (gf64.syndrome es) par (rs6_berlekamp synd par) \<and> bm_L (rs6_berlekamp synd par) \<le> length es"
  unfolding rs6_berlekamp_def
proof (rule fold_upt_inv [where P = "\<lambda>k st. rs6_sim (gf64.syndrome es) k st \<and> bm_L st \<le> length es"])
  fix k st assume k: "k < par" "rs6_sim (gf64.syndrome es) k st \<and> bm_L st \<le> length es"
  have S: "gf64.in_field (gf64.syndrome es)" using gf64.syndrome_in [OF es] by (simp add: gf64.in_field_def)
  show "rs6_sim (gf64.syndrome es) (Suc k) (rs6_bm_step synd k st) \<and> bm_L (rs6_bm_step synd k st) \<le> length es"
  proof (rule rs6_bm_step [OF conjunct1 [OF k(2)] S])
    show "Suc k - n \<le> length es" if "gf64.bm_inv (gf64.syndrome es) k c n p m b" "gf64.conv c n (gf64.syndrome es) (Suc k) \<noteq> 0" for c n p m b
      by (rule gf64.bm_grow_bound [OF that(1) es that(2)])
  qed (use k par s in auto)
qed (simp add: rs6_sim_init del: list_update.simps)

subsection \<open>Chien search\<close>

text \<open>An array of coefficients of degree at most \<open>L\<close>.\<close>

lemma value_gsum:
  assumes c: "set c \<subseteq> symbols" "n \<le> length c"
  shows "fold (\<lambda>k v. if c ! k \<noteq> 0 then v XOR rs6_term (c ! k) (k * x) else v) [0..<n] 0 =
    gsum (\<lambda>i. gf6Mult (nz c i) (gf64.gpow (alpha x) i)) n"
proof -
  have "(if c ! k \<noteq> 0 then rs6_term (c ! k) (k * x) else 0) = gf6Mult (nz c k) (gf64.gpow (alpha x) k)" if "k < n" for k
  proof -
    have "c ! k \<in> symbols" using that c nth_mem [of k c] by (simp add: subset_iff)
    then show ?thesis using that c(2) rs6_term [of "c ! k" k x] by (simp add: nz_def)
  qed
  then show ?thesis
    unfolding fold_xor_if gsum_def by (simp, intro arg_cong [where f = xsum] map_cong refl) simp
qed

lemma rs6_value:
  "set lambda \<subseteq> symbols \<Longrightarrow> L < length lambda \<Longrightarrow> rs6_value lambda L x = gf64.peval (nz lambda) L (alpha x)"
  unfolding rs6_value_def gf64.peval_def using value_gsum [of lambda "Suc L" x] by simp

lemma rs6_den:
  assumes c: "set lambda \<subseteq> symbols" "L < length lambda"
  shows "rs6_den lambda L x = gf64.deriv (nz lambda) L (alpha x)"
proof -
  have e: "filter odd [1..<L + 1] = filter odd [0..<Suc L]"
    by (simp add: upt_conv_Cons del: upt_Suc)
  have "(if lambda ! k \<noteq> 0 then rs6_term (lambda ! k) ((k - 1) * x) else 0) =
      (if odd k then gf6Mult (nz lambda k) (gf64.gpow (alpha x) (k - 1)) else 0)" if "k < Suc L" "odd k" for k
  proof -
    have "lambda ! k \<in> symbols" using that c nth_mem [of k lambda] by (simp add: subset_iff)
    then show ?thesis using that c(2) rs6_term [of "lambda ! k" "k - 1" x] by (simp add: nz_def)
  qed
  then have "xsum (map (\<lambda>k. if lambda ! k \<noteq> 0 then rs6_term (lambda ! k) ((k - 1) * x) else 0) (filter odd [0..<Suc L])) =
      xsum (map (\<lambda>k. if odd k then gf6Mult (nz lambda k) (gf64.gpow (alpha x) (k - 1)) else 0) (filter odd [0..<Suc L]))"
    by (intro arg_cong [where f = xsum] map_cong refl) (simp del: upt_Suc)
  also have "\<dots> = gf64.deriv (nz lambda) L (alpha x)"
    unfolding gf64.deriv_def gsum_def by (rule xsum_filter) simp
  finally show ?thesis unfolding rs6_den_def fold_xor_if e by simp
qed

lemma rs6_chien:
  "rs6_chien lambda L n maxErr =
    (let errPos = filter (\<lambda>i. rs6_value lambda L (rs6_xinv n i) = 0) [0..<n]
     in if length errPos \<le> maxErr then Some errPos else None)"
proof -
  have e: "fold (\<lambda>i found. case found of None \<Rightarrow> None
     | Some errPos \<Rightarrow> if P i then (if maxErr \<le> length errPos then None else Some (errPos @ [i])) else Some errPos) [0..<m] (Some []) =
     (if length (filter P [0..<m]) \<le> maxErr then Some (filter P [0..<m]) else None)" for P and m :: nat
    by (induction m) auto
  show ?thesis unfolding rs6_chien_def Let_def by (rule e)
qed

lemma rs6_diff_mem: "i \<in> set (rs6_diff cw0 cw) \<longleftrightarrow> i < length cw \<and> cw0 ! i \<noteq> cw ! i"
  by (auto simp: rs6_diff_def)

lemma rs6_diff_index:
  assumes "i \<in> set (rs6_diff cw0 cw)"
  obtains k where "k < length (rs6_errors cw0 cw)" "rs6_diff cw0 cw ! k = i"
    "rs6_errors cw0 cw ! k = (cw0 ! i XOR cw ! i, alpha (length cw - 1 - i))" "rs6_zs cw0 cw ! k = alpha (rs6_xinv (length cw) i)"
proof -
  obtain k where "k < length (rs6_diff cw0 cw)" "rs6_diff cw0 cw ! k = i" using assms by (auto simp: in_set_conv_nth)
  then show thesis by (intro that [of k]) (simp_all add: rs6_errors_def rs6_zs_def)
qed

lemma rs6_root:
  assumes L: "gf64.located (rs6_errors cw0 cw) (rs6_zs cw0 cw) c n par" and len: "length cw \<le> 63" and i: "i < length cw"
  shows "gf64.peval c n (alpha (rs6_xinv (length cw) i)) = 0 \<longleftrightarrow> i \<in> set (rs6_diff cw0 cw)"
proof
  assume "gf64.peval c n (alpha (rs6_xinv (length cw) i)) = 0"
  then have "gf64.peval c (length (rs6_errors cw0 cw)) (alpha (rs6_xinv (length cw) i)) = 0"
    by (simp only: gf64.located_length [OF L])
  then have "alpha (rs6_xinv (length cw) i) \<in> set (rs6_zs cw0 cw)"
    using gf64.located_only_roots [OF L alpha_in] gf64.located_length [OF L] by simp
  then obtain i' where i': "i' \<in> set (rs6_diff cw0 cw)" "alpha (rs6_xinv (length cw) i) = alpha (rs6_xinv (length cw) i')"
    by (auto simp: rs6_zs_def)
  have l: "i' < length cw" using i'(1) by (simp add: rs6_diff_mem)
  have "alpha (length cw - 1 - i) = alpha (length cw - 1 - i')"
    using gf64.inverse_inject [OF alpha_in alpha_in rs6_xinv [OF i len]] rs6_xinv [OF l len] i'(2) by simp
  then have "length cw - 1 - i = length cw - 1 - i'" using len i l by (intro alpha_inject) auto
  then have "i = i'" using i l by simp
  then show "i \<in> set (rs6_diff cw0 cw)" using i'(1) by simp
next
  assume "i \<in> set (rs6_diff cw0 cw)"
  then obtain k where "k < length (rs6_errors cw0 cw)" "rs6_zs cw0 cw ! k = alpha (rs6_xinv (length cw) i)"
    by (rule rs6_diff_index)
  then show "gf64.peval c n (alpha (rs6_xinv (length cw) i)) = 0"
    using gf64.located_roots [OF L, of k] gf64.located_length [OF L] by simp
qed

subsection \<open>Error values\<close>

lemma rs6_omega:
  assumes c: "gf64.in_field S" "set lambda \<subseteq> symbols" "\<And>i. L < i \<Longrightarrow> nz lambda i = 0" "L < length lambda"
    and s: "\<And>j. 1 \<le> j \<Longrightarrow> j \<le> par \<Longrightarrow> synd ! j = S j" and i: "i < par"
  shows "rs6_omega lambda L synd par ! i = gf64.conv (nz lambda) i S (Suc i)"
proof -
  let ?m = "min i L"
  have "rs6_omega lambda L synd par ! i = gsum (\<lambda>k. gf6Mult (lambda ! k) (synd ! (i - k + 1))) (Suc ?m)"
    using i by (simp add: rs6_omega_def fold_xor gsum_def del: upt_Suc gsum_Suc)
  also have "\<dots> = gsum (\<lambda>k. gf6Mult (nz lambda k) (S (Suc i - k))) (Suc ?m)"
  proof (rule gsum_cong)
    fix k assume k: "k < Suc ?m"
    then have "synd ! (i - k + 1) = S (i - k + 1)" using i by (intro s) auto
    then show "gf6Mult (lambda ! k) (synd ! (i - k + 1)) = gf6Mult (nz lambda k) (S (Suc i - k))"
      using k c(4) by (auto simp: nz_def Suc_diff_le)
  qed
  also have "\<dots> = gf64.conv (nz lambda) i S (Suc i)"
    unfolding gf64.conv_def using c by (intro gsum_extend [symmetric]) auto
  finally show ?thesis .
qed

lemma forney_fold:
  "(\<And>pos. pos \<in> set ps \<Longrightarrow> d pos \<noteq> 0 \<and> (if u pos \<noteq> 0 then q pos else 0) = e pos) \<Longrightarrow>
    fold (\<lambda>pos r. case r of None \<Rightarrow> None | Some cw \<Rightarrow>
      if d pos = 0 then None else Some (if u pos \<noteq> 0 then cw[pos := cw ! pos XOR q pos] else cw)) ps (Some cw) =
    Some (fold (\<lambda>pos cw. cw[pos := cw ! pos XOR e pos]) ps cw)"
proof (induction ps arbitrary: cw)
  case (Cons p ps)
  have "d p \<noteq> 0" "(if u p \<noteq> 0 then cw[p := cw ! p XOR q p] else cw) = cw[p := cw ! p XOR e p]"
    using Cons.prems [of p] by (auto split: if_splits)
  then show ?case using Cons by simp
qed simp

lemma fold_repair:
  "distinct ps \<Longrightarrow> (\<And>i. i \<in> set ps \<Longrightarrow> i < length cw) \<Longrightarrow>
    length (fold (\<lambda>pos cw. cw[pos := cw ! pos XOR e pos]) ps cw) = length cw \<and>
    (\<forall>i<length cw. fold (\<lambda>pos cw. cw[pos := cw ! pos XOR e pos]) ps cw ! i = (if i \<in> set ps then cw ! i XOR e i else cw ! i))"
proof (induction ps arbitrary: cw)
  case (Cons p ps)
  then show ?case using Cons.IH [of "cw[p := cw ! p XOR e p]"] by (auto simp: nth_list_update)
qed simp

text \<open>The loop repairs every wrong symbol.\<close>

lemma rs6_forney:
  assumes len: "length cw0 = length cw" "length cw \<le> 63" and F: "set cw0 \<subseteq> symbols" "set cw \<subseteq> symbols"
    and L: "gf64.located (rs6_errors cw0 cw) (rs6_zs cw0 cw) (nz lambda) n par"
    and lam: "set lambda \<subseteq> symbols" "n < length lambda" and par: "length (rs6_diff cw0 cw) \<le> par"
    and s: "\<And>j. 1 \<le> j \<Longrightarrow> j \<le> par \<Longrightarrow> synd ! j = gf64.syndrome (rs6_errors cw0 cw) j"
  shows "rs6_forney lambda n (rs6_omega lambda n synd par) (length cw) par (rs6_diff cw0 cw) cw = Some cw0"
proof -
  let ?es = "rs6_errors cw0 cw" and ?om = "rs6_omega lambda n synd par"
  let ?e = "\<lambda>i. cw0 ! i XOR cw ! i" and ?x = "rs6_xinv (length cw)"
  have S: "gf64.in_field (gf64.syndrome ?es)"
    using gf64.syndrome_in [OF gf64.locatedD(1) [OF L]] by (simp add: gf64.in_field_def)
  have om: "?om ! i = gf64.conv (nz lambda) i (gf64.syndrome ?es) (Suc i)" if "i < par" for i
    using that lam by (intro rs6_omega S s gf64.locatedD(6) [OF L]) auto
  have om_in: "set ?om \<subseteq> symbols" "length ?om = par"
  proof -
    show l: "length ?om = par" by (simp add: rs6_omega_def)
    show "set ?om \<subseteq> symbols"
      using om gf64.conv_in [OF gf64.locatedD(4) [OF L] S] l by (auto simp: in_set_conv_nth)
  qed
  have entry: "rs6_den lambda n (?x pos) \<noteq> 0 \<and>
      (if rs6_num ?om par (?x pos) \<noteq> 0 then rs6_quot (rs6_num ?om par (?x pos)) (rs6_den lambda n (?x pos)) else 0) = ?e pos"
    if pos: "pos \<in> set (rs6_diff cw0 cw)" for pos
  proof -
    obtain k where k: "k < length ?es" "?es ! k = (?e pos, alpha (length cw - 1 - pos))" "rs6_zs cw0 cw ! k = alpha (?x pos)"
      using rs6_diff_index [OF pos] by metis
    have den: "rs6_den lambda n (?x pos) = gf64.deriv (nz lambda) (length ?es) (alpha (?x pos))"
      using rs6_den [OF lam] gf64.located_length [OF L] by simp
    have den_nz: "rs6_den lambda n (?x pos) \<noteq> 0" using gf64.deriv_nonzero [OF L k(1)] k(3) den by simp
    have den_in: "rs6_den lambda n (?x pos) \<in> symbols"
      unfolding den gf64.deriv_def using nz_in [OF lam(1)] by (intro gf64.gsum_in) (simp add: gf64.closed)
    have "rs6_num ?om par (?x pos) = gsum (\<lambda>i. gf6Mult (nz ?om i) (gf64.gpow (alpha (?x pos)) i)) par"
      unfolding rs6_num_def using om_in by (intro value_gsum) auto
    also have "\<dots> = gsum (\<lambda>i. gf6Mult (gf64.conv (nz lambda) i (gf64.syndrome ?es) (Suc i)) (gf64.gpow (alpha (?x pos)) i)) par"
      using om om_in(2) by (intro gsum_cong) (simp add: nz_def)
    also have "\<dots> = gf6Mult (?e pos) (rs6_den lambda n (?x pos))"
    proof -
      have "length ?es \<le> par" using par by (simp add: rs6_errors_def)
      from gf64.forney [OF L k(1) this] show ?thesis by (simp add: k den)
    qed
    finally have num: "rs6_num ?om par (?x pos) = gf6Mult (?e pos) (rs6_den lambda n (?x pos))" .
    have "?e pos \<in> symbols" "?e pos \<noteq> 0" using gf64.error_in [OF gf64.locatedD(1) [OF L] k(1)] k(2) by simp_all
    then show ?thesis
      unfolding num using rs6_quot_unique [of "?e pos"] den_nz den_in gf64.mul_eq_0 [of "?e pos"] by simp
  qed
  have d: "distinct (rs6_diff cw0 cw)" by (simp add: rs6_diff_def)
  have "rs6_forney lambda n ?om (length cw) par (rs6_diff cw0 cw) cw =
      Some (fold (\<lambda>pos cw. cw[pos := cw ! pos XOR ?e pos]) (rs6_diff cw0 cw) cw)"
    unfolding rs6_forney_def Let_def by (rule forney_fold) (rule entry)
  also have "fold (\<lambda>pos cw. cw[pos := cw ! pos XOR ?e pos]) (rs6_diff cw0 cw) cw = cw0"
    using fold_repair [OF d, of cw ?e] len(1)
    by (intro nth_equalityI) (auto simp: rs6_diff_mem ac_simps)
  finally show ?thesis .
qed

subsection \<open>The decoder\<close>

lemma rs6_syndromes:
  assumes "length cw \<le> 63" "par \<le> 16"
  shows "1 \<le> j \<Longrightarrow> j \<le> par \<Longrightarrow> fst (rs6_syndromes cw (length cw) par) ! j = horner gf6Mult (alpha j) cw"
    and "snd (rs6_syndromes cw (length cw) par) = (\<forall>j. 1 \<le> j \<and> j \<le> par \<longrightarrow> horner gf6Mult (alpha j) cw = 0)"
proof -
  have e: "rs6_syndromes cw (length cw) par =
      (map (\<lambda>j. if 1 \<le> j \<and> j \<le> par then rs6_syndrome cw (length cw) j else 0) [0..<17],
       \<forall>j. 1 \<le> j \<and> j \<le> par \<longrightarrow> rs6_syndrome cw (length cw) j = 0)"
    unfolding rs6_syndromes_def by (rule rs6_syndromes_fold [OF assms(2)])
  have s: "j \<le> par \<Longrightarrow> rs6_syndrome cw (length cw) j = horner gf6Mult (alpha j) cw" for j
    using assms(2) by (intro rs6_syndrome) simp
  show "1 \<le> j \<Longrightarrow> j \<le> par \<Longrightarrow> fst (rs6_syndromes cw (length cw) par) ! j = horner gf6Mult (alpha j) cw"
    using assms(2) s by (simp add: e del: upt_Suc)
  show "snd (rs6_syndromes cw (length cw) par) = (\<forall>j. 1 \<le> j \<and> j \<le> par \<longrightarrow> horner gf6Mult (alpha j) cw = 0)"
    using s by (auto simp: e)
qed

lemma rs6_symbols_in: "set (rs6_symbols data n) \<subseteq> symbols" "length (rs6_symbols data n) = n"
  by (auto simp: rs6_symbols_def symbols_iff bin2Hex_less)

text \<open>Up to \<open>par / 2\<close> wrong symbols are corrected.\<close>

lemma rs6Decode_corrects:
  assumes n: "n \<le> 63" and par: "par \<le> 16" and len: "length cw0 = n" and sent: "rs6_word par cw0"
    and near: "2 * length (rs6_diff cw0 (rs6_symbols data n)) \<le> par"
  shows "rs6Decode data n par = (True, if rs6_symbols data n = cw0 then data else rs6_store cw0 n data)"
proof -
  let ?cw = "rs6_symbols data n" and ?S = "gf64.syndrome (rs6_errors cw0 (rs6_symbols data n))"
  note cw = rs6_symbols_in [of data n]
  obtain synd z where syn: "rs6_syndromes ?cw n par = (synd, z)" by (cases "rs6_syndromes ?cw n par")
  have F0: "set cw0 \<subseteq> symbols" "\<And>j. 1 \<le> j \<Longrightarrow> j \<le> par \<Longrightarrow> horner gf6Mult (alpha j) cw0 = 0"
    using sent by (auto simp: rs6_word_def)
  have s: "synd ! j = ?S j" if "1 \<le> j" "j \<le> par" for j
    using rs6_syndromes(1) [of ?cw par j] rs6_errors_syndrome [of cw0 ?cw par j] syn that n par cw len sent by simp
  have z: "z \<longleftrightarrow> (\<forall>j. 1 \<le> j \<and> j \<le> par \<longrightarrow> horner gf6Mult (alpha j) ?cw = 0)"
    using rs6_syndromes(2) [of ?cw par] syn n par cw by simp
  have clean: "z \<longleftrightarrow> ?cw = cw0"
  proof
    assume z
    then have "horner gf6Mult (alpha j) cw0 = horner gf6Mult (alpha j) ?cw" if "1 \<le> j" "j \<le> par" for j
      using z F0(2) that by simp
    moreover have "length (filter (\<lambda>i. cw0 ! i \<noteq> ?cw ! i) [0..<n]) \<le> par"
      using near by (simp add: rs6_diff_def cw(2))
    moreover have "inj_on alpha {..<n}" by (rule inj_on_subset [OF gf64_order]) (use n in auto)
    ultimately show "?cw = cw0" using gf64.rs_distance [OF len cw(2) F0(1) cw(1)] by blast
  qed (use z F0 in blast)
  show ?thesis
  proof (cases z)
    case True
    then show ?thesis using syn clean by (simp add: rs6Decode_def)
  next
    case False
    let ?s = "rs6_berlekamp synd par"
    have es: "gf64.pattern_ok (rs6_errors cw0 ?cw)" using rs6_pattern [of cw0 ?cw] len cw n F0 by simp
    have bm: "rs6_sim ?S par ?s" "bm_L ?s \<le> length (rs6_diff cw0 ?cw)"
      using rs6_berlekamp [OF es par s] by (simp_all add: rs6_errors_def)
    have inv: "gf64.bm_inv ?S par (nz (bm_lambda ?s)) (bm_L ?s) (nz (bm_prev ?s)) (bm_m ?s) (bm_b ?s)"
      "length (bm_lambda ?s) = 18" using bm(1) by (auto simp: rs6_sim_def)
    have lam: "set (bm_lambda ?s) \<subseteq> symbols"
    proof
      fix a assume "a \<in> set (bm_lambda ?s)"
      then obtain i where "i < 18" "a = nz (bm_lambda ?s) i" using inv(2) by (auto simp: in_set_conv_nth nz_def)
      then show "a \<in> symbols" using inv(1) by (simp add: gf64.bm_inv_def)
    qed
    have L: "gf64.located (rs6_errors cw0 ?cw) (rs6_zs cw0 ?cw) (nz (bm_lambda ?s)) (bm_L ?s) par"
      using rs6_located [OF _ _ cw(1) sent near inv(1) bm(2)] len n cw(2) by simp
    have deg: "bm_L ?s = length (rs6_diff cw0 ?cw)"
      using gf64.located_length [OF L] by (simp add: rs6_errors_def)
    have Lb: "bm_L ?s \<le> par div 2" "bm_L ?s < length (bm_lambda ?s)" using bm(2) near par inv(2) by auto
    have "filter (\<lambda>i. rs6_value (bm_lambda ?s) (bm_L ?s) (rs6_xinv n i) = 0) [0..<n] = rs6_diff cw0 ?cw"
      unfolding rs6_diff_def cw(2)
    proof (rule filter_cong [OF refl])
      fix i assume "i \<in> set [0..<n]"
      then show "rs6_value (bm_lambda ?s) (bm_L ?s) (rs6_xinv n i) = 0 \<longleftrightarrow> cw0 ! i \<noteq> ?cw ! i"
        using rs6_root [OF L] n cw(2) rs6_value [OF lam Lb(2)] by (simp add: rs6_diff_mem)
    qed
    then have chien: "rs6_chien (bm_lambda ?s) (bm_L ?s) n (par div 2) = Some (rs6_diff cw0 ?cw)"
      using Lb(1) deg by (simp add: rs6_chien)
    have forney: "rs6_forney (bm_lambda ?s) (bm_L ?s) (rs6_omega (bm_lambda ?s) (bm_L ?s) synd par) n par (rs6_diff cw0 ?cw) ?cw = Some cw0"
      using rs6_forney [of cw0 ?cw, OF _ _ F0(1) cw(1) L lam Lb(2) _ s] len n cw(2) near by simp
    have check: "\<forall>j\<in>set [1..<par + 1]. rs6_syndrome cw0 n j = 0"
      using F0(2) rs6_syndrome [of _ cw0] len par by auto
    show ?thesis
      using False syn Lb(1) chien deg forney check clean by (simp add: rs6Decode_def del: upt_Suc)
  qed
qed

text \<open>Whatever is accepted is a code word at most \<open>par / 2\<close> symbols away.\<close>

lemma rs6_quot_in: "rs6_quot a b \<in> symbols"
  by (simp add: rs6_quot_def rs6_expTab(2))

lemma rs6_forney_near:
  assumes "rs6_forney lambda L omega n par ps cw = Some cw'" "set cw \<subseteq> symbols"
  shows "length cw' = length cw \<and> set cw' \<subseteq> symbols \<and> (\<forall>i. i \<notin> set ps \<longrightarrow> cw' ! i = cw ! i)"
proof -
  let ?step = "\<lambda>pos r. case r of None \<Rightarrow> None | Some cw \<Rightarrow>
         let xinv = rs6_xinv n pos; num = rs6_num omega par xinv; den = rs6_den lambda L xinv
         in if den = 0 then None
            else Some (if num \<noteq> 0 then cw[pos := cw ! pos XOR rs6_quot num den] else cw)"
  have none: "fold ?step ps None = None" for ps by (induction ps) auto
  have main: "fold ?step ps (Some cw) = Some cw' \<Longrightarrow> set cw \<subseteq> symbols \<Longrightarrow>
    length cw' = length cw \<and> set cw' \<subseteq> symbols \<and> (\<forall>i. i \<notin> set ps \<longrightarrow> cw' ! i = cw ! i)" for ps
  proof (induction ps arbitrary: cw)
    case (Cons p ps)
    obtain cw2 where cw2: "?step p (Some cw) = Some cw2" "fold ?step ps (Some cw2) = Some cw'"
      using Cons.prems(1) none by (cases "?step p (Some cw)") auto
    then have eq: "cw2 = cw \<or> (\<exists>q. q \<in> symbols \<and> cw2 = cw[p := cw ! p XOR q])"
      using rs6_quot_in by (auto simp: Let_def split: if_splits)
    have "set cw2 \<subseteq> symbols"
    proof (cases "p < length cw")
      case True
      then show ?thesis
        using eq Cons.prems(2) gf64.xor_in nth_mem [OF True] set_update_subset_insert [of cw p] by blast
    next
      case False
      then have "cw2 = cw" using eq by (metis list_update_beyond not_less)
      then show ?thesis using Cons.prems(2) by simp
    qed
    with Cons.IH [OF cw2(2)] eq show ?case by auto
  qed simp
  show ?thesis by (rule main [OF assms(1) [unfolded rs6_forney_def] assms(2)])
qed

lemma rs6Decode_sound:
  assumes n: "n \<le> 63" and par: "par \<le> 16"
  shows "fst (rs6Decode data n par) \<Longrightarrow>
    (\<exists>cw. length cw = n \<and> rs6_word par cw \<and> 2 * length (rs6_diff cw (rs6_symbols data n)) \<le> par)"
    and "\<not> fst (rs6Decode data n par) \<Longrightarrow> snd (rs6Decode data n par) = data"
proof -
  let ?cw = "rs6_symbols data n"
  note cw = rs6_symbols_in [of data n]
  obtain synd z where syn: "rs6_syndromes ?cw n par = (synd, z)" by (cases "rs6_syndromes ?cw n par")
  let ?s = "rs6_berlekamp synd par"
  show "\<not> fst (rs6Decode data n par) \<Longrightarrow> snd (rs6Decode data n par) = data"
    using syn by (auto simp: rs6Decode_def Let_def split: if_splits option.splits)
  assume ok: "fst (rs6Decode data n par)"
  show "\<exists>cw. length cw = n \<and> rs6_word par cw \<and> 2 * length (rs6_diff cw ?cw) \<le> par"
  proof (cases z)
    case True
    then have "rs6_word par ?cw"
      using rs6_syndromes(2) [of ?cw par] syn n par cw by (simp add: rs6_word_def)
    then show ?thesis using cw by (intro exI [of _ ?cw]) (simp add: rs6_diff_def)
  next
    case False
    then obtain errPos cw' where e: "rs6_chien (bm_lambda ?s) (bm_L ?s) n (par div 2) = Some errPos"
      "rs6_forney (bm_lambda ?s) (bm_L ?s) (rs6_omega (bm_lambda ?s) (bm_L ?s) synd par) n par errPos ?cw = Some cw'"
      "\<forall>j\<in>set [1..<par + 1]. rs6_syndrome cw' n j = 0"
      using ok syn by (auto simp: rs6Decode_def Let_def simp del: upt_Suc split: if_splits option.splits)
    have near: "length cw' = n" "set cw' \<subseteq> symbols" "\<And>i. i \<notin> set errPos \<Longrightarrow> cw' ! i = ?cw ! i"
      using rs6_forney_near [OF e(2) cw(1)] cw(2) by auto
    have "horner gf6Mult (alpha j) cw' = 0" if "1 \<le> j" "j \<le> par" for j
    proof -
      have "j \<in> set [1..<par + 1]" using that by auto
      then have "rs6_syndrome cw' n j = 0" using e(3) by blast
      then show ?thesis using that rs6_syndrome [of j cw'] near(1) par by simp
    qed
    then have "rs6_word par cw'" using near by (simp add: rs6_word_def)
    moreover have "length (rs6_diff cw' ?cw) \<le> length errPos"
    proof -
      have "set (rs6_diff cw' ?cw) \<subseteq> set errPos" using near(3) unfolding rs6_diff_def by force
      then have "card (set (rs6_diff cw' ?cw)) \<le> length errPos"
        by (meson List.finite_set card_length card_mono le_trans)
      moreover have "distinct (rs6_diff cw' ?cw)" by (simp add: rs6_diff_def)
      ultimately show ?thesis by (simp only: distinct_card)
    qed
    moreover have "length errPos \<le> par div 2" using e(1) by (simp add: rs6_chien Let_def split: if_splits)
    ultimately show ?thesis using near(1) by (intro exI [of _ cw']) auto
  qed
qed

subsection \<open>Symbols of a buffer\<close>

lemma rs6_store_props:
  assumes "6 * n \<le> 8 * length data" "set cw \<subseteq> symbols" "length cw = N" "n \<le> N"
  shows "length (rs6_store cw n data) = length data"
    and "\<And>i. i < n \<Longrightarrow> bin2Hex (rs6_store cw n data) (6 * i) = cw ! i"
    and "\<And>j. 6 * n \<le> j \<Longrightarrow> rbit (rs6_store cw n data) j = rbit data j"
proof -
  have "length (rs6_store cw m data) = length data \<and> (\<forall>i<m. bin2Hex (rs6_store cw m data) (6 * i) = cw ! i) \<and>
      (\<forall>j\<ge>6 * m. rbit (rs6_store cw m data) j = rbit data j)" if "m \<le> n" for m
    using that
  proof (induction m)
    case (Suc m)
    let ?d = "rs6_store cw m data"
    have IH: "length ?d = length data" "\<And>i. i < m \<Longrightarrow> bin2Hex ?d (6 * i) = cw ! i"
      "\<And>j. 6 * m \<le> j \<Longrightarrow> rbit ?d j = rbit data j" using Suc by auto
    have e: "rs6_store cw (Suc m) data = hex2Bin (cw ! m) ?d (6 * m)" by (simp add: rs6_store_def)
    have room: "6 * m + 6 \<le> 8 * length ?d" using Suc.prems assms(1) IH(1) by simp
    have "cw ! m \<in> symbols" using assms Suc.prems nth_mem [of m cw] by auto
    then have v: "cw ! m < 64" by (simp add: symbols_iff)
    have "bin2Hex (hex2Bin (cw ! m) ?d (6 * m)) (6 * i) = cw ! i" if "i < Suc m" for i
      using that bin2Hex_hex2Bin [OF room v] bin2Hex_hex2Bin_other [OF room, of "6 * i"] IH(2)
      by (cases "i = m") auto
    moreover have "rbit (hex2Bin (cw ! m) ?d (6 * m)) j = rbit data j" if "6 * Suc m \<le> j" for j
      using that rbit_hex2Bin [OF room] IH(3) by simp
    ultimately show ?case unfolding e using IH(1) by simp
  qed (simp add: rs6_store_def)
  from this [of n] show "length (rs6_store cw n data) = length data"
    "\<And>i. i < n \<Longrightarrow> bin2Hex (rs6_store cw n data) (6 * i) = cw ! i"
    "\<And>j. 6 * n \<le> j \<Longrightarrow> rbit (rs6_store cw n data) j = rbit data j" by auto
qed

lemma rs6_symbols_store:
  "6 * n \<le> 8 * length data \<Longrightarrow> set cw \<subseteq> symbols \<Longrightarrow> length cw = n \<Longrightarrow> rs6_symbols (rs6_store cw n data) n = cw"
  using rs6_store_props(2) [of n data cw n] by (intro nth_equalityI) (simp_all add: rs6_symbols_def)

text \<open>A buffer is its symbols and the bits behind them.\<close>

lemma rs6_buffer_eq:
  assumes len: "length p = length q" and sym: "rs6_symbols p n = rs6_symbols q n"
    and rest: "\<And>j. 6 * n \<le> j \<Longrightarrow> j < 8 * length p \<Longrightarrow> rbit p j = rbit q j"
  shows "p = q"
proof (rule rbit_inject [OF len])
  fix j assume j: "j < 8 * length p"
  show "rbit p j = rbit q j"
  proof (cases "j < 6 * n")
    case True
    let ?i = "j div 6"
    have i: "?i < n" using True by (simp add: less_mult_imp_div_less mult.commute)
    have "bin2Hex p (6 * ?i) = bin2Hex q (6 * ?i)"
      using arg_cong [OF sym, of "\<lambda>s. s ! ?i"] i by (simp add: rs6_symbols_def)
    then have "bit (bin2Hex p (6 * ?i)) (5 - j mod 6) = bit (bin2Hex q (6 * ?i)) (5 - j mod 6)" by simp
    moreover have "5 - (5 - j mod 6) = j mod 6" "5 - j mod 6 < 6"
      using mod_less_divisor [of 6 j] by linarith+
    moreover have "6 * ?i + j mod 6 = j" by simp
    ultimately show ?thesis by (simp add: bit_bin2Hex)
  qed (use rest j in simp)
qed

subsection \<open>The encoders\<close>

text \<open>
  The parity parts of the matrix rows: the last row is the remainder \<open>g\<close> of \<open>x ^ par\<close> and
  each row is the next one times \<open>x\<close>, reduced.
\<close>

fun rows_ok :: "bytes \<Rightarrow> bytes list \<Rightarrow> bool" where
  "rows_ok g [] = True"
| "rows_ok g [p] = (p = g)"
| "rows_ok g (p # q # ps) = (p = map2 (XOR) (tl q @ [0]) (map (gf6Mult (hd q)) g) \<and> rows_ok g (q # ps))"

lemma map2_xor_in: "set xs \<subseteq> symbols \<Longrightarrow> set ys \<subseteq> symbols \<Longrightarrow> set (map2 (XOR) xs ys) \<subseteq> symbols"
  by (auto dest: set_zip_leftD set_zip_rightD intro!: gf64.xor_in)

lemma horner_shift:
  assumes x: "x \<in> symbols" and q: "set q \<subseteq> symbols" "q \<noteq> []" and g: "length g = length q" "set g \<subseteq> symbols"
    and root: "gf64.gpow x (length q) = horner gf6Mult x g"
  shows "horner gf6Mult x (map2 (XOR) (tl q @ [0]) (map (gf6Mult (hd q)) g)) = gf6Mult (horner gf6Mult x q) x"
proof -
  obtain h t where q_eq: "q = h # t" using q(2) by (cases q) auto
  have F: "h \<in> symbols" "set t \<subseteq> symbols" "set (t @ [0]) \<subseteq> symbols" "set (map (gf6Mult h) g) \<subseteq> symbols"
    using q g q_eq gf64.zero_in by (auto intro: gf64.mul_in)
  have "horner gf6Mult x (map2 (XOR) (t @ [0]) (map (gf6Mult h) g)) =
      horner gf6Mult x (t @ [0]) XOR horner gf6Mult x (map (gf6Mult h) g)"
    using F x g(1) q_eq by (intro gf64.horner_xor) simp_all
  also have "\<dots> = gf6Mult (horner gf6Mult x t) x XOR gf6Mult h (gf64.gpow x (length q))"
    using gf64.horner_scale [OF F(1) x g(2)] root by simp
  also have "gf64.gpow x (length q) = gf6Mult (gf64.gpow x (length t)) x" using q_eq by simp
  also have "gf6Mult (horner gf6Mult x t) x XOR gf6Mult h (gf6Mult (gf64.gpow x (length t)) x) =
      gf6Mult (gf6Mult h (gf64.gpow x (length t)) XOR horner gf6Mult x t) x"
    using F x by (simp add: gf64.mul_xor_left gf64.mul_assoc gf64.closed gf64.horner_in ac_simps)
  also have "gf6Mult h (gf64.gpow x (length t)) XOR horner gf6Mult x t = horner gf6Mult x q"
  proof -
    have "horner gf6Mult x (h # t) = xsum (map (\<lambda>i. gf6Mult ((h # t) ! i) (gf64.gpow x (length t - i))) [0..<Suc (length t)])"
      using gf64.horner_sum [of x "h # t"] F x by simp
    also have "\<dots> = gf6Mult h (gf64.gpow x (length t)) XOR
        xsum (map (\<lambda>i. gf6Mult (t ! i) (gf64.gpow x (length t - 1 - i))) [0..<length t])"
      by (simp add: upt_conv_Cons map_Suc_upt [symmetric] o_def del: upt_Suc)
    also have "xsum (map (\<lambda>i. gf6Mult (t ! i) (gf64.gpow x (length t - 1 - i))) [0..<length t]) = horner gf6Mult x t"
      using gf64.horner_sum [OF x F(2)] by simp
    finally show ?thesis using q_eq by simp
  qed
  finally show ?thesis using q_eq by simp
qed

lemma rows_ok_horner:
  assumes x: "x \<in> symbols" and g: "set g \<subseteq> symbols" "g \<noteq> []" "gf64.gpow x (length g) = horner gf6Mult x g"
  shows "rows_ok g ps \<Longrightarrow> i < length ps \<Longrightarrow>
    length (ps ! i) = length g \<and> set (ps ! i) \<subseteq> symbols \<and>
    horner gf6Mult x (ps ! i) = gf64.gpow x (length g + (length ps - 1 - i))"
proof (induction ps arbitrary: i)
  case (Cons p ps)
  show ?case
  proof (cases ps)
    case Nil
    then show ?thesis using Cons.prems g by simp
  next
    case (Cons q qs)
    have ok: "p = map2 (XOR) (tl q @ [0]) (map (gf6Mult (hd q)) g)" "rows_ok g ps"
      using Cons.prems(1) Cons by simp_all
    show ?thesis
    proof (cases i)
      case (Suc j)
      then show ?thesis using Cons.IH [OF ok(2), of j] Cons.prems(2) by simp
    next
      case 0
      have q: "length q = length g" "set q \<subseteq> symbols" "horner gf6Mult x q = gf64.gpow x (length g + length qs)"
        using Cons.IH [OF ok(2), of 0] Cons by simp_all
      then have ne: "q \<noteq> []" using g(2) by auto
      have "horner gf6Mult x p = gf6Mult (horner gf6Mult x q) x"
        unfolding ok(1) using q g by (intro horner_shift x ne) simp_all
      moreover have "length p = length g" using q ne unfolding ok(1) by simp
      moreover have "set p \<subseteq> symbols"
      proof -
        have "hd q \<in> symbols" "set (tl q @ [0]) \<subseteq> symbols"
          using q(2) ne gf64.zero_in by (auto dest: list.set_sel(2))
        moreover have "set (map (gf6Mult (hd q)) g) \<subseteq> symbols" using calculation(1) g(1) by (auto intro: gf64.mul_in)
        ultimately show ?thesis unfolding ok(1) by (intro map2_xor_in)
      qed
      ultimately show ?thesis using 0 Cons q(3) by simp
    qed
  qed
qed simp

text \<open>A systematic matrix of \<open>k\<close> rows of \<open>n\<close> symbols, as a whole.\<close>

definition matrix_ok :: "bytes list \<Rightarrow> nat \<Rightarrow> nat \<Rightarrow> bool" where
  "matrix_ok M k n \<longleftrightarrow> 0 < k \<and> k < n \<and> length M = k \<and>
     list_all (\<lambda>r. length r = n \<and> list_all (\<lambda>a. a < 64) r) M \<and>
     map (take k) M = map (\<lambda>j. (replicate k 0)[j := 1]) [0..<k] \<and>
     rows_ok (drop k (last M)) (map (drop k) M) \<and>
     list_all (\<lambda>j. alpha (j * (n - k)) = horner gf6Mult (alpha j) (drop k (last M))) [1..<Suc (n - k)]"

lemma matrix_row:
  assumes M: "matrix_ok M k n" and i: "i < k" and j: "1 \<le> j" "j \<le> n - k"
  shows "length (M ! i) = n" "set (M ! i) \<subseteq> symbols" "\<And>l. l < k \<Longrightarrow> M ! i ! l = (if l = i then 1 else 0)"
    "horner gf6Mult (alpha j) (M ! i) = 0"
proof -
  let ?g = "drop k (last M)"
  have B: "k < n" "length M = k" "list_all (\<lambda>r. length r = n \<and> list_all (\<lambda>a. a < 64) r) M"
    "map (take k) M = map (\<lambda>j. (replicate k 0)[j := 1]) [0..<k]" "rows_ok ?g (map (drop k) M)"
    "list_all (\<lambda>j. alpha (j * (n - k)) = horner gf6Mult (alpha j) ?g) [1..<Suc (n - k)]"
    using M unfolding matrix_ok_def by blast+
  show len: "length (M ! i) = n" and S: "set (M ! i) \<subseteq> symbols"
  proof -
    have "M ! i \<in> set M" using i B(2) by simp
    then show "length (M ! i) = n" "set (M ! i) \<subseteq> symbols" using B(3) by (auto simp: list_all_iff symbols_iff)
  qed
  have top: "take k (M ! i) = (replicate k 0)[i := 1]"
    using arg_cong [OF B(4), of "\<lambda>l. l ! i"] i B(2) by simp
  have nth_top: "M ! i ! l = take k (M ! i) ! l" if "l < k" for l using that by simp
  show "M ! i ! l = (if l = i then 1 else 0)" if "l < k" for l
    unfolding nth_top [OF that] top using that by (simp add: nth_list_update)
  have "last M \<in> set M" using B(2) i by (cases M) auto
  then have g: "length ?g = n - k" "set ?g \<subseteq> symbols"
    using B(3) by (auto simp: list_all_iff symbols_iff dest: in_set_dropD)
  have "j \<in> set [1..<Suc (n - k)]" using j by auto
  then have root: "gf64.gpow (alpha j) (length ?g) = horner gf6Mult (alpha j) ?g"
    using B(6) g(1) by (simp add: list_all_iff alpha_gpow del: upt_Suc)
  have low: "horner gf6Mult (alpha j) (drop k (M ! i)) = gf64.gpow (alpha j) (n - 1 - i)"
  proof -
    have "?g \<noteq> []" using g(1) B(1) by (metis length_0_conv less_irrefl zero_less_diff)
    moreover have "length ?g + (k - 1 - i) = n - 1 - i" unfolding g(1) using i B(1) by simp
    ultimately show ?thesis
      using rows_ok_horner [OF alpha_in g(2) _ root B(5), of i] i B(2) by (simp del: drop_eq_Nil add: nth_map)
  qed
  let ?u = "(replicate k 0)[i := 1]"
  have split: "M ! i = ?u @ drop k (M ! i)" unfolding top [symmetric] by simp
  have "horner gf6Mult (alpha j) (M ! i) =
      xsum (map (\<lambda>l. gf6Mult (M ! i ! l) (gf64.gpow (alpha j) (n - 1 - l))) [0..<n])"
    using gf64.horner_sum [OF alpha_in S] len by simp
  also have "[0..<n] = [0..<k] @ map (\<lambda>l. l + k) [0..<n - k]"
    using B(1) upt_add_eq_append [of 0 k "n - k"] by (simp add: map_add_upt)
  also have "xsum (map (\<lambda>l. gf6Mult (M ! i ! l) (gf64.gpow (alpha j) (n - 1 - l))) ([0..<k] @ map (\<lambda>l. l + k) [0..<n - k])) =
      gsum (\<lambda>l. gf6Mult (M ! i ! l) (gf64.gpow (alpha j) (n - 1 - l))) k XOR
      xsum (map (\<lambda>l. gf6Mult (drop k (M ! i) ! l) (gf64.gpow (alpha j) (n - k - 1 - l))) [0..<n - k])"
  proof -
    have "map ((\<lambda>l. gf6Mult (M ! i ! l) (gf64.gpow (alpha j) (n - 1 - l))) \<circ> (\<lambda>l. l + k)) [0..<n - k] =
        map (\<lambda>l. gf6Mult (drop k (M ! i) ! l) (gf64.gpow (alpha j) (n - k - 1 - l))) [0..<n - k]"
      using len B(1) by (intro map_cong refl) (simp add: add.commute)
    then show ?thesis by (simp only: map_append xsum_append map_map gsum_def)
  qed
  also have "xsum (map (\<lambda>l. gf6Mult (drop k (M ! i) ! l) (gf64.gpow (alpha j) (n - k - 1 - l))) [0..<n - k]) =
      horner gf6Mult (alpha j) (drop k (M ! i))"
  proof -
    have "set (drop k (M ! i)) \<subseteq> symbols" using S by (auto dest: in_set_dropD)
    then show ?thesis using gf64.horner_sum [OF alpha_in, of "drop k (M ! i)" j] len by simp
  qed
  also have "gsum (\<lambda>l. gf6Mult (M ! i ! l) (gf64.gpow (alpha j) (n - 1 - l))) k = gf64.gpow (alpha j) (n - 1 - i)"
  proof -
    have e: "gf6Mult (M ! i ! l) (gf64.gpow (alpha j) (n - 1 - l)) = (if l = i then gf64.gpow (alpha j) (n - 1 - i) else 0)" if "l < k" for l
      unfolding nth_top [OF that] top using that gf64.gpow_in [OF alpha_in] by (simp add: nth_list_update)
    have "gsum (\<lambda>l. if l = i then gf64.gpow (alpha j) (n - 1 - i) else 0) k = gf64.gpow (alpha j) (n - 1 - i)"
      using i by (subst gsum_single [of i]) simp_all
    then show ?thesis using gsum_cong [of k, OF e] by simp
  qed
  finally show "horner gf6Mult (alpha j) (M ! i) = 0" using low by simp
qed

text \<open>A sum of rows is a code word that starts with its coefficients.\<close>

definition matrix_word :: "bytes list \<Rightarrow> nat \<Rightarrow> nat \<Rightarrow> bytes \<Rightarrow> bytes" where
  "matrix_word M k n h = map (\<lambda>i. fold (\<lambda>j c. c XOR gf6Mult (h ! j) (M ! j ! i)) [0..<k] 0) [0..<n]"

lemma matrix_word:
  assumes M: "matrix_ok M k n" and h: "set h \<subseteq> symbols" "length h = k"
  shows "length (matrix_word M k n h) = n" "take k (matrix_word M k n h) = h" "rs6_word (n - k) (matrix_word M k n h)"
proof -
  have nk: "k < n" "0 < k" using M by (simp_all add: matrix_ok_def)
  note row = matrix_row [OF M _ order_refl, of _]
  have h_in: "j < k \<Longrightarrow> h ! j \<in> symbols" for j using h nth_mem [of j h] by blast
  have r: "length (M ! j) = n" "set (M ! j) \<subseteq> symbols" "\<And>l. l < k \<Longrightarrow> M ! j ! l = (if l = j then 1 else 0)" if "j < k" for j
    using matrix_row [OF M that, of 1] nk by auto
  have r_in: "M ! j ! i \<in> symbols" if "j < k" "i < n" for j i using r(1,2) [OF that(1)] that(2) by (metis nth_mem subset_iff)
  show len: "length (matrix_word M k n h) = n" by (simp add: matrix_word_def)
  show "take k (matrix_word M k n h) = h"
  proof (rule nth_equalityI)
    fix i assume "i < length (take k (matrix_word M k n h))"
    then have i: "i < k" "i < n" using nk len by simp_all
    have "xsum (map (\<lambda>j. gf6Mult (h ! j) (M ! j ! i)) [0..<k]) = gsum (\<lambda>j. if j = i then h ! i else 0) k"
      unfolding gsum_def using i r(3) h_in by (intro arg_cong [where f = xsum] map_cong refl) auto
    also have "\<dots> = h ! i" using i by (subst gsum_single [of i]) simp_all
    finally show "take k (matrix_word M k n h) ! i = h ! i" using i by (simp add: matrix_word_def fold_xor)
  qed (simp add: len h(2) nk less_imp_le)
  have horner_part: "set (map (\<lambda>i. gsum (\<lambda>j. gf6Mult (h ! j) (M ! j ! i)) m) [0..<n]) \<subseteq> symbols \<and>
      horner gf6Mult (alpha e) (map (\<lambda>i. gsum (\<lambda>j. gf6Mult (h ! j) (M ! j ! i)) m) [0..<n]) = 0"
    if "m \<le> k" "1 \<le> e" "e \<le> n - k" for m e
    using that(1)
  proof (induction m)
    case 0
    have "horner gf6Mult (alpha e) (replicate n 0) = 0" by (induction n) (simp_all add: gf64.horner_Cons_0 [OF alpha_in])
    then show ?case by (auto simp: map_replicate_const gf64.zero_in)
  next
    case (Suc m)
    let ?w = "map (\<lambda>i. gsum (\<lambda>j. gf6Mult (h ! j) (M ! j ! i)) m) [0..<n]" and ?r = "map (gf6Mult (h ! m)) (M ! m)"
    have m: "m < k" using Suc.prems by simp
    have IH: "set ?w \<subseteq> symbols" "horner gf6Mult (alpha e) ?w = 0" using Suc by simp_all
    have F: "set ?r \<subseteq> symbols" "length ?r = n" using r [OF m] h_in [OF m] by (auto intro: gf64.mul_in)
    have eq: "map (\<lambda>i. gsum (\<lambda>j. gf6Mult (h ! j) (M ! j ! i)) (Suc m)) [0..<n] = map2 (XOR) ?w ?r"
      using F(2) by (intro nth_equalityI) simp_all
    have "horner gf6Mult (alpha e) (map2 (XOR) ?w ?r) = gf6Mult (h ! m) (horner gf6Mult (alpha e) (M ! m))"
      using gf64.horner_xor [OF _ alpha_in IH(1) F(1)] F(2) IH(2) gf64.horner_scale [OF h_in [OF m] alpha_in r(2) [OF m]] by simp
    also have "\<dots> = 0" using matrix_row(4) [OF M m that(2,3)] h_in [OF m] by simp
    finally show ?case unfolding eq using map2_xor_in [OF IH(1) F(1)] by simp
  qed
  have e: "matrix_word M k n h = map (\<lambda>i. gsum (\<lambda>j. gf6Mult (h ! j) (M ! j ! i)) k) [0..<n]"
    by (simp add: matrix_word_def fold_xor gsum_def)
  have "set (matrix_word M k n h) \<subseteq> symbols"
    unfolding e using horner_part [of k 1] nk by simp
  then show "rs6_word (n - k) (matrix_word M k n h)"
    using horner_part [of k] by (simp add: rs6_word_def e)
qed

end
