(* ===== verification/Rs6Matrix.thy ===== *)
theory Rs6Matrix
  imports Rs6Code
begin

section \<open>The codes on six bit symbols: encoders and properties\<close>

text \<open>
  The three encoding matrices are systematic and their rows are code words, by evaluation.
  It follows that the encoders make code words, and the properties of the two P25 decoders.
\<close>

subsection \<open>Evaluation of the matrices\<close>

text \<open>The three matrices.\<close>

lemma alpha_exp: "alpha k = ucast (rsGFexp ! (k mod 63))"
  using exp_entry [of "k mod 63"] by simp

fun horners :: "bytes \<Rightarrow> bytes \<Rightarrow> bytes" where
  "horners g [] = []"
| "horners g (x # xs) = horner gf6Mult x g # horners g xs"

lemma horners_map: "horners g xs = map (\<lambda>x. horner gf6Mult x g) xs"
  by (induction xs) simp_all

lemma matrix_roots:
  assumes "map alpha [1..<Suc m] = xs" "map (\<lambda>j. alpha (j * m)) [1..<Suc m] = ys" "horners g xs = ys"
  shows "list_all (\<lambda>j. alpha (j * m) = horner gf6Mult (alpha j) g) [1..<Suc m]"
proof -
  have "map (\<lambda>j. horner gf6Mult (alpha j) g) [1..<Suc m] = map (\<lambda>j. alpha (j * m)) [1..<Suc m]"
    using assms unfolding horners_map by (auto simp: o_def simp del: upt_Suc)
  then show ?thesis by (simp add: list_all_iff del: upt_Suc)
qed

lemma encode_matrix_rows: "rows_ok (drop 12 (last ENCODE_MATRIX)) (map (drop 12) ENCODE_MATRIX)"
  by code_simp

lemma encode_matrix_horner: "horners (drop 12 (last ENCODE_MATRIX)) [2, 4, 8, 16, 32, 3, 6, 12, 24, 48, 35, 5] = [5, 17, 22, 13, 57, 24, 59, 18, 25, 62, 3, 15]"
  by code_simp

lemma encode_matrix_shape: "list_all (\<lambda>r. length r = 24 \<and> list_all (\<lambda>a. a < 64) r) ENCODE_MATRIX"
  by code_simp

lemma encode_matrix_unit: "map (take 12) ENCODE_MATRIX = map (\<lambda>j. (replicate 12 0)[j := 1]) [0..<12]"
  by code_simp

lemma encode_matrix_powers: "map alpha [1..<Suc 12] = [2, 4, 8, 16, 32, 3, 6, 12, 24, 48, 35, 5]" "map (\<lambda>j. alpha (j * 12)) [1..<Suc 12] = [5, 17, 22, 13, 57, 24, 59, 18, 25, 62, 3, 15]"
  unfolding alpha_exp by (simp_all add: rsGFexp_def upt_rec)

lemma encode_matrix_ok: "matrix_ok ENCODE_MATRIX 12 24"
  unfolding matrix_ok_def using encode_matrix_rows encode_matrix_shape encode_matrix_unit matrix_roots [OF encode_matrix_powers encode_matrix_horner]
  by (simp add: ENCODE_MATRIX_def del: upt_Suc)

lemma encode_matrix_24169_rows: "rows_ok (drop 16 (last ENCODE_MATRIX_24169)) (map (drop 16) ENCODE_MATRIX_24169)"
  by code_simp

lemma encode_matrix_24169_horner: "horners (drop 16 (last ENCODE_MATRIX_24169)) [2, 4, 8, 16, 32, 3, 6, 12] = [12, 19, 17, 9, 47, 13, 31, 2]"
  by code_simp

lemma encode_matrix_24169_shape: "list_all (\<lambda>r. length r = 24 \<and> list_all (\<lambda>a. a < 64) r) ENCODE_MATRIX_24169"
  by code_simp

lemma encode_matrix_24169_unit: "map (take 16) ENCODE_MATRIX_24169 = map (\<lambda>j. (replicate 16 0)[j := 1]) [0..<16]"
  by code_simp

lemma encode_matrix_24169_powers: "map alpha [1..<Suc 8] = [2, 4, 8, 16, 32, 3, 6, 12]" "map (\<lambda>j. alpha (j * 8)) [1..<Suc 8] = [12, 19, 17, 9, 47, 13, 31, 2]"
  unfolding alpha_exp by (simp_all add: rsGFexp_def upt_rec)

lemma encode_matrix_24169_ok: "matrix_ok ENCODE_MATRIX_24169 16 24"
  unfolding matrix_ok_def using encode_matrix_24169_rows encode_matrix_24169_shape encode_matrix_24169_unit matrix_roots [OF encode_matrix_24169_powers encode_matrix_24169_horner]
  by (simp add: ENCODE_MATRIX_24169_def del: upt_Suc)

lemma encode_matrix_362017_rows: "rows_ok (drop 20 (last ENCODE_MATRIX_362017)) (map (drop 20) ENCODE_MATRIX_362017)"
  by code_simp

lemma encode_matrix_362017_horner: "horners (drop 20 (last ENCODE_MATRIX_362017)) [2, 4, 8, 16, 32, 3, 6, 12, 24, 48, 35, 5, 10, 20, 40, 19] = [19, 9, 13, 2, 38, 18, 26, 4, 15, 36, 52, 8, 30, 11, 43, 16]"
  by code_simp

lemma encode_matrix_362017_shape: "list_all (\<lambda>r. length r = 36 \<and> list_all (\<lambda>a. a < 64) r) ENCODE_MATRIX_362017"
  by code_simp

lemma encode_matrix_362017_unit: "map (take 20) ENCODE_MATRIX_362017 = map (\<lambda>j. (replicate 20 0)[j := 1]) [0..<20]"
  by code_simp

lemma encode_matrix_362017_powers: "map alpha [1..<Suc 16] = [2, 4, 8, 16, 32, 3, 6, 12, 24, 48, 35, 5, 10, 20, 40, 19]" "map (\<lambda>j. alpha (j * 16)) [1..<Suc 16] = [19, 9, 13, 2, 38, 18, 26, 4, 15, 36, 52, 8, 30, 11, 43, 16]"
  unfolding alpha_exp by (simp_all add: rsGFexp_def upt_rec)

lemma encode_matrix_362017_ok: "matrix_ok ENCODE_MATRIX_362017 20 36"
  unfolding matrix_ok_def using encode_matrix_362017_rows encode_matrix_362017_shape encode_matrix_362017_unit matrix_roots [OF encode_matrix_362017_powers encode_matrix_362017_horner]
  by (simp add: ENCODE_MATRIX_362017_def del: upt_Suc)

subsection \<open>What the encoders write\<close>

lemma matrix_store:
  assumes M: "matrix_ok M k n" and len: "6 * n \<le> 8 * length data"
  shows "rs6_symbols (rs6_store (matrix_word M k n (rs6_symbols data k)) n data) n = matrix_word M k n (rs6_symbols data k)"
proof -
  note w = matrix_word [OF M rs6_symbols_in, of data]
  have "set (matrix_word M k n (rs6_symbols data k)) \<subseteq> symbols" using w(3) by (simp add: rs6_word_def)
  then show ?thesis using len w(1) by (intro rs6_symbols_store)
qed

lemma matrix_word_symbols:
  "k \<le> n \<Longrightarrow> matrix_word M k n (rs6_symbols data k) =
    map (\<lambda>i. fold (\<lambda>j c. c XOR gf6Mult (bin2Hex data (6 * j)) (M ! j ! i)) [0..<k] 0x00) [0..<n]"
  unfolding matrix_word_def by (intro map_cong refl fold_upt_cong) (simp add: rs6_symbols_def)

lemma rs241213_encode_store: "rs241213_encode data = rs6_store (matrix_word ENCODE_MATRIX 12 24 (rs6_symbols data 12)) 24 data"
proof -
  have le: "12 \<le> (24 :: nat)" by simp
  show ?thesis unfolding matrix_word_symbols [OF le] rs241213_encode_def rs6_store_def Let_def by (rule refl)
qed

lemma encode362017_store: "encode362017 data = rs6_store (matrix_word ENCODE_MATRIX_362017 20 36 (rs6_symbols data 20)) 36 data"
proof -
  have le: "20 \<le> (36 :: nat)" by simp
  show ?thesis unfolding matrix_word_symbols [OF le] encode362017_def rs6_store_def Let_def by (rule refl)
qed

lemma encode24169_store: "encode24169 data = rs6_store (matrix_word ENCODE_MATRIX_24169 16 24 (rs6_symbols data 16)) 24 data"
proof -
  have le: "16 \<le> (24 :: nat)" by simp
  show ?thesis unfolding matrix_word_symbols [OF le] encode24169_def rs6_store_def Let_def by (rule refl)
qed

lemmas encoder_store = rs241213_encode_store encode362017_store encode24169_store

lemma matrix_encoder:
  assumes M: "matrix_ok M k n" and len: "6 * n \<le> 8 * length data"
    and out: "out = rs6_store (matrix_word M k n (rs6_symbols data k)) n data"
  shows "length out = length data" "rs6_symbols out n = matrix_word M k n (rs6_symbols data k)"
    "rs6_word (n - k) (rs6_symbols out n)" "\<And>i. i < k \<Longrightarrow> bin2Hex out (6 * i) = bin2Hex data (6 * i)"
    "\<And>j. 6 * n \<le> j \<Longrightarrow> rbit out j = rbit data j"
proof -
  let ?w = "matrix_word M k n (rs6_symbols data k)"
  note w = matrix_word [OF M rs6_symbols_in, of data]
  have S: "set ?w \<subseteq> symbols" using w(3) by (simp add: rs6_word_def)
  show s: "rs6_symbols out n = ?w" unfolding out by (rule matrix_store [OF M len])
  show "length out = length data" "\<And>j. 6 * n \<le> j \<Longrightarrow> rbit out j = rbit data j"
    unfolding out using rs6_store_props(1,3) [OF len S w(1) order_refl] by simp_all
  show "rs6_word (n - k) (rs6_symbols out n)" using w(3) s by simp
  have k: "k < n" using M by (simp add: matrix_ok_def)
  show "bin2Hex out (6 * i) = bin2Hex data (6 * i)" if "i < k" for i
  proof -
    have "?w ! i = rs6_symbols data k ! i" using w(2) that by (metis nth_take)
    then have "rs6_symbols out n ! i = rs6_symbols data k ! i" using s by simp
    then show ?thesis using that k by (simp add: rs6_symbols_def)
  qed
qed

text \<open>The codes with their encoders, data symbols and word lengths.\<close>

definition rs6_codes :: "((bytes \<Rightarrow> bytes) \<times> nat \<times> nat) list" where
  "rs6_codes = [(rs241213_encode, 12, 24), (encode362017, 20, 36), (encode24169, 16, 24)]"

lemma rs6_codes_matrix:
  assumes "(enc, k, n) \<in> set rs6_codes"
  obtains M where "matrix_ok M k n" "\<And>data. enc data = rs6_store (matrix_word M k n (rs6_symbols data k)) n data"
  using assms encode_matrix_ok encode_matrix_362017_ok encode_matrix_24169_ok encoder_store
  by (force simp: rs6_codes_def)

text \<open>The encoders of the (24,12,13), (36,20,17) and (24,16,9) codes keep the data symbols
  and every bit behind the word, and write a word that vanishes at the roots alpha to
  alpha ^ (n - k) of the generator polynomial.\<close>

theorem rs6_encoders_systematic:
  assumes "(enc, k, n) \<in> set rs6_codes" and "6 * n \<le> 8 * length data"
  shows "length (enc data) = length data \<and>
    (\<forall>i<k. bin2Hex (enc data) (6 * i) = bin2Hex data (6 * i)) \<and>
    (\<forall>j\<ge>6 * n. rbit (enc data) j = rbit data j) \<and>
    (\<forall>j\<in>{1..n - k}. horner gf6Mult (alpha j) (rs6_symbols (enc data) n) = 0)"
proof -
  obtain M where M: "matrix_ok M k n" "enc data = rs6_store (matrix_word M k n (rs6_symbols data k)) n data"
    using rs6_codes_matrix [OF assms(1)] by metis
  note e = matrix_encoder [OF M(1) assms(2) M(2)]
  show ?thesis using e(1,4,5) e(3) by (auto simp: rs6_word_def)
qed

theorem rs6_encoders_systematic_witness:
  "bin2Hex (encode24169 [1, 2, 3, 4, 5, 6, 7, 8, 9, 10, 11, 12, 0, 0, 0, 0, 0, 0]) 6 = 16 \<and>
   horner gf6Mult (alpha 8) (rs6_symbols (encode24169 [1, 2, 3, 4, 5, 6, 7, 8, 9, 10, 11, 12, 0, 0, 0, 0, 0, 0]) 24) = 0"
proof -
  let ?d = "[1, 2, 3, 4, 5, 6, 7, 8, 9, 10, 11, 12, 0, 0, 0, 0, 0, 0] :: bytes"
  have "(encode24169, 16, 24) \<in> set rs6_codes" "6 * 24 \<le> 8 * length ?d" by (simp_all add: rs6_codes_def)
  note * = rs6_encoders_systematic [OF this]
  have "\<forall>i<16. bin2Hex (encode24169 ?d) (6 * i) = bin2Hex ?d (6 * i)" using * by blast
  moreover have "(1 :: nat) < 16" by simp
  ultimately have "bin2Hex (encode24169 ?d) (6 * 1) = bin2Hex ?d (6 * 1)" by blast
  moreover have "bin2Hex ?d 6 = 16" by code_simp
  moreover have "(8 :: nat) \<in> {1..24 - 16}" by simp
  then have "horner gf6Mult (alpha 8) (rs6_symbols (encode24169 ?d) 24) = 0" using * by blast
  ultimately show ?thesis by (simp only: mult.right_neutral)
qed

subsection \<open>The decoders\<close>

text \<open>The P25 words with encoder, decoder, word length and parity symbols.\<close>

definition rs6_pairs :: "((bytes \<Rightarrow> bytes) \<times> (bytes \<Rightarrow> bool \<times> bytes) \<times> nat \<times> nat) list" where
  "rs6_pairs = [(encode362017, decode362017, 36, 16), (encode24169, decode24169, 24, 8)]"

definition wrong_symbols :: "nat \<Rightarrow> bytes \<Rightarrow> bytes \<Rightarrow> nat" where
  "wrong_symbols n p q = length (filter (\<lambda>i. bin2Hex p (6 * i) \<noteq> bin2Hex q (6 * i)) [0..<n])"

lemma wrong_symbols_diff: "wrong_symbols n p q = length (rs6_diff (rs6_symbols p n) (rs6_symbols q n))"
  unfolding wrong_symbols_def rs6_diff_def by (intro arg_cong [where f = length] filter_cong) (auto simp: rs6_symbols_def)

lemma rs6_store_sent:
  assumes len: "length p = length q" "6 * n \<le> 8 * length p" and rest: "\<And>j. 6 * n \<le> j \<Longrightarrow> j < 8 * length p \<Longrightarrow> rbit p j = rbit q j"
  shows "rs6_store (rs6_symbols p n) n q = p"
proof (rule rs6_buffer_eq)
  note s = rs6_store_props [of n q "rs6_symbols p n" n, OF _ rs6_symbols_in order_refl]
  show "length (rs6_store (rs6_symbols p n) n q) = length p" using s(1) len by simp
  show "rs6_symbols (rs6_store (rs6_symbols p n) n q) n = rs6_symbols p n"
    using len by (intro rs6_symbols_store rs6_symbols_in) simp
  show "rbit (rs6_store (rs6_symbols p n) n q) j = rbit p j" if "6 * n \<le> j" "j < 8 * length (rs6_store (rs6_symbols p n) n q)" for j
    using s(1,3) rest that len by simp
qed

text \<open>C10: The P25 decoders of the (36,20,17) and (24,16,9) words recover the encoded block from a
  block of the same length in which up to eight, up to four six bit symbols are wrong.\<close>

theorem rs6_decoders_correct_errors:
  assumes "(enc, dec, n, par) \<in> set rs6_pairs" and "6 * n = 8 * length data" and "length recv = length data"
    and "2 * wrong_symbols n (enc data) recv \<le> par"
  shows "dec recv = (True, enc data)"
proof -
  have n: "n \<le> 63" "par \<le> 16" "(enc, n - par, n) \<in> set rs6_codes" "par \<le> n"
    using assms(1) by (auto simp: rs6_pairs_def rs6_codes_def)
  obtain M where M: "matrix_ok M (n - par) n" "enc data = rs6_store (matrix_word M (n - par) n (rs6_symbols data (n - par))) n data"
    using rs6_codes_matrix [OF n(3)] by metis
  note e = matrix_encoder [OF M(1) _ M(2)]
  have len: "length (enc data) = length data" "rs6_word par (rs6_symbols (enc data) n)"
    using e(1,3) assms(2) n(4) by simp_all
  have dec: "dec = (\<lambda>data. rs6Decode data n par)"
    using assms(1) by (auto simp: rs6_pairs_def decode362017_def decode24169_def)
  have "dec recv = (True, if rs6_symbols recv n = rs6_symbols (enc data) n then recv else rs6_store (rs6_symbols (enc data) n) n recv)"
    unfolding dec using n len assms(4) wrong_symbols_diff rs6_symbols_in(2) by (intro rs6Decode_corrects) simp_all
  also have "rs6_store (rs6_symbols (enc data) n) n recv = enc data"
    using assms(2,3) len(1) by (intro rs6_store_sent) simp_all
  also have "(if rs6_symbols recv n = rs6_symbols (enc data) n then recv else enc data) = enc data"
    using rs6_buffer_eq [of recv "enc data" n] assms(2,3) len(1) by auto
  finally show ?thesis .
qed

lemma rbit_zero: "i < 8 * n \<Longrightarrow> \<not> rbit (replicate n 0) i"
  by (simp add: rbit_bit)

lemma bin2Hex_zero: "6 * i + 6 \<le> 8 * m \<Longrightarrow> bin2Hex (replicate m 0) (6 * i) = 0"
  using rbit_zero [of _ m] by (intro bit_word_eqI) (auto simp: bit_bin2Hex)

lemma symbols_zero: "6 * n \<le> 8 * m \<Longrightarrow> rs6_symbols (replicate m 0) n = replicate n 0"
  by (intro nth_equalityI) (simp_all add: rs6_symbols_def bin2Hex_zero)

lemma encode_zero:
  assumes M: "matrix_ok M k n" and len: "6 * n = 8 * m"
  shows "rs6_store (matrix_word M k n (rs6_symbols (replicate m 0) k)) n (replicate m 0) = replicate m 0"
proof -
  have k: "k < n" using M by (simp add: matrix_ok_def)
  have "matrix_word M k n (replicate k 0) = replicate n 0"
    unfolding matrix_word_def fold_xor
    by (intro nth_equalityI) (auto simp: intro!: xsum_zero)
  then have w: "matrix_word M k n (rs6_symbols (replicate m 0) k) = rs6_symbols (replicate m 0) n"
    using len k by (simp add: symbols_zero)
  show ?thesis unfolding w using len by (intro rs6_store_sent) simp_all
qed

theorem rs6_decoders_correct_errors_witness:
  "decode24169 ((replicate 18 0)[0 := 0xFF, 5 := 0x3F, 17 := 0x15]) = (True, replicate 18 0)"
proof -
  have z: "encode24169 (replicate 18 0) = replicate 18 0"
    unfolding encoder_store by (rule encode_zero [OF encode_matrix_24169_ok]) simp
  have "wrong_symbols 24 (replicate 18 0) ((replicate 18 0)[0 := 0xFF, 5 := 0x3F, 17 := 0x15]) = 4" by code_simp
  then show ?thesis
    using rs6_decoders_correct_errors [of encode24169 decode24169 24 8 "replicate 18 0" "(replicate 18 0)[0 := 0xFF, 5 := 0x3F, 17 := 0x15]"]
    unfolding z by (simp add: rs6_pairs_def del: replicate.simps list_update.simps)
qed

definition near_word :: "nat \<Rightarrow> nat \<Rightarrow> bytes \<Rightarrow> bytes \<Rightarrow> bool" where
  "near_word n par data cw \<longleftrightarrow> length cw = n \<and> rs6_word par cw \<and>
     2 * length (filter (\<lambda>i. cw ! i \<noteq> bin2Hex data (6 * i)) [0..<n]) \<le> par"

lemma near_word_diff: "near_word n par data cw \<longleftrightarrow>
    length cw = n \<and> rs6_word par cw \<and> 2 * length (rs6_diff cw (rs6_symbols data n)) \<le> par"
proof -
  have "filter (\<lambda>i. cw ! i \<noteq> bin2Hex data (6 * i)) [0..<n] = rs6_diff cw (rs6_symbols data n)"
    unfolding rs6_diff_def by (intro filter_cong) (auto simp: rs6_symbols_def)
  then show ?thesis by (simp add: near_word_def)
qed

text \<open>C11: The P25 decoders return true exactly when some code word differs from the block in at
  most half as many symbols as there are parity symbols; the block then holds that code word, and
  otherwise it stays as it is.\<close>

theorem rs6_decoders_accept_nearest:
  assumes "(enc, dec, n, par) \<in> set rs6_pairs" and "6 * n \<le> 8 * length data"
  shows "(fst (dec data) \<longleftrightarrow> (\<exists>cw. near_word n par data cw)) \<and>
    (\<forall>cw. near_word n par data cw \<longrightarrow> rs6_symbols (snd (dec data)) n = cw) \<and>
    (\<not> fst (dec data) \<longrightarrow> snd (dec data) = data)"
proof -
  have n: "n \<le> 63" "par \<le> 16" and dec: "dec = (\<lambda>data. rs6Decode data n par)"
    using assms(1) by (auto simp: rs6_pairs_def decode362017_def decode24169_def)
  have near: "fst (dec data) \<and> rs6_symbols (snd (dec data)) n = cw" if "near_word n par data cw" for cw
  proof -
    have cw: "length cw = n" "rs6_word par cw" "2 * length (rs6_diff cw (rs6_symbols data n)) \<le> par"
      using that by (simp_all add: near_word_diff)
    then have "set cw \<subseteq> symbols" by (simp add: rs6_word_def)
    then have "rs6_symbols (rs6_store cw n data) n = cw" using assms(2) cw(1) by (intro rs6_symbols_store)
    then show ?thesis unfolding dec rs6Decode_corrects [OF n cw] by simp
  qed
  moreover have "\<exists>cw. near_word n par data cw" if "fst (dec data)"
    using rs6Decode_sound(1) [OF n, of data] that unfolding dec near_word_diff by blast
  moreover have "\<not> fst (dec data) \<Longrightarrow> snd (dec data) = data"
    using rs6Decode_sound(2) [OF n, of data] unfolding dec by blast
  ultimately show ?thesis by blast
qed

theorem rs6_decoders_accept_nearest_witness:
  "fst (decode362017 (replicate 27 0)) \<and> rs6_symbols (snd (decode362017 (replicate 27 0))) 36 = replicate 36 0"
proof -
  have "horner gf6Mult (alpha j) (replicate n 0) = 0" for j n
    by (induction n) (simp_all add: gf64.horner_Cons_0 [OF alpha_in])
  moreover have "bin2Hex (replicate 27 0) (6 * i) = 0" if "i < 36" for i
    using that by (intro bin2Hex_zero) simp
  ultimately have near: "near_word 36 16 (replicate 27 0) (replicate 36 0)"
    by (auto simp: near_word_def rs6_word_def symbols_iff filter_empty_conv)
  have "(encode362017, decode362017, 36, 16) \<in> set rs6_pairs" "6 * 36 \<le> 8 * length (replicate 27 (0 :: u8))"
    by (simp_all add: rs6_pairs_def)
  from rs6_decoders_accept_nearest [OF this] near show ?thesis by blast
qed

end
