(* ===== verification/Rs24.thy ===== *)
theory Rs24
  imports Rs6Matrix
begin

section \<open>The decoder of the (24,12,13) code (tools/fec_tools.c)\<close>

text \<open>
  \<open>rs241213_decode\<close> is written in index form: its arrays hold logarithms, 63 standing for zero.
  C's \<open>int\<close> holds both forms; here a value in poly form is a symbol (\<open>u8\<close>) and a value in
  index form a \<open>nat\<close>.  All index values lie between 0 and a few hundred, so C's sums neither
  wrap nor go below zero (\<open>rsGFlog[lambda[i]] - DiscrR + 63\<close> is written with the 63 first).
\<close>

definition rs_exp :: "nat \<Rightarrow> u8" where
  "rs_exp i = ucast (rsGFexp ! i)"

definition rs_log :: "u8 \<Rightarrow> nat" where
  "rs_log a = unat (rsGFlog ! unat a)"

text \<open>The syndromes in poly form, one pass per symbol.\<close>

definition rs24_syndromes :: "bytes \<Rightarrow> bytes" where
  "rs24_syndromes HB =
     fold (\<lambda>j S. map (\<lambda>i. if S ! i = 0 then HB ! j
                           else HB ! j XOR rs_exp ((rs_log (S ! i) + i + 1) mod 63)) [0..<12])
       [1..<24] (replicate 12 (HB ! 0))"

record rs24_bm =
  rs_lambda :: bytes
  rs_b :: "nat list"
  rs_el :: nat

text \<open>The loop that shifts \<open>b\<close> upward one step.\<close>

definition rs24_shift :: "nat list \<Rightarrow> nat list" where
  "rs24_shift b = (fold (\<lambda>i b. b[i := b ! (i - 1)]) (rev [1..<13]) b)[0 := 63]"

definition rs24_discr :: "nat list \<Rightarrow> nat \<Rightarrow> bytes \<Rightarrow> u8" where
  "rs24_discr S r lambda =
     fold (\<lambda>i d. if lambda ! i \<noteq> 0 \<and> S ! (r - i - 1) \<noteq> 63
                 then d XOR rs_exp ((rs_log (lambda ! i) + S ! (r - i - 1)) mod 63) else d) [0..<r] 0"

text \<open>Step \<open>r\<close> of the Berlekamp-Massey loop, \<open>r\<close> from 1 to 12.\<close>

definition rs24_bm_step :: "nat list \<Rightarrow> nat \<Rightarrow> rs24_bm \<Rightarrow> rs24_bm" where
  "rs24_bm_step S r s =
     (let DiscrR = rs_log (rs24_discr S r (rs_lambda s))
      in if DiscrR = 63 then s\<lparr>rs_b := rs24_shift (rs_b s)\<rparr>
         else
           let t = (rs_lambda s ! 0) # map (\<lambda>i. if rs_b s ! i \<noteq> 63
                     then rs_lambda s ! (i + 1) XOR rs_exp ((DiscrR + rs_b s ! i) mod 63)
                     else rs_lambda s ! (i + 1)) [0..<12]
           in if 2 * rs_el s \<le> r - 1
              then \<lparr>rs_lambda = t,
                    rs_b = map (\<lambda>i. if rs_lambda s ! i \<noteq> 0 then (rs_log (rs_lambda s ! i) + 63 - DiscrR) mod 63 else 63) [0..<13],
                    rs_el = r - rs_el s\<rparr>
              else s\<lparr>rs_lambda := t, rs_b := rs24_shift (rs_b s)\<rparr>)"

definition rs24_berlekamp :: "nat list \<Rightarrow> rs24_bm" where
  "rs24_berlekamp S = fold (rs24_bm_step S) [1..<13]
     \<lparr>rs_lambda = (replicate 13 0)[0 := 1], rs_b = map rs_log ((replicate 13 0)[0 := 1]), rs_el = 0\<rparr>"

definition rs24_degree :: "nat list \<Rightarrow> nat" where
  "rs24_degree lambda = fold (\<lambda>i d. if lambda ! i \<noteq> 63 then i else d) [0..<13] 0"

text \<open>One candidate of the Chien search: the registers advance and are summed to \<open>q\<close>.\<close>

definition rs24_chien_step :: "nat \<Rightarrow> nat list \<Rightarrow> nat list \<times> u8" where
  "rs24_chien_step deg reg =
     fold (\<lambda>j (reg, q). if reg ! j \<noteq> 63
                        then (reg[j := (reg ! j + j) mod 63], q XOR rs_exp ((reg ! j + j) mod 63))
                        else (reg, q)) (rev [1..<deg + 1]) (reg, 1)"

text \<open>The search over the candidates; the loop stops when \<open>DegLambda\<close> roots are found.\<close>

fun rs24_chien :: "nat \<Rightarrow> nat list \<Rightarrow> nat list \<Rightarrow> nat list \<Rightarrow> nat list" where
  "rs24_chien deg reg root [] = root"
| "rs24_chien deg reg root (i # is) =
     (let (reg, q) = rs24_chien_step deg reg
      in if q = 0
         then let root = root @ [i]
              in if length root = deg then root else rs24_chien deg reg root is
         else rs24_chien deg reg root is)"

text \<open>The error evaluator in index form, and its degree.\<close>

definition rs24_omega_entry :: "nat list \<Rightarrow> nat list \<Rightarrow> nat \<Rightarrow> nat \<Rightarrow> u8" where
  "rs24_omega_entry S lambda deg i =
     fold (\<lambda>j tmp. if S ! (i - j) \<noteq> 63 \<and> lambda ! j \<noteq> 63
                   then tmp XOR rs_exp ((S ! (i - j) + lambda ! j) mod 63) else tmp)
       (rev [0..<(if deg < i then deg else i) + 1]) 0"

definition rs24_omega :: "nat list \<Rightarrow> nat list \<Rightarrow> nat \<Rightarrow> nat list \<times> nat" where
  "rs24_omega S lambda deg =
     (map (\<lambda>i. rs_log (rs24_omega_entry S lambda deg i)) [0..<12] @ [63],
      fold (\<lambda>i d. if rs24_omega_entry S lambda deg i \<noteq> 0 then i else d) [0..<12] 0)"

text \<open>
  The error values, last root first.  For \<open>DegLambda = 12\<close> the code reads the uninitialised
  \<open>lambda[13]\<close>, which has no value here either.
\<close>

definition rs24_fix :: "nat list \<Rightarrow> nat \<Rightarrow> nat list \<Rightarrow> nat \<Rightarrow> nat \<Rightarrow> bytes \<Rightarrow> bytes option" where
  "rs24_fix lambda deg omega degOmega root HB =
     (let locn = root - 1;
          num1 = fold (\<lambda>i v. if omega ! i \<noteq> 63 then v XOR rs_exp ((omega ! i + i * root) mod 63) else v)
            (rev [0..<degOmega + 1]) 0;
          num2 = rs_exp 0;
          den = fold (\<lambda>i v. if lambda ! (i + 1) \<noteq> 63 then v XOR rs_exp ((lambda ! (i + 1) + i * root) mod 63) else v)
            (rev (filter even [0..<(if deg < 12 then deg else 12) + 1])) 0
      in if den = 0 then None
         else Some (if num1 \<noteq> 0
                    then HB[locn := HB ! locn XOR rs_exp ((rs_log num1 + rs_log num2 + 63 - rs_log den) mod 63)]
                    else HB))"

definition rs241213_decode :: "bytes \<Rightarrow> bool \<times> bytes" where
  "rs241213_decode data =
     (let HB = map (\<lambda>i. bin2Hex data (6 * i)) [0..<24];
          synd = rs24_syndromes HB;
          S = map rs_log synd
      in if fold (OR) synd 0 = 0 then (True, data)
         else
           let lambda = map rs_log (rs_lambda (rs24_berlekamp S));
               deg = rs24_degree lambda;
               root = rs24_chien deg lambda [] [1..<64]
           in if deg \<noteq> length root then (False, data)
              else if \<exists>r\<in>set root. 24 \<le> r - 1 then (False, data)
              else
                let (omega, degOmega) = rs24_omega S lambda deg
                in case fold (\<lambda>r res. case res of None \<Rightarrow> None | Some HB \<Rightarrow> rs24_fix lambda deg omega degOmega r HB)
                       (rev root) (Some HB) of
                     None \<Rightarrow> (False, data)
                   | Some HB \<Rightarrow> (True, fold (\<lambda>i d. hex2Bin (HB ! i) d (6 * i)) [0..<12] data))"

subsection \<open>Index form\<close>

definition idx_val :: "nat \<Rightarrow> u8" where
  "idx_val i = (if i = 63 then 0 else alpha i)"

lemma idx_val_in [simp]: "idx_val i \<in> symbols"
  by (simp add: idx_val_def gf64.zero_in)

lemma rs_exp: "rs_exp (i mod 63) = alpha i"
  using exp_entry [of "i mod 63"] by (simp add: rs_exp_def)

lemma rs_log_0: "rs_log 0 = 63"
  by (simp add: rs_log_def rsGFlog_def)

lemma rs_log: "a \<in> symbols \<Longrightarrow> a \<noteq> 0 \<Longrightarrow> rs_log a < 63 \<and> alpha (rs_log a) = a"
  using log_entry [of a] by (simp add: rs_log_def symbols_iff)

lemma rs_log_le: "a \<in> symbols \<Longrightarrow> rs_log a \<le> 63"
  using rs_log [of a] rs_log_0 by (cases "a = 0") auto

lemma rs_log_63: "a \<in> symbols \<Longrightarrow> rs_log a = 63 \<longleftrightarrow> a = 0"
  using rs_log [of a] rs_log_0 by (cases "a = 0") auto

lemma idx_val_log [simp]: "a \<in> symbols \<Longrightarrow> idx_val (rs_log a) = a"
  using rs_log [of a] rs_log_0 by (cases "a = 0") (auto simp: idx_val_def)

lemma idx_val_mod [simp]: "idx_val (i mod 63) = alpha i"
  using mod_less_divisor [of 63 i] by (simp add: idx_val_def)

lemma exp_product:
  "a \<in> symbols \<Longrightarrow> (if a \<noteq> 0 \<and> s \<noteq> 63 then rs_exp ((rs_log a + s) mod 63) else 0) = gf6Mult a (idx_val s)"
  using rs_log [of a] by (auto simp: rs_exp idx_val_def alpha_mult [symmetric])

lemma exp_scaled: "a \<in> symbols \<Longrightarrow> a \<noteq> 0 \<Longrightarrow> rs_exp ((rs_log a + i) mod 63) = gf6Mult a (alpha i)"
  using rs_log [of a] by (simp add: rs_exp alpha_mult [symmetric])

subsection \<open>Syndromes\<close>

lemma rs24_syndromes:
  assumes HB: "set HB \<subseteq> symbols" "length HB = 24"
  shows "rs24_syndromes HB = map (\<lambda>i. horner gf6Mult (alpha (i + 1)) HB) [0..<12]"
proof -
  have "fold (\<lambda>j S. map (\<lambda>i. if S ! i = 0 then HB ! j else HB ! j XOR rs_exp ((rs_log (S ! i) + i + 1) mod 63)) [0..<12])
      [1..<Suc m] (replicate 12 (HB ! 0)) = map (\<lambda>i. horner gf6Mult (alpha (i + 1)) (take (Suc m) HB)) [0..<12]"
    if "m < 24" for m
    using that
  proof (induction m)
    case 0
    have "HB \<noteq> []" using HB(2) by auto
    then have "take (Suc 0) HB = [HB ! 0]" by (cases HB) simp_all
    then show ?case by (simp add: map_replicate_const horner_def gf64.mul_0)
  next
    case (Suc m)
    let ?S = "map (\<lambda>i. horner gf6Mult (alpha (i + 1)) (take (Suc m) HB)) [0..<12]"
    have e: "[1..<Suc (Suc m)] = [1..<Suc m] @ [Suc m]" by simp
    have tk: "take (Suc (Suc m)) HB = take (Suc m) HB @ [HB ! Suc m]"
      using Suc.prems HB(2) by (simp add: take_Suc_conv_app_nth)
    have entry: "(if ?S ! i = 0 then HB ! Suc m else HB ! Suc m XOR rs_exp ((rs_log (?S ! i) + i + 1) mod 63)) =
        horner gf6Mult (alpha (i + 1)) (take (Suc (Suc m)) HB)" if "i < 12" for i
    proof -
      let ?h = "horner gf6Mult (alpha (i + 1)) (take (Suc m) HB)"
      have h: "?h \<in> symbols" using HB(1) by (intro gf64.horner_in alpha_in) (meson set_take_subset subset_trans)
      have "horner gf6Mult (alpha (i + 1)) (take (Suc (Suc m)) HB) = gf6Mult ?h (alpha (i + 1)) XOR HB ! Suc m"
        by (simp only: tk horner_snoc)
      moreover have "?S ! i = ?h" using that by simp
      ultimately show ?thesis
        using h exp_scaled [OF h, of "i + 1"] gf64.mul_0 by (simp add: ac_simps)
    qed
    show ?case
      unfolding e fold_append comp_apply fold.simps id_apply Suc.IH [OF Suc_lessD [OF Suc.prems]]
      by (intro map_cong refl entry) simp
  qed
  from this [of 23] show ?thesis using HB(2) by (simp add: rs24_syndromes_def)
qed

subsection \<open>Berlekamp-Massey\<close>

lemma rs24_shift:
  assumes "length b = 13"
  shows "length (rs24_shift b) = 13" "rs24_shift b ! 0 = 63" "\<And>i. 0 < i \<Longrightarrow> i < 13 \<Longrightarrow> rs24_shift b ! i = b ! (i - 1)"
proof -
  have "length (fold (\<lambda>i b. b[i := b ! (i - 1)]) (rev [Suc m..<13]) b) = 13 \<and>
      (\<forall>i<13. fold (\<lambda>i b. b[i := b ! (i - 1)]) (rev [Suc m..<13]) b ! i = (if m < i then b ! (i - 1) else b ! i))"
    if "m \<le> 12" for m
    using that
  proof (induction "12 - m" arbitrary: m)
    case 0
    then show ?case using assms by simp
  next
    case (Suc k)
    have e: "rev [Suc m..<13] = rev [Suc (Suc m)..<13] @ [Suc m]"
      using Suc by (simp add: upt_conv_Cons)
    show ?case unfolding e fold_append using Suc.hyps(1) [of "Suc m"] Suc.hyps(2) Suc.prems
      by (auto simp: nth_list_update)
  qed
  from this [of 0] show "length (rs24_shift b) = 13" "rs24_shift b ! 0 = 63"
    "\<And>i. 0 < i \<Longrightarrow> i < 13 \<Longrightarrow> rs24_shift b ! i = b ! (i - 1)"
    unfolding rs24_shift_def by auto
qed

text \<open>The array \<open>b\<close> is the remembered polynomial over its discrepancy, shifted by \<open>m - 1\<close>.\<close>

definition rs_inv :: "u8 \<Rightarrow> u8" where
  "rs_inv b = rs6_quot 1 b"

lemma rs_inv: "b \<in> symbols \<Longrightarrow> b \<noteq> 0 \<Longrightarrow> rs_inv b \<in> symbols \<and> gf6Mult (rs_inv b) b = 1"
  unfolding rs_inv_def using rs6_quot [of 1 b] gf64.one_in by simp

definition rs24_sim :: "(nat \<Rightarrow> u8) \<Rightarrow> nat \<Rightarrow> rs24_bm \<Rightarrow> (nat \<Rightarrow> u8) \<Rightarrow> nat \<Rightarrow> u8 \<Rightarrow> bool" where
  "rs24_sim S k s p m bb \<longleftrightarrow> length (rs_lambda s) = 13 \<and> length (rs_b s) = 13 \<and>
     gf64.bm_inv S k (nz (rs_lambda s)) (rs_el s) p m bb \<and>
     (\<forall>i<13. rs_b s ! i \<le> 63 \<and> idx_val (rs_b s ! i) = (if i + 1 < m then 0 else gf6Mult (rs_inv bb) (p (i + 1 - m))))"

lemma rs24_discr:
  assumes F: "gf64.in_field (nz l)" "gf64.in_field Sy" and len: "length l = 13" and k: "k < 12"
    and L: "L \<le> k" "\<And>i. L < i \<Longrightarrow> nz l i = 0" and S: "\<And>j. j < 12 \<Longrightarrow> S ! j = rs_log (Sy (j + 1))"
  shows "rs24_discr S (Suc k) l = gf64.conv (nz l) L Sy (Suc k)"
proof -
  have "(if l ! i \<noteq> 0 \<and> S ! (Suc k - i - 1) \<noteq> 63 then rs_exp ((rs_log (l ! i) + S ! (Suc k - i - 1)) mod 63) else 0) =
      gf6Mult (nz l i) (Sy (Suc k - i))" if "i < Suc k" for i
  proof -
    have i: "i < length l" "Suc k - i - 1 < 12" "Suc k - i - 1 + 1 = Suc k - i" using that k len by auto
    then have "l ! i = nz l i" "S ! (Suc k - i - 1) = rs_log (Sy (Suc k - i))" using S [of "Suc k - i - 1"] by (simp_all add: nz_def)
    then show ?thesis using exp_product [of "nz l i"] F by (simp only: gf64.in_fieldD idx_val_log)
  qed
  then have "rs24_discr S (Suc k) l = gsum (\<lambda>i. gf6Mult (nz l i) (Sy (Suc k - i))) (Suc k)"
    unfolding rs24_discr_def fold_xor_if gsum_def xor.left_neutral
    by (intro arg_cong [where f = xsum] map_cong refl) (simp only: set_upt atLeastLessThan_iff)
  also have "\<dots> = gf64.conv (nz l) L Sy (Suc k)"
    unfolding gf64.conv_def using L F by (intro gsum_extend) auto
  finally show ?thesis .
qed

lemma rs24_sim_shift:
  assumes b: "length b = 13" "0 < m" and v: "\<forall>i<13. b ! i \<le> 63 \<and> idx_val (b ! i) = (if i + 1 < m then 0 else f (i + 1 - m))"
  shows "\<forall>i<13. rs24_shift b ! i \<le> 63 \<and> idx_val (rs24_shift b ! i) = (if i + 1 < Suc m then 0 else f (i + 1 - Suc m))"
proof (intro allI impI)
  fix i :: nat assume i: "i < 13"
  show "rs24_shift b ! i \<le> 63 \<and> idx_val (rs24_shift b ! i) = (if i + 1 < Suc m then 0 else f (i + 1 - Suc m))"
  proof (cases i)
    case 0
    then show ?thesis using b rs24_shift(2) [OF b(1)] by (simp add: idx_val_def)
  next
    case (Suc j)
    then show ?thesis using i b v rs24_shift(3) [OF b(1), of i] by simp
  qed
qed

lemma rs24_fix_lambda:
  assumes F: "gf64.in_field (nz l)" "gf64.in_field p" "bb \<in> symbols" "bb \<noteq> 0" "d \<in> symbols" "d \<noteq> 0"
    and len: "length l = 13" "length b = 13" "0 < m"
    and v: "\<forall>i<13. b ! i \<le> 63 \<and> idx_val (b ! i) = (if i + 1 < m then 0 else gf6Mult (rs_inv bb) (p (i + 1 - m)))"
    and z: "\<And>i. 13 \<le> i \<Longrightarrow> gf64.bm_fix (nz l) p (rs6_quot d bb) m i = 0"
  shows "nz ((l ! 0) # map (\<lambda>i. if b ! i \<noteq> 63 then l ! (i + 1) XOR rs_exp ((rs_log d + b ! i) mod 63) else l ! (i + 1)) [0..<12]) =
    gf64.bm_fix (nz l) p (rs6_quot d bb) m" (is "nz ?t = ?fix")
proof
  fix i
  have q: "rs6_quot d bb = gf6Mult d (rs_inv bb)"
  proof -
    have "gf6Mult (rs6_quot d bb) bb = gf6Mult (gf6Mult d (rs_inv bb)) bb"
      using rs6_quot [of d bb] rs_inv [of bb] F by (simp add: gf64.mul_assoc)
    then have "gf6Mult bb (rs6_quot d bb) = gf6Mult bb (gf6Mult d (rs_inv bb))"
      using F rs_inv [of bb] rs6_quot_in by (simp add: gf64.mul_commute [of bb] gf64.mul_in)
    then show ?thesis using gf64.mul_cancel [of bb] F rs_inv [of bb] rs6_quot_in by (simp add: gf64.mul_in)
  qed
  consider "i = 0" | j where "i = Suc j" "j < 12" | "13 \<le> i" by (cases i; force)
  then show "nz ?t i = ?fix i"
  proof cases
    case 1
    then show ?thesis using len by (simp add: nz_def gf64.bm_fix_def)
  next
    case 2
    have s: "(if b ! j \<noteq> 63 then rs_exp ((rs_log d + b ! j) mod 63) else 0) = gf6Mult d (idx_val (b ! j))"
      using exp_product [of d "b ! j"] F by simp
    have "nz ?t i = l ! i XOR (if b ! j \<noteq> 63 then rs_exp ((rs_log d + b ! j) mod 63) else 0)"
      using 2 by (simp add: nz_def)
    also have "\<dots> = nz l i XOR gf6Mult d (if j + 1 < m then 0 else gf6Mult (rs_inv bb) (p (j + 1 - m)))"
      unfolding s using 2 v len by (simp add: nz_def)
    also have "\<dots> = ?fix i"
      unfolding gf64.bm_fix_def q using 2 F rs_inv [of bb] by (auto simp: gf64.mul_assoc)
    finally show ?thesis .
  next
    case 3
    then show ?thesis using z [of i] len by (simp add: nz_def)
  qed
qed

lemma log_quotient:
  assumes "a \<in> symbols" "a \<noteq> 0" "d \<in> symbols" "d \<noteq> 0"
  shows "alpha (rs_log a + 63 - rs_log d) = gf6Mult (rs_inv d) a"
proof -
  have l: "rs_log a < 63" "alpha (rs_log a) = a" "rs_log d < 63" "alpha (rs_log d) = d" using rs_log assms by auto
  have i: "rs_inv d \<in> symbols" "gf6Mult (rs_inv d) d = 1" using rs_inv assms by auto
  have "gf6Mult d (alpha (rs_log a + 63 - rs_log d)) = alpha (rs_log d + (rs_log a + 63 - rs_log d))"
    using alpha_mult [of "rs_log d"] l(4) by simp
  also have "\<dots> = alpha (rs_log a)" using l(1,3) by (intro alpha_cong) simp
  also have "\<dots> = gf6Mult d (gf6Mult (rs_inv d) a)"
    using l(2) i assms gf64.mul_assoc [of d "rs_inv d" a] gf64.mul_commute [of d "rs_inv d"] by simp
  finally show ?thesis
    using gf64.mul_cancel [of d "alpha (rs_log a + 63 - rs_log d)" "gf6Mult (rs_inv d) a"] i assms by (simp add: gf64.mul_in)
qed

lemma rs24_bm_step:
  assumes sim: "rs24_sim Sy k s p m bb" and Sy: "gf64.in_field Sy" and k: "k < 12"
    and S: "\<And>j. j < 12 \<Longrightarrow> S ! j = rs_log (Sy (j + 1))"
    and t: "rs_el s \<le> t" "\<And>c n p m b. gf64.bm_inv Sy k c n p m b \<Longrightarrow> gf64.conv c n Sy (Suc k) \<noteq> 0 \<Longrightarrow> Suc k - n \<le> t"
  shows "\<exists>p m bb. rs24_sim Sy (Suc k) (rs24_bm_step S (Suc k) s) p m bb \<and> rs_el (rs24_bm_step S (Suc k) s) \<le> t"
proof -
  obtain l b n where s_eq: "s = \<lparr>rs_lambda = l, rs_b = b, rs_el = n\<rparr>" by (cases s)
  have inv: "gf64.bm_inv Sy k (nz l) n p m bb" and len: "length l = 13" "length b = 13"
    and v: "\<forall>i<13. b ! i \<le> 63 \<and> idx_val (b ! i) = (if i + 1 < m then 0 else gf6Mult (rs_inv bb) (p (i + 1 - m)))"
    using sim by (simp_all add: rs24_sim_def s_eq)
  have I: "gf64.in_field (nz l)" "gf64.in_field p" "nz l 0 = 1" "n \<le> k" "m \<le> Suc k" "0 < m" "bb \<in> symbols" "bb \<noteq> 0"
    "\<And>i. n < i \<Longrightarrow> nz l i = 0"
    using inv by (auto simp: gf64.bm_inv_def)
  let ?d = "gf64.conv (nz l) n Sy (Suc k)"
  have d: "rs24_discr S (Suc k) l = ?d" by (rule rs24_discr [OF I(1) Sy len(1) k I(4,9) S])
  have d_in: "?d \<in> symbols" using I(1) Sy by (rule gf64.conv_in)
  note sh = rs24_sim_shift [OF len(2) I(6) v] rs24_shift(1) [OF len(2)]
  show ?thesis
  proof (cases "?d = 0")
    case True
    then have "rs24_sim Sy (Suc k) (rs24_bm_step S (Suc k) s) p (Suc m) bb"
      using gf64.bm_step_zero [OF inv True] d len sh by (simp add: rs24_bm_step_def rs24_sim_def s_eq rs_log_0)
    moreover have "rs_el (rs24_bm_step S (Suc k) s) \<le> t"
      using t(1) d True by (simp add: rs24_bm_step_def s_eq rs_log_0)
    ultimately show ?thesis by blast
  next
    case False
    let ?a = "rs6_quot ?d bb" and ?n = "if 2 * n \<le> k then Suc k - n else n"
    let ?t = "(l ! 0) # map (\<lambda>i. if b ! i \<noteq> 63 then l ! (i + 1) XOR rs_exp ((rs_log ?d + b ! i) mod 63) else l ! (i + 1)) [0..<12]"
    have a: "?a \<in> symbols" "gf6Mult ?a bb = ?d" using rs6_quot [of ?d bb] False d_in I by simp_all
    have ne: "rs_log ?d \<noteq> 63" using rs_log_63 [OF d_in] False by simp
    have "\<forall>i>?n. gf64.bm_fix (nz l) p ?a m i = 0"
      using gf64.bm_step_fix [OF inv Sy refl False a, of ?n] by simp
    then have fix_l: "nz ?t = gf64.bm_fix (nz l) p ?a m"
      using I k by (intro rs24_fix_lambda len v d_in False) (auto split: if_splits)
    show ?thesis
    proof (cases "2 * n \<le> k")
      case True
      let ?b = "map (\<lambda>i. if l ! i \<noteq> 0 then (rs_log (l ! i) + 63 - rs_log ?d) mod 63 else 63) [0..<13]"
      have "?b ! i \<le> 63 \<and> idx_val (?b ! i) = gf6Mult (rs_inv ?d) (nz l i)" if i: "i < 13" for i
      proof (cases "l ! i = 0")
        case True
        then show ?thesis using i len rs_inv [OF d_in False] by (simp add: nz_def idx_val_def del: upt_Suc)
      next
        case nonzero: False
        have li: "l ! i \<in> symbols" "nz l i = l ! i" using gf64.in_fieldD [OF I(1), of i] i len by (simp_all add: nz_def)
        have "?b ! i = (rs_log (l ! i) + 63 - rs_log ?d) mod 63" using i nonzero by (simp del: upt_Suc)
        moreover have "alpha (rs_log (l ! i) + 63 - rs_log ?d) = gf6Mult (rs_inv ?d) (l ! i)"
          by (rule log_quotient [OF li(1) nonzero d_in False])
        moreover have "x mod 63 \<le> 63" for x :: nat using mod_less_divisor [of 63 x] by linarith
        ultimately show ?thesis using li(2) by (simp only: idx_val_mod)
      qed
      then have b: "\<forall>i<13. ?b ! i \<le> 63 \<and> idx_val (?b ! i) = (if i + 1 < 1 then 0 else gf6Mult (rs_inv ?d) (nz l (i + 1 - 1)))"
        by (simp del: nth_map)
      have st: "rs24_bm_step S (Suc k) s = \<lparr>rs_lambda = ?t, rs_b = ?b, rs_el = Suc k - n\<rparr>"
        using d ne True by (simp add: rs24_bm_step_def s_eq Let_def del: upt_Suc)
      have "length ?t = 13" "length ?b = 13" by simp_all
      then have "rs24_sim Sy (Suc k) (rs24_bm_step S (Suc k) s) (nz l) 1 ?d"
        using gf64.bm_step_grow [OF inv Sy refl False a True] b
        unfolding rs24_sim_def st rs24_bm.simps fix_l by blast
      moreover have "rs_el (rs24_bm_step S (Suc k) s) \<le> t"
        using t(2) [OF inv False] d ne True by (simp add: rs24_bm_step_def s_eq Let_def)
      ultimately show ?thesis by blast
    next
      case short: False
      have st: "rs24_bm_step S (Suc k) s = \<lparr>rs_lambda = ?t, rs_b = rs24_shift b, rs_el = n\<rparr>"
        using d ne short by (simp add: rs24_bm_step_def s_eq Let_def del: upt_Suc)
      have "length ?t = 13" "k < 2 * n" using short by simp_all
      then have "rs24_sim Sy (Suc k) (rs24_bm_step S (Suc k) s) p (Suc m) bb"
        using gf64.bm_step_short [OF inv Sy refl False a] sh
        unfolding rs24_sim_def st rs24_bm.simps fix_l by blast
      moreover have "rs_el (rs24_bm_step S (Suc k) s) \<le> t"
        using t(1) d ne short by (simp add: rs24_bm_step_def s_eq Let_def)
      ultimately show ?thesis by blast
    qed
  qed
qed

lemma rs24_init:
  "rs24_sim Sy 0 \<lparr>rs_lambda = (replicate 13 0)[0 := 1], rs_b = map rs_log ((replicate 13 0)[0 := 1]), rs_el = 0\<rparr>
    (\<lambda>i. if i = 0 then 1 else 0) 1 1"
proof -
  let ?l = "(replicate 13 0)[0 := 1] :: bytes"
  have "nz ?l = (\<lambda>i. if i = 0 then 1 else 0)" by (rule ext) (simp add: nz_def nth_list_update)
  moreover have "rs_log (?l ! i) \<le> 63 \<and> idx_val (rs_log (?l ! i)) = gf6Mult (rs_inv 1) (if i = 0 then 1 else 0)" if "i < 13" for i
  proof -
    have "rs_inv 1 = 1" using rs_inv [OF gf64.one_in] gf64.mul_1_right [of "rs_inv 1"] by fastforce
    moreover have "?l ! i = (if i = 0 then 1 else 0)" using that by (simp add: nth_list_update)
    ultimately show ?thesis using rs_log_le [OF gf64.one_in] rs_log_0 gf64.one_in gf64.zero_in by simp
  qed
  ultimately show ?thesis using gf64.bm_init [of Sy] by (simp add: rs24_sim_def del: list_update.simps replicate.simps)
qed

lemma rs24_berlekamp:
  assumes es: "gf64.pattern_ok es" and S: "\<And>j. j < 12 \<Longrightarrow> S ! j = rs_log (gf64.syndrome es (j + 1))"
  shows "\<exists>p m bb. rs24_sim (gf64.syndrome es) 12 (rs24_berlekamp S) p m bb \<and> rs_el (rs24_berlekamp S) \<le> length es"
proof -
  let ?init = "\<lparr>rs_lambda = (replicate 13 0)[0 := 1], rs_b = map rs_log ((replicate 13 0)[0 := 1]), rs_el = 0\<rparr>"
  have Sy: "gf64.in_field (gf64.syndrome es)" using gf64.syndrome_in [OF es] by (simp add: gf64.in_field_def)
  have "\<exists>p m bb. rs24_sim (gf64.syndrome es) k (fold (rs24_bm_step S) [1..<Suc k] ?init) p m bb \<and>
      rs_el (fold (rs24_bm_step S) [1..<Suc k] ?init) \<le> length es" if "k \<le> 12" for k
    using that
  proof (induction k)
    case 0
    then show ?case using rs24_init [of "gf64.syndrome es"] by force
  next
    case (Suc k)
    let ?s = "fold (rs24_bm_step S) [1..<Suc k] ?init"
    obtain p m bb where s: "rs24_sim (gf64.syndrome es) k ?s p m bb" "rs_el ?s \<le> length es" using Suc by auto
    have e: "fold (rs24_bm_step S) [1..<Suc (Suc k)] ?init = rs24_bm_step S (Suc k) ?s" by (subst upt_Suc) simp
    have "k < 12" using Suc.prems by simp
    show ?case unfolding e
    proof (rule rs24_bm_step [OF s(1) Sy \<open>k < 12\<close> S s(2)])
      show "Suc k - n \<le> length es" if "gf64.bm_inv (gf64.syndrome es) k c n p m b" "gf64.conv c n (gf64.syndrome es) (Suc k) \<noteq> 0" for c n p m b
        by (rule gf64.bm_grow_bound [OF that(1) es that(2)])
    qed
  qed
  from this [of 12] show ?thesis by (simp add: rs24_berlekamp_def del: upt_Suc)
qed

subsection \<open>The roots\<close>

lemma rs24_degree:
  assumes "length l = 13"
  shows "rs24_degree l \<le> 12" "\<And>i. rs24_degree l < i \<Longrightarrow> i < 13 \<Longrightarrow> l ! i = 63"
proof -
  have "fold (\<lambda>i d. if l ! i \<noteq> 63 then i else d) [0..<m] 0 \<le> m - 1 \<and>
      (\<forall>i<m. fold (\<lambda>i d. if l ! i \<noteq> 63 then i else d) [0..<m] 0 < i \<longrightarrow> l ! i = 63)" for m
  proof (induction m)
    case (Suc m)
    then show ?case unfolding fold_upt_Suc by (auto simp: less_Suc_eq)
  qed simp
  from this [of 13] show "rs24_degree l \<le> 12" "\<And>i. rs24_degree l < i \<Longrightarrow> i < 13 \<Longrightarrow> l ! i = 63"
    unfolding rs24_degree_def by auto
qed

text \<open>The registers of candidate \<open>i\<close>: coefficient \<open>j\<close> times \<open>alpha ^ (i * j)\<close>.\<close>

definition chien_regs :: "nat list \<Rightarrow> nat \<Rightarrow> nat \<Rightarrow> nat list \<Rightarrow> bool" where
  "chien_regs l deg i reg \<longleftrightarrow> length reg = 13 \<and>
     (\<forall>j. 1 \<le> j \<and> j \<le> deg \<longrightarrow> reg ! j \<le> 63 \<and> idx_val (reg ! j) = gf6Mult (idx_val (l ! j)) (alpha (i * j)))"

lemma rs24_chien_step:
  assumes r: "chien_regs l deg i reg" and deg: "deg \<le> 12"
  shows "chien_regs l deg (Suc i) (fst (rs24_chien_step deg reg))"
    "snd (rs24_chien_step deg reg) = 1 XOR gsum (\<lambda>j. gf6Mult (idx_val (l ! Suc j)) (alpha (Suc i * Suc j))) deg"
proof -
  let ?step = "\<lambda>j (reg, q). if reg ! j \<noteq> 63
      then (reg[j := (reg ! j + j) mod 63], q XOR rs_exp ((reg ! j + j) mod 63)) else (reg, q :: u8)"
  have "fold ?step (rev [1..<m + 1]) (reg, q) =
      (map (\<lambda>j. if 1 \<le> j \<and> j \<le> m \<and> reg ! j \<noteq> 63 then (reg ! j + j) mod 63 else reg ! j) [0..<13],
       q XOR gsum (\<lambda>j. if reg ! Suc j \<noteq> 63 then alpha (reg ! Suc j + Suc j) else 0) m)"
    if "m \<le> 12" "length reg = 13" for m reg q
    using that
  proof (induction m arbitrary: reg q)
    case 0
    have "map (\<lambda>j. if 1 \<le> j \<and> j \<le> 0 \<and> reg ! j \<noteq> 63 then (reg ! j + j) mod 63 else reg ! j) [0..<13] = reg"
      using 0 by (intro nth_equalityI) auto
    then show ?case by (simp del: upt_Suc)
  next
    case (Suc m)
    have e: "rev [1..<Suc m + 1] = Suc m # rev [1..<m + 1]" by simp
    let ?r = "if reg ! Suc m \<noteq> 63 then reg[Suc m := (reg ! Suc m + Suc m) mod 63] else reg"
    let ?q = "if reg ! Suc m \<noteq> 63 then q XOR alpha (reg ! Suc m + Suc m) else q"
    have s: "?step (Suc m) (reg, q) = (?r, ?q)" by (simp add: rs_exp del: funpow.simps)
    have o: "?r ! j = reg ! j" if "j \<noteq> Suc m" for j using that by simp
    have "fold ?step (rev [1..<Suc m + 1]) (reg, q) = fold ?step (rev [1..<m + 1]) (?r, ?q)"
      unfolding e by (simp only: fold_Cons comp_apply s)
    also have "\<dots> = (map (\<lambda>j. if 1 \<le> j \<and> j \<le> m \<and> ?r ! j \<noteq> 63 then (?r ! j + j) mod 63 else ?r ! j) [0..<13],
       ?q XOR gsum (\<lambda>j. if ?r ! Suc j \<noteq> 63 then alpha (?r ! Suc j + Suc j) else 0) m)"
      using Suc.prems by (intro Suc.IH) auto
    also have "map (\<lambda>j. if 1 \<le> j \<and> j \<le> m \<and> ?r ! j \<noteq> 63 then (?r ! j + j) mod 63 else ?r ! j) [0..<13] =
        map (\<lambda>j. if 1 \<le> j \<and> j \<le> Suc m \<and> reg ! j \<noteq> 63 then (reg ! j + j) mod 63 else reg ! j) [0..<13]"
      using Suc.prems by (intro map_cong refl) (auto simp: nth_list_update le_Suc_eq)
    also have "gsum (\<lambda>j. if ?r ! Suc j \<noteq> 63 then alpha (?r ! Suc j + Suc j) else 0) m =
        gsum (\<lambda>j. if reg ! Suc j \<noteq> 63 then alpha (reg ! Suc j + Suc j) else 0) m"
      by (rule gsum_cong) (simp add: o del: funpow.simps)
    finally show ?case by (simp add: ac_simps del: upt_Suc funpow.simps)
  qed
  from this [of deg reg 1] have step: "rs24_chien_step deg reg =
      (map (\<lambda>j. if 1 \<le> j \<and> j \<le> deg \<and> reg ! j \<noteq> 63 then (reg ! j + j) mod 63 else reg ! j) [0..<13],
       1 XOR gsum (\<lambda>j. if reg ! Suc j \<noteq> 63 then alpha (reg ! Suc j + Suc j) else 0) deg)"
    using r deg by (simp add: rs24_chien_step_def chien_regs_def del: upt_Suc)
  have adv: "(if reg ! j \<noteq> 63 then alpha (reg ! j + j) else 0) = gf6Mult (idx_val (l ! j)) (alpha (Suc i * j))" if j: "1 \<le> j" "j \<le> deg" for j
  proof -
    have v: "reg ! j \<le> 63" "idx_val (reg ! j) = gf6Mult (idx_val (l ! j)) (alpha (i * j))"
      using r j by (auto simp: chien_regs_def)
    have "gf6Mult (idx_val (l ! j)) (alpha (Suc i * j)) = gf6Mult (idx_val (reg ! j)) (alpha j)"
      unfolding v(2) by (simp add: gf64.mul_assoc alpha_mult add.commute)
    then show ?thesis by (simp add: idx_val_def alpha_mult)
  qed
  show "snd (rs24_chien_step deg reg) = 1 XOR gsum (\<lambda>j. gf6Mult (idx_val (l ! Suc j)) (alpha (Suc i * Suc j))) deg"
    unfolding step snd_conv by (intro arg_cong2 [where f = "(XOR)"] gsum_cong refl adv) simp_all
  have "length (fst (rs24_chien_step deg reg)) = 13" by (simp add: step)
  moreover have "fst (rs24_chien_step deg reg) ! j \<le> 63 \<and>
      idx_val (fst (rs24_chien_step deg reg) ! j) = gf6Mult (idx_val (l ! j)) (alpha (Suc i * j))"
    if j: "1 \<le> j" "j \<le> deg" for j
  proof -
    have n: "fst (rs24_chien_step deg reg) ! j = (if reg ! j \<noteq> 63 then (reg ! j + j) mod 63 else reg ! j)"
      using j deg by (simp add: step del: upt_Suc)
    have "x mod 63 \<le> 63" for x :: nat using mod_less_divisor [of 63 x] by linarith
    moreover have "idx_val 63 = 0" by (simp add: idx_val_def)
    ultimately show ?thesis unfolding n adv [OF j, symmetric] by auto
  qed
  ultimately show "chien_regs l deg (Suc i) (fst (rs24_chien_step deg reg))" by (simp add: chien_regs_def)
qed

text \<open>Every root the search reports is one.\<close>

lemma rs24_chien_sound:
  assumes deg: "deg \<le> 12" and r: "chien_regs l deg (i - 1) reg" "1 \<le> i"
    and root: "\<And>x. x \<in> set root \<Longrightarrow> P x"
    and P: "\<And>x. 1 XOR gsum (\<lambda>j. gf6Mult (idx_val (l ! Suc j)) (alpha (x * Suc j))) deg = 0 \<Longrightarrow> i \<le> x \<Longrightarrow> x < n \<Longrightarrow> P x"
    and x: "x \<in> set (rs24_chien deg reg root [i..<n])"
  shows "P x"
  using r root P x
proof (induction "[i..<n]" arbitrary: i reg root)
  case Nil
  then show ?case by simp
next
  case (Cons a ks)
  have a: "a = i" "ks = [Suc i..<n]" "i < n" using Cons.hyps(2) [symmetric] by (auto simp: upt_eq_Cons_conv)
  have e: "[i..<n] = i # [Suc i..<n]" using a by (simp add: upt_conv_Cons)
  obtain reg' q where s: "rs24_chien_step deg reg = (reg', q)" by (cases "rs24_chien_step deg reg")
  have reg': "chien_regs l deg (Suc i - 1) reg'"
    using rs24_chien_step(1) [OF Cons.prems(1) deg] s Cons.prems(2) by simp
  have q: "q = 0 \<Longrightarrow> P i"
    using rs24_chien_step(2) [OF Cons.prems(1) deg] s Cons.prems(2,4) a(3) by simp
  have P': "P y" if "1 XOR gsum (\<lambda>j. gf6Mult (idx_val (l ! Suc j)) (alpha (y * Suc j))) deg = 0" "Suc i \<le> y" "y < n" for y
    using Cons.prems(4) that by simp
  show ?case
  proof (cases "q = 0")
    case True
    have root': "\<And>y. y \<in> set (root @ [i]) \<Longrightarrow> P y" using q [OF True] Cons.prems(3) by auto
    show ?thesis
    proof (cases "length (root @ [i]) = deg")
      case True
      then show ?thesis using Cons.prems(5) root' s \<open>q = 0\<close> unfolding e by (simp del: upt_Suc)
    next
      case False
      then have "x \<in> set (rs24_chien deg reg' (root @ [i]) [Suc i..<n])"
        using Cons.prems(5) s \<open>q = 0\<close> unfolding e by (simp del: upt_Suc)
      from Cons.hyps(1) [OF a(2) reg' _ root' P' this] show ?thesis by simp
    qed
  next
    case False
    then have "x \<in> set (rs24_chien deg reg' root [Suc i..<n])"
      using Cons.prems(5) s unfolding e by (simp del: upt_Suc)
    from Cons.hyps(1) [OF a(2) reg' _ Cons.prems(3) P' this] show ?thesis by simp
  qed
qed

subsection \<open>The decoder corrects nothing\<close>

text \<open>
  The search stores \<open>root - 1\<close> as the error position.  With the 24 symbols of the shortened code
  a root of symbol \<open>i\<close> is found at \<open>40 + i\<close>, so every real error position is at least 39 and the
  range test that follows refuses the block.
\<close>

lemma rs24_refuses:
  assumes sent: "length cw0 = 24" "rs6_word 12 cw0"
    and near: "length (rs6_diff cw0 (rs6_symbols data 24)) \<le> 6"
  shows "rs241213_decode data = (rs6_symbols data 24 = cw0, data)"
proof -
  let ?cw = "rs6_symbols data 24" and ?es = "rs6_errors cw0 (rs6_symbols data 24)"
  let ?synd = "map (\<lambda>i. horner gf6Mult (alpha (i + 1)) ?cw) [0..<12]"
  let ?S = "map rs_log ?synd"
  note cw = rs6_symbols_in [of data 24]
  have HB: "map (\<lambda>i. bin2Hex data (6 * i)) [0..<24] = ?cw" by (simp add: rs6_symbols_def)
  have synd: "rs24_syndromes ?cw = ?synd" by (rule rs24_syndromes [OF cw])
  have F0: "set cw0 \<subseteq> symbols" "\<And>j. 1 \<le> j \<Longrightarrow> j \<le> 12 \<Longrightarrow> horner gf6Mult (alpha j) cw0 = 0"
    using sent(2) by (auto simp: rs6_word_def)
  have or_zero: "fold (OR) xs v = 0 \<longleftrightarrow> v = 0 \<and> (\<forall>x\<in>set xs. x = 0)" for xs and v :: u8
    by (induction xs arbitrary: v) (auto simp: or_eq_0_iff)
  have clean: "fold (OR) ?synd 0 = 0 \<longleftrightarrow> ?cw = cw0"
  proof
    assume "fold (OR) ?synd 0 = 0"
    then have z: "\<forall>i<12. horner gf6Mult (alpha (i + 1)) ?cw = 0" unfolding or_zero by (simp del: upt_Suc)
    have "horner gf6Mult (alpha j) cw0 = horner gf6Mult (alpha j) ?cw" if "1 \<le> j" "j \<le> 12" for j
      using spec [OF z, of "j - 1"] F0(2) [OF that] that by simp
    moreover have "length (filter (\<lambda>i. cw0 ! i \<noteq> ?cw ! i) [0..<24]) \<le> 12"
      using near by (simp add: rs6_diff_def cw(2))
    moreover have "inj_on alpha {..<24}" by (rule inj_on_subset [OF gf64_order]) auto
    ultimately show "?cw = cw0" using gf64.rs_distance [OF sent(1) cw(2) F0(1) cw(1)] by blast
  next
    assume eq: "?cw = cw0"
    have "x = 0" if x: "x \<in> set ?synd" for x
    proof -
      obtain i where "i < 12" "x = horner gf6Mult (alpha (i + 1)) ?cw" using x by (auto simp del: upt_Suc funpow.simps)
      then show ?thesis using F0(2) [of "i + 1"] eq by (simp del: funpow.simps)
    qed
    then show "fold (OR) ?synd 0 = 0" unfolding or_zero by blast
  qed
  show ?thesis
  proof (cases "?cw = cw0")
    case True
    then show ?thesis using clean unfolding rs241213_decode_def HB Let_def synd by (simp del: upt_Suc)
  next
    case False
    let ?s = "rs24_berlekamp ?S"
    let ?l = "map rs_log (rs_lambda ?s)"
    have es: "gf64.pattern_ok ?es" using rs6_pattern [of cw0 ?cw] sent cw F0 by simp
    have S: "?S ! j = rs_log (gf64.syndrome ?es (j + 1))" if "j < 12" for j
      using rs6_errors_syndrome [of cw0 ?cw 12 "j + 1"] sent cw that by (simp del: upt_Suc funpow.simps)
    obtain p m bb where sim: "rs24_sim (gf64.syndrome ?es) 12 ?s p m bb" "rs_el ?s \<le> length ?es"
      using rs24_berlekamp [OF es S] by blast
    have inv: "gf64.bm_inv (gf64.syndrome ?es) 12 (nz (rs_lambda ?s)) (rs_el ?s) p m bb" "length (rs_lambda ?s) = 13"
      using sim(1) by (auto simp: rs24_sim_def)
    have L: "gf64.located ?es (rs6_zs cw0 ?cw) (nz (rs_lambda ?s)) (rs_el ?s) 12"
      using sim(2) near by (intro rs6_located [OF _ _ cw(1) sent(2) _ inv(1)]) (simp_all add: sent cw(2) rs6_errors_def)
    have lv: "idx_val (?l ! j) = nz (rs_lambda ?s) j" "?l ! j = 63 \<Longrightarrow> nz (rs_lambda ?s) j = 0" if "j < 13" for j
    proof -
      have "nz (rs_lambda ?s) j \<in> symbols" using inv(1) by (simp add: gf64.bm_inv_def)
      then show "idx_val (?l ! j) = nz (rs_lambda ?s) j" "?l ! j = 63 \<Longrightarrow> nz (rs_lambda ?s) j = 0"
        using that inv(2) by (simp_all add: nz_def rs_log_63)
    qed
    let ?deg = "rs24_degree ?l"
    have deg: "?deg \<le> 12" "\<And>i. ?deg < i \<Longrightarrow> nz (rs_lambda ?s) i = 0"
    proof -
      have l13: "length ?l = 13" using inv(2) by simp
      show "?deg \<le> 12" by (rule rs24_degree(1) [OF l13])
      show "nz (rs_lambda ?s) i = 0" if "?deg < i" for i
        using rs24_degree(2) [OF l13 that] lv(2) [of i] inv(2) by (cases "i < 13") (simp_all add: nz_def)
    qed
    have poly: "1 XOR gsum (\<lambda>j. gf6Mult (idx_val (?l ! Suc j)) (alpha (x * Suc j))) ?deg =
        gf64.peval (nz (rs_lambda ?s)) (length ?es) (alpha x)" for x
    proof -
      let ?c = "nz (rs_lambda ?s)" and ?M = "max ?deg (length ?es)"
      have c: "gf64.in_field ?c" "?c 0 = 1" using inv(1) by (auto simp: gf64.bm_inv_def)
      have "gf64.peval ?c ?deg (alpha x) = ?c 0 XOR gsum (\<lambda>j. gf6Mult (?c (Suc j)) (gf64.gpow (alpha x) (Suc j))) ?deg"
        unfolding gf64.peval_def gsum_first using c by (simp add: gf64.one_in del: funpow.simps gf64.gpow_Suc)
      also have "gsum (\<lambda>j. gf6Mult (?c (Suc j)) (gf64.gpow (alpha x) (Suc j))) ?deg =
          gsum (\<lambda>j. gf6Mult (idx_val (?l ! Suc j)) (alpha (x * Suc j))) ?deg"
      proof (rule gsum_cong)
        fix j assume "j < ?deg"
        then show "gf6Mult (?c (Suc j)) (gf64.gpow (alpha x) (Suc j)) = gf6Mult (idx_val (?l ! Suc j)) (alpha (x * Suc j))"
          using deg(1) lv(1) [of "Suc j"] by (simp only: alpha_gpow)
      qed
      finally have "gf64.peval ?c ?deg (alpha x) = 1 XOR gsum (\<lambda>j. gf6Mult (idx_val (?l ! Suc j)) (alpha (x * Suc j))) ?deg"
        using c(2) by simp
      moreover have "gf64.peval ?c ?M (alpha x) = gf64.peval ?c ?deg (alpha x)"
        using deg(2) by (intro gf64.peval_length alpha_in) auto
      moreover have "gf64.peval ?c ?M (alpha x) = gf64.peval ?c (length ?es) (alpha x)"
        using gf64.locatedD(6) [OF L] gf64.located_length [OF L] by (intro gf64.peval_length alpha_in) auto
      ultimately show ?thesis by simp
    qed
    let ?root = "rs24_chien ?deg ?l [] [1..<64]"
    have far: "40 \<le> x" if x: "x \<in> set ?root" for x
    proof -
      have "chien_regs ?l ?deg (1 - 1) ?l"
        unfolding chien_regs_def
      proof (intro conjI allI impI)
        show "length ?l = 13" using inv(2) by simp
        fix j assume j: "1 \<le> j \<and> j \<le> ?deg"
        then have "j < 13" using deg(1) by simp
        moreover have "nz (rs_lambda ?s) j \<in> symbols" using inv(1) by (simp add: gf64.bm_inv_def)
        ultimately show "?l ! j \<le> 63" using inv(2) by (simp add: nz_def rs_log_le)
        show "idx_val (?l ! j) = gf6Mult (idx_val (?l ! j)) (alpha ((1 - 1) * j))" by simp
      qed
      then show ?thesis
      proof (rule rs24_chien_sound [OF deg(1) _ order_refl _ _ x])
        fix y assume y: "1 XOR gsum (\<lambda>j. gf6Mult (idx_val (?l ! Suc j)) (alpha (y * Suc j))) ?deg = 0" "1 \<le> y" "y < 64"
        then have "alpha y \<in> set (rs6_zs cw0 ?cw)"
          unfolding poly by (intro gf64.located_only_roots [OF L alpha_in]) (simp only: gf64.located_length [OF L])
        then obtain i where i: "i \<in> set (rs6_diff cw0 ?cw)" "alpha y = alpha (rs6_xinv 24 i)"
          using cw(2) by (auto simp: rs6_zs_def)
        have "i < 24" using i(1) cw(2) by (simp add: rs6_diff_mem)
        have "alpha (y mod 63) = alpha (rs6_xinv 24 i)" using i(2) by simp
        then have "y mod 63 = rs6_xinv 24 i" by (intro alpha_inject) (simp_all add: rs6_xinv_def)
        moreover have "rs6_xinv 24 i = (if i = 23 then 0 else 40 + i)"
          using \<open>i < 24\<close> by (auto simp: rs6_xinv_def)
        ultimately show "40 \<le> y" using y(2,3) by (cases "y = 63") (auto split: if_splits)
      qed simp
    qed
    have "?deg \<noteq> 0"
    proof
      assume z: "?deg = 0"
      have "\<exists>i<24. cw0 ! i \<noteq> ?cw ! i" using False sent(1) cw(2) by (metis nth_equalityI)
      then obtain i where "i \<in> set (rs6_diff cw0 ?cw)" using cw(2) by (auto simp: rs6_diff_mem)
      then obtain k where k: "k < length ?es" "rs6_zs cw0 ?cw ! k = alpha (rs6_xinv (length ?cw) i)"
        by (rule rs6_diff_index)
      then show False
        using gf64.located_roots [OF L k(1)] poly [of "rs6_xinv (length ?cw) i"] z by simp
    qed
    then have "?deg = length ?root \<Longrightarrow> \<exists>r\<in>set ?root. 24 \<le> r - 1"
      using far by (cases ?root) force+
    then show ?thesis
      using False clean by (auto simp: rs241213_decode_def HB synd Let_def simp del: upt_Suc rs24_chien.simps)
  qed
qed

text \<open>C19: \<open>rs241213_decode\<close> corrects no error: on an encoded block with up to six wrong symbols,
  which the code could repair, it changes nothing, and returns true only when no symbol is wrong.\<close>

theorem rs241213_decode_refuses:
  assumes "length data = 18" and "length recv = 18" and "wrong_symbols 24 (rs241213_encode data) recv \<le> 6"
  shows "rs241213_decode recv = (recv = rs241213_encode data, recv)"
proof -
  note e = matrix_encoder [OF encode_matrix_ok _ rs241213_encode_store, of data]
  have len: "length (rs241213_encode data) = length recv" "rs6_word 12 (rs6_symbols (rs241213_encode data) 24)"
    using e(1,3) assms(1,2) by simp_all
  have "rs241213_decode recv = (rs6_symbols recv 24 = rs6_symbols (rs241213_encode data) 24, recv)"
    using assms(3) len(2) rs6_symbols_in(2) by (intro rs24_refuses) (simp_all add: wrong_symbols_diff)
  also have "(rs6_symbols recv 24 = rs6_symbols (rs241213_encode data) 24) = (recv = rs241213_encode data)"
    using rs6_buffer_eq [of recv "rs241213_encode data" 24] len(1) assms(2) by auto
  finally show ?thesis .
qed

theorem rs241213_decode_refuses_witness:
  "rs241213_decode ((replicate 18 0)[2 := 1]) = (False, (replicate 18 0)[2 := 1])"
proof -
  have z: "rs241213_encode (replicate 18 0) = replicate 18 0"
    unfolding rs241213_encode_store by (rule encode_zero [OF encode_matrix_ok]) simp
  have "wrong_symbols 24 (replicate 18 0) ((replicate 18 0)[2 := 1]) = 1" by code_simp
  moreover have "(replicate 18 0)[2 := 1] \<noteq> (replicate 18 (0 :: u8))" by code_simp
  ultimately show ?thesis
    using rs241213_decode_refuses [of "replicate 18 0" "(replicate 18 0)[2 := 1]"]
    unfolding z by (simp del: replicate.simps list_update.simps)
qed

end
