(* ===== verification/Bch.thy ===== *)
theory Bch
  imports Rs6Code
begin

section \<open>The BCH code of the network identifier (tools/fec_tools.c)\<close>

text \<open>
  \<open>bch_encode1\<close> and \<open>bch_encode2\<close>: the 47 parity bits a feedback shift register computes for
  the 16 bits of a P25 network identifier.  The \<open>int\<close> arrays hold zeros and ones and are lists
  of \<open>u32\<close>; \<open>length\<close>, \<open>k\<close> and \<open>g\<close> of the source have the prefix \<open>bch\<close>.

  The register is followed as a polynomial over GF(64).  The generator vanishes at 22
  consecutive powers of the primitive element (read first coefficient first), so an encoded
  identifier does, and the distance of the Reed-Solomon codes applies to it.
\<close>

definition bch_length :: nat where
  "bch_length = 63"

definition bch_k :: nat where
  "bch_k = 16"

definition bch_g :: "u32 list" where
  "bch_g = [1, 1, 0, 0, 1, 1, 0, 1, 1, 0, 0, 1, 0, 0, 1, 1, 0, 0, 0, 0, 1, 0, 1, 1,
            1, 1, 0, 1, 1, 1, 0, 1, 0, 0, 1, 1, 1, 0, 1, 1, 0, 0, 1, 0, 1, 0, 1, 1]"

text \<open>The body of the loop over the data bits.\<close>

definition bch_step :: "u32 list \<Rightarrow> nat \<Rightarrow> u32 list \<Rightarrow> u32 list" where
  "bch_step data i bb =
     (let feedback = data ! i XOR bb ! (bch_length - bch_k - 1)
      in if feedback \<noteq> 0
         then let bb = fold (\<lambda>j bb. if bch_g ! j \<noteq> 0 then bb[j := bb ! (j - 1) XOR feedback] else bb[j := bb ! (j - 1)])
                         (rev [1..<bch_length - bch_k]) bb
              in bb[0 := if bch_g ! 0 \<noteq> 0 \<and> feedback \<noteq> 0 then 1 else 0]
         else let bb = fold (\<lambda>j bb. bb[j := bb ! (j - 1)]) (rev [1..<bch_length - bch_k]) bb
              in bb[0 := 0])"

definition bch_encode2 :: "u32 list \<Rightarrow> u32 list \<Rightarrow> u32 list" where
  "bch_encode2 data bb =
     (let bb = fold (\<lambda>i bb. bb[i := 0]) [0..<bch_length - bch_k] bb
      in fold (bch_step data) (rev [0..<bch_k]) bb)"

definition bch_encode1 :: "bytes \<Rightarrow> bytes" where
  "bch_encode1 nid =
     (let data = map (\<lambda>i. if READ_BIT nid i \<noteq> 0 then 1 else 0) [0..<16];
          bb = bch_encode2 data (replicate 63 0)
      in fold (\<lambda>i nid. WRITE_BIT nid (i + 16) (bb ! i = 1)) [0..<bch_length - bch_k] nid)"

subsection \<open>The shift register\<close>

lemma shift_fold:
  "n \<le> length bb \<Longrightarrow> length (fold (\<lambda>j bb. bb[j := h j (bb ! (j - 1))]) (rev [1..<n]) bb) = length bb \<and>
    (\<forall>j. fold (\<lambda>j bb. bb[j := h j (bb ! (j - 1))]) (rev [1..<n]) bb ! j = (if 1 \<le> j \<and> j < n then h j (bb ! (j - 1)) else bb ! j))"
proof (induction n arbitrary: bb)
  case (Suc n)
  show ?case
  proof (cases "n = 0")
    case False
    let ?bb = "bb[n := h n (bb ! (n - 1))]"
    have e: "rev [1..<Suc n] = n # rev [1..<n]" using False by simp
    have IH: "length (fold (\<lambda>j bb. bb[j := h j (bb ! (j - 1))]) (rev [1..<n]) ?bb) = length ?bb"
      "\<And>j. fold (\<lambda>j bb. bb[j := h j (bb ! (j - 1))]) (rev [1..<n]) ?bb ! j = (if 1 \<le> j \<and> j < n then h j (?bb ! (j - 1)) else ?bb ! j)"
      using Suc.IH [of ?bb] Suc.prems by simp_all
    have "(if 1 \<le> j \<and> j < n then h j (?bb ! (j - 1)) else ?bb ! j) = (if 1 \<le> j \<and> j < Suc n then h j (bb ! (j - 1)) else bb ! j)" for j
      using False Suc.prems by (cases "j = n"; cases "j < n") (auto simp: nth_list_update)
    then show ?thesis unfolding e using IH by simp
  qed simp
qed simp

text \<open>The register as a word over GF(64).\<close>

definition bch_word :: "u32 list \<Rightarrow> bytes" where
  "bch_word bb = map (\<lambda>j. ucast (bb ! j)) [0..<47]"

definition bch_bits :: "nat \<Rightarrow> u32 list \<Rightarrow> bool" where
  "bch_bits n bb \<longleftrightarrow> (\<forall>j<n. bb ! j = 0 \<or> bb ! j = 1)"

lemma bch_g_bits: "length bch_g = 48" "list_all (\<lambda>c. c = 0 \<or> c = 1) bch_g" "bch_g ! 0 = 1" "bch_g ! 47 = 1"
  by (simp_all add: bch_g_def)

lemma bit_xor_cases: "(a :: u32) = 0 \<or> a = 1 \<Longrightarrow> b = 0 \<or> b = 1 \<Longrightarrow> a XOR b = 0 \<or> a XOR b = 1"
  by auto

lemma bch_step_entries:
  assumes "bch_bits 47 bb" "47 \<le> length bb" "data ! i = 0 \<or> data ! i = 1"
  shows "length (bch_step data i bb) = length bb"
    and "j < 47 \<Longrightarrow> bch_step data i bb ! j = (if j = 0 then 0 else bb ! (j - 1)) XOR (if bch_g ! j \<noteq> 0 then data ! i XOR bb ! 46 else 0)"
proof -
  let ?f = "data ! i XOR bb ! 46"
  have "bb ! 46 = 0 \<or> bb ! 46 = 1" using assms(1) unfolding bch_bits_def by simp
  then have f: "?f = 0 \<or> ?f = 1" using assms(3) bit_xor_cases by blast
  have l: "bch_length - bch_k = 47" by (simp add: bch_length_def bch_k_def)
  have l1: "47 - 1 = (46 :: nat)" by simp
  let ?u = "\<lambda>h. fold (\<lambda>j bb. bb[j := h j (bb ! (j - 1))]) (rev [1..<47]) bb"
  let ?h = "\<lambda>j v. if bch_g ! j \<noteq> 0 then v XOR ?f else v"
  have u: "length (?u h) = length bb" "?u h ! j = (if 1 \<le> j \<and> j < 47 then h j (bb ! (j - 1)) else bb ! j)" for h :: "nat \<Rightarrow> u32 \<Rightarrow> u32" and j
    using shift_fold [of 47 bb h] assms(2) by blast+
  have "(\<lambda>j bb. if bch_g ! j \<noteq> 0 then bb[j := bb ! (j - 1) XOR ?f] else bb[j := bb ! (j - 1)]) =
      (\<lambda>j bb. bb[j := ?h j (bb ! (j - 1))])" by (intro ext) simp
  then have e: "bch_step data i bb = (if ?f \<noteq> 0 then (?u ?h)[0 := if bch_g ! 0 \<noteq> 0 \<and> ?f \<noteq> 0 then 1 else 0] else (?u (\<lambda>j v. v))[0 := 0])"
    unfolding bch_step_def Let_def l l1 by simp
  show "length (bch_step data i bb) = length bb"
    unfolding e using u(1) [of ?h] u(1) [of "\<lambda>j v. v"] by (simp only: length_list_update split: if_split) simp
  show "bch_step data i bb ! j = (if j = 0 then 0 else bb ! (j - 1)) XOR (if bch_g ! j \<noteq> 0 then ?f else 0)" if "j < 47"
  proof (cases "j = 0")
    case True
    have "0 < length (?u h)" for h :: "nat \<Rightarrow> u32 \<Rightarrow> u32" using u(1) assms(2) by (metis less_le_trans zero_less_numeral)
    then have z: "(?u h)[0 := v] ! 0 = v" for h v by (rule nth_list_update_eq)
    have "bch_step data i bb ! 0 = (if bch_g ! 0 \<noteq> 0 \<and> ?f \<noteq> 0 then 1 else 0)"
      unfolding e by (cases "?f = 0") (simp_all only: z [of ?h] z [of "\<lambda>j v. v"] if_True if_False simp_thms)
    then show ?thesis using True f bch_g_bits(3) by auto
  next
    case False
    then have "bch_step data i bb ! j = (if ?f \<noteq> 0 then ?u ?h else ?u (\<lambda>j v. v)) ! j" unfolding e by simp
    then show ?thesis using False that u(2) [of ?h j] u(2) [of "\<lambda>j v. v" j] by (simp split: if_splits)
  qed
qed

lemma bch_step_bits:
  assumes "bch_bits 47 bb" "47 \<le> length bb" "data ! i = 0 \<or> data ! i = 1"
  shows "bch_bits 47 (bch_step data i bb)"
  unfolding bch_bits_def
proof (intro allI impI)
  fix j :: nat assume j: "j < 47"
  have "(if j = 0 then 0 else bb ! (j - 1)) = 0 \<or> (if j = 0 then 0 else bb ! (j - 1)) = 1"
    using assms(1) j by (auto simp: bch_bits_def)
  moreover have "(if bch_g ! j \<noteq> 0 then data ! i XOR bb ! 46 else 0) = 0 \<or> (if bch_g ! j \<noteq> 0 then data ! i XOR bb ! 46 else 0) = 1"
  proof -
    have "bb ! 46 = 0 \<or> bb ! 46 = 1" using assms(1) unfolding bch_bits_def by simp
    then show ?thesis using assms(3) bit_xor_cases [of "data ! i" "bb ! 46"] by simp
  qed
  ultimately show "bch_step data i bb ! j = 0 \<or> bch_step data i bb ! j = 1"
    unfolding bch_step_entries(2) [OF assms j] by (rule bit_xor_cases)
qed

subsection \<open>Roots\<close>

definition bch_gen :: bytes where
  "bch_gen = [1, 1, 0, 0, 1, 1, 0, 1, 1, 0, 0, 1, 0, 0, 1, 1, 0, 0, 0, 0, 1, 0, 1, 1,
            1, 1, 0, 1, 1, 1, 0, 1, 0, 0, 1, 1, 1, 0, 1, 1, 0, 0, 1, 0, 1, 0, 1]"

lemma bch_gen_g: "map (\<lambda>j. ucast (bch_g ! j)) [0..<47] = bch_gen"
  by (simp add: bch_g_def bch_gen_def upt_rec)

text \<open>The value at the power \<open>j\<close> from a table of the powers, last coefficient first.\<close>

definition alpha_table :: bytes where
  "alpha_table = [1, 2, 4, 8, 16, 32, 3, 6, 12, 24, 48, 35, 5, 10, 20, 40, 19, 38, 15, 30, 60, 59, 53, 41, 17, 34, 7, 14, 28, 56, 51, 37, 9, 18, 36, 11, 22, 44, 27, 54, 47, 29, 58, 55, 45, 25, 50, 39, 13, 26, 52, 43, 21, 42, 23, 46, 31, 62, 63, 61, 57, 49, 33]"

fun bch_value :: "nat \<Rightarrow> nat \<Rightarrow> bytes \<Rightarrow> u8" where
  "bch_value j a [] = 0"
| "bch_value j a (c # cs) = (if c = 1 then alpha_table ! a else 0) XOR bch_value j (if a + j < 63 then a + j else a + j - 63) cs"

lemma alpha_table: "a < 63 \<Longrightarrow> alpha_table ! a = alpha a"
proof -
  assume a: "a < 63"
  have "map ucast (take 63 rsGFexp) = alpha_table" by (simp add: rsGFexp_def alpha_table_def)
  then have "alpha_table ! a = map ucast (take 63 rsGFexp) ! a" by simp
  also have "\<dots> = ucast (rsGFexp ! a)" using a length_tables6 by simp
  finally show ?thesis using exp_entry [OF a] by simp
qed

lemma bch_value_horner:
  "list_all (\<lambda>c. c = 0 \<or> c = 1) cs \<Longrightarrow> a < 63 \<Longrightarrow> j < 63 \<Longrightarrow>
    bch_value j a cs = gf6Mult (alpha a) (horner gf6Mult (alpha j) (rev cs))"
proof (induction cs arbitrary: a)
  case (Cons c cs)
  let ?a = "if a + j < 63 then a + j else a + j - 63"
  have a: "?a < 63" "alpha ?a = alpha (a + j)"
    using Cons.prems(2,3) by (simp_all only: split: if_splits) (auto intro!: alpha_cong simp: mod_if)
  have F: "horner gf6Mult (alpha j) (rev cs) \<in> symbols"
    using Cons.prems(1) by (intro gf64.horner_in) (auto simp: list_all_iff symbols_iff)
  have "gf6Mult (alpha a) (horner gf6Mult (alpha j) (rev (c # cs))) =
      gf6Mult (alpha a) (gf6Mult (horner gf6Mult (alpha j) (rev cs)) (alpha j)) XOR gf6Mult (alpha a) c"
    using Cons.prems(1) F gf64.mul_in [OF F alpha_in] by (simp, intro gf64.mul_xor_right) (auto simp: symbols_iff)
  also have "gf6Mult (alpha a) (gf6Mult (horner gf6Mult (alpha j) (rev cs)) (alpha j)) = gf6Mult (alpha (a + j)) (horner gf6Mult (alpha j) (rev cs))"
    using F gf64.mul_commute [OF F alpha_in] gf64.mul_assoc [OF alpha_in alpha_in F] alpha_mult by simp
  also have "gf6Mult (alpha a) c = (if c = 1 then alpha a else 0)"
    using Cons.prems(1) by (auto simp: gf64.mul_0_right gf64.mul_1_right gf64.zero_in)
  finally show ?case using Cons.IH [OF _ a(1) Cons.prems(3)] Cons.prems a(2) alpha_table [OF Cons.prems(2)] by (simp add: xor.commute)
qed simp

fun bch_vanish :: "bytes \<Rightarrow> nat list \<Rightarrow> bool" where
  "bch_vanish cs [] = True"
| "bch_vanish cs (j # js) = (bch_value j 0 cs = 0 \<and> bch_vanish cs js)"

lemma bch_vanish_iff: "bch_vanish cs js \<longleftrightarrow> (\<forall>j\<in>set js. bch_value j 0 cs = 0)"
  by (induction js) simp_all

lemma bch_values: "bch_vanish (rev (bch_gen @ [1])) [1..<Suc 22]"
  by code_simp

lemma bch_roots:
  assumes "1 \<le> j" "j \<le> 22"
  shows "gf6Mult (horner gf6Mult (alpha j) bch_gen) (alpha j) = 1"
proof -
  have "j \<in> set [1..<Suc 22]" using assms by (simp del: upt_Suc)
  then have "bch_value j 0 (rev (bch_gen @ [1])) = 0" using bch_values unfolding bch_vanish_iff by blast
  moreover have "list_all (\<lambda>c. c = 0 \<or> c = 1) (rev (bch_gen @ [1]))" by (simp add: bch_gen_def)
  ultimately have "gf6Mult 1 (horner gf6Mult (alpha j) (bch_gen @ [1])) = 0"
    using bch_value_horner [of "rev (bch_gen @ [1])" 0 j] assms by (simp del: rev_append)
  moreover have "horner gf6Mult (alpha j) (bch_gen @ [1]) \<in> symbols"
    by (intro gf64.horner_in) (auto simp: bch_gen_def symbols_iff)
  ultimately have "horner gf6Mult (alpha j) (bch_gen @ [1]) = 0" by simp
  then show ?thesis by simp
qed

lemma bch_word_in: "bch_bits 47 bb \<Longrightarrow> set (bch_word bb) \<subseteq> symbols"
  by (fastforce simp: bch_word_def bch_bits_def symbols_iff)

lemma bch_word_step:
  assumes bb: "bch_bits 47 bb" "47 \<le> length bb" and d: "data ! i = 0 \<or> data ! i = 1" and j: "1 \<le> j" "j \<le> 22"
  shows "gf6Mult (horner gf6Mult (alpha j) (bch_word (bch_step data i bb))) (alpha j) =
    horner gf6Mult (alpha j) (bch_word bb) XOR ucast (data ! i)"
proof -
  let ?x = "alpha j" and ?f = "ucast (data ! i XOR bb ! 46) :: u8"
  let ?B = "map (\<lambda>j. ucast (bb ! j)) [0..<46] :: bytes"
  have "bb ! 46 = 0 \<or> bb ! 46 = 1" using bb(1) unfolding bch_bits_def by simp
  then have "data ! i XOR bb ! 46 = 0 \<or> data ! i XOR bb ! 46 = 1" using d bit_xor_cases by blast
  then have f: "?f = 0 \<or> ?f = 1" by (elim disjE) simp_all
  then have fin: "?f \<in> symbols" by (auto simp: symbols_iff)
  have B: "bch_word bb = ?B @ [ucast (bb ! 46)]"
    unfolding bch_word_def using upt_Suc_append [of 0 46] by simp
  have Bin: "set ?B \<subseteq> symbols" using bch_word_in [OF bb(1)] unfolding B by simp
  have gl: "length bch_gen = 47" by (simp add: bch_gen_def)
  have gin: "set bch_gen \<subseteq> symbols" by (simp add: bch_gen_def symbols_iff)
  have "bch_word (bch_step data i bb) = map2 (XOR) (0 # ?B) (map (gf6Mult ?f) bch_gen)"
  proof (rule nth_equalityI)
    fix n assume "n < length (bch_word (bch_step data i bb))"
    then have n: "n < 47" by (simp add: bch_word_def)
    have g: "bch_gen ! n = ucast (bch_g ! n)" "bch_g ! n = 0 \<or> bch_g ! n = 1"
      unfolding bch_gen_g [symmetric] using n bch_g_bits by (auto simp: list_all_length simp del: upt_Suc)
    have m: "gf6Mult ?f (bch_gen ! n) = (if bch_g ! n \<noteq> 0 then ?f else 0)"
      using f g by (elim disjE) (simp_all add: gf64.mul_0 symbols_iff)
    have "bch_word (bch_step data i bb) ! n = ucast (bch_step data i bb ! n)"
      unfolding bch_word_def using n by (intro nth_map_upt0)
    also have "\<dots> = ucast (if n = 0 then 0 else bb ! (n - 1)) XOR (if bch_g ! n \<noteq> 0 then ?f else 0)"
      unfolding bch_step_entries(2) [OF bb d n] by (simp add: unsigned_xor_eq)
    also have "\<dots> = (0 # ?B) ! n XOR gf6Mult ?f (bch_gen ! n)"
      unfolding m using n by (cases n) (simp_all del: upt_Suc)
    finally show "bch_word (bch_step data i bb) ! n = map2 (XOR) (0 # ?B) (map (gf6Mult ?f) bch_gen) ! n"
      using n gl by (simp del: upt_Suc)
  qed (simp add: bch_word_def gl)
  then have "horner gf6Mult ?x (bch_word (bch_step data i bb)) =
      horner gf6Mult ?x ?B XOR gf6Mult ?f (horner gf6Mult ?x bch_gen)"
  proof -
    have "gf6Mult ?f c \<in> symbols" if "c \<in> set bch_gen" for c using that gin fin gf64.mul_in by blast
    then have m: "set (map (gf6Mult ?f) bch_gen) \<subseteq> symbols" by auto
    have z: "set (0 # ?B) \<subseteq> symbols" using Bin gf64.zero_in by simp
    assume "bch_word (bch_step data i bb) = map2 (XOR) (0 # ?B) (map (gf6Mult ?f) bch_gen)"
    then have "horner gf6Mult ?x (bch_word (bch_step data i bb)) = horner gf6Mult ?x (0 # ?B) XOR horner gf6Mult ?x (map (gf6Mult ?f) bch_gen)"
      using gf64.horner_xor [OF _ alpha_in z m] gl by simp
    then show ?thesis unfolding gf64.horner_Cons_0 [OF alpha_in] gf64.horner_scale [OF fin alpha_in gin] .
  qed
  moreover have F: "horner gf6Mult ?x ?B \<in> symbols" "horner gf6Mult ?x bch_gen \<in> symbols"
    by (intro gf64.horner_in alpha_in Bin gin)+
  ultimately have "gf6Mult (horner gf6Mult ?x (bch_word (bch_step data i bb))) ?x =
      gf6Mult (horner gf6Mult ?x ?B) ?x XOR gf6Mult (gf6Mult ?f (horner gf6Mult ?x bch_gen)) ?x"
    using gf64.mul_xor_left [OF F(1) gf64.mul_in [OF fin F(2)] alpha_in] by simp
  also have "gf6Mult (gf6Mult ?f (horner gf6Mult ?x bch_gen)) ?x = ?f"
    using gf64.mul_assoc [OF fin F(2) alpha_in] bch_roots [OF j] fin by simp
  also have "gf6Mult (horner gf6Mult ?x ?B) ?x = horner gf6Mult ?x (bch_word bb) XOR ucast (bb ! 46)"
    unfolding B by simp
  finally show ?thesis by (simp add: unsigned_xor_eq ac_simps)
qed

subsection \<open>Encoded identifiers\<close>

lemma horner_append:
  "set cw \<subseteq> symbols \<Longrightarrow> set dw \<subseteq> symbols \<Longrightarrow>
    horner gf6Mult (alpha j) (cw @ dw) = gf6Mult (horner gf6Mult (alpha j) cw) (alpha (j * length dw)) XOR horner gf6Mult (alpha j) dw"
proof (induction dw rule: rev_induct)
  case (snoc d dw)
  let ?x = "alpha j" and ?c = "horner gf6Mult (alpha j) cw"
  have F: "?c \<in> symbols" "horner gf6Mult ?x dw \<in> symbols" using snoc.prems by (auto intro!: gf64.horner_in)
  have "gf6Mult (gf6Mult ?c (alpha (j * length dw)) XOR horner gf6Mult ?x dw) ?x =
      gf6Mult (gf6Mult ?c (alpha (j * length dw))) ?x XOR gf6Mult (horner gf6Mult ?x dw) ?x"
    by (intro gf64.mul_xor_left gf64.mul_in F alpha_in)
  also have "gf6Mult (gf6Mult ?c (alpha (j * length dw))) ?x = gf6Mult ?c (alpha (j * length (dw @ [d])))"
    using gf64.mul_assoc [OF F(1) alpha_in alpha_in] alpha_mult [of "j * length dw" j] by (simp add: add.commute)
  finally show ?case using snoc by (simp only: append_assoc [symmetric] horner_snoc) (simp add: ac_simps)
qed (simp add: gf64.mul_1_right gf64.horner_in)

lemma bch_zeroed:
  assumes "47 \<le> length bb"
  shows "length (fold (\<lambda>i bb. bb[i := 0]) [0..<47] bb) = length bb" "bch_word (fold (\<lambda>i bb. bb[i := 0]) [0..<47] bb) = replicate 47 0"
    "bch_bits 47 (fold (\<lambda>i bb. bb[i := 0]) [0..<47] bb)"
proof -
  have z: "n \<le> 47 \<Longrightarrow> length (fold (\<lambda>i bb. bb[i := 0]) [0..<n] bb) = length bb \<and> (\<forall>j<n. fold (\<lambda>i bb. bb[i := 0]) [0..<n] bb ! j = 0)" for n
    by (induction n) (use assms in \<open>auto simp: nth_list_update\<close>)
  show "length (fold (\<lambda>i bb. bb[i := 0]) [0..<47] bb) = length bb" using z [of 47] by blast
  have e: "\<forall>j<47. fold (\<lambda>i bb. bb[i := 0]) [0..<47] bb ! j = 0" using z [of 47] by blast
  then show "bch_bits 47 (fold (\<lambda>i bb. bb[i := 0]) [0..<47] bb)" unfolding bch_bits_def by blast
  show "bch_word (fold (\<lambda>i bb. bb[i := 0]) [0..<47] bb) = replicate 47 0"
    unfolding bch_word_def using e by (intro nth_equalityI) (simp_all del: upt_Suc fold_upt_Suc)
qed

lemma bch_bits_in: "bch_bits n xs \<Longrightarrow> length xs = n \<Longrightarrow> set (map ucast (drop k xs)) \<subseteq> symbols"
proof -
  assume a: "bch_bits n xs" "length xs = n"
  have "ucast c \<in> symbols" if c: "c \<in> set xs" for c :: u32
  proof -
    obtain j where "j < n" "c = xs ! j" using c a(2) by (auto simp: in_set_conv_nth)
    then have "c = 0 \<or> c = 1" using a(1) by (simp add: bch_bits_def)
    then show ?thesis by (elim disjE) (simp_all add: symbols_iff)
  qed
  then have "ucast ` set (drop k xs) \<subseteq> symbols" using set_drop_subset [of k xs] by blast
  then show ?thesis by (simp only: set_map)
qed

text \<open>After \<open>m\<close> data bits the register times the \<open>m\<close>th power of the root is the value of these bits.\<close>

lemma bch_register:
  assumes data: "length data = 16" "bch_bits 16 data" and bb: "47 \<le> length bb" and j: "1 \<le> j" "j \<le> 22"
  shows "m \<le> 16 \<Longrightarrow> let r = fold (bch_step data) (rev [16 - m..<16]) (fold (\<lambda>i bb. bb[i := 0]) [0..<47] bb) in
    bch_bits 47 r \<and> length r = length bb \<and>
    gf6Mult (horner gf6Mult (alpha j) (bch_word r)) (alpha (j * m)) = horner gf6Mult (alpha j) (map ucast (drop (16 - m) data))"
proof (induction m)
  case 0
  have "horner gf6Mult (alpha j) (replicate n 0) = 0" for n by (induction n) (simp_all add: gf64.horner_Cons_0)
  then show ?case using bch_zeroed [OF bb] data by (simp del: fold_upt_Suc add: Let_def)
next
  case (Suc m)
  let ?r = "fold (bch_step data) (rev [16 - m..<16]) (fold (\<lambda>i bb. bb[i := 0]) [0..<47] bb)" and ?i = "16 - Suc m"
  have IH: "bch_bits 47 ?r" "length ?r = length bb"
    "gf6Mult (horner gf6Mult (alpha j) (bch_word ?r)) (alpha (j * m)) = horner gf6Mult (alpha j) (map ucast (drop (16 - m) data))"
    using Suc by (simp_all add: Let_def)
  have i: "?i < 16" "Suc ?i = 16 - m" using Suc.prems by simp_all
  have d: "data ! ?i = 0 \<or> data ! ?i = 1" using data(2) i(1) by (simp add: bch_bits_def)
  have e: "fold (bch_step data) (rev [?i..<16]) (fold (\<lambda>i bb. bb[i := 0]) [0..<47] bb) = bch_step data ?i ?r"
  proof -
    have "[?i..<16] = ?i # [Suc ?i..<16]" by (rule upt_conv_Cons [OF i(1)])
    then show ?thesis unfolding i(2) by simp
  qed
  have room: "47 \<le> length ?r" using IH(2) bb by simp
  note st = bch_step_bits [OF IH(1) room d] bch_step_entries(1) [OF IH(1) room d] bch_word_step [OF IH(1) room d j]
  let ?V = "horner gf6Mult (alpha j) (bch_word (bch_step data ?i ?r))"
  have V: "?V \<in> symbols" "horner gf6Mult (alpha j) (bch_word ?r) \<in> symbols"
    by (intro gf64.horner_in alpha_in bch_word_in st(1) IH(1))+
  have ds: "set (map ucast (drop n data)) \<subseteq> symbols" for n
    using bch_bits_in [OF data(2,1)] .
  have di: "ucast (data ! ?i) \<in> symbols" using d by (auto simp: symbols_iff)
  have "gf6Mult ?V (alpha (j * Suc m)) = gf6Mult (gf6Mult ?V (alpha j)) (alpha (j * m))"
    using gf64.mul_assoc [OF V(1) alpha_in alpha_in] alpha_mult [of j "j * m"] by simp
  also have "\<dots> = gf6Mult (horner gf6Mult (alpha j) (bch_word ?r)) (alpha (j * m)) XOR gf6Mult (ucast (data ! ?i)) (alpha (j * m))"
    unfolding st(3) by (intro gf64.mul_xor_left V(2) di alpha_in)
  also have "\<dots> = horner gf6Mult (alpha j) ([ucast (data ! ?i)] @ map ucast (drop (16 - m) data))"
    unfolding IH(3) horner_append [OF _ ds, of "[ucast (data ! ?i)]"] using horner_append [of "[ucast (data ! ?i)]" "map ucast (drop (16 - m) data)" j] di ds data(1) Suc.prems
    by (simp add: horner_def ac_simps)
  also have "[ucast (data ! ?i)] @ map ucast (drop (16 - m) data) = map ucast (drop ?i data)"
    using i data(1) Cons_nth_drop_Suc [of ?i data] by (metis append_Cons append_Nil list.simps(9))
  finally show ?case unfolding e using st(1,2) IH(2) by (simp add: Let_def)
qed

lemma bch_code_word:
  assumes data: "length data = 16" "bch_bits 16 data" and bb: "47 \<le> length bb" and j: "1 \<le> j" "j \<le> 22"
  shows "horner gf6Mult (alpha j) (map ucast data @ bch_word (bch_encode2 data bb)) = 0"
proof -
  let ?r = "bch_encode2 data bb" and ?x = "alpha j"
  have r: "bch_bits 47 ?r" "gf6Mult (horner gf6Mult ?x (bch_word ?r)) (alpha (j * 16)) = horner gf6Mult ?x (map ucast data)"
    using bch_register [OF data bb j, of 16] by (simp_all add: bch_encode2_def bch_length_def bch_k_def Let_def del: upt_Suc fold_upt_Suc)
  have F: "horner gf6Mult ?x (bch_word ?r) \<in> symbols" by (intro gf64.horner_in alpha_in bch_word_in r(1))
  have ds: "set (map ucast data) \<subseteq> symbols"
    using bch_bits_in [OF data(2,1), of 0] by simp
  have one: "alpha (j * 63) = 1" using alpha_cong [of "j * 63" 0] by simp
  have "horner gf6Mult ?x (map ucast data @ bch_word ?r) = gf6Mult (horner gf6Mult ?x (map ucast data)) (alpha (j * 47)) XOR horner gf6Mult ?x (bch_word ?r)"
    using horner_append [OF ds bch_word_in [OF r(1)]] by (simp add: bch_word_def)
  also have "gf6Mult (horner gf6Mult ?x (map ucast data)) (alpha (j * 47)) = gf6Mult (horner gf6Mult ?x (bch_word ?r)) (alpha (j * 63))"
    unfolding r(2) [symmetric] using gf64.mul_assoc [OF F alpha_in alpha_in] alpha_mult [of "j * 16" "j * 47"] by (simp add: mult.commute)
  finally show ?thesis using F by (simp add: one)
qed

subsection \<open>The distance of encoded identifiers\<close>

definition nid_word :: "bytes \<Rightarrow> bytes" where
  "nid_word nid = map (\<lambda>i. of_bool (rbit nid i)) [0..<63]"

lemma nid_word_in: "set (nid_word nid) \<subseteq> symbols"
  by (auto simp: nid_word_def symbols_iff)

lemma bch_encode1_bits:
  assumes "8 \<le> length nid"
  shows "length (bch_encode1 nid) = length nid"
    and "i < 16 \<or> 63 \<le> i \<Longrightarrow> rbit (bch_encode1 nid) i = rbit nid i"
    and "1 \<le> j \<Longrightarrow> j \<le> 22 \<Longrightarrow> horner gf6Mult (alpha j) (nid_word (bch_encode1 nid)) = 0"
proof -
  let ?data = "map (\<lambda>i. if READ_BIT nid i \<noteq> 0 then 1 else 0) [0..<16] :: u32 list"
  let ?bb = "bch_encode2 ?data (replicate 63 0)"
  have e: "bch_encode1 nid = fold (\<lambda>i nid. WRITE_BIT nid (i + 16) (?bb ! i = 1)) [0..<47] nid"
    unfolding bch_encode1_def Let_def by (simp add: bch_length_def bch_k_def del: upt_Suc fold_upt_Suc)
  have pos: "\<And>n. n \<in> set [0..<47] \<Longrightarrow> n + 16 < 8 * length nid" using assms by auto
  show len: "length (bch_encode1 nid) = length nid" unfolding e by (rule fold_length_inv) simp
  show low: "rbit (bch_encode1 nid) i = rbit nid i" if "i < 16 \<or> 63 \<le> i" for i
    unfolding e by (rule packed.fold_other [of _ "\<lambda>n. n + 16"]) (use pos that in auto)
  have high: "rbit (bch_encode1 nid) (i + 16) = (?bb ! i = 1)" if "i < 47" for i
    unfolding e by (rule packed.fold_written [of "\<lambda>n. n + 16"]) (use pos that in \<open>auto simp: distinct_map inj_on_def\<close>)
  have data: "length ?data = 16" "bch_bits 16 ?data" by (simp_all add: bch_bits_def del: upt_Suc)
  show "horner gf6Mult (alpha j) (nid_word (bch_encode1 nid)) = 0" if "1 \<le> j" "j \<le> 22"
  proof -
    have bits: "bch_bits 47 ?bb"
      using bch_register [OF data, of "replicate 63 0" j 16] that by (simp add: bch_encode2_def bch_length_def bch_k_def Let_def del: upt_Suc fold_upt_Suc)
    have "nid_word (bch_encode1 nid) = map ucast ?data @ bch_word ?bb"
    proof (rule nth_equalityI)
      fix i assume "i < length (nid_word (bch_encode1 nid))"
      then have i: "i < 63" by (simp add: nid_word_def)
      have n: "nid_word (bch_encode1 nid) ! i = of_bool (rbit (bch_encode1 nid) i)"
        unfolding nid_word_def using i by (intro nth_map_upt0)
      show "nid_word (bch_encode1 nid) ! i = (map ucast ?data @ bch_word ?bb) ! i"
      proof (cases "i < 16")
        case True
        then show ?thesis unfolding n using low [of i] by (simp add: nth_append rbit_def del: upt_Suc)
      next
        case False
        then have k: "i - 16 < 47" "i - 16 + 16 = i" using i by simp_all
        have "?bb ! (i - 16) = 0 \<or> ?bb ! (i - 16) = 1" using bits k(1) unfolding bch_bits_def by blast
        then have "of_bool (?bb ! (i - 16) = 1) = (ucast (?bb ! (i - 16)) :: u8)" by (elim disjE) simp_all
        then show ?thesis unfolding n using high [OF k(1)] k False data(1) by (simp add: nth_append bch_word_def del: upt_Suc)
      qed
    qed (simp add: nid_word_def bch_word_def data)
    then show ?thesis using bch_code_word [OF data _ that, of "replicate 63 0"] by simp
  qed
qed

text \<open>C21: \<open>bch_encode1\<close> keeps the 16 data bits, the last bit of the identifier and its length,
  and any two identifiers with different data get words that differ in at least 23 of their 63
  bits, so that up to 11 wrong bits can be told from every other identifier.\<close>

theorem bch_encode1_distance:
  assumes "8 \<le> length nid" "8 \<le> length nid'"
    and "\<exists>i<16. rbit nid i \<noteq> rbit nid' i"
  shows "23 \<le> length (filter (\<lambda>i. rbit (bch_encode1 nid) i \<noteq> rbit (bch_encode1 nid') i) [0..<63]) \<and>
    length (bch_encode1 nid) = length nid \<and> 
    map (rbit (bch_encode1 nid)) ([0..<16] @ [63..<8 * length nid]) = map (rbit nid) ([0..<16] @ [63..<8 * length nid])"
proof -
  let ?c = "nid_word (bch_encode1 nid)" and ?d = "nid_word (bch_encode1 nid')"
  note b = bch_encode1_bits [OF assms(1)] and b' = bch_encode1_bits [OF assms(2)]
  have len: "length ?c = 63" "length ?d = 63" by (simp_all add: nid_word_def)
  have at: "(?c ! i \<noteq> ?d ! i) = (rbit (bch_encode1 nid) i \<noteq> rbit (bch_encode1 nid') i)" if "i < 63" for i
    using that by (simp add: nid_word_def nth_map_upt0 del: upt_Suc)
  obtain i where i: "i < 16" "rbit nid i \<noteq> rbit nid' i" using assms(3) by blast
  then have "?c ! i \<noteq> ?d ! i" using at [of i] b(2) [of i] b'(2) [of i] by simp
  then have ne: "?c \<noteq> ?d" by auto
  have "\<not> length (filter (\<lambda>i. ?c ! i \<noteq> ?d ! i) [0..<63]) \<le> 22"
    using gf64.rs_distance [OF len nid_word_in nid_word_in gf64_order, of 22] b(3) b'(3) ne by auto
  moreover have "filter (\<lambda>i. ?c ! i \<noteq> ?d ! i) [0..<63] = filter (\<lambda>i. rbit (bch_encode1 nid) i \<noteq> rbit (bch_encode1 nid') i) [0..<63]"
    using at by (intro filter_cong) auto
  ultimately show ?thesis using b(1,2) by auto
qed

theorem bch_encode1_distance_witness:
  "23 \<le> length (filter (\<lambda>i. rbit (bch_encode1 [0x29, 0x3A, 0, 0, 0, 0, 0, 0]) i \<noteq> rbit (bch_encode1 [0x29, 0x3B, 0, 0, 0, 0, 0, 0]) i) [0..<63])"
proof -
  have "rbit [0x29, 0x3A, 0, 0, 0, 0, 0, 0] 15 \<noteq> rbit [0x29, 0x3B, 0, 0, 0, 0, 0, 0] 15"
    by (simp add: rbit_def READ_BIT_def BIT_MASK_TABLE_def)
  moreover have "(15 :: nat) < 16" by simp
  ultimately have "\<exists>i<16. rbit [0x29, 0x3A, 0, 0, 0, 0, 0, 0] i \<noteq> rbit [0x29, 0x3B, 0, 0, 0, 0, 0, 0] i" by blast
  then show ?thesis
    by (rule bch_encode1_distance [of "[0x29, 0x3A, 0, 0, 0, 0, 0, 0]" "[0x29, 0x3B, 0, 0, 0, 0, 0, 0]", THEN conjunct1, rotated 2]) simp_all
qed

end
