(* ===== verification/BitWords.thy ===== *)
theory BitWords
  imports Bits
begin

section \<open>Bit lists and words\<close>

text \<open>
  Loops that collect a word from bits, most significant bit first, either by shifting the word
  or by moving a mask down, and loops that spread the bits of a word over positions of a
  buffer.  \<open>msb_word\<close> is the word of a list of bits.
\<close>

definition msb_word :: "bool list \<Rightarrow> u32" where
  "msb_word bs = fold (\<lambda>b w. push_bit 1 w OR of_bool b) bs 0"

lemma msb_word_Nil [simp]: "msb_word [] = 0"
  by (simp add: msb_word_def)

lemma msb_word_snoc [simp]: "msb_word (bs @ [b]) = push_bit 1 (msb_word bs) OR of_bool b"
  by (simp add: msb_word_def)

lemma bit_shift_in: "bit (push_bit 1 w OR of_bool b :: u32) k = (if k = 0 then b else k < 32 \<and> bit w (k - 1))"
  by (cases k) (simp_all only: bit_or_iff bit_push_bit_iff bit_of_bool_iff possible_bit_word, auto)

lemma bit_msb_word:
  "length bs \<le> 32 \<Longrightarrow> bit (msb_word bs) k \<longleftrightarrow> k < length bs \<and> bs ! (length bs - 1 - k)"
proof (induction bs arbitrary: k rule: rev_induct)
  case (snoc b bs)
  show ?case
  proof (cases k)
    case 0
    then show ?thesis unfolding msb_word_snoc bit_shift_in by simp
  next
    case (Suc j)
    have "length (bs @ [b]) - 1 - k = length bs - 1 - j" using Suc by simp
    moreover have "bit (msb_word bs) j \<longleftrightarrow> j < length bs \<and> bs ! (length bs - 1 - j)" using snoc by simp
    ultimately show ?thesis unfolding msb_word_snoc bit_shift_in using snoc.prems Suc by (simp add: nth_append) linarith
  qed
qed simp

lemma msb_word_bits:
  assumes "n < 32" "w < 2 ^ n"
  shows "msb_word (map (\<lambda>i. bit w (n - 1 - i)) [0..<n]) = w"
proof (rule bit_word_eqI)
  fix k
  have "\<forall>i\<ge>n. \<not> bit w i" using assms word_less_exp_bits [of n w] by simp
  then have "bit w k \<Longrightarrow> k < n" by (meson not_le)
  then show "bit (msb_word (map (\<lambda>i. bit w (n - 1 - i)) [0..<n])) k = bit w k"
    using assms(1) by (auto simp: bit_msb_word)
qed

lemma msb_word_less: "length bs < 32 \<Longrightarrow> msb_word bs < 2 ^ length bs"
  by (subst word_less_exp_bits) (auto simp: bit_msb_word)

lemma weight_msb_xor:
  assumes "length as = n" "length bs = n" "n \<le> 32"
  shows "weight (msb_word as XOR msb_word bs) = length (filter (\<lambda>i. as ! i \<noteq> bs ! i) [0..<n])"
proof -
  have "{k. bit (msb_word as XOR msb_word bs) k} = (\<lambda>i. n - 1 - i) ` {i. i < n \<and> as ! i \<noteq> bs ! i}"
  proof (intro equalityI subsetI)
    fix k assume "k \<in> {k. bit (msb_word as XOR msb_word bs) k}"
    then have "k < n \<and> as ! (n - 1 - k) \<noteq> bs ! (n - 1 - k)" using assms by (auto simp: bit_xor_iff bit_msb_word)
    then show "k \<in> (\<lambda>i. n - 1 - i) ` {i. i < n \<and> as ! i \<noteq> bs ! i}"
      by (intro image_eqI [of _ _ "n - 1 - k"]) auto
  qed (use assms in \<open>auto simp: bit_xor_iff bit_msb_word\<close>)
  moreover have "inj_on (\<lambda>i. n - 1 - i) {i. i < n \<and> as ! i \<noteq> bs ! i}" by (auto simp: inj_on_def)
  ultimately have "weight (msb_word as XOR msb_word bs) = card {i. i < n \<and> as ! i \<noteq> bs ! i}"
    by (simp add: weight_def card_image)
  also have "{i. i < n \<and> as ! i \<noteq> bs ! i} = set (filter (\<lambda>i. as ! i \<noteq> bs ! i) [0..<n])" by auto
  finally show ?thesis by (simp only: distinct_card [OF distinct_filter [OF distinct_upt]])
qed

text \<open>Collecting with a mask that moves down.\<close>

definition loaded :: "(nat \<Rightarrow> bool) \<Rightarrow> nat \<Rightarrow> nat \<Rightarrow> u32 \<Rightarrow> bool" where
  "loaded P n m w \<longleftrightarrow> (\<forall>k. bit w k \<longleftrightarrow> n - m \<le> k \<and> k < n \<and> P (n - 1 - k))"

lemma loaded_0: "loaded P n 0 0"
  by (auto simp: loaded_def)

definition loop_mask :: "nat \<Rightarrow> nat \<Rightarrow> u32" where
  "loop_mask n m = drop_bit m (2 ^ (n - 1))"

lemma loop_mask_simps: "loop_mask n 0 = 2 ^ (n - 1)" "drop_bit 1 (loop_mask n m) = loop_mask n (Suc m)"
  by (simp_all only: loop_mask_def drop_bit_0 id_apply drop_bit_drop_bit) simp

lemma bit_moved_mask: "0 < n \<Longrightarrow> n \<le> 32 \<Longrightarrow> bit (loop_mask n m) k \<longleftrightarrow> m + k = n - 1"
  by (auto simp: loop_mask_def bit_drop_bit_eq bit_exp_iff)

lemma loaded_step:
  assumes n: "n \<le> 32" "m < n" and l: "loaded P n m w"
  shows "loaded P n (Suc m) (if P m then w OR loop_mask n m else w)"
  unfolding loaded_def
proof
  fix k
  have b: "bit (loop_mask n m) k \<longleftrightarrow> k = n - Suc m" using bit_moved_mask [of n m k] n by auto
  have w: "bit w k \<longleftrightarrow> n - m \<le> k \<and> k < n \<and> P (n - 1 - k)" using l by (simp add: loaded_def)
  show "bit (if P m then w OR loop_mask n m else w) k \<longleftrightarrow> n - Suc m \<le> k \<and> k < n \<and> P (n - 1 - k)"
  proof (cases "k = n - Suc m")
    case True
    then have "n - 1 - k = m" "k < n" "\<not> n - m \<le> k" using n by simp_all
    then show ?thesis using b w True by (simp add: bit_or_iff)
  next
    case False
    then have "(n - Suc m \<le> k) = (n - m \<le> k)" by linarith
    then show ?thesis using b w False by (simp add: bit_or_iff)
  qed
qed

lemma loaded_word: "n \<le> 32 \<Longrightarrow> loaded P n n w \<Longrightarrow> w = msb_word (map P [0..<n])"
proof (rule bit_word_eqI)
  fix k assume n: "n \<le> 32" and l: "loaded P n n w"
  have "bit (msb_word (map P [0..<n])) k \<longleftrightarrow> k < n \<and> P (n - 1 - k)"
    using bit_msb_word [of "map P [0..<n]" k] n by auto
  then show "bit w k = bit (msb_word (map P [0..<n])) k" using l by (simp add: loaded_def)
qed

lemma loop_mask_exp: "n \<le> 32 \<Longrightarrow> m < n \<Longrightarrow> loop_mask n m = 2 ^ (n - 1 - m)"
proof (rule bit_word_eqI)
  fix k assume n: "n \<le> 32" "m < n"
  have "bit (loop_mask n m) k = (m + k = n - 1)" by (rule bit_moved_mask) (use n in simp_all)
  moreover have "bit (2 ^ (n - 1 - m) :: u32) k = (n - 1 - m = k)" using n by (auto simp: bit_exp_iff)
  moreover have "(m + k = n - 1) = (n - 1 - m = k)" using n by linarith
  ultimately show "bit (loop_mask n m) k = bit (2 ^ (n - 1 - m) :: u32) k" by blast
qed

lemma moved_mask_test:
  assumes "n \<le> 32" "m < n"
  shows "(w AND loop_mask n m \<noteq> 0) = bit w (n - 1 - m)"
  unfolding loop_mask_exp [OF assms] by (simp only: and_exp_eq_0_iff_not_bit not_not)

lemma collect_mask:
  assumes "n \<le> 32"
  shows "fold (\<lambda>i (w, mask). (if P i then w OR mask else w, drop_bit 1 mask)) [0..<n] (0, loop_mask n 0)
    = (msb_word (map P [0..<n]), loop_mask n n)"
proof -
  have "m \<le> n \<Longrightarrow> \<exists>w. fold (\<lambda>i (w, mask). (if P i then w OR mask else w, drop_bit 1 mask)) [0..<m] (0, loop_mask n 0)
      = (w, loop_mask n m) \<and> loaded P n m w" for m
  proof (induction m)
    case 0
    show ?case using loaded_0 [of P n] by simp
  next
    case (Suc m)
    then obtain w where w: "fold (\<lambda>i (w, mask). (if P i then w OR mask else w, drop_bit 1 mask)) [0..<m] (0, loop_mask n 0)
        = (w, loop_mask n m)" "loaded P n m w" by auto
    have "loaded P n (Suc m) (if P m then w OR loop_mask n m else w)"
      using loaded_step [OF assms, of m P w] w(2) Suc.prems by simp
    moreover have "fold (\<lambda>i (w, mask). (if P i then w OR mask else w, drop_bit 1 mask)) [0..<Suc m] (0, loop_mask n 0)
        = (if P m then w OR loop_mask n m else w, loop_mask n (Suc m))"
      unfolding fold_upt_Suc w(1) by (simp only: prod.case loop_mask_simps)
    ultimately show ?case by blast
  qed
  then show ?thesis using loaded_word [OF assms] by blast
qed

lemma collect_shift:
  "fold (\<lambda>i w. push_bit 1 w OR (if P i then 1 else 0)) [0..<n] 0 = msb_word (map P [0..<n])"
  by (induction n) (simp_all add: of_bool_def)

subsection \<open>Spreading bits over a buffer\<close>

lemma spread_bits:
  assumes "distinct pos" "\<And>p. p \<in> set pos \<Longrightarrow> p < 8 * length buf" "length pos = n"
  shows "length (fold (\<lambda>i buf. WRITE_BIT buf (pos ! i) (v i)) [0..<n] buf) = length buf"
    and "i < n \<Longrightarrow> rbit (fold (\<lambda>i buf. WRITE_BIT buf (pos ! i) (v i)) [0..<n] buf) (pos ! i) = v i"
    and "j \<notin> set pos \<Longrightarrow> rbit (fold (\<lambda>i buf. WRITE_BIT buf (pos ! i) (v i)) [0..<n] buf) j = rbit buf j"
proof -
  have in_range: "\<And>i. i \<in> set [0..<n] \<Longrightarrow> pos ! i < 8 * length buf" using assms(2,3) by auto
  have d: "distinct (map ((!) pos) [0..<n])" using assms(1,3) map_nth [of pos] by simp
  show "length (fold (\<lambda>i buf. WRITE_BIT buf (pos ! i) (v i)) [0..<n] buf) = length buf"
    by (rule fold_length_inv) simp
  show "rbit (fold (\<lambda>i buf. WRITE_BIT buf (pos ! i) (v i)) [0..<n] buf) (pos ! i) = v i" if "i < n"
    by (rule packed.fold_written [of "\<lambda>i. pos ! i"]) (use in_range d that in auto)
  show "rbit (fold (\<lambda>i buf. WRITE_BIT buf (pos ! i) (v i)) [0..<n] buf) j = rbit buf j" if "j \<notin> set pos"
    by (rule packed.fold_other [of _ "\<lambda>i. pos ! i"]) (use in_range that assms(3) in auto)
qed

text \<open>The number of positions at which two buffers differ.\<close>

definition wrong_bits :: "bytes \<Rightarrow> bytes \<Rightarrow> nat list \<Rightarrow> nat" where
  "wrong_bits p q pos = length (filter (\<lambda>i. rbit p i \<noteq> rbit q i) pos)"

definition word_at :: "bytes \<Rightarrow> nat list \<Rightarrow> u32" where
  "word_at p pos = msb_word (map (rbit p) pos)"

lemma weight_word_at:
  assumes "length pos \<le> 32"
  shows "weight (word_at p pos XOR word_at q pos) = wrong_bits p q pos"
proof -
  have "weight (word_at p pos XOR word_at q pos) = length (filter (\<lambda>i. map (rbit p) pos ! i \<noteq> map (rbit q) pos ! i) [0..<length pos])"
    unfolding word_at_def by (rule weight_msb_xor) (use assms in simp_all)
  also have "filter (\<lambda>i. map (rbit p) pos ! i \<noteq> map (rbit q) pos ! i) [0..<length pos] =
      filter (\<lambda>i. rbit p (pos ! i) \<noteq> rbit q (pos ! i)) [0..<length pos]"
    by (intro filter_cong) auto
  also have "length \<dots> = length (filter (\<lambda>i. rbit p i \<noteq> rbit q i) (map ((!) pos) [0..<length pos]))"
    by (simp add: filter_map o_def)
  finally show ?thesis by (simp add: wrong_bits_def map_nth)
qed

lemma word_at_less: "length pos < 32 \<Longrightarrow> word_at p pos < 2 ^ length pos"
  unfolding word_at_def using msb_word_less [of "map (rbit p) pos"] by simp

lemma bit_word_at: "length pos \<le> 32 \<Longrightarrow> bit (word_at p pos) k \<longleftrightarrow> k < length pos \<and> rbit p (pos ! (length pos - 1 - k))"
  by (auto simp: word_at_def bit_msb_word)

text \<open>Writing the word that a buffer \<open>sent\<close> has at some positions copies these bits.\<close>

lemma spread_word:
  assumes "distinct pos" "\<And>p. p \<in> set pos \<Longrightarrow> p < 8 * length buf" "length pos = n" "n \<le> 32"
  shows "length (fold (\<lambda>i buf. WRITE_BIT buf (pos ! i) (bit (word_at sent pos) (n - 1 - i))) [0..<n] buf) = length buf"
    and "rbit (fold (\<lambda>i buf. WRITE_BIT buf (pos ! i) (bit (word_at sent pos) (n - 1 - i))) [0..<n] buf) j =
      (if j \<in> set pos then rbit sent j else rbit buf j)"
proof -
  let ?v = "\<lambda>i. bit (word_at sent pos) (n - 1 - i)"
  show "length (fold (\<lambda>i buf. WRITE_BIT buf (pos ! i) (?v i)) [0..<n] buf) = length buf" 
    by (rule spread_bits(1)) (use assms in simp_all)
  show "rbit (fold (\<lambda>i buf. WRITE_BIT buf (pos ! i) (?v i)) [0..<n] buf) j = (if j \<in> set pos then rbit sent j else rbit buf j)"
  proof (cases "j \<in> set pos")
    case True
    then obtain i where i: "i < n" "j = pos ! i" using assms(3) by (auto simp: in_set_conv_nth)
    then have "?v i = rbit sent j" using bit_word_at [of pos sent "n - 1 - i"] assms(3,4) by auto
    moreover have "rbit (fold (\<lambda>i buf. WRITE_BIT buf (pos ! i) (?v i)) [0..<n] buf) (pos ! i) = ?v i"
      by (rule spread_bits(2)) (use assms i in simp_all)
    ultimately show ?thesis using i(2) True by simp
  next
    case False
    then have "rbit (fold (\<lambda>i buf. WRITE_BIT buf (pos ! i) (?v i)) [0..<n] buf) j = rbit buf j"
      by (intro spread_bits(3)) (use assms in simp_all)
    then show ?thesis using False by simp
  qed
qed

end
