(* ===== verification/VoiceFec.thy ===== *)
theory VoiceFec
  imports GolayCode AmbeTable BitWords
begin

section \<open>Voice frame error correction (protocols/DMR/dmr_fec.h, protocols/DSTAR/dstar_fec.h)\<close>

text \<open>
  A vocoder frame of 72 bits holds a Golay coded word \<open>a\<close> and a Golay coded word \<open>b\<close> that is
  scrambled with the table entry of the data of \<open>a\<close>.  \<open>dmrFecFrame\<close> and \<open>dstarFecErrors\<close>
  count the wrong bits and, on request, write the corrected words back.

  The Golay functions return an option (their syndrome loop needs a word of at most 23 bits),
  so the functions here do; that they always return is part of what is shown.  \<open>0x80U >> n\<close>
  and the single bit tests are on \<open>u8\<close>.

  Shown: a frame with at most three wrong bits in each word is restored bit by bit and its wrong
  bits are counted exactly; a frame whose word \<open>a\<close> has four is reported as uncorrectable and
  left as it is; the unprotected bits never change.
\<close>

subsection \<open>DMR\<close>

definition DMR_FEC_A :: "nat list" where
  "DMR_FEC_A = [0, 4, 8, 12, 16, 20, 24, 28, 32, 36, 40, 44,
                48, 52, 56, 60, 64, 68, 1, 5, 9, 13, 17, 21]"

definition DMR_FEC_B :: "nat list" where
  "DMR_FEC_B = [25, 29, 33, 37, 41, 45, 49, 53, 57, 61, 65, 69,
                2, 6, 10, 14, 18, 22, 26, 30, 34, 38, 42]"

definition dmrFecPos :: "nat \<Rightarrow> nat \<Rightarrow> nat" where
  "dmrFecPos n i =
     (if n = 0 then i
      else if n = 1 then (if i < 36 then 72 + i else 156 + (i - 36))
      else 192 + i)"

definition DMR_FEC_READ :: "bytes \<Rightarrow> nat \<Rightarrow> bool" where
  "DMR_FEC_READ p i = (p ! (i div 8) AND drop_bit (i mod 8) 0x80 \<noteq> 0)"

definition DMR_FEC_WRITE :: "bytes \<Rightarrow> nat \<Rightarrow> bool \<Rightarrow> bytes" where
  "DMR_FEC_WRITE p i b = p[i div 8 :=
     (if b then p ! (i div 8) OR drop_bit (i mod 8) 0x80
      else p ! (i div 8) AND NOT (drop_bit (i mod 8) 0x80))]"

definition DMR_FEC_MAX_ERRORS :: u32 where
  "DMR_FEC_MAX_ERRORS = 6"

text \<open>The two loops that read the words and the two that write them.\<close>

definition dmrFecRead :: "bytes \<Rightarrow> nat \<Rightarrow> nat list \<Rightarrow> u32" where
  "dmrFecRead burst n table =
     fold (\<lambda>i w. push_bit 1 w OR (if DMR_FEC_READ burst (dmrFecPos n (table ! i)) then 1 else 0)) [0..<length table] 0"

definition dmrFecWrite :: "nat \<Rightarrow> nat list \<Rightarrow> u32 \<Rightarrow> bytes \<Rightarrow> bytes" where
  "dmrFecWrite n table w burst =
     fold (\<lambda>i burst. DMR_FEC_WRITE burst (dmrFecPos n (table ! i)) (drop_bit (length table - 1 - i) w AND 1 \<noteq> 0))
       [0..<length table] burst"

definition dmrFecFrame :: "bytes \<Rightarrow> nat \<Rightarrow> bool \<Rightarrow> (u32 \<times> bytes) option" where
  "dmrFecFrame burst n regenerate =
     (let a = dmrFecRead burst n DMR_FEC_A; b = dmrFecRead burst n DMR_FEC_B
      in case golay24128_errors24128 a of
           None \<Rightarrow> None
         | Some (errA, data) \<Rightarrow>
             let p = drop_bit 1 (AMBE_PRNG_TABLE ! unat data)
             in case golay24128_errors23127 (b XOR p) of
                  None \<Rightarrow> None
                | Some (errB, datb) \<Rightarrow>
                    let errors = (if errA > 3 then 10 else errA + errB)
                    in if regenerate \<and> errors \<le> DMR_FEC_MAX_ERRORS
                       then let a = golay24128_encode24128 data;
                                b = drop_bit 1 (golay24128_encode23127 datb) XOR p
                            in Some (errors, dmrFecWrite n DMR_FEC_B b (dmrFecWrite n DMR_FEC_A a burst))
                       else Some (errors, burst))"

definition dmrFecErrors :: "bytes \<Rightarrow> bool \<Rightarrow> (u32 \<times> bytes) option" where
  "dmrFecErrors burst regenerate =
     fold (\<lambda>n st. case st of
         None \<Rightarrow> None
       | Some (errors, burst) \<Rightarrow>
           (case dmrFecFrame burst n regenerate of
              None \<Rightarrow> None
            | Some (e, burst) \<Rightarrow> Some (errors + e, burst))) [0..<3] (Some (0, burst))"

subsection \<open>D-Star\<close>

definition DSTAR_FEC_A :: "nat list" where
  "DSTAR_FEC_A = [0, 6, 12, 18, 24, 30, 36, 42, 48, 54, 60, 66,
                  1, 7, 13, 19, 25, 31, 37, 43, 49, 55, 61, 67]"

definition DSTAR_FEC_B :: "nat list" where
  "DSTAR_FEC_B = [2, 8, 14, 20, 26, 32, 38, 44, 50, 56, 62, 68,
                  3, 9, 15, 21, 27, 33, 39, 45, 51, 57, 63, 69]"

definition DSTAR_FEC_C :: "nat list" where
  "DSTAR_FEC_C = [4, 10, 16, 22, 28, 34, 40, 46, 52, 58, 64, 70,
                  5, 11, 17, 23, 29, 35, 41, 47, 53, 59, 65, 71]"

definition DSTAR_FEC_READ :: "bytes \<Rightarrow> nat \<Rightarrow> u8" where
  "DSTAR_FEC_READ p i = p ! (i div 8) AND drop_bit (i mod 8) 0x80"

definition DSTAR_FEC_WRITE :: "bytes \<Rightarrow> nat \<Rightarrow> bool \<Rightarrow> bytes" where
  "DSTAR_FEC_WRITE p i b = p[i div 8 :=
     (if b then p ! (i div 8) OR drop_bit (i mod 8) 0x80
      else p ! (i div 8) AND NOT (drop_bit (i mod 8) 0x80))]"

definition DSTAR_FEC_MAX_ERRORS :: u32 where
  "DSTAR_FEC_MAX_ERRORS = 6"

definition dstarFecRead :: "bytes \<Rightarrow> u32 \<times> u32 \<times> u32 \<times> u32" where
  "dstarFecRead ambe =
     fold (\<lambda>i (a, b, c, mask).
       (if DSTAR_FEC_READ ambe (DSTAR_FEC_A ! i) \<noteq> 0 then a OR mask else a,
        if DSTAR_FEC_READ ambe (DSTAR_FEC_B ! i) \<noteq> 0 then b OR mask else b,
        if DSTAR_FEC_READ ambe (DSTAR_FEC_C ! i) \<noteq> 0 then c OR mask else c,
        drop_bit 1 mask)) [0..<24] (0, 0, 0, 0x800000)"

definition dstarFecWrite :: "u32 \<Rightarrow> u32 \<Rightarrow> u32 \<Rightarrow> bytes \<Rightarrow> bytes" where
  "dstarFecWrite a b c ambe =
     fst (fold (\<lambda>i (ambe, mask).
       (DSTAR_FEC_WRITE
          (DSTAR_FEC_WRITE
             (DSTAR_FEC_WRITE ambe (DSTAR_FEC_A ! i) (a AND mask \<noteq> 0))
             (DSTAR_FEC_B ! i) (b AND mask \<noteq> 0))
          (DSTAR_FEC_C ! i) (c AND mask \<noteq> 0),
        drop_bit 1 mask)) [0..<24] (ambe, 0x800000))"

definition dstarFecErrors :: "bytes \<Rightarrow> bool \<Rightarrow> (u32 \<times> bytes) option" where
  "dstarFecErrors ambe regenerate =
     (let (a, b, c, mask) = dstarFecRead ambe
      in case golay24128_errors24128 a of
           None \<Rightarrow> None
         | Some (errA, data) \<Rightarrow>
             let p = AMBE_PRNG_TABLE ! unat data
             in case golay24128_errors24128 (b XOR p) of
                  None \<Rightarrow> None
                | Some (errB, datb) \<Rightarrow>
                    let a = golay24128_encode24128 data;
                        b = golay24128_encode24128 datb XOR p;
                        errors = (if errA > 3 \<or> errB > 3 then 10 else errA + errB)
                    in Some (errors, if regenerate \<and> errors \<le> DSTAR_FEC_MAX_ERRORS
                                     then dstarFecWrite a b c ambe else ambe))"

subsection \<open>Bits of a frame\<close>

lemma moved_0x80: "k < 8 \<Longrightarrow> drop_bit k (0x80 :: u8) = BIT_MASK_TABLE ! k"
  by (auto simp: less8_iff BIT_MASK_TABLE_def)

lemma fec_bit_access:
  "DMR_FEC_READ p i = rbit p i" "DMR_FEC_WRITE p i b = WRITE_BIT p i b"
  "(DSTAR_FEC_READ p i \<noteq> 0) = rbit p i" "DSTAR_FEC_WRITE p i b = WRITE_BIT p i b"
  by (simp_all add: DMR_FEC_READ_def DMR_FEC_WRITE_def DSTAR_FEC_READ_def DSTAR_FEC_WRITE_def rbit_def READ_BIT_def WRITE_BIT_def moved_0x80)

lemma shifted_bit_test: "(drop_bit k w AND 1 \<noteq> 0) = bit (w :: u32) k"
  by (simp add: bit_iff_odd_drop_bit even_iff_mod_2_eq_zero and_one_eq odd_iff_mod_2_eq_one)

definition dmr_pos :: "nat \<Rightarrow> nat list \<Rightarrow> nat list" where
  "dmr_pos n table = map (dmrFecPos n) table"

lemma dmr_tables: "length DMR_FEC_A = 24" "length DMR_FEC_B = 23" "distinct (DMR_FEC_A @ DMR_FEC_B)"
  "set (DMR_FEC_A @ DMR_FEC_B) \<subseteq> {..<72}"
  by (simp_all add: DMR_FEC_A_def DMR_FEC_B_def)

lemma dmr_pos_inject: "i < 72 \<Longrightarrow> j < 72 \<Longrightarrow> n < 3 \<Longrightarrow> m < 3 \<Longrightarrow> dmrFecPos n i = dmrFecPos m j \<longleftrightarrow> n = m \<and> i = j"
  by (auto simp: dmrFecPos_def split: if_splits)

lemma dmr_pos_less: "i < 72 \<Longrightarrow> n < 3 \<Longrightarrow> dmrFecPos n i < 264"
  by (auto simp: dmrFecPos_def)

lemma dmr_pos_props:
  assumes "n < 3"
  shows "length (dmr_pos n DMR_FEC_A) = 24" "length (dmr_pos n DMR_FEC_B) = 23"
    and "distinct (dmr_pos n (DMR_FEC_A @ DMR_FEC_B))" "set (dmr_pos n (DMR_FEC_A @ DMR_FEC_B)) \<subseteq> {..<264}"
proof -
  show "length (dmr_pos n DMR_FEC_A) = 24" "length (dmr_pos n DMR_FEC_B) = 23" by (simp_all add: dmr_pos_def dmr_tables)
  have "inj_on (dmrFecPos n) {..<72}" using dmr_pos_inject assms by (auto simp: inj_on_def)
  then have "inj_on (dmrFecPos n) (set (DMR_FEC_A @ DMR_FEC_B))" by (rule inj_on_subset) (rule dmr_tables(4))
  then show "distinct (dmr_pos n (DMR_FEC_A @ DMR_FEC_B))" unfolding dmr_pos_def distinct_map using dmr_tables(3) by blast
  show "set (dmr_pos n (DMR_FEC_A @ DMR_FEC_B)) \<subseteq> {..<264}"
    using dmr_tables(4) dmr_pos_less assms unfolding dmr_pos_def by auto
qed

lemma dmr_pos_append: "dmr_pos n (xs @ ys) = dmr_pos n xs @ dmr_pos n ys"
  by (simp add: dmr_pos_def)

lemma dmrFecRead_word: "dmrFecRead burst n table = word_at burst (dmr_pos n table)"
proof -
  have "map (\<lambda>i. rbit burst (dmrFecPos n (table ! i))) [0..<length table] = map (rbit burst) (dmr_pos n table)"
    by (intro nth_equalityI) (simp_all add: dmr_pos_def)
  then show ?thesis
    unfolding dmrFecRead_def fec_bit_access collect_shift by (simp only: word_at_def)
qed

lemma dmrFecWrite_word:
  assumes "distinct (dmr_pos n table)" "\<And>p. p \<in> set (dmr_pos n table) \<Longrightarrow> p < 8 * length burst" "length table \<le> 32"
  shows "length (dmrFecWrite n table (word_at sent (dmr_pos n table)) burst) = length burst"
    and "rbit (dmrFecWrite n table (word_at sent (dmr_pos n table)) burst) j =
      (if j \<in> set (dmr_pos n table) then rbit sent j else rbit burst j)"
proof -
  have e: "dmrFecWrite n table w burst =
      fold (\<lambda>i burst. WRITE_BIT burst (dmr_pos n table ! i) (bit w (length table - 1 - i))) [0..<length table] burst" for w
    unfolding dmrFecWrite_def fec_bit_access shifted_bit_test by (rule fold_upt_cong) (simp add: dmr_pos_def)
  have l: "length (dmr_pos n table) = length table" by (simp add: dmr_pos_def)
  show "length (dmrFecWrite n table (word_at sent (dmr_pos n table)) burst) = length burst"
    unfolding e by (rule spread_word(1)) (use assms l in simp_all)
  show "rbit (dmrFecWrite n table (word_at sent (dmr_pos n table)) burst) j =
      (if j \<in> set (dmr_pos n table) then rbit sent j else rbit burst j)"
    unfolding e by (rule spread_word(2)) (use assms l in simp_all)
qed

subsection \<open>The Golay words\<close>

lemma prng_less: "(d :: u32) < 4096 \<Longrightarrow> AMBE_PRNG_TABLE ! unat d < 2 ^ 24"
proof -
  assume "d < 4096"
  then have "unat d < length AMBE_PRNG_TABLE" by (simp add: length_AMBE_PRNG_TABLE word_less_nat_alt)
  then have "drop_bit 24 (AMBE_PRNG_TABLE ! unat d) = 0" using AMBE_PRNG_bound by (simp add: list_all_length)
  moreover have "bit (drop_bit 24 (AMBE_PRNG_TABLE ! unat d)) i = bit (AMBE_PRNG_TABLE ! unat d) (24 + i)" for i
    by (simp only: bit_drop_bit_eq o_apply)
  ultimately have "\<not> bit (AMBE_PRNG_TABLE ! unat d) (24 + i)" for i by simp
  then have "\<not> bit (AMBE_PRNG_TABLE ! unat d) i" if "24 \<le> i" for i using that le_Suc_ex by blast
  then show ?thesis using word_less_exp_bits [of 24 "AMBE_PRNG_TABLE ! unat d"] by simp
qed

lemma decode_total: "w < 8388608 \<Longrightarrow> \<exists>d<4096. golay24128_decode23127 w = Some d"
proof -
  assume "w < 8388608"
  then obtain d e where "d < 4096" "e \<in> golay_errors" "w = golay_word d XOR e" by (rule every_word_near)
  then show ?thesis using decode_near(1) by blast
qed

lemma errors23127_total: "w < 8388608 \<Longrightarrow> \<exists>n d. golay24128_errors23127 w = Some (n, d)"
  using decode_total [of w] by (auto simp: golay24128_errors23127_def)

lemma drop_1_less: "w < 2 ^ 24 \<Longrightarrow> drop_bit 1 w < (8388608 :: u32)"
  using word_less_exp_bits [of 24 w] by (simp add: less_exp_bits bit_drop_bit_eq)

lemma errors24128_total: "w < 2 ^ 24 \<Longrightarrow> \<exists>n d. golay24128_errors24128 w = Some (n, d) \<and> d < 4096"
  using decode_total [OF drop_1_less [of w]] by (auto simp: golay24128_errors24128_def)

text \<open>A received word of 24 bits, scrambled with \<open>p\<close>: the scrambling cancels.\<close>

lemma errors_24_scrambled:
  assumes "d < 4096" "word_at sent pos = golay24128_encode24128 d XOR p" "length pos = 24" "wrong_bits sent buf pos \<le> 4"
  shows "\<exists>d'<4096. golay24128_errors24128 (word_at buf pos XOR p) = Some (of_nat (wrong_bits sent buf pos), d') \<and>
    (wrong_bits sent buf pos \<le> 3 \<longrightarrow> d' = d)"
proof -
  let ?e = "word_at sent pos XOR word_at buf pos"
  have less: "word_at buf pos < 2 ^ 24" "word_at sent pos < 2 ^ 24"
    using word_at_less [of pos] assms(3) by simp_all
  have e: "?e < 2 ^ 24" using less word_xor_less_exp [of 24 "word_at sent pos" "word_at buf pos"] by simp
  have w: "weight ?e = wrong_bits sent buf pos" using weight_word_at [of pos sent buf] assms(3) by simp
  have "golay24128_encode24128 d XOR ?e = (golay24128_encode24128 d XOR word_at sent pos) XOR word_at buf pos"
    by (simp only: xor.assoc)
  also have "golay24128_encode24128 d XOR word_at sent pos = p" unfolding assms(2) by (rule word_xor_cancel)
  finally have x: "golay24128_encode24128 d XOR ?e = word_at buf pos XOR p" by (simp only: xor.commute)
  have "golay24128_encode24128 d < 2 ^ 24" unfolding encode24128_word [OF assms(1)] by (rule extended_less [OF assms(1)])
  then have "word_at buf pos XOR p < 2 ^ 24" unfolding x [symmetric] by (rule word_xor_less_exp [rotated]) (use e in simp_all)
  moreover obtain d' where "golay24128_errors24128 (word_at buf pos XOR p) = Some (of_nat (wrong_bits sent buf pos), d')"
      "wrong_bits sent buf pos \<le> 3 \<longrightarrow> d' = d"
    using extended_counts [OF assms(1) e] assms(4) w unfolding x by auto
  ultimately show ?thesis using errors24128_total [of "word_at buf pos XOR p"] by auto
qed

lemma errors_24:
  assumes "d < 4096" "word_at sent pos = golay24128_encode24128 d" "length pos = 24" "wrong_bits sent buf pos \<le> 4"
  shows "\<exists>d'<4096. golay24128_errors24128 (word_at buf pos) = Some (of_nat (wrong_bits sent buf pos), d') \<and>
    (wrong_bits sent buf pos \<le> 3 \<longrightarrow> d' = d)"
  using errors_24_scrambled [of d sent pos 0 buf] assms by simp

text \<open>The same for the words of 23 bits.\<close>

lemma errors_23:
  assumes "d < 4096" "word_at sent pos = drop_bit 1 (golay24128_encode23127 d) XOR p" "length pos = 23" "wrong_bits sent buf pos \<le> 3"
  shows "golay24128_errors23127 (word_at buf pos XOR p) = Some (of_nat (wrong_bits sent buf pos), d)"
proof -
  let ?e = "word_at sent pos XOR word_at buf pos"
  have less: "word_at buf pos < 2 ^ 23" "word_at sent pos < 2 ^ 23"
    using word_at_less [of pos] assms(3) by simp_all
  have e: "?e < 8388608" using less word_xor_less_exp [of 23 "word_at sent pos" "word_at buf pos"] by simp
  have w: "weight ?e = wrong_bits sent buf pos" using weight_word_at [of pos sent buf] assms(3) by simp
  have "golay_word d XOR ?e = (golay_word d XOR word_at sent pos) XOR word_at buf pos" by (simp only: xor.assoc)
  also have "golay_word d XOR word_at sent pos = p"
    unfolding assms(2) encode23127_word [OF assms(1)] by (rule word_xor_cancel)
  finally have "word_at buf pos XOR p = golay_word d XOR ?e" by (simp only: xor.commute)
  then show ?thesis using errors23127_near [OF assms(1) e] assms(4) w by simp
qed

lemma word_small: "n \<le> 10 \<Longrightarrow> m \<le> 10 \<Longrightarrow> ((of_nat n :: u32) > of_nat m) = (n > m)" "n \<le> 10 \<Longrightarrow> m \<le> 10 \<Longrightarrow> ((of_nat n :: u32) \<le> of_nat m) = (n \<le> m)"
  by (simp_all add: word_less_nat_alt word_le_nat_alt unat_of_nat)

subsection \<open>One DMR frame\<close>

definition dmr_code_frame :: "bytes \<Rightarrow> nat \<Rightarrow> bool" where
  "dmr_code_frame sent n \<longleftrightarrow> (\<exists>da<4096. \<exists>db<4096.
     word_at sent (dmr_pos n DMR_FEC_A) = golay24128_encode24128 da \<and>
     word_at sent (dmr_pos n DMR_FEC_B) = drop_bit 1 (golay24128_encode23127 db) XOR drop_bit 1 (AMBE_PRNG_TABLE ! unat da))"

definition dmr_wrong :: "bytes \<Rightarrow> bytes \<Rightarrow> nat \<Rightarrow> nat" where
  "dmr_wrong sent burst n = wrong_bits sent burst (dmr_pos n DMR_FEC_A) + wrong_bits sent burst (dmr_pos n DMR_FEC_B)"

lemma dmr_frame_restored:
  assumes n: "n < 3" and len: "length burst = 33" and code: "dmr_code_frame sent n"
    and wrong: "wrong_bits sent burst (dmr_pos n DMR_FEC_A) \<le> 3" "wrong_bits sent burst (dmr_pos n DMR_FEC_B) \<le> 3"
  shows "\<exists>burst'. dmrFecFrame burst n regenerate = Some (of_nat (dmr_wrong sent burst n), burst') \<and> length burst' = 33 \<and>
    (\<forall>j. rbit burst' j = (if regenerate \<and> j \<in> set (dmr_pos n (DMR_FEC_A @ DMR_FEC_B)) then rbit sent j else rbit burst j))"
proof -
  let ?A = "dmr_pos n DMR_FEC_A" and ?B = "dmr_pos n DMR_FEC_B"
  let ?wa = "wrong_bits sent burst ?A" and ?wb = "wrong_bits sent burst ?B"
  note pos = dmr_pos_props [OF n, unfolded dmr_pos_append]
  obtain da db where d: "da < 4096" "db < 4096" "word_at sent ?A = golay24128_encode24128 da"
      "word_at sent ?B = drop_bit 1 (golay24128_encode23127 db) XOR drop_bit 1 (AMBE_PRNG_TABLE ! unat da)"
    using code unfolding dmr_code_frame_def by blast
  have ea: "golay24128_errors24128 (word_at burst ?A) = Some (of_nat ?wa, da)"
    using errors_24 [OF d(1,3) pos(1), of burst] wrong(1) by auto
  have eb: "golay24128_errors23127 (word_at burst ?B XOR drop_bit 1 (AMBE_PRNG_TABLE ! unat da)) = Some (of_nat ?wb, db)"
    by (rule errors_23 [OF d(2,4) pos(2) wrong(2)])
  have small: "\<not> (of_nat ?wa :: u32) > 3" "(of_nat ?wa + of_nat ?wb :: u32) \<le> DMR_FEC_MAX_ERRORS"
    using word_small(1) [of ?wa 3] word_small(2) [of "?wa + ?wb" 6] wrong by (simp_all add: DMR_FEC_MAX_ERRORS_def)
  have sum: "of_nat ?wa + of_nat ?wb = (of_nat (dmr_wrong sent burst n) :: u32)" by (simp add: dmr_wrong_def)
  let ?burst1 = "dmrFecWrite n DMR_FEC_A (word_at sent ?A) burst"
  let ?burst2 = "dmrFecWrite n DMR_FEC_B (word_at sent ?B) ?burst1"
  have less: "p \<in> set (?A @ ?B) \<Longrightarrow> p < 8 * 33" for p using pos(4) by auto
  have b1: "length ?burst1 = 33" "rbit ?burst1 j = (if j \<in> set ?A then rbit sent j else rbit burst j)" for j
    using dmrFecWrite_word [of n DMR_FEC_A burst sent] pos(3) less len dmr_tables(1) by simp_all
  have b2: "length ?burst2 = 33" "rbit ?burst2 j = (if j \<in> set ?B then rbit sent j else rbit ?burst1 j)" for j
    using dmrFecWrite_word [of n DMR_FEC_B ?burst1 sent] pos(3) less b1(1) dmr_tables(2) by simp_all
  have "dmrFecFrame burst n regenerate = Some (of_nat (dmr_wrong sent burst n), if regenerate then ?burst2 else burst)"
    unfolding dmrFecFrame_def Let_def dmrFecRead_word ea eb option.case prod.case d(3,4) [symmetric]
    using small sum by simp
  then show ?thesis using b1 b2 len by (auto simp: dmr_pos_append)
qed

lemma dmr_frame_uncorrectable:
  assumes n: "n < 3" and code: "dmr_code_frame sent n" and wrong: "wrong_bits sent burst (dmr_pos n DMR_FEC_A) = 4"
  shows "dmrFecFrame burst n regenerate = Some (10, burst)"
proof -
  let ?A = "dmr_pos n DMR_FEC_A" and ?B = "dmr_pos n DMR_FEC_B"
  note pos = dmr_pos_props [OF n]
  obtain da where d: "da < 4096" "word_at sent ?A = golay24128_encode24128 da" using code unfolding dmr_code_frame_def by blast
  obtain d' where ea: "d' < 4096" "golay24128_errors24128 (word_at burst ?A) = Some (4, d')"
    using errors_24 [OF d pos(1), of burst] wrong by auto
  let ?w = "word_at burst ?B XOR drop_bit 1 (AMBE_PRNG_TABLE ! unat d')"
  have "word_at burst ?B < 2 ^ 23" using word_at_less [of ?B burst] pos(2) by simp
  moreover have "drop_bit 1 (AMBE_PRNG_TABLE ! unat d') < 2 ^ 23" using drop_1_less [OF prng_less [OF ea(1)]] by simp
  ultimately have "?w < 8388608" using word_xor_less_exp [of 23 "word_at burst ?B"] by simp
  then obtain eb db where eb: "golay24128_errors23127 ?w = Some (eb, db)" using errors23127_total by blast
  show ?thesis
    unfolding dmrFecFrame_def Let_def dmrFecRead_word ea(2) eb option.case prod.case by (simp add: DMR_FEC_MAX_ERRORS_def)
qed

subsection \<open>The DMR burst\<close>

lemma dmr_pos_disjoint: "n < 3 \<Longrightarrow> m < 3 \<Longrightarrow> n \<noteq> m \<Longrightarrow> j \<in> set (dmr_pos n (DMR_FEC_A @ DMR_FEC_B)) \<Longrightarrow> j \<notin> set (dmr_pos m (DMR_FEC_A @ DMR_FEC_B))"
  using dmr_tables(4) dmr_pos_inject by (auto simp: dmr_pos_def subset_iff)

lemma wrong_bits_cong: "(\<And>i. i \<in> set pos \<Longrightarrow> rbit q i = rbit q' i) \<Longrightarrow> wrong_bits p q pos = wrong_bits p q' pos"
  unfolding wrong_bits_def by (intro arg_cong [of _ _ length] filter_cong) auto

lemma dmr_burst_restored:
  assumes len: "length burst = 33"
    and frames: "\<And>n. n < 3 \<Longrightarrow> dmr_code_frame sent n \<and> wrong_bits sent burst (dmr_pos n DMR_FEC_A) \<le> 3 \<and> wrong_bits sent burst (dmr_pos n DMR_FEC_B) \<le> 3"
  shows "m \<le> 3 \<Longrightarrow> \<exists>burst'. fold (\<lambda>n st. case st of None \<Rightarrow> None
       | Some (errors, burst) \<Rightarrow> (case dmrFecFrame burst n regenerate of None \<Rightarrow> None | Some (e, burst) \<Rightarrow> Some (errors + e, burst)))
       [0..<m] (Some (0, burst)) = Some (of_nat (\<Sum>n<m. dmr_wrong sent burst n), burst') \<and> length burst' = 33 \<and>
    (\<forall>j. rbit burst' j = (if regenerate \<and> (\<exists>n<m. j \<in> set (dmr_pos n (DMR_FEC_A @ DMR_FEC_B))) then rbit sent j else rbit burst j))"
proof (induction m)
  case 0
  then show ?case using len by auto
next
  case (Suc m)
  let ?P = "\<lambda>n. set (dmr_pos n (DMR_FEC_A @ DMR_FEC_B))"
  let ?f = "\<lambda>n st. case st of None \<Rightarrow> None
       | Some (errors, burst) \<Rightarrow> (case dmrFecFrame burst n regenerate of None \<Rightarrow> None | Some (e, burst) \<Rightarrow> Some (errors + e, burst))"
  obtain b1 where b1: "fold ?f [0..<m] (Some (0, burst)) = Some (of_nat (\<Sum>n<m. dmr_wrong sent burst n), b1)" "length b1 = 33"
      "\<And>j. rbit b1 j = (if regenerate \<and> (\<exists>n<m. j \<in> ?P n) then rbit sent j else rbit burst j)"
    using Suc by auto
  have m: "m < 3" using Suc.prems by simp
  have same: "rbit b1 j = rbit burst j" if "j \<in> ?P m" for j
    using b1(3) [of j] dmr_pos_disjoint [of m _ j] that m by auto
  have w: "wrong_bits sent b1 (dmr_pos m DMR_FEC_A) = wrong_bits sent burst (dmr_pos m DMR_FEC_A)"
      "wrong_bits sent b1 (dmr_pos m DMR_FEC_B) = wrong_bits sent burst (dmr_pos m DMR_FEC_B)"
    by (intro wrong_bits_cong same; simp add: dmr_pos_append)+
  then obtain b2 where b2: "dmrFecFrame b1 m regenerate = Some (of_nat (dmr_wrong sent burst m), b2)" "length b2 = 33"
      "\<And>j. rbit b2 j = (if regenerate \<and> j \<in> ?P m then rbit sent j else rbit b1 j)"
    using dmr_frame_restored [OF m b1(2), of sent regenerate] frames [OF m] by (auto simp: dmr_wrong_def)
  have "fold ?f [0..<Suc m] (Some (0, burst)) = Some (of_nat (\<Sum>n<Suc m. dmr_wrong sent burst n), b2)"
    unfolding fold_upt_Suc b1(1) option.case prod.case b2(1) by simp
  moreover have "rbit b2 j = (if regenerate \<and> (\<exists>n<Suc m. j \<in> ?P n) then rbit sent j else rbit burst j)" for j
    unfolding b2(3) b1(3) by (auto simp: less_Suc_eq)
  ultimately show ?case using b2(2) by blast
qed

subsection \<open>One D-Star frame\<close>

lemma dstar_tables:
  "length DSTAR_FEC_A = 24" "length DSTAR_FEC_B = 24" "length DSTAR_FEC_C = 24"
  "distinct (DSTAR_FEC_A @ DSTAR_FEC_B @ DSTAR_FEC_C)" "set (DSTAR_FEC_A @ DSTAR_FEC_B @ DSTAR_FEC_C) \<subseteq> {..<72}"
  by (simp_all add: DSTAR_FEC_A_def DSTAR_FEC_B_def DSTAR_FEC_C_def)

lemma dstarFecRead_words:
  "dstarFecRead ambe = (word_at ambe DSTAR_FEC_A, word_at ambe DSTAR_FEC_B, word_at ambe DSTAR_FEC_C, loop_mask 24 24)"
proof -
  let ?P = "\<lambda>table i. rbit ambe (table ! i)"
  let ?f = "\<lambda>i (a, b, c, mask). (if ?P DSTAR_FEC_A i then a OR mask else a, if ?P DSTAR_FEC_B i then b OR mask else b,
    if ?P DSTAR_FEC_C i then c OR mask else c, drop_bit 1 mask)"
  have "m \<le> 24 \<Longrightarrow> \<exists>a b c. fold ?f [0..<m] (0, 0, 0, loop_mask 24 0) = (a, b, c, loop_mask 24 m) \<and>
      loaded (?P DSTAR_FEC_A) 24 m a \<and> loaded (?P DSTAR_FEC_B) 24 m b \<and> loaded (?P DSTAR_FEC_C) 24 m c" for m
  proof (induction m)
    case 0
    show ?case using loaded_0 by simp
  next
    case (Suc m)
    then obtain a b c where w: "fold ?f [0..<m] (0, 0, 0, loop_mask 24 0) = (a, b, c, loop_mask 24 m)"
        "loaded (?P DSTAR_FEC_A) 24 m a" "loaded (?P DSTAR_FEC_B) 24 m b" "loaded (?P DSTAR_FEC_C) 24 m c" by auto
    have m: "m < 24" using Suc.prems by simp
    have l: "loaded (?P DSTAR_FEC_A) 24 (Suc m) (if ?P DSTAR_FEC_A m then a OR loop_mask 24 m else a)"
        "loaded (?P DSTAR_FEC_B) 24 (Suc m) (if ?P DSTAR_FEC_B m then b OR loop_mask 24 m else b)"
        "loaded (?P DSTAR_FEC_C) 24 (Suc m) (if ?P DSTAR_FEC_C m then c OR loop_mask 24 m else c)"
      by (rule loaded_step; use w m in simp)+
    moreover have "fold ?f [0..<Suc m] (0, 0, 0, loop_mask 24 0) =
        (if ?P DSTAR_FEC_A m then a OR loop_mask 24 m else a, if ?P DSTAR_FEC_B m then b OR loop_mask 24 m else b,
         if ?P DSTAR_FEC_C m then c OR loop_mask 24 m else c, loop_mask 24 (Suc m))"
      unfolding fold_upt_Suc w(1) by (simp only: prod.case loop_mask_simps)
    ultimately show ?case by blast
  qed
  from this [of 24] obtain a b c where w: "fold ?f [0..<24] (0, 0, 0, loop_mask 24 0) = (a, b, c, loop_mask 24 24)"
      "loaded (?P DSTAR_FEC_A) 24 24 a" "loaded (?P DSTAR_FEC_B) 24 24 b" "loaded (?P DSTAR_FEC_C) 24 24 c" by auto
  have at: "msb_word (map (?P table) [0..<24]) = word_at ambe table" if "length table = 24" for table
  proof -
    have "map (?P table) [0..<24] = map (rbit ambe) table" using that by (intro nth_equalityI) simp_all
    then show ?thesis by (simp only: word_at_def)
  qed
  have "loop_mask 24 0 = 0x800000" by (simp add: loop_mask_def)
  then have "dstarFecRead ambe = fold ?f [0..<24] (0, 0, 0, loop_mask 24 0)"
    unfolding dstarFecRead_def fec_bit_access by simp
  then have "dstarFecRead ambe = (a, b, c, loop_mask 24 24)" using w(1) by (simp only:)
  moreover have "a = word_at ambe DSTAR_FEC_A" "b = word_at ambe DSTAR_FEC_B" "c = word_at ambe DSTAR_FEC_C"
    using loaded_word [OF _ w(2)] loaded_word [OF _ w(3)] loaded_word [OF _ w(4)] at [OF dstar_tables(1)] at [OF dstar_tables(2)] at [OF dstar_tables(3)]
    by simp_all
  ultimately show ?thesis by simp
qed

text \<open>The three writes of a round as one loop over 72 positions.\<close>

definition dstar_pos :: "nat \<Rightarrow> nat" where
  "dstar_pos k = [DSTAR_FEC_A, DSTAR_FEC_B, DSTAR_FEC_C] ! (k mod 3) ! (k div 3)"

lemma dstar_pos_all: "map dstar_pos [0..<72] =
  [0, 2, 4, 6, 8, 10, 12, 14, 16, 18, 20, 22, 24, 26, 28, 30, 32, 34, 36, 38, 40, 42, 44, 46, 48, 50, 52, 54, 56, 58, 60, 62, 64, 66, 68, 70,
   1, 3, 5, 7, 9, 11, 13, 15, 17, 19, 21, 23, 25, 27, 29, 31, 33, 35, 37, 39, 41, 43, 45, 47, 49, 51, 53, 55, 57, 59, 61, 63, 65, 67, 69, 71]"
  by (simp add: dstar_pos_def DSTAR_FEC_A_def DSTAR_FEC_B_def DSTAR_FEC_C_def upt_rec)

lemma dstarFecWrite_fold:
  "dstarFecWrite a b c ambe = fold (\<lambda>k ambe. WRITE_BIT ambe (dstar_pos k) (bit ([a, b, c] ! (k mod 3)) (23 - k div 3))) [0..<72] ambe"
proof -
  let ?g = "\<lambda>k ambe. WRITE_BIT ambe (dstar_pos k) (bit ([a, b, c] ! (k mod 3)) (23 - k div 3))"
  let ?f = "\<lambda>i (ambe, mask). (WRITE_BIT (WRITE_BIT (WRITE_BIT ambe (DSTAR_FEC_A ! i) (a AND mask \<noteq> 0))
      (DSTAR_FEC_B ! i) (b AND mask \<noteq> 0)) (DSTAR_FEC_C ! i) (c AND mask \<noteq> 0), drop_bit 1 mask)"
  have "m \<le> 24 \<Longrightarrow> fold ?f [0..<m] (ambe, loop_mask 24 0) =
      (fold (\<lambda>i. fold (\<lambda>b. ?g (i * 3 + b)) [0..<3]) [0..<m] ambe, loop_mask 24 m)" for m
  proof (induction m)
    case (Suc m)
    have t: "(w AND loop_mask 24 m \<noteq> 0) = bit w (23 - m)" for w
      using moved_mask_test [of 24 m w] Suc.prems by simp
    have u: "[0..<3] = [0, 1, 2 :: nat]" by (simp add: upt_rec)
    have d: "(m * 3 + 0) mod 3 = 0" "(m * 3 + 1) mod 3 = 1" "(m * 3 + 2) mod 3 = 2"
      "(m * 3 + 0) div 3 = m" "(m * 3 + 1) div 3 = m" "(m * 3 + 2) div 3 = m" by presburger+
    have n': "[x, y, z] ! 0 = x" "[x, y, z] ! 1 = y" "[x, y, z] ! 2 = z" for x y z :: "nat list" by simp_all
    have n'': "[x, y, z] ! 0 = x" "[x, y, z] ! 1 = y" "[x, y, z] ! 2 = z" for x y z :: u32 by simp_all
    have "fold (\<lambda>b. ?g (m * 3 + b)) [0..<3] p = WRITE_BIT (WRITE_BIT (WRITE_BIT p (DSTAR_FEC_A ! m) (bit a (23 - m)))
        (DSTAR_FEC_B ! m) (bit b (23 - m))) (DSTAR_FEC_C ! m) (bit c (23 - m))" for p
      unfolding u dstar_pos_def by (simp only: fold.simps id_apply o_apply d n' n'')
    then show ?case
      unfolding fold_upt_Suc using Suc by (simp only: Suc_leD prod.case t loop_mask_simps)
  qed simp
  from this [of 24] have "fst (fold ?f [0..<24] (ambe, loop_mask 24 0)) = fold (\<lambda>i. fold (\<lambda>b. ?g (i * 3 + b)) [0..<3]) [0..<24] ambe"
    by (simp only: order_refl fst_conv simp_thms)
  also have "\<dots> = fold ?g [0..<24 * 3] ambe" by (rule fold_nested)
  finally have e: "fst (fold ?f [0..<24] (ambe, loop_mask 24 0)) = fold ?g [0..<72] ambe" by simp
  have "loop_mask 24 0 = 0x800000" by (simp add: loop_mask_def)
  then show ?thesis using e unfolding dstarFecWrite_def fec_bit_access by (simp del: upt_Suc fold_upt_Suc)
qed

lemma dstarFecWrite_bits:
  assumes "length ambe = 9" "k < 72"
  shows "length (dstarFecWrite a b c ambe) = 9"
    and "rbit (dstarFecWrite a b c ambe) (dstar_pos k) = bit ([a, b, c] ! (k mod 3)) (23 - k div 3)"
proof -
  have d: "distinct (map dstar_pos [0..<72])" unfolding dstar_pos_all by simp
  have "set (map dstar_pos [0..<72]) \<subseteq> {..<72}" unfolding dstar_pos_all by simp
  then have in_range: "\<And>k. k \<in> set [0..<72] \<Longrightarrow> dstar_pos k < 8 * length ambe" using assms(1) by (auto simp: image_subset_iff)
  show "length (dstarFecWrite a b c ambe) = 9"
    unfolding dstarFecWrite_fold assms(1) [symmetric] by (rule fold_length_inv) simp
  show "rbit (dstarFecWrite a b c ambe) (dstar_pos k) = bit ([a, b, c] ! (k mod 3)) (23 - k div 3)"
    unfolding dstarFecWrite_fold
    by (rule packed.fold_written [of dstar_pos]) (use in_range d assms(2) in auto)
qed

lemma dstar_pos_surj: "j < 72 \<Longrightarrow> \<exists>k<72. j = dstar_pos k"
proof -
  assume "j < 72"
  moreover have "card (set (map dstar_pos [0..<72])) = 72"
    unfolding dstar_pos_all by (subst distinct_card) simp_all
  moreover have "set (map dstar_pos [0..<72]) \<subseteq> {..<72}" unfolding dstar_pos_all by simp
  ultimately have "set (map dstar_pos [0..<72]) = {..<72}" by (intro card_subset_eq) simp_all
  then show ?thesis using \<open>j < 72\<close> by (auto simp del: upt_Suc simp add: set_eq_iff image_iff) (meson atLeastLessThan_iff)
qed

lemma dstar_written:
  assumes "length ambe = 9"
  shows "length (dstarFecWrite (word_at sent DSTAR_FEC_A) (word_at sent DSTAR_FEC_B) (word_at ambe DSTAR_FEC_C) ambe) = 9"
    and "j < 72 \<Longrightarrow> rbit (dstarFecWrite (word_at sent DSTAR_FEC_A) (word_at sent DSTAR_FEC_B) (word_at ambe DSTAR_FEC_C) ambe) j =
      (if j \<in> set DSTAR_FEC_A \<union> set DSTAR_FEC_B then rbit sent j else rbit ambe j)"
proof -
  show "length (dstarFecWrite (word_at sent DSTAR_FEC_A) (word_at sent DSTAR_FEC_B) (word_at ambe DSTAR_FEC_C) ambe) = 9"
    using dstarFecWrite_bits(1) [OF assms, of 0] by simp
  assume "j < 72"
  then obtain k where k: "k < 72" "j = dstar_pos k" using dstar_pos_surj by blast
  let ?i = "k div 3"
  have i: "?i < 24" using k(1) by simp
  have at: "bit (word_at p table) (23 - ?i) = rbit p (table ! ?i)" if "length table = 24" for p table
    using bit_word_at [of table p "23 - ?i"] that i by (simp del: One_nat_def) linarith
  note len = dstar_tables(1-3)
  have mem: "DSTAR_FEC_A ! ?i \<in> set DSTAR_FEC_A" "DSTAR_FEC_B ! ?i \<in> set DSTAR_FEC_B" "DSTAR_FEC_C ! ?i \<in> set DSTAR_FEC_C"
    using len i by simp_all
  then have C: "DSTAR_FEC_C ! ?i \<notin> set DSTAR_FEC_A \<union> set DSTAR_FEC_B" using dstar_tables(4) by auto
  consider "k mod 3 = 0" | "k mod 3 = 1" | "k mod 3 = 2" by linarith
  then show "rbit (dstarFecWrite (word_at sent DSTAR_FEC_A) (word_at sent DSTAR_FEC_B) (word_at ambe DSTAR_FEC_C) ambe) j =
      (if j \<in> set DSTAR_FEC_A \<union> set DSTAR_FEC_B then rbit sent j else rbit ambe j)"
    unfolding k(2) dstarFecWrite_bits(2) [OF assms k(1)] unfolding dstar_pos_def
    by cases (use mem C at len in \<open>simp_all only: nth_Cons_0 nth_Cons_Suc numeral_2_eq_2 One_nat_def Un_iff if_True if_False simp_thms\<close>)
qed

definition dstar_code_frame :: "bytes \<Rightarrow> bool" where
  "dstar_code_frame sent \<longleftrightarrow> (\<exists>da<4096. \<exists>db<4096.
     word_at sent DSTAR_FEC_A = golay24128_encode24128 da \<and>
     word_at sent DSTAR_FEC_B = golay24128_encode24128 db XOR AMBE_PRNG_TABLE ! unat da)"

lemma dstar_frame:
  assumes len: "length ambe = 9" and code: "dstar_code_frame sent"
    and wrong: "wrong_bits sent ambe DSTAR_FEC_A \<le> 4" "wrong_bits sent ambe DSTAR_FEC_B \<le> 4"
  shows "\<exists>ambe'. dstarFecErrors ambe regenerate =
      Some (if wrong_bits sent ambe DSTAR_FEC_A \<le> 3 \<and> wrong_bits sent ambe DSTAR_FEC_B \<le> 3
            then of_nat (wrong_bits sent ambe DSTAR_FEC_A + wrong_bits sent ambe DSTAR_FEC_B) else 10, ambe') \<and>
    length ambe' = 9 \<and>
    (\<forall>j<72. rbit ambe' j = (if regenerate \<and> wrong_bits sent ambe DSTAR_FEC_A \<le> 3 \<and> wrong_bits sent ambe DSTAR_FEC_B \<le> 3 \<and>
      j \<in> set DSTAR_FEC_A \<union> set DSTAR_FEC_B then rbit sent j else rbit ambe j))"
proof -
  let ?wa = "wrong_bits sent ambe DSTAR_FEC_A" and ?wb = "wrong_bits sent ambe DSTAR_FEC_B"
  let ?A = "word_at ambe DSTAR_FEC_A" and ?B = "word_at ambe DSTAR_FEC_B" and ?C = "word_at ambe DSTAR_FEC_C"
  obtain da db where d: "da < 4096" "db < 4096" "word_at sent DSTAR_FEC_A = golay24128_encode24128 da"
      "word_at sent DSTAR_FEC_B = golay24128_encode24128 db XOR AMBE_PRNG_TABLE ! unat da"
    using code unfolding dstar_code_frame_def by blast
  obtain d' where ea: "d' < 4096" "golay24128_errors24128 ?A = Some (of_nat ?wa, d')" "?wa \<le> 3 \<longrightarrow> d' = da"
    using errors_24 [OF d(1,3) dstar_tables(1) wrong(1)] by blast
  have big: "(of_nat n :: u32) > 3 \<longleftrightarrow> n > 3" if "n \<le> 4" for n using word_small(1) [of n 3] that by simp
  show ?thesis
  proof (cases "?wa \<le> 3 \<and> ?wb \<le> 3")
    case False
    let ?w = "?B XOR AMBE_PRNG_TABLE ! unat d'"
    have "?B < 2 ^ 24" using word_at_less [of DSTAR_FEC_B ambe] dstar_tables(2) by simp
    then have "?w < 2 ^ 24" using prng_less [OF ea(1)] by (intro word_xor_less_exp) simp_all
    then obtain eb d2 where eb: "golay24128_errors24128 ?w = Some (eb, d2)" using errors24128_total by blast
    have "?wa > 3 \<or> eb > 3"
    proof (cases "?wa \<le> 3")
      case True
      then have "?wb > 3" "d' = da" using False ea(3) by auto
      then have "eb = of_nat ?wb" using errors_24_scrambled [OF d(2,4) dstar_tables(2) wrong(2)] eb by auto
      then show ?thesis using big [OF wrong(2)] \<open>?wb > 3\<close> by simp
    qed simp
    then have "(of_nat ?wa :: u32) > 3 \<or> eb > 3" using big [OF wrong(1)] by blast
    then have "dstarFecErrors ambe regenerate = Some (10, ambe)"
      unfolding dstarFecErrors_def Let_def dstarFecRead_words prod.case ea(2) eb option.case by (simp add: DSTAR_FEC_MAX_ERRORS_def)
    then show ?thesis using False len by auto
  next
    case True
    then have d': "d' = da" using ea(3) by blast
    have eb: "golay24128_errors24128 (?B XOR AMBE_PRNG_TABLE ! unat da) = Some (of_nat ?wb, db)"
      using errors_24_scrambled [OF d(2,4) dstar_tables(2) wrong(2)] True by auto
    let ?w = "dstarFecWrite (word_at sent DSTAR_FEC_A) (word_at sent DSTAR_FEC_B) ?C ambe"
    have small: "\<not> (of_nat ?wa :: u32) > 3" "\<not> (of_nat ?wb :: u32) > 3" using big wrong True by auto
    have sum: "of_nat ?wa + of_nat ?wb = (of_nat (?wa + ?wb) :: u32)" by simp
    have max: "(of_nat (?wa + ?wb) :: u32) \<le> DSTAR_FEC_MAX_ERRORS"
      using word_small(2) [of "?wa + ?wb" 6] True by (simp add: DSTAR_FEC_MAX_ERRORS_def)
    have r: "dstarFecErrors ambe regenerate = Some (of_nat (?wa + ?wb), if regenerate then ?w else ambe)"
      unfolding dstarFecErrors_def Let_def dstarFecRead_words prod.case ea(2) d' eb option.case d(3,4) [symmetric] sum
      using small max by (simp only: if_True if_False simp_thms)
    note w = dstar_written(1) [OF len, of sent] dstar_written(2) [OF len, of _ sent]
    show ?thesis
      unfolding r by (rule exI [of _ "if regenerate then ?w else ambe"]) (use w True len in simp)
  qed
qed

subsection \<open>The corrected voice frames\<close>

text \<open>C4: a DMR voice burst whose three frames have at most three wrong bits in each Golay word is
  counted exactly and, when asked, every protected bit is put back while no other bit changes.\<close>

theorem dmr_voice_restored:
  assumes "length burst = 33"
    and "\<forall>n<3. dmr_code_frame sent n \<and> wrong_bits sent burst (dmr_pos n DMR_FEC_A) \<le> 3 \<and>
      wrong_bits sent burst (dmr_pos n DMR_FEC_B) \<le> 3"
  shows "\<exists>burst'. dmrFecErrors burst regenerate = Some (of_nat (\<Sum>n<3. dmr_wrong sent burst n), burst') \<and>
    length burst' = 33 \<and>
    (\<forall>j. rbit burst' j = (if regenerate \<and> (\<exists>n<3. j \<in> set (dmr_pos n (DMR_FEC_A @ DMR_FEC_B)))
      then rbit sent j else rbit burst j))"
  unfolding dmrFecErrors_def by (rule dmr_burst_restored) (use assms in auto)

lemma encode_0: "golay24128_encode24128 0 = 0" "drop_bit 1 (golay24128_encode23127 0) = 0"
proof -
  have "golay_word 0 = 0" using golay_word_xor [of 0 0] by (simp only: xor_self_eq)
  then show "golay24128_encode24128 0 = 0" "drop_bit 1 (golay24128_encode23127 0) = 0"
    using encode23127_word [of 0]
    by (simp_all add: encode24128_word golay_extended_def golay_shifted_def weight_def)
qed

definition dmr_silence :: bytes where
  "dmr_silence = [0x22, 0x00, 0x02, 0x04, 0x02, 0x20, 0x40, 0x44, 0x00, 0x22, 0x00, 0x02, 0x04, 0x00, 0x00, 0x00, 0x00,
    0x00, 0x00, 0x02, 0x20, 0x40, 0x44, 0x00, 0x22, 0x00, 0x02, 0x04, 0x02, 0x20, 0x40, 0x44, 0x00]"

lemma dmr_silence_code: "n < 3 \<Longrightarrow> dmr_code_frame dmr_silence n"
proof -
  assume "n < 3"
  then have "n \<in> {0, 1, 2}" by auto
  then have "word_at dmr_silence (dmr_pos n DMR_FEC_A) = 0 \<and> word_at dmr_silence (dmr_pos n DMR_FEC_B) = drop_bit 1 0x42CC47"
    by (elim insertE emptyE) (simp; code_simp)+
  then show ?thesis
    unfolding dmr_code_frame_def
    by (intro exI [of _ 0] conjI) (simp_all only: encode_0 AMBE_PRNG_first unsigned_0 xor.left_neutral, simp_all)
qed

lemma dmr_voice_restored_witness:
  "\<exists>burst'. dmrFecErrors (dmr_silence[0 := 0xAA, 24 := 0xA2]) True = Some (3, burst') \<and> length burst' = 33 \<and>
    (\<forall>j. rbit burst' j = (if True \<and> (\<exists>n<3. j \<in> set (dmr_pos n (DMR_FEC_A @ DMR_FEC_B)))
      then rbit dmr_silence j else rbit (dmr_silence[0 := 0xAA, 24 := 0xA2]) j))"
proof -
  let ?b = "dmr_silence[0 := 0xAA, 24 := 0xA2]"
  have w: "wrong_bits dmr_silence ?b (dmr_pos 0 DMR_FEC_A) = 2" "wrong_bits dmr_silence ?b (dmr_pos 0 DMR_FEC_B) = 0"
    "wrong_bits dmr_silence ?b (dmr_pos 1 DMR_FEC_A) = 0" "wrong_bits dmr_silence ?b (dmr_pos 1 DMR_FEC_B) = 0"
    "wrong_bits dmr_silence ?b (dmr_pos 2 DMR_FEC_A) = 1" "wrong_bits dmr_silence ?b (dmr_pos 2 DMR_FEC_B) = 0"
    by code_simp+
  have "\<forall>n<3. dmr_code_frame dmr_silence n \<and> wrong_bits dmr_silence ?b (dmr_pos n DMR_FEC_A) \<le> 3 \<and>
      wrong_bits dmr_silence ?b (dmr_pos n DMR_FEC_B) \<le> 3"
    using w by (auto simp: dmr_silence_code less_Suc_eq numeral_eq_Suc)
  moreover have "of_nat (\<Sum>n<3. dmr_wrong dmr_silence ?b n) = (3 :: u32)"
    using w by (simp add: dmr_wrong_def numeral_3_eq_3 lessThan_Suc numeral_2_eq_2)
  ultimately show ?thesis using dmr_voice_restored [of ?b dmr_silence True] by (simp add: dmr_silence_def)
qed

text \<open>A DMR vocoder frame whose word \<open>a\<close> has four wrong bits, which chooses the scrambling of
  \<open>b\<close> as well, counts as ten errors and is never rewritten, whatever \<open>b\<close> holds.\<close>

theorem dmr_voice_uncorrectable:
  assumes "n < 3" "dmr_code_frame sent n" "wrong_bits sent burst (dmr_pos n DMR_FEC_A) = 4"
  shows "dmrFecFrame burst n regenerate = Some (10, burst)"
  using assms by (rule dmr_frame_uncorrectable)

lemma dmr_voice_uncorrectable_witness:
  "dmrFecFrame (dmr_silence[0 := 0xAA, 1 := 0x88]) 0 True = Some (10, dmr_silence[0 := 0xAA, 1 := 0x88])"
  by (rule dmr_voice_uncorrectable [of _ dmr_silence]) (simp_all add: dmr_silence_code, code_simp)

text \<open>C5: the same for D-Star, where both words have 24 bits: up to three wrong bits in each are
  counted and put back, four in one of them are reported as ten and leave the frame as it is.\<close>

theorem dstar_voice_restored:
  assumes "length ambe = 9" "dstar_code_frame sent"
    and "wrong_bits sent ambe DSTAR_FEC_A \<le> 4" "wrong_bits sent ambe DSTAR_FEC_B \<le> 4"
  shows "\<exists>ambe'. dstarFecErrors ambe regenerate =
      Some (if wrong_bits sent ambe DSTAR_FEC_A \<le> 3 \<and> wrong_bits sent ambe DSTAR_FEC_B \<le> 3
            then of_nat (wrong_bits sent ambe DSTAR_FEC_A + wrong_bits sent ambe DSTAR_FEC_B) else 10, ambe') \<and>
    length ambe' = 9 \<and>
    (\<forall>j<72. rbit ambe' j = (if regenerate \<and> wrong_bits sent ambe DSTAR_FEC_A \<le> 3 \<and> wrong_bits sent ambe DSTAR_FEC_B \<le> 3 \<and>
      j \<in> set DSTAR_FEC_A \<union> set DSTAR_FEC_B then rbit sent j else rbit ambe j))"
  using assms by (rule dstar_frame)

definition dstar_silence :: bytes where
  "dstar_silence = [0x10, 0xC0, 0x00, 0x00, 0x42, 0x00, 0x20, 0xC1, 0x04]"

lemma dstar_silence_code: "dstar_code_frame dstar_silence"
proof -
  have "word_at dstar_silence DSTAR_FEC_A = 0" "word_at dstar_silence DSTAR_FEC_B = 0x42CC47" by code_simp+
  then show ?thesis unfolding dstar_code_frame_def
    by (intro exI [of _ 0] conjI) (simp_all only: encode_0 AMBE_PRNG_first unsigned_0 xor.left_neutral, simp_all)
qed

lemma dstar_voice_restored_witness:
  "\<exists>ambe'. dstarFecErrors (dstar_silence[0 := 0xB2]) True = Some (3, ambe') \<and> length ambe' = 9 \<and>
    (\<forall>j<72. rbit ambe' j = (if j \<in> set DSTAR_FEC_A \<union> set DSTAR_FEC_B then rbit dstar_silence j
      else rbit (dstar_silence[0 := 0xB2]) j))"
proof -
  have "wrong_bits dstar_silence (dstar_silence[0 := 0xB2]) DSTAR_FEC_A = 2"
    "wrong_bits dstar_silence (dstar_silence[0 := 0xB2]) DSTAR_FEC_B = 1" by code_simp+
  then show ?thesis
    using dstar_voice_restored [of "dstar_silence[0 := 0xB2]" dstar_silence True] dstar_silence_code
    by (simp add: dstar_silence_def)
qed

end
