(* ===== verification/Trellis.thy ===== *)
theory Trellis
  imports Bits
begin

section \<open>The trellis coder (tools/fec_tools.c)\<close>

text \<open>
  The rate 3/4 and rate 1/2 trellis codes of DMR and P25 data: 49 constellation points of four
  bits, the path of a state machine whose state is the previous symbol, interleaved into a
  burst.  \<open>int8_t\<close> symbol levels are \<open>int\<close> (only -3, -1, 1, 3 occur) and loop counters, states
  and symbols under construction are \<open>nat\<close>.  The bounded loops are folds or recursions over
  the list of their counters; a return from inside a loop ends the recursion.

  Shown: the codecs decode what they encode and touch only their own bits, the check accepts
  exactly the point sequences of payloads, an accepted burst is at most 20 points away from the
  burst of the payload it gives, and no table or array is read out of range.
\<close>

definition TRELLIS_INTERLEAVE :: "nat list" where
  "TRELLIS_INTERLEAVE = concat
    [[0, 1, 8, 9, 16, 17, 24, 25, 32, 33, 40, 41, 48, 49, 56, 57, 64, 65, 72, 73, 80, 81, 88, 89, 96, 97],
     [2, 3, 10, 11, 18, 19, 26, 27, 34, 35, 42, 43, 50, 51, 58, 59, 66, 67, 74, 75, 82, 83, 90, 91, 4, 5],
     [12, 13, 20, 21, 28, 29, 36, 37, 44, 45, 52, 53, 60, 61, 68, 69, 76, 77, 84, 85, 92, 93, 6, 7, 14, 15],
     [22, 23, 30, 31, 38, 39, 46, 47, 54, 55, 62, 63, 70, 71, 78, 79, 86, 87, 94, 95]]"

definition TRELLIS_ENCODE_34 :: bytes where
  "TRELLIS_ENCODE_34 = concat
    [[0, 8, 4, 12, 2, 10, 6, 14],
     [4, 12, 2, 10, 6, 14, 0, 8],
     [1, 9, 5, 13, 3, 11, 7, 15],
     [5, 13, 3, 11, 7, 15, 1, 9],
     [3, 11, 7, 15, 1, 9, 5, 13],
     [7, 15, 1, 9, 5, 13, 3, 11],
     [2, 10, 6, 14, 0, 8, 4, 12],
     [6, 14, 0, 8, 4, 12, 2, 10]]"

definition TRELLIS_ENCODE_12 :: bytes where
  "TRELLIS_ENCODE_12 = concat
    [[0, 15, 12, 3],
     [4, 11, 8, 7],
     [13, 2, 1, 14],
     [9, 6, 5, 10]]"

definition TRELLIS_POINT_DIBITS :: "(int \<times> int) list" where
  "TRELLIS_POINT_DIBITS =
    [(1, -1), (-1, -1), (3, -3), (-3, -3), (-3, -1), (3, -1), (-1, -3), (1, -3),
     (-3, 3), (3, 3), (-1, 1), (1, 1), (1, 3), (-1, 3), (3, 1), (-3, 1)]"

definition trellisBitPos :: "nat \<Rightarrow> bool \<Rightarrow> nat" where
  "trellisBitPos n dmr = (if dmr \<and> 98 \<le> n then n + 68 else n)"

definition trellisDibitFromBits :: "bool \<Rightarrow> bool \<Rightarrow> int" where
  "trellisDibitFromBits b1 b2 =
     (if \<not> b1 \<and> b2 then 3 else if \<not> b1 \<and> \<not> b2 then 1 else if b1 \<and> \<not> b2 then -1 else -3)"

definition trellisDeinterleave :: "bytes \<Rightarrow> bool \<Rightarrow> bytes" where
  "trellisDeinterleave data dmr =
     (let dibits = fold (\<lambda>i d.
            let n1 = trellisBitPos (i * 2 + 0) dmr; n2 = trellisBitPos (i * 2 + 1) dmr;
                b1 = (READ_BIT data n1 \<noteq> 0x00); b2 = (READ_BIT data n2 \<noteq> 0x00)
            in d[TRELLIS_INTERLEAVE ! i := trellisDibitFromBits b1 b2]) [0..<98] (replicate 98 0)
      in map (\<lambda>i. case find (\<lambda>p. dibits ! (i * 2 + 0) = fst (TRELLIS_POINT_DIBITS ! p) \<and>
                                  dibits ! (i * 2 + 1) = snd (TRELLIS_POINT_DIBITS ! p)) [0..<16] of
                    Some p \<Rightarrow> of_nat p | None \<Rightarrow> 255) [0..<49])"

text \<open>The switch over the symbol level.\<close>

definition trellisBitsFromDibit :: "int \<Rightarrow> bool \<times> bool" where
  "trellisBitsFromDibit d =
     (if d = 3 then (False, True) else if d = 1 then (False, False)
      else if d = -1 then (True, False) else (True, True))"

definition trellisInterleave :: "bytes \<Rightarrow> bool \<Rightarrow> bytes \<Rightarrow> bytes" where
  "trellisInterleave points dmr data =
     (let dibits = fold (\<lambda>i d.
            d[i * 2 + 0 := fst (TRELLIS_POINT_DIBITS ! unat (points ! i AND 0x0F)),
              i * 2 + 1 := snd (TRELLIS_POINT_DIBITS ! unat (points ! i AND 0x0F))]) [0..<49] (replicate 98 0)
      in fold (\<lambda>i data.
           let (b1, b2) = trellisBitsFromDibit (dibits ! (TRELLIS_INTERLEAVE ! i));
               n1 = trellisBitPos (i * 2 + 0) dmr; n2 = trellisBitPos (i * 2 + 1) dmr
           in WRITE_BIT (WRITE_BIT data n1 b1) n2 b2) [0..<98] data)"

definition trellis_count :: "bool \<Rightarrow> nat" where
  "trellis_count half = (if half then 4 else 8)"

definition trellis_table :: "bool \<Rightarrow> bytes" where
  "trellis_table half = (if half then TRELLIS_ENCODE_12 else TRELLIS_ENCODE_34)"

text \<open>The loop of \<open>trellisCheck\<close> from point \<open>i\<close> on; the result is the position and \<open>syms\<close>.\<close>

fun trellis_walk :: "bytes \<Rightarrow> bool \<Rightarrow> nat list \<Rightarrow> nat \<Rightarrow> bytes \<Rightarrow> nat \<times> bytes" where
  "trellis_walk points half [] state syms = (if syms ! 48 \<noteq> 0 then 48 else 999, syms)"
| "trellis_walk points half (i # is) state syms =
     (case find (\<lambda>j. points ! i = trellis_table half ! (state * trellis_count half + j)) [0..<trellis_count half] of
        None \<Rightarrow> (i, syms[i := 9])
      | Some j \<Rightarrow> trellis_walk points half is j (syms[i := of_nat j]))"

definition trellisCheck :: "bytes \<Rightarrow> bool \<Rightarrow> bytes \<Rightarrow> nat \<times> bytes" where
  "trellisCheck points half syms = trellis_walk points half [0..<49] 0 syms"

text \<open>The inner loop of \<open>trellisFix\<close>: the points to try at \<open>failPos\<close>; the last component is true
  when the function returns from inside the loop.\<close>

fun trellis_try :: "nat list \<Rightarrow> bool \<Rightarrow> nat \<Rightarrow> bytes \<Rightarrow> bytes \<Rightarrow> nat \<Rightarrow> nat \<Rightarrow> bytes \<times> bytes \<times> nat \<times> nat \<times> bool" where
  "trellis_try [] half failPos points syms bestPos bestVal = (points, syms, bestPos, bestVal, False)"
| "trellis_try (i # is) half failPos points syms bestPos bestVal =
     (let points = points[failPos := of_nat i];
          (pos, syms) = trellisCheck points half syms
      in if pos = 999 then (points, syms, bestPos, bestVal, True)
         else if pos > bestPos then trellis_try is half failPos points syms pos i
         else trellis_try is half failPos points syms bestPos bestVal)"

fun trellis_rounds :: "nat \<Rightarrow> bool \<Rightarrow> nat \<Rightarrow> bytes \<Rightarrow> bytes \<Rightarrow> bool \<times> bytes \<times> bytes" where
  "trellis_rounds 0 half failPos points syms = (False, points, syms)"
| "trellis_rounds (Suc n) half failPos points syms =
     (let (points, syms, bestPos, bestVal, found) = trellis_try [0..<16] half failPos points syms 0 0
      in if found then (True, points, syms)
         else trellis_rounds n half bestPos (points[failPos := of_nat bestVal]) syms)"

definition trellisFix :: "bytes \<Rightarrow> bool \<Rightarrow> nat \<Rightarrow> bytes \<Rightarrow> bool \<times> bytes \<times> bytes" where
  "trellisFix points half failPos syms = trellis_rounds 20 half failPos points syms"

definition trellis_pack :: "bytes \<Rightarrow> bool \<Rightarrow> bytes \<Rightarrow> bytes" where
  "trellis_pack syms half payload =
     (let bitsPer = (if half then 2 else 3)
      in fold (\<lambda>i. fold (\<lambda>b payload.
           let v = (drop_bit (bitsPer - 1 - b) (syms ! i) AND 0x01 \<noteq> 0); n = i * bitsPer + b
           in WRITE_BIT payload n v) [0..<bitsPer]) [0..<48] payload)"

definition trellisDecode :: "bytes \<Rightarrow> bool \<Rightarrow> bool \<Rightarrow> bytes \<Rightarrow> bool \<times> bytes" where
  "trellisDecode data dmr half payload =
     (let points = trellisDeinterleave data dmr;
          (failPos, syms) = trellisCheck points half (replicate 49 0);
          ok = (failPos = 999);
          (ok, syms) = (if \<not> ok
             then let savePoints = points;
                      (ok, points, syms) = trellisFix points half failPos syms
                  in if \<not> ok \<and> failPos > 0
                     then let (ok, savePoints, syms) = trellisFix savePoints half (failPos - 1) syms in (ok, syms)
                     else (ok, syms)
             else (ok, syms))
      in if \<not> ok then (False, payload) else (True, trellis_pack syms half payload))"

text \<open>The points of a payload; the last symbol, without payload bits, is zero.\<close>

definition trellis_symbol :: "bytes \<Rightarrow> bool \<Rightarrow> nat \<Rightarrow> nat" where
  "trellis_symbol payload half i =
     (let bitsPer = (if half then 2 else 3)
      in if i < 48
         then fold (\<lambda>b sym. 2 * sym + (if READ_BIT payload (i * bitsPer + b) \<noteq> 0x00 then 1 else 0)) [0..<bitsPer] 0
         else 0)"

definition trellis_points :: "bytes \<Rightarrow> bool \<Rightarrow> bytes" where
  "trellis_points payload half =
     fst (fold (\<lambda>i (points, state).
       let sym = trellis_symbol payload half i
       in (points[i := trellis_table half ! (state * trellis_count half + sym)], sym)) [0..<49] (replicate 49 0, 0))"

definition trellisEncode :: "bytes \<Rightarrow> bool \<Rightarrow> bool \<Rightarrow> bytes \<Rightarrow> bytes" where
  "trellisEncode payload dmr half data = trellisInterleave (trellis_points payload half) dmr data"

definition DMRTrellis_decode :: "bytes \<Rightarrow> bytes \<Rightarrow> bool \<times> bytes" where
  "DMRTrellis_decode data payload = trellisDecode data True False payload"

definition DMRTrellis_encode :: "bytes \<Rightarrow> bytes \<Rightarrow> bytes" where
  "DMRTrellis_encode payload data = trellisEncode payload True False data"

definition P25Trellis_decode34 :: "bytes \<Rightarrow> bytes \<Rightarrow> bool \<times> bytes" where
  "P25Trellis_decode34 data payload = trellisDecode data False False payload"

definition P25Trellis_encode34 :: "bytes \<Rightarrow> bytes \<Rightarrow> bytes" where
  "P25Trellis_encode34 payload data = trellisEncode payload False False data"

definition P25Trellis_decode12 :: "bytes \<Rightarrow> bytes \<Rightarrow> bool \<times> bytes" where
  "P25Trellis_decode12 data payload = trellisDecode data False True payload"

definition P25Trellis_encode12 :: "bytes \<Rightarrow> bytes \<Rightarrow> bytes" where
  "P25Trellis_encode12 payload data = trellisEncode payload False True data"

subsection \<open>Loops and tables\<close>

lemma fold_pairs:
  "2 * m \<le> length d \<Longrightarrow> length (fold (\<lambda>i d. d[i * 2 + 0 := f i, i * 2 + 1 := g i]) [0..<m] d) = length d \<and>
    (\<forall>j<2 * m. fold (\<lambda>i d. d[i * 2 + 0 := f i, i * 2 + 1 := g i]) [0..<m] d ! j = (if even j then f (j div 2) else g (j div 2)))"
proof (induction m)
  case (Suc m)
  then show ?case by (auto simp: nth_list_update less_Suc_eq) 
qed simp

lemma interleave_ok: "length TRELLIS_INTERLEAVE = 98" "distinct TRELLIS_INTERLEAVE" "set TRELLIS_INTERLEAVE = {..<98}"
proof -
  show len: "length TRELLIS_INTERLEAVE = 98" by (simp add: TRELLIS_INTERLEAVE_def)
  show dist: "distinct TRELLIS_INTERLEAVE" by (simp add: TRELLIS_INTERLEAVE_def)
  have "set TRELLIS_INTERLEAVE \<subseteq> {..<98}" by (simp add: TRELLIS_INTERLEAVE_def)
  moreover have "card (set TRELLIS_INTERLEAVE) = 98" using len dist by (simp add: distinct_card)
  ultimately show "set TRELLIS_INTERLEAVE = {..<98}" by (intro card_subset_eq) simp_all
qed

lemma interleave_less: "i < 98 \<Longrightarrow> TRELLIS_INTERLEAVE ! i < 98"
  using interleave_ok nth_mem [of i TRELLIS_INTERLEAVE] by auto

lemma interleave_all: "j < 98 \<Longrightarrow> \<exists>i<98. TRELLIS_INTERLEAVE ! i = j"
  using interleave_ok by (metis in_set_conv_nth lessThan_iff)

lemma map_interleave: "map ((!) TRELLIS_INTERLEAVE) [0..<98] = TRELLIS_INTERLEAVE"
  using interleave_ok(1) map_nth [of TRELLIS_INTERLEAVE] by simp

lemma dibits_ok: "length TRELLIS_POINT_DIBITS = 16" "distinct TRELLIS_POINT_DIBITS"
  "\<And>d. d \<in> set TRELLIS_POINT_DIBITS \<Longrightarrow> fst d \<in> {3, 1, -1, -3} \<and> snd d \<in> {3, 1, -1, -3}"
  by (auto simp: TRELLIS_POINT_DIBITS_def)

lemma dibit_bits: "d \<in> {3, 1, -1, -3} \<Longrightarrow> trellisDibitFromBits (fst (trellisBitsFromDibit d)) (snd (trellisBitsFromDibit d)) = d"
  by (auto simp: trellisDibitFromBits_def trellisBitsFromDibit_def)

lemma find_point: "p < 16 \<Longrightarrow> find (\<lambda>q. fst (TRELLIS_POINT_DIBITS ! p) = fst (TRELLIS_POINT_DIBITS ! q) \<and>
    snd (TRELLIS_POINT_DIBITS ! p) = snd (TRELLIS_POINT_DIBITS ! q)) [0..<16] = Some p"
  using dibits_ok(1,2) by (intro find_unique) (auto simp: prod_eq_iff [symmetric] nth_eq_iff_index_eq)

lemma bitpos_less: "n < 196 \<Longrightarrow> trellisBitPos n dmr < (if dmr then 264 else 196)"
  by (auto simp: trellisBitPos_def)

lemma bitpos_distinct: "distinct (map (\<lambda>n. trellisBitPos n dmr) [0..<m])"
  by (auto simp: distinct_map inj_on_def trellisBitPos_def split: if_splits)

subsection \<open>Interleaving\<close>

definition point_dibit :: "bytes \<Rightarrow> nat \<Rightarrow> int" where
  "point_dibit points j =
     (if even j then fst (TRELLIS_POINT_DIBITS ! unat (points ! (j div 2) AND 0x0F))
      else snd (TRELLIS_POINT_DIBITS ! unat (points ! (j div 2) AND 0x0F)))"

definition burst_bit :: "bytes \<Rightarrow> nat \<Rightarrow> bool" where
  "burst_bit points n =
     (let b = trellisBitsFromDibit (point_dibit points (TRELLIS_INTERLEAVE ! (n div 2))) in if even n then fst b else snd b)"

lemma interleave_writes:
  "trellisInterleave points dmr data =
    fold (\<lambda>n data. WRITE_BIT data (trellisBitPos n dmr) (burst_bit points n)) [0..<196] data"
proof -
  let ?D = "fold (\<lambda>i d. d[i * 2 + 0 := fst (TRELLIS_POINT_DIBITS ! unat (points ! i AND 0x0F)),
      i * 2 + 1 := snd (TRELLIS_POINT_DIBITS ! unat (points ! i AND 0x0F))]) [0..<49] (replicate 98 0)"
  have D: "?D ! j = point_dibit points j" if "j < 98" for j
  proof -
    have "\<forall>j<2 * 49. ?D ! j = (if even j then fst (TRELLIS_POINT_DIBITS ! unat (points ! (j div 2) AND 0x0F))
        else snd (TRELLIS_POINT_DIBITS ! unat (points ! (j div 2) AND 0x0F)))"
      by (rule fold_pairs [THEN conjunct2]) simp
    moreover have "j < 2 * 49" using that by simp
    ultimately show ?thesis unfolding point_dibit_def by blast
  qed
  have "trellisInterleave points dmr data =
      fold (\<lambda>i. fold (\<lambda>b data. WRITE_BIT data (trellisBitPos (i * 2 + b) dmr) (burst_bit points (i * 2 + b))) [0..<2]) [0..<98] data"
    unfolding trellisInterleave_def Let_def
  proof (rule fold_upt_cong)
    fix i data assume "i < (98 :: nat)"
    then have e: "?D ! (TRELLIS_INTERLEAVE ! i) = point_dibit points (TRELLIS_INTERLEAVE ! i)"
      by (intro D interleave_less)
    show "(case trellisBitsFromDibit (?D ! (TRELLIS_INTERLEAVE ! i)) of (b1, b2) \<Rightarrow>
        WRITE_BIT (WRITE_BIT data (trellisBitPos (i * 2 + 0) dmr) b1) (trellisBitPos (i * 2 + 1) dmr) b2) =
      fold (\<lambda>b data. WRITE_BIT data (trellisBitPos (i * 2 + b) dmr) (burst_bit points (i * 2 + b))) [0..<2] data"
      unfolding e by (simp add: burst_bit_def Let_def case_prod_unfold upt_rec)
  qed
  also have "\<dots> = fold (\<lambda>n data. WRITE_BIT data (trellisBitPos n dmr) (burst_bit points n)) [0..<98 * 2] data"
    by (rule fold_nested)
  finally show ?thesis by simp
qed

lemma interleave_props:
  assumes "(if dmr then 264 else 196) \<le> 8 * length data"
  shows "length (trellisInterleave points dmr data) = length data"
    and "\<And>n. n < 196 \<Longrightarrow> rbit (trellisInterleave points dmr data) (trellisBitPos n dmr) = burst_bit points n"
    and "\<And>j. (\<And>n. n < 196 \<Longrightarrow> trellisBitPos n dmr \<noteq> j) \<Longrightarrow> rbit (trellisInterleave points dmr data) j = rbit data j"
proof -
  have in_range: "trellisBitPos n dmr < 8 * length data" if "n \<in> set [0..<196]" for n
    using bitpos_less [of n dmr] that assms by (auto split: if_splits)
  show "length (trellisInterleave points dmr data) = length data"
    unfolding interleave_writes by (rule fold_length_inv) simp
  show "rbit (trellisInterleave points dmr data) (trellisBitPos n dmr) = burst_bit points n" if "n < 196" for n
    unfolding interleave_writes
    by (rule packed.fold_written [of "\<lambda>n. trellisBitPos n dmr"]) (use in_range bitpos_distinct that in auto)
  show "rbit (trellisInterleave points dmr data) j = rbit data j" if "\<And>n. n < 196 \<Longrightarrow> trellisBitPos n dmr \<noteq> j" for j
    unfolding interleave_writes
    by (rule packed.fold_other [of _ "\<lambda>n. trellisBitPos n dmr"]) (use in_range that in auto)
qed

lemma deinterleave_interleave:
  assumes room: "(if dmr then 264 else 196) \<le> 8 * length data"
    and p: "length points = 49" "\<And>i. i < 49 \<Longrightarrow> points ! i < 16"
  shows "trellisDeinterleave (trellisInterleave points dmr data) dmr = points"
proof -
  let ?data = "trellisInterleave points dmr data"
  let ?w = "\<lambda>i. trellisDibitFromBits (READ_BIT ?data (trellisBitPos (i * 2 + 0) dmr) \<noteq> 0x00) (READ_BIT ?data (trellisBitPos (i * 2 + 1) dmr) \<noteq> 0x00)"
  let ?d = "fold (\<lambda>i d. d[TRELLIS_INTERLEAVE ! i := ?w i]) [0..<98] (replicate 98 0)"
  have point: "unat (points ! i AND 0x0F) = unat (points ! i)" "unat (points ! i) < 16" if "i < 49" for i
  proof -
    have "points ! i AND 0x0F = take_bit 4 (points ! i)" by (simp add: take_bit_eq_mask mask_eq_exp_minus_1)
    moreover have "take_bit 4 (points ! i) = points ! i" using p(2) [OF that] word_less_exp_bits [of 4 "points ! i"]
      by (intro bit_word_eqI) (auto simp: bit_take_bit_iff, meson not_le)
    ultimately show "unat (points ! i AND 0x0F) = unat (points ! i)" by simp
    show "unat (points ! i) < 16" using p(2) [OF that] by (simp add: word_less_nat_alt)
  qed
  have level: "point_dibit points j \<in> {3, 1, -1, -3}" if "j < 98" for j
  proof -
    have "j div 2 < 49" using that by simp
    then have "TRELLIS_POINT_DIBITS ! unat (points ! (j div 2)) \<in> set TRELLIS_POINT_DIBITS"
      using point(2) dibits_ok(1) by (intro nth_mem) simp
    then show ?thesis using dibits_ok(3) point(1) \<open>j div 2 < 49\<close> unfolding point_dibit_def by (simp split: if_splits)
  qed
  have w: "?w i = point_dibit points (TRELLIS_INTERLEAVE ! i)" if "i < 98" for i
    using interleave_props(2) [OF room, of "i * 2 + 0" points] interleave_props(2) [OF room, of "i * 2 + 1" points]
      that level [OF interleave_less [OF that]] dibit_bits
    by (simp add: rbit_def [symmetric] burst_bit_def Let_def)
  have d: "?d ! j = point_dibit points j" if j: "j < 98" for j
  proof -
    obtain i where i: "i < 98" "TRELLIS_INTERLEAVE ! i = j" using interleave_all [OF j] by blast
    have "?d ! (TRELLIS_INTERLEAVE ! i) = ?w i"
      using i interleave_less interleave_ok(2) map_interleave
      by (intro fold_list_written) (auto simp del: upt_Suc)
    then show ?thesis using w [OF i(1)] i(2) by simp
  qed
  show ?thesis
  proof (rule nth_equalityI)
    fix i assume "i < length (trellisDeinterleave ?data dmr)"
    then have i: "i < 49" by (simp add: trellisDeinterleave_def Let_def del: upt_Suc)
    have e: "?d ! (i * 2 + 0) = fst (TRELLIS_POINT_DIBITS ! unat (points ! i))" "?d ! (i * 2 + 1) = snd (TRELLIS_POINT_DIBITS ! unat (points ! i))"
      using d [of "i * 2 + 0"] d [of "i * 2 + 1"] i point(1) [OF i] by (simp_all add: point_dibit_def del: upt_Suc fold_upt_Suc)
    have "trellisDeinterleave ?data dmr ! i = (case find (\<lambda>p. ?d ! (i * 2 + 0) = fst (TRELLIS_POINT_DIBITS ! p) \<and>
        ?d ! (i * 2 + 1) = snd (TRELLIS_POINT_DIBITS ! p)) [0..<16] of Some p \<Rightarrow> of_nat p | None \<Rightarrow> 255)"
      unfolding trellisDeinterleave_def Let_def by (subst nth_map_upt0 [OF i]) (rule refl)
    then show "trellisDeinterleave ?data dmr ! i = points ! i"
      unfolding e find_point [OF point(2) [OF i]] by simp
  qed (simp add: p trellisDeinterleave_def Let_def del: upt_Suc)
qed

subsection \<open>The state machine\<close>

lemma rows_12: "list_all (\<lambda>s. distinct (map (\<lambda>j. TRELLIS_ENCODE_12 ! (s * 4 + j)) [0..<4])) [0..<4]"
  by (simp add: TRELLIS_ENCODE_12_def upt_rec)

lemma rows_34: "list_all (\<lambda>s. distinct (map (\<lambda>j. TRELLIS_ENCODE_34 ! (s * 8 + j)) [0..<8])) [0..<8]"
  by (simp add: TRELLIS_ENCODE_34_def upt_rec)

lemma table_entries: "length (trellis_table half) = trellis_count half * trellis_count half" "list_all (\<lambda>p. p < 16) (trellis_table half)"
  by (simp_all add: trellis_table_def trellis_count_def TRELLIS_ENCODE_12_def TRELLIS_ENCODE_34_def)

lemma row_inject:
  assumes "s < trellis_count half" "j < trellis_count half" "j' < trellis_count half"
    and "trellis_table half ! (s * trellis_count half + j) = trellis_table half ! (s * trellis_count half + j')"
  shows "j = j'"
proof -
  have "distinct (map (\<lambda>j. trellis_table half ! (s * trellis_count half + j)) [0..<trellis_count half])"
    using assms(1) rows_12 rows_34
    by (cases half) (simp_all add: trellis_table_def trellis_count_def list_all_iff del: upt_Suc)
  then show ?thesis using assms(2-4) by (auto simp: distinct_map inj_on_def)
qed

lemma columns_12: "list_all (\<lambda>j. distinct (map (\<lambda>s. TRELLIS_ENCODE_12 ! (s * 4 + j)) [0..<4])) [0..<4]"
  by (simp add: TRELLIS_ENCODE_12_def upt_rec)

lemma columns_34: "list_all (\<lambda>j. distinct (map (\<lambda>s. TRELLIS_ENCODE_34 ! (s * 8 + j)) [0..<8])) [0..<8]"
  by (simp add: TRELLIS_ENCODE_34_def upt_rec)

lemma column_inject:
  assumes "s < trellis_count half" "s' < trellis_count half" "j < trellis_count half"
    and "trellis_table half ! (s * trellis_count half + j) = trellis_table half ! (s' * trellis_count half + j)"
  shows "s = s'"
proof -
  have "distinct (map (\<lambda>s. trellis_table half ! (s * trellis_count half + j)) [0..<trellis_count half])"
    using assms(3) columns_12 columns_34
    by (cases half) (simp_all add: trellis_table_def trellis_count_def list_all_iff del: upt_Suc)
  then show ?thesis using assms(1,2,4) by (auto simp: distinct_map inj_on_def)
qed

lemma row_less: "s < trellis_count half \<Longrightarrow> j < trellis_count half \<Longrightarrow> s * trellis_count half + j < trellis_count half * trellis_count half"
proof -
  assume a: "s < trellis_count half" "j < trellis_count half"
  then have "s * trellis_count half + j < Suc s * trellis_count half" by simp
  also have "\<dots> \<le> trellis_count half * trellis_count half" using a(1) by (intro mult_le_mono1) simp
  finally show ?thesis .
qed

lemma row_entry: "s < trellis_count half \<Longrightarrow> j < trellis_count half \<Longrightarrow> trellis_table half ! (s * trellis_count half + j) < 16"
  using table_entries [of half] row_less [of s half j] by (auto simp: list_all_length)

text \<open>\<open>follows points half sy\<close>: the points are the path of the symbols \<open>sy\<close>.\<close>

definition follows :: "bytes \<Rightarrow> bool \<Rightarrow> (nat \<Rightarrow> nat) \<Rightarrow> bool" where
  "follows points half sy \<longleftrightarrow> (\<forall>i<49. sy i < trellis_count half \<and>
     points ! i = trellis_table half ! ((if i = 0 then 0 else sy (i - 1)) * trellis_count half + sy i)) \<and> sy 48 = 0"

lemma trellis_count_pos: "0 < trellis_count half" "trellis_count half \<le> 8"
  by (simp_all add: trellis_count_def)

lemma follows_less:
  "follows points half sy \<Longrightarrow> i < 49 \<Longrightarrow> points ! i < 16"
  using row_entry [of "if i = 0 then 0 else sy (i - 1)" half "sy i"] trellis_count_pos(1) [of half]
  by (auto simp: follows_def)

lemma follows_unique:
  assumes "follows p half sy" "length p = 49" "follows q half sy" "length q = 49"
  shows "p = q"
  using assms by (intro nth_equalityI) (auto simp: follows_def)

lemma follows_at: "follows p half sy \<Longrightarrow> i < 49 \<Longrightarrow> sy i < trellis_count half \<and>
    p ! i = trellis_table half ! ((if i = 0 then 0 else sy (i - 1)) * trellis_count half + sy i)"
  by (simp add: follows_def)

lemma follows_symbols_prefix:
  assumes "follows p half sy" "follows q half sy'" "\<And>i. i < m \<Longrightarrow> p ! i = q ! i" "m \<le> 49" "i < m"
  shows "sy i = sy' i"
  using assms(5)
proof (induction i)
  case 0
  then show ?case
    using follows_at [OF assms(1), of 0] follows_at [OF assms(2), of 0] row_inject [of 0 half "sy 0" "sy' 0"] trellis_count_pos(1) [of half] assms(3,4)
    by simp
next
  case (Suc i)
  then have IH: "sy i = sy' i" by simp
  show ?case
    using follows_at [OF assms(1), of i] follows_at [OF assms(1), of "Suc i"] follows_at [OF assms(2), of "Suc i"] Suc.prems assms(3,4)
      row_inject [of "sy i" half "sy (Suc i)" "sy' (Suc i)"] IH
    by simp
qed

lemma follows_symbols_unique:
  "follows p half sy \<Longrightarrow> follows p half sy' \<Longrightarrow> i < 49 \<Longrightarrow> sy i = sy' i"
  by (rule follows_symbols_prefix [of p half sy p sy' 49]) simp_all

text \<open>Once two paths are in different states they stay so until different points are seen: two
  paths never differ in a single point.\<close>

lemma follows_single:
  assumes f: "follows p half sy" "follows q half sy'" and len: "length p = 49" "length q = 49"
    and same: "\<And>i. i < 49 \<Longrightarrow> i \<noteq> k \<Longrightarrow> p ! i = q ! i"
  shows "p = q"
proof (cases "k < 49")
  case True
  have diff: "sy k \<noteq> sy' k \<Longrightarrow> k \<le> j \<Longrightarrow> j < 49 \<Longrightarrow> sy j \<noteq> sy' j" for j
  proof (induction j)
    case (Suc j)
    show ?case
    proof (cases "k = Suc j")
      case False
      then have "sy j \<noteq> sy' j" "p ! Suc j = q ! Suc j" using Suc same [of "Suc j"] by simp_all
      then show ?thesis
        using follows_at [OF f(1), of j] follows_at [OF f(1), of "Suc j"] follows_at [OF f(2), of j] follows_at [OF f(2), of "Suc j"]
          Suc.prems column_inject [of "sy j" half "sy' j" "sy (Suc j)"]
        by auto
    qed (use Suc in simp)
  qed simp
  have eq: "sy k = sy' k" using diff [of 48] True f by (auto simp: follows_def)
  have "sy i = sy' i" if "i < k" for i
    by (rule follows_symbols_prefix [OF f, of k]) (use True that same in auto)
  then have "p ! k = q ! k"
    using follows_at [OF f(1) True] follows_at [OF f(2) True] eq by (cases "k = 0") simp_all
  then show ?thesis using same len by (intro nth_equalityI) metis+
qed (use same len in \<open>auto intro: nth_equalityI\<close>)

lemma walk_follows:
  assumes f: "follows points half sy"
  shows "i \<le> 49 \<Longrightarrow> length syms = 49 \<Longrightarrow> state = (if i = 0 then 0 else sy (i - 1)) \<Longrightarrow> (\<And>k. k < i \<Longrightarrow> syms ! k = of_nat (sy k)) \<Longrightarrow>
    trellis_walk points half [i..<49] state syms = (999, map (\<lambda>k. of_nat (sy k)) [0..<49])"
proof (induction "49 - i" arbitrary: i state syms)
  case 0
  then have "syms = map (\<lambda>k. of_nat (sy k)) [0..<49]" by (intro nth_equalityI) simp_all
  then show ?case using 0 f by (simp add: follows_def del: upt_Suc)
next
  case (Suc n)
  then have i: "i < 49" by simp
  have st: "state < trellis_count half" using f i Suc.prems(3) trellis_count_pos by (auto simp: follows_def)
  have p: "sy i < trellis_count half" "points ! i = trellis_table half ! (state * trellis_count half + sy i)"
    using f i Suc.prems(3) by (auto simp: follows_def)
  have "find (\<lambda>j. points ! i = trellis_table half ! (state * trellis_count half + j)) [0..<trellis_count half] = Some (sy i)"
    using p row_inject [OF st] by (intro find_unique) auto
  then have "trellis_walk points half [i..<49] state syms = trellis_walk points half [Suc i..<49] (sy i) (syms[i := of_nat (sy i)])"
    using i by (simp add: upt_conv_Cons del: upt_Suc)
  also have "\<dots> = (999, map (\<lambda>k. of_nat (sy k)) [0..<49])"
    using Suc.hyps(2) Suc.prems i by (intro Suc.hyps(1)) (auto simp: nth_list_update less_Suc_eq)
  finally show ?case .
qed

lemma check_follows:
  "follows points half sy \<Longrightarrow> length syms = 49 \<Longrightarrow> trellisCheck points half syms = (999, map (\<lambda>k. of_nat (sy k)) [0..<49])"
  unfolding trellisCheck_def by (rule walk_follows) simp_all

lemma walk_sound:
  "trellis_walk points half [i..<49] state syms = (pos, syms') \<Longrightarrow> i \<le> 49 \<Longrightarrow> length syms = 49 \<Longrightarrow> state < trellis_count half \<Longrightarrow>
    length syms' = 49 \<and> (pos = 999 \<or> pos < 49) \<and> (\<forall>k<i. syms' ! k = syms ! k) \<and>
    (pos = 999 \<longrightarrow> syms' ! 48 = 0 \<and> (\<forall>k. i \<le> k \<and> k < 49 \<longrightarrow> unat (syms' ! k) < trellis_count half \<and>
       points ! k = trellis_table half ! ((if k = i then state else unat (syms' ! (k - 1))) * trellis_count half + unat (syms' ! k))))"
proof (induction "49 - i" arbitrary: i state syms)
  case 0
  then show ?case by (auto split: if_splits)
next
  case (Suc n)
  then have i: "i < 49" by simp
  have e: "[i..<49] = i # [Suc i..<49]" using i by (simp add: upt_conv_Cons)
  show ?case
  proof (cases "find (\<lambda>j. points ! i = trellis_table half ! (state * trellis_count half + j)) [0..<trellis_count half]")
    case None
    then show ?thesis using Suc.prems i unfolding e by auto
  next
    case (Some j)
    then have j: "j < trellis_count half" "points ! i = trellis_table half ! (state * trellis_count half + j)"
      by (auto simp: find_Some_iff)
    have w: "trellis_walk points half [Suc i..<49] j (syms[i := of_nat j]) = (pos, syms')"
      using Suc.prems(1) Some unfolding e by simp
    have u: "unat (of_nat j :: u8) = j" using j(1) trellis_count_pos(2) [of half] by (simp add: unat_of_nat)
    have IH: "length syms' = 49" "pos = 999 \<or> pos < 49" "\<And>k. k < Suc i \<Longrightarrow> syms' ! k = syms[i := of_nat j] ! k"
      "pos = 999 \<Longrightarrow> syms' ! 48 = 0 \<and> (\<forall>k. Suc i \<le> k \<and> k < 49 \<longrightarrow> unat (syms' ! k) < trellis_count half \<and>
       points ! k = trellis_table half ! ((if k = Suc i then j else unat (syms' ! (k - 1))) * trellis_count half + unat (syms' ! k)))"
      using Suc.hyps(1) [OF _ w _ _ j(1)] Suc.hyps(2) Suc.prems(3) i by simp_all
    have si: "unat (syms' ! i) = j" using IH(3) [of i] Suc.prems(3) i u by simp
    have "unat (syms' ! k) < trellis_count half \<and>
       points ! k = trellis_table half ! ((if k = i then state else unat (syms' ! (k - 1))) * trellis_count half + unat (syms' ! k))"
      if "pos = 999" "i \<le> k" "k < 49" for k
    proof (cases "k = i")
      case True
      then show ?thesis using si j by simp
    next
      case False
      then have "Suc i \<le> k" using that by simp
      then show ?thesis using IH(4) [OF that(1)] that(3) si False by (cases "k = Suc i") auto
    qed
    then show ?thesis using IH Suc.prems(3) by auto
  qed
qed

lemma check_sound:
  assumes "trellisCheck points half syms = (pos, syms')" "length syms = 49"
  shows "length syms' = 49" "pos = 999 \<or> pos < 49"
    "pos = 999 \<Longrightarrow> follows points half (\<lambda>k. unat (syms' ! k))"
  using walk_sound [of points half 0 0 syms pos syms'] assms trellis_count_pos
  by (auto simp: trellisCheck_def follows_def)

subsection \<open>Symbols and payload bits\<close>

definition bits_per :: "bool \<Rightarrow> nat" where
  "bits_per half = (if half then 2 else 3)"

lemma symbol_eq: "trellis_symbol payload half i =
    (if i < 48 then (if half then 2 * of_bool (rbit payload (i * 2)) + of_bool (rbit payload (i * 2 + 1))
      else 4 * of_bool (rbit payload (i * 3)) + 2 * of_bool (rbit payload (i * 3 + 1)) + of_bool (rbit payload (i * 3 + 2))) else 0)"
proof -
  have u: "[0..<2] = [0, 1 :: nat]" "[0..<3] = [0, 1, 2 :: nat]" by (simp_all add: upt_rec)
  have r: "(if READ_BIT payload n \<noteq> 0x00 then 1 else 0) = (of_bool (rbit payload n) :: nat)" for n by (simp add: rbit_def)
  show ?thesis
    unfolding trellis_symbol_def Let_def r by (cases half) (simp_all only: u if_True if_False fold.simps, simp_all)
qed

lemma symbol_less: "trellis_symbol payload half i < trellis_count half"
  by (auto simp: symbol_eq trellis_count_def)

lemma two_bits: "bit (of_nat (2 * of_bool x + of_bool y) :: u8) 1 = x \<and> bit (of_nat (2 * of_bool x + of_bool y) :: u8) 0 = y"
  by (cases x; cases y; simp)

lemma three_bits: "bit (of_nat (4 * of_bool x + 2 * of_bool y + of_bool z) :: u8) 2 = x \<and>
    bit (of_nat (4 * of_bool x + 2 * of_bool y + of_bool z) :: u8) 1 = y \<and> bit (of_nat (4 * of_bool x + 2 * of_bool y + of_bool z) :: u8) 0 = z"
  by (cases x; cases y; cases z; simp)

lemma trellis_symbol_bits: "i < 48 \<Longrightarrow> b < bits_per half \<Longrightarrow>
    bit (of_nat (trellis_symbol payload half i) :: u8) (bits_per half - 1 - b) = rbit payload (i * bits_per half + b)"
proof -
  assume i: "i < 48" and b: "b < bits_per half"
  show ?thesis
  proof (cases half)
    case True
    have s: "trellis_symbol payload half i = 2 * of_bool (rbit payload (i * 2)) + of_bool (rbit payload (i * 2 + 1))"
      using True i by (simp add: symbol_eq)
    have d: "(2 :: nat) - 1 - 0 = 1" "(2 :: nat) - 1 - 1 = 0" "bits_per half = 2"
      using True by (simp_all add: bits_per_def)
    have "b = 0 \<or> b = 1" using True b by (auto simp: bits_per_def)
    then show ?thesis unfolding s using two_bits [of "rbit payload (i * 2)" "rbit payload (i * 2 + 1)"]
      by (elim disjE) (simp_all only: d add_0_right)
  next
    case False
    have s: "trellis_symbol payload half i = 4 * of_bool (rbit payload (i * 3)) + 2 * of_bool (rbit payload (i * 3 + 1)) + of_bool (rbit payload (i * 3 + 2))"
      using False i by (simp add: symbol_eq)
    have d: "(3 :: nat) - 1 - 0 = 2" "(3 :: nat) - 1 - 1 = 1" "(3 :: nat) - 1 - 2 = 0" "bits_per half = 3"
      using False by (simp_all add: bits_per_def)
    have "b = 0 \<or> b = 1 \<or> b = 2" using False b by (auto simp: bits_per_def)
    then show ?thesis unfolding s
      using three_bits [of "rbit payload (i * 3)" "rbit payload (i * 3 + 1)" "rbit payload (i * 3 + 2)"]
      by (elim disjE) (simp_all only: d add_0_right)
  qed
qed

lemma points_follow: "follows (trellis_points payload half) half (trellis_symbol payload half) \<and> length (trellis_points payload half) = 49"
proof -
  let ?sy = "trellis_symbol payload half"
  let ?f = "\<lambda>i (points, state). let sym = ?sy i in (points[i := trellis_table half ! (state * trellis_count half + sym)], sym)"
  have "m \<le> 49 \<Longrightarrow> length (fst (fold ?f [0..<m] (replicate 49 0, 0))) = 49 \<and>
      snd (fold ?f [0..<m] (replicate 49 0, 0)) = (if m = 0 then 0 else ?sy (m - 1)) \<and>
      (\<forall>i<m. fst (fold ?f [0..<m] (replicate 49 0, 0)) ! i =
        trellis_table half ! ((if i = 0 then 0 else ?sy (i - 1)) * trellis_count half + ?sy i))" for m
  proof (induction m)
    case (Suc m)
    obtain p s where e: "fold ?f [0..<m] (replicate 49 0, 0) = (p, s)" by (cases "fold ?f [0..<m] (replicate 49 0, 0)")
    have IH: "length p = 49" "s = (if m = 0 then 0 else ?sy (m - 1))"
      "\<And>i. i < m \<Longrightarrow> p ! i = trellis_table half ! ((if i = 0 then 0 else ?sy (i - 1)) * trellis_count half + ?sy i)"
      using Suc e by simp_all
    let ?p = "p[m := trellis_table half ! (s * trellis_count half + ?sy m)]"
    have "?p ! i = trellis_table half ! ((if i = 0 then 0 else ?sy (i - 1)) * trellis_count half + ?sy i)" if "i < Suc m" for i
      using that IH Suc.prems by (cases "i = m") (simp_all add: nth_list_update)
    then show ?case unfolding fold_upt_Suc e by (simp add: Let_def IH(1))
  qed simp
  from this [of 49] have "length (trellis_points payload half) = 49"
    "\<forall>i<49. trellis_points payload half ! i = trellis_table half ! ((if i = 0 then 0 else ?sy (i - 1)) * trellis_count half + ?sy i)"
    unfolding trellis_points_def by blast+
  then show ?thesis using symbol_less by (simp add: follows_def symbol_eq)
qed

lemma pack_writes:
  "trellis_pack syms half payload =
    fold (\<lambda>n payload. WRITE_BIT payload n (bit (syms ! (n div bits_per half)) (bits_per half - 1 - n mod bits_per half))) [0..<48 * bits_per half] payload"
proof -
  have t: "(drop_bit k w AND 0x01 \<noteq> 0) = bit w k" for k and w :: u8
    by (simp add: bit_iff_odd_drop_bit even_iff_mod_2_eq_zero and_one_eq odd_iff_mod_2_eq_one)
  have "trellis_pack syms half payload = fold (\<lambda>i. fold (\<lambda>b payload. WRITE_BIT payload (i * bits_per half + b)
      (bit (syms ! ((i * bits_per half + b) div bits_per half)) (bits_per half - 1 - (i * bits_per half + b) mod bits_per half))) [0..<bits_per half]) [0..<48] payload"
    unfolding trellis_pack_def Let_def t bits_per_def [symmetric]
    by (intro fold_upt_cong fold_upt_cong) simp
  also have "\<dots> = fold (\<lambda>n payload. WRITE_BIT payload n (bit (syms ! (n div bits_per half)) (bits_per half - 1 - n mod bits_per half))) [0..<48 * bits_per half] payload"
    by (rule fold_nested [of "\<lambda>n payload. WRITE_BIT payload n (bit (syms ! (n div bits_per half)) (bits_per half - 1 - n mod bits_per half))"])
  finally show ?thesis .
qed

lemma pack_props:
  assumes "48 * bits_per half \<le> 8 * length payload"
  shows "length (trellis_pack syms half payload) = length payload"
    and "\<And>i b. i < 48 \<Longrightarrow> b < bits_per half \<Longrightarrow> rbit (trellis_pack syms half payload) (i * bits_per half + b) = bit (syms ! i) (bits_per half - 1 - b)"
proof -
  show "length (trellis_pack syms half payload) = length payload"
    unfolding pack_writes by (rule fold_length_inv) simp
  fix i b :: nat assume i: "i < 48" "b < bits_per half"
  let ?n = "i * bits_per half + b"
  have n: "?n < 48 * bits_per half"
  proof -
    have "?n < Suc i * bits_per half" using i(2) by simp
    also have "\<dots> \<le> 48 * bits_per half" using i(1) by (intro mult_le_mono1) simp
    finally show ?thesis .
  qed
  have "rbit (trellis_pack syms half payload) ?n = bit (syms ! (?n div bits_per half)) (bits_per half - 1 - ?n mod bits_per half)"
    unfolding pack_writes by (rule packed.fold_written [of "\<lambda>n. n"]) (use assms n in auto)
  then show "rbit (trellis_pack syms half payload) ?n = bit (syms ! i) (bits_per half - 1 - b)" using i(2) by simp
qed

subsection \<open>Encoding\<close>

definition burst_bits :: "bool \<Rightarrow> nat" where
  "burst_bits dmr = (if dmr then 264 else 196)"

text \<open>The bits of a burst that belong to the code.\<close>

definition code_bit :: "bool \<Rightarrow> nat \<Rightarrow> bool" where
  "code_bit dmr j \<longleftrightarrow> (if dmr then j < 98 \<or> 166 \<le> j \<and> j < 264 else j < 196)"

lemma code_bit_pos: "\<not> code_bit dmr j \<Longrightarrow> n < 196 \<Longrightarrow> trellisBitPos n dmr \<noteq> j"
  by (auto simp: code_bit_def trellisBitPos_def split: if_splits)

lemma encode_props:
  assumes "burst_bits dmr \<le> 8 * length data"
  shows "length (trellisEncode payload dmr half data) = length data"
    and "\<not> code_bit dmr j \<Longrightarrow> rbit (trellisEncode payload dmr half data) j = rbit data j"
    and "trellisDeinterleave (trellisEncode payload dmr half data) dmr = trellis_points payload half"
proof -
  have room: "(if dmr then 264 else 196) \<le> 8 * length data" using assms by (simp add: burst_bits_def)
  show "length (trellisEncode payload dmr half data) = length data" unfolding trellisEncode_def by (rule interleave_props(1) [OF room])
  show "\<not> code_bit dmr j \<Longrightarrow> rbit (trellisEncode payload dmr half data) j = rbit data j"
    unfolding trellisEncode_def by (rule interleave_props(3) [OF room]) (rule code_bit_pos)
  show "trellisDeinterleave (trellisEncode payload dmr half data) dmr = trellis_points payload half"
    unfolding trellisEncode_def
    using points_follow [of payload half] follows_less by (intro deinterleave_interleave room) blast+
qed

lemma two_bits_value: "unat (w :: u8) < 4 \<Longrightarrow> unat w = 2 * of_bool (bit w 1) + of_bool (bit w 0)"
proof -
  assume "unat w < 4"
  then have "unat w \<in> {0, 1, 2, 3}" by auto
  moreover have "w = of_nat (unat w)" by simp
  moreover have "unat (of_nat n :: u8) = 2 * of_bool (bit (of_nat n :: u8) 1) + of_bool (bit (of_nat n :: u8) 0)"
    if "n \<in> {0, 1, 2, 3}" for n using that by (elim insertE emptyE) simp_all
  ultimately show ?thesis by metis
qed

lemma three_bits_value: "unat (w :: u8) < 8 \<Longrightarrow> unat w = 4 * of_bool (bit w 2) + 2 * of_bool (bit w 1) + of_bool (bit w 0)"
proof -
  assume "unat w < 8"
  then have "unat w \<in> {0, 1, 2, 3, 4, 5, 6, 7}" by auto
  moreover have "w = of_nat (unat w)" by simp
  moreover have "unat (of_nat n :: u8) = 4 * of_bool (bit (of_nat n :: u8) 2) + 2 * of_bool (bit (of_nat n :: u8) 1) + of_bool (bit (of_nat n :: u8) 0)"
    if "n \<in> {0, 1, 2, 3, 4, 5, 6, 7}" for n using that by (elim insertE emptyE) simp_all
  ultimately show ?thesis by metis
qed

text \<open>The payload written from symbols has these symbols.\<close>

lemma pack_symbols:
  assumes "48 * bits_per half \<le> 8 * length payload" "i < 49"
    and sy: "\<And>i. i < 49 \<Longrightarrow> unat (syms ! i) < trellis_count half" "syms ! 48 = 0"
  shows "trellis_symbol (trellis_pack syms half payload) half i = unat (syms ! i)"
proof (cases "i = 48")
  case True
  then show ?thesis using sy by (simp add: symbol_eq)
next
  case False
  then have i: "i < 48" using assms(2) by simp
  note r = pack_props(2) [OF assms(1) i, of _ syms]
  show ?thesis
  proof (cases half)
    case True
    have "unat (syms ! i) < 4" using sy(1) [OF assms(2)] True by (simp add: trellis_count_def)
    then have "unat (syms ! i) = 2 * of_bool (bit (syms ! i) 1) + of_bool (bit (syms ! i) 0)" by (rule two_bits_value)
    then show ?thesis using True i r [of 0] r [of 1] by (simp only: symbol_eq bits_per_def if_True) simp
  next
    case False
    have "unat (syms ! i) < 8" using sy(1) [OF assms(2)] False by (simp add: trellis_count_def)
    then have "unat (syms ! i) = 4 * of_bool (bit (syms ! i) 2) + 2 * of_bool (bit (syms ! i) 1) + of_bool (bit (syms ! i) 0)"
      by (rule three_bits_value)
    then show ?thesis using False i r [of 0] r [of 1] r [of 2] by (simp only: symbol_eq bits_per_def if_False if_True) simp
  qed
qed

lemma pack_points:
  assumes "48 * bits_per half \<le> 8 * length payload" "follows points half (\<lambda>i. unat (syms ! i))" "length points = 49"
  shows "trellis_points (trellis_pack syms half payload) half = points"
proof -
  have sy: "unat (syms ! i) < trellis_count half" if "i < 49" for i using follows_at [OF assms(2) that] by simp
  have z: "syms ! 48 = 0" using assms(2) by (simp add: follows_def unat_eq_zero)
  have f: "follows (trellis_points (trellis_pack syms half payload) half) half (\<lambda>i. unat (syms ! i))"
  proof -
    let ?p = "trellis_points (trellis_pack syms half payload) half"
    have e: "trellis_symbol (trellis_pack syms half payload) half i = unat (syms ! i)" if "i < 49" for i
      by (rule pack_symbols [OF assms(1) that sy z])
    have "?p ! i = trellis_table half ! ((if i = 0 then 0 else unat (syms ! (i - 1))) * trellis_count half + unat (syms ! i))" if "i < 49" for i
      using follows_at [OF conjunct1 [OF points_follow] that, of "trellis_pack syms half payload" half] e [OF that] e [of "i - 1"] that by simp
    then show ?thesis using sy z by (simp add: follows_def)
  qed
  show ?thesis using follows_unique [OF f _ assms(2,3)] points_follow by blast
qed

text \<open>Decoding the points of a payload gives its bits back.\<close>

lemma pack_payload:
  assumes "8 * length payload = 48 * bits_per half" "length out = length payload"
  shows "trellis_pack (map (\<lambda>k. of_nat (trellis_symbol payload half k)) [0..<49]) half out = payload" (is "?p = _")
proof (rule rbit_inject)
  have room: "48 * bits_per half \<le> 8 * length out" using assms by simp
  show len: "length ?p = length payload" using pack_props(1) [OF room] assms(2) by simp
  fix j assume "j < 8 * length ?p"
  then have j: "j < 48 * bits_per half" using len assms(1) by simp
  have pos: "0 < bits_per half" by (simp add: bits_per_def)
  let ?i = "j div bits_per half" and ?b = "j mod bits_per half"
  have i: "?i < 48" "?b < bits_per half" using j pos by (simp_all add: less_mult_imp_div_less)
  have "rbit ?p (?i * bits_per half + ?b) = bit (map (\<lambda>k. of_nat (trellis_symbol payload half k) :: u8) [0..<49] ! ?i) (bits_per half - 1 - ?b)"
    by (rule pack_props(2) [OF room i])
  also have "map (\<lambda>k. of_nat (trellis_symbol payload half k) :: u8) [0..<49] ! ?i = of_nat (trellis_symbol payload half ?i)"
    using i(1) by (intro nth_map_upt0) simp
  also have "bit (of_nat (trellis_symbol payload half ?i) :: u8) (bits_per half - 1 - ?b) = rbit payload (?i * bits_per half + ?b)"
    by (rule trellis_symbol_bits [OF i])
  finally show "rbit ?p j = rbit payload j" by simp
qed

subsection \<open>Repair\<close>

definition wrong_points :: "bytes \<Rightarrow> bytes \<Rightarrow> nat" where
  "wrong_points p q = length (filter (\<lambda>i. p ! i \<noteq> q ! i) [0..<49])"

lemma wrong_points_card: "wrong_points p q = card {i. i < 49 \<and> p ! i \<noteq> q ! i}"
proof -
  have "distinct (filter (\<lambda>i. p ! i \<noteq> q ! i) [0..<49])" by (intro distinct_filter distinct_upt)
  moreover have "set (filter (\<lambda>i. p ! i \<noteq> q ! i) [0..<49]) = {i. i < 49 \<and> p ! i \<noteq> q ! i}" by (simp only: set_filter set_upt) auto
  ultimately show ?thesis unfolding wrong_points_def by (simp only: distinct_card [symmetric])
qed

lemma wrong_points_same [simp]: "wrong_points p p = 0"
  by (simp add: wrong_points_card)

lemma card_insert_le_Suc: "card (insert k A) \<le> Suc (card A)"
  by (cases "finite A") (simp_all add: card_insert_if)

lemma wrong_points_update: "wrong_points p q \<le> Suc (wrong_points p (q[k := v]))"
proof -
  let ?A = "{i. i < 49 \<and> p ! i \<noteq> q[k := v] ! i}"
  have "x \<in> insert k ?A" if "x < 49" "p ! x \<noteq> q ! x" for x
    using that by (cases "x = k") simp_all
  then have "card {i. i < 49 \<and> p ! i \<noteq> q ! i} \<le> card (insert k ?A)"
    by (intro card_mono subsetI) auto
  also have "\<dots> \<le> Suc (card ?A)" by (rule card_insert_le_Suc)
  finally show ?thesis by (simp only: wrong_points_card)
qed

lemma try_props:
  "trellis_try is half failPos points syms bestPos bestVal = (points', syms', bestPos', bestVal', found) \<Longrightarrow> length syms = 49 \<Longrightarrow>
    bestPos < 49 \<Longrightarrow> length syms' = 49 \<and> bestPos' < 49 \<and> (\<exists>v. points' = points[failPos := v]) \<and>
    (found \<longrightarrow> follows points' half (\<lambda>i. unat (syms' ! i)))"
proof (induction "is" arbitrary: points syms bestPos bestVal)
  case Nil
  then have "points' = points[failPos := points ! failPos]" "syms' = syms" "bestPos' = bestPos" "\<not> found" by simp_all
  then show ?case using Nil.prems(2,3) by blast
next
  case (Cons i ks)
  let ?p = "points[failPos := of_nat i]"
  obtain pos sy where c: "trellisCheck ?p half syms = (pos, sy)" by (cases "trellisCheck ?p half syms")
  note s = check_sound [OF c Cons.prems(2)]
  show ?case
  proof (cases "pos = 999")
    case True
    then have "points' = ?p" "syms' = sy" "bestPos' = bestPos" using Cons.prems(1) c by simp_all
    then show ?thesis using s(1,3) True Cons.prems(3) by blast
  next
    case False
    obtain bp bv where b: "trellis_try ks half failPos ?p sy bp bv = (points', syms', bestPos', bestVal', found)" "bp < 49"
      using Cons.prems(1,3) c False s(2) by (auto simp: Let_def split: if_splits)
    have "?p[failPos := v] = points[failPos := v]" for v by simp
    then show ?thesis using Cons.IH [OF b(1) s(1) b(2)] by presburger
  qed
qed

lemma rounds_props:
  "trellis_rounds n half failPos points syms = (ok, points', syms') \<Longrightarrow> length syms = 49 \<Longrightarrow>
    length points' = length points \<and> length syms' = 49 \<and>
    (ok \<longrightarrow> follows points' half (\<lambda>i. unat (syms' ! i)) \<and> wrong_points points' points \<le> n)"
proof (induction n arbitrary: failPos points syms)
  case (Suc n)
  obtain p s bp bv found where t: "trellis_try [0..<16] half failPos points syms 0 0 = (p, s, bp, bv, found)"
    by (cases "trellis_try [0..<16] half failPos points syms 0 0") auto
  have T: "length s = 49" "\<exists>v. p = points[failPos := v]" "found \<longrightarrow> follows p half (\<lambda>i. unat (s ! i))"
    using try_props [OF t Suc.prems(2)] by auto
  then obtain v where v: "p = points[failPos := v]" by blast
  show ?case
  proof (cases found)
    case True
    then have "points' = p" "syms' = s" "ok" using Suc.prems(1) t by (auto simp del: upt_Suc)
    then show ?thesis using T True v wrong_points_update [of p points failPos v] by (simp add: v)
  next
    case False
    then have r: "trellis_rounds n half bp (p[failPos := of_nat bv]) s = (ok, points', syms')"
      using Suc.prems(1) t by (simp del: upt_Suc)
    have "p[failPos := of_nat bv] = points[failPos := of_nat bv]" by (simp add: v)
    then show ?thesis using Suc.IH [OF r T(1)] wrong_points_update [of points' points failPos "of_nat bv"] by auto
  qed
qed simp

text \<open>A single wrong point at the position tried is found.\<close>

lemma try_found:
  "length syms = 49 \<Longrightarrow> i \<in> set is \<Longrightarrow> follows (points[k := of_nat i]) half sy \<Longrightarrow>
    \<exists>p s bp bv. trellis_try is half k points syms b v = (p, s, bp, bv, True)"
proof (induction "is" arbitrary: points syms b v)
  case (Cons j ks)
  let ?p = "points[k := of_nat j]"
  obtain pos s where c: "trellisCheck ?p half syms = (pos, s)" by (cases "trellisCheck ?p half syms")
  show ?case
  proof (cases "pos = 999")
    case True
    then show ?thesis using c by simp
  next
    case False
    have "i \<noteq> j" using check_follows [of ?p half sy syms] Cons.prems(1,3) c False by auto
    then have "i \<in> set ks" using Cons.prems(2) by simp
    moreover have "follows (?p[k := of_nat i]) half sy" using Cons.prems(3) by simp
    ultimately show ?thesis
      using Cons.IH [OF check_sound(1) [OF c Cons.prems(1)]] c False by (simp add: Let_def)
  qed
qed simp

lemma fix_found:
  assumes "length syms = 49" "length points = 49" "follows q half sy" "length q = 49"
    and "\<And>i. i < 49 \<Longrightarrow> i \<noteq> k \<Longrightarrow> points ! i = q ! i"
  shows "\<exists>s. trellisFix points half k syms = (True, q, s) \<and> length s = 49 \<and> follows q half (\<lambda>i. unat (s ! i))"
proof -
  have q: "points[k := q ! k] = q"
  proof (rule nth_equalityI)
    fix i assume "i < length (points[k := q ! k])"
    then show "points[k := q ! k] ! i = q ! i" using assms(2,5) by (cases "i = k") simp_all
  qed (simp add: assms(2,4))
  have "\<exists>v<16. of_nat v = (q ! k :: u8) \<or> 49 \<le> k"
  proof (cases "k < 49")
    case True
    then have "unat (q ! k) < 16" using follows_less [OF assms(3)] by (simp add: word_less_nat_alt)
    then show ?thesis by (intro exI [of _ "unat (q ! k)"]) simp
  qed (auto intro: exI [of _ 0])
  then obtain v where v: "v < 16" "points[k := of_nat v] = q"
    using q assms(2) by (metis list_update_beyond)
  obtain p s bp bv where t: "trellis_try [0..<16] half k points syms 0 0 = (p, s, bp, bv, True)"
    using try_found [of syms v "[0..<16]" points k half sy 0 0] assms(1,3) v by (auto simp del: upt_Suc)
  have T: "length s = 49" "follows p half (\<lambda>i. unat (s ! i))" "\<exists>v. p = points[k := v]"
    using try_props [OF t assms(1)] by simp_all
  have "p = q"
    by (rule follows_single [OF T(2) assms(3), of k]) (use T(3) assms(2,4,5) in \<open>auto simp: nth_list_update\<close>)
  then have "trellis_rounds (Suc n) half k points syms = (True, q, s)" for n using t by (simp del: upt_Suc)
  from this [of 19] have "trellisFix points half k syms = (True, q, s)" by (simp add: trellisFix_def)
  then show ?thesis using T(1,2) \<open>p = q\<close> by blast
qed

subsection \<open>Decoding\<close>

lemma deinterleave_length [simp]: "length (trellisDeinterleave data dmr) = 49"
  by (simp add: trellisDeinterleave_def Let_def del: upt_Suc)

text \<open>The symbols of the points of a payload give the payload.\<close>

lemma pack_of_points:
  assumes "8 * length payload = 48 * bits_per half" "length out = length payload" "length s = 49"
    and "follows (trellis_points payload half) half (\<lambda>i. unat (s ! i))"
  shows "trellis_pack s half out = payload"
proof -
  have "s ! i = of_nat (trellis_symbol payload half i)" if "i < 49" for i
  proof -
    have "(of_nat (trellis_symbol payload half i) :: u8) = of_nat (unat (s ! i))"
      using follows_symbols_unique [OF assms(4) conjunct1 [OF points_follow] that] by simp
    then show ?thesis by simp
  qed
  then have "s = map (\<lambda>k. of_nat (trellis_symbol payload half k)) [0..<49]"
    using assms(3) by (intro nth_equalityI) simp_all
  then show ?thesis using pack_payload [OF assms(1,2)] by simp
qed

lemma decode_correct:
  assumes len: "8 * length payload = 48 * bits_per half" "length out = length payload"
    and c: "trellisCheck (trellisDeinterleave data dmr) half (replicate 49 0) = (k, syms)"
    and same: "\<And>i. i < 49 \<Longrightarrow> i \<noteq> k \<Longrightarrow> trellisDeinterleave data dmr ! i = trellis_points payload half ! i"
  shows "trellisDecode data dmr half out = (True, payload)"
proof -
  let ?points = "trellisDeinterleave data dmr" and ?q = "trellis_points payload half"
  note q = points_follow [of payload half]
  have S: "length syms = 49" "k = 999 \<Longrightarrow> follows ?points half (\<lambda>i. unat (syms ! i))"
    using check_sound [OF c] by simp_all
  show ?thesis
  proof (cases "k = 999")
    case True
    then have "?points = ?q" using same q by (intro nth_equalityI) auto
    then have "trellis_pack syms half out = payload" using S True len by (intro pack_of_points) simp_all
    then show ?thesis using c True by (simp add: trellisDecode_def)
  next
    case False
    obtain s where s: "trellisFix ?points half k syms = (True, ?q, s)" "length s = 49" "follows ?q half (\<lambda>i. unat (s ! i))"
      using fix_found [OF S(1) deinterleave_length conjunct1 [OF q] conjunct2 [OF q] same] by blast
    have "trellis_pack s half out = payload" using s len by (intro pack_of_points) simp_all
    then show ?thesis using c False s(1) by (simp add: trellisDecode_def)
  qed
qed

lemma fix_sound:
  assumes "trellisFix points half k syms = (ok, points', syms')" "length syms = 49" "length points = 49"
  shows "length syms' = 49" "ok \<Longrightarrow> follows points' half (\<lambda>i. unat (syms' ! i)) \<and> length points' = 49 \<and> wrong_points points' points \<le> 20"
  using rounds_props [OF assms(1) [unfolded trellisFix_def] assms(2)] assms(3) by simp_all

lemma decode_sound:
  assumes room: "48 * bits_per half \<le> 8 * length payload"
    and d: "trellisDecode data dmr half payload = (ok, payload')"
  shows "length payload' = length payload"
    and "ok \<Longrightarrow> wrong_points (trellis_points payload' half) (trellisDeinterleave data dmr) \<le> 20"
    and "\<not> ok \<Longrightarrow> payload' = payload"
proof -
  let ?points = "trellisDeinterleave data dmr"
  let ?good = "\<lambda>s. \<exists>p. length s = 49 \<and> length p = 49 \<and> follows p half (\<lambda>i. unat (s ! i)) \<and> wrong_points p ?points \<le> 20"
  obtain k syms where c: "trellisCheck ?points half (replicate 49 0) = (k, syms)"
    by (cases "trellisCheck ?points half (replicate 49 0)")
  have S: "length syms = 49" "k = 999 \<Longrightarrow> follows ?points half (\<lambda>i. unat (syms ! i))"
    using check_sound [OF c] by simp_all
  obtain ok1 p1 s1 where f1: "trellisFix ?points half k syms = (ok1, p1, s1)" by (cases "trellisFix ?points half k syms") auto
  note F1 = fix_sound [OF f1 S(1) deinterleave_length]
  obtain ok2 p2 s2 where f2: "trellisFix ?points half (k - 1) s1 = (ok2, p2, s2)" by (cases "trellisFix ?points half (k - 1) s1") auto
  note F2 = fix_sound [OF f2 F1(1) deinterleave_length]
  have "ok \<and> (\<exists>s. ?good s \<and> payload' = trellis_pack s half payload) \<or> \<not> ok \<and> payload' = payload"
  proof (cases "k = 999")
    case True
    have "?good syms" using S True by (intro exI [of _ ?points]) simp
    then show ?thesis using d c True by (auto simp: trellisDecode_def)
  next
    case False
    then show ?thesis
      using d c f1 f2 F1 F2 by (cases ok1; cases "k > 0"; cases ok2) (auto simp: trellisDecode_def split: if_splits)
  qed
  then consider s where "ok" "?good s" "payload' = trellis_pack s half payload" | "\<not> ok" "payload' = payload" by blast
  then have "length payload' = length payload \<and> (ok \<longrightarrow> wrong_points (trellis_points payload' half) ?points \<le> 20) \<and> (\<not> ok \<longrightarrow> payload' = payload)"
  proof cases
    case 1
    then obtain p where p: "length s = 49" "length p = 49" "follows p half (\<lambda>i. unat (s ! i))" "wrong_points p ?points \<le> 20" by blast
    have "trellis_points payload' half = p" unfolding 1(3) by (rule pack_points [OF room p(3,2)])
    then show ?thesis using p(4) 1 pack_props(1) [OF room] by simp
  qed simp
  then show "length payload' = length payload"
    and "ok \<Longrightarrow> wrong_points (trellis_points payload' half) (trellisDeinterleave data dmr) \<le> 20"
    and "\<not> ok \<Longrightarrow> payload' = payload" by blast+
qed

subsection \<open>Properties\<close>

text \<open>The codecs of the bridge, with the bytes of their payloads and bursts, the layout and the rate.\<close>

definition trellis_codecs :: "((bytes \<Rightarrow> bytes \<Rightarrow> bytes) \<times> (bytes \<Rightarrow> bytes \<Rightarrow> bool \<times> bytes) \<times> nat \<times> nat \<times> bool \<times> bool) set" where
  "trellis_codecs =
    {(DMRTrellis_encode, DMRTrellis_decode, 18, 33, True, False),
     (P25Trellis_encode34, P25Trellis_decode34, 18, 25, False, False),
     (P25Trellis_encode12, P25Trellis_decode12, 12, 25, False, True)}"

lemma codec_cases:
  assumes "(enc, dec, n, m, dmr, half) \<in> trellis_codecs"
  shows "enc payload data = trellisEncode payload dmr half data" "dec data payload = trellisDecode data dmr half payload"
    "8 * n = 48 * bits_per half" "burst_bits dmr \<le> 8 * m"
  using assms by (auto simp: trellis_codecs_def bits_per_def burst_bits_def DMRTrellis_encode_def DMRTrellis_decode_def
      P25Trellis_encode34_def P25Trellis_decode34_def P25Trellis_encode12_def P25Trellis_decode12_def)

text \<open>C16: each trellis codec decodes what it encodes: whatever the burst held before, encoding a
  payload into it keeps its length and every bit outside the code (the sync and slot type bits
  of DMR, the padding of P25), and decoding it reports success and gives exactly the payload.\<close>

theorem trellis_codecs_round_trip:
  assumes "(enc, dec, n, m, dmr, half) \<in> trellis_codecs" "length payload = n" "length data = m" "length out = n"
  shows "dec (enc payload data) out = (True, payload) \<and> length (enc payload data) = m \<and>
    (\<forall>j. code_bit dmr j \<or> rbit (enc payload data) j = rbit data j)"
proof -
  note c = codec_cases [OF assms(1)]
  have room: "burst_bits dmr \<le> 8 * length data" using c(4) assms(3) by simp
  note e = encode_props [OF room]
  obtain k syms where ch: "trellisCheck (trellisDeinterleave (trellisEncode payload dmr half data) dmr) half (replicate 49 0) = (k, syms)"
    by fastforce
  have "trellisDecode (trellisEncode payload dmr half data) dmr half out = (True, payload)"
    by (rule decode_correct [OF _ _ ch]) (use e(3) c(3) assms in simp_all)
  then show ?thesis unfolding c(1,2) using e assms(3) by auto
qed

theorem trellis_codecs_round_trip_witness:
  "P25Trellis_decode12 (P25Trellis_encode12 [1, 2, 3, 4, 5, 6, 7, 8, 9, 10, 11, 12] (replicate 25 0)) (replicate 12 0) =
    (True, [1, 2, 3, 4, 5, 6, 7, 8, 9, 10, 11, 12])"
  using trellis_codecs_round_trip [of P25Trellis_encode12 P25Trellis_decode12 12 25 False True
      "[1, 2, 3, 4, 5, 6, 7, 8, 9, 10, 11, 12]" "replicate 25 0" "replicate 12 0"]
  by (simp add: trellis_codecs_def)

text \<open>C17: a burst whose only wrong point is the one at which the check stops is decoded to the
  payload that was sent: the first round of \<open>trellisFix\<close> finds the point, and no other point
  makes the path valid.\<close>

theorem trellis_codecs_repair:
  assumes "(enc, dec, n, m, dmr, half) \<in> trellis_codecs" "length payload = n" "length out = n"
    and "\<forall>i<49. i = fst (trellisCheck (trellisDeinterleave data dmr) half (replicate 49 0)) \<or>
      trellisDeinterleave data dmr ! i = trellis_points payload half ! i"
  shows "dec data out = (True, payload)"
proof -
  note c = codec_cases [OF assms(1)]
  show ?thesis unfolding c(2)
    by (rule decode_correct [OF _ _ surjective_pairing]) (use c(3) assms(2-4) in auto)
qed

lemma wrong_point_burst:
  "trellisDeinterleave (trellisInterleave ((replicate 49 0)[5 := 5]) False (replicate 25 0)) False = (replicate 49 0)[5 := 5]"
  by (rule deinterleave_interleave) (auto simp: nth_list_update)

lemma wrong_point_check: "fst (trellisCheck ((replicate 49 0)[5 := 5]) True (replicate 49 0)) = 5"
  by code_simp

lemma wrong_point_points: "trellis_points (replicate 12 0) True = replicate 49 0"
  by code_simp

theorem trellis_codecs_repair_witness:
  "P25Trellis_decode12 (trellisInterleave ((replicate 49 0)[5 := 5]) False (replicate 25 0)) (replicate 12 1) = (True, replicate 12 0)"
  by (rule trellis_codecs_repair [of P25Trellis_encode12 P25Trellis_decode12 12 25 False True])
    (simp_all add: trellis_codecs_def wrong_point_burst wrong_point_check wrong_point_points nth_list_update)

text \<open>C18: a burst is accepted only near a code word: on success the points of the payload that
  is returned differ from the received ones in at most 20 places, one for each round of the
  repair, and on failure the payload buffer is left as it was.\<close>

theorem trellis_codecs_sound:
  assumes "(enc, dec, n, m, dmr, half) \<in> trellis_codecs" "length payload = n"
  shows "case dec data payload of (ok, payload') \<Rightarrow> length payload' = n \<and>
    (if ok then wrong_points (trellis_points payload' half) (trellisDeinterleave data dmr) \<le> 20 else payload' = payload)"
proof -
  note c = codec_cases [OF assms(1)]
  have room: "48 * bits_per half \<le> 8 * length payload" using c(3) assms(2) by simp
  show ?thesis unfolding c(2)
    using decode_sound [OF room, of data dmr] assms(2) by (cases "trellisDecode data dmr half payload") simp
qed

theorem trellis_codecs_sound_witness:
  "case DMRTrellis_decode (replicate 33 0) (replicate 18 7) of (ok, payload') \<Rightarrow> length payload' = 18 \<and>
    (if ok then wrong_points (trellis_points payload' False) (trellisDeinterleave (replicate 33 0) True) \<le> 20 else payload' = replicate 18 7)"
  by (rule trellis_codecs_sound [of DMRTrellis_encode DMRTrellis_decode 18 33 True False]) (simp_all add: trellis_codecs_def)

text \<open>The check stays inside its arrays and decides membership: the position it returns is
  that of one of the 49 points or 999, and it is 999 exactly for the points of a payload.\<close>

theorem trellisCheck_decides:
  assumes "length points = 49" "length syms = 49"
  shows "case trellisCheck points half syms of (pos, syms') \<Rightarrow> length syms' = 49 \<and> (pos < 49 \<or> pos = 999) \<and>
    (pos = 999 \<longleftrightarrow> (\<exists>payload. length payload = 6 * bits_per half \<and> trellis_points payload half = points))"
proof -
  obtain pos syms' where c: "trellisCheck points half syms = (pos, syms')" by (cases "trellisCheck points half syms")
  note s = check_sound [OF c assms(2)]
  have "pos = 999" if "trellis_points payload half = points" for payload
    using check_follows [OF conjunct1 [OF points_follow] assms(2), of payload half] that c by simp
  moreover have "\<exists>payload. length payload = 6 * bits_per half \<and> trellis_points payload half = points" if "pos = 999"
  proof -
    let ?payload = "trellis_pack syms' half (replicate (6 * bits_per half) 0)"
    have "trellis_points ?payload half = points" by (rule pack_points [OF _ s(3) [OF that] assms(1)]) simp
    moreover have "length ?payload = 6 * bits_per half"
      using pack_props(1) [of half "replicate (6 * bits_per half) 0" syms'] by simp
    ultimately show ?thesis by blast
  qed
  ultimately show ?thesis using c s by auto
qed

theorem trellisCheck_decides_witness:
  "\<exists>payload. length payload = 12 \<and> trellis_points payload True = replicate 49 0"
proof -
  have "trellisCheck (replicate 49 0) True (replicate 49 0) = (999, replicate 49 0)" by code_simp
  then show ?thesis using trellisCheck_decides [of "replicate 49 0" "replicate 49 0" True] by (simp add: bits_per_def)
qed

end
