(* ===== verification/Simulation.thy ===== *)
theory Simulation
  imports Main
begin

section \<open>Refinement of an abstract machine\<close>

text \<open>
  The contract between a data structure of the program and its abstract specification: each
  operation of the program, started in a state that satisfies the invariant, keeps the
  invariant, commutes with the abstraction and gives the output of the abstract operation.
  A run of any length then has the outputs of the abstract machine.
\<close>

fun run :: "('s \<Rightarrow> 'op \<Rightarrow> 's \<times> 'o) \<Rightarrow> 's \<Rightarrow> 'op list \<Rightarrow> 's \<times> 'o list" where
  "run step s [] = (s, [])"
| "run step s (x # xs) =
     (let (s', o1) = step s x; (s'', os) = run step s' xs in (s'', o1 # os))"

lemma run_Cons: "run step s (x # xs) =
    (fst (run step (fst (step s x)) xs), snd (step s x) # snd (run step (fst (step s x)) xs))"
  by (simp add: case_prod_unfold Let_def)

lemma run_append: "run step s (xs @ ys) =
    (fst (run step (fst (run step s xs)) ys), snd (run step s xs) @ snd (run step (fst (run step s xs)) ys))"
  by (induction xs arbitrary: s) (simp_all add: run_Cons del: run.simps(2))

locale simulation =
  fixes ok :: "'s \<Rightarrow> bool"
    and abs_of :: "'s \<Rightarrow> 'a"
    and allowed :: "'op \<Rightarrow> bool"
    and step :: "'s \<Rightarrow> 'op \<Rightarrow> 's \<times> 'o"
    and spec :: "'a \<Rightarrow> 'op \<Rightarrow> 'a \<times> 'o"
  assumes step_ok: "ok s \<Longrightarrow> allowed x \<Longrightarrow> ok (fst (step s x))"
    and step_abs: "ok s \<Longrightarrow> allowed x \<Longrightarrow> abs_of (fst (step s x)) = fst (spec (abs_of s) x)"
    and step_out: "ok s \<Longrightarrow> allowed x \<Longrightarrow> snd (step s x) = snd (spec (abs_of s) x)"
begin

lemma run_ok: "ok s \<Longrightarrow> list_all allowed xs \<Longrightarrow> ok (fst (run step s xs))"
  by (induction xs arbitrary: s) (simp_all add: run_Cons step_ok del: run.simps(2))

lemma run_refines:
  "ok s \<Longrightarrow> list_all allowed xs \<Longrightarrow>
    abs_of (fst (run step s xs)) = fst (run spec (abs_of s) xs) \<and> snd (run step s xs) = snd (run spec (abs_of s) xs)"
  by (induction xs arbitrary: s) (simp_all add: run_Cons step_ok step_abs step_out del: run.simps(2))

end

end
