(* ===== verification/RingBuffer.thy ===== *)
theory RingBuffer
  imports Prelude Simulation
begin

section \<open>The ring buffer (tools/RingBuffer.c)\<close>

text \<open>
  The byte queue between the receive, transmit and gateway threads.  The record is the C
  struct; \<open>m_buffer\<close> is \<open>None\<close> for NULL.  \<open>malloc\<close> is a parameter of \<open>RingBuffer_Init\<close>: it
  gives a block of the requested size or NULL.  An output array is passed in and returned
  filled.  Storing through NULL has no meaning in C and none here (\<open>the None\<close>).

  The buffer refines a bounded queue that holds at most \<open>m_length - 1\<close> bytes and that an
  addition without room empties.
\<close>

record RingBuffer =
  m_length :: u32
  m_buffer :: "bytes option"
  m_iPtr :: u32
  m_oPtr :: u32

definition RingBuffer_Init :: "(nat \<Rightarrow> bytes option) \<Rightarrow> u32 \<Rightarrow> RingBuffer" where
  "RingBuffer_Init malloc len =
     \<lparr>m_length = len,
      m_buffer = (case malloc (unat len) of None \<Rightarrow> None | Some b \<Rightarrow> Some (replicate (unat len) 0)),
      m_iPtr = 0, m_oPtr = 0\<rparr>"

definition RingBuffer_Destroy :: "RingBuffer \<Rightarrow> RingBuffer" where
  "RingBuffer_Destroy self = (if m_buffer self \<noteq> None then self\<lparr>m_buffer := None\<rparr> else self)"

definition RingBuffer_clear :: "RingBuffer \<Rightarrow> RingBuffer" where
  "RingBuffer_clear self =
     self\<lparr>m_iPtr := 0, m_oPtr := 0, m_buffer := Some (replicate (unat (m_length self)) 0)\<rparr>"

definition RingBuffer_freeSpace :: "RingBuffer \<Rightarrow> u32" where
  "RingBuffer_freeSpace self =
     (let len = (if m_oPtr self > m_iPtr self then m_oPtr self - m_iPtr self
                 else if m_iPtr self > m_oPtr self then m_length self - (m_iPtr self - m_oPtr self)
                 else m_length self)
      in if len > m_length self then 0 else len)"

definition RingBuffer_dataSize :: "RingBuffer \<Rightarrow> u32" where
  "RingBuffer_dataSize self = m_length self - RingBuffer_freeSpace self"

definition RingBuffer_hasSpace :: "RingBuffer \<Rightarrow> u32 \<Rightarrow> bool" where
  "RingBuffer_hasSpace self len \<longleftrightarrow> RingBuffer_freeSpace self > len"

definition RingBuffer_hasData :: "RingBuffer \<Rightarrow> bool" where
  "RingBuffer_hasData self \<longleftrightarrow> m_oPtr self \<noteq> m_iPtr self"

definition RingBuffer_isEmpty :: "RingBuffer \<Rightarrow> bool" where
  "RingBuffer_isEmpty self \<longleftrightarrow> m_oPtr self = m_iPtr self"

text \<open>One iteration of the loops of \<open>addData\<close>, \<open>getData\<close> and \<open>peek\<close>.\<close>

definition rb_put :: "bytes \<Rightarrow> nat \<Rightarrow> RingBuffer \<Rightarrow> RingBuffer" where
  "rb_put buffer i self =
     (let self = self\<lparr>m_buffer := Some ((the (m_buffer self))[unat (m_iPtr self) := buffer ! i]), m_iPtr := m_iPtr self + 1\<rparr>
      in if m_iPtr self = m_length self then self\<lparr>m_iPtr := 0\<rparr> else self)"

definition rb_take :: "nat \<Rightarrow> RingBuffer \<times> bytes \<Rightarrow> RingBuffer \<times> bytes" where
  "rb_take i = (\<lambda>(self, buffer).
     let buffer = buffer[i := the (m_buffer self) ! unat (m_oPtr self)];
         self = self\<lparr>m_oPtr := m_oPtr self + 1\<rparr>
     in (if m_oPtr self = m_length self then self\<lparr>m_oPtr := 0\<rparr> else self, buffer))"

definition RingBuffer_addData :: "RingBuffer \<Rightarrow> bytes \<Rightarrow> u32 \<Rightarrow> RingBuffer \<times> bool" where
  "RingBuffer_addData self buffer nSamples =
     (if nSamples \<ge> RingBuffer_freeSpace self then (RingBuffer_clear self, False)
      else (fold (rb_put buffer) [0..<unat nSamples] self, True))"

definition RingBuffer_getData :: "RingBuffer \<Rightarrow> bytes \<Rightarrow> u32 \<Rightarrow> RingBuffer \<times> bytes \<times> bool" where
  "RingBuffer_getData self buffer nSamples =
     (if RingBuffer_dataSize self < nSamples then (self, buffer, False)
      else let (self, buffer) = fold rb_take [0..<unat nSamples] (self, buffer) in (self, buffer, True))"

definition RingBuffer_peek :: "RingBuffer \<Rightarrow> bytes \<Rightarrow> u32 \<Rightarrow> bytes \<times> bool" where
  "RingBuffer_peek self buffer nSamples =
     (if RingBuffer_dataSize self < nSamples then (buffer, False)
      else let (ptr, buffer) = fold (\<lambda>i (ptr, buffer).
             let buffer = buffer[i := the (m_buffer self) ! unat ptr]; ptr = ptr + 1
             in (if ptr = m_length self then 0 else ptr, buffer)) [0..<unat nSamples] (m_oPtr self, buffer)
           in (buffer, True))"

subsection \<open>Invariant and contents\<close>

definition rb_ok :: "nat \<Rightarrow> RingBuffer \<Rightarrow> bool" where
  "rb_ok n self \<longleftrightarrow> 0 < n \<and> unat (m_length self) = n \<and>
     (\<exists>b. m_buffer self = Some b \<and> length b = n) \<and> unat (m_iPtr self) < n \<and> unat (m_oPtr self) < n"

text \<open>The number of waiting bytes and the bytes, oldest first.\<close>

definition rb_size :: "RingBuffer \<Rightarrow> nat" where
  "rb_size self = (unat (m_iPtr self) + unat (m_length self) - unat (m_oPtr self)) mod unat (m_length self)"

definition rb_contents :: "RingBuffer \<Rightarrow> bytes" where
  "rb_contents self = map (\<lambda>k. the (m_buffer self) ! ((unat (m_oPtr self) + k) mod unat (m_length self))) [0..<rb_size self]"

lemma length_rb_contents [simp]: "length (rb_contents self) = rb_size self"
  by (simp add: rb_contents_def)

lemma rb_size_less: "rb_ok n self \<Longrightarrow> rb_size self < n"
  by (auto simp: rb_ok_def rb_size_def)

text \<open>The unsigned arithmetic of \<open>freeSpace\<close> does not wrap.\<close>

lemma unat_freeSpace: "rb_ok n self \<Longrightarrow> unat (RingBuffer_freeSpace self) = n - rb_size self"
proof -
  assume ok: "rb_ok n self"
  then have u: "unat (m_length self) = n" "unat (m_iPtr self) < n" "unat (m_oPtr self) < n" by (auto simp: rb_ok_def)
  consider "m_oPtr self > m_iPtr self" | "m_iPtr self > m_oPtr self" | "m_oPtr self = m_iPtr self" by (meson linorder_cases)
  then show ?thesis
  proof cases
    case 1
    then have "unat (m_oPtr self - m_iPtr self) = unat (m_oPtr self) - unat (m_iPtr self)"
      by (simp add: unat_sub word_le_nat_alt word_less_nat_alt)
    with 1 u show ?thesis
      by (simp add: RingBuffer_freeSpace_def rb_size_def Let_def word_less_nat_alt)
  next
    case 2
    then have d: "unat (m_iPtr self - m_oPtr self) = unat (m_iPtr self) - unat (m_oPtr self)"
      by (simp add: unat_sub word_le_nat_alt word_less_nat_alt)
    then have "m_iPtr self - m_oPtr self \<le> m_length self" using u by (simp add: word_le_nat_alt)
    then have "unat (m_length self - (m_iPtr self - m_oPtr self)) = n - (unat (m_iPtr self) - unat (m_oPtr self))"
      using d u by (simp add: unat_sub)
    moreover have "rb_size self = unat (m_iPtr self) - unat (m_oPtr self)"
      using 2 u by (simp add: rb_size_def word_less_nat_alt mod_if)
    ultimately show ?thesis
      using 2 u by (auto simp: RingBuffer_freeSpace_def Let_def word_less_nat_alt)
  next
    case 3
    then show ?thesis using u by (simp add: RingBuffer_freeSpace_def rb_size_def Let_def)
  qed
qed

lemma unat_dataSize: "rb_ok n self \<Longrightarrow> unat (RingBuffer_dataSize self) = rb_size self"
proof -
  assume ok: "rb_ok n self"
  note f = unat_freeSpace [OF ok] and s = rb_size_less [OF ok]
  have "unat (m_length self) = n" using ok by (simp add: rb_ok_def)
  then show ?thesis using f s by (simp add: RingBuffer_dataSize_def unat_sub word_le_nat_alt)
qed

lemma rb_empty: "rb_ok n self \<Longrightarrow> RingBuffer_isEmpty self \<longleftrightarrow> rb_contents self = []"
proof -
  assume ok: "rb_ok n self"
  then have u: "unat (m_length self) = n" "unat (m_iPtr self) < n" "unat (m_oPtr self) < n" by (auto simp: rb_ok_def)
  have "m_oPtr self = m_iPtr self \<longleftrightarrow> rb_size self = 0"
    using u by (auto simp: rb_size_def mod_if word_unat_eq_iff)
  then show ?thesis by (simp add: RingBuffer_isEmpty_def rb_contents_def)
qed

subsection \<open>The loops\<close>

lemma unat_inc: "unat (p :: u32) < n \<Longrightarrow> n \<le> unat (m :: u32) \<Longrightarrow> unat (p + 1) = unat p + 1"
proof -
  assume a: "unat p < n" "n \<le> unat m"
  have "unat m < 2 ^ 32" using unsigned_less [of m] by simp
  then show ?thesis using a by (simp add: unat_word_ariths)
qed

lemma rb_put:
  assumes ok: "rb_ok n self" and room: "rb_size self + 1 < n"
  shows "rb_ok n (rb_put buffer i self) \<and> rb_contents (rb_put buffer i self) = rb_contents self @ [buffer ! i]"
proof -
  obtain b where b: "m_buffer self = Some b" "length b = n" using ok by (auto simp: rb_ok_def)
  let ?i = "unat (m_iPtr self)" and ?o = "unat (m_oPtr self)" and ?s = "rb_put buffer i self"
  have u: "unat (m_length self) = n" "?i < n" "?o < n" using ok by (auto simp: rb_ok_def)
  have inc: "unat (m_iPtr self + 1) = ?i + 1" using unat_inc [of "m_iPtr self" n "m_length self"] u by simp
  have wrap: "m_iPtr self + 1 = m_length self \<longleftrightarrow> ?i + 1 = n" using inc u by (simp add: word_unat_eq_iff)
  have s: "m_length ?s = m_length self" "m_buffer ?s = Some (b[?i := buffer ! i])" "m_oPtr ?s = m_oPtr self"
    "unat (m_iPtr ?s) = (?i + 1) mod n"
    using b wrap inc u by (auto simp: rb_put_def Let_def)
  have size: "rb_size ?s = rb_size self + 1"
    using room u s by (auto simp: rb_size_def mod_if)
  have last: "(?o + rb_size self) mod n = ?i" using u by (auto simp: rb_size_def mod_if)
  have neq: "(?o + k) mod n \<noteq> ?i" if "k < rb_size self" for k
    using that last u rb_size_less [OF ok] by (auto simp: mod_if split: if_splits)
  have "rb_contents ?s = rb_contents self @ [buffer ! i]"
  proof (rule nth_equalityI)
    fix k assume "k < length (rb_contents ?s)"
    then have k: "k < rb_size self + 1" using size by simp
    then show "rb_contents ?s ! k = (rb_contents self @ [buffer ! i]) ! k"
      using last neq [of k] u b s size by (auto simp: rb_contents_def nth_append less_Suc_eq)
  qed (simp add: size)
  then show ?thesis using ok s b u by (auto simp: rb_ok_def)
qed

lemma rb_puts:
  assumes "rb_ok n self" "rb_size self + m < n"
  shows "rb_ok n (fold (rb_put buffer) [0..<m] self) \<and>
    rb_contents (fold (rb_put buffer) [0..<m] self) = rb_contents self @ map ((!) buffer) [0..<m]"
  using assms
proof (induction m)
  case (Suc m)
  let ?s = "fold (rb_put buffer) [0..<m] self"
  have IH: "rb_ok n ?s" "rb_contents ?s = rb_contents self @ map ((!) buffer) [0..<m]" using Suc by auto
  have "rb_size ?s = rb_size self + m" using arg_cong [OF IH(2), of length] by simp
  then show ?case using rb_put [OF IH(1), of buffer m] IH(2) Suc.prems(2) by simp
qed simp

lemma rb_take:
  assumes ok: "rb_ok n self" and data: "0 < rb_size self" and r: "rb_take i (self, buffer) = (self', buffer')"
  shows "rb_ok n self' \<and> rb_contents self' = tl (rb_contents self) \<and> buffer' = buffer[i := hd (rb_contents self)] \<and>
    m_buffer self' = m_buffer self \<and> m_length self' = m_length self \<and>
    m_oPtr self' = (if m_oPtr self + 1 = m_length self then 0 else m_oPtr self + 1)"
proof -
  obtain b where b: "m_buffer self = Some b" "length b = n" using ok by (auto simp: rb_ok_def)
  let ?i = "unat (m_iPtr self)" and ?o = "unat (m_oPtr self)"
  have u: "unat (m_length self) = n" "?i < n" "?o < n" using ok by (auto simp: rb_ok_def)
  have inc: "unat (m_oPtr self + 1) = ?o + 1" using unat_inc [of "m_oPtr self" n "m_length self"] u by simp
  have wrap: "m_oPtr self + 1 = m_length self \<longleftrightarrow> ?o + 1 = n" using inc u by (simp add: word_unat_eq_iff)
  have s: "m_length self' = m_length self" "m_buffer self' = m_buffer self" "m_iPtr self' = m_iPtr self"
    "unat (m_oPtr self') = (?o + 1) mod n" "buffer' = buffer[i := b ! ?o]"
    "m_oPtr self' = (if m_oPtr self + 1 = m_length self then 0 else m_oPtr self + 1)"
    using r b wrap inc u by (auto simp: rb_take_def Let_def)
  have size: "rb_size self = rb_size self' + 1"
    using data u s by (auto simp: rb_size_def mod_if split: if_splits)
  have c: "rb_contents self = b ! ?o # map (\<lambda>k. b ! ((?o + Suc k) mod n)) [0..<rb_size self']"
    using size u b by (simp add: rb_contents_def upt_conv_Cons map_Suc_upt [symmetric] o_def del: upt_Suc)
  have "rb_contents self' = map (\<lambda>k. b ! ((?o + Suc k) mod n)) [0..<rb_size self']"
    using s u b by (simp add: rb_contents_def mod_add_left_eq)
  then show ?thesis using c ok s b u by (auto simp: rb_ok_def)
qed

lemma rb_takes:
  assumes "rb_ok n self" "m \<le> rb_size self" "m \<le> length buffer"
  shows "rb_ok n (fst (fold rb_take [0..<m] (self, buffer))) \<and>
    rb_contents (fst (fold rb_take [0..<m] (self, buffer))) = drop m (rb_contents self) \<and>
    snd (fold rb_take [0..<m] (self, buffer)) = take m (rb_contents self) @ drop m buffer \<and>
    m_buffer (fst (fold rb_take [0..<m] (self, buffer))) = m_buffer self \<and>
    m_length (fst (fold rb_take [0..<m] (self, buffer))) = m_length self"
  using assms
proof (induction m)
  case (Suc m)
  obtain s b where e: "fold rb_take [0..<m] (self, buffer) = (s, b)" by (cases "fold rb_take [0..<m] (self, buffer)")
  have IH: "rb_ok n s" "rb_contents s = drop m (rb_contents self)" "b = take m (rb_contents self) @ drop m buffer"
    "m_buffer s = m_buffer self" "m_length s = m_length self" using Suc e by auto
  obtain s' b' where t: "rb_take m (s, b) = (s', b')" by (cases "rb_take m (s, b)")
  have "rb_size s = rb_size self - m" using arg_cong [OF IH(2), of length] by simp
  then have T: "rb_ok n s'" "rb_contents s' = tl (rb_contents s)" "b' = b[m := hd (rb_contents s)]"
    "m_buffer s' = m_buffer s" "m_length s' = m_length s"
    using rb_take [OF IH(1) _ t] Suc.prems(2) by auto
  have m: "m < length (rb_contents self)" "m < length buffer" using Suc.prems by auto
  have "b' = take (Suc m) (rb_contents self) @ drop (Suc m) buffer"
    using m unfolding T(3) IH(2,3)
    by (simp add: list_update_append hd_drop_conv_nth take_Suc_conv_app_nth list_update_nonempty Cons_nth_drop_Suc [symmetric] min_def)
  moreover have "rb_contents s' = drop (Suc m) (rb_contents self)" using T(2) IH(2) by (simp add: tl_drop drop_Suc)
  ultimately show ?case unfolding fold_upt_Suc e t fst_conv snd_conv using T(1,4,5) IH(4,5) by simp
qed simp

subsection \<open>The bounded queue it refines\<close>

text \<open>
  The operations of a client.  \<open>Add\<close> passes a whole array, \<open>Get\<close> and \<open>Peek\<close> an output array
  that is at least as long as the number of bytes asked for.
\<close>

datatype rb_op = Add bytes | Get bytes u32 | Peek bytes u32 | Clear | Size | Free | HasSpace u32 | HasData | IsEmpty

datatype rb_out = Stored bool | Got bytes bool | Count u32 | Answer bool | Done

fun rb_step :: "RingBuffer \<Rightarrow> rb_op \<Rightarrow> RingBuffer \<times> rb_out" where
  "rb_step self (Add b) = (let (self, r) = RingBuffer_addData self b (of_nat (length b)) in (self, Stored r))"
| "rb_step self (Get b k) = (let (self, b, r) = RingBuffer_getData self b k in (self, Got b r))"
| "rb_step self (Peek b k) = (let (b, r) = RingBuffer_peek self b k in (self, Got b r))"
| "rb_step self Clear = (RingBuffer_clear self, Done)"
| "rb_step self Size = (self, Count (RingBuffer_dataSize self))"
| "rb_step self Free = (self, Count (RingBuffer_freeSpace self))"
| "rb_step self (HasSpace k) = (self, Answer (RingBuffer_hasSpace self k))"
| "rb_step self HasData = (self, Answer (RingBuffer_hasData self))"
| "rb_step self IsEmpty = (self, Answer (RingBuffer_isEmpty self))"

text \<open>The specification: a queue of at most \<open>n - 1\<close> bytes.\<close>

fun queue_step :: "nat \<Rightarrow> bytes \<Rightarrow> rb_op \<Rightarrow> bytes \<times> rb_out" where
  "queue_step n q (Add b) = (if length q + length b < n then (q @ b, Stored True) else ([], Stored False))"
| "queue_step n q (Get b k) =
     (if length q < unat k then (q, Got b False) else (drop (unat k) q, Got (take (unat k) q @ drop (unat k) b) True))"
| "queue_step n q (Peek b k) =
     (if length q < unat k then (q, Got b False) else (q, Got (take (unat k) q @ drop (unat k) b) True))"
| "queue_step n q Clear = ([], Done)"
| "queue_step n q Size = (q, Count (of_nat (length q)))"
| "queue_step n q Free = (q, Count (of_nat (n - length q)))"
| "queue_step n q (HasSpace k) = (q, Answer (unat k + length q < n))"
| "queue_step n q HasData = (q, Answer (q \<noteq> []))"
| "queue_step n q IsEmpty = (q, Answer (q = []))"

definition rb_allowed :: "rb_op \<Rightarrow> bool" where
  "rb_allowed x = (case x of Add b \<Rightarrow> length b < 2 ^ 32 | Get b k \<Rightarrow> unat k \<le> length b | Peek b k \<Rightarrow> unat k \<le> length b | _ \<Rightarrow> True)"

lemma rb_clear: "rb_ok n self \<Longrightarrow> rb_ok n (RingBuffer_clear self) \<and> rb_contents (RingBuffer_clear self) = []"
  by (auto simp: rb_ok_def RingBuffer_clear_def rb_contents_def rb_size_def)

lemma rb_add:
  assumes ok: "rb_ok n self" and len: "length b < 2 ^ 32"
  shows "rb_ok n (fst (RingBuffer_addData self b (of_nat (length b)))) \<and>
    (rb_contents (fst (RingBuffer_addData self b (of_nat (length b)))), Stored (snd (RingBuffer_addData self b (of_nat (length b))))) =
    queue_step n (rb_contents self) (Add b)"
proof -
  have u: "unat (of_nat (length b) :: u32) = length b" using len by (simp add: unat_of_nat)
  have "of_nat (length b) \<ge> RingBuffer_freeSpace self \<longleftrightarrow> \<not> rb_size self + length b < n"
    using unat_freeSpace [OF ok] rb_size_less [OF ok] by (auto simp: word_le_nat_alt u)
  then show ?thesis
    using rb_puts [OF ok, of "length b" b] rb_clear [OF ok] u
    by (auto simp: RingBuffer_addData_def map_nth simp del: fold_upt_Suc)
qed

lemma rb_get:
  assumes ok: "rb_ok n self" and len: "unat k \<le> length b"
  shows "rb_ok n (fst (RingBuffer_getData self b k)) \<and>
    (rb_contents (fst (RingBuffer_getData self b k)), Got (fst (snd (RingBuffer_getData self b k))) (snd (snd (RingBuffer_getData self b k)))) =
    queue_step n (rb_contents self) (Get b k)"
proof -
  have "RingBuffer_dataSize self < k \<longleftrightarrow> rb_size self < unat k"
    using unat_dataSize [OF ok] by (simp add: word_less_nat_alt)
  then show ?thesis
    using rb_takes [OF ok _ len] ok
    by (cases "rb_size self < unat k") (auto simp: RingBuffer_getData_def case_prod_unfold Let_def)
qed

text \<open>\<open>peek\<close> reads what \<open>getData\<close> would.\<close>

lemma rb_peek_loop:
  assumes ok: "rb_ok n self" and m: "m \<le> rb_size self" "m \<le> length buffer"
  shows "fold (\<lambda>i (ptr, buffer).
      let buffer = buffer[i := the (m_buffer self) ! unat ptr]; ptr = ptr + 1
      in (if ptr = m_length self then 0 else ptr, buffer)) [0..<m] (m_oPtr self, buffer) =
    (m_oPtr (fst (fold rb_take [0..<m] (self, buffer))), snd (fold rb_take [0..<m] (self, buffer)))"
  using m
proof (induction m)
  case (Suc m)
  obtain s b where e: "fold rb_take [0..<m] (self, buffer) = (s, b)" by (cases "fold rb_take [0..<m] (self, buffer)")
  have s: "m_buffer s = m_buffer self" "m_length s = m_length self"
    using rb_takes [OF ok, of m buffer] Suc.prems e by auto
  let ?f = "\<lambda>i (ptr, buffer). let buffer = buffer[i := the (m_buffer self) ! unat ptr]; ptr = ptr + 1
      in (if ptr = m_length self then 0 else ptr, buffer)"
  have IH: "fold ?f [0..<m] (m_oPtr self, buffer) = (m_oPtr s, b)" using Suc e by simp
  show ?case unfolding fold_upt_Suc IH e by (simp add: s rb_take_def Let_def)
qed simp

lemma rb_peek:
  assumes ok: "rb_ok n self" and len: "unat k \<le> length b"
  shows "(rb_contents self, Got (fst (RingBuffer_peek self b k)) (snd (RingBuffer_peek self b k))) = queue_step n (rb_contents self) (Peek b k)"
proof -
  have "RingBuffer_dataSize self < k \<longleftrightarrow> rb_size self < unat k"
    using unat_dataSize [OF ok] by (simp add: word_less_nat_alt)
  then show ?thesis
    using rb_takes [OF ok _ len] rb_peek_loop [OF ok _ len]
    by (cases "rb_size self < unat k") (auto simp: RingBuffer_peek_def)
qed

interpretation ring: simulation "rb_ok n" rb_contents rb_allowed rb_step "queue_step n" for n
proof
  fix self x
  assume ok: "rb_ok n self" and x: "rb_allowed x"
  have e: "RingBuffer_hasData self \<longleftrightarrow> \<not> RingBuffer_isEmpty self" by (simp add: RingBuffer_hasData_def RingBuffer_isEmpty_def)
  have f: "RingBuffer_freeSpace self = of_nat (n - rb_size self)" "RingBuffer_dataSize self = of_nat (rb_size self)"
    using arg_cong [OF unat_freeSpace [OF ok], of "of_nat :: nat \<Rightarrow> u32"] arg_cong [OF unat_dataSize [OF ok], of "of_nat :: nat \<Rightarrow> u32"]
    by simp_all
  have h: "RingBuffer_hasSpace self k \<longleftrightarrow> unat k + rb_size self < n" for k
    using unat_freeSpace [OF ok] rb_size_less [OF ok] by (auto simp: RingBuffer_hasSpace_def word_less_nat_alt)
  have "rb_ok n (fst (rb_step self x)) \<and> (rb_contents (fst (rb_step self x)), snd (rb_step self x)) = queue_step n (rb_contents self) x"
  proof (cases x)
    case (Add b)
    then show ?thesis using rb_add [OF ok, of b] x by (auto simp: rb_allowed_def case_prod_unfold Let_def simp del: queue_step.simps)
  next
    case (Get b k)
    then show ?thesis using rb_get [OF ok, of k b] x by (auto simp: rb_allowed_def case_prod_unfold Let_def simp del: queue_step.simps)
  next
    case (Peek b k)
    then show ?thesis using ok rb_peek [OF ok, of k b] x by (auto simp: rb_allowed_def case_prod_unfold Let_def simp del: queue_step.simps)
  qed (use ok rb_clear [OF ok] rb_empty [OF ok] e f h in auto)
  then show "rb_ok n (fst (rb_step self x))" "rb_contents (fst (rb_step self x)) = fst (queue_step n (rb_contents self) x)"
    "snd (rb_step self x) = snd (queue_step n (rb_contents self) x)"
    by (metis fst_conv snd_conv)+
qed

lemma rb_init:
  assumes "malloc (unat len) = Some b" "0 < len"
  shows "rb_ok (unat len) (RingBuffer_Init malloc len) \<and> rb_contents (RingBuffer_Init malloc len) = []"
  using assms by (auto simp: rb_ok_def RingBuffer_Init_def rb_contents_def rb_size_def word_less_nat_alt)

subsection \<open>Properties\<close>

text \<open>C20: From a ring buffer that was initialised with \<open>len\<close> bytes of storage, every sequence of
  operations gives the answers of a first-in first-out queue of at most \<open>len - 1\<close> bytes, in which
  an addition that does not fit discards everything, and leaves the bytes of that queue.\<close>

theorem ring_buffer_refines_queue:
  assumes "malloc (unat len) = Some b" and "0 < len" and "list_all rb_allowed xs"
  shows "rb_contents (fst (run rb_step (RingBuffer_Init malloc len) xs)) = fst (run (queue_step (unat len)) [] xs) \<and>
    snd (run rb_step (RingBuffer_Init malloc len) xs) = snd (run (queue_step (unat len)) [] xs)"
  using ring.run_refines [of "unat len" "RingBuffer_Init malloc len" xs] rb_init [of malloc len b, OF assms(1,2)] assms(3) by simp

theorem ring_buffer_refines_queue_witness:
  "snd (run rb_step (RingBuffer_Init (\<lambda>k. Some (replicate k 7)) 4) [Add [1, 2, 3], Get [0, 0] 2, Add [4, 5], Peek [0, 0, 9] 2, Add [6], Size]) =
    [Stored True, Got [1, 2] True, Stored True, Got [3, 4, 9] True, Stored False, Count 0]"
proof -
  let ?xs = "[Add [1, 2, 3], Get [0, 0] 2, Add [4, 5], Peek [0, 0, 9] 2, Add [6], Size]"
  have "list_all rb_allowed ?xs" by (simp add: rb_allowed_def)
  then show ?thesis
    using ring_buffer_refines_queue [of "\<lambda>k. Some (replicate k 7)" 4 "replicate 4 7" ?xs] by simp
qed

text \<open>Whatever sequence of operations runs on an initialised ring buffer, both pointers stay
  inside the storage, the storage keeps its size, and at most \<open>len - 1\<close> bytes are waiting.\<close>

theorem ring_buffer_invariant:
  assumes "malloc (unat len) = Some b" and "0 < len" and "list_all rb_allowed xs"
    and "self = fst (run rb_step (RingBuffer_Init malloc len) xs)"
  shows "unat (m_iPtr self) < unat len \<and> unat (m_oPtr self) < unat len \<and>
    map_option length (m_buffer self) = Some (unat len) \<and> unat (RingBuffer_dataSize self) < unat len"
proof -
  have ok: "rb_ok (unat len) self"
    unfolding assms(4) by (rule ring.run_ok) (use rb_init [of malloc len b, OF assms(1,2)] assms(3) in auto)
  then show ?thesis using rb_size_less [OF ok] unat_dataSize [OF ok] by (auto simp: rb_ok_def)
qed

theorem ring_buffer_invariant_witness:
  "unat (RingBuffer_dataSize (fst (run rb_step (RingBuffer_Init (\<lambda>k. Some (replicate k 7)) 3) [Add [1, 2], Get [0] 1, Add [3]]))) < 3"
proof -
  have "list_all rb_allowed [Add [1, 2], Get [0] 1, Add [3]]" by (simp add: rb_allowed_def)
  then show ?thesis
    using ring_buffer_invariant [of "\<lambda>k. Some (replicate k 7)" 3 "replicate 3 7" "[Add [1, 2], Get [0] 1, Add [3]]", OF _ _ _ refl]
    by simp
qed

end
