(* ===== verification/Viterbi.thy ===== *)
theory Viterbi
  imports Prelude
begin

section \<open>The Viterbi algorithm for the rate 1/2 code with 16 states\<close>

text \<open>
  NXDN and System Fusion use the same convolutional code: two output bits for each input bit,
  formed from the input and the last four inputs.  A path is the list of its bits, the four that
  fill the encoder first; its cost adds, for each step, the cost of the two output bits.

  The locale \<open>viterbi\<close> is the contract of the decoders: the cost of a pair of output bits is at
  most \<open>M\<close> and inverting both bits gives the rest to \<open>M\<close>, which is what lets the decoders work
  on half the states.  Shown in it: the path that the decisions lead back to has the least cost
  of all paths to its end state.  \<open>hard_viterbi\<close> adds that the cost counts disagreements with
  received bits, some of which are not sent; there, a path is found again when fewer bits are
  wrong than half the weight of every other path, for which a potential on the states is a
  certificate.
\<close>

subsection \<open>The code\<close>

text \<open>A state holds the last four inputs, the oldest in its highest bit.\<close>

definition pack4 :: "bool \<Rightarrow> bool \<Rightarrow> bool \<Rightarrow> bool \<Rightarrow> nat" where
  "pack4 a b c d = 8 * of_bool a + 4 * of_bool b + 2 * of_bool c + of_bool d"

lemma st_bits [simp]: "bit (pack4 a b c d) 3 = a" "bit (pack4 a b c d) 2 = b" "bit (pack4 a b c d) (Suc 0) = c" "bit (pack4 a b c d) 0 = d"
  unfolding pack4_def by (cases a; cases b; cases c; cases d; simp add: bit_iff_odd)+

lemma st_simps [simp]:
  "pack4 a b c d div 2 = pack4 False a b c" "odd (pack4 a b c d) = d" "(2 * pack4 a b c d + of_bool e) mod 16 = pack4 b c d e" "pack4 a b c d < 16"
  "pack4 False b c d + 8 = pack4 True b c d"
  unfolding pack4_def by (cases a; cases b; cases c; cases d; cases e; simp)+

lemma st_half: "(pack4 a b c d < 8) = (\<not> a)"
  unfolding pack4_def by (cases a; cases b; cases c; cases d; simp)

lemma st_inj: "pack4 a b c d = pack4 a' b' c' d' \<longleftrightarrow> a = a' \<and> b = b' \<and> c = c' \<and> d = d'"
  unfolding pack4_def by (cases a; cases b; cases c; cases d; cases a'; cases b'; cases c'; cases d'; simp)

lemma st_expand: "s < 16 \<Longrightarrow> s = pack4 (odd (s div 8)) (odd (s div 4)) (odd (s div 2)) (odd s)"
proof -
  assume s: "s < 16"
  have halves: "n = 2 * (n div 2) + of_bool (odd n)" for n :: nat by simp
  have "s div 2 = 2 * (s div 4) + of_bool (odd (s div 2))" "s div 4 = 2 * (s div 8) + of_bool (odd (s div 4))"
    using halves [of "s div 2"] halves [of "s div 4"] by (simp_all add: div_mult2_eq [symmetric])
  moreover have "s div 8 < 2" using s by linarith
  then have "s div 8 = of_bool (odd (s div 8))" by (cases "s div 8 = 0") (auto simp: less_Suc_eq numeral_2_eq_2)
  ultimately show ?thesis unfolding pack4_def using halves [of s] by linarith
qed

lemma st_exhaust:
  assumes "s < 16"
  obtains a b c d where "s = pack4 a b c d"
  using st_expand [OF assms] by (rule that)

definition conv_g1 :: "nat \<Rightarrow> bool \<Rightarrow> bool" where
  "conv_g1 s b \<longleftrightarrow> (b \<noteq> (bit s 2 \<noteq> bit s 3))"

definition conv_g2 :: "nat \<Rightarrow> bool \<Rightarrow> bool" where
  "conv_g2 s b \<longleftrightarrow> (b \<noteq> (bit s 0 \<noteq> (bit s 1 \<noteq> bit s 3)))"

definition conv_next :: "nat \<Rightarrow> bool \<Rightarrow> nat" where
  "conv_next s b = (2 * s + of_bool b) mod 16"

definition state_at :: "bool list \<Rightarrow> nat \<Rightarrow> nat" where
  "state_at bs t = pack4 (bs ! t) (bs ! (t + 1)) (bs ! (t + 2)) (bs ! (t + 3))"

lemma state_at_less: "state_at bs t < 16"
  by (simp add: state_at_def)

lemma state_at_Suc: "state_at bs (Suc t) = conv_next (state_at bs t) (bs ! (t + 4))"
proof -
  have "Suc t + 1 = t + 2" "Suc t + 2 = t + 3" "Suc t + 3 = t + 4" "Suc t = t + 1" by simp_all
  then show ?thesis unfolding state_at_def conv_next_def st_simps(3) by (simp only:)
qed

definition bits4 :: "nat \<Rightarrow> bool list" where
  "bits4 s = [bit s 3, bit s 2, bit s 1, bit s 0]"

lemma length_bits4 [simp]: "length (bits4 s) = 4"
  by (simp add: bits4_def)

lemma state_bits4: "s < 16 \<Longrightarrow> state_at (bs @ bits4 s) (length bs) = s"
  by (erule st_exhaust) (simp add: state_at_def bits4_def nth_append)

text \<open>The output bits of step \<open>t\<close>.\<close>

definition out1 :: "bool list \<Rightarrow> nat \<Rightarrow> bool" where
  "out1 bs t \<longleftrightarrow> conv_g1 (state_at bs t) (bs ! (t + 4))"

definition out2 :: "bool list \<Rightarrow> nat \<Rightarrow> bool" where
  "out2 bs t \<longleftrightarrow> conv_g2 (state_at bs t) (bs ! (t + 4))"

definition path_cost :: "(nat \<Rightarrow> bool \<Rightarrow> bool \<Rightarrow> nat) \<Rightarrow> bool list \<Rightarrow> nat" where
  "path_cost cost bs = (\<Sum>t<length bs - 4. cost t (out1 bs t) (out2 bs t))"

definition is_path :: "nat \<Rightarrow> nat \<Rightarrow> bool list \<Rightarrow> bool" where
  "is_path t s bs \<longleftrightarrow> length bs = t + 4 \<and> state_at bs t = s"

lemma state_at_append: "t + 4 \<le> length bs \<Longrightarrow> state_at (bs @ cs) t = state_at bs t"
  by (simp add: state_at_def nth_append)

lemma path_cost_snoc:
  assumes "length bs = t + 4"
  shows "path_cost cost (bs @ [b]) = path_cost cost bs + cost t (conv_g1 (state_at bs t) b) (conv_g2 (state_at bs t) b)"
proof -
  have "out1 (bs @ [b]) i = out1 bs i \<and> out2 (bs @ [b]) i = out2 bs i" if "i < t" for i
    using that assms by (simp add: out1_def out2_def state_at_append nth_append)
  moreover have "out1 (bs @ [b]) t = conv_g1 (state_at bs t) b" "out2 (bs @ [b]) t = conv_g2 (state_at bs t) b"
    using assms by (simp_all add: out1_def out2_def state_at_append nth_append)
  ultimately show ?thesis using assms by (simp add: path_cost_def)
qed

subsection \<open>Dynamic programming\<close>

locale viterbi =
  fixes M :: nat
    and cost :: "nat \<Rightarrow> bool \<Rightarrow> bool \<Rightarrow> nat"
  assumes cost_le: "cost t a b \<le> M"
    and cost_flip: "cost t (\<not> a) (\<not> b) = M - cost t a b"
begin

definition branch :: "nat \<Rightarrow> nat \<Rightarrow> bool \<Rightarrow> nat" where
  "branch t s b = cost t (conv_g1 s b) (conv_g2 s b)"

fun metric :: "nat \<Rightarrow> nat \<Rightarrow> nat" where
  "metric 0 s = 0"
| "metric (Suc t) s = min (metric t (s div 2) + branch t (s div 2) (odd s)) (metric t (s div 2 + 8) + branch t (s div 2 + 8) (odd s))"

definition decision :: "nat \<Rightarrow> nat \<Rightarrow> bool" where
  "decision t s \<longleftrightarrow> metric t (s div 2 + 8) + branch t (s div 2 + 8) (odd s) \<le> metric t (s div 2) + branch t (s div 2) (odd s)"

definition pred_state :: "nat \<Rightarrow> nat \<Rightarrow> nat" where
  "pred_state t s = s div 2 + 8 * of_bool (decision t s)"

lemma metric_pred: "metric (Suc t) s = metric t (pred_state t s) + branch t (pred_state t s) (odd s)"
  by (auto simp: pred_state_def decision_def)

lemma metric_bound: "metric t s \<le> M * t"
proof (induction t arbitrary: s)
  case (Suc t)
  have "metric t (pred_state t s) + branch t (pred_state t s) (odd s) \<le> M * t + M"
    using Suc cost_le by (intro add_mono) (auto simp: branch_def)
  then show ?case unfolding metric_pred by simp
qed simp

text \<open>Only the states below 8 need their branch costs.\<close>

lemma branch_half:
  assumes "i < 8"
  shows "branch t i True = M - branch t i False" "branch t (i + 8) False = M - branch t i False" "branch t (i + 8) True = branch t i False"
proof -
  from assms obtain a b c d where s: "i = pack4 a b c d" by (metis less_trans st_exhaust numeral_less_iff semiring_norm(78,79,80,81,76))
  with assms have a: "a = False" by (simp add: st_half)
  have g: "conv_g1 i True = (\<not> conv_g1 i False)" "conv_g2 i True = (\<not> conv_g2 i False)"
    "conv_g1 (i + 8) False = (\<not> conv_g1 i False)" "conv_g2 (i + 8) False = (\<not> conv_g2 i False)"
    "conv_g1 (i + 8) True = conv_g1 i False" "conv_g2 (i + 8) True = conv_g2 i False"
    unfolding s a st_simps(5) by (auto simp: conv_g1_def conv_g2_def)
  show "branch t i True = M - branch t i False" "branch t (i + 8) False = M - branch t i False" "branch t (i + 8) True = branch t i False"
    unfolding branch_def g by (simp_all only: cost_flip)
qed

subsection \<open>The path found\<close>

fun chain :: "nat \<Rightarrow> nat \<Rightarrow> bool list" where
  "chain 0 s = []"
| "chain (Suc t) s = chain t (pred_state t s) @ [decision t s]"

definition survivor :: "nat \<Rightarrow> nat \<Rightarrow> bool list" where
  "survivor t s = chain t s @ bits4 s"

lemma length_chain [simp]: "length (chain t s) = t"
  by (induction t arbitrary: s) auto

lemma length_survivor [simp]: "length (survivor t s) = t + 4"
  by (simp add: survivor_def)

lemma pred_less: "s < 16 \<Longrightarrow> pred_state t s < 16"
  by (auto simp: pred_state_def)

lemma bits4_pred: "s < 16 \<Longrightarrow> bits4 (s div 2 + 8 * of_bool d) @ [odd s] = d # bits4 s"
  by (erule st_exhaust, cases d) (simp_all add: bits4_def)

lemma survivor_Suc: "s < 16 \<Longrightarrow> survivor (Suc t) s = survivor t (pred_state t s) @ [odd s]"
  using bits4_pred [of s "decision t s"] by (simp add: survivor_def pred_state_def)

lemma survivor_path: "s < 16 \<Longrightarrow> is_path t s (survivor t s)"
  using state_bits4 [of s "chain t s"] by (simp add: is_path_def survivor_def)

lemma survivor_cost: "s < 16 \<Longrightarrow> path_cost cost (survivor t s) = metric t s"
proof (induction t arbitrary: s)
  case 0
  then show ?case by (simp add: path_cost_def)
next
  case (Suc t)
  let ?p = "pred_state t s"
  have "state_at (survivor t ?p) t = ?p" using survivor_path [OF pred_less [OF Suc.prems]] by (simp add: is_path_def)
  then show ?case
    unfolding survivor_Suc [OF Suc.prems] metric_pred branch_def
    using path_cost_snoc [of "survivor t ?p" t] Suc.IH [OF pred_less [OF Suc.prems]] by simp
qed

lemma next_odd: "s < 16 \<Longrightarrow> odd (conv_next s b) = b" "s < 8 \<Longrightarrow> conv_next s b div 2 = s"
  "8 \<le> s \<Longrightarrow> s < 16 \<Longrightarrow> conv_next s b div 2 + 8 = s"
proof -
  show "odd (conv_next s b) = b" if "s < 16"
    using that by (rule st_exhaust) (simp only: conv_next_def st_simps)
  show "conv_next s b div 2 = s" if "s < 8"
  proof -
    obtain x y z w where s: "s = pack4 x y z w" using \<open>s < 8\<close> by (rule_tac st_exhaust [of s]) auto
    then show ?thesis using that by (simp add: conv_next_def st_half)
  qed
  show "conv_next s b div 2 + 8 = s" if "8 \<le> s" "s < 16"
  proof -
    obtain x y z w where s: "s = pack4 x y z w" using \<open>s < 16\<close> by (rule st_exhaust)
    then have "x" using that(1) st_half [of x y z w] by simp
    then show ?thesis using s by (simp add: conv_next_def)
  qed
qed

lemma metric_least: "is_path t s bs \<Longrightarrow> metric t s \<le> path_cost cost bs"
proof (induction t arbitrary: s bs)
  case (Suc t)
  then have len: "length bs = Suc (t + 4)" and s: "s = state_at bs (Suc t)" by (auto simp: is_path_def)
  then obtain cs b where bs: "bs = cs @ [b]" "length cs = t + 4" by (metis length_Suc_conv_rev)
  let ?q = "state_at cs t"
  have q: "?q < 16" by (rule state_at_less)
  have sq: "s = conv_next ?q b"
    unfolding s state_at_Suc using bs by (simp add: state_at_append nth_append)
  have IH: "metric t ?q \<le> path_cost cost cs" using Suc.IH [of ?q cs] bs(2) by (simp add: is_path_def)
  have "path_cost cost bs = path_cost cost cs + branch t ?q b"
    unfolding bs(1) branch_def by (rule path_cost_snoc) (rule bs(2))
  moreover have "metric (Suc t) s \<le> metric t ?q + branch t ?q b"
  proof (cases "?q < 8")
    case True
    then have "odd s = b" "s div 2 = ?q" unfolding sq using next_odd(1) [OF q, of b] next_odd(2) [of ?q b] by simp_all
    then show ?thesis by simp
  next
    case False
    then have "odd s = b" "s div 2 + 8 = ?q" unfolding sq using next_odd(1) [OF q, of b] next_odd(3) [of ?q b] q by simp_all
    then show ?thesis by simp
  qed
  ultimately show ?case using IH by simp
qed simp

text \<open>The path that the decisions lead back to is a path of least cost.\<close>

lemma survivor_optimal: "s < 16 \<Longrightarrow> is_path t s bs \<Longrightarrow> path_cost cost (survivor t s) \<le> path_cost cost bs"
  using survivor_cost metric_least by simp

end

subsection \<open>Linearity and weights\<close>

definition path_xor :: "bool list \<Rightarrow> bool list \<Rightarrow> bool list" where
  "path_xor bs cs = map2 (\<noteq>) bs cs"

lemma length_path_xor: "length bs = length cs \<Longrightarrow> length (path_xor bs cs) = length cs"
  by (simp add: path_xor_def)

lemma path_xor_nth: "length bs = length cs \<Longrightarrow> i < length cs \<Longrightarrow> path_xor bs cs ! i = (bs ! i \<noteq> cs ! i)"
  by (simp add: path_xor_def)

lemma path_xor_out:
  assumes "length bs = T + 4" "length cs = T + 4" "t < T"
  shows "out1 (path_xor bs cs) t = (out1 bs t \<noteq> out1 cs t)" "out2 (path_xor bs cs) t = (out2 bs t \<noteq> out2 cs t)"
proof -
  have x: "path_xor bs cs ! i = (bs ! i \<noteq> cs ! i)" if "i < T + 4" for i using path_xor_nth assms that by simp
  have "t < T + 4" "t + 1 < T + 4" "t + 2 < T + 4" "t + 3 < T + 4" "t + 4 < T + 4" using assms(3) by simp_all
  note x' = this [THEN x]
  show "out1 (path_xor bs cs) t = (out1 bs t \<noteq> out1 cs t)" "out2 (path_xor bs cs) t = (out2 bs t \<noteq> out2 cs t)"
    unfolding out1_def out2_def conv_g1_def conv_g2_def state_at_def st_bits x' by auto
qed

lemma path_xor_end:
  assumes "is_path T 0 bs" "is_path T 0 cs"
  shows "is_path T 0 (path_xor bs cs)"
proof -
  have l: "length bs = T + 4" "length cs = T + 4" using assms by (simp_all add: is_path_def)
  have zero: "pack4 a b c d = 0 \<longleftrightarrow> \<not> a \<and> \<not> b \<and> \<not> c \<and> \<not> d" for a b c d by (auto simp: pack4_def)
  show ?thesis using assms l by (simp add: is_path_def state_at_def zero length_path_xor path_xor_nth)
qed

text \<open>
  The weight of a step counts the output bits at positions of \<open>pattern\<close>; the output bits of step
  \<open>t\<close> have the positions \<open>2 t\<close> and \<open>2 t + 1\<close>.
\<close>

definition step_weight :: "(nat \<Rightarrow> bool) \<Rightarrow> nat \<Rightarrow> nat \<Rightarrow> bool \<Rightarrow> nat" where
  "step_weight pattern t s b = of_bool (pattern (2 * t) \<and> conv_g1 s b) + of_bool (pattern (2 * t + 1) \<and> conv_g2 s b)"

text \<open>
  A certificate for the free distance: \<open>V\<close> bounds the weight from a state to the end of a path,
  \<open>W\<close> the weight of those paths that still have an input bit 1.
\<close>

locale code_distance =
  fixes pattern :: "nat \<Rightarrow> bool" and V W :: "nat \<Rightarrow> nat \<Rightarrow> nat" and dmin :: nat
  assumes V_step: "s < 16 \<Longrightarrow> V t s \<le> step_weight pattern t s b + V (Suc t) (conv_next s b)"
    and W_one: "s < 16 \<Longrightarrow> W t s \<le> step_weight pattern t s True + V (Suc t) (conv_next s True)"
    and W_zero: "s < 16 \<Longrightarrow> W t s \<le> step_weight pattern t s False + W (Suc t) (conv_next s False)"
    and V_end: "V t 0 = 0"
    and W_start: "s < 16 \<Longrightarrow> dmin \<le> W 0 s"
begin

definition tail_weight :: "bool list \<Rightarrow> nat \<Rightarrow> nat \<Rightarrow> nat" where
  "tail_weight ds t T = (\<Sum>i = t..<T. step_weight pattern i (state_at ds i) (ds ! (i + 4)))"

lemma tail_weight_bounds:
  assumes "t \<le> T" "is_path T 0 ds"
  shows "V t (state_at ds t) \<le> tail_weight ds t T \<and>
    ((\<exists>i\<in>{t..<T}. ds ! (i + 4)) \<longrightarrow> W t (state_at ds t) \<le> tail_weight ds t T)"
  using assms(1)
proof (induction rule: inc_induct)
  case base
  show ?case using assms(2) V_end by (simp add: is_path_def)
next
  case (step t)
  let ?s = "state_at ds t" and ?b = "ds ! (t + 4)"
  have s: "?s < 16" by (rule state_at_less)
  have nxt: "state_at ds (Suc t) = conv_next ?s ?b" by (rule state_at_Suc)
  have split: "tail_weight ds t T = step_weight pattern t ?s ?b + tail_weight ds (Suc t) T"
    unfolding tail_weight_def using step.hyps by (simp add: sum.atLeast_Suc_lessThan)
  have V: "V t ?s \<le> tail_weight ds t T"
    unfolding split using V_step [OF s, of t ?b] step.IH nxt by simp
  moreover have "W t ?s \<le> tail_weight ds t T" if one: "\<exists>i\<in>{t..<T}. ds ! (i + 4)"
  proof (cases ?b)
    case True
    then show ?thesis unfolding split using W_one [OF s, of t] step.IH nxt by simp
  next
    case False
    then have "i \<noteq> t" if "ds ! (i + 4)" for i using that by auto
    then have "\<exists>i\<in>{Suc t..<T}. ds ! (i + 4)" using one by (force simp: Suc_le_eq le_less)
    then show ?thesis unfolding split using W_zero [OF s, of t] step.IH nxt False by simp
  qed
  ultimately show ?case by blast
qed

lemma path_weight:
  assumes "is_path T 0 ds" "i < T" "ds ! (i + 4)"
  shows "dmin \<le> (\<Sum>i<T. step_weight pattern i (state_at ds i) (ds ! (i + 4)))"
proof -
  have "W 0 (state_at ds 0) \<le> tail_weight ds 0 T"
    using tail_weight_bounds [of 0 T ds] assms by auto
  then show ?thesis
    using W_start [OF state_at_less, of ds 0] unfolding tail_weight_def atLeast0LessThan by (rule order.trans [rotated])
qed

end

text \<open>A certificate for a pattern with a period is a finite table; \<open>cert_ok\<close> checks it.\<close>

definition cert_state :: "nat \<Rightarrow> (nat \<Rightarrow> bool) \<Rightarrow> nat list list \<Rightarrow> nat list list \<Rightarrow> nat \<Rightarrow> nat \<Rightarrow> bool" where
  "cert_state P pattern Vt Wt r s =
     (let q = Suc r mod P; w0 = step_weight pattern r s False; w1 = step_weight pattern r s True;
          n0 = conv_next s False; n1 = conv_next s True
      in Vt ! r ! s \<le> w0 + Vt ! q ! n0 \<and> Vt ! r ! s \<le> w1 + Vt ! q ! n1 \<and>
         Wt ! r ! s \<le> w1 + Vt ! q ! n1 \<and> Wt ! r ! s \<le> w0 + Wt ! q ! n0)"

definition cert_ok :: "nat \<Rightarrow> (nat \<Rightarrow> bool) \<Rightarrow> nat list list \<Rightarrow> nat list list \<Rightarrow> nat \<Rightarrow> bool" where
  "cert_ok P pattern Vt Wt dmin \<longleftrightarrow>
     list_all (\<lambda>r. list_all (cert_state P pattern Vt Wt r) [0..<16]) [0..<P] \<and>
     list_all (\<lambda>r. Vt ! r ! 0 = 0) [0..<P] \<and> list_all (\<lambda>s. dmin \<le> Wt ! 0 ! s) [0..<16]"

lemma cert_distance:
  assumes ok: "cert_ok P pattern Vt Wt dmin" and P: "0 < P" and periodic: "\<And>i. pattern (i mod (2 * P)) = pattern i"
  shows "code_distance pattern (\<lambda>t s. Vt ! (t mod P) ! s) (\<lambda>t s. Wt ! (t mod P) ! s) dmin"
proof -
  have r: "t mod P < P" for t using P by simp
  have p: "pattern (2 * (t mod P)) = pattern (2 * t)" "pattern (2 * (t mod P) + 1) = pattern (2 * t + 1)" for t
  proof -
    have e: "(2 * t) mod (2 * P) = 2 * (t mod P)" by (rule mult_mod_right [symmetric])
    then show "pattern (2 * (t mod P)) = pattern (2 * t)" using periodic [of "2 * t"] by simp
    have "2 * (t mod P) + 1 < 2 * P" using r [of t] by linarith
    then have "(2 * t + 1) mod (2 * P) = 2 * (t mod P) + 1"
      using e mod_add_left_eq [of "2 * t" "2 * P" 1] by (metis mod_less)
    then show "pattern (2 * (t mod P) + 1) = pattern (2 * t + 1)" using periodic [of "2 * t + 1"] by simp
  qed
  have w: "step_weight pattern (t mod P) s b = step_weight pattern t s b" for t s b
    unfolding step_weight_def p ..
  have st: "cert_state P pattern Vt Wt (t mod P) s" if "s < 16" for t s
    using ok that r [of t] by (simp add: cert_ok_def list_all_iff)
  have n: "Suc (t mod P) mod P = Suc t mod P" for t by (rule mod_Suc_eq)
  show ?thesis
  proof
    fix s t assume s: "s < (16 :: nat)"
    note c = st [OF s, of t, unfolded cert_state_def Let_def n w]
    show "Vt ! (t mod P) ! s \<le> step_weight pattern t s b + Vt ! (Suc t mod P) ! conv_next s b" for b
      using c by (cases b) simp_all
    show "Wt ! (t mod P) ! s \<le> step_weight pattern t s True + Vt ! (Suc t mod P) ! conv_next s True" using c by simp
    show "Wt ! (t mod P) ! s \<le> step_weight pattern t s False + Wt ! (Suc t mod P) ! conv_next s False" using c by simp
  next
    show "Vt ! (t mod P) ! 0 = 0" for t using ok r [of t] by (simp add: cert_ok_def list_all_iff)
    show "dmin \<le> Wt ! (0 mod P) ! s" if "s < 16" for s using ok that by (simp add: cert_ok_def list_all_iff)
  qed
qed

text \<open>The coded bits of a path, both output bits of a step in order.\<close>

definition coded :: "bool list \<Rightarrow> nat \<Rightarrow> bool" where
  "coded bs p = (if even p then out1 bs (p div 2) else out2 bs (p div 2))"

subsection \<open>Hard decisions\<close>

locale hard_viterbi = viterbi +
  fixes scale :: nat and used received :: "nat \<Rightarrow> bool" and idle :: "nat \<Rightarrow> nat"
  assumes scale_pos: "0 < scale"
    and cost_hard: "cost t a b = scale * (of_bool (used (2 * t) \<and> a \<noteq> received (2 * t)) +
      of_bool (used (2 * t + 1) \<and> b \<noteq> received (2 * t + 1))) + idle t"
begin

definition wrong :: "bool list \<Rightarrow> nat" where
  "wrong bs = (\<Sum>t<length bs - 4. of_bool (used (2 * t) \<and> out1 bs t \<noteq> received (2 * t)) +
    of_bool (used (2 * t + 1) \<and> out2 bs t \<noteq> received (2 * t + 1)))"

lemma wrong_card:
  assumes "length bs = T + 4"
  shows "wrong bs = card {p. p < 2 * T \<and> used p \<and> coded bs p \<noteq> received p}"
proof -
  let ?bad = "\<lambda>p. used p \<and> coded bs p \<noteq> received p"
  have "(\<Sum>t<n. of_bool (?bad (2 * t)) + of_bool (?bad (2 * t + 1))) = (\<Sum>p<2 * n. of_bool (?bad p) :: nat)" for n
    by (induction n) simp_all
  moreover have "wrong bs = (\<Sum>t<T. of_bool (?bad (2 * t)) + of_bool (?bad (2 * t + 1)))"
    using assms by (simp only: wrong_def coded_def diff_add_inverse2) simp
  moreover have "(\<Sum>p<2 * T. of_bool (?bad p) :: nat) = card ({..<2 * T} \<inter> {p. ?bad p})"
    by (subst sum_of_bool_eq) simp_all
  moreover have "{..<2 * T} \<inter> {p. ?bad p} = {p. p < 2 * T \<and> ?bad p}" by auto
  ultimately show ?thesis by simp
qed

lemma cost_wrong: "path_cost cost bs = scale * wrong bs + (\<Sum>t<length bs - 4. idle t)"
  by (simp only: path_cost_def wrong_def cost_hard sum.distrib sum_distrib_left distrib_left)

lemma survivor_wrong: "s < 16 \<Longrightarrow> is_path t s bs \<Longrightarrow> wrong (survivor t s) \<le> wrong bs"
  using survivor_optimal [of s t bs] survivor_path [of s t] scale_pos by (simp add: cost_wrong is_path_def)

lemma used_differ:
  assumes "length bs = T + 4" "length cs = T + 4" "\<And>i. i < 2 * T \<Longrightarrow> pattern i \<Longrightarrow> used i"
  shows "(\<Sum>i<T. step_weight pattern i (state_at (path_xor bs cs) i) (path_xor bs cs ! (i + 4))) \<le> wrong bs + wrong cs"
proof -
  have "step_weight pattern t (state_at (path_xor bs cs) t) (path_xor bs cs ! (t + 4)) \<le>
      (of_bool (used (2 * t) \<and> out1 bs t \<noteq> received (2 * t)) + of_bool (used (2 * t + 1) \<and> out2 bs t \<noteq> received (2 * t + 1))) +
      (of_bool (used (2 * t) \<and> out1 cs t \<noteq> received (2 * t)) + of_bool (used (2 * t + 1) \<and> out2 cs t \<noteq> received (2 * t + 1)))"
    if "t < T" for t
  proof -
    have "step_weight pattern t (state_at (path_xor bs cs) t) (path_xor bs cs ! (t + 4)) =
        of_bool (pattern (2 * t) \<and> out1 bs t \<noteq> out1 cs t) + of_bool (pattern (2 * t + 1) \<and> out2 bs t \<noteq> out2 cs t)"
      unfolding step_weight_def out1_def [symmetric] out2_def [symmetric] path_xor_out [OF assms(1,2) that] ..
    moreover have "pattern (2 * t) \<longrightarrow> used (2 * t)" "pattern (2 * t + 1) \<longrightarrow> used (2 * t + 1)"
      using assms(3) that by auto
    ultimately show ?thesis by (auto simp: of_bool_def)
  qed
  then show ?thesis
    unfolding wrong_def assms(1,2) by (simp only: sum.distrib [symmetric] diff_add_inverse2) (rule sum_mono, simp)
qed

text \<open>The path sent is found when less than half of the free distance is wrong.\<close>

lemma survivor_exact:
  assumes cert: "code_distance pattern V W dmin" and path: "is_path T 0 sent"
    and used: "\<And>i. i < 2 * T \<Longrightarrow> pattern i \<Longrightarrow> used i" and few: "2 * wrong sent < dmin" and i: "i < T"
  shows "survivor T 0 ! (i + 4) = sent ! (i + 4)"
proof (rule ccontr)
  let ?b = "survivor T 0"
  assume ne: "?b ! (i + 4) \<noteq> sent ! (i + 4)"
  have p: "is_path T 0 ?b" by (rule survivor_path) simp
  have l: "length ?b = T + 4" "length sent = T + 4" using p path by (simp_all add: is_path_def)
  have "path_xor ?b sent ! (i + 4)" using ne l i by (simp add: path_xor_nth)
  then have "dmin \<le> (\<Sum>i<T. step_weight pattern i (state_at (path_xor ?b sent) i) (path_xor ?b sent ! (i + 4)))"
    by (rule code_distance.path_weight [OF cert path_xor_end [OF p path] i])
  also have "\<dots> \<le> wrong ?b + wrong sent" by (rule used_differ [OF l used])
  also have "\<dots> \<le> wrong sent + wrong sent" using survivor_wrong [OF _ path] by simp
  finally show False using few by simp
qed

end

end
