(* ===== verification/NxdnChan.thy ===== *)
theory NxdnChan
  imports BitWords Viterbi
begin

section \<open>NXDN frames and channel coding (protocols/NXDN/nxdn_func.c)\<close>

text \<open>
  A frame has 48 bytes: the sync word of 20 bits, the LICH, and from bit 36 on the channels.  A
  channel is coded by a convolutional code of rate 1/2, punctured and interleaved; the decoder is
  a Viterbi decoder on the symbols 0 (zero), 1 (not sent) and 2 (one).  SACCH, FACCH1 and UDCH
  are the channels 0, 1 and 2.

  The macros \<open>READ_BIT1\<close> and \<open>WRITE_BIT1\<close> and the table \<open>BIT_MASK_TABLE\<close> of the file are the ones
  of tools/fec_tools.c; \<open>READ_BIT1(p, i) != 0\<close> is \<open>rbit p i\<close>.  The two metric arrays of \<open>Conv\<close>
  are reached through pointers that a step swaps: the model swaps the arrays.  What the C local
  variables hold before they are written is a parameter of \<open>chanDecode\<close>: \<open>conv\<close> and \<open>temp2\<close>.
\<close>

type_synonym u64 = "64 word"

subsection \<open>Scrambling and the sync word\<close>

definition NXDN_FRAME_LENGTH_BYTES :: nat where "NXDN_FRAME_LENGTH_BYTES = 48"
definition NXDN_FSW_LENGTH_BITS :: nat where "NXDN_FSW_LENGTH_BITS = 20"
definition NXDN_LICH_LENGTH_BITS :: nat where "NXDN_LICH_LENGTH_BITS = 16"
definition NXDN_SACCH_LENGTH_BITS :: nat where "NXDN_SACCH_LENGTH_BITS = 60"
definition NXDN_FACCH1_LENGTH_BITS :: nat where "NXDN_FACCH1_LENGTH_BITS = 144"
definition NXDN_FACCH2_LENGTH_BITS :: nat where "NXDN_FACCH2_LENGTH_BITS = 348"

lemmas nxdn_lengths = NXDN_FRAME_LENGTH_BYTES_def NXDN_FSW_LENGTH_BITS_def NXDN_LICH_LENGTH_BITS_def
  NXDN_SACCH_LENGTH_BITS_def NXDN_FACCH1_LENGTH_BITS_def NXDN_FACCH2_LENGTH_BITS_def

definition SCRAMBLER :: bytes where
  "SCRAMBLER = [
    0x00, 0x00, 0x00, 0x82, 0xA0, 0x88, 0x8A, 0x00, 0xA2, 0xA8, 0x82, 0x8A, 0x82, 0x02,
    0x20, 0x08, 0x8A, 0x20, 0xAA, 0xA2, 0x82, 0x08, 0x22, 0x8A, 0xAA, 0x08, 0x28, 0x88,
    0x28, 0x28, 0x00, 0x0A, 0x02, 0x82, 0x20, 0x28, 0x82, 0x2A, 0xAA, 0x20, 0x22, 0x80,
    0xA8, 0x8A, 0x08, 0xA0, 0xAA, 0x02]"

definition FSW_BYTES :: bytes where "FSW_BYTES = [0xCD, 0xF5, 0x90]"
definition FSW_BYTES_MASK :: bytes where "FSW_BYTES_MASK = [0xFF, 0xFF, 0xF0]"

definition nxdnScramble :: "bytes \<Rightarrow> bytes" where
  "nxdnScramble frame = fold (\<lambda>i frame. frame[i := frame ! i XOR SCRAMBLER ! i]) [0..<NXDN_FRAME_LENGTH_BYTES] frame"

definition nxdnAddSync :: "bytes \<Rightarrow> bytes" where
  "nxdnAddSync frame =
     fold (\<lambda>i frame. frame[i := (frame ! i AND NOT (FSW_BYTES_MASK ! i)) OR FSW_BYTES ! i]) [0..<3] frame"

definition nxdnHasSync :: "bytes \<Rightarrow> bool" where
  "nxdnHasSync frame = list_all (\<lambda>i. frame ! i AND FSW_BYTES_MASK ! i = FSW_BYTES ! i) [0..<3]"

subsection \<open>Checksums and bit fields\<close>

definition nxdnCrc6 :: "bytes \<Rightarrow> nat \<Rightarrow> u8" where
  "nxdnCrc6 inp lengthBits =
     fold (\<lambda>i crc. let bit1 = rbit inp i; bit2 = (crc AND 0x20 = 0x20); crc = push_bit 1 crc
                   in if bit1 \<noteq> bit2 then crc XOR 0x27 else crc) [0..<lengthBits] 0x3F AND 0x3F"

definition nxdnCrc12 :: "bytes \<Rightarrow> nat \<Rightarrow> u16" where
  "nxdnCrc12 inp lengthBits =
     fold (\<lambda>i crc. let bit1 = rbit inp i; bit2 = (crc AND 0x0800 = 0x0800); crc = push_bit 1 crc
                   in if bit1 \<noteq> bit2 then crc XOR 0x080F else crc) [0..<lengthBits] 0x0FFF AND 0x0FFF"

definition nxdnCrc15 :: "bytes \<Rightarrow> nat \<Rightarrow> u16" where
  "nxdnCrc15 inp lengthBits =
     fold (\<lambda>i crc. let bit1 = rbit inp i; bit2 = (crc AND 0x4000 = 0x4000); crc = push_bit 1 crc
                   in if bit1 \<noteq> bit2 then crc XOR 0x4CC5 else crc) [0..<lengthBits] 0x7FFF AND 0x7FFF"

definition putBits :: "bytes \<Rightarrow> nat \<Rightarrow> u16 \<Rightarrow> nat \<Rightarrow> bytes" where
  "putBits buffer pos value width =
     fold (\<lambda>i buffer. WRITE_BIT buffer (pos + i) (drop_bit (width - 1 - i) value AND 1 \<noteq> 0)) [0..<width] buffer"

definition getBits :: "bytes \<Rightarrow> nat \<Rightarrow> nat \<Rightarrow> u16" where
  "getBits buffer pos width =
     fold (\<lambda>i v. push_bit 1 v OR (if rbit buffer (pos + i) then 1 else 0)) [0..<width] 0"

definition checkCrc6 :: "bytes \<Rightarrow> nat \<Rightarrow> bool" where
  "checkCrc6 inp len = (ucast (nxdnCrc6 inp len) = getBits inp len 6)"

definition checkCrc12 :: "bytes \<Rightarrow> nat \<Rightarrow> bool" where
  "checkCrc12 inp len = (nxdnCrc12 inp len = getBits inp len 12)"

definition checkCrc15 :: "bytes \<Rightarrow> nat \<Rightarrow> bool" where
  "checkCrc15 inp len = (nxdnCrc15 inp len = getBits inp len 15)"

subsection \<open>The convolutional code\<close>

definition CONV_STATES :: nat where "CONV_STATES = 16"
definition CONV_STATES_D2 :: nat where "CONV_STATES_D2 = 8"
definition CONV_M :: u16 where "CONV_M = 4"
definition CONV_K :: nat where "CONV_K = 5"
definition CONV_MAX_STEPS :: nat where "CONV_MAX_STEPS = 300"

definition BRANCH_TABLE1 :: bytes where "BRANCH_TABLE1 = [0, 0, 0, 0, 2, 2, 2, 2]"
definition BRANCH_TABLE2 :: bytes where "BRANCH_TABLE2 = [0, 2, 2, 0, 0, 2, 2, 0]"

record Conv =
  oldMetrics :: "u16 list"
  newMetrics :: "u16 list"
  decisions :: "u64 list"
  dp :: nat

definition convStart :: "Conv \<Rightarrow> Conv" where
  "convStart c = c\<lparr>oldMetrics := replicate CONV_STATES 0, newMetrics := replicate CONV_STATES 0, dp := 0\<rparr>"

text \<open>One round of the loop of \<open>convDecode\<close>: the two states that follow the states \<open>i\<close> and \<open>i + 8\<close>.\<close>

definition conv_butterfly :: "u16 list \<Rightarrow> u8 \<Rightarrow> u8 \<Rightarrow> nat \<Rightarrow> u16 list \<times> u64 \<Rightarrow> u16 list \<times> u64" where
  "conv_butterfly old s0 s1 i st =
     (let (new, dec) = st;
          j = i * 2;
          metric = word_of_int (\<bar>uint (BRANCH_TABLE1 ! i) - uint s0\<bar> + \<bar>uint (BRANCH_TABLE2 ! i) - uint s1\<bar>);
          m0 = old ! i + metric;
          m1 = old ! (i + CONV_STATES_D2) + (CONV_M - metric);
          decision0 = m0 \<ge> m1;
          new = new[j + 0 := (if decision0 then m1 else m0)];
          m0 = old ! i + (CONV_M - metric);
          m1 = old ! (i + CONV_STATES_D2) + metric;
          decision1 = m0 \<ge> m1;
          new = new[j + 1 := (if decision1 then m1 else m0)]
      in (new, dec OR (push_bit (j + 1) (of_bool decision1) OR push_bit (j + 0) (of_bool decision0))))"

definition convDecode :: "Conv \<Rightarrow> u8 \<Rightarrow> u8 \<Rightarrow> Conv" where
  "convDecode c s0 s1 =
     (let (new, dec) = fold (conv_butterfly (oldMetrics c) s0 s1) [0..<CONV_STATES_D2] (newMetrics c, 0);
          c' = (if dp c < CONV_MAX_STEPS then c\<lparr>decisions := (decisions c)[dp c := dec], dp := dp c + 1\<rparr> else c)
      in c'\<lparr>oldMetrics := new, newMetrics := oldMetrics c\<rparr>)"

definition convChainback :: "Conv \<Rightarrow> bytes \<Rightarrow> nat \<Rightarrow> Conv \<times> bytes" where
  "convChainback c out nBits =
     (let (c, state, out) =
        fold (\<lambda>n (c, state, out).
          let c = c\<lparr>dp := dp c - 1\<rparr>;
              i = drop_bit (9 - CONV_K) state;
              bit = (ucast (drop_bit (unat i) (decisions c ! dp c)) :: u8) AND 1;
              state = push_bit 7 (ucast bit) OR drop_bit 1 state
          in (c, state, WRITE_BIT out n (bit \<noteq> 0))) (rev [0..<nBits]) (c, 0 :: u32, out)
      in (c, out))"

definition convEncode :: "bytes \<Rightarrow> bytes \<Rightarrow> nat \<Rightarrow> bytes" where
  "convEncode inp out nBits =
     (let (d1, d2, d3, d4, k, out) =
        fold (\<lambda>i (d1, d2, d3, d4, k, out).
          let d = (if rbit inp i then 1 else 0);
              g1 = (d + d3 + d4) AND 1;
              g2 = (d + d1 + d2 + d4) AND 1;
              out = WRITE_BIT out k (g1 \<noteq> 0);
              out = WRITE_BIT out (k + 1) (g2 \<noteq> 0)
          in (d, d1, d2, d3, k + 2, out)) [0..<nBits] (0 :: u8, 0 :: u8, 0 :: u8, 0 :: u8, 0 :: nat, out)
      in out)"

subsection \<open>Interleaving and puncturing\<close>

definition nxdn_interleave :: "nat \<Rightarrow> nat \<Rightarrow> nat" where
  "nxdn_interleave chan i =
     (if chan = 0 then (i mod 12) * 5 + i div 12
      else if chan = 1 then (i mod 16) * 9 + i div 16
      else (i mod 12) * 29 + i div 12)"

definition punctured :: "nat \<Rightarrow> nat \<Rightarrow> bool" where
  "punctured chan i \<longleftrightarrow>
     (if chan = 0 then i mod 6 = 5
      else if chan = 1 then i mod 4 = 1
      else i mod 14 = 3 \<or> i mod 14 = 11)"

lemma punctured_single: "punctured chan n \<Longrightarrow> \<not> punctured chan (Suc n)"
  unfolding punctured_def by (auto simp: mod_Suc)

text \<open>\<open>while (punctured(chan, n)) temp2[n++] = 1U;\<close>\<close>

function fill_punctured :: "nat \<Rightarrow> nat \<Rightarrow> bytes \<Rightarrow> nat \<times> bytes" where
  "fill_punctured chan n temp2 =
     (if punctured chan n then fill_punctured chan (n + 1) (temp2[n := 1]) else (n, temp2))"
  by pat_completeness auto
termination
  by (relation "measure (\<lambda>(chan, n, temp2). of_bool (punctured chan n))") (auto dest: punctured_single)

declare fill_punctured.simps [simp del]

definition chanDecode :: "Conv \<Rightarrow> bytes \<Rightarrow> nat \<Rightarrow> bytes \<Rightarrow> nat \<Rightarrow> nat \<Rightarrow> nat \<Rightarrow> bytes \<Rightarrow> nat \<Rightarrow> bytes" where
  "chanDecode conv temp2 chan frame offset sentBits steps out outBits =
     (let temp1 = fold (\<lambda>i temp1. WRITE_BIT temp1 i (rbit frame (nxdn_interleave chan i + offset))) [0..<sentBits] (replicate 48 0);
          (n, temp2) = fold (\<lambda>i (n, temp2).
            let (n, temp2) = fill_punctured chan n temp2
            in (n + 1, temp2[n := (if rbit temp1 i then 2 else 0)])) [0..<sentBits] (0, temp2);
          (n, temp2) = fold (\<lambda>i (n, temp2). (n + 1, temp2[n := 0])) [0..<8] (n, temp2);
          (n, conv) = fold (\<lambda>i (n, conv). (n + 2, convDecode conv (temp2 ! n) (temp2 ! (n + 1)))) [0..<steps] (0, convStart conv);
          (conv, out) = convChainback conv out outBits
      in out)"

definition chanEncode :: "nat \<Rightarrow> bytes \<Rightarrow> nat \<Rightarrow> nat \<Rightarrow> bytes \<Rightarrow> nat \<Rightarrow> bytes" where
  "chanEncode chan info infoBits codedBits frame offset =
     (let temp2 = convEncode info (replicate 56 0) infoBits;
          (n, temp3) = fold (\<lambda>i (n, temp3).
            if \<not> punctured chan i then (n + 1, WRITE_BIT temp3 n (rbit temp2 i)) else (n, temp3)) [0..<codedBits] (0, replicate 48 0)
      in fold (\<lambda>i frame. WRITE_BIT frame (nxdn_interleave chan i + offset) (rbit temp3 i)) [0..<n] frame)"

subsection \<open>LICH\<close>

definition nxdnLichParity :: "u8 \<Rightarrow> u8" where
  "nxdnLichParity lich = (let v = lich AND 0xF0 in if v = 0x80 \<or> v = 0xB0 then 1 else 0)"

definition nxdnLichDecode :: "bytes \<Rightarrow> bool \<times> u8" where
  "nxdnLichDecode frame =
     (let (l, offset) = fold (\<lambda>i (l, offset).
            (if rbit frame offset then l OR BIT_MASK_TABLE ! i else l, offset + 2))
            [0..<NXDN_LICH_LENGTH_BITS div 2] (0, NXDN_FSW_LENGTH_BITS)
      in (l AND 1 = nxdnLichParity l, l))"

definition nxdnLichEncode :: "u8 \<Rightarrow> bytes \<Rightarrow> bytes" where
  "nxdnLichEncode lich frame =
     (let lich = (if nxdnLichParity lich \<noteq> 0 then lich OR 0x01 else lich AND 0xFE);
          (offset, frame) = fold (\<lambda>i (offset, frame).
            let frame = WRITE_BIT frame offset (rbit [lich] i);
                offset = offset + 1;
                frame = WRITE_BIT frame offset True
            in (offset + 1, frame)) [0..<NXDN_LICH_LENGTH_BITS div 2] (NXDN_FSW_LENGTH_BITS, frame)
      in frame)"

definition nxdnLichMake :: "u8 \<Rightarrow> u8 \<Rightarrow> u8 \<Rightarrow> u8 \<Rightarrow> u8" where
  "nxdnLichMake rfct fct option direction =
     (let l = (push_bit 6 rfct AND 0xC0);
          l = l OR (push_bit 4 fct AND 0x30);
          l = l OR (push_bit 2 option AND 0x0C);
          l = l OR (push_bit 1 direction AND 0x02)
      in if nxdnLichParity l \<noteq> 0 then l OR 0x01 else l)"

definition NXDN_LICH_RFCT :: "u8 \<Rightarrow> u8" where "NXDN_LICH_RFCT l = drop_bit 6 l AND 0x03"
definition NXDN_LICH_FCT :: "u8 \<Rightarrow> u8" where "NXDN_LICH_FCT l = drop_bit 4 l AND 0x03"
definition NXDN_LICH_OPTION :: "u8 \<Rightarrow> u8" where "NXDN_LICH_OPTION l = drop_bit 2 l AND 0x03"
definition NXDN_LICH_DIRECTION :: "u8 \<Rightarrow> u8" where "NXDN_LICH_DIRECTION l = drop_bit 1 l AND 0x01"

subsection \<open>SACCH\<close>

definition nxdnSacchDecode :: "Conv \<Rightarrow> bytes \<Rightarrow> bytes \<Rightarrow> bytes \<Rightarrow> bool \<times> bytes" where
  "nxdnSacchDecode conv temp2 frame sacch =
     (let out = chanDecode conv temp2 0 frame (NXDN_FSW_LENGTH_BITS + NXDN_LICH_LENGTH_BITS) NXDN_SACCH_LENGTH_BITS 40 (replicate 8 0) 36;
          sacch = take 5 out @ drop 5 sacch
      in (checkCrc6 sacch 26, sacch))"

definition nxdnSacchEncode :: "bytes \<Rightarrow> bytes \<Rightarrow> bytes" where
  "nxdnSacchEncode sacch frame =
     (let temp1 = fold (\<lambda>i temp1. WRITE_BIT temp1 i (rbit sacch i)) [0..<26] (replicate 5 0);
          temp1 = putBits temp1 26 (ucast (nxdnCrc6 temp1 26)) 6
      in chanEncode 0 temp1 36 72 frame (NXDN_FSW_LENGTH_BITS + NXDN_LICH_LENGTH_BITS))"

definition nxdnSacchGetData :: "bytes \<Rightarrow> bytes \<Rightarrow> bytes" where
  "nxdnSacchGetData sacch data = fold (\<lambda>i data. WRITE_BIT data i (rbit sacch (8 + i))) [0..<18] data"

definition nxdnSacchSetData :: "bytes \<Rightarrow> bytes \<Rightarrow> bytes" where
  "nxdnSacchSetData sacch data = fold (\<lambda>i sacch. WRITE_BIT sacch (8 + i) (rbit data i)) [0..<18] sacch"

definition nxdnSacchGetRaw :: "bytes \<Rightarrow> bytes \<Rightarrow> bytes" where
  "nxdnSacchGetRaw sacch raw4 =
     (let raw4 = take 4 sacch @ drop 4 raw4 in putBits raw4 26 (ucast (nxdnCrc6 raw4 26)) 6)"

definition nxdnSacchSetRAN :: "bytes \<Rightarrow> u8 \<Rightarrow> bytes" where
  "nxdnSacchSetRAN sacch v =
     (let sacch = sacch[0 := sacch ! 0 AND 0xC0] in sacch[0 := sacch ! 0 OR v])"

definition nxdnSacchSetStructure :: "bytes \<Rightarrow> u8 \<Rightarrow> bytes" where
  "nxdnSacchSetStructure sacch structure =
     (let sacch = sacch[0 := sacch ! 0 AND 0x3F] in sacch[0 := sacch ! 0 OR (push_bit 6 structure AND 0xC0)])"

definition NXDN_SACCH_RAN :: "bytes \<Rightarrow> u8" where "NXDN_SACCH_RAN s = s ! 0 AND 0x3F"
definition NXDN_SACCH_STRUCTURE :: "bytes \<Rightarrow> u8" where "NXDN_SACCH_STRUCTURE s = drop_bit 6 (s ! 0) AND 0x03"

subsection \<open>FACCH1 and UDCH\<close>

definition nxdnFacch1Decode :: "Conv \<Rightarrow> bytes \<Rightarrow> bytes \<Rightarrow> nat \<Rightarrow> bytes \<Rightarrow> bool \<times> bytes" where
  "nxdnFacch1Decode conv temp2 frame offset facch =
     (let out = chanDecode conv temp2 1 frame offset NXDN_FACCH1_LENGTH_BITS 100 (replicate 12 0) 96;
          facch = take 12 out @ drop 12 facch
      in (checkCrc12 facch 80, facch))"

definition nxdnFacch1Encode :: "bytes \<Rightarrow> bytes \<Rightarrow> nat \<Rightarrow> bytes" where
  "nxdnFacch1Encode facch10 frame offset =
     (let temp1 = take 10 facch10 @ drop 10 (replicate 12 0);
          temp1 = putBits temp1 80 (nxdnCrc12 temp1 80) 12
      in chanEncode 1 temp1 96 192 frame offset)"

definition nxdnFacch1GetRaw :: "bytes \<Rightarrow> bytes \<Rightarrow> bytes" where
  "nxdnFacch1GetRaw facch10 raw12 =
     (let raw12 = replicate 12 0 @ drop 12 raw12;
          raw12 = take 10 facch10 @ drop 10 raw12
      in putBits raw12 80 (nxdnCrc12 raw12 80) 12)"

definition nxdnUdchDecode :: "Conv \<Rightarrow> bytes \<Rightarrow> bytes \<Rightarrow> bytes \<Rightarrow> bool \<times> bytes" where
  "nxdnUdchDecode conv temp2 frame udch =
     (let out = chanDecode conv temp2 2 frame (NXDN_FSW_LENGTH_BITS + NXDN_LICH_LENGTH_BITS) NXDN_FACCH2_LENGTH_BITS 207 (replicate 26 0) 203;
          udch = take 25 out @ drop 25 udch
      in (checkCrc15 udch 184, udch))"

definition nxdnUdchEncode :: "bytes \<Rightarrow> bytes \<Rightarrow> bytes" where
  "nxdnUdchEncode udch23 frame =
     (let temp1 = take 23 udch23 @ drop 23 (replicate 26 0);
          temp1 = putBits temp1 184 (nxdnCrc15 temp1 184) 15
      in chanEncode 2 temp1 203 406 frame (NXDN_FSW_LENGTH_BITS + NXDN_LICH_LENGTH_BITS))"

end
