(* ===== verification/NxdnViterbi.thy ===== *)
theory NxdnViterbi
  imports NxdnChan
begin

section \<open>The NXDN Viterbi decoder finds a path of least cost\<close>

text \<open>
  \<open>convDecode\<close> computes the metrics and decisions of the locale \<open>viterbi\<close>, here with the costs of
  the symbols 0, 1 and 2, and \<open>convChainback\<close> follows the decisions from state 0.  At most 300
  steps are run: the metrics stay below \<open>4 * 300\<close>, so that \<open>uint16_t\<close> never wraps.
\<close>

subsection \<open>Costs\<close>

definition sym :: "bytes \<Rightarrow> nat \<Rightarrow> nat" where
  "sym syms i = min 2 (unat (syms ! i))"

definition sym_cost :: "nat \<Rightarrow> bool \<Rightarrow> nat" where
  "sym_cost s b = (if b then 2 - s else s)"

definition nx_cost :: "bytes \<Rightarrow> nat \<Rightarrow> bool \<Rightarrow> bool \<Rightarrow> nat" where
  "nx_cost syms t a b = sym_cost (sym syms (2 * t)) a + sym_cost (sym syms (2 * t + 1)) b"

lemma sym_le: "sym syms i \<le> 2"
  by (simp add: sym_def)

lemma sym_cases: "sym syms i = 0 \<or> sym syms i = 1 \<or> sym syms i = 2"
  using sym_le [of syms i] by linarith

interpretation nx: hard_viterbi 4 "nx_cost syms" 2 "\<lambda>i. sym syms i \<noteq> 1" "\<lambda>i. sym syms i = 2"
  "\<lambda>t. of_bool (sym syms (2 * t) = 1) + of_bool (sym syms (2 * t + 1) = 1)" for syms
proof unfold_locales
  fix t and a b :: bool
  have le: "sym_cost (sym syms i) c \<le> 2" for i c using sym_le [of syms i] by (simp add: sym_cost_def)
  have flip: "sym_cost (sym syms i) (\<not> c) = 2 - sym_cost (sym syms i) c" for i c
    using sym_le [of syms i] by (auto simp: sym_cost_def)
  show "nx_cost syms t a b \<le> 4" unfolding nx_cost_def using le [of "2 * t" a] le [of "2 * t + 1" b] by linarith
  show "nx_cost syms t (\<not> a) (\<not> b) = 4 - nx_cost syms t a b"
    unfolding nx_cost_def flip using le [of "2 * t" a] le [of "2 * t + 1" b] by linarith
  have one: "sym_cost (sym syms i) c = 2 * of_bool (sym syms i \<noteq> 1 \<and> c \<noteq> (sym syms i = 2)) + of_bool (sym syms i = 1)" for i c
    using sym_cases [of syms i] by (auto simp: sym_cost_def)
  show "nx_cost syms t a b =
    2 * (of_bool (sym syms (2 * t) \<noteq> 1 \<and> a \<noteq> (sym syms (2 * t) = 2)) +
      of_bool (sym syms (2 * t + 1) \<noteq> 1 \<and> b \<noteq> (sym syms (2 * t + 1) = 2))) +
    (of_bool (sym syms (2 * t) = 1) + of_bool (sym syms (2 * t + 1) = 1))"
    unfolding nx_cost_def one by simp
qed simp

subsection \<open>One step\<close>

lemma branch_word:
  assumes "i < 8" "syms ! (2 * t) \<le> 2" "syms ! (2 * t + 1) \<le> 2"
  shows "word_of_int (\<bar>uint (BRANCH_TABLE1 ! i) - uint (syms ! (2 * t))\<bar> + \<bar>uint (BRANCH_TABLE2 ! i) - uint (syms ! (2 * t + 1))\<bar>)
    = (of_nat (nx.branch syms t i False) :: u16)"
proof -
  have i: "i \<in> {0, 1, 2, 3, 4, 5, 6, 7}" using assms(1) by (simp only: less8_iff)
  have t1: "BRANCH_TABLE1 ! i = (if conv_g1 i False then 2 else 0)" "BRANCH_TABLE2 ! i = (if conv_g2 i False then 2 else 0)"
    using i unfolding BRANCH_TABLE1_def BRANCH_TABLE2_def conv_g1_def conv_g2_def bit_iff_odd by (elim insertE emptyE; simp)+
  have one: "\<bar>uint (if c then 2 else 0 :: u8) - uint (syms ! k)\<bar> = int (sym_cost (sym syms k) c)" if "syms ! k \<le> 2" for c k
  proof -
    have u: "unat (syms ! k) \<le> 2" using that by (simp add: word_le_nat_alt)
    then have s: "sym syms k = unat (syms ! k)" by (simp add: sym_def)
    obtain n where n: "unat (syms ! k) = n" "uint (syms ! k) = int n" using uint_nat by blast
    show ?thesis using u unfolding s sym_cost_def n by (cases c) auto
  qed
  show ?thesis unfolding nx.branch_def nx_cost_def t1 one [OF assms(2)] one [OF assms(3)]
    by (simp only: of_nat_add [symmetric] of_int_of_nat_eq)
qed

definition metrics_hold :: "bytes \<Rightarrow> nat \<Rightarrow> u16 list \<Rightarrow> bool" where
  "metrics_hold syms t ms \<longleftrightarrow> length ms = 16 \<and> (\<forall>s<16. ms ! s = of_nat (nx.metric syms t s))"

lemma u16_ge: "a < 65536 \<Longrightarrow> b < 65536 \<Longrightarrow> ((of_nat a :: u16) \<ge> of_nat b) = (a \<ge> b)"
  by (simp add: word_le_nat_alt unat_of_nat)

lemma butterfly_step:
  assumes old: "metrics_hold syms t old" and t: "t < 300" and i: "i < 8"
    and syms: "syms ! (2 * t) \<le> 2" "syms ! (2 * t + 1) \<le> 2" and new: "length new = 16"
  shows "conv_butterfly old (syms ! (2 * t)) (syms ! (2 * t + 1)) i (new, dec) =
    (new[2 * i := of_nat (nx.metric syms (Suc t) (2 * i)), Suc (2 * i) := of_nat (nx.metric syms (Suc t) (Suc (2 * i)))],
     dec OR (push_bit (Suc (2 * i)) (of_bool (nx.decision syms t (Suc (2 * i)))) OR push_bit (2 * i) (of_bool (nx.decision syms t (2 * i)))))"
proof -
  let ?m = "nx.branch syms t i False"
  have m: "?m \<le> 4" unfolding nx.branch_def by (rule nx.cost_le)
  have old': "old ! i = of_nat (nx.metric syms t i)" "old ! (i + 8) = of_nat (nx.metric syms t (i + 8))"
    using old i by (simp_all add: metrics_hold_def)
  have b: "nx.metric syms t s \<le> 1200" for s using nx.metric_bound [of syms t s] t by linarith
  have w: "(CONV_M - of_nat ?m :: u16) = of_nat (4 - ?m)" using m by (simp add: CONV_M_def of_nat_diff)
  have sum: "of_nat (nx.metric syms t s) + of_nat x = (of_nat (nx.metric syms t s + x) :: u16)" for s x by simp
  have ge: "((of_nat (nx.metric syms t s + x) :: u16) \<ge> of_nat (nx.metric syms t s' + y)) = (nx.metric syms t s + x \<ge> nx.metric syms t s' + y)"
    if "x \<le> 4" "y \<le> 4" for s s' x y
    by (rule u16_ge) (use b [of s] b [of s'] that in linarith)+
  have idx: "i * 2 + 0 = 2 * i" "i * 2 + 1 = Suc (2 * i)" by simp_all
  have half: "(2 * i) div 2 = i" "Suc (2 * i) div 2 = i" "odd (2 * i) = False" "odd (Suc (2 * i)) = True" by simp_all
  note br = nx.branch_half [OF i, of syms t]
  have met: "nx.metric syms (Suc t) (2 * i) = (if nx.metric syms t i + ?m \<ge> nx.metric syms t (i + 8) + (4 - ?m)
        then nx.metric syms t (i + 8) + (4 - ?m) else nx.metric syms t i + ?m)"
    "nx.metric syms (Suc t) (Suc (2 * i)) = (if nx.metric syms t i + (4 - ?m) \<ge> nx.metric syms t (i + 8) + ?m
        then nx.metric syms t (i + 8) + ?m else nx.metric syms t i + (4 - ?m))"
    unfolding nx.metric.simps half br by (simp_all add: min_def)
  have dec: "nx.decision syms t (2 * i) = (nx.metric syms t i + ?m \<ge> nx.metric syms t (i + 8) + (4 - ?m))"
    "nx.decision syms t (Suc (2 * i)) = (nx.metric syms t i + (4 - ?m) \<ge> nx.metric syms t (i + 8) + ?m)"
    unfolding nx.decision_def half br by simp_all
  have "4 - ?m \<le> 4" by simp
  note ge' = ge [OF m this] ge [OF this m]
  show ?thesis
    unfolding conv_butterfly_def Let_def prod.case CONV_STATES_D2_def idx branch_word [OF i syms] old' w sum ge' dec [symmetric]
    unfolding met dec [symmetric] if_distrib [of of_nat] ..
qed

lemma bit_decision_pair:
  assumes "i < 8" "s < 16"
  shows "bit (push_bit (Suc (2 * i)) (of_bool a) OR push_bit (2 * i) (of_bool b) :: u64) s =
    (if s = 2 * i then b else if s = Suc (2 * i) then a else False)"
  using assms by (simp only: bit_or_iff bit_push_bit_iff bit_of_bool_iff) auto

lemma decode_fold:
  assumes old: "metrics_hold syms t old" and t: "t < 300"
    and syms: "syms ! (2 * t) \<le> 2" "syms ! (2 * t + 1) \<le> 2" and new: "length new = 16" and m: "m \<le> 8"
  shows "\<exists>new' dec. fold (conv_butterfly old (syms ! (2 * t)) (syms ! (2 * t + 1))) [0..<m] (new, 0) = (new', dec) \<and>
    length new' = 16 \<and> (\<forall>s<2 * m. new' ! s = of_nat (nx.metric syms (Suc t) s)) \<and>
    (\<forall>s<16. bit dec s = (s < 2 * m \<and> nx.decision syms t s))"
  using m
proof (induction m)
  case 0
  then show ?case using new by simp
next
  case (Suc m)
  then obtain new' dec where IH: "fold (conv_butterfly old (syms ! (2 * t)) (syms ! (2 * t + 1))) [0..<m] (new, 0) = (new', dec)"
      "length new' = 16" "\<And>s. s < 2 * m \<Longrightarrow> new' ! s = of_nat (nx.metric syms (Suc t) s)"
      "\<And>s. s < 16 \<Longrightarrow> bit dec s = (s < 2 * m \<and> nx.decision syms t s)"
    by auto
  have m: "m < 8" using Suc.prems by simp
  let ?new = "new'[2 * m := of_nat (nx.metric syms (Suc t) (2 * m)), Suc (2 * m) := of_nat (nx.metric syms (Suc t) (Suc (2 * m)))]"
  let ?dec = "dec OR (push_bit (Suc (2 * m)) (of_bool (nx.decision syms t (Suc (2 * m)))) OR push_bit (2 * m) (of_bool (nx.decision syms t (2 * m))))"
  have "fold (conv_butterfly old (syms ! (2 * t)) (syms ! (2 * t + 1))) [0..<Suc m] (new, 0) = (?new, ?dec)"
    unfolding fold_upt_Suc IH(1) by (rule butterfly_step [OF old t m syms IH(2)])
  moreover have "?new ! s = of_nat (nx.metric syms (Suc t) s)" if "s < 2 * Suc m" for s
  proof -
    have "s < 2 * m \<or> s = 2 * m \<or> s = Suc (2 * m)" using that unfolding mult_Suc_right by linarith
    then show ?thesis using IH(2,3) m by (auto simp: nth_list_update)
  qed
  moreover have "bit ?dec s = (s < 2 * Suc m \<and> nx.decision syms t s)" if "s < 16" for s
    unfolding bit_or_iff [of dec] IH(4) [OF that] bit_decision_pair [OF m that] by (auto simp: less_Suc_eq)
  ultimately show ?case using IH(2) by auto
qed

subsection \<open>All steps\<close>

definition conv_after :: "bytes \<Rightarrow> nat \<Rightarrow> Conv \<Rightarrow> bool" where
  "conv_after syms t c \<longleftrightarrow> metrics_hold syms t (oldMetrics c) \<and> length (newMetrics c) = 16 \<and>
     length (decisions c) = 300 \<and> dp c = t \<and> (\<forall>u<t. \<forall>s<16. bit (decisions c ! u) s = nx.decision syms u s)"

lemma conv_after_start: "length (decisions c) = 300 \<Longrightarrow> conv_after syms 0 (convStart c)"
  by (simp add: conv_after_def convStart_def metrics_hold_def CONV_STATES_def)

lemma conv_after_step:
  assumes c: "conv_after syms t c" and t: "t < 300" and syms: "syms ! (2 * t) \<le> 2" "syms ! (2 * t + 1) \<le> 2"
  shows "conv_after syms (Suc t) (convDecode c (syms ! (2 * t)) (syms ! (2 * t + 1)))"
proof -
  have h: "metrics_hold syms t (oldMetrics c)" "length (newMetrics c) = 16" "length (decisions c) = 300" "dp c = t"
    "\<And>u s. u < t \<Longrightarrow> s < 16 \<Longrightarrow> bit (decisions c ! u) s = nx.decision syms u s"
    using c by (auto simp: conv_after_def)
  obtain new dec where f: "fold (conv_butterfly (oldMetrics c) (syms ! (2 * t)) (syms ! (2 * t + 1))) [0..<8] (newMetrics c, 0) = (new, dec)"
      "length new = 16" "\<And>s. s < 16 \<Longrightarrow> new ! s = of_nat (nx.metric syms (Suc t) s)" "\<And>s. s < 16 \<Longrightarrow> bit dec s = nx.decision syms t s"
    using decode_fold [OF h(1) t syms h(2), of 8] by auto
  have d: "convDecode c (syms ! (2 * t)) (syms ! (2 * t + 1)) =
      c\<lparr>decisions := (decisions c)[t := dec], dp := t + 1, oldMetrics := new, newMetrics := oldMetrics c\<rparr>"
    unfolding convDecode_def CONV_STATES_D2_def f(1) CONV_MAX_STEPS_def Let_def prod.case h(4) using t by simp
  show ?thesis
    unfolding d conv_after_def metrics_hold_def using h(1-4) h(5) f(2-4) t
    by (auto simp: metrics_hold_def nth_list_update less_Suc_eq simp del: nx.metric.simps)
qed

lemma conv_after_steps:
  assumes "length (decisions c) = 300" "T \<le> 300" "\<And>i. i < 2 * T \<Longrightarrow> syms ! i \<le> 2"
  shows "\<exists>c'. fold (\<lambda>i (n, conv). (n + 2, convDecode conv (syms ! n) (syms ! (n + 1)))) [0..<T] (0, convStart c) = (2 * T, c') \<and> conv_after syms T c'"
  using assms(2,3)
proof (induction T)
  case 0
  then show ?case using conv_after_start [OF assms(1)] by simp
next
  case (Suc T)
  then obtain c' where c': "fold (\<lambda>i (n, conv). (n + 2, convDecode conv (syms ! n) (syms ! (n + 1)))) [0..<T] (0, convStart c) = (2 * T, c')"
      "conv_after syms T c'" by auto
  have "conv_after syms (Suc T) (convDecode c' (syms ! (2 * T)) (syms ! (2 * T + 1)))"
    by (rule conv_after_step [OF c'(2)]) (use Suc.prems in auto)
  then show ?case unfolding fold_upt_Suc c'(1) by simp
qed

subsection \<open>Following the decisions back\<close>

lemma state_shift:
  assumes "drop_bit 4 state = (of_nat s :: u32)" "s < 16"
  shows "drop_bit 4 (push_bit 7 (of_bool b) OR drop_bit 1 state) = (of_nat (s div 2 + 8 * of_bool b) :: u32)"
proof -
  have "drop_bit 4 (push_bit 7 (of_bool b) OR drop_bit 1 state) = push_bit 3 (of_bool b) OR (drop_bit 1 (of_nat s) :: u32)"
    unfolding assms(1) [symmetric] by (rule bit_word_eqI) (auto simp: bit_simps add.commute)
  also have "\<dots> = of_nat (s div 2 + 8 * of_bool b)"
    using assms(2) unfolding less16_iff by (cases b; elim insertE emptyE; simp)
  finally show ?thesis .
qed

definition chain_step :: "nat \<Rightarrow> Conv \<times> u32 \<times> bytes \<Rightarrow> Conv \<times> u32 \<times> bytes" where
  "chain_step = (\<lambda>n (c, state, out).
          let c = c\<lparr>dp := dp c - 1\<rparr>;
              i = drop_bit (9 - CONV_K) state;
              bit = (ucast (drop_bit (unat i) (decisions c ! dp c)) :: u8) AND 1;
              state = push_bit 7 (ucast bit) OR drop_bit 1 state
          in (c, state, WRITE_BIT out n (bit \<noteq> 0)))"

lemma low_bit: "(ucast (drop_bit s (d :: u64)) :: u8) AND 1 = of_bool (bit d s)"
  by (rule bit_word_eqI) (auto simp: bit_simps)

lemma chain_fold:
  assumes "\<And>u s. u < T \<Longrightarrow> s < 16 \<Longrightarrow> bit (decs ! u) s = nx.decision syms u s"
    and "drop_bit 4 state = of_nat s" "s < 16" "n + d \<le> T" "n \<le> 8 * length out" "dp c = n + d" "decisions c = decs"
  shows "length (snd (snd (fold chain_step (rev [0..<n]) (c, state, out)))) = length out \<and>
    (\<forall>j. rbit (snd (snd (fold chain_step (rev [0..<n]) (c, state, out)))) j = (if j < n then nx.chain syms (n + d) s ! (j + d) else rbit out j))"
  using assms(2-)
proof (induction n arbitrary: s state out c)
  case (Suc n)
  let ?d = "nx.decision syms (n + d) s"
  let ?c = "c\<lparr>dp := n + d\<rparr>" and ?state = "push_bit 7 (of_bool ?d) OR drop_bit 1 state" and ?out = "WRITE_BIT out n ?d"
  let ?s = "nx.pred_state syms (n + d) s"
  have dec: "bit (decs ! (n + d)) s = ?d" by (rule assms(1)) (use Suc.prems in simp_all)
  have "unat (of_nat s :: u32) = s" using Suc.prems(2) by (simp add: unat_of_nat)
  then have step: "chain_step n (c, state, out) = (?c, ?state, ?out)"
    unfolding chain_step_def CONV_K_def using Suc.prems(1,5,6) dec by (simp add: low_bit)
  have rev: "rev [0..<Suc n] = n # rev [0..<n]" by simp
  have less: "?s < 16" by (rule nx.pred_less) (rule Suc.prems(2))
  have shift: "drop_bit 4 ?state = of_nat ?s"
    unfolding nx.pred_state_def by (rule state_shift) (rule Suc.prems)+
  have out: "n < 8 * length out" using Suc.prems(4) by simp
  let ?r = "snd (snd (fold chain_step (rev [0..<n]) (?c, ?state, ?out)))"
  have IH: "length ?r = length out" "\<And>j. rbit ?r j = (if j < n then nx.chain syms (n + d) ?s ! (j + d) else rbit ?out j)"
    using Suc.IH [OF shift less, of ?out ?c] Suc.prems(3,4,6) by simp_all
  have "nx.chain syms (Suc n + d) s = nx.chain syms (n + d) ?s @ [?d]" by simp
  then have "rbit ?r j = (if j < Suc n then nx.chain syms (Suc n + d) s ! (j + d) else rbit out j)" for j
    unfolding IH(2) rbit_WRITE_BIT [OF out] by (auto simp: nth_append simp del: nx.chain.simps)
  then show ?case unfolding rev fold.simps o_apply step using IH(1) by blast
qed simp

lemma convChainback_bits:
  assumes "conv_after syms T c" "nBits \<le> T" "nBits \<le> 8 * length out"
  shows "length (snd (convChainback c out nBits)) = length out"
    and "rbit (snd (convChainback c out nBits)) j =
      (if j < nBits then nx.survivor syms T 0 ! (j + (T - nBits)) else rbit out j)"
proof -
  have e: "snd (convChainback c out nBits) = snd (snd (fold chain_step (rev [0..<nBits]) (c, 0, out)))"
    unfolding convChainback_def chain_step_def Let_def by (simp add: split_beta)
  note f = chain_fold [of T "decisions c" syms 0 0 nBits "T - nBits" out c]
  have f': "length (snd (snd (fold chain_step (rev [0..<nBits]) (c, 0, out)))) = length out \<and>
    (\<forall>j. rbit (snd (snd (fold chain_step (rev [0..<nBits]) (c, 0, out)))) j =
      (if j < nBits then nx.chain syms T 0 ! (j + (T - nBits)) else rbit out j))"
    using f assms by (simp add: conv_after_def)
  have "nx.chain syms T 0 ! (j + (T - nBits)) = nx.survivor syms T 0 ! (j + (T - nBits))" if "j < nBits" for j
  proof -
    have "j + (T - nBits) < T" using that assms(2) by linarith
    then show ?thesis by (simp only: nx.survivor_def nth_append nx.length_chain if_True)
  qed
  then show "length (snd (convChainback c out nBits)) = length out"
    "rbit (snd (convChainback c out nBits)) j = (if j < nBits then nx.survivor syms T 0 ! (j + (T - nBits)) else rbit out j)"
    unfolding e using f' by auto
qed

end
