(* ===== verification/NxdnCoding.thy ===== *)
theory NxdnCoding
  imports NxdnViterbi
begin

section \<open>The NXDN channels recover what was sent\<close>

text \<open>
  The encoder writes the coded bits of the path of its input, each that is not punctured at its
  interleaved place in the frame; the decoder reads them back as symbols.  With at most one wrong
  bit the Viterbi decoder returns the input: every two inputs differ in at least three of the
  bits sent, which the tables below certify.
\<close>

subsection \<open>The encoder\<close>

definition hist :: "bytes \<Rightarrow> nat \<Rightarrow> nat \<Rightarrow> bool" where
  "hist inp n i \<longleftrightarrow> 4 \<le> i \<and> i < n + 4 \<and> rbit inp (i - 4)"

definition info_path :: "bytes \<Rightarrow> nat \<Rightarrow> nat \<Rightarrow> bool list" where
  "info_path inp n T = map (hist inp n) [0..<T + 4]"

lemma length_info_path [simp]: "length (info_path inp n T) = T + 4"
  by (simp add: info_path_def)

lemma info_path_nth [simp]: "i < T + 4 \<Longrightarrow> info_path inp n T ! i = hist inp n i"
  by (simp add: info_path_def del: upt_Suc)

lemma info_path_out:
  assumes "t < T"
  shows "out1 (info_path inp n T) t = (hist inp n (t + 4) \<noteq> (hist inp n (t + 1) \<noteq> hist inp n t))"
    and "out2 (info_path inp n T) t = (hist inp n (t + 4) \<noteq> (hist inp n (t + 3) \<noteq> (hist inp n (t + 2) \<noteq> hist inp n t)))"
proof -
  have "t < T + 4" "t + 1 < T + 4" "t + 2 < T + 4" "t + 3 < T + 4" "t + 4 < T + 4" using assms by simp_all
  note x = this [THEN info_path_nth [of _ _ inp n]]
  show "out1 (info_path inp n T) t = (hist inp n (t + 4) \<noteq> (hist inp n (t + 1) \<noteq> hist inp n t))"
    "out2 (info_path inp n T) t = (hist inp n (t + 4) \<noteq> (hist inp n (t + 3) \<noteq> (hist inp n (t + 2) \<noteq> hist inp n t)))"
    unfolding out1_def out2_def conv_g1_def conv_g2_def state_at_def st_bits st_bits(3) [folded One_nat_def] x by blast+
qed

lemma parity_sums:
  "((of_bool a + of_bool b + of_bool c :: u8) AND 1 \<noteq> 0) = (a \<noteq> (b \<noteq> c))"
  "((of_bool a + of_bool b + of_bool c + of_bool d :: u8) AND 1 \<noteq> 0) = (a \<noteq> (b \<noteq> (c \<noteq> d)))"
  by (cases a; cases b; cases c; cases d; simp)+

definition encode_step :: "bytes \<Rightarrow> nat \<Rightarrow> u8 \<times> u8 \<times> u8 \<times> u8 \<times> nat \<times> bytes \<Rightarrow> u8 \<times> u8 \<times> u8 \<times> u8 \<times> nat \<times> bytes" where
  "encode_step inp = (\<lambda>i (d1, d2, d3, d4, k, out).
          let d = (if rbit inp i then 1 else 0);
              g1 = (d + d3 + d4) AND 1;
              g2 = (d + d1 + d2 + d4) AND 1;
              out = WRITE_BIT out k (g1 \<noteq> 0);
              out = WRITE_BIT out (k + 1) (g2 \<noteq> 0)
          in (d, d1, d2, d3, k + 2, out))"

lemma encode_fold:
  assumes "2 * m \<le> 8 * length out" "m \<le> n" "n \<le> T"
  shows "\<exists>out'. fold (encode_step inp) [0..<m] (0, 0, 0, 0, 0, out) =
      (of_bool (hist inp n (m + 3)), of_bool (hist inp n (m + 2)), of_bool (hist inp n (m + 1)), of_bool (hist inp n m), 2 * m, out') \<and>
    length out' = length out \<and> (\<forall>p. rbit out' p = (if p < 2 * m then coded (info_path inp n T) p else rbit out p))"
  using assms(1,2)
proof (induction m)
  case 0
  show ?case by (simp add: hist_def)
next
  case (Suc m)
  then obtain out' where IH: "fold (encode_step inp) [0..<m] (0, 0, 0, 0, 0, out) =
      (of_bool (hist inp n (m + 3)), of_bool (hist inp n (m + 2)), of_bool (hist inp n (m + 1)), of_bool (hist inp n m), 2 * m, out')"
      "length out' = length out" "\<And>p. rbit out' p = (if p < 2 * m then coded (info_path inp n T) p else rbit out p)"
    by auto
  have m: "m < T" using Suc.prems assms(3) by simp
  have d: "(if rbit inp m then 1 else 0) = of_bool (hist inp n (m + 4))" using Suc.prems by (simp add: hist_def)
  note o = info_path_out [OF m, of inp n, symmetric]
  let ?out1 = "WRITE_BIT out' (2 * m) (out1 (info_path inp n T) m)"
  let ?out2 = "WRITE_BIT ?out1 (2 * m + 1) (out2 (info_path inp n T) m)"
  have i: "Suc m + 3 = m + 4" "Suc m + 2 = m + 3" "Suc m + 1 = m + 2" "Suc m = m + 1" "2 * m + 2 = 2 * Suc m" by simp_all
  have "fold (encode_step inp) [0..<Suc m] (0, 0, 0, 0, 0, out) =
      (of_bool (hist inp n (m + 4)), of_bool (hist inp n (m + 3)), of_bool (hist inp n (m + 2)), of_bool (hist inp n (m + 1)), 2 * m + 2, ?out2)"
    unfolding fold_upt_Suc IH(1) unfolding encode_step_def prod.case Let_def d parity_sums o ..
  then have f: "fold (encode_step inp) [0..<Suc m] (0, 0, 0, 0, 0, out) =
      (of_bool (hist inp n (Suc m + 3)), of_bool (hist inp n (Suc m + 2)), of_bool (hist inp n (Suc m + 1)), of_bool (hist inp n (Suc m)), 2 * Suc m, ?out2)"
    unfolding i(1-3,5) by (simp only: i(4))
  have l: "2 * m < 8 * length out'" "2 * m + 1 < 8 * length ?out1" using Suc.prems IH(2) by simp_all
  have "rbit ?out2 p = (if p < 2 * Suc m then coded (info_path inp n T) p else rbit out p)" for p
    unfolding rbit_WRITE_BIT [OF l(2)] rbit_WRITE_BIT [OF l(1)] IH(3) by (auto simp: coded_def)
  then show ?case using f IH(2) by auto
qed

lemma convEncode_bits:
  assumes "2 * n \<le> 8 * length out" "n \<le> T"
  shows "length (convEncode inp out n) = length out"
    and "rbit (convEncode inp out n) p = (if p < 2 * n then coded (info_path inp n T) p else rbit out p)"
proof -
  have e: "convEncode inp out n = snd (snd (snd (snd (snd (fold (encode_step inp) [0..<n] (0, 0, 0, 0, 0, out))))))"
    unfolding convEncode_def encode_step_def Let_def by (simp add: split_beta)
  obtain out' where "fold (encode_step inp) [0..<n] (0, 0, 0, 0, 0, out) =
      (of_bool (hist inp n (n + 3)), of_bool (hist inp n (n + 2)), of_bool (hist inp n (n + 1)), of_bool (hist inp n n), 2 * n, out')"
      "length out' = length out" "\<forall>p. rbit out' p = (if p < 2 * n then coded (info_path inp n T) p else rbit out p)"
    using encode_fold [OF assms(1) order_refl assms(2), of inp] by blast
  then show "length (convEncode inp out n) = length out"
    "rbit (convEncode inp out n) p = (if p < 2 * n then coded (info_path inp n T) p else rbit out p)"
    unfolding e by simp_all
qed

text \<open>With four zero bits at the end the path returns to state 0, and four more steps give zeros.\<close>

lemma info_path_end: "n + 4 \<le> T + 4 \<Longrightarrow> n \<le> T \<Longrightarrow> is_path (n + 4) 0 (info_path inp n (n + 4))"
  by (simp add: is_path_def state_at_def hist_def pack4_def)

lemma info_path_tail:
  assumes "\<And>i. n - 4 \<le> i \<Longrightarrow> i < n \<Longrightarrow> \<not> rbit inp i" "4 \<le> n" "2 * n \<le> p" "p < 2 * (n + 4)"
  shows "\<not> coded (info_path inp n (n + 4)) p"
proof -
  have z: "\<not> hist inp n i" if "n \<le> i" for i
    using assms(1) [of "i - 4"] that assms(2) by (auto simp: hist_def)
  have t: "p div 2 < n + 4" "n \<le> p div 2" using assms(3,4) by presburger+
  have "\<not> hist inp n (p div 2 + k)" for k using z t(2) by simp
  from this this [of 0] show ?thesis unfolding coded_def info_path_out [OF t(1)] by (simp only: add_0_right simp_thms if_cancel not_False_eq_True)
qed

subsection \<open>Puncturing\<close>

definition rank :: "nat \<Rightarrow> nat \<Rightarrow> nat" where
  "rank chan n = length (filter (\<lambda>p. \<not> punctured chan p) [0..<n])"

definition gap :: "nat \<Rightarrow> nat \<Rightarrow> nat" where
  "gap chan n = (if punctured chan n then Suc n else n)"

lemma rank_0 [simp]: "rank chan 0 = 0"
  by (simp add: rank_def)

lemma rank_Suc: "rank chan (Suc n) = (if punctured chan n then rank chan n else Suc (rank chan n))"
  by (simp add: rank_def)

lemma rank_mono: "m \<le> n \<Longrightarrow> rank chan m \<le> rank chan n"
  by (induction n) (auto simp: le_Suc_eq rank_Suc)

lemma rank_less: "\<not> punctured chan m \<Longrightarrow> m < n \<Longrightarrow> rank chan m < rank chan n"
  using rank_mono [of "Suc m" n chan] by (simp add: rank_Suc)

lemma rank_inject: "\<not> punctured chan m \<Longrightarrow> \<not> punctured chan n \<Longrightarrow> rank chan m = rank chan n \<Longrightarrow> m = n"
  using rank_less [of chan m n] rank_less [of chan n m] by (metis less_irrefl linorder_neqE_nat)

lemma gap_sent: "\<not> punctured chan (gap chan n)" "rank chan (gap chan n) = rank chan n"
  using punctured_single [of chan n] by (simp_all add: gap_def rank_Suc)

lemma fill_punctured_gap: "fill_punctured chan n temp2 = (gap chan n, if punctured chan n then temp2[n := 1] else temp2)"
  using punctured_single [of chan n]
  by (simp add: fill_punctured.simps [of chan n] fill_punctured.simps [of chan "Suc n"] gap_def)

text \<open>Putting the punctured bits back: \<open>E\<close> follows the last bit sent.\<close>

definition symbol_loop :: "nat \<Rightarrow> (nat \<Rightarrow> bool) \<Rightarrow> nat \<Rightarrow> nat \<times> bytes \<Rightarrow> nat \<times> bytes" where
  "symbol_loop chan sent = (\<lambda>i (n, temp2).
     let (n, temp2) = fill_punctured chan n temp2 in (n + 1, temp2[n := (if sent i then 2 else 0)]))"

lemma symbols:
  assumes "E \<le> length temp2" "m \<le> rank chan E"
  shows "\<exists>n temp2'. fold (symbol_loop chan sent) [0..<m] (0, temp2) = (n, temp2') \<and> rank chan n = m \<and> n \<le> E \<and>
    (0 < m \<longrightarrow> \<not> punctured chan (n - 1) \<and> 0 < n) \<and> length temp2' = length temp2 \<and>
    (\<forall>j. temp2' ! j = (if j < n then (if punctured chan j then 1 else if sent (rank chan j) then 2 else 0) else temp2 ! j))"
  using assms(2)
proof (induction m)
  case 0
  show ?case by simp
next
  case (Suc m)
  then obtain n tp where IH: "fold (symbol_loop chan sent) [0..<m] (0, temp2) = (n, tp)" "rank chan n = m" "n \<le> E" "length tp = length temp2"
      "\<And>j. tp ! j = (if j < n then (if punctured chan j then 1 else if sent (rank chan j) then 2 else 0) else temp2 ! j)"
    by auto
  let ?g = "gap chan n"
  have "rank chan ?g = m" using gap_sent(2) IH(2) by simp
  then have gE: "?g < E" using rank_mono [of E ?g chan] Suc.prems by (meson Suc_le_eq leD le_trans linorder_not_le)
  let ?tp = "(if punctured chan n then tp[n := 1] else tp)[?g := (if sent m then 2 else 0)]"
  have f: "fold (symbol_loop chan sent) [0..<Suc m] (0, temp2) = (?g + 1, ?tp)"
    unfolding fold_upt_Suc IH(1) by (simp add: symbol_loop_def fill_punctured_gap)
  have g: "n \<le> ?g" "?g \<le> Suc n" "?g = Suc n \<longleftrightarrow> punctured chan n" by (simp_all add: gap_def)
  have "?tp ! j = (if j < ?g + 1 then (if punctured chan j then 1 else if sent (rank chan j) then 2 else 0) else temp2 ! j)" for j
  proof -
    consider "j < n" | "j = n" "j \<noteq> ?g" | "j = ?g" | "?g < j" using g by linarith
    then show ?thesis
    proof cases
      case 1
      then show ?thesis using IH(5) g by simp
    next
      case 2
      then show ?thesis using g IH(4) gE assms(1) by simp
    next
      case 3
      then show ?thesis using gap_sent [of chan n] IH(2,4) gE assms(1) by simp
    next
      case 4
      then show ?thesis using IH(5) g by simp
    qed
  qed
  moreover have "rank chan (?g + 1) = Suc m" "\<not> punctured chan (?g + 1 - 1)"
    using gap_sent [of chan n] IH(2) by (simp_all add: rank_Suc)
  ultimately show ?case using f gE IH(4) by (intro exI [of _ "?g + 1"] exI [of _ ?tp]) simp
qed

lemma symbols_end:
  assumes "E \<le> length temp2" "0 < E" "\<not> punctured chan (E - 1)"
  shows "\<exists>temp2'. fold (symbol_loop chan sent) [0..<rank chan E] (0, temp2) = (E, temp2') \<and> length temp2' = length temp2 \<and>
    (\<forall>j. temp2' ! j = (if j < E then (if punctured chan j then 1 else if sent (rank chan j) then 2 else 0) else temp2 ! j))"
proof -
  obtain n tp where s: "fold (symbol_loop chan sent) [0..<rank chan E] (0, temp2) = (n, tp)" "rank chan n = rank chan E" "n \<le> E"
      "length tp = length temp2"
      "\<forall>j. tp ! j = (if j < n then (if punctured chan j then 1 else if sent (rank chan j) then 2 else 0) else temp2 ! j)"
    using symbols [OF assms(1) order_refl, of chan sent] by blast
  have "rank chan (E - 1) < rank chan E" using rank_less [OF assms(3), of E] assms(2) by simp
  then have "\<not> n \<le> E - 1" using rank_mono [of n "E - 1" chan] s(2) by linarith
  then have "n = E" using s(3) by linarith
  then show ?thesis using s by blast
qed

lemma tail_zeros:
  "n + m \<le> length temp2 \<Longrightarrow> \<exists>temp2'. fold (\<lambda>i (n, temp2). (n + 1, temp2[n := 0])) [0..<m] (n, temp2) = (n + m, temp2') \<and>
    length temp2' = length temp2 \<and> (\<forall>j. temp2' ! j = (if n \<le> j \<and> j < n + m then (0 :: u8) else temp2 ! j))"
proof (induction m)
  case (Suc m)
  then obtain tp where "fold (\<lambda>i (n, temp2). (n + 1, temp2[n := 0])) [0..<m] (n, temp2) = (n + m, tp)"
      "length tp = length temp2" "\<forall>j. tp ! j = (if n \<le> j \<and> j < n + m then (0 :: u8) else temp2 ! j)" by auto
  then show ?case using Suc.prems by (auto simp: nth_list_update less_Suc_eq simp del: upt_Suc)
qed auto

subsection \<open>Interleaving\<close>

definition spot :: "nat \<Rightarrow> nat \<Rightarrow> nat \<Rightarrow> nat" where
  "spot chan offset i = nxdn_interleave chan i + offset"

definition sent_bits :: "nat \<Rightarrow> nat" where
  "sent_bits chan = (if chan = 0 then 60 else if chan = 1 then 144 else 348)"

lemma matrix_inject:
  assumes "0 < c" "i < c * r" "j < c * r" "(i mod c) * r + i div c = (j mod c) * r + j div (c :: nat)"
  shows "i = j"
proof -
  have d: "i div c < r" "j div c < r" using assms(2,3) by (simp_all add: less_mult_imp_div_less mult.commute)
  have "i mod c = ((i mod c) * r + i div c) div r" "j mod c = ((j mod c) * r + j div c) div r" using d by simp_all
  then have "i mod c = j mod c" using assms(4) by simp
  then have "i div c = j div c" using assms(4) by simp
  then show ?thesis using \<open>i mod c = j mod c\<close> by (metis mult_div_mod_eq)
qed

lemma matrix_less: "0 < c \<Longrightarrow> i < c * r \<Longrightarrow> (i mod c) * r + i div c < c * (r :: nat)"
proof -
  assume c: "0 < c" and i: "i < c * r"
  have "i div c < r" using i by (simp add: less_mult_imp_div_less mult.commute)
  moreover have "i mod c \<le> c - 1" using mod_less_divisor [OF c, of i] by linarith
  then have "(i mod c) * r \<le> (c - 1) * r" by simp
  ultimately have "(i mod c) * r + i div c < (c - 1) * r + r" by linarith
  also have "(c - 1) * r + r = c * r" using c by (simp add: algebra_simps)
  finally show ?thesis .
qed

lemma spot_inject: "i < sent_bits chan \<Longrightarrow> j < sent_bits chan \<Longrightarrow> spot chan offset i = spot chan offset j \<Longrightarrow> i = j"
  using matrix_inject [of 12 i 5 j] matrix_inject [of 16 i 9 j] matrix_inject [of 12 i 29 j]
  by (auto simp: spot_def nxdn_interleave_def sent_bits_def split: if_splits)

lemma spot_range: "i < sent_bits chan \<Longrightarrow> offset \<le> spot chan offset i \<and> spot chan offset i < offset + sent_bits chan"
  using matrix_less [of 12 i 5] matrix_less [of 16 i 9] matrix_less [of 12 i 29]
  by (auto simp: spot_def nxdn_interleave_def sent_bits_def split: if_splits)

subsection \<open>The channel encoder\<close>

definition puncture_loop :: "nat \<Rightarrow> bytes \<Rightarrow> nat \<Rightarrow> nat \<times> bytes \<Rightarrow> nat \<times> bytes" where
  "puncture_loop chan temp2 = (\<lambda>i (n, temp3).
     if \<not> punctured chan i then (n + 1, WRITE_BIT temp3 n (rbit temp2 i)) else (n, temp3))"

lemma puncture_fold:
  assumes "rank chan m \<le> 8 * length temp3"
  shows "\<exists>t3. fold (puncture_loop chan temp2) [0..<m] (0, temp3) = (rank chan m, t3) \<and> length t3 = length temp3 \<and>
    (\<forall>p<m. \<not> punctured chan p \<longrightarrow> rbit t3 (rank chan p) = rbit temp2 p)"
  using assms
proof (induction m)
  case 0
  show ?case by simp
next
  case (Suc m)
  have "rank chan m \<le> rank chan (Suc m)" by (simp add: rank_Suc)
  then obtain t3 where IH: "fold (puncture_loop chan temp2) [0..<m] (0, temp3) = (rank chan m, t3)" "length t3 = length temp3"
      "\<And>p. p < m \<Longrightarrow> \<not> punctured chan p \<Longrightarrow> rbit t3 (rank chan p) = rbit temp2 p"
    using Suc by fastforce
  show ?case
  proof (cases "punctured chan m")
    case True
    then show ?thesis
      unfolding fold_upt_Suc IH(1) using IH by (auto simp: puncture_loop_def rank_Suc less_Suc_eq)
  next
    case False
    let ?t3 = "WRITE_BIT t3 (rank chan m) (rbit temp2 m)"
    have b: "rank chan m < 8 * length t3" using Suc.prems False IH(2) by (simp add: rank_Suc)
    have "rbit ?t3 (rank chan p) = rbit temp2 p" if "p < Suc m" "\<not> punctured chan p" for p
    proof (cases "p = m")
      case True
      then show ?thesis by (simp add: rbit_WRITE_BIT [OF b])
    next
      case False
      then have "p < m" using that(1) by simp
      then have "rank chan p \<noteq> rank chan m" using rank_less [OF that(2), of m] by simp
      then show ?thesis using IH(3) [OF \<open>p < m\<close> that(2)] by (simp add: rbit_WRITE_BIT [OF b])
    qed
    then show ?thesis
      unfolding fold_upt_Suc IH(1) using IH(2) False by (auto simp: puncture_loop_def rank_Suc)
  qed
qed

lemma chanEncode_bits:
  assumes n: "2 * n \<le> 448" "rank chan (2 * n) = sent_bits chan" and frame: "offset + sent_bits chan \<le> 8 * length frame"
  shows "length (chanEncode chan info n (2 * n) frame offset) = length frame"
    and "p < 2 * n \<Longrightarrow> \<not> punctured chan p \<Longrightarrow>
      rbit (chanEncode chan info n (2 * n) frame offset) (spot chan offset (rank chan p)) = coded (info_path info n (n + 4)) p"
    and "j < offset \<or> offset + sent_bits chan \<le> j \<Longrightarrow> rbit (chanEncode chan info n (2 * n) frame offset) j = rbit frame j"
proof -
  let ?t2 = "convEncode info (replicate 56 0) n"
  have t2: "length ?t2 = 56" "\<And>p. p < 2 * n \<Longrightarrow> rbit ?t2 p = coded (info_path info n (n + 4)) p"
    using convEncode_bits [of n "replicate 56 0" "n + 4" info] n(1) by simp_all
  have small: "sent_bits chan \<le> 384" by (simp add: sent_bits_def)
  then obtain t3 where t3: "fold (puncture_loop chan ?t2) [0..<2 * n] (0, replicate 48 0) = (sent_bits chan, t3)" "length t3 = 48"
      "\<And>p. p < 2 * n \<Longrightarrow> \<not> punctured chan p \<Longrightarrow> rbit t3 (rank chan p) = rbit ?t2 p"
    using puncture_fold [of chan "2 * n" "replicate 48 0" ?t2] n(2) by auto
  let ?f = "fold (\<lambda>i frame. WRITE_BIT frame (spot chan offset i) (rbit t3 i)) [0..<sent_bits chan] frame"
  have f: "chanEncode chan info n (2 * n) frame offset = ?f"
    unfolding chanEncode_def Let_def puncture_loop_def [symmetric] t3(1) prod.case spot_def ..
  have d: "distinct (map (spot chan offset) [0..<sent_bits chan])"
    unfolding distinct_map using spot_inject by (auto simp: inj_on_def)
  have r: "i \<in> set [0..<sent_bits chan] \<Longrightarrow> spot chan offset i < 8 * length frame" for i
    using spot_range [of i chan offset] frame by auto
  show "length (chanEncode chan info n (2 * n) frame offset) = length frame"
    unfolding f by (rule fold_length_inv) simp
  show "rbit (chanEncode chan info n (2 * n) frame offset) (spot chan offset (rank chan p)) = coded (info_path info n (n + 4)) p"
    if p: "p < 2 * n" "\<not> punctured chan p"
  proof -
    have "rank chan p < sent_bits chan" using rank_less [OF p(2,1)] n(2) by simp
    then have "rbit ?f (spot chan offset (rank chan p)) = rbit t3 (rank chan p)"
      by (intro packed.fold_written [of "spot chan offset"]) (use d r in simp_all)
    then show ?thesis unfolding f t3(3) [OF p] t2(2) [OF p(1)] .
  qed
  show "rbit (chanEncode chan info n (2 * n) frame offset) j = rbit frame j" if "j < offset \<or> offset + sent_bits chan \<le> j"
    unfolding f by (rule packed.fold_other [of _ "spot chan offset"]) (use r spot_range [of _ chan offset] that in fastforce)+
qed

subsection \<open>The channel decoder\<close>

text \<open>The symbols decoded, and the decoding of them.\<close>

lemma chanDecode_symbols:
  assumes temp2: "length temp2 = 430" and E: "0 < E" "\<not> punctured chan (E - 1)" "rank chan E = sent_bits chan" "E + 8 \<le> 430"
  shows "\<exists>syms. (\<forall>j. syms ! j = (if j < E then (if punctured chan j then 1 else if rbit frame (spot chan offset (rank chan j)) then 2 else 0)
        else if j < E + 8 then 0 else temp2 ! j)) \<and>
      chanDecode conv temp2 chan frame offset (sent_bits chan) steps out n =
        snd (convChainback (snd (fold (\<lambda>i (n, conv). (n + 2, convDecode conv (syms ! n) (syms ! (n + 1)))) [0..<steps] (0, convStart conv))) out n)"
proof -
  let ?t1 = "fold (\<lambda>i temp1. WRITE_BIT temp1 i (rbit frame (nxdn_interleave chan i + offset))) [0..<sent_bits chan] (replicate 48 0)"
  have small: "sent_bits chan \<le> 384" by (simp add: sent_bits_def)
  have t1: "rbit ?t1 i = rbit frame (spot chan offset i)" if "i < sent_bits chan" for i
    unfolding spot_def by (rule packed.fold_written [of "\<lambda>i. i"]) (use that small in \<open>simp_all add: distinct_map\<close>)
  obtain tp where tp: "fold (symbol_loop chan (rbit ?t1)) [0..<sent_bits chan] (0, temp2) = (E, tp)" "length tp = 430"
      "\<And>j. tp ! j = (if j < E then (if punctured chan j then 1 else if rbit ?t1 (rank chan j) then 2 else 0) else temp2 ! j)"
    using symbols_end [of E temp2 chan "rbit ?t1"] E temp2 by auto
  obtain syms where syms: "fold (\<lambda>i (n, temp2). (n + 1, temp2[n := 0])) [0..<8] (E, tp) = (E + 8, syms)"
      "\<And>j. syms ! j = (if E \<le> j \<and> j < E + 8 then (0 :: u8) else tp ! j)"
    using tail_zeros [of E 8 tp] tp(2) E(4) by auto
  have s: "syms ! j = (if j < E then (if punctured chan j then 1 else if rbit frame (spot chan offset (rank chan j)) then 2 else 0)
        else if j < E + 8 then 0 else temp2 ! j)" for j
  proof (cases "j < E \<and> \<not> punctured chan j")
    case True
    then have "rank chan j < sent_bits chan" using rank_less [of chan j E] E(3) by simp
    then show ?thesis using True t1 unfolding syms(2) tp(3) by simp
  next
    case False
    then show ?thesis unfolding syms(2) tp(3) by auto
  qed
  have e: "chanDecode conv temp2 chan frame offset (sent_bits chan) steps out n =
      snd (convChainback (snd (fold (\<lambda>i (n, conv). (n + 2, convDecode conv (syms ! n) (syms ! (n + 1)))) [0..<steps] (0, convStart conv))) out n)"
    unfolding chanDecode_def Let_def symbol_loop_def [unfolded Let_def, symmetric] tp(1) prod.case syms(1) by (simp add: split_beta)
  show ?thesis using s e by blast
qed

lemma chanDecode_survivor:
  assumes conv: "length (decisions conv) = 300" and temp2: "length temp2 = 430"
    and E: "0 < E" "\<not> punctured chan (E - 1)" "rank chan E = sent_bits chan" "E + 8 \<le> 430"
    and steps: "steps \<le> 300" "\<And>i. E + 8 \<le> i \<Longrightarrow> i < 2 * steps \<Longrightarrow> temp2 ! i \<le> 2" and out: "n \<le> steps" "n \<le> 8 * length out"
  shows "\<exists>syms. (\<forall>j. syms ! j = (if j < E then (if punctured chan j then 1 else if rbit frame (spot chan offset (rank chan j)) then 2 else 0)
        else if j < E + 8 then 0 else temp2 ! j)) \<and>
      length (chanDecode conv temp2 chan frame offset (sent_bits chan) steps out n) = length out \<and>
      (\<forall>j. rbit (chanDecode conv temp2 chan frame offset (sent_bits chan) steps out n) j =
        (if j < n then nx.survivor syms steps 0 ! (j + (steps - n)) else rbit out j))"
proof -
  obtain syms where s: "\<And>j. syms ! j = (if j < E then (if punctured chan j then 1 else if rbit frame (spot chan offset (rank chan j)) then 2 else 0)
        else if j < E + 8 then 0 else temp2 ! j)"
      and e: "chanDecode conv temp2 chan frame offset (sent_bits chan) steps out n =
        snd (convChainback (snd (fold (\<lambda>i (n, conv). (n + 2, convDecode conv (syms ! n) (syms ! (n + 1)))) [0..<steps] (0, convStart conv))) out n)"
    using chanDecode_symbols [OF temp2 E, of frame offset conv steps out n] by blast
  have le: "syms ! i \<le> 2" if "i < 2 * steps" for i using s [of i] steps(2) that by auto
  obtain c where c: "fold (\<lambda>i (n, conv). (n + 2, convDecode conv (syms ! n) (syms ! (n + 1)))) [0..<steps] (0, convStart conv) = (2 * steps, c)"
      "conv_after syms steps c"
    using conv_after_steps [OF conv steps(1), of syms] le by blast
  show ?thesis
    unfolding e c(1) snd_conv using s convChainback_bits [OF c(2) out] by blast
qed

text \<open>Every symbol that is wrong is a wrong bit on the air.\<close>

lemma air_errors:
  assumes n: "2 * n \<le> 448" "rank chan (2 * n) = sent_bits chan" and E: "E \<le> 2 * n" "rank chan E = sent_bits chan"
    and frame: "offset + sent_bits chan \<le> 8 * length frame"
  shows "card {p. p < E \<and> \<not> punctured chan p \<and> coded (info_path info n (n + 4)) p \<noteq> rbit recvd (spot chan offset (rank chan p))} \<le>
    wrong_bits (chanEncode chan info n (2 * n) frame offset) recvd [offset..<offset + sent_bits chan]" (is "card ?bad \<le> _")
proof -
  let ?sent = "chanEncode chan info n (2 * n) frame offset"
  let ?wrong = "{i \<in> {offset..<offset + sent_bits chan}. rbit ?sent i \<noteq> rbit recvd i}"
  have bad: "\<not> punctured chan p \<and> rank chan p < sent_bits chan \<and>
      rbit ?sent (spot chan offset (rank chan p)) \<noteq> rbit recvd (spot chan offset (rank chan p))" if p: "p \<in> ?bad" for p
  proof -
    have np: "\<not> punctured chan p" "p < E" using p by simp_all
    moreover have "rank chan p < sent_bits chan" using rank_less [OF np] E(2) by simp
    moreover have "rbit ?sent (spot chan offset (rank chan p)) = coded (info_path info n (n + 4)) p"
      by (rule chanEncode_bits(2)) (use n np E(1) frame in auto)
    ultimately show ?thesis using p by simp
  qed
  have "card ?bad \<le> card ?wrong"
  proof (rule card_inj_on_le [of "\<lambda>p. spot chan offset (rank chan p)"])
    show "inj_on (\<lambda>p. spot chan offset (rank chan p)) ?bad"
    proof (rule inj_onI)
      fix p q assume "p \<in> ?bad" "q \<in> ?bad" "spot chan offset (rank chan p) = spot chan offset (rank chan q)"
      then show "p = q" using bad [of p] bad [of q] spot_inject rank_inject by blast
    qed
    show "(\<lambda>p. spot chan offset (rank chan p)) ` ?bad \<subseteq> ?wrong" using bad spot_range by fastforce
  qed simp
  also have "?wrong = set (filter (\<lambda>i. rbit ?sent i \<noteq> rbit recvd i) [offset..<offset + sent_bits chan])" by auto
  also have "card \<dots> = wrong_bits ?sent recvd [offset..<offset + sent_bits chan]"
    unfolding wrong_bits_def by (rule distinct_card) simp
  finally show ?thesis .
qed

text \<open>
  The symbols of a frame that differs in few bits from an encoded one lead back to its input.  Up to
  \<open>E\<close>, which follows the last bit sent, the symbols are in their places; a coded bit from there on is
  taken for a zero.
\<close>

lemma channel_recovers:
  assumes conv: "length (decisions conv) = 300" and temp2: "length temp2 = 430"
    and n: "4 \<le> n" "2 * n + 8 \<le> 430" "rank chan (2 * n) = sent_bits chan"
    and E: "0 < E" "E \<le> 2 * n" "\<not> punctured chan (E - 1)" "rank chan E = sent_bits chan"
    and junk: "\<And>i. E + 8 \<le> i \<Longrightarrow> i < 2 * (n + 4) \<Longrightarrow> temp2 ! i = 0"
    and cert: "code_distance (\<lambda>p. \<not> punctured chan p) V W dmin"
    and frame: "offset + sent_bits chan \<le> 8 * length frame"
    and few: "2 * (wrong_bits (chanEncode chan info n (2 * n) frame offset) recvd [offset..<offset + sent_bits chan] +
      card {p. E \<le> p \<and> p < 2 * n \<and> coded (info_path info n (n + 4)) p}) < dmin"
    and tail: "\<And>i. n - 4 \<le> i \<Longrightarrow> i < n \<Longrightarrow> \<not> rbit info i" and out: "n \<le> 8 * length out"
  shows "length (chanDecode conv temp2 chan recvd offset (sent_bits chan) (n + 4) out n) = length out"
    and "rbit (chanDecode conv temp2 chan recvd offset (sent_bits chan) (n + 4) out n) j = (if j < n then rbit info j else rbit out j)"
proof -
  let ?sent = "chanEncode chan info n (2 * n) frame offset" and ?T = "n + 4"
  let ?path = "info_path info n ?T"
  have T: "?T \<le> 300" "\<And>i. E + 8 \<le> i \<Longrightarrow> i < 2 * ?T \<Longrightarrow> temp2 ! i \<le> 2" using n(2) junk by auto
  obtain syms where s: "\<And>j. syms ! j = (if j < E then (if punctured chan j then 1 else if rbit recvd (spot chan offset (rank chan j)) then 2 else 0)
        else if j < E + 8 then 0 else temp2 ! j)"
      and l: "length (chanDecode conv temp2 chan recvd offset (sent_bits chan) ?T out n) = length out"
      and r: "\<And>j. rbit (chanDecode conv temp2 chan recvd offset (sent_bits chan) ?T out n) j =
        (if j < n then nx.survivor syms ?T 0 ! (j + (?T - n)) else rbit out j)"
    using chanDecode_survivor [OF conv temp2 E(1,3,4) _ T, of n out recvd offset] n(1,2) E(2) out by auto
  have z: "syms ! j = 0" if "E \<le> j" "j < 2 * ?T" for j using that junk by (simp add: s)
  have path: "is_path ?T 0 ?path" using info_path_end [of n n info] n(1) by (intro info_path_end) auto
  have used: "sym syms i \<noteq> 1" if "i < 2 * ?T" "\<not> punctured chan i" for i
    using that z [of i] by (cases "i < E") (auto simp: sym_def s)
  let ?bad = "{p. p < 2 * ?T \<and> sym syms p \<noteq> 1 \<and> coded ?path p \<noteq> (sym syms p = 2)}"
  let ?lost = "{p. E \<le> p \<and> p < 2 * n \<and> coded ?path p}"
  let ?air = "{p. p < E \<and> \<not> punctured chan p \<and> coded ?path p \<noteq> rbit recvd (spot chan offset (rank chan p))}"
  have bad: "p \<in> ?air" if p: "p \<in> ?bad - ?lost" for p
  proof -
    have E': "p < E"
    proof (rule ccontr)
      assume e: "\<not> p < E"
      then have "sym syms p = 0" using z [of p] p by (simp add: sym_def)
      moreover have "\<not> coded ?path p"
        using info_path_tail [of n info p, OF tail n(1)] p e by (cases "p < 2 * n") auto
      ultimately show False using p by simp
    qed
    then have np: "\<not> punctured chan p" using p by (auto simp: sym_def s)
    have "(sym syms p = 2) = rbit recvd (spot chan offset (rank chan p))" using E' np by (simp add: sym_def s)
    then show ?thesis using p np E' by simp
  qed
  then have "card (?bad - ?lost) \<le> card ?air" by (intro card_mono) auto
  also have "\<dots> \<le> wrong_bits ?sent recvd [offset..<offset + sent_bits chan]" by (rule air_errors) (use n E frame in simp_all)
  finally have "card (?bad - ?lost) \<le> wrong_bits ?sent recvd [offset..<offset + sent_bits chan]" .
  moreover have "card ?bad \<le> card (?bad - ?lost) + card ?lost"
    using card_mono [of "(?bad - ?lost) \<union> ?lost" ?bad] card_Un_le [of "?bad - ?lost" ?lost] by auto
  ultimately have "2 * nx.wrong syms ?path < dmin"
    using few nx.wrong_card [of ?path ?T syms] by simp
  then have exact: "nx.survivor syms ?T 0 ! (i + 4) = ?path ! (i + 4)" if "i < ?T" for i
    using nx.survivor_exact [OF cert path _ _ that] used by blast
  have "nx.survivor syms ?T 0 ! (j + (?T - n)) = rbit info j" if "j < n" for j
    using exact [of j] that by (simp add: hist_def)
  then show "length (chanDecode conv temp2 chan recvd offset (sent_bits chan) ?T out n) = length out"
    "rbit (chanDecode conv temp2 chan recvd offset (sent_bits chan) ?T out n) j = (if j < n then rbit info j else rbit out j)"
    using l r by simp_all
qed

subsection \<open>The distances of the three codes\<close>

definition sacch_V :: "nat list list" where
  "sacch_V = [
    [0, 5, 3, 3, 3, 3, 3, 3, 2, 5, 3, 3, 3, 4, 2, 3],
    [0, 4, 4, 4, 2, 3, 3, 3, 2, 4, 4, 3, 2, 3, 2, 3],
    [0, 3, 3, 3, 3, 3, 4, 3, 1, 3, 3, 3, 2, 3, 3, 2]]"

definition sacch_W :: "nat list list" where
  "sacch_W = [
    [5, 5, 4, 3, 4, 3, 3, 4, 4, 5, 4, 3, 4, 4, 4, 4],
    [5, 4, 4, 4, 4, 3, 3, 3, 3, 4, 4, 3, 4, 3, 4, 3],
    [5, 4, 4, 3, 5, 3, 4, 3, 5, 3, 3, 3, 4, 4, 4, 4]]"

definition facch1_V :: "nat list list" where
  "facch1_V = [
    [0, 4, 2, 4, 3, 3, 3, 3, 1, 3, 3, 3, 2, 4, 2, 2],
    [0, 3, 4, 3, 2, 3, 4, 3, 2, 3, 4, 3, 2, 3, 2, 3]]"

definition facch1_W :: "nat list list" where
  "facch1_W = [
    [4, 4, 4, 4, 3, 3, 3, 3, 3, 3, 3, 3, 4, 4, 4, 4],
    [4, 5, 4, 3, 4, 3, 4, 3, 4, 5, 4, 3, 4, 3, 4, 3]]"

definition udch_V :: "nat list list" where
  "udch_V = [
    [0, 4, 4, 3, 2, 3, 4, 4, 2, 4, 4, 3, 2, 3, 2, 4],
    [0, 4, 3, 4, 3, 3, 3, 3, 1, 3, 3, 3, 2, 4, 3, 3],
    [0, 4, 4, 3, 3, 3, 4, 3, 2, 4, 4, 3, 3, 3, 3, 3],
    [0, 5, 3, 3, 3, 3, 3, 3, 2, 5, 3, 3, 3, 4, 2, 3],
    [0, 4, 4, 4, 2, 3, 3, 3, 2, 4, 4, 3, 2, 3, 2, 3],
    [0, 3, 3, 3, 3, 4, 4, 3, 1, 4, 3, 3, 2, 3, 3, 2],
    [0, 4, 3, 4, 3, 3, 3, 3, 2, 4, 3, 4, 3, 4, 2, 3]]"

definition udch_W :: "nat list list" where
  "udch_W = [
    [5, 5, 4, 3, 4, 3, 4, 4, 4, 5, 4, 3, 4, 3, 5, 4],
    [5, 4, 4, 4, 4, 3, 3, 3, 4, 3, 3, 3, 5, 4, 4, 4],
    [5, 4, 4, 3, 5, 3, 4, 4, 5, 4, 4, 3, 5, 4, 4, 4],
    [5, 5, 4, 3, 4, 3, 3, 4, 4, 5, 4, 3, 4, 5, 5, 4],
    [5, 4, 5, 4, 5, 3, 3, 3, 3, 4, 5, 3, 5, 3, 4, 3],
    [5, 4, 4, 3, 4, 4, 4, 3, 4, 4, 3, 3, 4, 4, 5, 4],
    [5, 4, 4, 4, 5, 3, 3, 5, 4, 4, 4, 4, 5, 4, 4, 5]]"

lemma sacch_V_rows:
  "sacch_V ! 0 = [0, 5, 3, 3, 3, 3, 3, 3, 2, 5, 3, 3, 3, 4, 2, 3]"
  "sacch_V ! Suc 0 = [0, 4, 4, 4, 2, 3, 3, 3, 2, 4, 4, 3, 2, 3, 2, 3]"
  "sacch_V ! 2 = [0, 3, 3, 3, 3, 3, 4, 3, 1, 3, 3, 3, 2, 3, 3, 2]"
  "sacch_V ! Suc (Suc 0) = [0, 3, 3, 3, 3, 3, 4, 3, 1, 3, 3, 3, 2, 3, 3, 2]"
  by (simp_all add: sacch_V_def)

lemma sacch_W_rows:
  "sacch_W ! 0 = [5, 5, 4, 3, 4, 3, 3, 4, 4, 5, 4, 3, 4, 4, 4, 4]"
  "sacch_W ! Suc 0 = [5, 4, 4, 4, 4, 3, 3, 3, 3, 4, 4, 3, 4, 3, 4, 3]"
  "sacch_W ! 2 = [5, 4, 4, 3, 5, 3, 4, 3, 5, 3, 3, 3, 4, 4, 4, 4]"
  "sacch_W ! Suc (Suc 0) = [5, 4, 4, 3, 5, 3, 4, 3, 5, 3, 3, 3, 4, 4, 4, 4]"
  by (simp_all add: sacch_W_def)

lemma facch1_V_rows:
  "facch1_V ! 0 = [0, 4, 2, 4, 3, 3, 3, 3, 1, 3, 3, 3, 2, 4, 2, 2]"
  "facch1_V ! Suc 0 = [0, 3, 4, 3, 2, 3, 4, 3, 2, 3, 4, 3, 2, 3, 2, 3]"
  by (simp_all add: facch1_V_def)

lemma facch1_W_rows:
  "facch1_W ! 0 = [4, 4, 4, 4, 3, 3, 3, 3, 3, 3, 3, 3, 4, 4, 4, 4]"
  "facch1_W ! Suc 0 = [4, 5, 4, 3, 4, 3, 4, 3, 4, 5, 4, 3, 4, 3, 4, 3]"
  by (simp_all add: facch1_W_def)

lemma udch_V_rows:
  "udch_V ! 0 = [0, 4, 4, 3, 2, 3, 4, 4, 2, 4, 4, 3, 2, 3, 2, 4]"
  "udch_V ! Suc 0 = [0, 4, 3, 4, 3, 3, 3, 3, 1, 3, 3, 3, 2, 4, 3, 3]"
  "udch_V ! 2 = [0, 4, 4, 3, 3, 3, 4, 3, 2, 4, 4, 3, 3, 3, 3, 3]"
  "udch_V ! Suc (Suc 0) = [0, 4, 4, 3, 3, 3, 4, 3, 2, 4, 4, 3, 3, 3, 3, 3]"
  "udch_V ! 3 = [0, 5, 3, 3, 3, 3, 3, 3, 2, 5, 3, 3, 3, 4, 2, 3]"
  "udch_V ! 4 = [0, 4, 4, 4, 2, 3, 3, 3, 2, 4, 4, 3, 2, 3, 2, 3]"
  "udch_V ! 5 = [0, 3, 3, 3, 3, 4, 4, 3, 1, 4, 3, 3, 2, 3, 3, 2]"
  "udch_V ! 6 = [0, 4, 3, 4, 3, 3, 3, 3, 2, 4, 3, 4, 3, 4, 2, 3]"
  by (simp_all add: udch_V_def)

lemma udch_W_rows:
  "udch_W ! 0 = [5, 5, 4, 3, 4, 3, 4, 4, 4, 5, 4, 3, 4, 3, 5, 4]"
  "udch_W ! Suc 0 = [5, 4, 4, 4, 4, 3, 3, 3, 4, 3, 3, 3, 5, 4, 4, 4]"
  "udch_W ! 2 = [5, 4, 4, 3, 5, 3, 4, 4, 5, 4, 4, 3, 5, 4, 4, 4]"
  "udch_W ! Suc (Suc 0) = [5, 4, 4, 3, 5, 3, 4, 4, 5, 4, 4, 3, 5, 4, 4, 4]"
  "udch_W ! 3 = [5, 5, 4, 3, 4, 3, 3, 4, 4, 5, 4, 3, 4, 5, 5, 4]"
  "udch_W ! 4 = [5, 4, 5, 4, 5, 3, 3, 3, 3, 4, 5, 3, 5, 3, 4, 3]"
  "udch_W ! 5 = [5, 4, 4, 3, 4, 4, 4, 3, 4, 4, 3, 3, 4, 4, 5, 4]"
  "udch_W ! 6 = [5, 4, 4, 4, 5, 3, 3, 5, 4, 4, 4, 4, 5, 4, 4, 5]"
  by (simp_all add: udch_W_def)

lemma upt16: "[0..<16] = [0, 1, 2, 3, 4, 5, 6, 7, 8, 9, 10, 11, 12, 13, 14, 15 :: nat]"
  by (simp add: upt_rec)

lemmas cert_eval = cert_state_def step_weight_def conv_g1_def conv_g2_def conv_next_def bit_iff_odd punctured_def

lemma sacch_cert: "cert_ok 3 (\<lambda>p. \<not> punctured 0 p) sacch_V sacch_W 3"
proof -
  have u: "[0..<3] = [0, 1, 2 :: nat]" by (simp add: upt_rec)
  show ?thesis unfolding cert_ok_def upt16 u list.pred_inject by (simp add: cert_eval sacch_V_rows sacch_W_rows)
qed

lemma facch1_cert: "cert_ok 2 (\<lambda>p. \<not> punctured 1 p) facch1_V facch1_W 3"
proof -
  have u: "[0..<2] = [0, 1 :: nat]" by (simp add: upt_rec)
  show ?thesis unfolding cert_ok_def upt16 u list.pred_inject by (simp add: cert_eval facch1_V_rows facch1_W_rows)
qed

lemma udch_cert: "cert_ok 7 (\<lambda>p. \<not> punctured 2 p) udch_V udch_W 3"
proof -
  have u: "[0..<7] = [0, 1, 2, 3, 4, 5, 6 :: nat]" by (simp add: upt_rec)
  show ?thesis unfolding cert_ok_def upt16 u list.pred_inject by (simp add: cert_eval udch_V_rows udch_W_rows)
qed

lemma channel_distances:
  "code_distance (\<lambda>p. \<not> punctured 0 p) (\<lambda>t s. sacch_V ! (t mod 3) ! s) (\<lambda>t s. sacch_W ! (t mod 3) ! s) 3"
  "code_distance (\<lambda>p. \<not> punctured 1 p) (\<lambda>t s. facch1_V ! (t mod 2) ! s) (\<lambda>t s. facch1_W ! (t mod 2) ! s) 3"
  "code_distance (\<lambda>p. \<not> punctured 2 p) (\<lambda>t s. udch_V ! (t mod 7) ! s) (\<lambda>t s. udch_W ! (t mod 7) ! s) 3"
proof -
  note ok = sacch_cert facch1_cert udch_cert
  show "code_distance (\<lambda>p. \<not> punctured 0 p) (\<lambda>t s. sacch_V ! (t mod 3) ! s) (\<lambda>t s. sacch_W ! (t mod 3) ! s) 3"
    by (rule cert_distance [OF ok(1)]) (simp_all add: punctured_def)
  show "code_distance (\<lambda>p. \<not> punctured 1 p) (\<lambda>t s. facch1_V ! (t mod 2) ! s) (\<lambda>t s. facch1_W ! (t mod 2) ! s) 3"
    by (rule cert_distance [OF ok(2)]) (simp_all add: punctured_def)
  show "code_distance (\<lambda>p. \<not> punctured 2 p) (\<lambda>t s. udch_V ! (t mod 7) ! s) (\<lambda>t s. udch_W ! (t mod 7) ! s) 3"
    by (rule cert_distance [OF ok(3)]) (simp_all add: punctured_def)
qed

lemma rank_periods: "rank 0 (6 * q) = 5 * q" "rank 1 (4 * q) = 3 * q" "rank 2 (14 * q) = 12 * q"
proof -
  have add: "rank chan (n + Suc k) = (if punctured chan (n + k) then rank chan (n + k) else Suc (rank chan (n + k)))" for chan n k
    by (simp add: rank_Suc)
  have six: "6 * Suc q = 6 * q + Suc (Suc (Suc (Suc (Suc (Suc 0)))))" for q :: nat by simp
  show "rank 0 (6 * q) = 5 * q" by (induction q) (simp_all only: six add, simp_all add: punctured_def, presburger?)
  have four: "4 * Suc q = 4 * q + Suc (Suc (Suc (Suc 0)))" for q :: nat by simp
  show "rank 1 (4 * q) = 3 * q" by (induction q) (simp_all only: four add, simp_all add: punctured_def, presburger?)
  have fourteen: "14 * Suc q = 14 * q + Suc (Suc (Suc (Suc (Suc (Suc (Suc (Suc (Suc (Suc (Suc (Suc (Suc (Suc 0)))))))))))))" for q :: nat by simp
  show "rank 2 (14 * q) = 12 * q" by (induction q) (simp_all only: fourteen add, simp_all add: punctured_def, presburger?)
qed

lemma channel_ranks: "rank 0 72 = 60" "rank 0 71 = 60" "rank 1 192 = 144" "rank 2 406 = 348"
proof -
  show r: "rank 0 72 = 60" using rank_periods(1) [of 12] by simp
  have "rank 0 (Suc 71) = rank 0 71" unfolding rank_Suc by (simp add: punctured_def)
  then show "rank 0 71 = 60" using r by simp
  show "rank 1 192 = 144" "rank 2 406 = 348" using rank_periods(2) [of 48] rank_periods(3) [of 29] by simp_all
qed

end
