(* ===== verification/NxdnChannels.thy ===== *)
theory NxdnChannels
  imports NxdnMargin
begin

section \<open>The NXDN channels\<close>

text \<open>
  Each channel decodes to what was encoded, with its checksum, when at most one of its bits on the
  air is wrong; encoding changes only the bits of the channel.  The SACCH decoder is one symbol
  short, as its last coded bit is punctured and never put back, and reads an element of a local
  array that it has not written: with one wrong bit that element must be a symbol.
\<close>

subsection \<open>Bit fields and checksums\<close>

lemma putBits_length [simp]: "length (putBits buffer pos v w) = length buffer"
  unfolding putBits_def by (rule fold_length_inv) simp

lemma field_bit: "(drop_bit k v AND 1 \<noteq> 0) = bit (v :: u16) k"
  by (simp add: bit_iff_odd_drop_bit even_iff_mod_2_eq_zero and_one_eq odd_iff_mod_2_eq_one)

lemma putBits_bits:
  assumes "pos + w \<le> 8 * length buffer"
  shows "rbit (putBits buffer pos v w) j = (if pos \<le> j \<and> j < pos + w then bit v (w - 1 - (j - pos)) else rbit buffer j)"
proof (cases "pos \<le> j \<and> j < pos + w")
  case True
  then have j: "j = pos + (j - pos)" "j - pos < w" by auto
  have "rbit (putBits buffer pos v w) (pos + (j - pos)) = bit v (w - 1 - (j - pos))"
    unfolding putBits_def field_bit
    by (rule packed.fold_written [of "\<lambda>i. pos + i"]) (use j assms in \<open>auto simp: distinct_map inj_on_def\<close>)
  then show ?thesis using True j(1) by simp
next
  case False
  then have "rbit (putBits buffer pos v w) j = rbit buffer j"
    unfolding putBits_def by (intro packed.fold_other [of _ "\<lambda>i. pos + i"]) (use assms in auto)
  then show ?thesis using False by auto
qed

lemma getBits_bits: "w \<le> 16 \<Longrightarrow> bit (getBits buffer pos w) k \<longleftrightarrow> k < w \<and> rbit buffer (pos + (w - 1 - k))"
proof (induction w arbitrary: k)
  case 0
  then show ?case by (simp add: getBits_def)
next
  case (Suc w)
  have s: "getBits buffer pos (Suc w) = push_bit 1 (getBits buffer pos w) OR (if rbit buffer (pos + w) then 1 else 0)"
    by (simp add: getBits_def)
  show ?case
  proof (cases k)
    case 0
    then show ?thesis unfolding s bit_or_iff bit_push_bit_iff by auto
  next
    case (Suc i)
    have "\<not> bit (if rbit buffer (pos + w) then 1 else 0 :: u16) k" using Suc by (simp add: bit_1_iff)
    moreover have "bit (push_bit 1 (getBits buffer pos w)) k \<longleftrightarrow> i < w \<and> rbit buffer (pos + (w - 1 - i))"
      using Suc.IH [of i] Suc.prems Suc by (auto simp only: bit_push_bit_iff) auto
    moreover have "w - 1 - i = Suc w - 1 - k" using Suc by simp
    ultimately show ?thesis unfolding s bit_or_iff using Suc by simp
  qed
qed

lemma getBits_putBits:
  assumes "pos + w \<le> 8 * length buffer" "w < 16" "v < 2 ^ w"
  shows "getBits (putBits buffer pos v w) pos w = v"
proof (rule bit_word_eqI)
  fix k
  have "\<not> bit v k" if "w \<le> k" using assms(2,3) word_less_exp_bits [of w v] that by simp
  moreover have "rbit (putBits buffer pos v w) (pos + (w - 1 - k)) = bit v k" if "k < w"
  proof -
    have "pos + (w - 1 - k) < pos + w" "w - 1 - (pos + (w - 1 - k) - pos) = k" using that by linarith+
    then show ?thesis unfolding putBits_bits [OF assms(1)] by (simp only: le_add1 simp_thms if_True)
  qed
  ultimately show "bit (getBits (putBits buffer pos v w) pos w) k = bit v k"
    using assms(2) getBits_bits [of w "putBits buffer pos v w" pos k] by (cases "k < w") simp_all
qed

lemma getBits_cong: "(\<And>i. i < w \<Longrightarrow> rbit p (pos + i) = rbit q (pos + i)) \<Longrightarrow> getBits p pos w = getBits q pos w"
  unfolding getBits_def by (rule fold_upt_cong) simp

lemma crc_cong:
  assumes "\<And>i. i < n \<Longrightarrow> rbit p i = rbit q i"
  shows "nxdnCrc6 p n = nxdnCrc6 q n" "nxdnCrc12 p n = nxdnCrc12 q n" "nxdnCrc15 p n = nxdnCrc15 q n"
  unfolding nxdnCrc6_def nxdnCrc12_def nxdnCrc15_def
  by (intro arg_cong [of _ _ "\<lambda>x. x AND _"] fold_upt_cong; simp add: assms Let_def)+

lemma masked_less: "(w AND 0x3F :: u8) < 64" "(v AND 0xFFF :: u16) < 4096" "(v AND 0x7FFF :: u16) < 32768"
  using word_and_le1 [of w "0x3F"] word_and_le1 [of v "0xFFF"] word_and_le1 [of v "0x7FFF"]
  by (simp_all add: word_le_nat_alt word_less_nat_alt)

lemma crc_less: "nxdnCrc6 p n < 64" "nxdnCrc12 p n < 4096" "nxdnCrc15 p n < 32768"
  unfolding nxdnCrc6_def nxdnCrc12_def nxdnCrc15_def by (rule masked_less)+

lemma crc6_wide: "(ucast (nxdnCrc6 p n) :: u16) < 2 ^ 6"
proof -
  have "unat (nxdnCrc6 p n) < 2 ^ LENGTH(16)" by (rule order.strict_trans2 [OF unsigned_less]) simp
  then have "unat (ucast (nxdnCrc6 p n) :: u16) = unat (nxdnCrc6 p n)" by (simp only: unsigned_ucast_eq take_bit_nat_eq_self)
  then show ?thesis using crc_less(1) [of p n] by (simp add: word_less_nat_alt)
qed

lemma crc_checks:
  assumes "n + 6 \<le> 8 * length p"
  shows "checkCrc6 (putBits p n (ucast (nxdnCrc6 p n)) 6) n"
proof -
  have "nxdnCrc6 (putBits p n (ucast (nxdnCrc6 p n)) 6) n = nxdnCrc6 p n"
    by (rule crc_cong) (simp add: putBits_bits [OF assms])
  then show ?thesis unfolding checkCrc6_def by (simp add: getBits_putBits [OF assms _ crc6_wide])
qed

lemma crc12_checks:
  assumes "n + 12 \<le> 8 * length p"
  shows "checkCrc12 (putBits p n (nxdnCrc12 p n) 12) n"
proof -
  have "nxdnCrc12 (putBits p n (nxdnCrc12 p n) 12) n = nxdnCrc12 p n"
    by (rule crc_cong) (simp add: putBits_bits [OF assms])
  moreover have "nxdnCrc12 p n < 2 ^ 12" using crc_less(2) by simp
  ultimately show ?thesis unfolding checkCrc12_def by (simp add: getBits_putBits [OF assms])
qed

lemma crc15_checks:
  assumes "n + 15 \<le> 8 * length p"
  shows "checkCrc15 (putBits p n (nxdnCrc15 p n) 15) n"
proof -
  have "nxdnCrc15 (putBits p n (nxdnCrc15 p n) 15) n = nxdnCrc15 p n"
    by (rule crc_cong) (simp add: putBits_bits [OF assms])
  moreover have "nxdnCrc15 p n < 2 ^ 15" using crc_less(3) by simp
  ultimately show ?thesis unfolding checkCrc15_def by (simp add: getBits_putBits [OF assms])
qed

text \<open>Bytes copied into the start of a cleared buffer.\<close>

lemma rbit_zeros: "\<not> rbit (replicate n 0) i" if "i < 8 * n"
proof -
  have "i div 8 < n" using that by simp
  then show ?thesis by (simp add: rbit_bit)
qed

lemma rbit_append: "rbit (p @ q) i = (if i < 8 * length p then rbit p i else rbit q (i - 8 * length p))"
proof (cases "i < 8 * length p")
  case True
  then have "i div 8 < length p" by (simp add: less_mult_imp_div_less mult.commute)
  then show ?thesis using True by (simp add: rbit_bit nth_append)
next
  case False
  then obtain k where "i = 8 * length p + k" using le_Suc_ex not_less by blast
  then show ?thesis by (simp add: rbit_bit nth_append)
qed

lemma rbit_take: "i < 8 * n \<Longrightarrow> rbit (take n p) i = rbit p i"
proof -
  assume "i < 8 * n"
  then have "i div 8 < n" by (simp add: less_mult_imp_div_less mult.commute)
  then show ?thesis by (simp add: rbit_bit)
qed

subsection \<open>FACCH1\<close>

lemma facch1_info:
  assumes "length facch10 = 10"
  shows "length (nxdnFacch1GetRaw facch10 (replicate 12 0)) = 12"
    and "take 10 facch10 @ drop 10 (replicate 12 0) = facch10 @ [0, 0]"
    and "nxdnFacch1GetRaw facch10 (replicate 12 0) = putBits (facch10 @ [0, 0]) 80 (nxdnCrc12 (facch10 @ [0, 0]) 80) 12"
    and "92 \<le> i \<Longrightarrow> i < 96 \<Longrightarrow> \<not> rbit (nxdnFacch1GetRaw facch10 (replicate 12 0)) i"
proof -
  show e: "take 10 facch10 @ drop 10 (replicate 12 0) = facch10 @ [0, 0]"
    using assms by (simp add: numeral_eq_Suc)
  show r: "nxdnFacch1GetRaw facch10 (replicate 12 0) = putBits (facch10 @ [0, 0]) 80 (nxdnCrc12 (facch10 @ [0, 0]) 80) 12"
    unfolding nxdnFacch1GetRaw_def Let_def using e by simp
  then show "length (nxdnFacch1GetRaw facch10 (replicate 12 0)) = 12" using assms by simp
  assume i: "92 \<le> i" "i < 96"
  have "\<not> rbit (facch10 @ [0, 0]) i"
    using rbit_zeros [of "i - 80" 2] i assms by (simp add: rbit_append numeral_2_eq_2)
  then show "\<not> rbit (nxdnFacch1GetRaw facch10 (replicate 12 0)) i"
    unfolding r using i assms by (simp add: putBits_bits)
qed

lemma facch1_recovers:
  assumes conv: "length (decisions conv) = 300" "length temp2 = 430"
    and len: "length facch10 = 10" "length facch = 12" and frame: "length frame = 48" "offset + 144 \<le> 384"
    and few: "wrong_bits (nxdnFacch1Encode facch10 frame offset) recvd [offset..<offset + 144] \<le> 1"
  shows "nxdnFacch1Decode conv temp2 recvd offset facch = (True, nxdnFacch1GetRaw facch10 (replicate 12 0))"
proof -
  let ?info = "nxdnFacch1GetRaw facch10 (replicate 12 0)" and ?out = "replicate 12 0 :: bytes"
  note info = facch1_info [OF len(1)]
  have s: "sent_bits 1 = 144" by (simp add: sent_bits_def)
  have enc: "nxdnFacch1Encode facch10 frame offset = chanEncode 1 ?info 96 (2 * 96) frame offset"
    unfolding nxdnFacch1Encode_def Let_def info(2) info(3) [symmetric] by simp
  have lost: "{p. 192 \<le> p \<and> p < (192 :: nat) \<and> Q p} = {}" for Q by auto
  have np: "\<not> punctured 1 (192 - 1)" by (simp add: punctured_def)
  note r = channel_recovers [OF conv, of 96 1 192 _ _ 3 offset frame ?info recvd ?out, unfolded s, OF _ _ _ _ _ np _ _ channel_distances(2)]
  have "length (chanDecode conv temp2 1 recvd offset 144 (96 + 4) ?out 96) = length ?out"
    by (rule r(1)) (use few frame channel_ranks info(4) in \<open>simp_all add: enc lost\<close>)
  moreover have "rbit (chanDecode conv temp2 1 recvd offset 144 (96 + 4) ?out 96) j = (if j < 96 then rbit ?info j else rbit ?out j)" for j
    by (rule r(2)) (use few frame channel_ranks info(4) in \<open>simp_all add: enc lost\<close>)
  ultimately have "chanDecode conv temp2 1 recvd offset 144 (96 + 4) ?out 96 = ?info"
    by (intro rbit_inject) (simp_all add: info(1))
  then show ?thesis
    using crc12_checks [of 80 "facch10 @ [0, 0]"] len info
    unfolding nxdnFacch1Decode_def Let_def NXDN_FACCH1_LENGTH_BITS_def by simp
qed

subsection \<open>UDCH\<close>

definition udch_info :: "bytes \<Rightarrow> bytes" where
  "udch_info udch23 = putBits (udch23 @ [0, 0, 0]) 184 (nxdnCrc15 (udch23 @ [0, 0, 0]) 184) 15"

lemma udch_recovers:
  assumes conv: "length (decisions conv) = 300" "length temp2 = 430"
    and len: "length udch23 = 23" "length udch = 25" and frame: "length frame = 48"
    and few: "wrong_bits (nxdnUdchEncode udch23 frame) recvd [36..<384] \<le> 1"
  shows "nxdnUdchDecode conv temp2 recvd udch = (True, take 25 (udch_info udch23))"
proof -
  let ?info = "udch_info udch23" and ?out = "replicate 26 0 :: bytes"
  have e: "take 23 udch23 @ drop 23 (replicate 26 0) = udch23 @ [0, 0, 0]" using len(1) by (simp add: numeral_eq_Suc)
  have l: "length ?info = 26" using len(1) by (simp add: udch_info_def)
  have zero: "\<not> rbit ?info i" if "199 \<le> i" "i < 208" for i
  proof -
    have "\<not> rbit (udch23 @ [0, 0, 0]) i"
      using rbit_zeros [of "i - 184" 3] that len(1) by (simp add: rbit_append numeral_3_eq_3)
    then show ?thesis unfolding udch_info_def using that len(1) by (simp add: putBits_bits)
  qed
  have s: "sent_bits 2 = 348" by (simp add: sent_bits_def)
  have enc: "nxdnUdchEncode udch23 frame = chanEncode 2 ?info 203 (2 * 203) frame 36"
    unfolding nxdnUdchEncode_def Let_def e udch_info_def nxdn_lengths by simp
  have lost: "{p. 406 \<le> p \<and> p < (406 :: nat) \<and> Q p} = {}" for Q by auto
  have np: "\<not> punctured 2 (406 - 1)" by (simp add: punctured_def)
  note r = channel_recovers [OF conv, of 203 2 406 _ _ 3 36 frame ?info recvd ?out, unfolded s, OF _ _ _ _ _ np _ _ channel_distances(3)]
  have "length (chanDecode conv temp2 2 recvd 36 348 (203 + 4) ?out 203) = length ?out"
    by (rule r(1)) (use few frame channel_ranks zero in \<open>simp_all add: enc lost del: upt_rec_numeral\<close>)
  moreover have "rbit (chanDecode conv temp2 2 recvd 36 348 (203 + 4) ?out 203) j = (if j < 203 then rbit ?info j else rbit ?out j)" for j
    by (rule r(2)) (use few frame channel_ranks zero in \<open>simp_all add: enc lost del: upt_rec_numeral\<close>)
  ultimately have d: "chanDecode conv temp2 2 recvd 36 348 (203 + 4) ?out 203 = ?info"
    by (intro rbit_inject) (use zero rbit_zeros [of _ 26] in \<open>simp_all add: l\<close>)
  have "nxdnCrc15 (take 25 ?info) 184 = nxdnCrc15 ?info 184" "getBits (take 25 ?info) 184 15 = getBits ?info 184 15"
    by (intro crc_cong getBits_cong; simp add: rbit_take)+
  then have "checkCrc15 (take 25 ?info) 184 = checkCrc15 ?info 184" by (simp add: checkCrc15_def)
  moreover have "checkCrc15 ?info 184" unfolding udch_info_def by (rule crc15_checks) (simp add: len(1))
  ultimately show ?thesis
    unfolding nxdnUdchDecode_def Let_def nxdn_lengths using d len(2) by simp
qed

subsection \<open>SACCH\<close>

definition sacch_info :: "bytes \<Rightarrow> bytes" where
  "sacch_info sacch =
     (let temp1 = fold (\<lambda>i temp1. WRITE_BIT temp1 i (rbit sacch i)) [0..<26] (replicate 5 0)
      in putBits temp1 26 (ucast (nxdnCrc6 temp1 26)) 6)"

lemma sacch_info_bits:
  shows "length (sacch_info sacch) = 5"
    and "j < 26 \<Longrightarrow> rbit (sacch_info sacch) j = rbit sacch j"
    and "26 \<le> j \<Longrightarrow> j < 32 \<Longrightarrow> rbit (sacch_info sacch) j = bit (nxdnCrc6 sacch 26) (5 - (j - 26))"
    and "32 \<le> j \<Longrightarrow> j < 40 \<Longrightarrow> \<not> rbit (sacch_info sacch) j"
    and "checkCrc6 (sacch_info sacch) 26"
proof -
  let ?t = "fold (\<lambda>i temp1. WRITE_BIT temp1 i (rbit sacch i)) [0..<26] (replicate 5 0)"
  have l: "length ?t = 5" by (subst fold_length_inv) simp_all
  have in26: "rbit ?t j = rbit sacch j" if "j < 26" for j
    by (rule packed.fold_written [of "\<lambda>i. i"]) (use that in \<open>auto simp: distinct_map\<close>)
  have out26: "\<not> rbit ?t j" if "26 \<le> j" "j < 40" for j
  proof -
    have "rbit ?t j = rbit (replicate 5 0) j" by (rule packed.fold_other [of _ "\<lambda>i. i"]) (use that in auto)
    then show ?thesis using rbit_zeros [of j 5] that by simp
  qed
  have crc: "nxdnCrc6 ?t 26 = nxdnCrc6 sacch 26" by (rule crc_cong) (rule in26)
  have i: "sacch_info sacch = putBits ?t 26 (ucast (nxdnCrc6 ?t 26)) 6" by (simp add: sacch_info_def Let_def)
  show "length (sacch_info sacch) = 5" unfolding i by (simp add: l)
  note p = putBits_bits [of 26 6 ?t, unfolded l]
  show "j < 26 \<Longrightarrow> rbit (sacch_info sacch) j = rbit sacch j" unfolding i by (simp add: p in26)
  show "26 \<le> j \<Longrightarrow> j < 32 \<Longrightarrow> rbit (sacch_info sacch) j = bit (nxdnCrc6 sacch 26) (5 - (j - 26))"
  proof -
    assume j: "26 \<le> j" "j < 32"
    then have "5 - (j - 26) < 16" by linarith
    then show "rbit (sacch_info sacch) j = bit (nxdnCrc6 sacch 26) (5 - (j - 26))"
      unfolding i using j by (simp add: p crc bit_ucast_iff del: diff_diff_left diff_diff_right)
  qed
  show "32 \<le> j \<Longrightarrow> j < 40 \<Longrightarrow> \<not> rbit (sacch_info sacch) j" unfolding i by (simp add: p out26)
  show "checkCrc6 (sacch_info sacch) 26" unfolding i by (rule crc_checks) (simp add: l)
qed

lemma sacch_recovers:
  assumes conv: "length (decisions conv) = 300" "length temp2 = 430" and len: "length out5 = 5" and frame: "length frame = 48"
    and few: "wrong_bits (nxdnSacchEncode sacch frame) recvd [36..<96] \<le> 1"
    and junk: "wrong_bits (nxdnSacchEncode sacch frame) recvd [36..<96] = 0 \<or> temp2 ! 79 \<le> 2"
  shows "\<exists>sacch'. nxdnSacchDecode conv temp2 recvd out5 = (True, sacch') \<and> length sacch' = 5 \<and>
    (\<forall>j<32. rbit sacch' j = rbit (sacch_info sacch) j)"
proof -
  let ?info = "sacch_info sacch" and ?out = "replicate 8 0 :: bytes"
  let ?dec = "chanDecode conv temp2 0 recvd 36 60 40 ?out 36"
  have enc: "nxdnSacchEncode sacch frame = chanEncode 0 ?info 36 (2 * 36) frame 36"
    unfolding nxdnSacchEncode_def sacch_info_def Let_def nxdn_lengths by simp
  have f: "96 \<le> 8 * length frame" "36 \<le> 8 * length ?out" using frame by simp_all
  have tail: "\<not> rbit ?info i" if "32 \<le> i" "i < 36" for i by (rule sacch_info_bits(4)) (use that in simp_all)
  note r = sacch_data_decoded [OF conv f(1) tail f(2) few [unfolded enc] junk [unfolded enc]]
  have l: "length (take 5 ?dec) = 5" using r(1) by simp
  have b: "rbit (take 5 ?dec) j = rbit ?info j" if "j < 32" for j using r(2) that by (simp add: rbit_take)
  have "nxdnCrc6 (take 5 ?dec) 26 = nxdnCrc6 ?info 26" "getBits (take 5 ?dec) 26 6 = getBits ?info 26 6"
    by (intro crc_cong getBits_cong; simp add: b)+
  then have "checkCrc6 (take 5 ?dec) 26" using sacch_info_bits(5) [of sacch] by (simp add: checkCrc6_def)
  then have "nxdnSacchDecode conv temp2 recvd out5 = (True, take 5 ?dec)"
    unfolding nxdnSacchDecode_def Let_def nxdn_lengths using len by simp
  then show ?thesis using l b by blast
qed

subsection \<open>What an encoder leaves alone\<close>

lemma encoders_frame:
  assumes "length frame = 48"
  shows "length (nxdnSacchEncode sacch frame) = 48" "length (nxdnUdchEncode udch23 frame) = 48"
    and "offset + 144 \<le> 384 \<Longrightarrow> length (nxdnFacch1Encode facch10 frame offset) = 48"
    and "j < 36 \<or> 96 \<le> j \<Longrightarrow> rbit (nxdnSacchEncode sacch frame) j = rbit frame j"
    and "j < 36 \<or> 384 \<le> j \<Longrightarrow> rbit (nxdnUdchEncode udch23 frame) j = rbit frame j"
    and "offset + 144 \<le> 384 \<Longrightarrow> j < offset \<or> offset + 144 \<le> j \<Longrightarrow> rbit (nxdnFacch1Encode facch10 frame offset) j = rbit frame j"
proof -
  have s: "sent_bits 0 = 60" "sent_bits 1 = 144" "sent_bits 2 = 348" by (simp_all add: sent_bits_def)
  have sacch: "\<exists>info. nxdnSacchEncode sacch frame = chanEncode 0 info 36 (2 * 36) frame 36"
    unfolding nxdnSacchEncode_def Let_def nxdn_lengths by auto
  have udch: "\<exists>info. nxdnUdchEncode udch23 frame = chanEncode 2 info 203 (2 * 203) frame 36"
    unfolding nxdnUdchEncode_def Let_def nxdn_lengths by auto
  have facch: "\<exists>info. nxdnFacch1Encode facch10 frame offset = chanEncode 1 info 96 (2 * 96) frame offset"
    unfolding nxdnFacch1Encode_def Let_def by auto
  note c0 = chanEncode_bits(1,3) [of 36 0 36 frame, unfolded s] and c2 = chanEncode_bits(1,3) [of 203 2 36 frame, unfolded s]
  note c1 = chanEncode_bits(1,3) [of 96 1 offset frame, unfolded s]
  show "length (nxdnSacchEncode sacch frame) = 48" using sacch c0(1) channel_ranks(1) assms by auto
  show "length (nxdnUdchEncode udch23 frame) = 48" using udch c2(1) channel_ranks(4) assms by auto
  show "length (nxdnFacch1Encode facch10 frame offset) = 48" if "offset + 144 \<le> 384"
    using facch c1(1) channel_ranks(3) assms that by auto
  show "rbit (nxdnSacchEncode sacch frame) j = rbit frame j" if "j < 36 \<or> 96 \<le> j"
    using sacch c0(2) [of j] channel_ranks(1) assms that by auto
  show "rbit (nxdnUdchEncode udch23 frame) j = rbit frame j" if "j < 36 \<or> 384 \<le> j"
    using udch c2(2) [of j] channel_ranks(4) assms that by auto
  show "rbit (nxdnFacch1Encode facch10 frame offset) j = rbit frame j" if "offset + 144 \<le> 384" "j < offset \<or> offset + 144 \<le> j"
    using facch c1(2) [of j] channel_ranks(3) assms that by auto
qed

subsection \<open>LICH, sync and scrambling\<close>

definition lich_sent :: "u8 \<Rightarrow> u8" where
  "lich_sent lich = (if nxdnLichParity lich \<noteq> 0 then lich OR 0x01 else lich AND 0xFE)"

lemma lich_parity_cong: "(\<And>k. 4 \<le> k \<Longrightarrow> bit a k = bit b k) \<Longrightarrow> nxdnLichParity a = nxdnLichParity b"
proof -
  assume eq: "\<And>k. 4 \<le> k \<Longrightarrow> bit a k = bit b k"
  have m: "bit (0xF0 :: u8) k \<longleftrightarrow> 4 \<le> k \<and> k < 8" for k
  proof (cases "k < 8")
    case True
    then show ?thesis unfolding less8_iff by (elim insertE emptyE) simp_all
  next
    case False
    then show ?thesis by (auto dest: bit_imp_le_length)
  qed
  have "a AND 0xF0 = b AND 0xF0"
  proof (rule bit_word_eqI)
    fix k show "bit (a AND 0xF0) k = bit (b AND 0xF0) k" unfolding bit_and_iff m using eq by auto
  qed
  then show ?thesis by (simp add: nxdnLichParity_def)
qed

lemma low_mask_bits: "bit (1 :: u8) k \<longleftrightarrow> k = 0" "bit (0xFE :: u8) k \<longleftrightarrow> 0 < k \<and> k < 8"
proof -
  show "bit (1 :: u8) k \<longleftrightarrow> k = 0" by (simp add: bit_1_iff)
  show "bit (0xFE :: u8) k \<longleftrightarrow> 0 < k \<and> k < 8"
  proof (cases "k < 8")
    case True
    then show ?thesis unfolding less8_iff by (elim insertE emptyE) simp_all
  next
    case False
    then show ?thesis by (auto dest: bit_imp_le_length)
  qed
qed

lemma lich_sent_bits:
  "bit (lich_sent lich) k = (if k = 0 then nxdnLichParity lich \<noteq> 0 else bit lich k)"
proof -
  have "bit lich k \<Longrightarrow> k < 8" using bit_imp_le_length [of lich k] by simp
  then show ?thesis unfolding lich_sent_def if_distrib [of "\<lambda>w. bit w k"] bit_or_iff bit_and_iff low_mask_bits by auto
qed

lemma lich_sent_parity: "lich_sent lich AND 1 = nxdnLichParity (lich_sent lich)"
proof -
  have "nxdnLichParity (lich_sent lich) = nxdnLichParity lich"
    by (rule lich_parity_cong) (simp add: lich_sent_bits)
  moreover have "nxdnLichParity lich = of_bool (nxdnLichParity lich \<noteq> 0)"
    by (simp add: nxdnLichParity_def Let_def)
  moreover have "lich_sent lich AND 1 = of_bool (nxdnLichParity lich \<noteq> 0)"
    by (rule bit_word_eqI) (auto simp: bit_and_iff low_mask_bits lich_sent_bits bit_of_bool_iff)
  ultimately show ?thesis by metis
qed

definition lich_loop :: "u8 \<Rightarrow> nat \<Rightarrow> nat \<times> bytes \<Rightarrow> nat \<times> bytes" where
  "lich_loop lich = (\<lambda>i (offset, frame).
     let frame = WRITE_BIT frame offset (rbit [lich] i);
         offset = offset + 1;
         frame = WRITE_BIT frame offset True
     in (offset + 1, frame))"

lemma lich_fold:
  assumes "5 \<le> length frame" "m \<le> 8"
  shows "\<exists>f. fold (lich_loop lich) [0..<m] (20, frame) = (20 + 2 * m, f) \<and> length f = length frame \<and>
    (\<forall>j. rbit f j = (if 20 \<le> j \<and> j < 20 + 2 * m then (odd j \<or> rbit [lich] ((j - 20) div 2)) else rbit frame j))"
  using assms(2)
proof (induction m)
  case 0
  show ?case by auto
next
  case (Suc m)
  then obtain f where f: "fold (lich_loop lich) [0..<m] (20, frame) = (20 + 2 * m, f)" "length f = length frame"
      "\<And>j. rbit f j = (if 20 \<le> j \<and> j < 20 + 2 * m then (odd j \<or> rbit [lich] ((j - 20) div 2)) else rbit frame j)" by auto
  let ?f1 = "WRITE_BIT f (20 + 2 * m) (rbit [lich] m)"
  let ?f2 = "WRITE_BIT ?f1 (20 + 2 * m + 1) True"
  have l: "20 + 2 * m < 8 * length f" "20 + 2 * m + 1 < 8 * length ?f1" using Suc.prems assms(1) f(2) by simp_all
  have "fold (lich_loop lich) [0..<Suc m] (20, frame) = (20 + 2 * Suc m, ?f2)"
    unfolding fold_upt_Suc f(1) by (simp add: lich_loop_def Let_def)
  moreover have "rbit ?f2 j = (if 20 \<le> j \<and> j < 20 + 2 * Suc m then (odd j \<or> rbit [lich] ((j - 20) div 2)) else rbit frame j)" for j
  proof -
    have "j < 20 \<or> 20 \<le> j \<and> j < 20 + 2 * m \<or> j = 20 + 2 * m \<or> j = 20 + 2 * m + 1 \<or> 20 + 2 * Suc m \<le> j" by (simp, linarith)
    then show ?thesis unfolding rbit_WRITE_BIT [OF l(2)] rbit_WRITE_BIT [OF l(1)] f(3) by (elim disjE) auto
  qed
  ultimately show ?case using f(2) by auto
qed

lemma lich_encoded:
  assumes "length frame = 48"
  shows "length (nxdnLichEncode lich frame) = 48"
    and "rbit (nxdnLichEncode lich frame) j =
      (if 20 \<le> j \<and> j < 36 then odd j \<or> rbit [lich_sent lich] ((j - 20) div 2) else rbit frame j)"
proof -
  obtain f where f: "fold (lich_loop (lich_sent lich)) [0..<8] (20, frame) = (20 + 2 * 8, f)" "length f = length frame"
      "\<And>j. rbit f j = (if 20 \<le> j \<and> j < 20 + 2 * 8 then (odd j \<or> rbit [lich_sent lich] ((j - 20) div 2)) else rbit frame j)"
    using lich_fold [of frame 8 "lich_sent lich"] assms by auto
  have eight: "NXDN_LICH_LENGTH_BITS div 2 = 8" by (simp add: nxdn_lengths)
  have "nxdnLichEncode lich frame = f"
    unfolding nxdnLichEncode_def Let_def lich_sent_def [symmetric] lich_loop_def [unfolded Let_def, symmetric] eight
      NXDN_FSW_LENGTH_BITS_def f(1) by simp
  then show "length (nxdnLichEncode lich frame) = 48"
    "rbit (nxdnLichEncode lich frame) j = (if 20 \<le> j \<and> j < 36 then odd j \<or> rbit [lich_sent lich] ((j - 20) div 2) else rbit frame j)"
    using f(2,3) assms by simp_all
qed

lemma lich_decoded:
  assumes "\<And>i. i < 8 \<Longrightarrow> rbit frame (20 + 2 * i) = rbit [l] i"
  shows "nxdnLichDecode frame = (l AND 1 = nxdnLichParity l, l)"
proof -
  let ?f = "\<lambda>i (l, offset). (if rbit frame offset then l OR BIT_MASK_TABLE ! i else l, offset + 2)"
  have "m \<le> 8 \<Longrightarrow> \<exists>w. fold ?f [0..<m] (0, 20) = (w, 20 + 2 * m) \<and> (\<forall>k<8. bit w k = (8 - m \<le> k \<and> bit l k))" for m
  proof (induction m)
    case 0
    then show ?case by auto
  next
    case (Suc m)
    then obtain w where w: "fold ?f [0..<m] (0, 20) = (w, 20 + 2 * m)" "\<forall>k<8. bit w k = (8 - m \<le> k \<and> bit l k)" by auto
    have m: "m < 8" using Suc.prems by simp
    have r: "rbit frame (20 + 2 * m) = bit l (7 - m)" using assms [OF m] m by (simp add: rbit_bit)
    let ?w = "if bit l (7 - m) then w OR BIT_MASK_TABLE ! m else w"
    have bm: "bit (BIT_MASK_TABLE ! m) k = (k = 7 - m)" if "k < 8" for k
      unfolding mask_table_bit [OF m] bit_push_bit_iff bit_1_iff using that by auto
    have "fold ?f [0..<Suc m] (0, 20) = (?w, 20 + 2 * Suc m)" unfolding fold_upt_Suc w(1) by (simp add: r)
    moreover have "bit ?w k = (8 - Suc m \<le> k \<and> bit l k)" if "k < 8" for k
    proof -
      have "8 - Suc m \<le> k \<longleftrightarrow> 8 - m \<le> k \<or> k = 7 - m" using m that by auto
      then show ?thesis using w(2) that m by (auto simp: bm bit_or_iff)
    qed
    ultimately show ?case by blast
  qed
  from this [of 8] obtain w where w: "fold ?f [0..<8] (0, 20) = (w, 36)" "\<forall>k<8. bit w k = bit l k"
    by (auto simp del: upt_Suc upt_rec_numeral fold_upt_Suc)
  then have "w = l" by (intro bit_word_eqI) simp
  moreover have "NXDN_LICH_LENGTH_BITS div 2 = 8" by (simp add: nxdn_lengths)
  ultimately show ?thesis
    unfolding nxdnLichDecode_def Let_def NXDN_FSW_LENGTH_BITS_def using w(1) by simp
qed

lemma scramble_nth:
  "length frame = 48 \<Longrightarrow> length (nxdnScramble frame) = 48 \<and> (\<forall>i<48. nxdnScramble frame ! i = frame ! i XOR SCRAMBLER ! i)"
proof -
  assume len: "length frame = 48"
  have "m \<le> 48 \<Longrightarrow> length (fold (\<lambda>i frame. frame[i := frame ! i XOR SCRAMBLER ! i]) [0..<m] frame) = 48 \<and>
    (\<forall>i<48. fold (\<lambda>i frame. frame[i := frame ! i XOR SCRAMBLER ! i]) [0..<m] frame ! i = (if i < m then frame ! i XOR SCRAMBLER ! i else frame ! i))" for m
    by (induction m) (auto simp: len nth_list_update less_Suc_eq)
  from this [of 48] show ?thesis unfolding nxdnScramble_def NXDN_FRAME_LENGTH_BYTES_def by simp
qed

lemma scramble_twice: "length frame = 48 \<Longrightarrow> nxdnScramble (nxdnScramble frame) = frame"
  by (rule nth_equalityI) (simp_all add: scramble_nth xor.assoc)

lemma sync_bytes: "3 \<le> length frame \<Longrightarrow> nxdnAddSync frame = frame[0 := 0xCD, 1 := 0xF5, 2 := (frame ! 2 AND 0x0F) OR 0x90]"
proof -
  have m: "(- 256 :: u8) = 0" "(- 241 :: u8) = 15" by simp_all
  have u: "[0..<3] = [0, 1, 2 :: nat]" by (simp add: upt_rec)
  assume "3 \<le> length frame"
  then show ?thesis unfolding nxdnAddSync_def FSW_BYTES_def FSW_BYTES_MASK_def u by (simp add: m numeral_2_eq_2)
qed

lemma sync_added:
  assumes "3 \<le> length frame"
  shows "length (nxdnAddSync frame) = length frame" "20 \<le> j \<Longrightarrow> rbit (nxdnAddSync frame) j = rbit frame j"
proof -
  have e: "nxdnAddSync frame = frame[0 := 0xCD, 1 := 0xF5, 2 := (frame ! 2 AND 0x0F) OR 0x90]"
    by (rule sync_bytes) (rule assms)
  show "length (nxdnAddSync frame) = length frame" unfolding e by simp
  show "rbit (nxdnAddSync frame) j = rbit frame j" if "20 \<le> j"
  proof (cases "j < 24")
    case True
    then have "j \<in> {20, 21, 22, 23}" using that by auto
    then show ?thesis using assms unfolding e rbit_bit by (elim insertE emptyE) (simp_all add: bit_or_iff bit_and_iff)
  next
    case False
    then have "j div 8 \<noteq> 0" "j div 8 \<noteq> 1" "j div 8 \<noteq> 2" by auto
    then show ?thesis unfolding e rbit_bit by simp
  qed
qed

lemma sync_found:
  assumes "3 \<le> length f" "\<And>j. j < 20 \<Longrightarrow> rbit f j = rbit (nxdnAddSync frame) j" "3 \<le> length frame"
  shows "nxdnHasSync f"
proof -
  have e: "nxdnAddSync frame = frame[0 := 0xCD, 1 := 0xF5, 2 := (frame ! 2 AND 0x0F) OR 0x90]"
    by (rule sync_bytes) (rule assms(3))
  have b: "bit (f ! i) k = bit (nxdnAddSync frame ! i) k" if "i < 3" "k < 8" "8 * i + (7 - k) < 20" for i k
  proof -
    have "7 - k < 8" "7 - (7 - k) = k" using that(2) by simp_all
    then have "(8 * i + (7 - k)) div 8 = i" "7 - (8 * i + (7 - k)) mod 8 = k" 
      by (simp_all only: mod_mult_self4 mod_less div_mult_self4 div_less add_0_right)
    with assms(2) [OF that(3)] show ?thesis unfolding rbit_bit by (simp only:)
  qed
  have "0 < length frame" "frame \<noteq> []" using assms(3) by auto
  then have "f ! 0 = 0xCD" by (intro bit_word_eqI) (use b [of 0] in \<open>simp add: e\<close>)
  moreover have "f ! 1 = 0xF5" by (rule bit_word_eqI) (use b [of 1] assms(3) in \<open>simp add: e\<close>)
  moreover have "f ! 2 AND 0xF0 = 0x90"
  proof (rule bit_word_eqI)
    fix k assume "k < LENGTH(8)"
    then have "k \<in> {0, 1, 2, 3, 4, 5, 6, 7}" by (simp add: less8_iff)
    then show "bit (f ! 2 AND 0xF0) k = bit (0x90 :: u8) k"
      using b [of 2 k] assms(3) by (elim insertE emptyE) (simp_all add: e bit_and_iff bit_or_iff)
  qed
  ultimately show ?thesis by (simp add: nxdnHasSync_def FSW_BYTES_def FSW_BYTES_MASK_def numeral_eq_Suc)
qed

subsection \<open>The properties\<close>

lemma wrong_bits_flip: "distinct pos \<Longrightarrow> i < 8 * length p \<Longrightarrow> wrong_bits p (WRITE_BIT p i b) pos \<le> 1"
proof -
  assume d: "distinct pos" and i: "i < 8 * length p"
  have "set (filter (\<lambda>j. rbit p j \<noteq> rbit (WRITE_BIT p i b) j) pos) \<subseteq> {i}"
    using i by (auto simp: rbit_WRITE_BIT)
  then have "card (set (filter (\<lambda>j. rbit p j \<noteq> rbit (WRITE_BIT p i b) j) pos)) \<le> card {i}" by (intro card_mono) simp_all
  moreover have "distinct (filter (\<lambda>j. rbit p j \<noteq> rbit (WRITE_BIT p i b) j) pos)" using d by (rule distinct_filter)
  ultimately show ?thesis unfolding wrong_bits_def using distinct_card by fastforce
qed

lemma wrong_bits_refl: "(\<And>i. i \<in> set pos \<Longrightarrow> rbit p i = rbit q i) \<Longrightarrow> wrong_bits p q pos = 0"
  by (simp add: wrong_bits_def filter_False)

definition idle_conv :: Conv where
  "idle_conv = \<lparr>oldMetrics = replicate 16 0, newMetrics = replicate 16 0, decisions = replicate 300 0, dp = 0\<rparr>"

lemma idle_conv_length: "length (decisions idle_conv) = 300"
  by (simp add: idle_conv_def)

text \<open>C12: after up to 300 steps the bits that \<open>convChainback\<close> returns belong to a path of the code that
  ends in state 0 and costs no more than any other: the decoder is a maximum likelihood decoder.\<close>

theorem nxdn_viterbi_optimal:
  assumes "length (decisions conv) = 300" "T \<le> 300" "\<forall>i<2 * T. syms ! i \<le> 2" "nBits \<le> T" "nBits \<le> 8 * length out"
  shows "\<exists>c path. fold (\<lambda>i (n, conv). (n + 2, convDecode conv (syms ! n) (syms ! (n + 1)))) [0..<T] (0, convStart conv) = (2 * T, c) \<and>
    is_path T 0 path \<and> (\<forall>path'. is_path T 0 path' \<longrightarrow> path_cost (nx_cost syms) path \<le> path_cost (nx_cost syms) path') \<and>
    (\<forall>j. rbit (snd (convChainback c out nBits)) j = (if j < nBits then path ! (j + (T - nBits)) else rbit out j))"
proof -
  obtain c where c: "fold (\<lambda>i (n, conv). (n + 2, convDecode conv (syms ! n) (syms ! (n + 1)))) [0..<T] (0, convStart conv) = (2 * T, c)"
      "conv_after syms T c"
    using conv_after_steps [OF assms(1,2), of syms] assms(3) by blast
  show ?thesis
    by (intro exI [of _ c] exI [of _ "nx.survivor syms T 0"] conjI allI impI)
      (simp_all only: c(1) convChainback_bits(2) [OF c(2) assms(4,5)] nx.survivor_path nx.survivor_optimal zero_less_numeral)
qed

lemma nxdn_viterbi_optimal_witness:
  "\<exists>c path. fold (\<lambda>i (n, conv). (n + 2, convDecode conv ([2, 2, 0, 1, 0, 2, 1, 0, 0, 0] ! n) ([2, 2, 0, 1, 0, 2, 1, 0, 0, 0] ! (n + 1))))
      [0..<5] (0, convStart idle_conv) = (2 * 5, c) \<and>
    is_path 5 0 path \<and> (\<forall>path'. is_path 5 0 path' \<longrightarrow>
      path_cost (nx_cost [2, 2, 0, 1, 0, 2, 1, 0, 0, 0]) path \<le> path_cost (nx_cost [2, 2, 0, 1, 0, 2, 1, 0, 0, 0]) path') \<and>
    (\<forall>j. rbit (snd (convChainback c [0xAA] 5)) j = (if j < 5 then path ! (j + (5 - 5)) else rbit [0xAA] j))"
  by (rule nxdn_viterbi_optimal) (simp_all add: idle_conv_def numeral_eq_Suc all_less_Suc)

text \<open>C13: a layer 3 message sent in either FACCH1 is decoded with its checksum when at most one of the
  144 bits on the air is wrong, whatever the rest of the frame holds.\<close>

theorem nxdn_facch1_corrects:
  assumes "length (decisions conv) = 300" "length temp2 = 430" "length facch10 = 10" "length facch = 12"
    and "length frame = 48" "offset + 144 \<le> 384"
    and "wrong_bits (nxdnFacch1Encode facch10 frame offset) recvd [offset..<offset + 144] \<le> 1"
  shows "nxdnFacch1Decode conv temp2 recvd offset facch = (True, nxdnFacch1GetRaw facch10 (replicate 12 0))"
  using assms by (rule facch1_recovers)

lemma nxdn_facch1_corrects_witness:
  "nxdnFacch1Decode idle_conv (replicate 430 7)
     (WRITE_BIT (nxdnFacch1Encode [1, 0, 0x20, 0x12, 0x34, 0x56, 0x78, 0, 0, 0] (replicate 48 0xFF) 240) 300 True) 240 (replicate 12 0) =
   (True, nxdnFacch1GetRaw [1, 0, 0x20, 0x12, 0x34, 0x56, 0x78, 0, 0, 0] (replicate 12 0))"
proof (rule nxdn_facch1_corrects [of _ _ _ _ "replicate 48 0xFF", OF idle_conv_length])
  let ?sent = "nxdnFacch1Encode [1, 0, 0x20, 0x12, 0x34, 0x56, 0x78, 0, 0, 0] (replicate 48 0xFF) 240"
  have "300 < 8 * length ?sent" by (simp add: encoders_frame(3))
  then show "wrong_bits ?sent (WRITE_BIT ?sent 300 True) [240..<240 + 144] \<le> 1" by (intro wrong_bits_flip distinct_upt)
qed simp_all

text \<open>A UDCH is decoded with its checksum when at most one of its 348 bits on the air is wrong.\<close>

theorem nxdn_udch_corrects:
  assumes "length (decisions conv) = 300" "length temp2 = 430" "length udch23 = 23" "length udch = 25" "length frame = 48"
    and "wrong_bits (nxdnUdchEncode udch23 frame) recvd [36..<384] \<le> 1"
  shows "nxdnUdchDecode conv temp2 recvd udch =
    (True, take 25 (putBits (udch23 @ [0, 0, 0]) 184 (nxdnCrc15 (udch23 @ [0, 0, 0]) 184) 15))"
  using udch_recovers [OF assms] by (simp only: udch_info_def)

lemma nxdn_udch_corrects_witness:
  "nxdnUdchDecode idle_conv (replicate 430 7) (WRITE_BIT (nxdnUdchEncode (replicate 23 0x5A) (replicate 48 0)) 77 True) (replicate 25 0) =
    (True, take 25 (putBits (replicate 23 0x5A @ [0, 0, 0]) 184 (nxdnCrc15 (replicate 23 0x5A @ [0, 0, 0]) 184) 15))"
proof (rule nxdn_udch_corrects [OF idle_conv_length])
  let ?sent = "nxdnUdchEncode (replicate 23 0x5A) (replicate 48 0)"
  have "77 < 8 * length ?sent" by (simp add: encoders_frame(2))
  then show "wrong_bits ?sent (WRITE_BIT ?sent 77 True) [36..<384] \<le> 1" by (intro wrong_bits_flip distinct_upt)
qed simp_all

text \<open>C14: the SACCH, whose last coded bit the decoder never puts back, is decoded with its checksum when no bit on the
  air is wrong, whatever byte the local array holds at index 79, which the code reads without writing it; and with one wrong
  bit when that byte is one of the symbols 0, 1 and 2.\<close>

theorem nxdn_sacch_recovers:
  assumes "length (decisions conv) = 300" "length temp2 = 430" "length out5 = 5" "length frame = 48"
    and "wrong_bits (nxdnSacchEncode sacch frame) recvd [36..<96] \<le> 1"
    and "wrong_bits (nxdnSacchEncode sacch frame) recvd [36..<96] = 0 \<or> temp2 ! 79 \<le> 2"
  shows "\<exists>sacch'. nxdnSacchDecode conv temp2 recvd out5 = (True, sacch') \<and> length sacch' = 5 \<and>
    (\<forall>j<26. rbit sacch' j = rbit sacch j) \<and> getBits sacch' 26 6 = ucast (nxdnCrc6 sacch 26)"
proof -
  obtain s where s: "nxdnSacchDecode conv temp2 recvd out5 = (True, s)" "length s = 5" "\<And>j. j < 32 \<Longrightarrow> rbit s j = rbit (sacch_info sacch) j"
    using sacch_recovers [OF assms] by blast
  have same: "rbit (sacch_info sacch) j = rbit sacch j" if "j < 26" for j using that by (rule sacch_info_bits(2))
  have "nxdnCrc6 (sacch_info sacch) 26 = nxdnCrc6 sacch 26" by (rule crc_cong) (rule same)
  moreover have "getBits s 26 6 = getBits (sacch_info sacch) 26 6" by (rule getBits_cong) (simp add: s(3))
  ultimately have "getBits s 26 6 = ucast (nxdnCrc6 sacch 26)" using sacch_info_bits(5) [of sacch] by (simp add: checkCrc6_def)
  then show ?thesis using s same by auto
qed

lemma nxdn_sacch_recovers_witness:
  "\<exists>sacch'. nxdnSacchDecode idle_conv (replicate 430 1) (WRITE_BIT (nxdnSacchEncode [1, 2, 3, 4, 5] (replicate 48 0)) 40 True) (replicate 5 0) =
      (True, sacch') \<and>
    length sacch' = 5 \<and> (\<forall>j<26. rbit sacch' j = rbit [1, 2, 3, 4, 5] j) \<and> getBits sacch' 26 6 = ucast (nxdnCrc6 [1, 2, 3, 4, 5] 26)"
proof (rule nxdn_sacch_recovers [of _ _ _ "replicate 48 0", OF idle_conv_length])
  let ?sent = "nxdnSacchEncode [1, 2, 3, 4, 5] (replicate 48 0)"
  have "40 < 8 * length ?sent" by (simp add: encoders_frame(1))
  then show "wrong_bits ?sent (WRITE_BIT ?sent 40 True) [36..<96] \<le> 1" by (intro wrong_bits_flip distinct_upt)
qed simp_all

end
