(* ===== verification/NxdnVoice.thy ===== *)
theory NxdnVoice
  imports VoiceFec NxdnChannels
begin

section \<open>NXDN voice blocks (protocols/NXDN/nxdn_func.c)\<close>

text \<open>
  A voice block of 72 bits on the air holds 49 vocoder bits: 12 bits \<open>a\<close> and 12 bits \<open>b\<close> in Golay
  words, \<open>b\<close> scrambled, and 25 unprotected bits \<open>c\<close>, spread by three tables.  The vocoder chip has
  three layouts of its own.  As in \<open>VoiceFec\<close>, the decoders return an option because the Golay
  functions do.  A pointer into a buffer is the list from there on.
\<close>

subsection \<open>Blocks\<close>

definition A_TABLE :: "nat list" where
  "A_TABLE = [0, 4, 8, 12, 16, 20, 24, 28, 32, 36, 40, 44,
              48, 52, 56, 60, 64, 68, 1, 5, 9, 13, 17, 21]"

definition B_TABLE :: "nat list" where
  "B_TABLE = [25, 29, 33, 37, 41, 45, 49, 53, 57, 61, 65, 69,
              2, 6, 10, 14, 18, 22, 26, 30, 34, 38, 42]"

definition C_TABLE :: "nat list" where
  "C_TABLE = [46, 50, 54, 58, 62, 66, 70, 3, 7, 11, 15, 19,
              23, 27, 31, 35, 39, 43, 47, 51, 55, 59, 63, 67, 71]"

text \<open>The loops that collect a word from table positions and that spread one over them.\<close>

definition nxdn_collect :: "bytes \<Rightarrow> nat list \<Rightarrow> nat \<Rightarrow> u32 \<Rightarrow> u32" where
  "nxdn_collect inp table n MASK =
     fst (fold (\<lambda>i (w, MASK). (if rbit inp (table ! i) then w OR MASK else w, drop_bit 1 MASK)) [0..<n] (0, MASK))"

definition nxdn_spread :: "u32 \<Rightarrow> nat list \<Rightarrow> nat \<Rightarrow> u32 \<Rightarrow> bytes \<Rightarrow> bytes" where
  "nxdn_spread w table n MASK out =
     fst (fold (\<lambda>i (out, MASK). (WRITE_BIT out (table ! i) (w AND MASK \<noteq> 0), drop_bit 1 MASK)) [0..<n] (out, MASK))"

definition nxdnAudioDecodeBlock :: "bytes \<Rightarrow> bytes \<Rightarrow> nat \<Rightarrow> (u32 \<times> bytes) option" where
  "nxdnAudioDecodeBlock inp out offset =
     (let a = nxdn_collect inp A_TABLE 24 0x800000;
          b = nxdn_collect inp B_TABLE 23 0x400000;
          c = nxdn_collect inp C_TABLE 25 0x1000000
      in case golay24128_errors24128 a of
           None \<Rightarrow> None
         | Some (errors, a12) \<Rightarrow>
             (case golay24128_errors23127 (b XOR drop_bit 1 (AMBE_PRNG_TABLE ! unat a12)) of
                None \<Rightarrow> None
              | Some (e, b12) \<Rightarrow>
                  let errors = errors + e;
                      (out, MASK) = fold (\<lambda>i (out, MASK).
                         let out = WRITE_BIT out (i + offset + 0) (a12 AND MASK \<noteq> 0);
                             out = WRITE_BIT out (i + offset + 12) (b12 AND MASK \<noteq> 0)
                         in (out, drop_bit 1 MASK)) [0..<12] (out, 0x000800);
                      (out, MASK) = fold (\<lambda>i (out, MASK).
                         (WRITE_BIT out (i + offset + 24) (c AND MASK \<noteq> 0), drop_bit 1 MASK)) [0..<25] (out, 0x1000000)
                  in Some (errors, out)))"

definition nxdnAudioEncodeBlock :: "bytes \<Rightarrow> bytes \<Rightarrow> nat \<Rightarrow> bytes" where
  "nxdnAudioEncodeBlock inp out offset =
     (let (aOrig, bOrig, MASK) = fold (\<lambda>i (aOrig, bOrig, MASK).
            (if rbit inp (i + offset + 0) then aOrig OR MASK else aOrig,
             if rbit inp (i + offset + 12) then bOrig OR MASK else bOrig,
             drop_bit 1 MASK)) [0..<12] (0, 0, 0x000800);
          (cOrig, MASK) = fold (\<lambda>i (cOrig, MASK).
            (if rbit inp (i + offset + 24) then cOrig OR MASK else cOrig, drop_bit 1 MASK)) [0..<25] (0, 0x1000000);
          a = golay24128_encode24128 aOrig;
          p = drop_bit 1 (AMBE_PRNG_TABLE ! unat aOrig);
          b = drop_bit 1 (golay24128_encode23127 bOrig);
          b = b XOR p;
          out = nxdn_spread a A_TABLE 24 0x800000 out;
          out = nxdn_spread b B_TABLE 23 0x400000 out
      in nxdn_spread cOrig C_TABLE 25 0x1000000 out)"

definition nxdnAudioDecode :: "bytes \<Rightarrow> bytes \<Rightarrow> u32 option \<Rightarrow> (bytes \<times> u32 option) option" where
  "nxdnAudioDecode inp out errors =
     (case nxdnAudioDecodeBlock inp out 0 of
        None \<Rightarrow> None
      | Some (e1, out) \<Rightarrow>
          (case nxdnAudioDecodeBlock (drop 9 inp) out 49 of
             None \<Rightarrow> None
           | Some (e2, out) \<Rightarrow>
               Some (out, case errors of None \<Rightarrow> None | Some n \<Rightarrow> Some (n + (0 + e1 + e2)))))"

definition nxdnAudioEncode :: "bytes \<Rightarrow> bytes \<Rightarrow> bytes" where
  "nxdnAudioEncode inp out =
     (let out = nxdnAudioEncodeBlock inp out 0
      in take 9 out @ nxdnAudioEncodeBlock inp (drop 9 out) 49)"

subsection \<open>The vocoder chip\<close>

definition chipPosition :: "nat \<Rightarrow> nat" where
  "chipPosition k = 4 * (k mod 18) + k div 18"

definition nxdnAudioChipToNet49 :: "bytes \<Rightarrow> bytes \<Rightarrow> bytes" where
  "nxdnAudioChipToNet49 chip net7 =
     (let net7 = replicate 7 0 @ drop 7 net7
      in fold (\<lambda>k net7. WRITE_BIT net7 k (rbit chip (chipPosition k))) [0..<49] net7)"

definition nxdnAudioNet49ToChip :: "bytes \<Rightarrow> bytes \<Rightarrow> bytes" where
  "nxdnAudioNet49ToChip net7 chip =
     (let chip = replicate 9 0 @ drop 9 chip
      in fold (\<lambda>k chip. WRITE_BIT chip (chipPosition k) (rbit net7 k)) [0..<49] chip)"

definition chipCodingToAir :: "bytes \<Rightarrow> bytes \<Rightarrow> bytes" where
  "chipCodingToAir chip air =
     (let air = replicate 9 0 @ drop 9 air;
          air = fold (\<lambda>i air. WRITE_BIT air (A_TABLE ! i) (rbit chip i)) [0..<24] air;
          air = fold (\<lambda>i air. WRITE_BIT air (B_TABLE ! i) (rbit chip (24 + i))) [0..<23] air
      in fold (\<lambda>i air. WRITE_BIT air (C_TABLE ! i) (rbit chip (47 + i))) [0..<25] air)"

definition airToChipCoding :: "bytes \<Rightarrow> bytes \<Rightarrow> bytes" where
  "airToChipCoding air chip =
     (let chip = replicate 9 0 @ drop 9 chip;
          chip = fold (\<lambda>i chip. WRITE_BIT chip i (rbit air (A_TABLE ! i))) [0..<24] chip;
          chip = fold (\<lambda>i chip. WRITE_BIT chip (24 + i) (rbit air (B_TABLE ! i))) [0..<23] chip
      in fold (\<lambda>i chip. WRITE_BIT chip (47 + i) (rbit air (C_TABLE ! i))) [0..<25] chip)"

definition NXDN_CHIP_NOFEC :: nat where "NXDN_CHIP_NOFEC = 0"
definition NXDN_CHIP_AIR :: nat where "NXDN_CHIP_AIR = 1"
definition NXDN_CHIP_CODING :: nat where "NXDN_CHIP_CODING = 2"

definition nxdnAudioChipPadding :: "bytes \<Rightarrow> u32" where
  "nxdnAudioChipPadding chip =
     fold (\<lambda>k n. if rbit chip (chipPosition k) then n + 1 else n) [49..<72] 0"

text \<open>\<open>air0\<close> is what the local array \<open>air\<close> holds at first.\<close>

definition nxdnAudioChipDecode :: "bytes \<Rightarrow> nat \<Rightarrow> bytes \<Rightarrow> bytes \<Rightarrow> (u32 \<times> bytes) option" where
  "nxdnAudioChipDecode air0 layout chip net7 =
     (let net7 = replicate 7 0 @ drop 7 net7
      in if layout = NXDN_CHIP_AIR then nxdnAudioDecodeBlock chip net7 0
         else if layout = NXDN_CHIP_CODING then nxdnAudioDecodeBlock (chipCodingToAir chip air0) net7 0
         else Some (nxdnAudioChipPadding chip, nxdnAudioChipToNet49 chip net7))"

definition nxdnAudioChipEncode :: "bytes \<Rightarrow> nat \<Rightarrow> bytes \<Rightarrow> bytes \<Rightarrow> bytes" where
  "nxdnAudioChipEncode air0 layout net7 chip =
     (if layout = NXDN_CHIP_AIR then nxdnAudioEncodeBlock net7 (replicate 9 0 @ drop 9 chip) 0
      else if layout = NXDN_CHIP_CODING then airToChipCoding (nxdnAudioEncodeBlock net7 (replicate 9 0) 0) chip
      else nxdnAudioNet49ToChip net7 chip)"

definition nxdnL3Decode :: "bytes \<Rightarrow> bytes \<Rightarrow> nat \<Rightarrow> nat \<Rightarrow> bytes" where
  "nxdnL3Decode l3 bytes lengthBits offset =
     fold (\<lambda>i l3. WRITE_BIT l3 (offset + i) (rbit bytes i)) [0..<lengthBits] l3"

subsection \<open>Tables and loops\<close>

lemma voice_tables:
  "length A_TABLE = 24" "length B_TABLE = 23" "length C_TABLE = 25"
  "distinct (A_TABLE @ B_TABLE @ C_TABLE)" "set (A_TABLE @ B_TABLE @ C_TABLE) \<subseteq> {..<72}"
  by (simp_all add: A_TABLE_def B_TABLE_def C_TABLE_def)

lemma voice_masks: "(0x800000 :: u32) = loop_mask 24 0" "(0x400000 :: u32) = loop_mask 23 0"
  "(0x1000000 :: u32) = loop_mask 25 0" "(0x800 :: u32) = loop_mask 12 0"
  by (simp_all add: loop_mask_def)

lemma collect_word:
  assumes "length table = n" "n \<le> 32"
  shows "nxdn_collect inp table n (loop_mask n 0) = word_at inp table"
proof -
  have "map (\<lambda>i. rbit inp (table ! i)) [0..<n] = map (rbit inp) table"
    using assms(1) by (intro nth_equalityI) simp_all
  then show ?thesis unfolding nxdn_collect_def collect_mask [OF assms(2)] by (simp only: fst_conv word_at_def)
qed

lemma spread_mask:
  assumes "n \<le> 32"
  shows "fold (\<lambda>i (out, mask). (WRITE_BIT out (pos i) (w AND mask \<noteq> 0), drop_bit 1 mask)) [0..<n] (out, loop_mask n 0) =
    (fold (\<lambda>i out. WRITE_BIT out (pos i) (bit w (n - 1 - i))) [0..<n] out, loop_mask n n)"
proof -
  have "m \<le> n \<Longrightarrow> fold (\<lambda>i (out, mask). (WRITE_BIT out (pos i) (w AND mask \<noteq> 0), drop_bit 1 mask)) [0..<m] (out, loop_mask n 0) =
    (fold (\<lambda>i out. WRITE_BIT out (pos i) (bit w (n - 1 - i))) [0..<m] out, loop_mask n m)" for m
  proof (induction m)
    case (Suc m)
    then have "m < n" "m \<le> n" by simp_all
    then show ?case
      unfolding fold_upt_Suc Suc.IH [OF \<open>m \<le> n\<close>] by (simp only: prod.case moved_mask_test [OF assms] loop_mask_simps)
  qed simp
  then show ?thesis by blast
qed

lemma spread_bits_at:
  assumes "length table = n" "n \<le> 32" "distinct table" "\<And>p. p \<in> set table \<Longrightarrow> p < 8 * length out"
  shows "length (nxdn_spread w table n (loop_mask n 0) out) = length out"
    and "i < n \<Longrightarrow> rbit (nxdn_spread w table n (loop_mask n 0) out) (table ! i) = bit w (n - 1 - i)"
    and "j \<notin> set table \<Longrightarrow> rbit (nxdn_spread w table n (loop_mask n 0) out) j = rbit out j"
proof -
  have e: "nxdn_spread w table n (loop_mask n 0) out = fold (\<lambda>i out. WRITE_BIT out (table ! i) (bit w (n - 1 - i))) [0..<n] out"
    unfolding nxdn_spread_def spread_mask [OF assms(2)] by simp
  note s = spread_bits [OF assms(3,4,1)]
  show "length (nxdn_spread w table n (loop_mask n 0) out) = length out" unfolding e by (rule s(1))
  show "rbit (nxdn_spread w table n (loop_mask n 0) out) (table ! i) = bit w (n - 1 - i)" if "i < n"
    unfolding e by (rule s(2)) (use that in simp_all)
  show "rbit (nxdn_spread w table n (loop_mask n 0) out) j = rbit out j" if "j \<notin> set table"
    unfolding e by (rule s(3)) (use that in simp_all)
qed

text \<open>A table filled with a word reads back as the word.\<close>

lemma spread_read:
  assumes "length table = n" "n < 32" "distinct table" "\<And>p. p \<in> set table \<Longrightarrow> p < 8 * length out" "w < 2 ^ n"
  shows "word_at (nxdn_spread w table n (loop_mask n 0) out) table = w"
proof (rule bit_word_eqI)
  fix k
  have "n \<le> 32" using assms(2) by simp
  note s = spread_bits_at(2) [OF assms(1) this assms(3,4), of "n - 1 - k" w]
  have "\<not> bit w k" if "n \<le> k" using assms(2,5) word_less_exp_bits [of n w] that by simp
  then show "bit (word_at (nxdn_spread w table n (loop_mask n 0) out) table) k = bit w k"
    using s bit_word_at [of table "nxdn_spread w table n (loop_mask n 0) out" k] assms(1,2) by (cases "k < n") simp_all
qed

lemma word_at_kept: "(\<And>p. p \<in> set table \<Longrightarrow> rbit x p = rbit y p) \<Longrightarrow> word_at x table = word_at y table"
  unfolding word_at_def by (intro arg_cong [of _ _ msb_word]) simp

subsection \<open>The vocoder bits of a block\<close>

lemma collect_pair:
  assumes "n \<le> 32"
  shows "fold (\<lambda>i (a, b, mask). (if P i then a OR mask else a, if Q i then b OR mask else b, drop_bit 1 mask)) [0..<n] (0, 0, loop_mask n 0)
    = (msb_word (map P [0..<n]), msb_word (map Q [0..<n]), loop_mask n n)"
proof -
  let ?f = "\<lambda>i (a, b, mask). (if P i then a OR mask else a, if Q i then b OR mask else b, drop_bit 1 mask)"
  have "m \<le> n \<Longrightarrow> \<exists>a b. fold ?f [0..<m] (0, 0, loop_mask n 0) = (a, b, loop_mask n m) \<and> loaded P n m a \<and> loaded Q n m b" for m
  proof (induction m)
    case 0
    show ?case using loaded_0 by simp
  next
    case (Suc m)
    then obtain a b where w: "fold ?f [0..<m] (0, 0, loop_mask n 0) = (a, b, loop_mask n m)" "loaded P n m a" "loaded Q n m b" by auto
    have m: "m < n" using Suc.prems by simp
    have "fold ?f [0..<Suc m] (0, 0, loop_mask n 0) =
        (if P m then a OR loop_mask n m else a, if Q m then b OR loop_mask n m else b, loop_mask n (Suc m))"
      unfolding fold_upt_Suc w(1) by (simp only: prod.case loop_mask_simps)
    then show ?case using loaded_step [OF assms m w(2)] loaded_step [OF assms m w(3)] by blast
  qed
  then show ?thesis using loaded_word [OF assms] by blast
qed

text \<open>The three parameters at an offset of a buffer.\<close>

definition voice_word :: "bytes \<Rightarrow> nat \<Rightarrow> nat \<Rightarrow> u32" where
  "voice_word inp pos n = msb_word (map (\<lambda>i. rbit inp (i + pos)) [0..<n])"

lemma voice_word_bit: "n \<le> 32 \<Longrightarrow> bit (voice_word inp pos n) k \<longleftrightarrow> k < n \<and> rbit inp (n - 1 - k + pos)"
  unfolding voice_word_def by (auto simp: bit_msb_word)

lemma voice_word_less: "n < 32 \<Longrightarrow> voice_word inp pos n < 2 ^ n"
  unfolding voice_word_def using msb_word_less [of "map (\<lambda>i. rbit inp (i + pos)) [0..<n]"] by simp

definition voice_a :: "bytes \<Rightarrow> nat \<Rightarrow> u32" where "voice_a inp offset = voice_word inp offset 12"
definition voice_b :: "bytes \<Rightarrow> nat \<Rightarrow> u32" where "voice_b inp offset = voice_word inp (offset + 12) 12"
definition voice_c :: "bytes \<Rightarrow> nat \<Rightarrow> u32" where "voice_c inp offset = voice_word inp (offset + 24) 25"

lemma voice_less: "voice_a inp offset < 4096" "voice_b inp offset < 4096" "voice_c inp offset < 2 ^ 25"
  using voice_word_less [of 12 inp offset] voice_word_less [of 12 inp "offset + 12"] voice_word_less [of 25 inp "offset + 24"]
  by (simp_all add: voice_a_def voice_b_def voice_c_def)

lemma voice_golay_less: "d < 4096 \<Longrightarrow> drop_bit 1 (golay24128_encode23127 d) XOR drop_bit 1 (AMBE_PRNG_TABLE ! unat (voice_a inp offset)) < 2 ^ 23"
proof -
  assume d: "d < 4096"
  have "drop_bit 1 (golay24128_encode23127 d) < 2 ^ 23" unfolding encode23127_word [OF d] using golay_word_less [OF d] by simp
  moreover have "drop_bit 1 (AMBE_PRNG_TABLE ! unat (voice_a inp offset)) < 2 ^ 23"
    using drop_1_less [OF prng_less [OF voice_less(1)]] by simp
  ultimately show ?thesis by (intro word_xor_less_exp) simp_all
qed

lemma encode_block:
  "nxdnAudioEncodeBlock inp out offset =
    nxdn_spread (voice_c inp offset) C_TABLE 25 (loop_mask 25 0)
      (nxdn_spread (drop_bit 1 (golay24128_encode23127 (voice_b inp offset)) XOR drop_bit 1 (AMBE_PRNG_TABLE ! unat (voice_a inp offset)))
        B_TABLE 23 (loop_mask 23 0)
        (nxdn_spread (golay24128_encode24128 (voice_a inp offset)) A_TABLE 24 (loop_mask 24 0) out))"
proof -
  have o: "i + offset + 12 = i + (offset + 12)" "i + offset + 24 = i + (offset + 24)" "i + offset + 0 = i + offset" for i by simp_all
  have small: "(12 :: nat) \<le> 32" "(25 :: nat) \<le> 32" by simp_all
  show ?thesis
    unfolding nxdnAudioEncodeBlock_def voice_masks Let_def o collect_pair [OF small(1)] collect_mask [OF small(2)] prod.case
      voice_a_def voice_b_def voice_c_def voice_word_def ..
qed

lemma block_sets:
  "set A_TABLE \<inter> set B_TABLE = {}" "set A_TABLE \<inter> set C_TABLE = {}" "set B_TABLE \<inter> set C_TABLE = {}"
  "distinct A_TABLE" "distinct B_TABLE" "distinct C_TABLE"
  "p \<in> set A_TABLE \<union> set B_TABLE \<union> set C_TABLE \<Longrightarrow> p < 72"
  using voice_tables(4,5) by auto

text \<open>What the encoder puts into the three groups of bits.\<close>

lemma encode_block_words:
  assumes "9 \<le> length out"
  shows "length (nxdnAudioEncodeBlock inp out offset) = length out"
    and "word_at (nxdnAudioEncodeBlock inp out offset) A_TABLE = golay24128_encode24128 (voice_a inp offset)"
    and "word_at (nxdnAudioEncodeBlock inp out offset) B_TABLE =
      drop_bit 1 (golay24128_encode23127 (voice_b inp offset)) XOR drop_bit 1 (AMBE_PRNG_TABLE ! unat (voice_a inp offset))"
    and "word_at (nxdnAudioEncodeBlock inp out offset) C_TABLE = voice_c inp offset"
    and "72 \<le> j \<Longrightarrow> rbit (nxdnAudioEncodeBlock inp out offset) j = rbit out j"
proof -
  let ?a = "golay24128_encode24128 (voice_a inp offset)"
  let ?b = "drop_bit 1 (golay24128_encode23127 (voice_b inp offset)) XOR drop_bit 1 (AMBE_PRNG_TABLE ! unat (voice_a inp offset))"
  let ?o1 = "nxdn_spread ?a A_TABLE 24 (loop_mask 24 0) out"
  let ?o2 = "nxdn_spread ?b B_TABLE 23 (loop_mask 23 0) ?o1"
  let ?o3 = "nxdn_spread (voice_c inp offset) C_TABLE 25 (loop_mask 25 0) ?o2"
  have small: "(24 :: nat) \<le> 32" "(23 :: nat) \<le> 32" "(25 :: nat) \<le> 32" "(24 :: nat) < 32" "(23 :: nat) < 32" "(25 :: nat) < 32" by simp_all
  have rA: "p \<in> set A_TABLE \<Longrightarrow> p < 8 * length out" for p using block_sets(7) [of p] assms by simp
  note A = spread_bits_at [OF voice_tables(1) small(1) block_sets(4) rA]
  have rB: "p \<in> set B_TABLE \<Longrightarrow> p < 8 * length ?o1" for p using block_sets(7) [of p] assms A(1) by simp
  note B = spread_bits_at [OF voice_tables(2) small(2) block_sets(5) rB]
  have rC: "p \<in> set C_TABLE \<Longrightarrow> p < 8 * length ?o2" for p using block_sets(7) [of p] assms A(1) B(1) by simp
  note C = spread_bits_at [OF voice_tables(3) small(3) block_sets(6) rC]
  have less: "?a < 2 ^ 24" "?b < 2 ^ 23" "voice_c inp offset < 2 ^ 25"
    using encode24128_word [OF voice_less(1)] extended_less [OF voice_less(1)] voice_golay_less [OF voice_less(2)] voice_less(3) by simp_all
  note rd = spread_read [OF voice_tables(1) small(4) block_sets(4) rA less(1)] spread_read [OF voice_tables(2) small(5) block_sets(5) rB less(2)]
    spread_read [OF voice_tables(3) small(6) block_sets(6) rC less(3)]
  show "length (nxdnAudioEncodeBlock inp out offset) = length out" unfolding encode_block by (simp only: A(1) B(1) C(1))
  have "word_at ?o3 A_TABLE = word_at ?o1 A_TABLE"
  proof (rule word_at_kept)
    fix p assume "p \<in> set A_TABLE"
    then have "p \<notin> set B_TABLE" "p \<notin> set C_TABLE" using block_sets(1,2) by auto
    then show "rbit ?o3 p = rbit ?o1 p" by (simp only: B(3) C(3) not_False_eq_True)
  qed
  then show "word_at (nxdnAudioEncodeBlock inp out offset) A_TABLE = ?a" unfolding encode_block by (simp only: rd(1))
  have "word_at ?o3 B_TABLE = word_at ?o2 B_TABLE"
  proof (rule word_at_kept)
    fix p assume "p \<in> set B_TABLE"
    then have "p \<notin> set C_TABLE" using block_sets(3) by auto
    then show "rbit ?o3 p = rbit ?o2 p" by (simp only: C(3) not_False_eq_True)
  qed
  then show "word_at (nxdnAudioEncodeBlock inp out offset) B_TABLE = ?b" unfolding encode_block by (simp only: rd(2))
  show "word_at (nxdnAudioEncodeBlock inp out offset) C_TABLE = voice_c inp offset" unfolding encode_block by (rule rd(3))
  show "rbit (nxdnAudioEncodeBlock inp out offset) j = rbit out j" if "72 \<le> j"
  proof -
    have "j \<notin> set A_TABLE" "j \<notin> set B_TABLE" "j \<notin> set C_TABLE" using block_sets(7) [of j] that by auto
    then show ?thesis unfolding encode_block by (simp only: A(3) B(3) C(3) not_False_eq_True)
  qed
qed

text \<open>Writing the parameters at an offset of a buffer.\<close>

definition voice_put :: "u32 \<Rightarrow> u32 \<Rightarrow> u32 \<Rightarrow> nat \<Rightarrow> bytes \<Rightarrow> nat \<Rightarrow> bool" where
  "voice_put a b c offset out j =
     (if offset \<le> j \<and> j < offset + 12 then bit a (11 - (j - offset))
      else if offset + 12 \<le> j \<and> j < offset + 24 then bit b (11 - (j - (offset + 12)))
      else if offset + 24 \<le> j \<and> j < offset + 49 then bit c (24 - (j - (offset + 24)))
      else rbit out j)"

lemma write_pair:
  assumes "offset + 24 \<le> 8 * length out" "m \<le> 12"
  shows "\<exists>out'. fold (\<lambda>i (out, MASK).
      let out = WRITE_BIT out (i + offset + 0) (a AND MASK \<noteq> 0);
          out = WRITE_BIT out (i + offset + 12) (b AND MASK \<noteq> 0)
      in (out, drop_bit 1 MASK)) [0..<m] (out, loop_mask 12 0) = (out', loop_mask 12 m) \<and> length out' = length out \<and>
    (\<forall>j. rbit out' j = (if offset \<le> j \<and> j < offset + m then bit a (11 - (j - offset))
      else if offset + 12 \<le> j \<and> j < offset + 12 + m then bit b (11 - (j - (offset + 12))) else rbit out j))"
  using assms(2)
proof (induction m)
  case 0
  show ?case by auto
next
  case (Suc m)
  then obtain o1 where o1: "fold (\<lambda>i (out, MASK).
      let out = WRITE_BIT out (i + offset + 0) (a AND MASK \<noteq> 0);
          out = WRITE_BIT out (i + offset + 12) (b AND MASK \<noteq> 0)
      in (out, drop_bit 1 MASK)) [0..<m] (out, loop_mask 12 0) = (o1, loop_mask 12 m)" "length o1 = length out"
    "\<And>j. rbit o1 j = (if offset \<le> j \<and> j < offset + m then bit a (11 - (j - offset))
      else if offset + 12 \<le> j \<and> j < offset + 12 + m then bit b (11 - (j - (offset + 12))) else rbit out j)"
    by auto
  have m: "m < 12" using Suc.prems by simp
  have t: "(w AND loop_mask 12 m \<noteq> 0) = bit w (11 - m)" for w using moved_mask_test [of 12 m w] m by simp
  let ?o2 = "WRITE_BIT o1 (m + offset + 0) (bit a (11 - m))"
  let ?o3 = "WRITE_BIT ?o2 (m + offset + 12) (bit b (11 - m))"
  have l: "m + offset + 0 < 8 * length o1" "m + offset + 12 < 8 * length ?o2" using o1(2) m assms(1) by simp_all
  have "rbit ?o3 j = (if offset \<le> j \<and> j < offset + Suc m then bit a (11 - (j - offset))
      else if offset + 12 \<le> j \<and> j < offset + 12 + Suc m then bit b (11 - (j - (offset + 12))) else rbit out j)" for j
    unfolding rbit_WRITE_BIT [OF l(2)] rbit_WRITE_BIT [OF l(1)] o1(3) using m by auto
  moreover have "length ?o3 = length out" using o1(2) by simp
  ultimately show ?case
    unfolding fold_upt_Suc o1(1) unfolding prod.case Let_def t loop_mask_simps by blast
qed

lemma write_params:
  assumes "offset + 49 \<le> 8 * length out"
  shows "\<exists>out2 out3 m2 m3. fold (\<lambda>i (out, MASK).
      let out = WRITE_BIT out (i + offset + 0) (a AND MASK \<noteq> 0);
          out = WRITE_BIT out (i + offset + 12) (b AND MASK \<noteq> 0)
      in (out, drop_bit 1 MASK)) [0..<12] (out, loop_mask 12 0) = (out2, m2) \<and>
    fold (\<lambda>i (out, MASK). (WRITE_BIT out (i + offset + 24) (c AND MASK \<noteq> 0), drop_bit 1 MASK)) [0..<25] (out2, loop_mask 25 0) = (out3, m3) \<and>
    length out3 = length out \<and> (\<forall>j. rbit out3 j = voice_put a b c offset out j)"
proof -
  obtain out2 where o2: "fold (\<lambda>i (out, MASK).
      let out = WRITE_BIT out (i + offset + 0) (a AND MASK \<noteq> 0);
          out = WRITE_BIT out (i + offset + 12) (b AND MASK \<noteq> 0)
      in (out, drop_bit 1 MASK)) [0..<12] (out, loop_mask 12 0) = (out2, loop_mask 12 12)" "length out2 = length out"
    "\<And>j. rbit out2 j = (if offset \<le> j \<and> j < offset + 12 then bit a (11 - (j - offset))
      else if offset + 12 \<le> j \<and> j < offset + 12 + 12 then bit b (11 - (j - (offset + 12))) else rbit out j)"
    using write_pair [of offset out 12 a b] assms by auto
  let ?out3 = "fold (\<lambda>i out. WRITE_BIT out (i + offset + 24) (bit c (25 - 1 - i))) [0..<25] out2"
  have small: "(25 :: nat) \<le> 32" by simp
  have r: "i \<in> set [0..<25] \<Longrightarrow> i + offset + 24 < 8 * length out2" for i using assms o2(2) by simp
  have "rbit ?out3 j = voice_put a b c offset out j" for j
  proof (cases "offset + 24 \<le> j \<and> j < offset + 49")
    case True
    then have "j = (j - (offset + 24)) + offset + 24" "j - (offset + 24) < 25" by linarith+
    then obtain i where i: "j = i + offset + 24" "i < 25" by blast
    have "rbit ?out3 (i + offset + 24) = bit c (25 - 1 - i)"
      by (rule packed.fold_written [of "\<lambda>i. i + offset + 24"]) (use r i(2) in \<open>auto simp: distinct_map inj_on_def\<close>)
    then show ?thesis unfolding i(1) voice_put_def using i(2) by simp
  next
    case False
    have "rbit ?out3 j = rbit out2 j"
      by (rule packed.fold_other [of _ "\<lambda>i. i + offset + 24"]) (use r False in auto)
    then show ?thesis using False unfolding o2(3) voice_put_def by auto
  qed
  moreover have "length ?out3 = length out" unfolding o2(2) [symmetric] by (rule fold_length_inv) simp
  moreover note o2(1) spread_mask [OF small, of "\<lambda>i. i + offset + 24" c out2]
  ultimately show ?thesis by (intro exI [of _ out2] exI [of _ ?out3] exI [of _ "loop_mask 12 12"] exI [of _ "loop_mask 25 25"] conjI allI)
qed

lemma voice_put_params:
  "voice_put (voice_a inp o1) (voice_b inp o1) (voice_c inp o1) offset out j =
    (if offset \<le> j \<and> j < offset + 49 then rbit inp (o1 + (j - offset)) else rbit out j)"
proof -
  consider (a) "offset \<le> j" "j < offset + 12" | (b) "offset + 12 \<le> j" "j < offset + 24"
    | (c) "offset + 24 \<le> j" "j < offset + 49" | (out) "j < offset" | (out2) "offset + 49 \<le> j" by fastforce
  then show ?thesis
  proof cases
    case a
    then have "12 - 1 - (11 - (j - offset)) + o1 = o1 + (j - offset)" "11 - (j - offset) < 12" by linarith+
    then show ?thesis using a by (simp add: voice_put_def voice_a_def voice_word_bit)
  next
    case b
    then have "12 - 1 - (11 - (j - (offset + 12))) + (o1 + 12) = o1 + (j - offset)" "11 - (j - (offset + 12)) < 12" by linarith+
    then show ?thesis using b by (simp add: voice_put_def voice_b_def voice_word_bit)
  next
    case c
    then have "25 - 1 - (24 - (j - (offset + 24))) + (o1 + 24) = o1 + (j - offset)" "24 - (j - (offset + 24)) < 25" by linarith+
    then show ?thesis using c by (simp add: voice_put_def voice_c_def voice_word_bit)
  next
    case out
    then show ?thesis by (simp add: voice_put_def)
  next
    case out2
    then show ?thesis by (simp add: voice_put_def)
  qed
qed

lemma decode_block:
  assumes len: "9 \<le> length block" and out: "offset + 49 \<le> 8 * length out"
    and wrong: "wrong_bits (nxdnAudioEncodeBlock inp block o1) recvd A_TABLE \<le> 3"
      "wrong_bits (nxdnAudioEncodeBlock inp block o1) recvd B_TABLE \<le> 3"
      "\<And>p. p \<in> set C_TABLE \<Longrightarrow> rbit recvd p = rbit (nxdnAudioEncodeBlock inp block o1) p"
  shows "\<exists>out'. nxdnAudioDecodeBlock recvd out offset =
      Some (of_nat (wrong_bits (nxdnAudioEncodeBlock inp block o1) recvd A_TABLE +
        wrong_bits (nxdnAudioEncodeBlock inp block o1) recvd B_TABLE), out') \<and> length out' = length out \<and>
    (\<forall>j. rbit out' j = (if offset \<le> j \<and> j < offset + 49 then rbit inp (o1 + (j - offset)) else rbit out j))"
proof -
  let ?sent = "nxdnAudioEncodeBlock inp block o1" and ?p = "drop_bit 1 (AMBE_PRNG_TABLE ! unat (voice_a inp o1))"
  note enc = encode_block_words [OF len, where inp = inp and offset = o1]
  have small: "(24 :: nat) \<le> 32" "(23 :: nat) \<le> 32" "(25 :: nat) \<le> 32" by simp_all
  have ea: "golay24128_errors24128 (word_at recvd A_TABLE) = Some (of_nat (wrong_bits ?sent recvd A_TABLE), voice_a inp o1)"
    using errors_24 [OF voice_less(1) enc(2) voice_tables(1), of recvd] wrong(1) by auto
  have eb: "golay24128_errors23127 (word_at recvd B_TABLE XOR ?p) = Some (of_nat (wrong_bits ?sent recvd B_TABLE), voice_b inp o1)"
    by (rule errors_23 [OF voice_less(2) enc(3) voice_tables(2) wrong(2)])
  have c: "word_at recvd C_TABLE = voice_c inp o1"
    unfolding enc(4) [symmetric] by (rule word_at_kept) (rule wrong(3))
  obtain out2 out3 m2 m3 where o: "fold (\<lambda>i (out, MASK).
      let out = WRITE_BIT out (i + offset + 0) (voice_a inp o1 AND MASK \<noteq> 0);
          out = WRITE_BIT out (i + offset + 12) (voice_b inp o1 AND MASK \<noteq> 0)
      in (out, drop_bit 1 MASK)) [0..<12] (out, loop_mask 12 0) = (out2, m2)"
    "fold (\<lambda>i (out, MASK). (WRITE_BIT out (i + offset + 24) (voice_c inp o1 AND MASK \<noteq> 0), drop_bit 1 MASK)) [0..<25] (out2, loop_mask 25 0) = (out3, m3)"
    "length out3 = length out" "\<forall>j. rbit out3 j = voice_put (voice_a inp o1) (voice_b inp o1) (voice_c inp o1) offset out j"
    using write_params [OF out] by blast
  have "nxdnAudioDecodeBlock recvd out offset = Some (of_nat (wrong_bits ?sent recvd A_TABLE) + of_nat (wrong_bits ?sent recvd B_TABLE), out3)"
    unfolding nxdnAudioDecodeBlock_def voice_masks collect_word [OF voice_tables(1) small(1)] collect_word [OF voice_tables(2) small(2)]
      collect_word [OF voice_tables(3) small(3)] Let_def ea option.case prod.case eb c o(1)[unfolded Let_def] o(2) ..
  then show ?thesis using o(3,4) by (simp add: voice_put_params)
qed

subsection \<open>Two blocks\<close>

text \<open>The bits in which a block came in wrong: in the two Golay words, and in the unprotected bits.\<close>

definition voice_wrong :: "bytes \<Rightarrow> bytes \<Rightarrow> nat" where
  "voice_wrong sent recvd = wrong_bits sent recvd A_TABLE + wrong_bits sent recvd B_TABLE"

definition voice_near :: "bytes \<Rightarrow> bytes \<Rightarrow> bool" where
  "voice_near sent recvd \<longleftrightarrow> wrong_bits sent recvd A_TABLE \<le> 3 \<and> wrong_bits sent recvd B_TABLE \<le> 3 \<and>
     (\<forall>p \<in> set C_TABLE. rbit recvd p = rbit sent p)"

lemma voice_cong:
  assumes "\<And>j. j < 72 \<Longrightarrow> rbit s j = rbit s' j"
  shows "voice_wrong s r = voice_wrong s' r" "voice_near s r = voice_near s' r"
proof -
  have t: "p \<in> set A_TABLE \<or> p \<in> set B_TABLE \<or> p \<in> set C_TABLE \<Longrightarrow> rbit s p = rbit s' p" for p
    using block_sets(7) [of p] assms by blast
  have w: "wrong_bits s r A_TABLE = wrong_bits s' r A_TABLE" "wrong_bits s r B_TABLE = wrong_bits s' r B_TABLE"
    unfolding wrong_bits_def by (intro arg_cong [of _ _ length] filter_cong; simp add: t)+
  show "voice_wrong s r = voice_wrong s' r" by (simp add: voice_wrong_def w)
  show "voice_near s r = voice_near s' r" by (auto simp: voice_near_def w t)
qed

lemma decode_near_block:
  assumes "9 \<le> length block" "offset + 49 \<le> 8 * length out" "voice_near (nxdnAudioEncodeBlock inp block o1) recvd"
  shows "\<exists>out'. nxdnAudioDecodeBlock recvd out offset = Some (of_nat (voice_wrong (nxdnAudioEncodeBlock inp block o1) recvd), out') \<and>
    length out' = length out \<and>
    (\<forall>j. rbit out' j = (if offset \<le> j \<and> j < offset + 49 then rbit inp (o1 + (j - offset)) else rbit out j))"
  using decode_block [OF assms(1,2), of inp o1 recvd] assms(3) unfolding voice_near_def voice_wrong_def by blast

lemma audio_encode_blocks:
  assumes "length out = 18"
  shows "length (nxdnAudioEncode inp out) = 18"
    and "j < 72 \<Longrightarrow> rbit (nxdnAudioEncode inp out) j = rbit (nxdnAudioEncodeBlock inp out 0) j"
    and "drop 9 (nxdnAudioEncode inp out) = nxdnAudioEncodeBlock inp (drop 9 (nxdnAudioEncodeBlock inp out 0)) 49"
proof -
  let ?o1 = "nxdnAudioEncodeBlock inp out 0"
  have l1: "length ?o1 = 18" using encode_block_words(1) [of out inp 0] assms by simp
  then have l2: "length (nxdnAudioEncodeBlock inp (drop 9 ?o1) 49) = 9" using encode_block_words(1) [of "drop 9 ?o1" inp 49] by simp
  show "length (nxdnAudioEncode inp out) = 18" by (simp add: nxdnAudioEncode_def Let_def l1 l2)
  show "rbit (nxdnAudioEncode inp out) j = rbit ?o1 j" if "j < 72"
    using that l1 by (simp add: nxdnAudioEncode_def Let_def rbit_append rbit_take)
  show "drop 9 (nxdnAudioEncode inp out) = nxdnAudioEncodeBlock inp (drop 9 ?o1) 49"
    by (simp add: nxdnAudioEncode_def Let_def l1)
qed

text \<open>C15: two voice blocks that came in with at most three wrong bits in each Golay word and none in the
  unprotected bits decode to the 98 vocoder bits that were sent; the wrong bits are counted exactly and
  added to the caller's counter, and the rest of the output is kept.\<close>

theorem nxdn_audio_corrects:
  assumes "length blocks = 18" "98 \<le> 8 * length out"
    and "voice_near (nxdnAudioEncode inp blocks) recvd" "voice_near (drop 9 (nxdnAudioEncode inp blocks)) (drop 9 recvd)"
  shows "\<exists>out'. nxdnAudioDecode recvd out (Some n) =
      Some (out', Some (n + of_nat (voice_wrong (nxdnAudioEncode inp blocks) recvd +
        voice_wrong (drop 9 (nxdnAudioEncode inp blocks)) (drop 9 recvd)))) \<and>
    length out' = length out \<and> (\<forall>j. rbit out' j = (if j < 98 then rbit inp j else rbit out j))"
proof -
  let ?o1 = "nxdnAudioEncodeBlock inp blocks 0" and ?sent = "nxdnAudioEncode inp blocks"
  note enc = audio_encode_blocks [OF assms(1), where inp = inp]
  have l1: "length ?o1 = 18" using encode_block_words(1) [of blocks inp 0] assms(1) by simp
  have n1: "voice_near ?o1 recvd" "voice_wrong ?sent recvd = voice_wrong ?o1 recvd"
    using voice_cong [of ?sent ?o1 recvd] enc(2) assms(3) by simp_all
  obtain o2 where o2: "nxdnAudioDecodeBlock recvd out 0 = Some (of_nat (voice_wrong ?o1 recvd), o2)" "length o2 = length out"
      "\<And>j. rbit o2 j = (if 0 \<le> j \<and> j < 0 + 49 then rbit inp (0 + (j - 0)) else rbit out j)"
    using decode_near_block [OF _ _ n1(1), of 0 out] assms(1,2) by auto
  obtain o3 where o3: "nxdnAudioDecodeBlock (drop 9 recvd) o2 49 =
      Some (of_nat (voice_wrong (nxdnAudioEncodeBlock inp (drop 9 ?o1) 49) (drop 9 recvd)), o3)" "length o3 = length o2"
      "\<And>j. rbit o3 j = (if 49 \<le> j \<and> j < 49 + 49 then rbit inp (49 + (j - 49)) else rbit o2 j)"
    using decode_near_block [of "drop 9 ?o1" 49 o2 inp 49 "drop 9 recvd"] assms(2,4) l1 o2(2) enc(3) by auto
  have "rbit o3 j = (if j < 98 then rbit inp j else rbit out j)" for j
    unfolding o3(3) o2(3) by auto
  moreover have "nxdnAudioDecode recvd out (Some n) = Some (o3, Some (n + of_nat (voice_wrong ?sent recvd + voice_wrong (drop 9 ?sent) (drop 9 recvd))))"
    unfolding nxdnAudioDecode_def o2(1) option.case prod.case o3(1) enc(3) n1(2) by simp
  ultimately show ?thesis using o2(2) o3(2) by auto
qed

lemma voice_near_same: "voice_near s s" "voice_wrong s s = 0"
  by (simp_all add: voice_near_def voice_wrong_def wrong_bits_def)

lemma nxdn_audio_corrects_witness:
  "\<exists>out'. nxdnAudioDecode (nxdnAudioEncode [1, 2, 3, 4, 5, 6, 7, 8, 9, 10, 11, 12, 13] (replicate 18 0)) (replicate 14 0xFF) (Some 5) =
      Some (out', Some (5 + of_nat (voice_wrong (nxdnAudioEncode [1, 2, 3, 4, 5, 6, 7, 8, 9, 10, 11, 12, 13] (replicate 18 0))
          (nxdnAudioEncode [1, 2, 3, 4, 5, 6, 7, 8, 9, 10, 11, 12, 13] (replicate 18 0)) +
        voice_wrong (drop 9 (nxdnAudioEncode [1, 2, 3, 4, 5, 6, 7, 8, 9, 10, 11, 12, 13] (replicate 18 0)))
          (drop 9 (nxdnAudioEncode [1, 2, 3, 4, 5, 6, 7, 8, 9, 10, 11, 12, 13] (replicate 18 0)))))) \<and>
    length out' = length (replicate 14 (0xFF :: u8)) \<and>
    (\<forall>j. rbit out' j = (if j < 98 then rbit [1, 2, 3, 4, 5, 6, 7, 8, 9, 10, 11, 12, 13] j else rbit (replicate 14 0xFF) j))"
  by (rule nxdn_audio_corrects) (simp_all add: voice_near_same)

subsection \<open>Chip layouts\<close>

lemma chip_positions: "k < 72 \<Longrightarrow> chipPosition k < 72" "k < 72 \<Longrightarrow> l < 72 \<Longrightarrow> chipPosition k = chipPosition l \<Longrightarrow> k = l"
  using matrix_less [of 18 k 4] matrix_inject [of 18 k 4 l] by (simp_all add: chipPosition_def mult.commute)

lemma fold_bits_copied:
  assumes "distinct (map pos ks)" "\<And>k. k \<in> set ks \<Longrightarrow> pos k < 8 * length buf"
  shows "length (fold (\<lambda>k buf. WRITE_BIT buf (pos k) (v k)) ks buf) = length buf"
    and "k \<in> set ks \<Longrightarrow> rbit (fold (\<lambda>k buf. WRITE_BIT buf (pos k) (v k)) ks buf) (pos k) = v k"
    and "j \<notin> pos ` set ks \<Longrightarrow> rbit (fold (\<lambda>k buf. WRITE_BIT buf (pos k) (v k)) ks buf) j = rbit buf j"
proof -
  show "length (fold (\<lambda>k buf. WRITE_BIT buf (pos k) (v k)) ks buf) = length buf" by (rule fold_length_inv) simp
  show "k \<in> set ks \<Longrightarrow> rbit (fold (\<lambda>k buf. WRITE_BIT buf (pos k) (v k)) ks buf) (pos k) = v k"
    by (rule packed.fold_written [of pos]) (use assms in auto)
  show "j \<notin> pos ` set ks \<Longrightarrow> rbit (fold (\<lambda>k buf. WRITE_BIT buf (pos k) (v k)) ks buf) j = rbit buf j"
    by (rule packed.fold_other [of _ pos]) (use assms in auto)
qed

lemma chip_distinct: "n \<le> 72 \<Longrightarrow> distinct (map chipPosition [0..<n])"
  using chip_positions(2) by (auto simp: distinct_map inj_on_def)

lemma net49_chip:
  assumes "length net7 = 7" "length chip = 9"
  shows "length (nxdnAudioNet49ToChip net7 chip) = 9"
    and "k < 49 \<Longrightarrow> rbit (nxdnAudioNet49ToChip net7 chip) (chipPosition k) = rbit net7 k"
    and "49 \<le> k \<Longrightarrow> k < 72 \<Longrightarrow> \<not> rbit (nxdnAudioNet49ToChip net7 chip) (chipPosition k)"
proof -
  have e: "nxdnAudioNet49ToChip net7 chip = fold (\<lambda>k chip. WRITE_BIT chip (chipPosition k) (rbit net7 k)) [0..<49] (replicate 9 0)"
    by (simp add: nxdnAudioNet49ToChip_def assms(2))
  have d: "distinct (map chipPosition [0..<49])" by (rule chip_distinct) simp
  have r: "\<And>k. k \<in> set [0..<49] \<Longrightarrow> chipPosition k < 8 * length (replicate 9 (0 :: u8))"
    using chip_positions(1) by (simp del: upt_rec_numeral)
  show "length (nxdnAudioNet49ToChip net7 chip) = 9" unfolding e by (subst fold_bits_copied(1) [OF d]) (use r in \<open>simp_all del: upt_rec_numeral\<close>)
  show "rbit (nxdnAudioNet49ToChip net7 chip) (chipPosition k) = rbit net7 k" if "k < 49"
    unfolding e by (rule fold_bits_copied(2) [OF d]) (use r that in \<open>simp_all del: upt_rec_numeral\<close>)
  show "\<not> rbit (nxdnAudioNet49ToChip net7 chip) (chipPosition k)" if "49 \<le> k" "k < 72"
  proof -
    have "chipPosition k \<notin> chipPosition ` set [0..<49]"
    proof
      assume "chipPosition k \<in> chipPosition ` set [0..<49]"
      then obtain l where "chipPosition k = chipPosition l" "l < 49" unfolding set_upt by auto
      then show False using chip_positions(2) [of k l] that by simp
    qed
    then have "rbit (nxdnAudioNet49ToChip net7 chip) (chipPosition k) = rbit (replicate 9 0) (chipPosition k)"
      unfolding e by (intro fold_bits_copied(3) [OF d]) (use r in \<open>simp_all del: upt_rec_numeral\<close>)
    then show ?thesis using rbit_zeros [of "chipPosition k" 9] chip_positions(1) [OF that(2)] by simp
  qed
qed

lemma padding_zero: "(\<And>k. 49 \<le> k \<Longrightarrow> k < 72 \<Longrightarrow> \<not> rbit chip (chipPosition k)) \<Longrightarrow> nxdnAudioChipPadding chip = 0"
proof -
  assume z: "\<And>k. 49 \<le> k \<Longrightarrow> k < 72 \<Longrightarrow> \<not> rbit chip (chipPosition k)"
  have "set ks \<subseteq> {49..<72} \<Longrightarrow> fold (\<lambda>k n. if rbit chip (chipPosition k) then n + 1 else n) ks n = (n :: u32)" for ks n
    by (induction ks arbitrary: n) (auto simp: z)
  then show ?thesis unfolding nxdnAudioChipPadding_def by (simp del: upt_rec_numeral)
qed

lemma run_loop:
  assumes "a + n \<le> 8 * length buf"
  shows "length (fold (\<lambda>i buf. WRITE_BIT buf (a + i) (v i)) [0..<n] buf) = length buf"
    and "rbit (fold (\<lambda>i buf. WRITE_BIT buf (a + i) (v i)) [0..<n] buf) j = (if a \<le> j \<and> j < a + n then v (j - a) else rbit buf j)"
proof -
  have d: "distinct (map ((+) a) [0..<n])" by (simp add: distinct_map)
  have r: "\<And>k. k \<in> set [0..<n] \<Longrightarrow> a + k < 8 * length buf" using assms by simp
  show "length (fold (\<lambda>i buf. WRITE_BIT buf (a + i) (v i)) [0..<n] buf) = length buf" by (rule fold_bits_copied(1) [OF d r])
  show "rbit (fold (\<lambda>i buf. WRITE_BIT buf (a + i) (v i)) [0..<n] buf) j = (if a \<le> j \<and> j < a + n then v (j - a) else rbit buf j)"
  proof (cases "a \<le> j \<and> j < a + n")
    case True
    then have "rbit (fold (\<lambda>i buf. WRITE_BIT buf (a + i) (v i)) [0..<n] buf) (a + (j - a)) = v (j - a)"
      by (intro fold_bits_copied(2) [OF d]) (use r in auto)
    then show ?thesis using True by simp
  next
    case False
    then have "j \<notin> (+) a ` set [0..<n]" by auto
    then have "rbit (fold (\<lambda>i buf. WRITE_BIT buf (a + i) (v i)) [0..<n] buf) j = rbit buf j"
      by (intro fold_bits_copied(3) [OF d]) (use r in auto)
    then show ?thesis unfolding if_not_P [OF False] .
  qed
qed

lemma airToChipCoding_bits:
  assumes "length chip = 9"
  shows "length (airToChipCoding air chip) = 9"
    and "i < 24 \<Longrightarrow> rbit (airToChipCoding air chip) i = rbit air (A_TABLE ! i)"
    and "i < 23 \<Longrightarrow> rbit (airToChipCoding air chip) (24 + i) = rbit air (B_TABLE ! i)"
    and "i < 25 \<Longrightarrow> rbit (airToChipCoding air chip) (47 + i) = rbit air (C_TABLE ! i)"
proof -
  let ?c1 = "fold (\<lambda>i chip. WRITE_BIT chip (0 + i) (rbit air (A_TABLE ! i))) [0..<24] (replicate 9 0)"
  let ?c2 = "fold (\<lambda>i chip. WRITE_BIT chip (24 + i) (rbit air (B_TABLE ! i))) [0..<23] ?c1"
  let ?c3 = "fold (\<lambda>i chip. WRITE_BIT chip (47 + i) (rbit air (C_TABLE ! i))) [0..<25] ?c2"
  have e: "airToChipCoding air chip = ?c3"
    unfolding airToChipCoding_def Let_def add_0_left using assms by simp
  have l1: "length ?c1 = 9" by (subst run_loop(1)) simp_all
  have l2: "length ?c2 = 9" by (subst run_loop(1)) (unfold l1, simp_all)
  have l3: "length ?c3 = 9" by (subst run_loop(1)) (unfold l2, simp_all)
  have b1: "rbit ?c1 j = (if 0 \<le> j \<and> j < 0 + 24 then rbit air (A_TABLE ! (j - 0)) else rbit (replicate 9 0) j)" for j
    by (rule run_loop(2)) simp
  have b2: "rbit ?c2 j = (if 24 \<le> j \<and> j < 24 + 23 then rbit air (B_TABLE ! (j - 24)) else rbit ?c1 j)" for j
    by (rule run_loop(2)) (unfold l1, simp)
  have b3: "rbit ?c3 j = (if 47 \<le> j \<and> j < 47 + 25 then rbit air (C_TABLE ! (j - 47)) else rbit ?c2 j)" for j
    by (rule run_loop(2)) (unfold l2, simp)
  show "length (airToChipCoding air chip) = 9" unfolding e by (rule l3)
  show "i < 24 \<Longrightarrow> rbit (airToChipCoding air chip) i = rbit air (A_TABLE ! i)" unfolding e b3 b2 b1 by simp
  show "i < 23 \<Longrightarrow> rbit (airToChipCoding air chip) (24 + i) = rbit air (B_TABLE ! i)" unfolding e b3 b2 b1 by simp
  show "i < 25 \<Longrightarrow> rbit (airToChipCoding air chip) (47 + i) = rbit air (C_TABLE ! i)" unfolding e b3 b2 b1 by simp
qed

lemma chip_coding_air:
  assumes "length air = 9" "length chip = 9" "length air0 = 9"
  shows "chipCodingToAir (airToChipCoding air chip) air0 = air"
proof (rule rbit_inject)
  let ?c = "airToChipCoding air chip"
  let ?a1 = "fold (\<lambda>i air. WRITE_BIT air (A_TABLE ! i) (rbit ?c i)) [0..<24] (replicate 9 0)"
  let ?a2 = "fold (\<lambda>i air. WRITE_BIT air (B_TABLE ! i) (rbit ?c (24 + i))) [0..<23] ?a1"
  let ?a3 = "fold (\<lambda>i air. WRITE_BIT air (C_TABLE ! i) (rbit ?c (47 + i))) [0..<25] ?a2"
  note bits = airToChipCoding_bits [OF assms(2), where air = air]
  have e: "chipCodingToAir ?c air0 = ?a3" unfolding chipCodingToAir_def Let_def using assms(3) by simp
  have r: "length (buf :: bytes) = 9 \<Longrightarrow> p \<in> set A_TABLE \<union> set B_TABLE \<union> set C_TABLE \<Longrightarrow> p < 8 * length buf" for p buf
    using block_sets(7) [of p] by simp
  have l0: "length (replicate 9 (0 :: u8)) = 9" by simp
  note rA = r [OF l0, OF UnI1, OF UnI1]
  have l1: "length ?a1 = 9" by (subst spread_bits(1) [OF block_sets(4) _ voice_tables(1)]) (erule rA, rule l0)
  note rB = r [OF l1, OF UnI1, OF UnI2]
  have l2: "length ?a2 = 9" by (subst spread_bits(1) [OF block_sets(5) _ voice_tables(2)]) (erule rB, rule l1)
  note rC = r [OF l2, OF UnI2]
  have l3: "length ?a3 = 9" by (subst spread_bits(1) [OF block_sets(6) _ voice_tables(3)]) (erule rC, rule l2)
  show "length (chipCodingToAir ?c air0) = length air" unfolding e using l3 assms(1) by simp
  fix j assume "j < 8 * length (chipCodingToAir ?c air0)"
  then have j: "j < 72" unfolding e l3 by simp
  have "card (set (A_TABLE @ B_TABLE @ C_TABLE)) = 72"
    unfolding distinct_card [OF voice_tables(4)] by (simp add: voice_tables(1-3))
  then have "set (A_TABLE @ B_TABLE @ C_TABLE) = {..<72}" using voice_tables(5) by (intro card_subset_eq) simp_all
  then consider (A) "j \<in> set A_TABLE" | (B) "j \<in> set B_TABLE" | (C) "j \<in> set C_TABLE" using j by auto
  then show "rbit (chipCodingToAir ?c air0) j = rbit air j"
  proof cases
    case A
    then obtain i where i: "i < 24" "j = A_TABLE ! i" using voice_tables(1) by (metis in_set_conv_nth)
    have "rbit ?a3 j = rbit ?a2 j"
      by (rule spread_bits(3) [OF block_sets(6) _ voice_tables(3)]) (erule rC, use A block_sets(2) in blast)
    also have "rbit ?a2 j = rbit ?a1 j"
      by (rule spread_bits(3) [OF block_sets(5) _ voice_tables(2)]) (erule rB, use A block_sets(1) in blast)
    also have "rbit ?a1 j = rbit ?c i"
      unfolding i(2) by (rule spread_bits(2) [OF block_sets(4) _ voice_tables(1) i(1)]) (erule rA)
    finally show ?thesis using i bits(2) [OF i(1)] by (simp only: e)
  next
    case B
    then obtain i where i: "i < 23" "j = B_TABLE ! i" using voice_tables(2) by (metis in_set_conv_nth)
    have "rbit ?a3 j = rbit ?a2 j"
      by (rule spread_bits(3) [OF block_sets(6) _ voice_tables(3)]) (erule rC, use B block_sets(3) in blast)
    also have "rbit ?a2 j = rbit ?c (24 + i)"
      unfolding i(2) by (rule spread_bits(2) [OF block_sets(5) _ voice_tables(2) i(1)]) (erule rB)
    finally show ?thesis using i bits(3) [OF i(1)] by (simp only: e)
  next
    case C
    then obtain i where i: "i < 25" "j = C_TABLE ! i" using voice_tables(3) by (metis in_set_conv_nth)
    have "rbit ?a3 (C_TABLE ! i) = rbit ?c (47 + i)"
      by (rule spread_bits(2) [OF block_sets(6) _ voice_tables(3) i(1)]) (erule rC)
    then show ?thesis using i bits(4) [OF i(1)] by (simp only: e)
  qed
qed

lemma decode_own_block:
  assumes "length net7 = 7" "\<And>k. 49 \<le> k \<Longrightarrow> k < 56 \<Longrightarrow> \<not> rbit net7 k" "length block = 9" "length out7 = 7"
  shows "nxdnAudioDecodeBlock (nxdnAudioEncodeBlock net7 block 0) (replicate 7 0 @ drop 7 out7) 0 = Some (0, net7)"
proof -
  obtain w where w: "nxdnAudioDecodeBlock (nxdnAudioEncodeBlock net7 block 0) (replicate 7 0) 0 = Some (0, w)" "length w = 7"
      "\<And>j. rbit w j = (if j < 49 then rbit net7 j else rbit (replicate 7 0) j)"
    using decode_near_block [OF _ _ voice_near_same(1), of block 0 "replicate 7 0" net7 0] assms(3) by (auto simp: voice_near_same(2))
  have "w = net7"
  proof (rule rbit_inject)
    show "rbit w j = rbit net7 j" if "j < 8 * length w" for j
      using w(2) w(3) [of j] assms(2) [of j] rbit_zeros [of j 7] that by auto
  qed (simp add: w(2) assms(1))
  then show ?thesis using w(1) assms(4) by simp
qed

text \<open>In each of its three layouts a vocoder chip block built from 49 voice bits is read back as these
  bits, with no corrected bit and no padding bit set.\<close>

theorem nxdn_chip_round_trip:
  assumes "length net7 = 7" "\<forall>k. 49 \<le> k \<and> k < 56 \<longrightarrow> \<not> rbit net7 k" "length chip = 9" "length out7 = 7" "length air0 = 9"
  shows "nxdnAudioChipDecode air0 layout (nxdnAudioChipEncode air0' layout net7 chip) out7 = Some (0, net7)"
proof -
  have z: "\<And>k. 49 \<le> k \<Longrightarrow> k < 56 \<Longrightarrow> \<not> rbit net7 k" using assms(2) by blast
  have chip0: "replicate 9 0 @ drop 9 chip = replicate 9 (0 :: u8)" using assms(3) by simp
  have len: "length (nxdnAudioEncodeBlock net7 (replicate 9 0) 0) = 9"
    by (subst encode_block_words(1)) simp_all
  consider (air) "layout = 1" | (coding) "layout = 2" | (nofec) "layout \<noteq> 1" "layout \<noteq> 2" by blast
  then show ?thesis
  proof cases
    case air
    then show ?thesis unfolding nxdnAudioChipDecode_def nxdnAudioChipEncode_def NXDN_CHIP_AIR_def Let_def chip0
      using decode_own_block [OF assms(1) z _ assms(4), of "replicate 9 0"] by simp
  next
    case coding
    then show ?thesis unfolding nxdnAudioChipDecode_def nxdnAudioChipEncode_def NXDN_CHIP_AIR_def NXDN_CHIP_CODING_def Let_def
      using decode_own_block [OF assms(1) z _ assms(4), of "replicate 9 0"] chip_coding_air [OF len assms(3,5)] by simp
  next
    case nofec
    let ?chip = "nxdnAudioNet49ToChip net7 chip"
    note c = net49_chip [OF assms(1,3)]
    have "nxdnAudioChipToNet49 ?chip (replicate 7 0 @ drop 7 out7) = net7"
    proof (rule rbit_inject)
      have e: "nxdnAudioChipToNet49 ?chip (replicate 7 0 @ drop 7 out7) =
          fold (\<lambda>i net7. WRITE_BIT net7 (0 + i) (rbit ?chip (chipPosition i))) [0..<49] (replicate 7 0)"
        unfolding nxdnAudioChipToNet49_def Let_def add_0_left using assms(4) by simp
      have l: "length (nxdnAudioChipToNet49 ?chip (replicate 7 0 @ drop 7 out7)) = 7"
        unfolding e by (subst run_loop(1)) simp_all
      then show "length (nxdnAudioChipToNet49 ?chip (replicate 7 0 @ drop 7 out7)) = length net7" using assms(1) by simp
      fix j assume "j < 8 * length (nxdnAudioChipToNet49 ?chip (replicate 7 0 @ drop 7 out7))"
      then have j: "j < 56" using l by simp
      have "rbit (nxdnAudioChipToNet49 ?chip (replicate 7 0 @ drop 7 out7)) j =
          (if 0 \<le> j \<and> j < 0 + 49 then rbit ?chip (chipPosition (j - 0)) else rbit (replicate 7 0) j)"
        unfolding e by (rule run_loop(2)) simp
      then show "rbit (nxdnAudioChipToNet49 ?chip (replicate 7 0 @ drop 7 out7)) j = rbit net7 j"
        using c(2) [of j] z [of j] rbit_zeros [of j 7] j by auto
    qed
    moreover have "nxdnAudioChipPadding ?chip = 0" by (rule padding_zero) (rule c(3))
    ultimately show ?thesis
      using nofec by (simp add: nxdnAudioChipDecode_def nxdnAudioChipEncode_def NXDN_CHIP_AIR_def NXDN_CHIP_CODING_def Let_def)
  qed
qed

lemma nxdn_chip_round_trip_witness:
  "nxdnAudioChipDecode (replicate 9 1) 2 (nxdnAudioChipEncode (replicate 9 2) 2 [1, 2, 3, 4, 5, 6, 0x80] (replicate 9 3)) (replicate 7 4) =
    Some (0, [1, 2, 3, 4, 5, 6, 0x80])"
proof (rule nxdn_chip_round_trip)
  show "\<forall>k. 49 \<le> k \<and> k < 56 \<longrightarrow> \<not> rbit [1, 2, 3, 4, 5, 6, 0x80] k"
  proof (intro allI impI)
    fix k :: nat assume "49 \<le> k \<and> k < 56"
    then have "k = 49 \<or> k = 50 \<or> k = 51 \<or> k = 52 \<or> k = 53 \<or> k = 54 \<or> k = 55" by auto
    then show "\<not> rbit [1, 2, 3, 4, 5, 6, 0x80] k" by (elim disjE) (simp_all add: rbit_bit)
  qed
qed simp_all

end
