(* ===== verification/NxdnCtrl.thy ===== *)
theory NxdnCtrl
  imports NxdnVoice
begin

section \<open>NXDN call control (protocols/NXDN/nxdn_func.c)\<close>

text \<open>
  The control of an NXDN host: \<open>nxdnCtrlRf\<close> takes a frame from the receiver, \<open>nxdnCtrlNet\<close> a packet
  from the network, \<open>nxdnCtrlClock\<close> the time that has passed.  The state is the record \<open>NxdnCtrl\<close>
  of the header file.  What leaves through the three callbacks is appended to \<open>trace\<close>; a callback that
  is not set (NULL) is False.  The fields \<open>ran\<close>, \<open>id\<close> and \<open>data\<close> have a prefix here, and \<open>ctx\<close>, which
  is only handed through, is left out.

  The two floating point values of an event are given by what they are computed from: the duration
  \<open>(float)frames / 12.5F\<close> by the frames, the error rate \<open>(float)(errs * 100) / (float)bits\<close> by the pair.

  \<open>conv0\<close> and \<open>t0\<close> are what the local variables of \<open>chanDecode\<close> hold at first (see \<open>NxdnChan\<close>).  The other
  local arrays are written before they are read.  The functions that decode voice return an option
  like the Golay functions; \<open>NxdnCtrlInv\<close> shows that they always return.
\<close>

subsection \<open>Constants and states\<close>

definition NXDN_FACCH1_OFFSET_1 :: nat where "NXDN_FACCH1_OFFSET_1 = 96"
definition NXDN_FACCH1_OFFSET_2 :: nat where "NXDN_FACCH1_OFFSET_2 = 240"
definition NXDN_FSW_LICH_SACCH_LENGTH_BYTES :: nat where "NXDN_FSW_LICH_SACCH_LENGTH_BYTES = 12"
definition NXDN_LICH_RFCT_RDCH :: u8 where "NXDN_LICH_RFCT_RDCH = 2"
definition NXDN_LICH_USC_SACCH_NS :: u8 where "NXDN_LICH_USC_SACCH_NS = 0"
definition NXDN_LICH_USC_UDCH :: u8 where "NXDN_LICH_USC_UDCH = 1"
definition NXDN_LICH_USC_SACCH_SS :: u8 where "NXDN_LICH_USC_SACCH_SS = 2"
definition NXDN_LICH_STEAL_NONE :: u8 where "NXDN_LICH_STEAL_NONE = 3"
definition NXDN_LICH_STEAL_FACCH1_2 :: u8 where "NXDN_LICH_STEAL_FACCH1_2 = 2"
definition NXDN_LICH_STEAL_FACCH1_1 :: u8 where "NXDN_LICH_STEAL_FACCH1_1 = 1"
definition NXDN_LICH_STEAL_FACCH :: u8 where "NXDN_LICH_STEAL_FACCH = 0"
definition NXDN_LICH_DIRECTION_INBOUND :: u8 where "NXDN_LICH_DIRECTION_INBOUND = 0"
definition NXDN_LICH_DIRECTION_OUTBOUND :: u8 where "NXDN_LICH_DIRECTION_OUTBOUND = 1"
definition NXDN_SR_SINGLE :: u8 where "NXDN_SR_SINGLE = 0"
definition NXDN_SR_4_4 :: u8 where "NXDN_SR_4_4 = 0"
definition NXDN_SR_3_4 :: u8 where "NXDN_SR_3_4 = 1"
definition NXDN_SR_2_4 :: u8 where "NXDN_SR_2_4 = 2"
definition NXDN_SR_1_4 :: u8 where "NXDN_SR_1_4 = 3"
definition NXDN_MESSAGE_TYPE_VCALL :: u8 where "NXDN_MESSAGE_TYPE_VCALL = 0x01"
definition NXDN_MESSAGE_TYPE_DCALL_HDR :: u8 where "NXDN_MESSAGE_TYPE_DCALL_HDR = 0x09"
definition NXDN_MESSAGE_TYPE_DCALL_DATA :: u8 where "NXDN_MESSAGE_TYPE_DCALL_DATA = 0x0B"
definition NXDN_MESSAGE_TYPE_TX_REL :: u8 where "NXDN_MESSAGE_TYPE_TX_REL = 0x08"
definition NXDN_MESSAGE_TYPE_IDLE :: u8 where "NXDN_MESSAGE_TYPE_IDLE = 0x10"
definition NXDN_NET_VOICE_HEADER :: u8 where "NXDN_NET_VOICE_HEADER = 0"
definition NXDN_NET_VOICE_BODY :: u8 where "NXDN_NET_VOICE_BODY = 1"
definition NXDN_NET_VOICE_TRAILER :: u8 where "NXDN_NET_VOICE_TRAILER = 2"
definition NXDN_NET_DATA_HEADER :: u8 where "NXDN_NET_DATA_HEADER = 3"
definition NXDN_NET_DATA_BODY :: u8 where "NXDN_NET_DATA_BODY = 4"
definition NXDN_NET_DATA_TRAILER :: u8 where "NXDN_NET_DATA_TRAILER = 5"
definition NXDN_NET_DATA_LENGTH :: nat where "NXDN_NET_DATA_LENGTH = 40"

definition SACCH_IDLE :: bytes where "SACCH_IDLE = [NXDN_MESSAGE_TYPE_IDLE, 0x00, 0x00]"

definition NXDN_L3_TYPE :: "bytes \<Rightarrow> u8" where "NXDN_L3_TYPE l = l ! 0 AND 0x3F"
definition NXDN_L3_SRC :: "bytes \<Rightarrow> u16" where "NXDN_L3_SRC l = push_bit 8 (ucast (l ! 3)) OR ucast (l ! 4)"
definition NXDN_L3_DST :: "bytes \<Rightarrow> u16" where "NXDN_L3_DST l = push_bit 8 (ucast (l ! 5)) OR ucast (l ! 6)"
definition NXDN_L3_GROUP :: "bytes \<Rightarrow> bool" where "NXDN_L3_GROUP l \<longleftrightarrow> drop_bit 5 (l ! 2) AND 0x07 \<le> 1"

datatype NxdnRfState = NXDN_RF_LISTENING | NXDN_RF_AUDIO | NXDN_RF_DATA | NXDN_RF_REJECTED

datatype NxdnNetState = NXDN_NET_IDLE | NXDN_NET_AUDIO | NXDN_NET_DATA

datatype NxdnEvent =
    NXDN_EV_RF_START | NXDN_EV_RF_LATE | NXDN_EV_RF_END | NXDN_EV_RF_LOST | NXDN_EV_RF_REJECTED
  | NXDN_EV_NET_START | NXDN_EV_NET_END | NXDN_EV_NET_LOST | NXDN_EV_NET_SWITCH

record NxdnCall =
  call_event :: NxdnEvent
  src :: u16
  dst :: u16
  group :: bool
  call_data :: bool
  seconds :: u32
  ber :: "u32 \<times> u32"

datatype nxdn_out = SendNet bytes u8 | SendRf bytes bool | CallEvent NxdnCall

record NxdnCtrl =
  c_ran :: u8
  c_id :: u16
  selfOnly :: bool
  remoteGateway :: bool
  duplex :: bool
  localRepeat :: bool
  rfTimeoutMs :: u32
  netWatchdogMs :: u32
  sendNet :: bool
  sendRf :: bool
  event :: bool
  rfState :: NxdnRfState
  netState :: NxdnNetState
  rfMask :: u8
  netMask :: u8
  rfLayer3 :: bytes
  netLayer3 :: bytes
  lastLich :: u8
  rfFrames :: u32
  rfErrs :: u32
  rfBits :: u32
  netFrames :: u32
  rfTimer :: u32
  rfTimerRunning :: bool
  netTimer :: u32
  netWatchdog :: u32
  netWatchdogRunning :: bool
  trace :: "nxdn_out list"

subsection \<open>Small functions\<close>

text \<open>\<open>memcpy(dst + k, src, n)\<close>, and a function applied to the buffer from \<open>dst + k\<close> on.\<close>

definition memcpy_at :: "bytes \<Rightarrow> nat \<Rightarrow> bytes \<Rightarrow> nat \<Rightarrow> bytes" where
  "memcpy_at buf k p n = take k buf @ take n p @ drop (k + n) buf"

definition from_at :: "nat \<Rightarrow> (bytes \<Rightarrow> bytes) \<Rightarrow> bytes \<Rightarrow> bytes" where
  "from_at k f buf = take k buf @ f (drop k buf)"

definition nxdnCtrlInit :: "NxdnCtrl \<Rightarrow> NxdnCtrl" where
  "nxdnCtrlInit c = c\<lparr>c_ran := 1, c_id := 0, selfOnly := False, remoteGateway := False, localRepeat := False,
     duplex := False, rfTimeoutMs := 180000, netWatchdogMs := 1500, sendNet := False, sendRf := False, event := False,
     rfState := NXDN_RF_LISTENING, netState := NXDN_NET_IDLE, rfMask := 0, netMask := 0,
     rfLayer3 := replicate 22 0, netLayer3 := replicate 22 0, lastLich := 0, rfFrames := 0, rfErrs := 0, rfBits := 1,
     netFrames := 0, rfTimer := 0, rfTimerRunning := False, netTimer := 0, netWatchdog := 0, netWatchdogRunning := False\<rparr>"

definition emit :: "NxdnCtrl \<Rightarrow> NxdnEvent \<Rightarrow> bytes \<Rightarrow> bool \<Rightarrow> u32 \<Rightarrow> u32 \<times> u32 \<Rightarrow> NxdnCtrl" where
  "emit c ev l3 data frames rate =
     (if \<not> event c then c
      else c\<lparr>trace := trace c @ [CallEvent \<lparr>call_event = ev, src = NXDN_L3_SRC l3, dst = NXDN_L3_DST l3,
        group = NXDN_L3_GROUP l3, call_data = data, seconds = frames, ber = rate\<rparr>]\<rparr>)"

definition rfBer :: "NxdnCtrl \<Rightarrow> u32 \<times> u32" where
  "rfBer c = (rfErrs c * 100, rfBits c)"

definition rfTimedOut :: "NxdnCtrl \<Rightarrow> bool" where
  "rfTimedOut c \<longleftrightarrow> rfTimerRunning c \<and> rfTimer c \<ge> rfTimeoutMs c"

definition toNet :: "NxdnCtrl \<Rightarrow> bytes \<Rightarrow> u8 \<Rightarrow> NxdnCtrl" where
  "toNet c netData type =
     (if \<not> sendNet c \<or> rfTimedOut c then c else c\<lparr>trace := trace c @ [SendNet netData type]\<rparr>)"

definition toRf :: "NxdnCtrl \<Rightarrow> bytes \<Rightarrow> bool \<Rightarrow> NxdnCtrl" where
  "toRf c frame eot =
     (if \<not> sendRf c then c
      else c\<lparr>trace := trace c @ [SendRf (nxdnScramble (take NXDN_FRAME_LENGTH_BYTES frame)) eot]\<rparr>)"

definition endRf :: "NxdnCtrl \<Rightarrow> NxdnCtrl" where
  "endRf c = c\<lparr>rfState := NXDN_RF_LISTENING, rfMask := 0, rfLayer3 := replicate 22 0, rfTimerRunning := False, rfTimer := 0\<rparr>"

definition endNet :: "NxdnCtrl \<Rightarrow> NxdnCtrl" where
  "endNet c = c\<lparr>netState := NXDN_NET_IDLE, netMask := 0, netLayer3 := replicate 22 0, netTimer := 0,
     netWatchdogRunning := False, netWatchdog := 0\<rparr>"

definition direction :: "NxdnCtrl \<Rightarrow> u8" where
  "direction c = (if remoteGateway c \<or> \<not> duplex c then NXDN_LICH_DIRECTION_INBOUND else NXDN_LICH_DIRECTION_OUTBOUND)"

definition inboundRaw :: "u8 \<Rightarrow> u8" where
  "inboundRaw lich = lich AND NOT 0x02"

definition startRf :: "NxdnCtrl \<Rightarrow> NxdnEvent \<Rightarrow> NxdnCtrl" where
  "startRf c ev =
     (let c = c\<lparr>rfFrames := 0, rfErrs := 0, rfBits := 1, rfTimer := 0, rfTimerRunning := True, rfState := NXDN_RF_AUDIO\<rparr>
      in emit c ev (rfLayer3 c) False 0 (0, 1))"

text \<open>The SACCH of a single frame, with the idle message.\<close>

definition idleSacch :: "NxdnCtrl \<Rightarrow> bytes" where
  "idleSacch c =
     (let sacch = replicate 5 0;
          sacch = nxdnSacchSetRAN sacch (c_ran c);
          sacch = nxdnSacchSetStructure sacch NXDN_SR_SINGLE
      in nxdnSacchSetData sacch SACCH_IDLE)"

definition buildFacchFrame :: "NxdnCtrl \<Rightarrow> bytes \<Rightarrow> bytes option \<Rightarrow> bytes \<times> bytes option" where
  "buildFacchFrame c l3 netData =
     (let frame = nxdnAddSync (replicate NXDN_FRAME_LENGTH_BYTES 0);
          lich = nxdnLichMake NXDN_LICH_RFCT_RDCH NXDN_LICH_USC_SACCH_NS NXDN_LICH_STEAL_FACCH (direction c);
          frame = nxdnLichEncode lich frame;
          sacch = idleSacch c;
          frame = nxdnSacchEncode sacch frame;
          frame = nxdnFacch1Encode l3 frame NXDN_FACCH1_OFFSET_1;
          frame = nxdnFacch1Encode l3 frame NXDN_FACCH1_OFFSET_2
      in (frame, case netData of None \<Rightarrow> None
                 | Some n \<Rightarrow>
                     let n = replicate NXDN_NET_DATA_LENGTH 0;
                         n = n[0 := inboundRaw lich];
                         n = from_at 1 (nxdnSacchGetRaw sacch) n;
                         raw = nxdnFacch1GetRaw l3 (replicate 12 0);
                         n = memcpy_at n 5 raw 12
                     in Some (memcpy_at n 19 raw 12)))"

subsection \<open>Voice frames from the receiver\<close>

text \<open>FACCH1 from the first place, or from the second when the first is bad.\<close>

definition facchEither :: "Conv \<Rightarrow> bytes \<Rightarrow> bytes \<Rightarrow> bool \<times> bytes" where
  "facchEither conv0 t0 data =
     (let (v, facch) = nxdnFacch1Decode conv0 t0 data NXDN_FACCH1_OFFSET_1 (replicate 12 0)
      in if \<not> v then nxdnFacch1Decode conv0 t0 data NXDN_FACCH1_OFFSET_2 facch else (v, facch))"

definition facchLayer3 :: "bytes \<Rightarrow> bytes" where
  "facchLayer3 facch = nxdnL3Decode (replicate 22 0) facch 80 0"

text \<open>A header or a trailer.\<close>

definition voiceHeader :: "Conv \<Rightarrow> bytes \<Rightarrow> NxdnCtrl \<Rightarrow> bytes \<Rightarrow> bool \<times> NxdnCtrl" where
  "voiceHeader conv0 t0 c data =
     (let (v, facch) = facchEither conv0 t0 data
      in if \<not> v then (False, c)
      else let layer3 = facchLayer3 facch; type = NXDN_L3_TYPE layer3
      in if type = NXDN_MESSAGE_TYPE_TX_REL \<and> rfState c \<noteq> NXDN_RF_AUDIO
         then (False, c\<lparr>rfState := NXDN_RF_LISTENING, rfMask := 0, rfLayer3 := replicate 22 0\<rparr>)
      else if type = NXDN_MESSAGE_TYPE_VCALL \<and> rfState c = NXDN_RF_LISTENING \<and> selfOnly c \<and> NXDN_L3_SRC layer3 \<noteq> c_id c
         then (True, emit (c\<lparr>rfState := NXDN_RF_REJECTED\<rparr>) NXDN_EV_RF_REJECTED layer3 False 0 (0, 1))
      else if type \<noteq> NXDN_MESSAGE_TYPE_TX_REL \<and> type \<noteq> NXDN_MESSAGE_TYPE_VCALL then (False, c)
      else let c = c\<lparr>rfLayer3 := layer3\<rparr>;
               eot = (type = NXDN_MESSAGE_TYPE_TX_REL);
               (frame, netData) = buildFacchFrame c layer3 (Some (replicate NXDN_NET_DATA_LENGTH 0));
               c = toNet c (the netData) (if eot then NXDN_NET_VOICE_TRAILER else NXDN_NET_VOICE_HEADER);
               c = (if localRepeat c then toRf c frame eot else c)
           in (True, if eot
                     then let c = c\<lparr>rfFrames := rfFrames c + 1\<rparr>
                          in endRf (emit c NXDN_EV_RF_END (rfLayer3 c) False (rfFrames c) (rfBer c))
                     else startRf c NXDN_EV_RF_START))"

text \<open>The superblock: a quarter of the message in each SACCH.\<close>

definition superblock :: "u8 \<Rightarrow> bytes \<Rightarrow> u8 \<times> bytes \<Rightarrow> u8 \<times> bytes" where
  "superblock structure message st =
     (let (mask, layer3) = st
      in if structure = NXDN_SR_1_4 then
           (let layer3 = nxdnL3Decode layer3 message 18 0
            in (if NXDN_L3_TYPE layer3 = NXDN_MESSAGE_TYPE_VCALL then 0x01 else 0x00, layer3))
         else if structure = NXDN_SR_2_4 then (mask OR 0x02, nxdnL3Decode layer3 message 18 18)
         else if structure = NXDN_SR_3_4 then (mask OR 0x04, nxdnL3Decode layer3 message 18 36)
         else if structure = NXDN_SR_4_4 then (mask OR 0x08, nxdnL3Decode layer3 message 18 54)
         else (mask, layer3))"

text \<open>Late entry: the call information is found in a stolen FACCH1 or in the superblock.  \<open>Inl\<close> returns.\<close>

definition lateFacch :: "Conv \<Rightarrow> bytes \<Rightarrow> u8 \<Rightarrow> bytes \<Rightarrow> bool \<times> bytes" where
  "lateFacch conv0 t0 option data =
     (if option = NXDN_LICH_STEAL_FACCH then facchEither conv0 t0 data
      else if option = NXDN_LICH_STEAL_FACCH1_1 then nxdnFacch1Decode conv0 t0 data NXDN_FACCH1_OFFSET_1 (replicate 12 0)
      else if option = NXDN_LICH_STEAL_FACCH1_2 then nxdnFacch1Decode conv0 t0 data NXDN_FACCH1_OFFSET_2 (replicate 12 0)
      else (False, replicate 12 0))"

definition lateInfo :: "Conv \<Rightarrow> bytes \<Rightarrow> NxdnCtrl \<Rightarrow> u8 \<Rightarrow> bool \<Rightarrow> bytes \<Rightarrow> bytes \<Rightarrow> NxdnCtrl + NxdnCtrl" where
  "lateInfo conv0 t0 c option valid sacch data =
     (let (v, facch) = lateFacch conv0 t0 option data
      in if v then
           (let layer3 = facchLayer3 facch
            in if NXDN_L3_TYPE layer3 \<noteq> NXDN_MESSAGE_TYPE_VCALL then Inl c else Inr (c\<lparr>rfLayer3 := layer3\<rparr>))
         else if \<not> valid then Inl c
         else let message = nxdnSacchGetData sacch (replicate 3 0);
                  (mask, layer3) = superblock (NXDN_SACCH_STRUCTURE sacch) message (rfMask c, rfLayer3 c);
                  c = c\<lparr>rfMask := mask, rfLayer3 := layer3\<rparr>
              in if rfMask c \<noteq> 0x0F then Inl c
                 else if NXDN_L3_TYPE (rfLayer3 c) \<noteq> NXDN_MESSAGE_TYPE_VCALL then Inl c
                 else Inr c)"

definition lateStart :: "Conv \<Rightarrow> bytes \<Rightarrow> NxdnCtrl \<Rightarrow> u8 \<Rightarrow> bool \<Rightarrow> bytes \<Rightarrow> bytes \<Rightarrow> (bool \<times> NxdnCtrl) + NxdnCtrl" where
  "lateStart conv0 t0 c option valid sacch data =
     (case lateInfo conv0 t0 c option valid sacch data of
        Inl c \<Rightarrow> Inl (False, c)
      | Inr c \<Rightarrow>
          if selfOnly c \<and> NXDN_L3_SRC (rfLayer3 c) \<noteq> c_id c then
            Inl (True, emit (c\<lparr>rfState := NXDN_RF_REJECTED\<rparr>) NXDN_EV_RF_REJECTED (rfLayer3 c) False 0 (0, 1))
          else
            let c = startRf c NXDN_EV_RF_LATE;
                (start, netData) = buildFacchFrame c (rfLayer3 c) (Some (replicate NXDN_NET_DATA_LENGTH 0));
                c = toNet c (the netData) NXDN_NET_VOICE_HEADER
            in Inr (if localRepeat c then toRf c start False else c))"

text \<open>
  The contents of a voice frame: \<open>(data, netData, errors, bits)\<close>.  \<open>facchRelay\<close> corrects a stolen FACCH1
  in place and copies it to the packet, \<open>voiceRelay\<close> decodes two voice blocks into the packet.
\<close>

definition facchRelay :: "Conv \<Rightarrow> bytes \<Rightarrow> nat \<Rightarrow> nat \<Rightarrow> bytes \<times> bytes \<Rightarrow> bytes \<times> bytes" where
  "facchRelay conv0 t0 offset k st =
     (let (data, netData) = st;
          (v, facch) = nxdnFacch1Decode conv0 t0 data offset (replicate 12 0);
          data = (if v then nxdnFacch1Encode facch data offset else data)
      in (data, from_at (5 + k) (nxdnFacch1GetRaw facch) netData))"

definition voiceRelay :: "nat \<Rightarrow> nat \<Rightarrow> bytes \<times> bytes \<times> u32 \<Rightarrow> (bytes \<times> bytes \<times> u32) option" where
  "voiceRelay a k st =
     (let (data, netData, errors) = st
      in case nxdnAudioDecode (drop (NXDN_FSW_LICH_SACCH_LENGTH_BYTES + a) data) (drop (5 + k) netData) (Some errors) of
           None \<Rightarrow> None
         | Some (n, e) \<Rightarrow> Some (data, take (5 + k) netData @ n, the e))"

definition voiceContents :: "Conv \<Rightarrow> bytes \<Rightarrow> u8 \<Rightarrow> bytes \<Rightarrow> bytes \<Rightarrow> (bytes \<times> bytes \<times> u32 \<times> u32) option" where
  "voiceContents conv0 t0 option data netData =
     (if option = NXDN_LICH_STEAL_NONE then
        (case voiceRelay 0 0 (data, netData, 0) of
           None \<Rightarrow> None
         | Some st \<Rightarrow> (case voiceRelay 18 14 st of
                          None \<Rightarrow> None
                        | Some (data, netData, errors) \<Rightarrow> Some (data, netData, errors, 188)))
      else if option = NXDN_LICH_STEAL_FACCH1_1 then
        (let (data, netData) = facchRelay conv0 t0 NXDN_FACCH1_OFFSET_1 0 (data, netData)
         in case voiceRelay 18 14 (data, netData, 0) of
              None \<Rightarrow> None
            | Some (data, netData, errors) \<Rightarrow> Some (data, netData, errors, 94))
      else if option = NXDN_LICH_STEAL_FACCH1_2 then
        (case voiceRelay 0 0 (data, netData, 0) of
           None \<Rightarrow> None
         | Some (data, netData, errors) \<Rightarrow>
             let (data, netData) = facchRelay conv0 t0 NXDN_FACCH1_OFFSET_2 14 (data, netData)
             in Some (data, netData, errors, 94))
      else
        (let (data, netData) = facchRelay conv0 t0 NXDN_FACCH1_OFFSET_1 0 (data, netData);
             (data, netData) = facchRelay conv0 t0 NXDN_FACCH1_OFFSET_2 14 (data, netData)
         in Some (data, netData, 0, 0)))"

definition voiceBody :: "Conv \<Rightarrow> bytes \<Rightarrow> NxdnCtrl \<Rightarrow> u8 \<Rightarrow> bool \<Rightarrow> bytes \<Rightarrow> bytes \<Rightarrow> NxdnCtrl option" where
  "voiceBody conv0 t0 c option valid sacch data =
     (let lich = nxdnLichMake NXDN_LICH_RFCT_RDCH NXDN_LICH_USC_SACCH_SS option (direction c);
          data = nxdnAddSync data;
          data = nxdnLichEncode lich data;
          netData = (replicate NXDN_NET_DATA_LENGTH 0)[0 := inboundRaw lich];
          sacch = (if valid then nxdnSacchSetRAN sacch (c_ran c) else sacch);
          data = (if valid then nxdnSacchEncode sacch data else data);
          netData = from_at 1 (nxdnSacchGetRaw sacch) netData
      in case voiceContents conv0 t0 option data netData of
           None \<Rightarrow> None
         | Some (data, netData, errors, bits) \<Rightarrow>
             let c = c\<lparr>rfErrs := rfErrs c + errors, rfBits := rfBits c + bits\<rparr>;
                 c = toNet c netData NXDN_NET_VOICE_BODY;
                 c = (if localRepeat c then toRf c data False else c)
             in Some (c\<lparr>rfFrames := rfFrames c + 1\<rparr>))"

definition processVoice :: "Conv \<Rightarrow> bytes \<Rightarrow> NxdnCtrl \<Rightarrow> u8 \<Rightarrow> u8 \<Rightarrow> bytes \<Rightarrow> (bool \<times> NxdnCtrl) option" where
  "processVoice conv0 t0 c usc option data =
     (let (valid, sacch) = nxdnSacchDecode conv0 t0 data (replicate 5 0)
      in if valid \<and> NXDN_SACCH_RAN sacch \<noteq> c_ran c \<and> NXDN_SACCH_RAN sacch \<noteq> 0 then Some (False, c)
         else if \<not> valid \<and> rfState c = NXDN_RF_LISTENING then Some (False, c)
         else if usc = NXDN_LICH_USC_SACCH_NS then Some (voiceHeader conv0 t0 c data)
         else case (if rfState c = NXDN_RF_LISTENING then lateStart conv0 t0 c option valid sacch data else Inr c) of
                Inl r \<Rightarrow> Some r
              | Inr c \<Rightarrow>
                  if rfState c = NXDN_RF_AUDIO
                  then (case voiceBody conv0 t0 c option valid sacch data of None \<Rightarrow> None | Some c \<Rightarrow> Some (True, c))
                  else Some (True, c))"

subsection \<open>Data frames from the receiver\<close>

definition dataRelay :: "NxdnCtrl \<Rightarrow> u8 \<Rightarrow> bool \<Rightarrow> bytes \<Rightarrow> bytes \<Rightarrow> bytes \<Rightarrow> NxdnCtrl" where
  "dataRelay c option validUdch udch layer3 data =
     (let data = nxdnAddSync data;
          lich = nxdnLichMake NXDN_LICH_RFCT_RDCH NXDN_LICH_USC_UDCH option (direction c);
          data = nxdnLichEncode lich data;
          netData = (replicate NXDN_NET_DATA_LENGTH 0)[0 := inboundRaw lich];
          netData = memcpy_at netData 1 udch 23;
          type = (if validUdch then NXDN_L3_TYPE layer3 else NXDN_MESSAGE_TYPE_DCALL_DATA);
          eot = (validUdch \<and> type = NXDN_MESSAGE_TYPE_TX_REL);
          udch = (if validUdch then udch[0 := c_ran c] else udch);
          data = (if validUdch then nxdnUdchEncode udch data else data);
          c = (if type = NXDN_MESSAGE_TYPE_DCALL_HDR then toNet c netData NXDN_NET_DATA_HEADER
               else if type = NXDN_MESSAGE_TYPE_TX_REL then toNet c netData NXDN_NET_DATA_TRAILER
               else toNet c netData NXDN_NET_DATA_BODY);
          c = (if localRepeat c then toRf c data eot else c);
          c = c\<lparr>rfFrames := rfFrames c + 1\<rparr>
      in if eot then endRf (emit c NXDN_EV_RF_END (rfLayer3 c) True (rfFrames c) (0, 1)) else c)"

definition processData :: "Conv \<Rightarrow> bytes \<Rightarrow> NxdnCtrl \<Rightarrow> u8 \<Rightarrow> bytes \<Rightarrow> bool \<times> NxdnCtrl" where
  "processData conv0 t0 c option data =
     (let (validUdch, udch) = nxdnUdchDecode conv0 t0 data (replicate 25 0);
          sent_ran = udch ! 0 AND 0x3F;
          layer3 = take 22 (drop 1 udch)
      in if rfState c = NXDN_RF_LISTENING \<and> \<not> validUdch then (False, c)
         else if validUdch \<and> sent_ran \<noteq> c_ran c \<and> sent_ran \<noteq> 0 then (False, c)
         else if rfState c = NXDN_RF_LISTENING \<and> NXDN_L3_TYPE layer3 \<noteq> NXDN_MESSAGE_TYPE_DCALL_HDR then (False, c)
         else if rfState c = NXDN_RF_LISTENING \<and> selfOnly c \<and> NXDN_L3_SRC layer3 \<noteq> c_id c then (False, c)
         else let c = (if rfState c = NXDN_RF_LISTENING
                       then emit (c\<lparr>rfLayer3 := layer3, rfFrames := 0, rfState := NXDN_RF_DATA\<rparr>) NXDN_EV_RF_START layer3 True 0 (0, 1)
                       else c)
              in if rfState c \<noteq> NXDN_RF_DATA then (False, c)
                 else (True, dataRelay c option validUdch udch layer3 data))"

subsection \<open>The receiver\<close>

definition rfLost :: "NxdnCtrl \<Rightarrow> NxdnCtrl" where
  "rfLost c =
     endRf (if rfState c = NXDN_RF_AUDIO then emit c NXDN_EV_RF_LOST (rfLayer3 c) False (rfFrames c) (rfBer c)
            else if rfState c = NXDN_RF_DATA then emit c NXDN_EV_RF_LOST (rfLayer3 c) True (rfFrames c) (0, 1)
            else c)"

definition nxdnCtrlRf :: "Conv \<Rightarrow> bytes \<Rightarrow> NxdnCtrl \<Rightarrow> bytes \<Rightarrow> bool \<Rightarrow> NxdnCtrl option" where
  "nxdnCtrlRf conv0 t0 c frame lost =
     (if lost then Some (rfLost c)
      else let data = nxdnScramble (take NXDN_FRAME_LENGTH_BYTES frame);
               (v, lich) = nxdnLichDecode data;
               c = (if v then c\<lparr>lastLich := lich\<rparr> else c);
               dir = NXDN_LICH_DIRECTION (lastLich c)
           in if (if remoteGateway c then dir = NXDN_LICH_DIRECTION_INBOUND else dir = NXDN_LICH_DIRECTION_OUTBOUND) then Some c
              else let usc = NXDN_LICH_FCT (lastLich c); option = NXDN_LICH_OPTION (lastLich c)
                   in if usc = NXDN_LICH_USC_UDCH then Some (snd (processData conv0 t0 c option data))
                      else map_option snd (processVoice conv0 t0 c usc option data))"

subsection \<open>The network\<close>

definition netCloseOnAir :: "NxdnCtrl \<Rightarrow> NxdnCtrl" where
  "netCloseOnAir c =
     (let l3 = netLayer3 c;
          l3 = l3[0 := (l3 ! 0 AND 0xC0) OR NXDN_MESSAGE_TYPE_TX_REL];
          (frame, n) = buildFacchFrame c l3 None
      in toRf c frame True)"

definition netUdch :: "NxdnCtrl \<Rightarrow> bytes \<Rightarrow> bytes \<Rightarrow> NxdnCtrl" where
  "netUdch c netData data =
     (let layer3 = take 22 (drop 2 netData); type = NXDN_L3_TYPE layer3
      in if netState c = NXDN_NET_IDLE \<and> type \<noteq> NXDN_MESSAGE_TYPE_DCALL_HDR then c
         else let c = (if netState c = NXDN_NET_IDLE
                       then (emit (c\<lparr>netLayer3 := layer3\<rparr>) NXDN_EV_NET_START layer3 True 0 (0, 1))\<lparr>netState := NXDN_NET_DATA, netTimer := 0\<rparr>
                       else c)
              in if netState c = NXDN_NET_DATA then
                   let udch = c_ran c # take 22 (drop 2 netData);
                       data = nxdnUdchEncode udch data;
                       eot = (type = NXDN_MESSAGE_TYPE_TX_REL);
                       c = toRf c data eot
                   in if eot then endNet (emit c NXDN_EV_NET_END (netLayer3 c) True 0 (0, 1)) else c
                 else c)"

text \<open>A header or a trailer from the network.  \<open>netSwitch\<close> ends the call of a talker who was never released.\<close>

definition netSwitch :: "NxdnCtrl \<Rightarrow> bytes \<Rightarrow> NxdnCtrl" where
  "netSwitch c oldL3 =
     (let newL3 = netLayer3 c;
          wasData = (netState c = NXDN_NET_DATA);
          c = c\<lparr>netLayer3 := oldL3\<rparr>;
          c = emit c NXDN_EV_NET_SWITCH (netLayer3 c) wasData (netFrames c) (0, 1);
          c = netCloseOnAir c;
          c = endNet c
      in c\<lparr>netLayer3 := newL3\<rparr>)"

definition netHeader :: "NxdnCtrl \<Rightarrow> bytes \<Rightarrow> bytes \<Rightarrow> NxdnCtrl" where
  "netHeader c netData data =
     (let oldL3 = netLayer3 c;
          c = c\<lparr>netLayer3 := memcpy_at (replicate 22 0) 0 (drop 5 netData) 10\<rparr>;
          type = NXDN_L3_TYPE (netLayer3 c)
      in if type = NXDN_MESSAGE_TYPE_TX_REL \<and> netState c = NXDN_NET_IDLE then c
         else if type = NXDN_MESSAGE_TYPE_VCALL \<and> netState c \<noteq> NXDN_NET_IDLE \<and>
                 (NXDN_L3_SRC oldL3 = 0 \<or> NXDN_L3_SRC (netLayer3 c) = NXDN_L3_SRC oldL3) then c
         else let c = (if type = NXDN_MESSAGE_TYPE_VCALL \<and> netState c \<noteq> NXDN_NET_IDLE then netSwitch c oldL3 else c);
                  data = nxdnSacchEncode (idleSacch c) data;
                  data = nxdnFacch1Encode (drop 5 netData) data NXDN_FACCH1_OFFSET_1;
                  data = nxdnFacch1Encode (drop 5 netData) data NXDN_FACCH1_OFFSET_2;
                  eot = (type = NXDN_MESSAGE_TYPE_TX_REL);
                  c = toRf c data eot
              in if eot then
                   let c = c\<lparr>netFrames := netFrames c + 1\<rparr>
                   in endNet (emit c NXDN_EV_NET_END (netLayer3 c) False (netFrames c) (0, 1))
                 else if type = NXDN_MESSAGE_TYPE_VCALL then
                   (emit c NXDN_EV_NET_START (netLayer3 c) False 0 (0, 1))\<lparr>netTimer := 0, netState := NXDN_NET_AUDIO, netFrames := 1\<rparr>
                 else c)"

text \<open>Late entry from the network; \<open>Inl\<close> returns.\<close>

definition netLate :: "NxdnCtrl \<Rightarrow> bytes \<Rightarrow> NxdnCtrl + NxdnCtrl" where
  "netLate c netData =
     (let structure = drop_bit 6 (netData ! 1) AND 0x03;
          (mask, layer3) = superblock structure (drop 2 netData) (netMask c, netLayer3 c);
          c = c\<lparr>netMask := mask, netLayer3 := layer3\<rparr>
      in if netMask c \<noteq> 0x0F then Inl c
         else if NXDN_L3_TYPE (netLayer3 c) \<noteq> NXDN_MESSAGE_TYPE_VCALL then Inl c
         else let c = emit c NXDN_EV_NET_START (netLayer3 c) False 0 (0, 1);
                  c = c\<lparr>netTimer := 0, netWatchdogRunning := True, netWatchdog := 0, netState := NXDN_NET_AUDIO, netFrames := 1\<rparr>;
                  (start, n) = buildFacchFrame c (netLayer3 c) None
              in Inr (toRf c start False))"

definition voiceFrame :: "u8 \<Rightarrow> bytes \<Rightarrow> bytes \<Rightarrow> bytes" where
  "voiceFrame option netData data =
     (let audio = (\<lambda>k a data. from_at (NXDN_FSW_LICH_SACCH_LENGTH_BYTES + a) (nxdnAudioEncode (drop (5 + k) netData)) data)
      in if option = NXDN_LICH_STEAL_NONE then audio 14 18 (audio 0 0 data)
         else if option = NXDN_LICH_STEAL_FACCH1_1 then
           audio 14 18 (nxdnFacch1Encode (drop (5 + 0) netData) data NXDN_FACCH1_OFFSET_1)
         else if option = NXDN_LICH_STEAL_FACCH1_2 then
           nxdnFacch1Encode (drop (5 + 14) netData) (audio 0 0 data) NXDN_FACCH1_OFFSET_2
         else
           nxdnFacch1Encode (drop (5 + 14) netData) (nxdnFacch1Encode (drop (5 + 0) netData) data NXDN_FACCH1_OFFSET_1)
             NXDN_FACCH1_OFFSET_2)"

definition netBody :: "NxdnCtrl \<Rightarrow> u8 \<Rightarrow> bytes \<Rightarrow> bytes \<Rightarrow> NxdnCtrl" where
  "netBody c option netData data =
     (case (if netState c = NXDN_NET_IDLE then netLate c netData else Inr c) of
        Inl c \<Rightarrow> c
      | Inr c \<Rightarrow>
          let c = c\<lparr>netFrames := netFrames c + 1\<rparr>;
              sacch = memcpy_at (replicate 5 0) 0 (drop 1 netData) 4;
              sacch = nxdnSacchSetRAN sacch (c_ran c);
              data = nxdnSacchEncode sacch data;
              data = voiceFrame option netData data
          in toRf c data False)"

definition nxdnCtrlNet :: "NxdnCtrl \<Rightarrow> bytes \<Rightarrow> NxdnCtrl" where
  "nxdnCtrlNet c netData =
     (if rfState c \<noteq> NXDN_RF_LISTENING \<and> netState c = NXDN_NET_IDLE then c
      else let c = c\<lparr>netWatchdogRunning := True, netWatchdog := 0\<rparr>;
               data = nxdnAddSync (replicate NXDN_FRAME_LENGTH_BYTES 0);
               lich = netData ! 0;
               usc = NXDN_LICH_FCT lich;
               option = NXDN_LICH_OPTION lich;
               lich = (lich AND NOT 0x02) OR (push_bit 1 (direction c) AND 0x02);
               data = nxdnLichEncode lich data
           in if usc = NXDN_LICH_USC_UDCH then netUdch c netData data
              else if usc = NXDN_LICH_USC_SACCH_NS then netHeader c netData data
              else netBody c option netData data)"

subsection \<open>Clock, state and reset\<close>

definition nxdnCtrlClock :: "NxdnCtrl \<Rightarrow> u32 \<Rightarrow> NxdnCtrl" where
  "nxdnCtrlClock c ms =
     (let c = (if rfTimerRunning c then c\<lparr>rfTimer := rfTimer c + ms\<rparr> else c);
          c = (if netState c \<noteq> NXDN_NET_IDLE then c\<lparr>netTimer := netTimer c + ms\<rparr> else c)
      in if (netState c = NXDN_NET_AUDIO \<or> netState c = NXDN_NET_DATA) \<and> netWatchdogRunning c then
           let c = c\<lparr>netWatchdog := netWatchdog c + ms\<rparr>
           in if netWatchdog c \<ge> netWatchdogMs c
              then endNet (netCloseOnAir (emit c NXDN_EV_NET_LOST (netLayer3 c) (netState c = NXDN_NET_DATA) (netFrames c) (0, 1)))
              else c
         else c)"

definition nxdnCtrlBusy :: "NxdnCtrl \<Rightarrow> bool" where
  "nxdnCtrlBusy c \<longleftrightarrow> rfState c \<noteq> NXDN_RF_LISTENING \<or> netState c \<noteq> NXDN_NET_IDLE"

definition nxdnCtrlReset :: "NxdnCtrl \<Rightarrow> NxdnCtrl" where
  "nxdnCtrlReset c = endNet (endRf c)"

end
