(* ===== verification/NxdnFrames.thy ===== *)
theory NxdnFrames
  imports NxdnCtrl
begin

section \<open>The frames and packets of the NXDN control\<close>

text \<open>
  What the control builds is well formed: a frame for the transmitter has 48 bytes, the sync and a LICH
  with the right parity, and a packet for the network has 40 bytes and a LICH marked inbound.  The
  functions that decode voice always return.
\<close>

subsection \<open>Lengths\<close>

lemma from_at_length: "k \<le> length buf \<Longrightarrow> length (f (drop k buf)) = length buf - k \<Longrightarrow> length (from_at k f buf) = length buf"
  by (simp add: from_at_def)

lemma from_at_bits: "8 * k \<le> 8 * length buf \<Longrightarrow> j < 8 * k \<Longrightarrow> rbit (from_at k f buf) j = rbit buf j"
  by (simp add: from_at_def rbit_append rbit_take min_absorb2)

lemma from_at_nth: "i < k \<Longrightarrow> k \<le> length buf \<Longrightarrow> from_at k f buf ! i = buf ! i"
  by (simp add: from_at_def nth_append)

lemma memcpy_at_length: "k + n \<le> length buf \<Longrightarrow> n \<le> length p \<Longrightarrow> length (memcpy_at buf k p n) = length buf"
  by (simp add: memcpy_at_def)

lemma memcpy_at_nth: "i < k \<Longrightarrow> k \<le> length buf \<Longrightarrow> memcpy_at buf k p n ! i = buf ! i"
  by (simp add: memcpy_at_def nth_append)

lemma raw_length: "4 \<le> length sacch \<Longrightarrow> 4 \<le> length buf \<Longrightarrow> length (nxdnSacchGetRaw sacch buf) = length buf"
  by (simp add: nxdnSacchGetRaw_def Let_def)

lemma facch1_raw_length: "10 \<le> length f \<Longrightarrow> 12 \<le> length buf \<Longrightarrow> length (nxdnFacch1GetRaw f buf) = length buf"
  by (simp add: nxdnFacch1GetRaw_def Let_def)

lemma sacch_set_length [simp]:
  "length (nxdnSacchSetRAN sacch v) = length sacch" "length (nxdnSacchSetStructure sacch w) = length sacch"
  "length (nxdnSacchSetData sacch data) = length sacch" "length (nxdnL3Decode l3 msg n k) = length l3"
  by (simp_all add: nxdnSacchSetRAN_def nxdnSacchSetStructure_def nxdnSacchSetData_def nxdnL3Decode_def Let_def fold_length_inv)

lemma idleSacch_length [simp]: "length (idleSacch c) = 5"
  by (simp add: idleSacch_def Let_def)

text \<open>What no round of a loop changes, the loop does not change.\<close>

lemma fold_proj_inv: "(\<And>i st. g (f i st) = g st) \<Longrightarrow> g (fold f is st) = g st"
  by (induction "is" arbitrary: st) simp_all

lemma spread_length [simp]: "length (nxdn_spread w table n M buf) = length buf"
  unfolding nxdn_spread_def by (subst fold_proj_inv [of "\<lambda>st. length (fst st)"]) (simp_all split: prod.split)

lemma audio_encode_length [simp]: "9 \<le> length buf \<Longrightarrow> length (nxdnAudioEncode inp buf) = length buf"
  by (simp add: nxdnAudioEncode_def nxdnAudioEncodeBlock_def Let_def case_prod_unfold)

lemma chainback_length [simp]: "length (snd (convChainback c buf m)) = length buf"
proof -
  let ?g = "\<lambda>st :: Conv \<times> u32 \<times> bytes. length (snd (snd st))"
  have "?g (fold f (rev [0..<m]) (c, 0, buf)) = length buf" if "\<And>i st. ?g (f i st) = ?g st" for f
    by (subst fold_proj_inv [of ?g]) (use that in simp_all)
  then show ?thesis unfolding convChainback_def case_prod_unfold snd_conv Let_def by simp
qed

lemma chan_decode_length [simp]: "length (chanDecode conv temp2 chan frame offset n steps buf m) = length buf"
  unfolding chanDecode_def Let_def case_prod_unfold by (rule chainback_length)

lemma sacch_decode_length: "length sacch = 5 \<Longrightarrow> length (snd (nxdnSacchDecode conv t0 data sacch)) = 5"
  by (simp add: nxdnSacchDecode_def Let_def)

lemma facch1_decode_length: "length facch = 12 \<Longrightarrow> length (snd (nxdnFacch1Decode conv t0 data offset facch)) = 12"
  by (simp add: nxdnFacch1Decode_def Let_def)

lemma udch_decode_length: "length udch = 25 \<Longrightarrow> length (snd (nxdnUdchDecode conv t0 data udch)) = 25"
  by (simp add: nxdnUdchDecode_def Let_def)

subsection \<open>The voice decoders return\<close>

lemma decode_block_total: "\<exists>e out'. nxdnAudioDecodeBlock inp out offset = Some (e, out') \<and> length out' = length out"
proof -
  let ?a = "nxdn_collect inp A_TABLE 24 0x800000" and ?b = "nxdn_collect inp B_TABLE 23 0x400000"
  have "?a < 2 ^ 24" "?b < 2 ^ 23"
    using word_at_less [of A_TABLE inp] word_at_less [of B_TABLE inp] voice_tables(1,2)
    by (simp_all add: voice_masks collect_word)
  moreover obtain n a12 where a: "golay24128_errors24128 ?a = Some (n, a12)" "a12 < 4096"
    using errors24128_total [OF \<open>?a < 2 ^ 24\<close>] by blast
  ultimately have "?b XOR drop_bit 1 (AMBE_PRNG_TABLE ! unat a12) < 2 ^ 23"
    using drop_1_less [OF prng_less [OF a(2)]] by (intro word_xor_less_exp) simp_all
  then obtain m b12 where b: "golay24128_errors23127 (?b XOR drop_bit 1 (AMBE_PRNG_TABLE ! unat a12)) = Some (m, b12)"
    using errors23127_total by fastforce
  let ?g = "\<lambda>st :: bytes \<times> u32. length (fst st)"
  have g: "?g (fold f is (o1, M)) = length o1" if "\<And>i st. ?g (f i st) = ?g st" for f "is" o1 M
    by (subst fold_proj_inv [of ?g]) (use that in simp_all)
  show ?thesis
    unfolding nxdnAudioDecodeBlock_def Let_def a(1) option.case prod.case
    unfolding b option.case prod.case case_prod_unfold
    by (intro exI conjI, rule refl) (simp add: g)
qed

lemma audio_decode_total: "\<exists>out' e. nxdnAudioDecode inp out (Some n) = Some (out', Some e) \<and> length out' = length out"
proof -
  obtain e1 o1 where "nxdnAudioDecodeBlock inp out 0 = Some (e1, o1)" "length o1 = length out"
    using decode_block_total by blast
  moreover obtain e2 o2 where "nxdnAudioDecodeBlock (drop 9 inp) o1 49 = Some (e2, o2)" "length o2 = length o1"
    using decode_block_total by blast
  ultimately show ?thesis by (simp add: nxdnAudioDecode_def)
qed

subsection \<open>Frames with a header\<close>

text \<open>A frame that starts with the sync and the LICH, whatever follows.\<close>

definition headed :: "u8 \<Rightarrow> bytes \<Rightarrow> bool" where
  "headed lich f \<longleftrightarrow> length f = 48 \<and>
     (\<exists>fr. length fr = 48 \<and> (\<forall>j<36. rbit f j = rbit (nxdnLichEncode lich (nxdnAddSync fr)) j))"

definition frame_ok :: "bytes \<Rightarrow> bool" where
  "frame_ok f \<longleftrightarrow> length f = 48 \<and> nxdnHasSync f \<and> fst (nxdnLichDecode f)"

lemma headed_start: "length fr = 48 \<Longrightarrow> headed lich (nxdnLichEncode lich (nxdnAddSync fr))"
  unfolding headed_def using sync_added(1) [of fr] lich_encoded(1) [of "nxdnAddSync fr" lich] by auto

lemma headed_kept: "headed lich f \<Longrightarrow> length g = 48 \<Longrightarrow> (\<And>j. j < 36 \<Longrightarrow> rbit g j = rbit f j) \<Longrightarrow> headed lich g"
  unfolding headed_def by auto

lemma headed_length: "headed lich f \<Longrightarrow> length f = 48"
  by (simp add: headed_def)

lemma headed_sends:
  assumes "headed lich f"
  shows "nxdnHasSync f" "nxdnLichDecode f = (True, lich_sent lich)" "frame_ok f"
proof -
  obtain fr where fr: "length fr = 48" "\<And>j. j < 36 \<Longrightarrow> rbit f j = rbit (nxdnLichEncode lich (nxdnAddSync fr)) j"
    using assms unfolding headed_def by blast
  have len: "length f = 48" "length (nxdnAddSync fr) = 48" using assms sync_added(1) [of fr] fr(1) by (simp_all add: headed_def)
  note sent = lich_encoded(2) [OF len(2), of lich]
  show sync: "nxdnHasSync f"
    by (rule sync_found [of _ fr]) (use fr len sent in auto)
  have "nxdnLichDecode f = (lich_sent lich AND 1 = nxdnLichParity (lich_sent lich), lich_sent lich)"
    by (rule lich_decoded) (use fr(2) sent in auto)
  then show lich: "nxdnLichDecode f = (True, lich_sent lich)" by (simp only: lich_sent_parity refl)
  show "frame_ok f" using len(1) sync lich by (simp add: frame_ok_def)
qed

lemma headed_encoders:
  assumes "headed lich f"
  shows "headed lich (nxdnSacchEncode sacch f)" "headed lich (nxdnUdchEncode udch f)"
    and "96 \<le> offset \<Longrightarrow> offset + 144 \<le> 384 \<Longrightarrow> headed lich (nxdnFacch1Encode facch f offset)"
    and "12 \<le> a \<Longrightarrow> a + 9 \<le> 48 \<Longrightarrow> headed lich (from_at a (nxdnAudioEncode inp) f)"
proof -
  note len = headed_length [OF assms] and e = encoders_frame [OF headed_length [OF assms]]
  show "headed lich (nxdnSacchEncode sacch f)" "headed lich (nxdnUdchEncode udch f)"
    by (rule headed_kept [OF assms]; simp add: e)+
  show "headed lich (nxdnFacch1Encode facch f offset)" if "96 \<le> offset" "offset + 144 \<le> 384"
    by (rule headed_kept [OF assms]) (use that e in simp_all)
  show "headed lich (from_at a (nxdnAudioEncode inp) f)" if "12 \<le> a" "a + 9 \<le> 48"
    by (rule headed_kept [OF assms]) (use that len in \<open>simp_all add: from_at_length from_at_bits\<close>)
qed

lemma offsets: "96 \<le> NXDN_FACCH1_OFFSET_1" "NXDN_FACCH1_OFFSET_1 + 144 \<le> 384"
  "96 \<le> NXDN_FACCH1_OFFSET_2" "NXDN_FACCH1_OFFSET_2 + 144 \<le> 384"
  by (simp_all add: NXDN_FACCH1_OFFSET_1_def NXDN_FACCH1_OFFSET_2_def)

lemmas headed_facch = headed_encoders(3) [OF _ offsets(1,2)] headed_encoders(3) [OF _ offsets(3,4)]

lemma voiceFrame_headed: "headed lich f \<Longrightarrow> headed lich (voiceFrame option netData f)"
  by (auto simp: voiceFrame_def Let_def NXDN_FSW_LICH_SACCH_LENGTH_BYTES_def intro!: headed_facch headed_encoders)

subsection \<open>Packets for the network\<close>

definition packet_ok :: "bytes \<Rightarrow> bool" where
  "packet_ok n \<longleftrightarrow> length n = 40 \<and> NXDN_LICH_DIRECTION (n ! 0) = NXDN_LICH_DIRECTION_INBOUND"

lemma inbound: "NXDN_LICH_DIRECTION (inboundRaw lich) = NXDN_LICH_DIRECTION_INBOUND"
proof -
  have "drop_bit 1 (NOT 2 :: u8) AND 1 = 0" by simp
  then have "drop_bit 1 (lich AND NOT 2) AND 1 = 0" by (simp add: drop_bit_and and.assoc)
  then show ?thesis by (simp add: NXDN_LICH_DIRECTION_def inboundRaw_def NXDN_LICH_DIRECTION_INBOUND_def)
qed

lemma packet_start: "packet_ok ((replicate NXDN_NET_DATA_LENGTH 0)[0 := inboundRaw lich])"
  using inbound by (simp add: packet_ok_def NXDN_NET_DATA_LENGTH_def)

lemma packet_kept: "packet_ok n \<Longrightarrow> length m = 40 \<Longrightarrow> m ! 0 = n ! 0 \<Longrightarrow> packet_ok m"
  by (simp add: packet_ok_def)

lemma packet_length: "packet_ok n \<Longrightarrow> length n = 40"
  by (simp add: packet_ok_def)

lemma packet_parts:
  assumes "packet_ok n"
  shows "4 \<le> length sacch \<Longrightarrow> packet_ok (from_at 1 (nxdnSacchGetRaw sacch) n)"
    and "10 \<le> length facch \<Longrightarrow> 0 < k \<Longrightarrow> k + 12 \<le> 40 \<Longrightarrow> packet_ok (from_at k (nxdnFacch1GetRaw facch) n)"
    and "0 < k \<Longrightarrow> k + m \<le> 40 \<Longrightarrow> m \<le> length p \<Longrightarrow> packet_ok (memcpy_at n k p m)"
  by (rule packet_kept [OF assms];
      use packet_length [OF assms] in \<open>simp add: from_at_length from_at_nth raw_length facch1_raw_length memcpy_at_length memcpy_at_nth\<close>)+

subsection \<open>What the control builds\<close>

lemma built_frame:
  assumes "buildFacchFrame c l3 n = (frame, m)" "10 \<le> length l3"
  shows "headed (nxdnLichMake NXDN_LICH_RFCT_RDCH NXDN_LICH_USC_SACCH_NS NXDN_LICH_STEAL_FACCH (direction c)) frame"
    and "m \<noteq> None \<longleftrightarrow> n \<noteq> None" "m = Some p \<Longrightarrow> packet_ok p"
proof -
  show "headed (nxdnLichMake NXDN_LICH_RFCT_RDCH NXDN_LICH_USC_SACCH_NS NXDN_LICH_STEAL_FACCH (direction c)) frame"
    using assms(1) unfolding buildFacchFrame_def Let_def NXDN_FRAME_LENGTH_BYTES_def
    by (auto intro!: headed_facch headed_encoders headed_start)
  show "m \<noteq> None \<longleftrightarrow> n \<noteq> None" using assms(1) by (auto simp: buildFacchFrame_def Let_def split: option.splits)
  have raw: "length (nxdnFacch1GetRaw l3 (replicate 12 0)) = 12" using assms(2) by (simp add: facch1_raw_length)
  show "packet_ok p" if "m = Some p"
    using assms(1) that unfolding buildFacchFrame_def Let_def
    by (auto intro!: packet_parts packet_start simp: raw simp del: One_nat_def split: option.splits)
qed

lemma voiceRelay_total:
  assumes "packet_ok n" "k + 5 \<le> 40"
  shows "\<exists>m e'. voiceRelay a k (data, n, e) = Some (data, m, e') \<and> packet_ok m"
proof -
  obtain m e' where "nxdnAudioDecode (drop (NXDN_FSW_LICH_SACCH_LENGTH_BYTES + a) data) (drop (5 + k) n) (Some e) = Some (m, Some e')"
      "length m = length (drop (5 + k) n)"
    using audio_decode_total by blast
  moreover have "packet_ok (take (5 + k) n @ m)"
    by (rule packet_kept [OF assms(1)]) (use calculation(2) packet_length [OF assms(1)] assms(2) in \<open>simp_all add: nth_append\<close>)
  ultimately show ?thesis by (simp add: voiceRelay_def)
qed

lemma facchRelay_ok:
  assumes "headed lich data" "packet_ok n" "96 \<le> offset" "offset + 144 \<le> 384" "k + 17 \<le> 40"
  shows "\<exists>d m. facchRelay conv t0 offset k (data, n) = (d, m) \<and> headed lich d \<and> packet_ok m"
proof -
  obtain v facch where f: "nxdnFacch1Decode conv t0 data offset (replicate 12 0) = (v, facch)" by fastforce
  then have "length facch = 12" using facch1_decode_length [of "replicate 12 0" conv t0 data offset] by simp
  then show ?thesis
    using assms f by (auto simp: facchRelay_def intro!: headed_encoders packet_parts)
qed

lemma voiceContents_total:
  assumes "headed lich data" "packet_ok n"
  shows "\<exists>d m e b. voiceContents conv t0 option data n = Some (d, m, e, b) \<and> headed lich d \<and> packet_ok m"
proof -
  have relay: "\<exists>m e'. voiceRelay a k (d, m0, e) = Some (d, m, e') \<and> packet_ok m" if "packet_ok m0" "k = 0 \<or> k = 14" for a k d m0 e
    using voiceRelay_total [OF that(1)] that(2) by auto
  have facch: "\<exists>d m. facchRelay conv t0 offset k (d0, m0) = (d, m) \<and> headed lich d \<and> packet_ok m"
    if "headed lich d0" "packet_ok m0" "offset = NXDN_FACCH1_OFFSET_1 \<or> offset = NXDN_FACCH1_OFFSET_2" "k = 0 \<or> k = 14" for offset k d0 m0
    using facchRelay_ok [OF that(1,2)] that(3,4) offsets by fastforce
  consider (none) "option = NXDN_LICH_STEAL_NONE" | (first) "option = NXDN_LICH_STEAL_FACCH1_1"
    | (second) "option = NXDN_LICH_STEAL_FACCH1_2"
    | (both) "option \<noteq> NXDN_LICH_STEAL_NONE" "option \<noteq> NXDN_LICH_STEAL_FACCH1_1" "option \<noteq> NXDN_LICH_STEAL_FACCH1_2" by blast
  then show ?thesis
  proof cases
    case none
    obtain m e where 1: "voiceRelay 0 0 (data, n, 0) = Some (data, m, e)" "packet_ok m" using relay [OF assms(2)] by blast
    moreover obtain m' e' where "voiceRelay 18 14 (data, m, e) = Some (data, m', e')" "packet_ok m'" using relay [OF 1(2)] by blast
    ultimately show ?thesis using none assms(1) by (simp add: voiceContents_def)
  next
    case first
    obtain d m where 1: "facchRelay conv t0 NXDN_FACCH1_OFFSET_1 0 (data, n) = (d, m)" "headed lich d" "packet_ok m"
      using facch [OF assms] by blast
    moreover obtain m' e' where "voiceRelay 18 14 (d, m, 0) = Some (d, m', e')" "packet_ok m'" using relay [OF 1(3)] by blast
    moreover have "NXDN_LICH_STEAL_FACCH1_1 \<noteq> NXDN_LICH_STEAL_NONE" by (simp add: NXDN_LICH_STEAL_FACCH1_1_def NXDN_LICH_STEAL_NONE_def)
    ultimately show ?thesis using first by (simp add: voiceContents_def)
  next
    case second
    obtain m e where 1: "voiceRelay 0 0 (data, n, 0) = Some (data, m, e)" "packet_ok m" using relay [OF assms(2)] by blast
    moreover obtain d m' where "facchRelay conv t0 NXDN_FACCH1_OFFSET_2 14 (data, m) = (d, m')" "headed lich d" "packet_ok m'"
      using facch [OF assms(1) 1(2)] by blast
    moreover have "NXDN_LICH_STEAL_FACCH1_2 \<noteq> NXDN_LICH_STEAL_NONE" "NXDN_LICH_STEAL_FACCH1_2 \<noteq> NXDN_LICH_STEAL_FACCH1_1"
      by (simp_all add: NXDN_LICH_STEAL_FACCH1_1_def NXDN_LICH_STEAL_FACCH1_2_def NXDN_LICH_STEAL_NONE_def)
    ultimately show ?thesis using second by (simp add: voiceContents_def)
  next
    case both
    obtain d m where 1: "facchRelay conv t0 NXDN_FACCH1_OFFSET_1 0 (data, n) = (d, m)" "headed lich d" "packet_ok m"
      using facch [OF assms] by blast
    moreover obtain d' m' where "facchRelay conv t0 NXDN_FACCH1_OFFSET_2 14 (d, m) = (d', m')" "headed lich d'" "packet_ok m'"
      using facch [OF 1(2,3)] by blast
    ultimately show ?thesis using both by (simp add: voiceContents_def)
  qed
qed

end
