(* ===== verification/Machine.thy ===== *)
theory Machine
  imports Main
begin

section \<open>Runs of a machine and its watchdog\<close>

text \<open>
  The runs of a step relation with inputs, and the contract of a watchdog: while a call is live every
  allowed input adds its ticks to a count, and the input that brings the count to the limit closes the
  call, which no allowed input opens again.  Then every run with enough ticks closes the call.
\<close>

inductive steps :: "('s \<Rightarrow> 'i \<Rightarrow> 's \<Rightarrow> bool) \<Rightarrow> 's \<Rightarrow> 'i list \<Rightarrow> 's \<Rightarrow> bool" for step where
  steps_Nil: "steps step s [] s"
| steps_Cons: "step s i s' \<Longrightarrow> steps step s' ins s'' \<Longrightarrow> steps step s (i # ins) s''"

inductive_simps steps_simps: "steps step s [] s''" "steps step s (i # ins) s''"

lemma steps_invariant:
  assumes "steps step s ins s'" "P s" "\<And>s i s'. step s i s' \<Longrightarrow> i \<in> set ins \<Longrightarrow> P s \<Longrightarrow> P s'"
  shows "P s'"
  using assms by (induction rule: steps.induct) (simp, metis list.set_intros)

text \<open>When every input is answered in every state, every list of inputs has a run.\<close>

lemma steps_total:
  assumes "P s" "\<And>s i. i \<in> set ins \<Longrightarrow> P s \<Longrightarrow> \<exists>s'. step s i s' \<and> P s'"
  shows "\<exists>s'. steps step s ins s' \<and> P s'"
  using assms
proof (induction ins arbitrary: s)
  case (Cons i ins)
  then obtain s1 where s1: "step s i s1" "P s1" by (meson list.set_intros(1))
  then obtain s' where "steps step s1 ins s'" "P s'" using Cons.IH [of s1] Cons.prems(2) by (meson list.set_intros(2))
  then show ?case using s1(1) by (blast intro: steps_Cons)
qed (blast intro: steps_Nil)

locale watchdog =
  fixes step :: "'s \<Rightarrow> 'i \<Rightarrow> 's \<Rightarrow> bool"
    and live closed :: "'s \<Rightarrow> bool"
    and count limit :: "'s \<Rightarrow> nat"
    and ticks :: "'i \<Rightarrow> nat"
    and allowed :: "nat \<Rightarrow> 'i \<Rightarrow> bool"
  assumes goes_on: "step s i s' \<Longrightarrow> allowed (limit s) i \<Longrightarrow> live s \<Longrightarrow> count s + ticks i < limit s \<Longrightarrow>
      live s' \<and> count s' = count s + ticks i"
    and fires: "step s i s' \<Longrightarrow> allowed (limit s) i \<Longrightarrow> live s \<Longrightarrow> count s < limit s \<Longrightarrow> limit s \<le> count s + ticks i \<Longrightarrow> closed s'"
    and same_limit: "step s i s' \<Longrightarrow> limit s' = limit s"
    and stays: "step s i s' \<Longrightarrow> allowed (limit s) i \<Longrightarrow> closed s \<Longrightarrow> closed s'"
begin

lemma stays_closed: "steps step s ins s' \<Longrightarrow> closed s \<Longrightarrow> \<forall>i\<in>set ins. allowed (limit s) i \<Longrightarrow> closed s'"
  by (induction rule: steps.induct) (auto simp: same_limit stays)

lemma closes:
  assumes "steps step s ins s'" "live s" "count s < limit s" "\<forall>i\<in>set ins. allowed (limit s) i"
    and "limit s \<le> count s + sum_list (map ticks ins)"
  shows "closed s' \<and> (\<exists>before i after s1 s2. ins = before @ i # after \<and> steps step s before s1 \<and> live s1 \<and> step s1 i s2 \<and>
    count s1 < limit s1 \<and> limit s1 \<le> count s1 + ticks i \<and> closed s2)"
  using assms
proof (induction rule: steps.induct)
  case (steps_Cons s i s1 ins s')
  show ?case
  proof (cases "count s + ticks i < limit s")
    case True
    then have "live s1" "count s1 = count s + ticks i" "limit s1 = limit s"
      using goes_on same_limit steps_Cons.hyps(1) steps_Cons.prems by auto
    then have c: "closed s' \<and> (\<exists>before j after t1 t2. ins = before @ j # after \<and> steps step s1 before t1 \<and> live t1 \<and> step t1 j t2 \<and>
        count t1 < limit t1 \<and> limit t1 \<le> count t1 + ticks j \<and> closed t2)"
      using steps_Cons True by simp
    then obtain before j after t1 t2 where "ins = before @ j # after" "steps step s1 before t1"
        and t: "live t1" "step t1 j t2" "count t1 < limit t1" "limit t1 \<le> count t1 + ticks j" "closed t2" by blast
    then have "i # ins = (i # before) @ j # after" "steps step s (i # before) t1"
      using steps_Cons.hyps(1) by (auto intro: steps.steps_Cons)
    then show ?thesis using c t by blast
  next
    case False
    then have f: "limit s \<le> count s + ticks i" by simp
    then have "closed s1" using fires steps_Cons.hyps(1) steps_Cons.prems by simp
    moreover from this have "closed s'" using stays_closed [OF steps_Cons.hyps(2)] same_limit [OF steps_Cons.hyps(1)] steps_Cons.prems by simp
    moreover have "i # ins = [] @ i # ins" "steps step s [] s" by (simp_all add: steps_Nil)
    ultimately show ?thesis using f steps_Cons.hyps(1) steps_Cons.prems by blast
  qed
qed simp

end

end
