(* ===== verification/NxdnCtrlInv.thy ===== *)
theory NxdnCtrlInv
  imports NxdnFrames Machine
begin

section \<open>What the NXDN control keeps\<close>

text \<open>
  The inputs of the control as a step relation, and what holds after every run: the receiver and the
  network do not touch each other's state, the buffers keep their size, a timer runs exactly during a
  voice call, what leaves the control is well formed, and the events of the network describe calls
  that are opened and closed in turn.  The network watchdog closes a call that gets no packets.
\<close>

subsection \<open>Steps\<close>

datatype nxdn_in = RfFrame bytes | RfLost | NetPacket bytes | Clock u32 | Reset

inductive nxdn_step :: "NxdnCtrl \<Rightarrow> nxdn_in \<Rightarrow> NxdnCtrl \<Rightarrow> bool" where
  rf_frame: "48 \<le> length frame \<Longrightarrow> nxdnCtrlRf conv0 t0 c frame False = Some c' \<Longrightarrow> nxdn_step c (RfFrame frame) c'"
| rf_lost: "nxdnCtrlRf conv0 t0 c frame True = Some c' \<Longrightarrow> nxdn_step c RfLost c'"
| net_packet: "length packet = 40 \<Longrightarrow> nxdn_step c (NetPacket packet) (nxdnCtrlNet c packet)"
| clock_tick: "nxdn_step c (Clock ms) (nxdnCtrlClock c ms)"
| ctrl_reset: "nxdn_step c Reset (nxdnCtrlReset c)"

inductive_cases nxdn_step_cases: "nxdn_step c i c'"
inductive_simps nxdn_step_simps: "nxdn_step c (RfFrame frame) c'" "nxdn_step c RfLost c'" "nxdn_step c (NetPacket packet) c'"
  "nxdn_step c (Clock ms) c'" "nxdn_step c Reset c'"

subsection \<open>What a call of a callback changes\<close>

definition event_out :: "bool \<Rightarrow> NxdnEvent \<Rightarrow> bytes \<Rightarrow> bool \<Rightarrow> u32 \<Rightarrow> u32 \<times> u32 \<Rightarrow> nxdn_out list" where
  "event_out on ev l3 data frames rate = (if on then
     [CallEvent \<lparr>call_event = ev, src = NXDN_L3_SRC l3, dst = NXDN_L3_DST l3, group = NXDN_L3_GROUP l3,
        call_data = data, seconds = frames, ber = rate\<rparr>] else [])"

definition net_out :: "bool \<Rightarrow> bytes \<Rightarrow> u8 \<Rightarrow> nxdn_out list" where
  "net_out on netData type = (if on then [SendNet netData type] else [])"

definition rf_out :: "bool \<Rightarrow> bytes \<Rightarrow> bool \<Rightarrow> nxdn_out list" where
  "rf_out on frame eot = (if on then [SendRf (nxdnScramble (take 48 frame)) eot] else [])"

lemma emit_upd: "emit c ev l3 data frames rate = c\<lparr>trace := trace c @ event_out (event c) ev l3 data frames rate\<rparr>"
  by (simp add: emit_def event_out_def)

lemma toNet_upd: "toNet c netData type = c\<lparr>trace := trace c @ net_out (sendNet c \<and> \<not> rfTimedOut c) netData type\<rparr>"
  by (simp add: toNet_def net_out_def)

lemma toRf_upd: "toRf c frame eot = c\<lparr>trace := trace c @ rf_out (sendRf c) frame eot\<rparr>"
  by (simp add: toRf_def rf_out_def NXDN_FRAME_LENGTH_BYTES_def)

lemmas callbacks = emit_upd toNet_upd toRf_upd

subsection \<open>The calls of the network\<close>

text \<open>
  What the user of the control sees of the network: \<open>net_session\<close> follows its events and says whether
  a call is open; None when a call starts inside another or ends outside of one.
\<close>

definition session_step :: "nxdn_out \<Rightarrow> bool option \<Rightarrow> bool option" where
  "session_step x st =
     (case x of
        CallEvent call \<Rightarrow>
          (case call_event call of
             NXDN_EV_NET_START \<Rightarrow> if st = Some False then Some True else None
           | NXDN_EV_NET_END \<Rightarrow> if st = Some True then Some False else None
           | NXDN_EV_NET_LOST \<Rightarrow> if st = Some True then Some False else None
           | NXDN_EV_NET_SWITCH \<Rightarrow> if st = Some True then Some False else None
           | _ \<Rightarrow> st)
      | _ \<Rightarrow> st)"

definition net_session :: "nxdn_out list \<Rightarrow> bool option" where
  "net_session xs = fold session_step xs (Some False)"

lemma net_session_append: "net_session (xs @ ys) = fold session_step ys (net_session xs)"
  by (simp add: net_session_def)

lemma session_outputs [simp]:
  "fold session_step (net_out b p type) st = st" "fold session_step (rf_out b f eot) st = st"
  "ev \<in> {NXDN_EV_RF_START, NXDN_EV_RF_LATE, NXDN_EV_RF_END, NXDN_EV_RF_LOST, NXDN_EV_RF_REJECTED} \<Longrightarrow>
    fold session_step (event_out b ev l3 data n r) st = st"
  "fold session_step (event_out True NXDN_EV_NET_START l3 data n r) st = (if st = Some False then Some True else None)"
  "ev \<in> {NXDN_EV_NET_END, NXDN_EV_NET_LOST, NXDN_EV_NET_SWITCH} \<Longrightarrow>
    fold session_step (event_out True ev l3 data n r) st = (if st = Some True then Some False else None)"
  by (auto simp: net_out_def rf_out_def event_out_def session_step_def)

subsection \<open>The two sides\<close>

definition config where
  "config c = (c_ran c, c_id c, selfOnly c, remoteGateway c, duplex c, localRepeat c, rfTimeoutMs c, netWatchdogMs c,
     sendNet c, sendRf c, event c)"

definition rf_side where
  "rf_side c = (rfState c, rfMask c, rfLayer3 c, lastLich c, rfFrames c, rfErrs c, rfBits c, rfTimer c, rfTimerRunning c)"

definition net_side where
  "net_side c = (netState c, netMask c, netLayer3 c, netFrames c, netTimer c, netWatchdog c, netWatchdogRunning c,
     net_session (trace c))"

lemmas sides = config_def rf_side_def net_side_def net_session_append

lemma build_emits [simp]: "buildFacchFrame (c\<lparr>trace := xs\<rparr>) l3 n = buildFacchFrame c l3 n"
  by (simp add: buildFacchFrame_def idleSacch_def direction_def)

lemma closing_side: "rf_side (netCloseOnAir c) = rf_side c" "net_side (netCloseOnAir c) = net_side c" "config (netCloseOnAir c) = config c"
  by (simp_all add: netCloseOnAir_def Let_def case_prod_unfold callbacks sides)

lemma voiceHeader_side: "net_side (snd (voiceHeader conv t0 c data)) = net_side c" "config (snd (voiceHeader conv t0 c data)) = config c"
  by (simp_all add: voiceHeader_def Let_def case_prod_unfold callbacks startRf_def endRf_def sides)

lemma lateStart_side:
  "lateStart conv t0 c option valid sacch data = Inl r \<Longrightarrow> net_side (snd r) = net_side c \<and> config (snd r) = config c"
  "lateStart conv t0 c option valid sacch data = Inr c' \<Longrightarrow> net_side c' = net_side c \<and> config c' = config c"
  by (auto simp: lateStart_def lateInfo_def Let_def case_prod_unfold callbacks startRf_def sides split: if_splits)

lemma voiceBody_side: "voiceBody conv t0 c option valid sacch data = Some c' \<Longrightarrow> net_side c' = net_side c \<and> config c' = config c"
  by (auto simp: voiceBody_def Let_def case_prod_unfold callbacks sides split: option.splits if_splits)

lemma processVoice_side: "processVoice conv t0 c usc option data = Some r \<Longrightarrow> net_side (snd r) = net_side c \<and> config (snd r) = config c"
  by (auto simp: processVoice_def Let_def case_prod_unfold voiceHeader_side split: if_splits option.splits sum.splits
    dest!: lateStart_side voiceBody_side)

lemma dataRelay_side: "net_side (dataRelay c option valid udch layer3 data) = net_side c" "config (dataRelay c option valid udch layer3 data) = config c"
  by (simp_all add: dataRelay_def Let_def callbacks endRf_def sides)

lemma processData_side: "net_side (snd (processData conv t0 c option data)) = net_side c" "config (snd (processData conv t0 c option data)) = config c"
  by (simp_all add: processData_def Let_def case_prod_unfold dataRelay_side callbacks) (simp_all add: sides)

lemma nxdnCtrlRf_side:
  assumes "nxdnCtrlRf conv t0 c frame lost = Some c'"
  shows "net_side c' = net_side c" "config c' = config c"
proof -
  have l: "net_side (c\<lparr>lastLich := l\<rparr>) = net_side c" "config (c\<lparr>lastLich := l\<rparr>) = config c" for l by (simp_all add: sides)
  have "net_side (rfLost c) = net_side c" "config (rfLost c) = config c"
    by (simp_all add: rfLost_def callbacks endRf_def sides)
  then have "net_side c' = net_side c \<and> config c' = config c"
    using assms by (auto simp: nxdnCtrlRf_def Let_def case_prod_unfold processData_side l split: if_splits dest!: processVoice_side)
  then show "net_side c' = net_side c" "config c' = config c" by blast+
qed

lemma netUdch_side: "rf_side (netUdch c netData data) = rf_side c" "config (netUdch c netData data) = config c"
  by (simp_all add: netUdch_def Let_def callbacks endNet_def sides)

lemma netHeader_side: "rf_side (netHeader c netData data) = rf_side c" "config (netHeader c netData data) = config c"
proof -
  have s: "rf_side (netSwitch c l3) = rf_side c" "config (netSwitch c l3) = config c" for c l3
  proof -
    have n: "rf_side (c\<lparr>netLayer3 := l\<rparr>) = rf_side c" "config (c\<lparr>netLayer3 := l\<rparr>) = config c"
      "rf_side (endNet c) = rf_side c" "config (endNet c) = config c"
      "rf_side (c\<lparr>trace := xs\<rparr>) = rf_side c" "config (c\<lparr>trace := xs\<rparr>) = config c" for c l xs
      by (simp_all add: endNet_def sides)
    show "rf_side (netSwitch c l3) = rf_side c" "config (netSwitch c l3) = config c"
      by (simp_all add: netSwitch_def Let_def n closing_side emit_upd)
  qed
  have n: "rf_side (c\<lparr>netLayer3 := l\<rparr>) = rf_side c" "config (c\<lparr>netLayer3 := l\<rparr>) = config c" for c l by (simp_all add: sides)
  define m where "m = netSwitch (c\<lparr>netLayer3 := memcpy_at (replicate 22 0) 0 (drop 5 netData) 10\<rparr>) (netLayer3 c)"
  have m: "rf_side m = rf_side c" "config m = config c" by (simp_all add: m_def s n)
  show "rf_side (netHeader c netData data) = rf_side c" "config (netHeader c netData data) = config c"
    unfolding netHeader_def Let_def m_def [symmetric]
    using m by (auto simp: callbacks endNet_def sides)
qed

lemma netBody_side: "rf_side (netBody c option netData data) = rf_side c" "config (netBody c option netData data) = config c"
  by (auto simp: netBody_def netLate_def Let_def case_prod_unfold callbacks sides)

lemma nxdnCtrlNet_side: "rf_side (nxdnCtrlNet c netData) = rf_side c" "config (nxdnCtrlNet c netData) = config c"
proof -
  have w: "rf_side (c\<lparr>netWatchdogRunning := b, netWatchdog := n\<rparr>) = rf_side c" "config (c\<lparr>netWatchdogRunning := b, netWatchdog := n\<rparr>) = config c" for b n
    by (simp_all add: sides)
  show "rf_side (nxdnCtrlNet c netData) = rf_side c" "config (nxdnCtrlNet c netData) = config c"
    by (simp_all add: nxdnCtrlNet_def Let_def netUdch_side netHeader_side netBody_side w)
qed

lemma nxdnCtrlClock_config: "config (nxdnCtrlClock c ms) = config c" "config (nxdnCtrlReset c) = config c"
  by (simp_all add: nxdnCtrlClock_def Let_def closing_side endNet_def callbacks nxdnCtrlReset_def endRf_def)
    (simp_all add: closing_side sides netCloseOnAir_def Let_def case_prod_unfold callbacks)

lemma nxdn_step_config: "nxdn_step c i c' \<Longrightarrow> config c' = config c"
  by (auto elim!: nxdn_step_cases simp: nxdnCtrlNet_side nxdnCtrlClock_config dest: nxdnCtrlRf_side)

subsection \<open>Well formed states and messages\<close>

definition out_ok :: "nxdn_out \<Rightarrow> bool" where
  "out_ok x = (case x of SendNet netData type \<Rightarrow> packet_ok netData \<and> type \<le> 5
     | SendRf frame eot \<Rightarrow> length frame = 48 \<and> frame_ok (nxdnScramble frame)
     | CallEvent call \<Rightarrow> True)"

definition nxdn_ok :: "NxdnCtrl \<Rightarrow> bool" where
  "nxdn_ok c \<longleftrightarrow> length (rfLayer3 c) = 22 \<and> length (netLayer3 c) = 22 \<and>
     (rfTimerRunning c \<longleftrightarrow> rfState c = NXDN_RF_AUDIO) \<and>
     list_all out_ok (trace c)"

lemma event_out_ok [simp]: "list_all out_ok (event_out b ev l3 data n r)"
  by (simp add: event_out_def out_ok_def)

lemma net_out_ok: "packet_ok p \<Longrightarrow> type \<le> 5 \<Longrightarrow> list_all out_ok (net_out b p type)"
  by (simp add: net_out_def out_ok_def)

lemma rf_out_ok: "headed lich f \<Longrightarrow> list_all out_ok (rf_out b f eot)"
  using headed_length [of lich f] headed_sends(3) [of lich f]
  by (simp add: rf_out_def out_ok_def scramble_nth scramble_twice)

lemma net_types [simp]:
  "NXDN_NET_VOICE_HEADER \<le> 5" "NXDN_NET_VOICE_BODY \<le> 5" "NXDN_NET_VOICE_TRAILER \<le> 5"
  "NXDN_NET_DATA_HEADER \<le> 5" "NXDN_NET_DATA_BODY \<le> 5" "NXDN_NET_DATA_TRAILER \<le> 5"
  by (simp_all add: NXDN_NET_VOICE_HEADER_def NXDN_NET_VOICE_BODY_def NXDN_NET_VOICE_TRAILER_def
    NXDN_NET_DATA_HEADER_def NXDN_NET_DATA_BODY_def NXDN_NET_DATA_TRAILER_def)

lemma built_out_ok:
  assumes "10 \<le> length l3"
  shows "list_all out_ok (rf_out b (fst (buildFacchFrame c l3 n)) eot)"
    and "type \<le> 5 \<Longrightarrow> list_all out_ok (net_out b (the (snd (buildFacchFrame c l3 (Some n')))) type)"
proof -
  obtain f m where f: "buildFacchFrame c l3 n = (f, m)" by fastforce
  show "list_all out_ok (rf_out b (fst (buildFacchFrame c l3 n)) eot)" using rf_out_ok [OF built_frame(1) [OF f assms]] f by simp
  obtain f' m' where f': "buildFacchFrame c l3 (Some n') = (f', m')" by fastforce
  then obtain p where "m' = Some p" "packet_ok p" using built_frame(2,3) [OF f' assms] by auto
  then show "type \<le> 5 \<Longrightarrow> list_all out_ok (net_out b (the (snd (buildFacchFrame c l3 (Some n')))) type)"
    using f' net_out_ok by simp
qed

lemma facchLayer3_length [simp]: "length (facchLayer3 facch) = 22"
  by (simp add: facchLayer3_def)

lemma superblock_length [simp]: "length (snd (superblock structure message st)) = length (snd st)"
  by (simp add: superblock_def Let_def case_prod_unfold)

lemma voiceHeader_ok: "nxdn_ok c \<Longrightarrow> nxdn_ok (snd (voiceHeader conv t0 c data))"
  by (simp add: voiceHeader_def Let_def case_prod_unfold callbacks startRf_def endRf_def nxdn_ok_def built_out_ok)

lemma lateStart_ok:
  "lateStart conv t0 c option valid sacch data = Inl r \<Longrightarrow> nxdn_ok c \<Longrightarrow> rfState c = NXDN_RF_LISTENING \<Longrightarrow> nxdn_ok (snd r)"
  "lateStart conv t0 c option valid sacch data = Inr c' \<Longrightarrow> nxdn_ok c \<Longrightarrow> rfState c = NXDN_RF_LISTENING \<Longrightarrow> nxdn_ok c'"
  by (auto simp: lateStart_def lateInfo_def Let_def case_prod_unfold callbacks startRf_def nxdn_ok_def built_out_ok split: if_splits)

lemma voiceBody_total:
  assumes "nxdn_ok c" "length data = 48" "length sacch = 5"
  shows "\<exists>c'. voiceBody conv t0 c option valid sacch data = Some c' \<and> nxdn_ok c'"
proof -
  let ?lich = "nxdnLichMake NXDN_LICH_RFCT_RDCH NXDN_LICH_USC_SACCH_SS option (direction c)"
  let ?s = "if valid then nxdnSacchSetRAN sacch (c_ran c) else sacch"
  let ?f = "nxdnLichEncode ?lich (nxdnAddSync data)"
  let ?d = "if valid then nxdnSacchEncode ?s ?f else ?f"
  let ?n = "from_at 1 (nxdnSacchGetRaw ?s) ((replicate NXDN_NET_DATA_LENGTH 0)[0 := inboundRaw ?lich])"
  have "headed ?lich ?d" using headed_start [OF assms(2)] headed_encoders(1) by auto
  moreover have "packet_ok ?n" by (rule packet_parts(1) [OF packet_start]) (use assms(3) in simp)
  ultimately obtain d m e b where v: "voiceContents conv t0 option ?d ?n = Some (d, m, e, b)" "headed ?lich d" "packet_ok m"
    using voiceContents_total by blast
  have "list_all out_ok (net_out on m NXDN_NET_VOICE_BODY)" "list_all out_ok (rf_out on d eot)" for on eot
    using net_out_ok [OF v(3)] rf_out_ok [OF v(2)] by simp_all
  then show ?thesis
    unfolding voiceBody_def Let_def v(1) option.case prod.case callbacks using assms(1) by (simp add: nxdn_ok_def)
qed

lemma processVoice_total:
  assumes "nxdn_ok c" "length data = 48"
  shows "\<exists>r. processVoice conv t0 c usc option data = Some r \<and> nxdn_ok (snd r)"
proof -
  obtain valid sacch where s: "nxdnSacchDecode conv t0 data (replicate 5 0) = (valid, sacch)" by fastforce
  then have l: "length sacch = 5" using sacch_decode_length [of "replicate 5 0" conv t0 data] by simp
  have b: "\<exists>c'. voiceBody conv t0 c option valid sacch data = Some c' \<and> nxdn_ok c'" if "nxdn_ok c" for c
    using voiceBody_total [OF that assms(2) l] .
  have h: "nxdn_ok (snd (voiceHeader conv t0 c data))" by (rule voiceHeader_ok [OF assms(1)])
  let ?x = "if rfState c = NXDN_RF_LISTENING then lateStart conv t0 c option valid sacch data else Inr c"
  have x: "\<exists>r. (case ?x of Inl r \<Rightarrow> Some r
      | Inr c \<Rightarrow> if rfState c = NXDN_RF_AUDIO
          then case voiceBody conv t0 c option valid sacch data of None \<Rightarrow> None | Some c \<Rightarrow> Some (True, c)
          else Some (True, c)) = Some r \<and> nxdn_ok (snd r)"
  proof (cases ?x)
    case (Inl r)
    then have "nxdn_ok (snd r)" using lateStart_ok(1) assms(1) by (metis sum.distinct(1))
    then show ?thesis unfolding Inl by auto
  next
    case (Inr c1)
    then have "nxdn_ok c1" using lateStart_ok(2) assms(1) by (metis sum.inject(2))
    then show ?thesis unfolding Inr using b [of c1] by auto
  qed
  have "\<exists>r. (if P then Some (False, c) else if Q then Some (False, c) else if R then Some (voiceHeader conv t0 c data) else y) = Some r \<and>
      nxdn_ok (snd r)" if "\<exists>r. y = Some r \<and> nxdn_ok (snd r)" for P Q R y
    using that assms(1) h by (cases "voiceHeader conv t0 c data") auto
  from this [OF x] show ?thesis unfolding processVoice_def s Let_def prod.case .
qed

lemma dataRelay_ok:
  assumes "nxdn_ok c" "length data = 48" "length udch = 25"
  shows "nxdn_ok (dataRelay c option valid udch layer3 data)"
proof -
  let ?lich = "nxdnLichMake NXDN_LICH_RFCT_RDCH NXDN_LICH_USC_UDCH option (direction c)"
  let ?n = "memcpy_at ((replicate NXDN_NET_DATA_LENGTH 0)[0 := inboundRaw ?lich]) 1 udch 23"
  let ?f = "nxdnLichEncode ?lich (nxdnAddSync data)"
  have "packet_ok ?n" by (rule packet_parts(3) [OF packet_start]) (use assms(3) in simp_all)
  then have n: "type \<le> 5 \<Longrightarrow> list_all out_ok (net_out on ?n type)" for on type by (rule net_out_ok)
  have "headed ?lich ?f" "headed ?lich (nxdnUdchEncode u ?f)" for u
    using headed_start [OF assms(2)] headed_encoders(2) by auto
  then have f: "list_all out_ok (rf_out on ?f eot)" "list_all out_ok (rf_out on (nxdnUdchEncode u ?f) eot)" for on eot u
    by (auto intro: rf_out_ok)
  show ?thesis
    unfolding dataRelay_def Let_def callbacks using assms(1) by (simp add: nxdn_ok_def endRf_def n f del: One_nat_def)
qed

lemma processData_ok:
  assumes "nxdn_ok c" "length data = 48"
  shows "nxdn_ok (snd (processData conv t0 c option data))"
proof -
  obtain valid udch where u: "nxdnUdchDecode conv t0 data (replicate 25 0) = (valid, udch)" by fastforce
  then have l: "length udch = 25" using udch_decode_length [of "replicate 25 0" conv t0 data] by simp
  have "nxdn_ok (c\<lparr>rfLayer3 := take 22 (drop 1 udch), rfFrames := 0, rfState := NXDN_RF_DATA,
      trace := trace c @ event_out b ev l3 d n r\<rparr>)" if "rfState c = NXDN_RF_LISTENING" for b ev l3 d n r
    using assms(1) that l by (simp add: nxdn_ok_def)
  then show ?thesis
    using assms l by (auto simp: processData_def u Let_def callbacks intro!: dataRelay_ok)
qed

lemma nxdnCtrlRf_total:
  assumes "nxdn_ok c" "lost \<or> 48 \<le> length frame"
  shows "\<exists>c'. nxdnCtrlRf conv t0 c frame lost = Some c' \<and> nxdn_ok c'"
proof (cases lost)
  case True
  then show ?thesis using assms(1) by (simp add: nxdnCtrlRf_def rfLost_def endRf_def callbacks nxdn_ok_def)
next
  case False
  let ?d = "nxdnScramble (take NXDN_FRAME_LENGTH_BYTES frame)"
  have d: "length ?d = 48" using assms(2) False by (simp add: NXDN_FRAME_LENGTH_BYTES_def scramble_nth)
  have l: "nxdn_ok (c\<lparr>lastLich := l\<rparr>)" for l using assms(1) by (simp add: nxdn_ok_def)
  let ?c = "if fst (nxdnLichDecode ?d) then c\<lparr>lastLich := snd (nxdnLichDecode ?d)\<rparr> else c"
  have c: "nxdn_ok ?c" using l assms(1) by simp
  have rest: "\<exists>c'. (if P then Some c1 else if Q then Some (snd (processData conv t0 c1 option ?d))
      else map_option snd (processVoice conv t0 c1 usc option ?d)) = Some c' \<and> nxdn_ok c'" if "nxdn_ok c1" for P Q c1 usc option
    using processVoice_total [OF that d, of conv t0 usc option] processData_ok [OF that d, of conv t0 option] that by auto
  show ?thesis unfolding nxdnCtrlRf_def Let_def case_prod_unfold if_not_P [OF False] by (rule rest [OF c])
qed

text \<open>The network.\<close>

lemma netCloseOnAir_ok: "nxdn_ok c \<Longrightarrow> nxdn_ok (netCloseOnAir c)"
  by (simp add: netCloseOnAir_def Let_def case_prod_unfold callbacks nxdn_ok_def built_out_ok)

lemma endNet_ok: "nxdn_ok c \<Longrightarrow> nxdn_ok (endNet c)" "nxdn_ok c \<Longrightarrow> nxdn_ok (endRf c)"
  by (simp_all add: endNet_def endRf_def nxdn_ok_def)

lemma emit_ok: "nxdn_ok c \<Longrightarrow> nxdn_ok (emit c ev l3 data n r)"
  by (simp add: emit_upd nxdn_ok_def)

lemma toRf_ok: "nxdn_ok c \<Longrightarrow> headed lich f \<Longrightarrow> nxdn_ok (toRf c f eot)"
  by (simp add: toRf_upd nxdn_ok_def rf_out_ok)

lemma layer3_ok: "nxdn_ok c \<Longrightarrow> length l3 = 22 \<Longrightarrow> nxdn_ok (c\<lparr>netLayer3 := l3\<rparr>)"
  by (simp add: nxdn_ok_def)

lemma netUdch_ok:
  assumes "nxdn_ok c" "length netData = 40" "headed lich data"
  shows "nxdn_ok (netUdch c netData data)"
proof -
  let ?l = "take 22 (drop 2 netData)"
  let ?c = "(emit (c\<lparr>netLayer3 := ?l\<rparr>) NXDN_EV_NET_START ?l True 0 (0, 1))\<lparr>netState := NXDN_NET_DATA, netTimer := 0\<rparr>"
  have "nxdn_ok ?c" using assms(1,2) by (simp add: emit_upd nxdn_ok_def)
  moreover have "headed lich (nxdnUdchEncode u data)" for u using headed_encoders(2) [OF assms(3)] .
  ultimately show ?thesis
    using assms(1) by (auto simp: netUdch_def Let_def intro!: emit_ok endNet_ok toRf_ok)
qed

lemma netSwitch_ok: "nxdn_ok c \<Longrightarrow> length l3 = 22 \<Longrightarrow> nxdn_ok (netSwitch c l3)"
  unfolding netSwitch_def Let_def
  by (intro layer3_ok endNet_ok netCloseOnAir_ok emit_ok) (simp_all add: nxdn_ok_def)

lemma netHeader_ok:
  assumes "nxdn_ok c" "length netData = 40" "headed lich data"
  shows "nxdn_ok (netHeader c netData data)"
proof -
  define l where "l = memcpy_at (replicate 22 0) 0 (drop 5 netData) 10"
  have l: "length l = 22" using assms(2) by (simp add: l_def memcpy_at_length)
  have old: "length (netLayer3 c) = 22" using assms(1) by (simp add: nxdn_ok_def)
  define c1 where "c1 = c\<lparr>netLayer3 := l\<rparr>"
  have c1: "nxdn_ok c1" unfolding c1_def by (rule layer3_ok [OF assms(1) l])
  define c2 where "c2 = (if NXDN_L3_TYPE (netLayer3 c1) = NXDN_MESSAGE_TYPE_VCALL \<and> netState c1 \<noteq> NXDN_NET_IDLE
    then netSwitch c1 (netLayer3 c) else c1)"
  have c2: "nxdn_ok c2" using c1 netSwitch_ok [OF c1 old] by (simp add: c2_def)
  define f where "f = nxdnFacch1Encode (drop 5 netData) (nxdnFacch1Encode (drop 5 netData)
    (nxdnSacchEncode (idleSacch c2) data) NXDN_FACCH1_OFFSET_1) NXDN_FACCH1_OFFSET_2"
  have f: "headed lich f" unfolding f_def by (intro headed_facch headed_encoders assms)
  have e: "nxdn_ok (c\<lparr>netFrames := n\<rparr>)" "nxdn_ok (c\<lparr>netTimer := m, netState := s, netFrames := n\<rparr>)" if "nxdn_ok c" for c m n s
    using that by (simp_all add: nxdn_ok_def)
  have r: "nxdn_ok (toRf c2 f eot)" for eot by (rule toRf_ok [OF c2 f])
  show ?thesis
    unfolding netHeader_def Let_def l_def [symmetric] c1_def [symmetric] c2_def [symmetric] f_def [symmetric]
    using c1 r by (auto intro!: e endNet_ok emit_ok)
qed

lemma netBody_ok:
  assumes "nxdn_ok c" "length netData = 40" "headed lich data"
  shows "nxdn_ok (netBody c option netData data)"
proof -
  have body: "nxdn_ok (toRf (c\<lparr>netFrames := n\<rparr>) (voiceFrame option netData (nxdnSacchEncode s data)) eot)" if "nxdn_ok c" for c n s eot
  proof (rule toRf_ok)
    show "nxdn_ok (c\<lparr>netFrames := n\<rparr>)" using that by (simp add: nxdn_ok_def)
    show "headed lich (voiceFrame option netData (nxdnSacchEncode s data))"
      by (intro voiceFrame_headed headed_encoders assms)
  qed
  have late: "netLate c netData = Inl c' \<Longrightarrow> nxdn_ok c'" "netLate c netData = Inr c' \<Longrightarrow> nxdn_ok c'" for c'
    using assms(1) by (auto simp: netLate_def Let_def case_prod_unfold callbacks nxdn_ok_def built_out_ok split: if_splits)
  show ?thesis
  proof (cases "if netState c = NXDN_NET_IDLE then netLate c netData else Inr c")
    case (Inl c')
    then show ?thesis using late assms(1) by (auto simp: netBody_def split: if_splits)
  next
    case (Inr c')
    then have "nxdn_ok c'" using late assms(1) by (auto split: if_splits)
    then show ?thesis unfolding netBody_def Inr sum.case Let_def by (rule body)
  qed
qed

lemma nxdnCtrlNet_ok:
  assumes "nxdn_ok c" "length netData = 40"
  shows "nxdn_ok (nxdnCtrlNet c netData)"
proof -
  have "nxdn_ok (c\<lparr>netWatchdogRunning := True, netWatchdog := 0\<rparr>)" using assms(1) by (simp add: nxdn_ok_def)
  moreover have "headed lich (nxdnLichEncode lich (nxdnAddSync (replicate NXDN_FRAME_LENGTH_BYTES 0)))" for lich
    by (rule headed_start) (simp add: NXDN_FRAME_LENGTH_BYTES_def)
  ultimately show ?thesis
    unfolding nxdnCtrlNet_def Let_def using assms by (auto intro: netUdch_ok netHeader_ok netBody_ok)
qed

lemma nxdnCtrlClock_ok: "nxdn_ok c \<Longrightarrow> nxdn_ok (nxdnCtrlClock c ms)"
proof -
  assume c: "nxdn_ok c"
  have t: "nxdn_ok (c\<lparr>rfTimer := n\<rparr>)" "nxdn_ok (c\<lparr>netTimer := n\<rparr>)" "nxdn_ok (c\<lparr>netWatchdog := n\<rparr>)" if "nxdn_ok c" for c n
    using that by (simp_all add: nxdn_ok_def)
  show ?thesis unfolding nxdnCtrlClock_def Let_def using c by (auto intro!: t endNet_ok netCloseOnAir_ok emit_ok)
qed

lemma nxdn_step_ok: "nxdn_step c i c' \<Longrightarrow> nxdn_ok c \<Longrightarrow> nxdn_ok c'"
proof (erule nxdn_step_cases)
  show "nxdnCtrlRf conv0 t0 c frame False = Some c' \<Longrightarrow> 48 \<le> length frame \<Longrightarrow> nxdn_ok c \<Longrightarrow> nxdn_ok c'" for conv0 t0 frame
    using nxdnCtrlRf_total [of c False frame conv0 t0] by auto
  show "nxdnCtrlRf conv0 t0 c frame True = Some c' \<Longrightarrow> nxdn_ok c \<Longrightarrow> nxdn_ok c'" for conv0 t0 frame
    using nxdnCtrlRf_total [of c True frame conv0 t0] by auto
qed (auto intro: nxdnCtrlNet_ok nxdnCtrlClock_ok endNet_ok simp: nxdnCtrlReset_def)

subsection \<open>The events of the network\<close>

definition session_ok :: "NxdnCtrl \<Rightarrow> bool" where
  "session_ok c \<longleftrightarrow> event c \<and> net_session (trace c) = Some (netState c \<noteq> NXDN_NET_IDLE)"

lemmas session_simps = session_ok_def callbacks net_session_append

lemma netCloseOnAir_session: "session_ok (netCloseOnAir c) = session_ok c"
  "net_session (trace (netCloseOnAir c)) = net_session (trace c)" "netState (netCloseOnAir c) = netState c" "event (netCloseOnAir c) = event c"
  by (simp_all add: netCloseOnAir_def Let_def case_prod_unfold session_simps)

lemma toRf_session: "session_ok (toRf c f eot) = session_ok c"
  by (simp add: session_simps)

lemma netUdch_session: "session_ok c \<Longrightarrow> session_ok (netUdch c netData data)"
  by (cases "netState c") (auto simp: netUdch_def Let_def endNet_def session_simps)

lemma netSwitch_session: "session_ok c \<Longrightarrow> netState c \<noteq> NXDN_NET_IDLE \<Longrightarrow> session_ok (netSwitch c l3) \<and> netState (netSwitch c l3) = NXDN_NET_IDLE"
  by (simp add: netSwitch_def Let_def endNet_def session_ok_def netCloseOnAir_session) (simp add: session_simps)

lemma netHeader_session:
  assumes "session_ok c"
  shows "session_ok (netHeader c netData data)"
proof -
  define c1 where "c1 = c\<lparr>netLayer3 := memcpy_at (replicate 22 0) 0 (drop 5 netData) 10\<rparr>"
  have c1: "session_ok c1" "netState c1 = netState c" using assms by (simp_all add: c1_def session_ok_def)
  let ?call = "NXDN_L3_TYPE (netLayer3 c1) = NXDN_MESSAGE_TYPE_VCALL"
  define c2 where "c2 = (if ?call \<and> netState c1 \<noteq> NXDN_NET_IDLE then netSwitch c1 (netLayer3 c) else c1)"
  have c2: "session_ok c2" "?call \<Longrightarrow> netState c2 = NXDN_NET_IDLE" "\<not> ?call \<Longrightarrow> netState c2 = netState c1"
    using netSwitch_session [OF c1(1), of "netLayer3 c"] c1(1) by (auto simp: c2_def)
  have rel: "NXDN_MESSAGE_TYPE_TX_REL \<noteq> NXDN_MESSAGE_TYPE_VCALL" by (simp add: NXDN_MESSAGE_TYPE_TX_REL_def NXDN_MESSAGE_TYPE_VCALL_def)
  show ?thesis
    unfolding netHeader_def Let_def c1_def [symmetric] c2_def [symmetric]
    using c1 c2 rel by (auto simp: endNet_def session_simps)
qed

lemma netBody_session:
  assumes "session_ok c"
  shows "session_ok (netBody c option netData data)"
proof -
  have body: "session_ok (toRf (c\<lparr>netFrames := n\<rparr>) f eot)" if "session_ok c" for c n f eot
    using that by (simp add: session_simps)
  have late: "netLate c netData = Inl c' \<Longrightarrow> netState c = NXDN_NET_IDLE \<Longrightarrow> session_ok c'"
    "netLate c netData = Inr c' \<Longrightarrow> netState c = NXDN_NET_IDLE \<Longrightarrow> session_ok c'" for c'
    using assms by (auto simp: netLate_def Let_def case_prod_unfold session_simps split: if_splits)
  show ?thesis
  proof (cases "if netState c = NXDN_NET_IDLE then netLate c netData else Inr c")
    case (Inl c')
    then show ?thesis using late assms by (auto simp: netBody_def split: if_splits)
  next
    case (Inr c')
    then have "session_ok c'" using late assms by (auto split: if_splits)
    then show ?thesis unfolding netBody_def Inr sum.case Let_def by (rule body)
  qed
qed

lemma nxdn_step_session: "nxdn_step c i c' \<Longrightarrow> i \<noteq> Reset \<Longrightarrow> session_ok c \<Longrightarrow> session_ok c'"
proof (erule nxdn_step_cases)
  assume c: "session_ok c" and i: "i \<noteq> Reset"
  have rf: "session_ok c'" if "nxdnCtrlRf conv0 t0 c frame lost = Some c'" for conv0 t0 frame lost
    using nxdnCtrlRf_side [OF that] c by (simp add: session_ok_def sides)
  show "nxdnCtrlRf conv0 t0 c frame False = Some c' \<Longrightarrow> session_ok c'"
    "nxdnCtrlRf conv0 t0 c frame True = Some c' \<Longrightarrow> session_ok c'" for conv0 t0 frame by (rule rf, assumption)+
  show "session_ok c'" if "c' = nxdnCtrlNet c packet" for packet
  proof -
    have "session_ok (c\<lparr>netWatchdogRunning := True, netWatchdog := 0\<rparr>)" using c by (simp add: session_ok_def)
    then show ?thesis unfolding that nxdnCtrlNet_def Let_def
      using c by (auto intro: netUdch_session netHeader_session netBody_session)
  qed
  show "session_ok c'" if "c' = nxdnCtrlClock c ms" for ms
    using c unfolding that nxdnCtrlClock_def Let_def endNet_def
    by (cases "netState c") (auto simp: session_ok_def netCloseOnAir_session emit_upd net_session_append)
  show "i = Reset \<Longrightarrow> session_ok c'" using i by simp
qed

end
