(* ===== verification/NxdnControl.thy ===== *)
theory NxdnControl
  imports NxdnCtrlInv
begin

section \<open>Correctness of the NXDN control\<close>

text \<open>
  The properties of the control over whole runs, from the state that \<open>nxdnCtrlInit\<close> leaves and the
  configuration the caller sets.
\<close>

definition nxdn_fresh :: "NxdnCtrl \<Rightarrow> bool" where
  "nxdn_fresh c \<longleftrightarrow> trace c = [] \<and> c = (nxdnCtrlInit c)\<lparr>c_ran := c_ran c, c_id := c_id c, selfOnly := selfOnly c,
     remoteGateway := remoteGateway c, duplex := duplex c, localRepeat := localRepeat c, rfTimeoutMs := rfTimeoutMs c,
     netWatchdogMs := netWatchdogMs c, sendNet := sendNet c, sendRf := sendRf c, event := event c\<rparr>"

definition nxdn_input :: "nxdn_in \<Rightarrow> bool" where
  "nxdn_input i = (case i of RfFrame frame \<Rightarrow> 48 \<le> length frame | NetPacket packet \<Rightarrow> length packet = 40 | _ \<Rightarrow> True)"

lemma fresh_ok: "nxdn_fresh c \<Longrightarrow> nxdn_ok c" "nxdn_fresh c \<Longrightarrow> netState c = NXDN_NET_IDLE"
proof -
  assume c: "nxdn_fresh c"
  then have t: "trace c = []" by (simp add: nxdn_fresh_def)
  have f: "f c = f ((nxdnCtrlInit c)\<lparr>c_ran := c_ran c, c_id := c_id c, selfOnly := selfOnly c,
     remoteGateway := remoteGateway c, duplex := duplex c, localRepeat := localRepeat c, rfTimeoutMs := rfTimeoutMs c,
     netWatchdogMs := netWatchdogMs c, sendNet := sendNet c, sendRf := sendRf c, event := event c\<rparr>)" for f :: "NxdnCtrl \<Rightarrow> 'a"
    using c unfolding nxdn_fresh_def by metis
  have l: "rfLayer3 c = replicate 22 0" "netLayer3 c = replicate 22 0" "rfTimerRunning c = False" "rfState c = NXDN_RF_LISTENING"
    by (subst f, simp add: nxdnCtrlInit_def)+
  then show "nxdn_ok c" using t by (simp add: nxdn_ok_def)
  show "netState c = NXDN_NET_IDLE" by (subst f) (simp add: nxdnCtrlInit_def)
qed

lemma nxdn_step_answers:
  assumes "nxdn_ok c" "nxdn_input i"
  shows "\<exists>c'. nxdn_step c i c' \<and> nxdn_ok c'"
proof (cases i)
  case (RfFrame frame)
  then obtain c' where "nxdnCtrlRf idle_conv [] c frame False = Some c'" "nxdn_ok c'"
    using nxdnCtrlRf_total [OF assms(1), of False frame] assms(2) by (auto simp: nxdn_input_def)
  then show ?thesis using RfFrame assms(2) by (auto simp: nxdn_input_def nxdn_step_simps)
next
  case RfLost
  then show ?thesis using nxdnCtrlRf_total [OF assms(1), of True] by (metis nxdn_step_simps(2))
qed (use assms in \<open>auto simp: nxdn_input_def nxdn_step_simps nxdnCtrlReset_def intro: nxdnCtrlNet_ok nxdnCtrlClock_ok endNet_ok\<close>)

definition nxdn_watched :: "nat \<Rightarrow> nxdn_in \<Rightarrow> bool" where
  "nxdn_watched n i = (case i of Clock ms \<Rightarrow> unat ms + n < 2 ^ 32 | RfFrame frame \<Rightarrow> True | RfLost \<Rightarrow> True | _ \<Rightarrow> False)"

definition nxdn_ticks :: "nxdn_in \<Rightarrow> nat" where
  "nxdn_ticks i = (case i of Clock ms \<Rightarrow> unat ms | _ \<Rightarrow> 0)"

lemma clock_net_state:
  "netState c = NXDN_NET_IDLE \<Longrightarrow> netState (nxdnCtrlClock c ms) = NXDN_NET_IDLE"
  "netState c \<noteq> NXDN_NET_IDLE \<Longrightarrow> netWatchdogRunning c \<Longrightarrow> netWatchdog c + ms \<ge> netWatchdogMs c \<Longrightarrow>
    netState (nxdnCtrlClock c ms) = NXDN_NET_IDLE \<and>
    (\<exists>xs. trace (nxdnCtrlClock c ms) =
      trace c @ event_out (event c) NXDN_EV_NET_LOST (netLayer3 c) (netState c = NXDN_NET_DATA) (netFrames c) (0, 1) @ xs)"
  "netState c \<noteq> NXDN_NET_IDLE \<Longrightarrow> netWatchdogRunning c \<Longrightarrow> netWatchdog c + ms < netWatchdogMs c \<Longrightarrow>
    netState (nxdnCtrlClock c ms) = netState c \<and> netWatchdogRunning (nxdnCtrlClock c ms) \<and> netWatchdog (nxdnCtrlClock c ms) = netWatchdog c + ms"
  by (cases "netState c"; force simp: nxdnCtrlClock_def Let_def endNet_def netCloseOnAir_def case_prod_unfold callbacks)+

lemma same_net: "net_side c' = net_side c \<Longrightarrow> netState c' = netState c \<and> netWatchdog c' = netWatchdog c \<and> netWatchdogRunning c' = netWatchdogRunning c"
  by (simp add: net_side_def)

interpretation nxdn_dog: watchdog nxdn_step "\<lambda>c. netState c \<noteq> NXDN_NET_IDLE \<and> netWatchdogRunning c" "\<lambda>c. netState c = NXDN_NET_IDLE"
  "\<lambda>c. unat (netWatchdog c)" "\<lambda>c. unat (netWatchdogMs c)" nxdn_ticks nxdn_watched
proof
  fix c i c' assume s: "nxdn_step c i c'" 
  show "unat (netWatchdogMs c') = unat (netWatchdogMs c)" using nxdn_step_config [OF s] by (simp add: config_def)
  assume a: "nxdn_watched (unat (netWatchdogMs c)) i"
  have sum: "unat (netWatchdog c + ms) = unat (netWatchdog c) + unat ms" if "i = Clock ms" "unat (netWatchdog c) < unat (netWatchdogMs c)" for ms
    using a that unat_add_lem [of "netWatchdog c" ms] by (simp add: nxdn_watched_def)
  consider (tick) ms where "i = Clock ms" "c' = nxdnCtrlClock c ms" | (rf) "net_side c' = net_side c" "nxdn_ticks i = 0"
    using s a nxdnCtrlRf_side by (cases i) (auto simp: nxdn_watched_def nxdn_ticks_def nxdn_step_simps)
  note cases = this
  show "netState c' = NXDN_NET_IDLE" if "netState c = NXDN_NET_IDLE"
    using cases that clock_net_state(1) same_net by metis
  assume l: "netState c \<noteq> NXDN_NET_IDLE \<and> netWatchdogRunning c"
  show "(netState c' \<noteq> NXDN_NET_IDLE \<and> netWatchdogRunning c') \<and> unat (netWatchdog c') = unat (netWatchdog c) + nxdn_ticks i"
    if "unat (netWatchdog c) + nxdn_ticks i < unat (netWatchdogMs c)"
    using cases
  proof cases
    case (tick ms)
    then have "netWatchdog c + ms < netWatchdogMs c" using that sum by (simp add: word_less_nat_alt nxdn_ticks_def)
    then show ?thesis using clock_net_state(3) [of c ms] tick l sum that by (simp add: nxdn_ticks_def)
  next
    case rf
    then show ?thesis using same_net [OF rf(1)] l by simp
  qed
  show "netState c' = NXDN_NET_IDLE"
    if "unat (netWatchdog c) < unat (netWatchdogMs c)" "unat (netWatchdogMs c) \<le> unat (netWatchdog c) + nxdn_ticks i"
    using cases
  proof cases
    case (tick ms)
    then have "netWatchdogMs c \<le> netWatchdog c + ms" using that sum by (simp add: word_le_nat_alt nxdn_ticks_def)
    then show ?thesis using clock_net_state(2) [of c ms] tick l by simp
  next
    case rf
    then show ?thesis using that by simp
  qed
qed

lemma nxdn_ok_messages:
  assumes "nxdn_ok c"
  shows "SendRf frame eot \<in> set (trace c) \<Longrightarrow> length frame = 48 \<and> nxdnHasSync (nxdnScramble frame) \<and> fst (nxdnLichDecode (nxdnScramble frame))"
    and "SendNet packet type \<in> set (trace c) \<Longrightarrow>
      length packet = 40 \<and> type \<le> 5 \<and> NXDN_LICH_DIRECTION (packet ! 0) = NXDN_LICH_DIRECTION_INBOUND"
proof -
  have out: "out_ok x" if "x \<in> set (trace c)" for x using that assms by (simp add: nxdn_ok_def list_all_iff)
  show "SendRf frame eot \<in> set (trace c) \<Longrightarrow> length frame = 48 \<and> nxdnHasSync (nxdnScramble frame) \<and> fst (nxdnLichDecode (nxdnScramble frame))"
    "SendNet packet type \<in> set (trace c) \<Longrightarrow>
      length packet = 40 \<and> type \<le> 5 \<and> NXDN_LICH_DIRECTION (packet ! 0) = NXDN_LICH_DIRECTION_INBOUND"
    by (drule out, simp add: out_ok_def packet_ok_def frame_ok_def)+
qed

text \<open>While the RF timer has run out, nothing goes to the network.\<close>

definition net_sent :: "nxdn_out list \<Rightarrow> nxdn_out list" where
  "net_sent xs = filter (\<lambda>x. case x of SendNet packet type \<Rightarrow> True | _ \<Rightarrow> False) xs"

lemma net_sent_simps [simp]:
  "net_sent (xs @ ys) = net_sent xs @ net_sent ys" "net_sent (event_out b ev l3 data n r) = []"
  "net_sent (rf_out b f eot) = []" "net_sent (net_out False p type) = []"
  by (simp_all add: net_sent_def event_out_def rf_out_def net_out_def)

lemma timed_out_silent:
  assumes "nxdn_ok c" "rfTimedOut c" "nxdnCtrlRf conv0 t0 c frame lost = Some c'"
  shows "net_sent (trace c') = net_sent (trace c)"
proof -
  have audio: "rfTimedOut c \<and> rfState c = NXDN_RF_AUDIO" "rfTimedOut (c\<lparr>lastLich := l\<rparr>)" for l
    using assms(1,2) by (auto simp: rfTimedOut_def nxdn_ok_def)
  have header: "net_sent (trace (snd (voiceHeader conv0 t0 c1 data))) = net_sent (trace c1)" if "rfTimedOut c1" for c1 data
    using that by (simp add: voiceHeader_def Let_def case_prod_unfold callbacks startRf_def endRf_def rfTimedOut_def)
  have body: "voiceBody conv0 t0 c1 option valid sacch data = Some c2 \<Longrightarrow> net_sent (trace c2) = net_sent (trace c1)"
    if "rfTimedOut c1" for c1 c2 option valid sacch data
    using that by (auto simp: voiceBody_def Let_def case_prod_unfold callbacks rfTimedOut_def split: option.splits)
  have voice: "processVoice conv0 t0 c1 usc option data = Some r \<Longrightarrow> net_sent (trace (snd r)) = net_sent (trace c1)"
    if "rfTimedOut c1" "rfState c1 = NXDN_RF_AUDIO" for c1 usc option data r
    using that header [OF that(1)] body [OF that(1)]
    by (auto simp: processVoice_def Let_def case_prod_unfold split: if_splits option.splits)
  have data: "net_sent (trace (snd (processData conv0 t0 c1 option data))) = net_sent (trace c1)" if "rfState c1 = NXDN_RF_AUDIO" for c1 option data
    using that by (simp add: processData_def Let_def case_prod_unfold)
  have lost: "net_sent (trace (rfLost c)) = net_sent (trace c)" by (simp add: rfLost_def endRf_def callbacks)
  show ?thesis
  proof (cases lost)
    case True
    then show ?thesis using assms(3) lost by (simp add: nxdnCtrlRf_def)
  next
    case False
    let ?d = "nxdnScramble (take NXDN_FRAME_LENGTH_BYTES frame)"
    let ?c = "if fst (nxdnLichDecode ?d) then c\<lparr>lastLich := snd (nxdnLichDecode ?d)\<rparr> else c"
    have c: "rfTimedOut ?c" "rfState ?c = NXDN_RF_AUDIO" "trace ?c = trace c" using audio by simp_all
    have "(if P then Some c1 else if Q then Some (snd (processData conv0 t0 c1 option ?d))
        else map_option snd (processVoice conv0 t0 c1 usc option ?d)) = Some c' \<Longrightarrow> net_sent (trace c') = net_sent (trace c1)"
      if "rfTimedOut c1" "rfState c1 = NXDN_RF_AUDIO" for P Q c1 option usc
      using voice [OF that] data [OF that(2)] by (auto split: if_splits)
    from this [OF c(1,2)] show ?thesis
      using assms(3) unfolding nxdnCtrlRf_def Let_def case_prod_unfold if_not_P [OF False] c(3) .
  qed
qed

text \<open>C24: from every state that \<open>nxdnCtrlInit\<close> and a configuration give, every sequence of frames, packets,
  clock ticks and resets is answered; afterwards the layer 3 buffers have their size, the RF timer runs
  exactly during a voice call, every frame sent to the transmitter has 48 bytes and starts, unscrambled,
  with the sync and a LICH of the right parity, and every packet sent to the network has 40 bytes, a
  known type and a LICH marked inbound.\<close>

theorem nxdn_control_well_formed:
  assumes "nxdn_fresh c0" "\<forall>i\<in>set ins. nxdn_input i"
  shows "(\<exists>c. steps nxdn_step c0 ins c) \<and> (\<forall>c. steps nxdn_step c0 ins c \<longrightarrow>
    length (rfLayer3 c) = 22 \<and> length (netLayer3 c) = 22 \<and> rfTimerRunning c = (rfState c = NXDN_RF_AUDIO) \<and>
    (\<forall>frame eot. SendRf frame eot \<in> set (trace c) \<longrightarrow>
      length frame = 48 \<and> nxdnHasSync (nxdnScramble frame) \<and> fst (nxdnLichDecode (nxdnScramble frame))) \<and>
    (\<forall>packet type. SendNet packet type \<in> set (trace c) \<longrightarrow>
      length packet = 40 \<and> type \<le> 5 \<and> NXDN_LICH_DIRECTION (packet ! 0) = NXDN_LICH_DIRECTION_INBOUND))"
proof
  show "\<exists>c. steps nxdn_step c0 ins c"
    using steps_total [of nxdn_ok c0 ins nxdn_step] fresh_ok(1) [OF assms(1)] nxdn_step_answers assms(2) by blast
  have "nxdn_ok c" if "steps nxdn_step c0 ins c" for c
    using steps_invariant [where P = nxdn_ok, OF that fresh_ok(1) [OF assms(1)]] nxdn_step_ok by blast
  then show "\<forall>c. steps nxdn_step c0 ins c \<longrightarrow>
    length (rfLayer3 c) = 22 \<and> length (netLayer3 c) = 22 \<and> rfTimerRunning c = (rfState c = NXDN_RF_AUDIO) \<and>
    (\<forall>frame eot. SendRf frame eot \<in> set (trace c) \<longrightarrow>
      length frame = 48 \<and> nxdnHasSync (nxdnScramble frame) \<and> fst (nxdnLichDecode (nxdnScramble frame))) \<and>
    (\<forall>packet type. SendNet packet type \<in> set (trace c) \<longrightarrow>
      length packet = 40 \<and> type \<le> 5 \<and> NXDN_LICH_DIRECTION (packet ! 0) = NXDN_LICH_DIRECTION_INBOUND)"
    by (auto dest: nxdn_ok_messages) (simp_all add: nxdn_ok_def)
qed

text \<open>C25: without resets, the events of the network describe calls that are opened by one start and closed
  by exactly one end, loss or switch, and a call is open exactly while the network state is not idle.\<close>

theorem nxdn_network_calls_bracketed:
  assumes "nxdn_fresh c0" "event c0" "Reset \<notin> set ins" "steps nxdn_step c0 ins c"
  shows "net_session (trace c) = Some (netState c \<noteq> NXDN_NET_IDLE)"
proof -
  have "session_ok c0" using assms(1,2) fresh_ok(2) by (simp add: session_ok_def nxdn_fresh_def net_session_def)
  then have "session_ok c" using steps_invariant [where P = session_ok, OF assms(4)] nxdn_step_session assms(3) by blast
  then show ?thesis by (simp add: session_ok_def)
qed

text \<open>C26: a network call whose watchdog runs is ended when only frames from the receiver and clock ticks follow
  that together reach the watchdog time: one of the ticks reports the call lost, and no call is open
  after it.\<close>

theorem nxdn_watchdog_ends_call:
  assumes "netState c \<noteq> NXDN_NET_IDLE" "netWatchdogRunning c" "netWatchdog c < netWatchdogMs c"
    and "steps nxdn_step c ins c'" "\<forall>i\<in>set ins. nxdn_watched (unat (netWatchdogMs c)) i"
    and "unat (netWatchdogMs c) \<le> unat (netWatchdog c) + sum_list (map nxdn_ticks ins)"
  shows "netState c' = NXDN_NET_IDLE \<and>
    (\<exists>before ms after c1 xs. ins = before @ Clock ms # after \<and> steps nxdn_step c before c1 \<and> netState c1 \<noteq> NXDN_NET_IDLE \<and>
      trace (nxdnCtrlClock c1 ms) = trace c1 @
        event_out (event c1) NXDN_EV_NET_LOST (netLayer3 c1) (netState c1 = NXDN_NET_DATA) (netFrames c1) (0, 1) @ xs)"
proof -
  have u: "unat (netWatchdog c) < unat (netWatchdogMs c)" using assms(3) by (simp add: word_less_nat_alt)
  obtain before i after c1 c2 where closed: "netState c' = NXDN_NET_IDLE" "ins = before @ i # after" "steps nxdn_step c before c1"
      "netState c1 \<noteq> NXDN_NET_IDLE" "netWatchdogRunning c1" "nxdn_step c1 i c2"
      "unat (netWatchdog c1) < unat (netWatchdogMs c1)" "unat (netWatchdogMs c1) \<le> unat (netWatchdog c1) + nxdn_ticks i"
    using nxdn_dog.closes [OF assms(4) _ u assms(5,6)] assms(1,2) by blast
  then obtain ms where ms: "i = Clock ms" by (cases i) (auto simp: nxdn_ticks_def)
  have "config c1 = config c"
    by (rule steps_invariant [where P = "\<lambda>d. config d = config c", OF closed(3)]) (auto dest: nxdn_step_config)
  then have "netWatchdogMs c1 = netWatchdogMs c" by (simp add: config_def)
  then have "unat (netWatchdog c1) + unat ms < 2 ^ 32" using assms(5) closed(2,7) ms by (auto simp: nxdn_watched_def)
  then have "netWatchdogMs c1 \<le> netWatchdog c1 + ms"
    using unat_add_lem [of "netWatchdog c1" ms] closed(8) ms by (simp add: word_le_nat_alt nxdn_ticks_def)
  then show ?thesis using clock_net_state(2) [OF closed(4,5)] closed ms by blast
qed

text \<open>C27: once the RF timer has run out, no frame from the receiver sends anything to the network, whatever it is.\<close>

theorem nxdn_timeout_silences_network:
  assumes "nxdn_fresh c0" "steps nxdn_step c0 ins c" "rfTimerRunning c" "rfTimeoutMs c \<le> rfTimer c"
    and "nxdnCtrlRf conv0 t0 c frame lost = Some c'"
  shows "net_sent (trace c') = net_sent (trace c)"
proof (rule timed_out_silent [OF _ _ assms(5)])
  show "nxdn_ok c" using steps_invariant [where P = nxdn_ok, OF assms(2) fresh_ok(1) [OF assms(1)]] nxdn_step_ok by blast
  show "rfTimedOut c" using assms(3,4) by (simp add: rfTimedOut_def)
qed

end
