(* ===== verification/NxdnLink.thy ===== *)
theory NxdnLink
  imports NxdnControl
begin

section \<open>A call across two NXDN controls\<close>

text \<open>
  A call header that a repeater gets from the network and puts on the air opens the same call in the
  control of a remote gateway that receives it.
\<close>

lemma scramble_bits:
  "length x = 48 \<Longrightarrow> length y = 48 \<Longrightarrow> j < 384 \<Longrightarrow> (rbit (nxdnScramble x) j = rbit (nxdnScramble y) j) = (rbit x j = rbit y j)"
  by (simp add: rbit_bit scramble_nth bit_xor_iff less_mult_imp_div_less) blast

lemma scramble_wrong_bits:
  assumes "length x = 48" "length y = 48" "set pos \<subseteq> {..<384}"
  shows "wrong_bits (nxdnScramble x) (nxdnScramble y) pos = wrong_bits x y pos"
  unfolding wrong_bits_def
  by (intro arg_cong [of _ _ length] filter_cong refl) (use scramble_bits [OF assms(1,2)] assms(3) in auto)

lemma l3_decode_start:
  assumes "length l3 = 22" "10 \<le> length msg"
  shows "take 10 (nxdnL3Decode l3 msg 80 0) = take 10 msg"
proof (rule rbit_inject)
  show "length (take 10 (nxdnL3Decode l3 msg 80 0)) = length (take 10 msg)" using assms by simp
  fix j assume "j < 8 * length (take 10 (nxdnL3Decode l3 msg 80 0))"
  then have j: "j < 80" using assms(1) by simp
  have "rbit (nxdnL3Decode l3 msg 80 0) j = (if 0 \<le> j \<and> j < 0 + 80 then rbit msg (j - 0) else rbit l3 j)"
    unfolding nxdnL3Decode_def by (rule run_loop(2)) (use assms(1) in simp)
  then show "rbit (take 10 (nxdnL3Decode l3 msg 80 0)) j = rbit (take 10 msg) j" using j by (simp add: rbit_take)
qed

lemma l3_fields:
  assumes "take 10 l = take 10 m"
  shows "NXDN_L3_TYPE l = NXDN_L3_TYPE m" "NXDN_L3_SRC l = NXDN_L3_SRC m" "NXDN_L3_DST l = NXDN_L3_DST m"
    "NXDN_L3_GROUP l = NXDN_L3_GROUP m"
proof -
  have "l ! i = m ! i" if "i < 10" for i using assms that by (metis nth_take)
  then show "NXDN_L3_TYPE l = NXDN_L3_TYPE m" "NXDN_L3_SRC l = NXDN_L3_SRC m" "NXDN_L3_DST l = NXDN_L3_DST m"
    "NXDN_L3_GROUP l = NXDN_L3_GROUP m"
    by (simp_all add: NXDN_L3_TYPE_def NXDN_L3_SRC_def NXDN_L3_DST_def NXDN_L3_GROUP_def)
qed

lemma facch1_raw_start: "10 \<le> length m \<Longrightarrow> take 10 (nxdnFacch1GetRaw (take 10 m) (replicate 12 0)) = take 10 m"
proof (rule rbit_inject)
  assume m: "10 \<le> length m"
  then show "length (take 10 (nxdnFacch1GetRaw (take 10 m) (replicate 12 0))) = length (take 10 m)"
    by (simp add: facch1_raw_length)
  fix j assume "j < 8 * length (take 10 (nxdnFacch1GetRaw (take 10 m) (replicate 12 0)))"
  then have j: "j < 80" using m by (simp add: facch1_raw_length)
  have "rbit (nxdnFacch1GetRaw (take 10 m) (replicate 12 0)) j = rbit (take 10 m @ [0, 0]) j"
    using facch1_info(3) [of "take 10 m"] m j by (simp add: putBits_bits)
  then show "rbit (take 10 (nxdnFacch1GetRaw (take 10 m) (replicate 12 0))) j = rbit (take 10 m) j"
    using m j by (simp add: rbit_take rbit_append)
qed

text \<open>What the receiver decodes from a header frame with at most one wrong bit in its first FACCH1.\<close>

definition header_frame :: "NxdnCtrl \<Rightarrow> bytes \<Rightarrow> bytes \<Rightarrow> bytes" where
  "header_frame a m f0 = nxdnFacch1Encode m (nxdnFacch1Encode m (nxdnSacchEncode (idleSacch a) f0) NXDN_FACCH1_OFFSET_1) NXDN_FACCH1_OFFSET_2"

lemma header_received:
  assumes f0: "headed lich f0" and m: "10 \<le> length m"
    and data: "length data = 48" "\<And>j. j < 96 \<Longrightarrow> rbit data j = rbit (header_frame a m f0) j"
      "wrong_bits (header_frame a m f0) data [96..<240] \<le> 1"
    and conv: "length (decisions conv) = 300" "length t0 = 430"
  shows "nxdnLichDecode data = (True, lich_sent lich)"
    and "\<exists>sacch. nxdnSacchDecode conv t0 data (replicate 5 0) = (True, sacch) \<and> length sacch = 5 \<and>
      (\<forall>j<32. rbit sacch j = rbit (sacch_info (idleSacch a)) j)"
    and "nxdnFacch1Decode conv t0 data NXDN_FACCH1_OFFSET_1 (replicate 12 0) = (True, nxdnFacch1GetRaw (take 10 m) (replicate 12 0))"
proof -
  have e: "nxdnFacch1Encode m = nxdnFacch1Encode (take 10 m)" by (intro ext) (simp add: nxdnFacch1Encode_def)
  note f0_len = headed_length [OF f0]
  let ?s = "nxdnSacchEncode (idleSacch a) f0"
  let ?g = "nxdnFacch1Encode m ?s NXDN_FACCH1_OFFSET_1"
  have s: "length ?s = 48" "length ?g = 48" using f0_len encoders_frame offsets by simp_all
  have hf: "rbit (header_frame a m f0) j = rbit ?g j" if "j < 240" for j
    unfolding header_frame_def
    by (rule encoders_frame(6) [OF s(2)]) (use that in \<open>simp_all add: NXDN_FACCH1_OFFSET_2_def\<close>)
  have g: "rbit ?g j = rbit ?s j" if "j < 96" for j
    by (rule encoders_frame(6) [OF s(1)]) (use that in \<open>simp_all add: NXDN_FACCH1_OFFSET_1_def\<close>)
  have "headed lich (header_frame a m f0)"
    unfolding header_frame_def by (intro headed_facch headed_encoders f0)
  then have "headed lich data" by (rule headed_kept) (use data(1,2) in simp_all)
  then show "nxdnLichDecode data = (True, lich_sent lich)" by (rule headed_sends(2))
  have "wrong_bits ?s data [36..<96] = 0" 
  proof (rule wrong_bits_refl)
    fix j assume "j \<in> set [36..<96 :: nat]"
    then have "j < 96" by (simp only: set_upt atLeastLessThan_iff)
    then show "rbit ?s j = rbit data j" using data(2) [of j] hf [of j] g [of j] by simp
  qed
  then show "\<exists>sacch. nxdnSacchDecode conv t0 data (replicate 5 0) = (True, sacch) \<and> length sacch = 5 \<and>
      (\<forall>j<32. rbit sacch j = rbit (sacch_info (idleSacch a)) j)"
    by (intro sacch_recovers [OF conv _ f0_len]) simp_all
  have "wrong_bits ?g data [96..<240] = wrong_bits (header_frame a m f0) data [96..<240]"
    unfolding wrong_bits_def by (intro arg_cong [of _ _ length] filter_cong refl) (use hf in auto)
  then have few: "wrong_bits (nxdnFacch1Encode (take 10 m) ?s NXDN_FACCH1_OFFSET_1) data
      [NXDN_FACCH1_OFFSET_1..<NXDN_FACCH1_OFFSET_1 + 144] \<le> 1"
    using data(3) unfolding e by (simp add: NXDN_FACCH1_OFFSET_1_def)
  show "nxdnFacch1Decode conv t0 data NXDN_FACCH1_OFFSET_1 (replicate 12 0) = (True, nxdnFacch1GetRaw (take 10 m) (replicate 12 0))"
    by (rule facch1_recovers [OF conv(1,2) _ _ s(1) offsets(2) few]) (use m in simp_all)
qed

lemma idle_ran:
  assumes r: "c_ran a < 64" and sacch: "\<And>j. j < 32 \<Longrightarrow> rbit sacch j = rbit (sacch_info (idleSacch a)) j"
  shows "NXDN_SACCH_RAN sacch = c_ran a"
proof -
  let ?s = "idleSacch a"
  have "sacch ! 0 = ?s ! 0"
  proof (rule bit_word_eqI)
    fix n assume "n < LENGTH(8)"
    then have "7 - n < 26" "(7 - n) div 8 = 0" "7 - (7 - n) mod 8 = n" by auto
    then show "bit (sacch ! 0) n = bit (?s ! 0) n"
      using sacch_info_bits(2) [of "7 - n" ?s] sacch [of "7 - n"] by (simp add: rbit_bit)
  qed
  moreover have "?s ! 0 AND 0x3F = c_ran a AND 0x3F"
  proof -
    have "nxdnSacchSetData s data ! 0 = s ! 0" for s data
      unfolding nxdnSacchSetData_def by (rule fold_proj_inv [where g = "\<lambda>s. s ! 0"]) (simp add: WRITE_BIT_def)
    then show ?thesis by (simp add: idleSacch_def Let_def nxdnSacchSetRAN_def nxdnSacchSetStructure_def NXDN_SR_SINGLE_def and.assoc)
  qed
  moreover have "c_ran a AND 0x3F = c_ran a"
  proof -
    have m: "(0x3F :: u8) = mask 6" by (simp add: mask_eq_exp_minus_1)
    have "\<not> bit (c_ran a) n" if "6 \<le> n" for n using r word_less_exp_bits [of 6 "c_ran a"] that by simp
    then show ?thesis unfolding m
      by (intro bit_word_eqI) (auto simp: bit_and_iff bit_mask_iff not_less [symmetric] simp del: not_less)
  qed
  ultimately show ?thesis by (simp add: NXDN_SACCH_RAN_def)
qed

text \<open>The LICH of a packet, turned outbound.\<close>

lemma fct_eq: "(\<And>k. 4 \<le> k \<Longrightarrow> k < 6 \<Longrightarrow> bit l k = bit l' k) \<Longrightarrow> NXDN_LICH_FCT l = NXDN_LICH_FCT l'"
proof -
  assume eq: "\<And>k. 4 \<le> k \<Longrightarrow> k < 6 \<Longrightarrow> bit l k = bit l' k"
  have three: "(3 :: u8) = mask 2" by (simp add: mask_eq_exp_minus_1)
  show ?thesis unfolding NXDN_LICH_FCT_def three
    by (intro bit_word_eqI) (auto simp only: bit_and_iff bit_drop_bit_eq bit_mask_iff o_apply eq)
qed

lemma outbound_lich:
  assumes "NXDN_LICH_FCT l = NXDN_LICH_USC_SACCH_NS"
  shows "NXDN_LICH_FCT (lich_sent ((l AND NOT 0x02) OR (push_bit 1 1 AND 0x02))) = NXDN_LICH_USC_SACCH_NS"
    and "NXDN_LICH_DIRECTION (lich_sent ((l AND NOT 0x02) OR (push_bit 1 1 AND 0x02))) = NXDN_LICH_DIRECTION_OUTBOUND"
proof -
  have two: "bit (2 :: u8) k \<longleftrightarrow> k = 1" for k by (auto simp: bit_2_iff)
  have one: "(push_bit 1 1 AND 0x02 :: u8) = 2" by simp
  have high: "bit (lich_sent ((l AND NOT 0x02) OR 2)) k = bit l k" if "4 \<le> k" for k
    unfolding lich_sent_bits bit_or_iff bit_and_iff bit_not_iff two using that bit_imp_le_length [of l k] by auto
  show "NXDN_LICH_FCT (lich_sent ((l AND NOT 0x02) OR (push_bit 1 1 AND 0x02))) = NXDN_LICH_USC_SACCH_NS"
    unfolding assms [symmetric] one by (rule fct_eq) (rule high)
  have "drop_bit 1 w AND 1 = (1 :: u8)" if "bit w 1" for w :: u8
    by (rule bit_word_eqI) (use that in \<open>auto simp: bit_and_iff bit_drop_bit_eq bit_1_iff\<close>)
  moreover have "bit (lich_sent ((l AND NOT 0x02) OR 2)) 1"
    unfolding lich_sent_bits bit_or_iff two by simp
  ultimately show "NXDN_LICH_DIRECTION (lich_sent ((l AND NOT 0x02) OR (push_bit 1 1 AND 0x02))) = NXDN_LICH_DIRECTION_OUTBOUND"
    unfolding one by (simp only: NXDN_LICH_DIRECTION_def NXDN_LICH_DIRECTION_OUTBOUND_def)
qed

text \<open>The receiving control, which refuses other callers than its own when it is told to.\<close>

definition refuses :: "NxdnCtrl \<Rightarrow> bytes \<Rightarrow> bool" where
  "refuses b m \<longleftrightarrow> selfOnly b \<and> NXDN_L3_SRC m \<noteq> c_id b"

lemma gateway_receives:
  assumes lich: "NXDN_LICH_FCT (lich_sent lich) = NXDN_LICH_USC_SACCH_NS" "NXDN_LICH_DIRECTION (lich_sent lich) = NXDN_LICH_DIRECTION_OUTBOUND"
    and f0: "headed lich f0" and m: "10 \<le> length m" "NXDN_L3_TYPE m = NXDN_MESSAGE_TYPE_VCALL"
    and b: "rfState b = NXDN_RF_LISTENING" "remoteGateway b" "c_ran b = c_ran a" "c_ran a < 64"
    and recvd: "length recvd = 48" "\<And>j. j < 96 \<Longrightarrow> rbit recvd j = rbit (nxdnScramble (header_frame a m f0)) j"
      "wrong_bits (nxdnScramble (header_frame a m f0)) recvd [96..<240] \<le> 1"
    and conv: "length (decisions conv) = 300" "length t0 = 430"
  shows "\<exists>b'. nxdnCtrlRf conv t0 b recvd False = Some b' \<and>
    rfState b' = (if refuses b m then NXDN_RF_REJECTED else NXDN_RF_AUDIO) \<and>
    (\<not> refuses b m \<longrightarrow> rfTimerRunning b' \<and> rfTimer b' = 0 \<and>
      NXDN_L3_SRC (rfLayer3 b') = NXDN_L3_SRC m \<and> NXDN_L3_DST (rfLayer3 b') = NXDN_L3_DST m) \<and>
    (event b \<longrightarrow> (\<exists>call. last (trace b') = CallEvent call \<and>
      call_event call = (if refuses b m then NXDN_EV_RF_REJECTED else NXDN_EV_RF_START) \<and> src call = NXDN_L3_SRC m \<and>
      dst call = NXDN_L3_DST m \<and> group call = NXDN_L3_GROUP m))"
proof -
  define data where "data = nxdnScramble (take NXDN_FRAME_LENGTH_BYTES recvd)"
  have d: "data = nxdnScramble recvd" using recvd(1) by (simp add: data_def NXDN_FRAME_LENGTH_BYTES_def)
  have h: "length (header_frame a m f0) = 48"
    unfolding header_frame_def using headed_length [OF f0] by (simp add: encoders_frame offsets)
  then have tw: "nxdnScramble (nxdnScramble (header_frame a m f0)) = header_frame a m f0" "length (nxdnScramble (header_frame a m f0)) = 48"
    by (simp_all add: scramble_twice scramble_nth)
  have len: "length data = 48" using recvd(1) by (simp add: d scramble_nth)
  have same: "rbit data j = rbit (header_frame a m f0) j" if "j < 96" for j
    using scramble_bits [OF recvd(1) tw(2), of j] recvd(2) [OF that] that unfolding d tw(1) by simp
  have few: "wrong_bits (header_frame a m f0) data [96..<240] \<le> 1"
    using scramble_wrong_bits [OF tw(2) recvd(1), of "[96..<240]"] recvd(3) unfolding d tw(1) by auto
  note r = header_received [OF f0 m(1) len same few conv]
  define facch where "facch = nxdnFacch1GetRaw (take 10 m) (replicate 12 0)"
  have l3: "take 10 (facchLayer3 facch) = take 10 m"
    unfolding facchLayer3_def facch_def using l3_decode_start facch1_raw_start [OF m(1)] m(1) by (simp add: facch1_raw_length)
  note fields = l3_fields [OF l3]
  have rel: "NXDN_MESSAGE_TYPE_VCALL \<noteq> NXDN_MESSAGE_TYPE_TX_REL" by (simp add: NXDN_MESSAGE_TYPE_TX_REL_def NXDN_MESSAGE_TYPE_VCALL_def)
  have dir: "NXDN_LICH_DIRECTION_OUTBOUND \<noteq> NXDN_LICH_DIRECTION_INBOUND" "NXDN_LICH_USC_SACCH_NS \<noteq> NXDN_LICH_USC_UDCH"
    by (simp_all add: NXDN_LICH_DIRECTION_OUTBOUND_def NXDN_LICH_DIRECTION_INBOUND_def NXDN_LICH_USC_SACCH_NS_def NXDN_LICH_USC_UDCH_def)
  let ?b = "b\<lparr>lastLich := lich_sent lich\<rparr>"
  have either: "facchEither conv t0 data = (True, facch)" by (simp add: facchEither_def r(3) facch_def)
  have "\<exists>b'. voiceHeader conv t0 ?b data = (True, b') \<and> rfState b' = (if refuses b m then NXDN_RF_REJECTED else NXDN_RF_AUDIO) \<and>
      (\<not> refuses b m \<longrightarrow> rfTimerRunning b' \<and> rfTimer b' = 0 \<and> rfLayer3 b' = facchLayer3 facch) \<and>
      (event b \<longrightarrow> (\<exists>call. last (trace b') = CallEvent call \<and>
        call_event call = (if refuses b m then NXDN_EV_RF_REJECTED else NXDN_EV_RF_START) \<and>
        src call = NXDN_L3_SRC m \<and> dst call = NXDN_L3_DST m \<and> group call = NXDN_L3_GROUP m))"
  proof (cases "refuses b m")
    case True
    then have "selfOnly b" "NXDN_L3_SRC m \<noteq> c_id b" by (simp_all add: refuses_def)
    then show ?thesis using True b(1) either by (simp add: voiceHeader_def Let_def case_prod_unfold fields m(2) rel callbacks event_out_def)
  next
    case False
    then have "\<not> (selfOnly b \<and> NXDN_L3_SRC m \<noteq> c_id b)" by (simp add: refuses_def)
    then have s: "(rfState b = NXDN_RF_LISTENING \<and> selfOnly b \<and> NXDN_L3_SRC m \<noteq> c_id b) = False" by blast
    show ?thesis using False b(1) either s
      by (simp add: voiceHeader_def Let_def case_prod_unfold fields m(2) rel callbacks startRf_def event_out_def)
  qed
  then obtain b' where v: "voiceHeader conv t0 ?b data = (True, b')" "rfState b' = (if refuses b m then NXDN_RF_REJECTED else NXDN_RF_AUDIO)"
      "\<not> refuses b m \<longrightarrow> rfTimerRunning b' \<and> rfTimer b' = 0 \<and> rfLayer3 b' = facchLayer3 facch"
      "event b \<longrightarrow> (\<exists>call. last (trace b') = CallEvent call \<and>
        call_event call = (if refuses b m then NXDN_EV_RF_REJECTED else NXDN_EV_RF_START) \<and>
        src call = NXDN_L3_SRC m \<and> dst call = NXDN_L3_DST m \<and> group call = NXDN_L3_GROUP m)"
    by blast
  have dec: "nxdnLichDecode data = (True, lich_sent lich)" by (rule r(1))
  obtain sacch where sacch: "nxdnSacchDecode conv t0 data (replicate 5 0) = (True, sacch)" "NXDN_SACCH_RAN sacch = c_ran a"
    using r(2) idle_ran [OF b(4)] by blast
  have "processVoice conv t0 ?b NXDN_LICH_USC_SACCH_NS option data = Some (True, b')" for option
    using b(3) by (simp add: processVoice_def sacch v(1))
  then have "nxdnCtrlRf conv t0 b recvd False = Some b'"
    unfolding nxdnCtrlRf_def data_def [symmetric] Let_def using b(2) by (simp add: lich dir dec)
  then show ?thesis using v fields by auto
qed

text \<open>The sending control.\<close>

lemma memcpy_fields: "10 \<le> length m \<Longrightarrow> take 10 (memcpy_at (replicate 22 0) 0 m 10) = take 10 m"
  by (simp add: memcpy_at_def)

lemma idleSacch_ran: "c_ran c = c_ran a \<Longrightarrow> idleSacch c = idleSacch a"
  by (simp add: idleSacch_def)

lemma repeater_sends:
  assumes a: "rfState a = NXDN_RF_LISTENING" "netState a = NXDN_NET_IDLE" "duplex a" "\<not> remoteGateway a" "sendRf a"
    and packet: "length packet = 40" "NXDN_LICH_FCT (packet ! 0) = NXDN_LICH_USC_SACCH_NS" "NXDN_L3_TYPE (drop 5 packet) = NXDN_MESSAGE_TYPE_VCALL"
  shows "\<exists>lich f0. headed lich f0 \<and> lich = (packet ! 0 AND NOT 0x02) OR (push_bit 1 1 AND 0x02) \<and>
    trace (nxdnCtrlNet a packet) = trace a @ SendRf (nxdnScramble (header_frame a (drop 5 packet) f0)) False #
      event_out (event a) NXDN_EV_NET_START (memcpy_at (replicate 22 0) 0 (drop 5 packet) 10) False 0 (0, 1) \<and>
    netState (nxdnCtrlNet a packet) = NXDN_NET_AUDIO"
proof -
  define lich where "lich = (packet ! 0 AND NOT 0x02) OR (push_bit 1 1 AND 0x02)"
  define f0 where "f0 = nxdnLichEncode lich (nxdnAddSync (replicate NXDN_FRAME_LENGTH_BYTES 0))"
  define c where "c = a\<lparr>netWatchdogRunning := True, netWatchdog := 0\<rparr>"
  have f0: "headed lich f0" unfolding f0_def by (rule headed_start) (simp add: NXDN_FRAME_LENGTH_BYTES_def)
  have "length (header_frame a (drop 5 packet) f0) = 48"
    unfolding header_frame_def using headed_length [OF f0] by (simp add: encoders_frame offsets)
  then have out: "rf_out True (header_frame a (drop 5 packet) f0) False = [SendRf (nxdnScramble (header_frame a (drop 5 packet) f0)) False]"
    by (simp add: rf_out_def)
  have dir: "direction c = 1" using a by (simp add: c_def direction_def NXDN_LICH_DIRECTION_OUTBOUND_def)
  have ns: "NXDN_LICH_USC_SACCH_NS \<noteq> NXDN_LICH_USC_UDCH" "NXDN_MESSAGE_TYPE_VCALL \<noteq> NXDN_MESSAGE_TYPE_TX_REL"
    by (simp_all add: NXDN_LICH_USC_SACCH_NS_def NXDN_LICH_USC_UDCH_def NXDN_MESSAGE_TYPE_VCALL_def NXDN_MESSAGE_TYPE_TX_REL_def)
  have "nxdnCtrlNet a packet = netHeader c packet f0"
    using a(1) packet(2) ns(1) unfolding nxdnCtrlNet_def c_def [symmetric] Let_def dir lich_def [symmetric] f0_def [symmetric] by simp
  moreover have "NXDN_L3_TYPE (memcpy_at (replicate 22 0) 0 (drop 5 packet) 10) = NXDN_MESSAGE_TYPE_VCALL"
    using l3_fields(1) [OF memcpy_fields, of "drop 5 packet"] packet(1,3) by simp
  moreover have "c_ran c = c_ran a" "netState c = NXDN_NET_IDLE" "trace c = trace a" "sendRf c" "event c = event a"
    using a by (simp_all add: c_def)
  moreover from this have "idleSacch (c\<lparr>netLayer3 := l\<rparr>) = idleSacch a" for l by (intro idleSacch_ran) simp
  ultimately have "trace (nxdnCtrlNet a packet) = trace a @ rf_out True (header_frame a (drop 5 packet) f0) False @
      event_out (event a) NXDN_EV_NET_START (memcpy_at (replicate 22 0) 0 (drop 5 packet) 10) False 0 (0, 1)"
    "netState (nxdnCtrlNet a packet) = NXDN_NET_AUDIO"
    using ns(2) by (simp_all add: netHeader_def Let_def callbacks header_frame_def)
  then show ?thesis using f0 out lich_def by auto
qed

text \<open>C39: when an idle duplex repeater gets a call header from the network, it puts a frame on the air that opens
  the same call in a listening remote gateway with its access number: same source, destination and kind
  of call, reported by the start event; a gateway that accepts its own calls only and is not the source refuses the call,
  in the same words.  The frame may arrive with one bit of the first FACCH1 wrong and the second FACCH1 destroyed, and the
  local array of the gateway's decoder may hold anything.\<close>

theorem nxdn_header_reaches_gateway:
  assumes "rfState a = NXDN_RF_LISTENING" "netState a = NXDN_NET_IDLE" "duplex a" "\<not> remoteGateway a" "sendRf a" "c_ran a < 64"
    and "length packet = 40" "NXDN_LICH_FCT (packet ! 0) = NXDN_LICH_USC_SACCH_NS" "NXDN_L3_TYPE (drop 5 packet) = NXDN_MESSAGE_TYPE_VCALL"
    and "rfState b = NXDN_RF_LISTENING" "remoteGateway b" "c_ran b = c_ran a" "event b"
    and "length (decisions conv0) = 300" "length t0 = 430"
  shows "let refused = selfOnly b \<and> NXDN_L3_SRC (drop 5 packet) \<noteq> c_id b in
    \<exists>air after. trace (nxdnCtrlNet a packet) = trace a @ SendRf air False # after \<and>
    netState (nxdnCtrlNet a packet) = NXDN_NET_AUDIO \<and>
    (\<forall>recvd. length recvd = 48 \<and> (\<forall>j<96. rbit recvd j = rbit air j) \<and> wrong_bits air recvd [96..<240] \<le> 1 \<longrightarrow>
      (\<exists>b' call. nxdnCtrlRf conv0 t0 b recvd False = Some b' \<and> rfState b' = (if refused then NXDN_RF_REJECTED else NXDN_RF_AUDIO) \<and>
        last (trace b') = CallEvent call \<and> call_event call = (if refused then NXDN_EV_RF_REJECTED else NXDN_EV_RF_START) \<and>
        src call = NXDN_L3_SRC (drop 5 packet) \<and> dst call = NXDN_L3_DST (drop 5 packet) \<and> group call = NXDN_L3_GROUP (drop 5 packet)))"
proof -
  define lich where "lich = (packet ! 0 AND NOT 0x02) OR (push_bit 1 1 AND 0x02)"
  obtain f0 where f0: "headed lich f0" and sent: "\<exists>after. trace (nxdnCtrlNet a packet) =
      trace a @ SendRf (nxdnScramble (header_frame a (drop 5 packet) f0)) False # after" "netState (nxdnCtrlNet a packet) = NXDN_NET_AUDIO"
    using repeater_sends [OF assms(1-5) assms(7-9)] lich_def by blast
  have "10 \<le> length (drop 5 packet)" using assms(7) by simp
  note r = gateway_receives [OF outbound_lich [OF assms(8), folded lich_def] f0 this assms(9-12) assms(6) _ _ _ assms(14,15)]
  show ?thesis unfolding refuses_def [symmetric] Let_def using sent r assms(13) by blast
qed

subsection \<open>A repeater and a gateway\<close>

definition nxdn_repeater :: NxdnCtrl where
  "nxdn_repeater = \<lparr>c_ran = 1, c_id = 0, selfOnly = False, remoteGateway = False, duplex = True, localRepeat = True,
     rfTimeoutMs = 180000, netWatchdogMs = 1500, sendNet = True, sendRf = True, event = True,
     rfState = NXDN_RF_LISTENING, netState = NXDN_NET_IDLE, rfMask = 0, netMask = 0,
     rfLayer3 = replicate 22 0, netLayer3 = replicate 22 0, lastLich = 0, rfFrames = 0, rfErrs = 0, rfBits = 1,
     netFrames = 0, rfTimer = 0, rfTimerRunning = False, netTimer = 0, netWatchdog = 0, netWatchdogRunning = False, trace = []\<rparr>"

definition nxdn_gateway :: NxdnCtrl where
  "nxdn_gateway = nxdn_repeater\<lparr>remoteGateway := True, duplex := False\<rparr>"

definition call_packet :: bytes where
  "call_packet = [0x80, 0x01, 0x10, 0, 0, 0x01, 0x00, 0x20, 0x12, 0x34, 0x56, 0x78, 0, 0, 0] @ replicate 25 0"

lemma stations_fresh: "nxdn_fresh nxdn_repeater" "nxdn_fresh nxdn_gateway"
  by (simp_all add: nxdn_fresh_def nxdn_repeater_def nxdn_gateway_def nxdnCtrlInit_def)

lemma call_packet_fields:
  "length call_packet = 40" "NXDN_LICH_FCT (call_packet ! 0) = NXDN_LICH_USC_SACCH_NS"
  "NXDN_L3_TYPE (drop 5 call_packet) = NXDN_MESSAGE_TYPE_VCALL"
  by (simp_all add: call_packet_def NXDN_LICH_FCT_def NXDN_LICH_USC_SACCH_NS_def NXDN_L3_TYPE_def NXDN_MESSAGE_TYPE_VCALL_def)

lemma nxdn_control_well_formed_witness:
  "\<exists>c. steps nxdn_step nxdn_repeater [RfFrame (replicate 48 0x55), NetPacket call_packet, Clock 20, RfLost, Reset] c \<and>
    length (rfLayer3 c) = 22 \<and> length (netLayer3 c) = 22 \<and> rfTimerRunning c = (rfState c = NXDN_RF_AUDIO)"
  using nxdn_control_well_formed [OF stations_fresh(1), of "[RfFrame (replicate 48 0x55), NetPacket call_packet, Clock 20, RfLost, Reset]"]
  by (simp add: nxdn_input_def call_packet_fields) blast

lemma nxdn_network_calls_bracketed_witness:
  "net_session (trace (nxdnCtrlNet nxdn_repeater call_packet)) = Some True"
proof -
  have "net_session (trace (nxdnCtrlNet nxdn_repeater call_packet)) = Some (netState (nxdnCtrlNet nxdn_repeater call_packet) \<noteq> NXDN_NET_IDLE)"
    by (rule nxdn_network_calls_bracketed [OF stations_fresh(1), of "[NetPacket call_packet]"])
      (simp_all add: steps_simps nxdn_step_simps call_packet_fields nxdn_repeater_def)
  moreover have "netState (nxdnCtrlNet nxdn_repeater call_packet) = NXDN_NET_AUDIO"
    using repeater_sends [of nxdn_repeater call_packet] call_packet_fields by (auto simp: nxdn_repeater_def)
  ultimately show ?thesis by simp
qed

lemma nxdn_watchdog_ends_call_witness:
  "netState (nxdnCtrlClock (rfLost (nxdnCtrlClock (nxdn_repeater\<lparr>netState := NXDN_NET_AUDIO, netWatchdogRunning := True\<rparr>) 1000)) 600) =
    NXDN_NET_IDLE"
proof -
  let ?c = "nxdn_repeater\<lparr>netState := NXDN_NET_AUDIO, netWatchdogRunning := True\<rparr>"
  have "steps nxdn_step ?c [Clock 1000, RfLost, Clock 600] (nxdnCtrlClock (rfLost (nxdnCtrlClock ?c 1000)) 600)"
    by (simp add: steps_simps nxdn_step_simps nxdnCtrlRf_def)
  then show ?thesis
    by (intro conjunct1 [OF nxdn_watchdog_ends_call]) (auto simp: nxdn_repeater_def nxdn_watched_def nxdn_ticks_def)
qed

text \<open>The frame of the repeater opens a call in the gateway, whose timer then runs out.\<close>

lemma gateway_timed_out:
  "\<exists>air c. steps nxdn_step nxdn_gateway [RfFrame air, Clock 180000] c \<and> rfTimerRunning c \<and> rfTimeoutMs c \<le> rfTimer c"
proof -
  obtain lich f0 where f0: "headed lich f0" "lich = (call_packet ! 0 AND NOT 0x02) OR (push_bit 1 1 AND 0x02)"
    using repeater_sends [of nxdn_repeater call_packet] call_packet_fields by (auto simp: nxdn_repeater_def)
  define m where "m = drop 5 call_packet"
  define air where "air = nxdnScramble (header_frame nxdn_repeater m f0)"
  have "length (header_frame nxdn_repeater m f0) = 48"
    unfolding header_frame_def using headed_length [OF f0(1)] by (simp add: encoders_frame offsets)
  then have len: "length air = 48" by (simp add: air_def scramble_nth)
  have m: "10 \<le> length m" "NXDN_L3_TYPE m = NXDN_MESSAGE_TYPE_VCALL" using call_packet_fields by (simp_all add: m_def)
  have b: "rfState nxdn_gateway = NXDN_RF_LISTENING" "remoteGateway nxdn_gateway"
    "c_ran nxdn_gateway = c_ran nxdn_repeater" "c_ran nxdn_repeater < 64" and open_to_all: "\<not> refuses nxdn_gateway m"
    by (simp_all add: nxdn_gateway_def nxdn_repeater_def refuses_def)
  have few: "wrong_bits (nxdnScramble (header_frame nxdn_repeater m f0)) air [96..<240] \<le> 1"
    unfolding air_def by (simp add: wrong_bits_def)
  obtain b' where b': "nxdnCtrlRf idle_conv (replicate 430 0) nxdn_gateway air False = Some b'" "rfState b' = NXDN_RF_AUDIO"
      "rfTimerRunning b'" "rfTimer b' = 0"
    using gateway_receives [OF outbound_lich [OF call_packet_fields(2), folded f0(2)] f0(1) m b len _ few, of idle_conv "replicate 430 0"]
    using open_to_all by (auto simp: air_def idle_conv_length)
  then have side: "net_side b' = net_side nxdn_gateway" "config b' = config nxdn_gateway" using nxdnCtrlRf_side by blast+
  then have "rfTimeoutMs b' = 180000" "netState b' = NXDN_NET_IDLE"
    by (simp_all add: config_def net_side_def nxdn_gateway_def nxdn_repeater_def)
  then have "rfTimerRunning (nxdnCtrlClock b' 180000)" "rfTimeoutMs (nxdnCtrlClock b' 180000) \<le> rfTimer (nxdnCtrlClock b' 180000)"
    using b'(3,4) by (simp_all add: nxdnCtrlClock_def)
  moreover have "steps nxdn_step nxdn_gateway [RfFrame air, Clock 180000] (nxdnCtrlClock b' 180000)"
    using b'(1) len by (auto simp: steps_simps nxdn_step_simps)
  ultimately show ?thesis by blast
qed

lemma nxdn_timeout_silences_network_witness:
  "\<exists>air c. steps nxdn_step nxdn_gateway [RfFrame air, Clock 180000] c \<and>
    (\<exists>c'. nxdnCtrlRf idle_conv [] c (replicate 48 0x55) False = Some c' \<and> net_sent (trace c') = net_sent (trace c))"
proof -
  obtain air c where c: "steps nxdn_step nxdn_gateway [RfFrame air, Clock 180000] c" "rfTimerRunning c" "rfTimeoutMs c \<le> rfTimer c"
    using gateway_timed_out by blast
  have "nxdn_ok c" using steps_invariant [where P = nxdn_ok, OF c(1) fresh_ok(1) [OF stations_fresh(2)]] nxdn_step_ok by blast
  then obtain c' where "nxdnCtrlRf idle_conv [] c (replicate 48 0x55) False = Some c'" using nxdnCtrlRf_total [of c False "replicate 48 0x55"] by auto
  then show ?thesis using nxdn_timeout_silences_network [OF stations_fresh(2) c] c(1) by blast
qed

lemma nxdn_header_reaches_gateway_witness:
  "\<exists>air after. trace (nxdnCtrlNet nxdn_repeater call_packet) = SendRf air False # after \<and>
    (\<forall>recvd. length recvd = 48 \<and> (\<forall>j<96. rbit recvd j = rbit air j) \<and> wrong_bits air recvd [96..<240] \<le> 1 \<longrightarrow>
      (\<exists>b'. nxdnCtrlRf idle_conv (replicate 430 0xAA) nxdn_gateway recvd False = Some b' \<and> rfState b' = NXDN_RF_AUDIO))"
proof -
  have b: "rfState nxdn_repeater = NXDN_RF_LISTENING" "netState nxdn_repeater = NXDN_NET_IDLE" "duplex nxdn_repeater"
    "\<not> remoteGateway nxdn_repeater" "sendRf nxdn_repeater" "c_ran nxdn_repeater < 64" "rfState nxdn_gateway = NXDN_RF_LISTENING"
    "remoteGateway nxdn_gateway" "c_ran nxdn_gateway = c_ran nxdn_repeater" "event nxdn_gateway"
    "length (replicate 430 (0xAA :: u8)) = 430" "trace nxdn_repeater = []" "selfOnly nxdn_gateway = False"
    by (simp_all add: nxdn_repeater_def nxdn_gateway_def)
  note r = nxdn_header_reaches_gateway [OF b(1-6) call_packet_fields b(7-10) idle_conv_length b(11)]
  show ?thesis using r unfolding Let_def b(12,13) simp_thms if_False append_Nil by blast
qed

subsection \<open>A talker switch stops the watchdog\<close>

text \<open>
  A call header of another talker ends the open call and opens the new one, but \<open>endNet\<close> has stopped the
  watchdog that \<open>nxdnCtrlNet\<close> started for this packet: if no further packet comes, no clock tick ends the
  new call.
\<close>

theorem nxdn_switch_stops_watchdog:
  assumes "netState c \<noteq> NXDN_NET_IDLE" "length packet = 40" "NXDN_LICH_FCT (packet ! 0) = NXDN_LICH_USC_SACCH_NS"
    and "NXDN_L3_TYPE (drop 5 packet) = NXDN_MESSAGE_TYPE_VCALL" "NXDN_L3_SRC (netLayer3 c) \<noteq> 0"
    and "NXDN_L3_SRC (drop 5 packet) \<noteq> NXDN_L3_SRC (netLayer3 c)"
    and "steps nxdn_step (nxdnCtrlNet c packet) ins c'" "\<forall>i\<in>set ins. \<exists>ms. i = Clock ms"
  shows "netState c' = NXDN_NET_AUDIO"
proof -
  define l where "l = memcpy_at (replicate 22 0) 0 (drop 5 packet) 10"
  have l: "NXDN_L3_TYPE l = NXDN_MESSAGE_TYPE_VCALL" "NXDN_L3_SRC l = NXDN_L3_SRC (drop 5 packet)"
    using l3_fields [OF memcpy_fields, of "drop 5 packet"] assms(2,4) by (simp_all add: l_def)
  have ns: "NXDN_LICH_USC_SACCH_NS \<noteq> NXDN_LICH_USC_UDCH" "NXDN_MESSAGE_TYPE_VCALL \<noteq> NXDN_MESSAGE_TYPE_TX_REL"
    by (simp_all add: NXDN_LICH_USC_SACCH_NS_def NXDN_LICH_USC_UDCH_def NXDN_MESSAGE_TYPE_VCALL_def NXDN_MESSAGE_TYPE_TX_REL_def)
  define c1 where "c1 = c\<lparr>netWatchdogRunning := True, netWatchdog := 0\<rparr>"
  have c1: "netLayer3 c1 = netLayer3 c" "netState c1 = netState c" by (simp_all add: c1_def)
  obtain data where "nxdnCtrlNet c packet = netHeader c1 packet data"
    using assms(1,3) ns(1) unfolding nxdnCtrlNet_def c1_def by (auto simp: Let_def)
  moreover have "\<not> netWatchdogRunning (netHeader c1 packet data) \<and> netState (netHeader c1 packet data) = NXDN_NET_AUDIO"
    unfolding netHeader_def Let_def l_def [symmetric]
    using l assms(1,5,6) ns(2) by (simp add: c1 callbacks netSwitch_def Let_def endNet_def)
  ultimately have "\<not> netWatchdogRunning (nxdnCtrlNet c packet) \<and> netState (nxdnCtrlNet c packet) = NXDN_NET_AUDIO" by simp
  then have "\<not> netWatchdogRunning c' \<and> netState c' = NXDN_NET_AUDIO"
  proof (rule steps_invariant [where P = "\<lambda>c. \<not> netWatchdogRunning c \<and> netState c = NXDN_NET_AUDIO", OF assms(7)])
    fix s i s' assume s: "nxdn_step s i s'" "i \<in> set ins" "\<not> netWatchdogRunning s \<and> netState s = NXDN_NET_AUDIO"
    then obtain ms where "i = Clock ms" using assms(8) by blast
    then have "s' = nxdnCtrlClock s ms" using s(1) by (simp add: nxdn_step_simps)
    then show "\<not> netWatchdogRunning s' \<and> netState s' = NXDN_NET_AUDIO" using s(3) by (simp add: nxdnCtrlClock_def)
  qed
  then show ?thesis by blast
qed

end
