(* ===== verification/RingIndex.thy ===== *)
theory RingIndex
  imports Prelude
begin

section \<open>Positions in a ring whose size is a power of two\<close>

text \<open>
  The modem firmware keeps its bytes and samples in rings whose indices are masked after every addition.
  \<open>ring_dist\<close> is the distance from one position to another, \<open>ring_list\<close> the elements between them; the
  masked sums and differences of words compute the positions and distances, taking from the front drops
  the first elements and writing at the head appends one.
\<close>

subsection \<open>Masked words\<close>

lemma ring_index: "N = 2 ^ k \<Longrightarrow> k \<le> LENGTH('a) \<Longrightarrow> unat (a AND mask k :: 'a::len word) = unat a mod N"
  by (simp only: take_bit_eq_mask [symmetric] unsigned_take_bit_eq) (simp add: take_bit_eq_mod)

lemma ring_int: "N = 2 ^ k \<Longrightarrow> k \<le> LENGTH('a) \<Longrightarrow> int (unat (a AND mask k :: 'a::len word)) = uint a mod int N"
  by (simp add: ring_index zmod_int)

lemma ring_less: "N = 2 ^ k \<Longrightarrow> k \<le> LENGTH('a) \<Longrightarrow> unat (a AND mask k :: 'a::len word) < N"
  by (simp add: ring_index)

lemma ring_mod_mod: "N = 2 ^ k \<Longrightarrow> k \<le> n \<Longrightarrow> (i :: int) mod 2 ^ n mod int N = i mod int N"
  by (simp add: mod_mod_cancel le_imp_power_dvd)

lemma ring_add:
  assumes "N = 2 ^ k" "k \<le> LENGTH('a)"
  shows "unat ((a + b) AND mask k :: 'a::len word) = (unat a + unat b) mod N"
proof -
  have "int (unat ((a + b) AND mask k :: 'a word)) = (uint a + uint b) mod 2 ^ LENGTH('a) mod int N"
    unfolding ring_int [OF assms] by (simp add: uint_word_ariths)
  also have "\<dots> = (uint a + uint b) mod int N" by (rule ring_mod_mod [OF assms])
  also have "\<dots> = int ((unat a + unat b) mod N)" by (simp add: zmod_int)
  finally show ?thesis by linarith
qed

subsection \<open>Distances\<close>

definition ring_dist :: "nat \<Rightarrow> nat \<Rightarrow> nat \<Rightarrow> nat" where
  "ring_dist N a b = (if a \<le> b then b - a else b + N - a)"

lemma ring_dist_less: "a < N \<Longrightarrow> b < N \<Longrightarrow> ring_dist N a b < N"
  by (auto simp: ring_dist_def)

lemma ring_dist_0 [simp]: "ring_dist N a a = 0"
  by (simp add: ring_dist_def)

lemma ring_dist_eq_0: "a < N \<Longrightarrow> b < N \<Longrightarrow> ring_dist N a b = 0 \<longleftrightarrow> a = b"
  by (auto simp: ring_dist_def)

lemma ring_dist_int:
  assumes "a < N" "b < N"
  shows "(int b - int a) mod int N = int (ring_dist N a b)"
proof (cases "a \<le> b")
  case True
  then show ?thesis using assms by (simp add: ring_dist_def of_nat_diff)
next
  case False
  have "(int b - int a) mod int N = (int b - int a + int N) mod int N" by (rule mod_add_self2 [symmetric])
  also have "int b - int a + int N = int (ring_dist N a b)" using assms False by (simp add: ring_dist_def of_nat_diff)
  finally show ?thesis using ring_dist_less [OF assms] by simp
qed

lemma ring_diff:
  assumes "N = 2 ^ k" "k \<le> LENGTH('a)" "unat a < N" "unat b < N"
  shows "unat ((b - a) AND mask k :: 'a::len word) = ring_dist N (unat a) (unat b)"
proof -
  have "int (unat ((b - a) AND mask k :: 'a word)) = (uint b - uint a) mod 2 ^ LENGTH('a) mod int N"
    unfolding ring_int [OF assms(1,2)] by (simp add: uint_word_ariths)
  also have "\<dots> = (int (unat b) - int (unat a)) mod int N" using ring_mod_mod [OF assms(1,2)] by simp
  finally show ?thesis unfolding ring_dist_int [OF assms(3,4)] by linarith
qed

lemma ring_free:
  assumes "N = 2 ^ k" "k \<le> LENGTH('a)" "unat a < N" "unat b < N"
  shows "unat ((a - b - 1) AND mask k :: 'a::len word) = N - 1 - ring_dist N (unat a) (unat b)"
proof -
  have d: "ring_dist N (unat a) (unat b) < N" by (rule ring_dist_less [OF assms(3,4)])
  have "int (unat ((a - b - 1) AND mask k :: 'a word)) = (uint a - uint b - 1) mod 2 ^ LENGTH('a) mod int N"
    unfolding ring_int [OF assms(1,2)] by (simp add: uint_word_ariths mod_simps)
  also have "\<dots> = (- 1 - (int (unat b) - int (unat a))) mod int N"
    using ring_mod_mod [OF assms(1,2)] by (simp add: algebra_simps)
  also have "\<dots> = (- 1 - int (ring_dist N (unat a) (unat b))) mod int N"
    by (subst mod_diff_right_eq [symmetric]) (simp only: ring_dist_int [OF assms(3,4)])
  also have "\<dots> = (- 1 - int (ring_dist N (unat a) (unat b)) + int N) mod int N" by (rule mod_add_self2 [symmetric])
  also have "- 1 - int (ring_dist N (unat a) (unat b)) + int N = int (N - 1 - ring_dist N (unat a) (unat b))" using d by linarith
  also have "int (N - 1 - ring_dist N (unat a) (unat b)) mod int N = int (N - 1 - ring_dist N (unat a) (unat b))"
    using d by (intro mod_pos_pos_trivial) simp_all
  finally show ?thesis by (simp only: of_nat_eq_iff)
qed

lemma ring_dist_step:
  assumes "a < N" "b < N"
  shows "n \<le> ring_dist N a b \<Longrightarrow> ring_dist N ((a + n) mod N) b = ring_dist N a b - n"
    and "ring_dist N a b + n < N \<Longrightarrow> ring_dist N a ((b + n) mod N) = ring_dist N a b + n"
proof -
  show "ring_dist N ((a + n) mod N) b = ring_dist N a b - n" if "n \<le> ring_dist N a b"
  proof (cases "a + n < N")
    case True
    then show ?thesis using assms that by (auto simp: ring_dist_def split: if_splits)
  next
    case False
    then have "(a + n) mod N = a + n - N" using assms that ring_dist_less [OF assms] by (simp add: mod_if)
    then show ?thesis using assms that False by (auto simp: ring_dist_def split: if_splits)
  qed
  show "ring_dist N a ((b + n) mod N) = ring_dist N a b + n" if "ring_dist N a b + n < N"
  proof (cases "b + n < N")
    case True
    then show ?thesis using assms that by (auto simp: ring_dist_def split: if_splits)
  next
    case False
    then have "(b + n) mod N = b + n - N" using assms that by (auto simp: mod_if)
    then show ?thesis using assms that False by (auto simp: ring_dist_def split: if_splits)
  qed
qed

subsection \<open>The elements between two positions\<close>

definition ring_list :: "nat \<Rightarrow> 'a list \<Rightarrow> nat \<Rightarrow> nat \<Rightarrow> 'a list" where
  "ring_list N buf a b = map (\<lambda>k. buf ! ((a + k) mod N)) [0..<ring_dist N a b]"

lemma ring_list_length [simp]: "length (ring_list N buf a b) = ring_dist N a b"
  by (simp add: ring_list_def)

lemma ring_list_empty [simp]: "ring_list N buf a a = []"
  by (simp add: ring_list_def)

lemma ring_list_drop:
  assumes "a < N" "b < N" "n \<le> ring_dist N a b"
  shows "ring_list N buf ((a + n) mod N) b = drop n (ring_list N buf a b)"
  by (rule nth_equalityI)
    (use ring_dist_step(1) [OF assms] assms(3) in \<open>auto simp: ring_list_def mod_simps less_diff_conv ac_simps\<close>)

lemma ring_list_hd: "a < N \<Longrightarrow> 0 < ring_dist N a b \<Longrightarrow> ring_list N buf a b \<noteq> [] \<and> hd (ring_list N buf a b) = buf ! a"
  by (simp add: ring_list_def hd_map)

lemma ring_list_put:
  assumes "a < N" "b < N" "length buf = N" "ring_dist N a b < N - 1"
  shows "ring_list N (buf[b := x]) a ((b + 1) mod N) = ring_list N buf a b @ [x]"
proof -
  have d: "ring_dist N a ((b + 1) mod N) = Suc (ring_dist N a b)" using ring_dist_step(2) [OF assms(1,2), of 1] assms(4) by simp
  have last: "(a + ring_dist N a b) mod N = b" using assms(1,2) by (auto simp: ring_dist_def)
  have ne: "(a + k) mod N \<noteq> b" if "k < ring_dist N a b" for k
  proof (cases "a + k < N")
    case True
    then show ?thesis using that assms(1,2) by (auto simp: ring_dist_def split: if_splits)
  next
    case False
    then have "(a + k) mod N = a + k - N" using that ring_dist_less [OF assms(1,2)] assms(1) by (simp add: mod_if)
    then show ?thesis using that assms(1,2) False by (auto simp: ring_dist_def split: if_splits)
  qed
  show ?thesis
    unfolding ring_list_def d by (simp add: last assms(2,3) nth_list_update_neq [OF ne [symmetric]])
qed

lemma ring_list_take:
  assumes "a + n \<le> N" "n \<le> ring_dist N a b" "length buf = N"
  shows "take n (drop a buf) = take n (ring_list N buf a b)"
  by (rule nth_equalityI) (use assms in \<open>auto simp: ring_list_def less_diff_conv\<close>)

end
