(* ===== verification/ModemUart.thy ===== *)
theory ModemUart
  imports RingIndex Machine
begin

section \<open>The UART rings of the modem firmware (modem/OPENMT_SAMPLE_STM32FXXX/hw_f1.c)\<close>

text \<open>
  The main loop reads received bytes from a ring that a circular DMA fills, and queues bytes in a ring
  from which a DMA sends blocks.  The registers of the hardware are part of the record: \<open>cndtr\<close> is what
  the receive channel's CNDTR register holds, \<open>block\<close> the address and length the transmit channel was
  started with, \<open>dma_done\<close> its transfer complete flag, \<open>line_error\<close> an error flag of the status register
  with no byte pending.  What the hardware does is given by \<open>dma_receive\<close> and \<open>dma_transmit\<close>; \<open>line\<close>
  collects the bytes that went out.

  Shown: the receive functions are those of a queue; the bytes that go out are the bytes that were
  accepted, in order, and what waits is the rest; a block that is refused changes nothing.
\<close>

subsection \<open>State and operations\<close>

definition UART_RX_SIZE :: nat where "UART_RX_SIZE = 2048"
definition UART_TX_SIZE :: nat where "UART_TX_SIZE = 2048"

record hw_uart =
  uartRx :: bytes
  cndtr :: u32
  uartRxTail :: u16
  uartTx :: bytes
  uartTxHead :: u16
  uartTxTail :: u16
  uartTxInFlight :: u16
  uartErr :: u32
  block :: "nat \<times> nat"
  dma_done :: bool
  line_error :: bool
  line :: bytes

definition rxHeadIndex :: "hw_uart \<Rightarrow> u16" where
  "rxHeadIndex u = ucast ((of_nat UART_RX_SIZE - cndtr u) AND (of_nat UART_RX_SIZE - 1))"

definition hw_uart_rx_available :: "hw_uart \<Rightarrow> u16" where
  "hw_uart_rx_available u = (rxHeadIndex u - uartRxTail u) AND (of_nat UART_RX_SIZE - 1)"

definition hw_uart_rx_peek :: "hw_uart \<Rightarrow> u16 \<Rightarrow> u8" where
  "hw_uart_rx_peek u offset = uartRx u ! unat ((uartRxTail u + offset) AND (of_nat UART_RX_SIZE - 1))"

definition hw_uart_rx_consume :: "hw_uart \<Rightarrow> u16 \<Rightarrow> hw_uart" where
  "hw_uart_rx_consume u count = u\<lparr>uartRxTail := (uartRxTail u + count) AND (of_nat UART_RX_SIZE - 1)\<rparr>"

definition hw_uart_poll :: "hw_uart \<Rightarrow> hw_uart" where
  "hw_uart_poll u =
     (let u = (if line_error u then u\<lparr>uartErr := uartErr u + 1, line_error := False\<rparr> else u)
      in if uartTxInFlight u \<noteq> 0 \<and> \<not> dma_done u then u
      else let u = (if uartTxInFlight u \<noteq> 0
                    then u\<lparr>dma_done := False,
                      uartTxTail := (uartTxTail u + uartTxInFlight u) AND (of_nat UART_TX_SIZE - 1), uartTxInFlight := 0\<rparr>
                    else u)
           in if uartTxTail u \<noteq> uartTxHead u then
                (let n = (if uartTxHead u > uartTxTail u then uartTxHead u - uartTxTail u
                          else of_nat UART_TX_SIZE - uartTxTail u)
                 in u\<lparr>block := (unat (uartTxTail u), unat n), uartTxInFlight := n\<rparr>)
              else u)"

definition hw_uart_tx :: "hw_uart \<Rightarrow> bytes \<Rightarrow> u16 \<Rightarrow> bool \<times> hw_uart" where
  "hw_uart_tx u data len =
     (let freeBytes = (uartTxTail u - uartTxHead u - 1) AND (of_nat UART_TX_SIZE - 1)
      in if len > freeBytes then (False, u)
         else let u = fold (\<lambda>i u. u\<lparr>uartTx := (uartTx u)[unat (uartTxHead u) := data ! i],
                                   uartTxHead := (uartTxHead u + 1) AND (of_nat UART_TX_SIZE - 1)\<rparr>)
                        [0..<unat len] u
              in (True, hw_uart_poll u))"

definition hw_uart_errors :: "hw_uart \<Rightarrow> u32" where "hw_uart_errors u = uartErr u"

text \<open>The hardware: a byte arrives; the block that was started has gone out.\<close>

definition dma_receive :: "hw_uart \<Rightarrow> u8 \<Rightarrow> hw_uart" where
  "dma_receive u b = u\<lparr>uartRx := (uartRx u)[UART_RX_SIZE - unat (cndtr u) := b],
     cndtr := (if cndtr u = 1 then of_nat UART_RX_SIZE else cndtr u - 1)\<rparr>"

definition dma_transmit :: "hw_uart \<Rightarrow> hw_uart" where
  "dma_transmit u =
     (if uartTxInFlight u \<noteq> 0 \<and> \<not> dma_done u
      then u\<lparr>line := line u @ take (snd (block u)) (drop (fst (block u)) (uartTx u)), dma_done := True\<rparr> else u)"

lemma u16_of_nat [simp]: "n < 65536 \<Longrightarrow> unat (of_nat n :: u16) = n"
  by (simp add: unat_of_nat)

subsection \<open>Positions in rings of 2048 bytes\<close>

lemma ring_sizes: "(of_nat UART_RX_SIZE - 1 :: u16) = mask 11" "(of_nat UART_TX_SIZE - 1 :: u16) = mask 11" "(of_nat UART_RX_SIZE - 1 :: u32) = mask 11"
  by (simp_all add: UART_RX_SIZE_def UART_TX_SIZE_def mask_eq_exp_minus_1)

lemmas uart_ring_add = ring_add [where N = 2048 and k = 11 and 'a = 16, simplified]
lemmas uart_ring_less = ring_less [where N = 2048 and k = 11 and 'a = 16, simplified]
lemmas uart_ring_diff = ring_diff [where N = 2048 and k = 11 and 'a = 16, simplified]
lemmas uart_ring_free = ring_free [where N = 2048 and k = 11 and 'a = 16, simplified]

subsection \<open>The rings are queues\<close>

definition rx_pos :: "hw_uart \<Rightarrow> nat" where "rx_pos u = 2048 - unat (cndtr u)"

definition rx_bytes :: "hw_uart \<Rightarrow> bytes" where
  "rx_bytes u = ring_list 2048 (uartRx u) (unat (uartRxTail u)) (rx_pos u)"

definition tx_bytes :: "hw_uart \<Rightarrow> bytes" where
  "tx_bytes u = ring_list 2048 (uartTx u) (unat (uartTxTail u)) (unat (uartTxHead u))"

text \<open>What has not gone out yet, and everything that was accepted.\<close>

definition tx_waiting :: "hw_uart \<Rightarrow> bytes" where
  "tx_waiting u = (if uartTxInFlight u \<noteq> 0 \<and> dma_done u then drop (unat (uartTxInFlight u)) (tx_bytes u) else tx_bytes u)"

definition uart_ok :: "hw_uart \<Rightarrow> bool" where
  "uart_ok u \<longleftrightarrow> length (uartRx u) = 2048 \<and> length (uartTx u) = 2048 \<and> 1 \<le> cndtr u \<and> cndtr u \<le> 2048 \<and>
     unat (uartRxTail u) < 2048 \<and> unat (uartTxHead u) < 2048 \<and> unat (uartTxTail u) < 2048 \<and>
     unat (uartTxInFlight u) \<le> length (tx_bytes u) \<and> unat (uartTxTail u) + unat (uartTxInFlight u) \<le> 2048 \<and>
     (dma_done u \<longrightarrow> uartTxInFlight u \<noteq> 0) \<and> (uartTxInFlight u \<noteq> 0 \<longrightarrow> block u = (unat (uartTxTail u), unat (uartTxInFlight u)))"

lemma rx_head: "uart_ok u \<Longrightarrow> unat (rxHeadIndex u) = rx_pos u \<and> rx_pos u < 2048"
proof -
  assume u: "uart_ok u"
  have c: "1 \<le> unat (cndtr u)" "unat (cndtr u) \<le> 2048" using u by (simp_all add: uart_ok_def word_le_nat_alt)
  have "unat (2048 - cndtr u) = 2048 - unat (cndtr u)" using c by (simp add: unat_sub word_le_nat_alt)
  then have "unat ((2048 - cndtr u) AND mask 11) = 2048 - unat (cndtr u)"
    using c by (simp only: take_bit_eq_mask [symmetric] unsigned_take_bit_eq) (simp add: take_bit_eq_mod)
  then have "unat (rxHeadIndex u) = 2048 - unat (cndtr u)"
    using c unfolding rxHeadIndex_def ring_sizes by (simp add: UART_RX_SIZE_def unsigned_ucast_eq take_bit_eq_mod)
  then show ?thesis using c by (simp add: rx_pos_def)
qed

lemma rx_available:
  assumes "uart_ok u"
  shows "unat (hw_uart_rx_available u) = length (rx_bytes u)" "length (rx_bytes u) < 2048"
proof -
  have t: "unat (uartRxTail u) < 2048" using assms by (simp add: uart_ok_def)
  have h: "unat (rxHeadIndex u) = rx_pos u" "rx_pos u < 2048" using rx_head [OF assms] by simp_all
  show "unat (hw_uart_rx_available u) = length (rx_bytes u)"
    unfolding hw_uart_rx_available_def ring_sizes rx_bytes_def using uart_ring_diff [of "uartRxTail u" "rxHeadIndex u"] t h by simp
  show "length (rx_bytes u) < 2048" using ring_dist_less [OF t h(2)] by (simp add: rx_bytes_def)
qed

lemma rx_peek: "k < length (rx_bytes u) \<Longrightarrow> unat off = k \<Longrightarrow> hw_uart_rx_peek u off = rx_bytes u ! k"
  unfolding hw_uart_rx_peek_def ring_sizes uart_ring_add rx_bytes_def by (simp add: ring_list_def)

lemma rx_consume:
  assumes "uart_ok u" "unat n \<le> length (rx_bytes u)"
  shows "rx_bytes (hw_uart_rx_consume u n) = drop (unat n) (rx_bytes u)" "uart_ok (hw_uart_rx_consume u n)"
proof -
  have u: "unat (uartRxTail u) < 2048" using assms(1) by (simp add: uart_ok_def)
  show "rx_bytes (hw_uart_rx_consume u n) = drop (unat n) (rx_bytes u)"
    unfolding hw_uart_rx_consume_def rx_bytes_def ring_sizes
    using ring_list_drop [where N = 2048, of "unat (uartRxTail u)" "rx_pos u" "unat n" "uartRx u"] u rx_head [OF assms(1)] assms(2)
    by (simp add: uart_ring_add rx_bytes_def rx_pos_def)
  show "uart_ok (hw_uart_rx_consume u n)"
    using assms(1) by (simp add: uart_ok_def hw_uart_rx_consume_def ring_sizes uart_ring_less tx_bytes_def)
qed

lemma rx_receive:
  assumes "uart_ok u" "length (rx_bytes u) < 2047"
  shows "rx_bytes (dma_receive u b) = rx_bytes u @ [b]" "uart_ok (dma_receive u b)"
proof -
  have c: "1 \<le> unat (cndtr u)" "unat (cndtr u) \<le> 2048" using assms(1) by (simp_all add: uart_ok_def word_le_nat_alt)
  have one: "unat (cndtr u - 1) = unat (cndtr u) - 1" using c by (simp add: unat_sub word_le_nat_alt)
  have "cndtr u = 1 \<longleftrightarrow> unat (cndtr u) = 1" by (simp add: word_unat_eq_iff)
  then have n: "rx_pos (dma_receive u b) = (rx_pos u + 1) mod 2048" and ok: "1 \<le> unat (cndtr (dma_receive u b))" "unat (cndtr (dma_receive u b)) \<le> 2048"
    using c one by (auto simp: dma_receive_def rx_pos_def UART_RX_SIZE_def mod_if)
  show "rx_bytes (dma_receive u b) = rx_bytes u @ [b]"
    unfolding rx_bytes_def n
    using ring_list_put [where N = 2048, of "unat (uartRxTail u)" "rx_pos u" "uartRx u" b] assms rx_head [OF assms(1)]
    by (simp add: uart_ok_def rx_bytes_def dma_receive_def rx_pos_def UART_RX_SIZE_def)
  show "uart_ok (dma_receive u b)"
    using assms(1) ok by (simp add: uart_ok_def dma_receive_def tx_bytes_def word_le_nat_alt)
qed

subsection \<open>Sending\<close>

lemma block_bound:
  assumes "a < 2048" "b < 2048" "a \<noteq> b"
  shows "(if b > a then b - a else 2048 - a) \<le> ring_dist 2048 a b" "a + (if b > a then b - a else 2048 - a) \<le> 2048"
    "0 < (if b > a then b - a else 2048 - a)"
  using assms by (auto simp: ring_dist_def)

lemma rx_bytes_frame:
  "rx_bytes (u\<lparr>uartTxInFlight := x\<rparr>) = rx_bytes u" "rx_bytes (u\<lparr>uartTxTail := x\<rparr>) = rx_bytes u" "rx_bytes (u\<lparr>uartTxHead := x\<rparr>) = rx_bytes u"
  "rx_bytes (u\<lparr>uartTx := d\<rparr>) = rx_bytes u" "rx_bytes (u\<lparr>line := d\<rparr>) = rx_bytes u" "rx_bytes (u\<lparr>block := k\<rparr>) = rx_bytes u"
  "rx_bytes (u\<lparr>dma_done := q\<rparr>) = rx_bytes u" "rx_bytes (u\<lparr>uartErr := e\<rparr>) = rx_bytes u" "rx_bytes (u\<lparr>line_error := q\<rparr>) = rx_bytes u"
  by (simp_all add: rx_bytes_def rx_pos_def)

lemma tx_transmit:
  assumes "uart_ok u"
  shows "line (dma_transmit u) @ tx_waiting (dma_transmit u) = line u @ tx_waiting u" "uart_ok (dma_transmit u)"
    "rx_bytes (dma_transmit u) = rx_bytes u"
proof -
  have "take (unat (uartTxInFlight u)) (drop (unat (uartTxTail u)) (uartTx u)) = take (unat (uartTxInFlight u)) (tx_bytes u)"
    using assms unfolding uart_ok_def tx_bytes_def by (intro ring_list_take) (simp_all add: tx_bytes_def)
  then show "line (dma_transmit u) @ tx_waiting (dma_transmit u) = line u @ tx_waiting u"
    using assms by (simp add: dma_transmit_def tx_waiting_def uart_ok_def tx_bytes_def)
  show "uart_ok (dma_transmit u)" "rx_bytes (dma_transmit u) = rx_bytes u"
    using assms by (simp_all add: dma_transmit_def uart_ok_def tx_bytes_def rx_bytes_frame)
qed

text \<open>A poll counts errors, retires a finished block and starts the next one.\<close>

definition tx_count_error :: "hw_uart \<Rightarrow> hw_uart" where
  "tx_count_error u = (if line_error u then u\<lparr>uartErr := uartErr u + 1, line_error := False\<rparr> else u)"

definition tx_retire :: "hw_uart \<Rightarrow> hw_uart" where
  "tx_retire u = (if uartTxInFlight u \<noteq> 0
     then u\<lparr>dma_done := False, uartTxTail := (uartTxTail u + uartTxInFlight u) AND (of_nat UART_TX_SIZE - 1), uartTxInFlight := 0\<rparr> else u)"

definition tx_launch :: "hw_uart \<Rightarrow> hw_uart" where
  "tx_launch u = (if uartTxTail u \<noteq> uartTxHead u then
     (let n = (if uartTxHead u > uartTxTail u then uartTxHead u - uartTxTail u else of_nat UART_TX_SIZE - uartTxTail u)
      in u\<lparr>block := (unat (uartTxTail u), unat n), uartTxInFlight := n\<rparr>) else u)"

lemma hw_uart_poll_split:
  "hw_uart_poll u = (if uartTxInFlight (tx_count_error u) \<noteq> 0 \<and> \<not> dma_done (tx_count_error u) then tx_count_error u
     else tx_launch (tx_retire (tx_count_error u)))"
  by (simp add: hw_uart_poll_def tx_count_error_def tx_retire_def tx_launch_def Let_def)

lemma tx_count_error_keeps:
  assumes "uart_ok u"
  shows "uart_ok (tx_count_error u)" "tx_waiting (tx_count_error u) = tx_waiting u" "line (tx_count_error u) = line u"
    "rx_bytes (tx_count_error u) = rx_bytes u"
  using assms by (simp_all add: tx_count_error_def uart_ok_def tx_waiting_def tx_bytes_def rx_bytes_frame)

lemma tx_retire_keeps:
  assumes "uart_ok u" "uartTxInFlight u \<noteq> 0 \<Longrightarrow> dma_done u"
  shows "uart_ok (tx_retire u)" "tx_waiting (tx_retire u) = tx_waiting u" "line (tx_retire u) = line u"
    "rx_bytes (tx_retire u) = rx_bytes u" "uartTxInFlight (tx_retire u) = 0"
proof -
  have "tx_bytes (tx_retire u) = drop (unat (uartTxInFlight u)) (tx_bytes u)" if "uartTxInFlight u \<noteq> 0"
    using that assms ring_list_drop [where N = 2048, of "unat (uartTxTail u)" "unat (uartTxHead u)" "unat (uartTxInFlight u)" "uartTx u"]
    unfolding tx_retire_def ring_sizes by (simp add: tx_bytes_def uart_ok_def uart_ring_add)
  then show "tx_waiting (tx_retire u) = tx_waiting u"
    using assms(2) by (simp add: tx_waiting_def) (simp add: tx_retire_def tx_bytes_def)
  show "uart_ok (tx_retire u)" "line (tx_retire u) = line u" "rx_bytes (tx_retire u) = rx_bytes u" "uartTxInFlight (tx_retire u) = 0"
    using assms less_imp_le [OF uart_ring_less] by (auto simp: tx_retire_def uart_ok_def ring_sizes uart_ring_less rx_bytes_frame tx_bytes_def)
qed

lemma tx_launch_keeps:
  assumes "uart_ok u" "uartTxInFlight u = 0"
  shows "uart_ok (tx_launch u)" "tx_waiting (tx_launch u) = tx_waiting u" "line (tx_launch u) = line u" "rx_bytes (tx_launch u) = rx_bytes u"
proof -
  let ?a = "unat (uartTxTail u)" and ?b = "unat (uartTxHead u)"
  let ?n = "if uartTxHead u > uartTxTail u then uartTxHead u - uartTxTail u else of_nat UART_TX_SIZE - uartTxTail u"
  have ab: "?a < 2048" "?b < 2048" using assms by (simp_all add: uart_ok_def)
  have "unat ?n = (if ?b > ?a then ?b - ?a else 2048 - ?a)"
    using ab by (auto simp: word_less_nat_alt unat_sub word_le_nat_alt UART_TX_SIZE_def)
  then have n: "unat ?n \<le> ring_dist 2048 ?a ?b" "?a + unat ?n \<le> 2048" if "uartTxTail u \<noteq> uartTxHead u"
    using block_bound [OF ab] that by (auto simp: word_unat_eq_iff)
  show "uart_ok (tx_launch u)"
    using assms n unfolding tx_launch_def Let_def by (auto simp: uart_ok_def tx_bytes_def)
  show "tx_waiting (tx_launch u) = tx_waiting u" "line (tx_launch u) = line u" "rx_bytes (tx_launch u) = rx_bytes u"
    using assms by (auto simp: tx_launch_def Let_def tx_waiting_def uart_ok_def tx_bytes_def rx_bytes_frame)
qed

lemma uart_poll:
  assumes "uart_ok u"
  shows "uart_ok (hw_uart_poll u)" "tx_waiting (hw_uart_poll u) = tx_waiting u" "line (hw_uart_poll u) = line u"
    "rx_bytes (hw_uart_poll u) = rx_bytes u"
proof -
  let ?v = "tx_count_error u"
  note v = tx_count_error_keeps [OF assms]
  have "uart_ok (hw_uart_poll u) \<and> tx_waiting (hw_uart_poll u) = tx_waiting u \<and> line (hw_uart_poll u) = line u \<and> rx_bytes (hw_uart_poll u) = rx_bytes u"
  proof (cases "uartTxInFlight ?v \<noteq> 0 \<and> \<not> dma_done ?v")
    case True
    then show ?thesis using v by (simp add: hw_uart_poll_split)
  next
    case False
    then have d: "uartTxInFlight ?v \<noteq> 0 \<Longrightarrow> dma_done ?v" by blast
    note r = tx_retire_keeps [OF v(1) d]
    show ?thesis using False v r tx_launch_keeps [OF r(1,5)] by (simp add: hw_uart_poll_split)
  qed
  then show "uart_ok (hw_uart_poll u)" "tx_waiting (hw_uart_poll u) = tx_waiting u" "line (hw_uart_poll u) = line u"
    "rx_bytes (hw_uart_poll u) = rx_bytes u" by simp_all
qed

text \<open>Queueing bytes.\<close>

definition tx_put :: "u8 \<Rightarrow> hw_uart \<Rightarrow> hw_uart" where
  "tx_put b u = u\<lparr>uartTx := (uartTx u)[unat (uartTxHead u) := b], uartTxHead := (uartTxHead u + 1) AND (of_nat UART_TX_SIZE - 1)\<rparr>"

lemma tx_put_keeps:
  assumes "uart_ok u" "length (tx_bytes u) < 2047"
  shows "tx_bytes (tx_put b u) = tx_bytes u @ [b]" "uart_ok (tx_put b u)" "line (tx_put b u) = line u" "rx_bytes (tx_put b u) = rx_bytes u"
    "tx_waiting (tx_put b u) = tx_waiting u @ [b]"
proof -
  have h: "unat ((uartTxHead u + 1) AND mask 11) = (unat (uartTxHead u) + 1) mod 2048" using uart_ring_add [of "uartTxHead u" 1] by simp
  show t: "tx_bytes (tx_put b u) = tx_bytes u @ [b]"
    unfolding tx_put_def ring_sizes tx_bytes_def
    using ring_list_put [where N = 2048, of "unat (uartTxTail u)" "unat (uartTxHead u)" "uartTx u" b] assms h by (simp add: uart_ok_def tx_bytes_def)
  show "tx_waiting (tx_put b u) = tx_waiting u @ [b]"
    using assms(1) unfolding tx_waiting_def t by (simp add: tx_put_def uart_ok_def)
  have l: "length (tx_bytes (tx_put b u)) = length (tx_bytes u) + 1" unfolding t by simp
  show "uart_ok (tx_put b u)"
    using assms l unfolding uart_ok_def by (simp add: tx_put_def ring_sizes uart_ring_less)
  show "line (tx_put b u) = line u" "rx_bytes (tx_put b u) = rx_bytes u" by (simp_all add: tx_put_def rx_bytes_frame)
qed

lemma tx_put_all:
  assumes "uart_ok u" "length (tx_bytes u) + n \<le> 2047"
  shows "let v = fold (\<lambda>i. tx_put (data ! i)) [0..<n] u in
     uart_ok v \<and> tx_bytes v = tx_bytes u @ map ((!) data) [0..<n] \<and> tx_waiting v = tx_waiting u @ map ((!) data) [0..<n] \<and>
     line v = line u \<and> rx_bytes v = rx_bytes u"
  using assms
proof (induction n)
  case (Suc n)
  then have "let v = fold (\<lambda>i. tx_put (data ! i)) [0..<n] u in
     uart_ok v \<and> tx_bytes v = tx_bytes u @ map ((!) data) [0..<n] \<and> tx_waiting v = tx_waiting u @ map ((!) data) [0..<n] \<and>
     line v = line u \<and> rx_bytes v = rx_bytes u" by simp
  then show ?case
    using Suc.prems tx_put_keeps [of "fold (\<lambda>i. tx_put (data ! i)) [0..<n] u" "data ! n"] by (simp add: Let_def)
qed simp

lemma tx_free:
  assumes "uart_ok u"
  shows "unat ((uartTxTail u - uartTxHead u - 1) AND (of_nat UART_TX_SIZE - 1) :: u16) = 2047 - length (tx_bytes u)"
    "length (tx_bytes u) \<le> 2047"
proof -
  have ab: "unat (uartTxTail u) < 2048" "unat (uartTxHead u) < 2048" using assms by (simp_all add: uart_ok_def)
  show "unat ((uartTxTail u - uartTxHead u - 1) AND (of_nat UART_TX_SIZE - 1) :: u16) = 2047 - length (tx_bytes u)"
    unfolding ring_sizes tx_bytes_def ring_list_length using uart_ring_free [OF ab] by simp
  show "length (tx_bytes u) \<le> 2047" using ring_dist_less [OF ab] by (simp add: tx_bytes_def)
qed

lemma hw_uart_tx_put:
  "hw_uart_tx u data len = (if len > (uartTxTail u - uartTxHead u - 1) AND (of_nat UART_TX_SIZE - 1) then (False, u)
     else (True, hw_uart_poll (fold (\<lambda>i. tx_put (data ! i)) [0..<unat len] u)))"
  by (simp add: hw_uart_tx_def Let_def tx_put_def [abs_def])

text \<open>A block is accepted exactly when it fits; then it waits behind the rest, and otherwise nothing changes.\<close>

lemma uart_tx:
  assumes "uart_ok u" "unat len = length data"
  shows "fst (hw_uart_tx u data len) \<longleftrightarrow> length (tx_bytes u) + length data \<le> 2047"
    and "\<not> fst (hw_uart_tx u data len) \<Longrightarrow> snd (hw_uart_tx u data len) = u"
    and "fst (hw_uart_tx u data len) \<Longrightarrow> tx_waiting (snd (hw_uart_tx u data len)) = tx_waiting u @ data"
    and "uart_ok (snd (hw_uart_tx u data len))" "line (snd (hw_uart_tx u data len)) = line u"
      "rx_bytes (snd (hw_uart_tx u data len)) = rx_bytes u"
proof -
  have f: "len > (uartTxTail u - uartTxHead u - 1) AND (of_nat UART_TX_SIZE - 1) \<longleftrightarrow> length data > 2047 - length (tx_bytes u)"
    unfolding word_less_nat_alt tx_free(1) [OF assms(1)] assms(2) by (rule refl)
  show "fst (hw_uart_tx u data len) \<longleftrightarrow> length (tx_bytes u) + length data \<le> 2047"
    using tx_free(2) [OF assms(1)] unfolding hw_uart_tx_put f by auto
  show "\<not> fst (hw_uart_tx u data len) \<Longrightarrow> snd (hw_uart_tx u data len) = u" unfolding hw_uart_tx_put by (simp split: if_splits)
  have m: "map ((!) data) [0..<length data] = data" by (rule map_nth)
  let ?v = "fold (\<lambda>i. tx_put (data ! i)) [0..<length data] u"
  have v: "uart_ok ?v" "tx_waiting ?v = tx_waiting u @ data" "line ?v = line u" "rx_bytes ?v = rx_bytes u" if "\<not> length data > 2047 - length (tx_bytes u)"
    using tx_put_all [OF assms(1), of "length data" data] that tx_free(2) [OF assms(1)] by (simp_all add: Let_def m)
  show "fst (hw_uart_tx u data len) \<Longrightarrow> tx_waiting (snd (hw_uart_tx u data len)) = tx_waiting u @ data"
    unfolding hw_uart_tx_put f assms(2) using v uart_poll(2) by (simp split: if_splits)
  show "uart_ok (snd (hw_uart_tx u data len))" "line (snd (hw_uart_tx u data len)) = line u" "rx_bytes (snd (hw_uart_tx u data len)) = rx_bytes u"
    unfolding hw_uart_tx_put f assms(2) using v assms(1) uart_poll(1,3,4) by (simp_all split: if_splits)
qed

subsection \<open>Runs of the port\<close>

text \<open>
  The static variables at reset, and the steps of the port beside the bytes that have arrived, been taken
  by the main loop and been accepted for sending.  A byte arrives only while the ring is not full: the
  hardware would otherwise overwrite bytes that were not read.
\<close>

definition uart_reset :: hw_uart where
  "uart_reset = \<lparr>uartRx = replicate UART_RX_SIZE 0, cndtr = of_nat UART_RX_SIZE, uartRxTail = 0, uartTx = replicate UART_TX_SIZE 0,
     uartTxHead = 0, uartTxTail = 0, uartTxInFlight = 0, uartErr = 0, block = (0, 0), dma_done = False, line_error = False, line = []\<rparr>"

datatype uart_event = Arrived u8 | Line_fault | Block_sent | Polled | Queued bytes | Taken nat

type_synonym uart_session = "hw_uart \<times> bytes \<times> bytes \<times> bytes"

inductive uart_step :: "uart_session \<Rightarrow> uart_event \<Rightarrow> uart_session \<Rightarrow> bool" where
  "hw_uart_rx_available u < 2047 \<Longrightarrow> uart_step (u, arrived, taken, accepted) (Arrived b) (dma_receive u b, arrived @ [b], taken, accepted)"
| "uart_step (u, arrived, taken, accepted) Line_fault (u\<lparr>line_error := True\<rparr>, arrived, taken, accepted)"
| "uart_step (u, arrived, taken, accepted) Block_sent (dma_transmit u, arrived, taken, accepted)"
| "uart_step (u, arrived, taken, accepted) Polled (hw_uart_poll u, arrived, taken, accepted)"
| "length data < 2 ^ 16 \<Longrightarrow> uart_step (u, arrived, taken, accepted) (Queued data)
     (snd (hw_uart_tx u data (of_nat (length data))), arrived, taken,
      if fst (hw_uart_tx u data (of_nat (length data))) then accepted @ data else accepted)"
| "n \<le> unat (hw_uart_rx_available u) \<Longrightarrow> uart_step (u, arrived, taken, accepted) (Taken n)
     (hw_uart_rx_consume u (of_nat n), arrived, taken @ map (\<lambda>k. hw_uart_rx_peek u (of_nat k)) [0..<n], accepted)"

inductive_cases uart_stepE: "uart_step s i s'"

definition session_queues :: "uart_session \<Rightarrow> bool" where
  "session_queues = (\<lambda>(u, arrived, taken, accepted). uart_ok u \<and> arrived = taken @ rx_bytes u \<and> accepted = line u @ tx_waiting u)"

lemma uart_ok_reset: "uart_ok uart_reset"
  by (simp add: uart_ok_def uart_reset_def UART_RX_SIZE_def UART_TX_SIZE_def tx_bytes_def)

lemma session_start: "session_queues (uart_reset, [], [], [])"
  using uart_ok_reset unfolding session_queues_def
  by (simp add: rx_bytes_def tx_waiting_def tx_bytes_def uart_reset_def rx_pos_def UART_RX_SIZE_def ring_list_def)

text \<open>The interface the frame parser reads from, and what follows from its laws.\<close>

locale byte_source =
  fixes available :: "'u \<Rightarrow> u16"
    and peek :: "'u \<Rightarrow> u16 \<Rightarrow> u8"
    and consume :: "'u \<Rightarrow> u16 \<Rightarrow> 'u"
    and contents :: "'u \<Rightarrow> bytes"
    and valid :: "'u \<Rightarrow> bool"
  assumes available: "valid u \<Longrightarrow> unat (available u) = length (contents u)"
    and peek: "valid u \<Longrightarrow> unat k < length (contents u) \<Longrightarrow> peek u k = contents u ! unat k"
    and consume: "valid u \<Longrightarrow> unat n \<le> length (contents u) \<Longrightarrow> valid (consume u n) \<and> contents (consume u n) = drop (unat n) (contents u)"
begin

lemma contents_short: "valid u \<Longrightarrow> length (contents u) < 65536"
  using available [of u] unsigned_less [of "available u", where 'a = nat] by simp

lemma peeks: "valid u \<Longrightarrow> n \<le> length (contents u) \<Longrightarrow> map (\<lambda>k. peek u (of_nat k)) [0..<n] = take n (contents u)"
  by (rule nth_equalityI) (use contents_short [of u] in \<open>simp_all add: peek\<close>)

lemma read_off:
  "valid u \<Longrightarrow> n \<le> length (contents u) \<Longrightarrow>
   map (\<lambda>k. peek u (of_nat k)) [0..<n] @ contents (consume u (of_nat n)) = contents u \<and> valid (consume u (of_nat n))"
  using consume [of u "of_nat n"] contents_short [of u] by (simp add: peeks)

end

interpretation port: byte_source hw_uart_rx_available hw_uart_rx_peek hw_uart_rx_consume rx_bytes uart_ok
  by unfold_locales (auto simp: rx_available rx_peek rx_consume)

lemmas take_peeks = port.peeks

lemma session_step: "uart_step s i s' \<Longrightarrow> session_queues s \<Longrightarrow> session_queues s'"
proof (induction rule: uart_step.induct)
  case (1 u arrived taken accepted b)
  then have "uart_ok u" "length (rx_bytes u) < 2047" by (simp_all add: session_queues_def word_less_nat_alt rx_available)
  then show ?case using 1 rx_receive [of u b] by (simp add: session_queues_def dma_receive_def tx_waiting_def tx_bytes_def)
next
  case (2 u arrived taken accepted)
  then show ?case by (simp add: session_queues_def uart_ok_def rx_bytes_frame tx_waiting_def tx_bytes_def)
next
  case (5 data u arrived taken accepted)
  then have "uart_ok u" "unat (of_nat (length data) :: u16) = length data" by (simp_all add: session_queues_def)
  then show ?case using 5 uart_tx [of u "of_nat (length data)" data] by (auto simp: session_queues_def)
next
  case (6 n u arrived taken accepted)
  then have u: "uart_ok u" "n \<le> length (rx_bytes u)" by (simp_all add: session_queues_def rx_available)
  then show ?case using 6 port.read_off [OF u]
    by (simp add: session_queues_def) (simp add: hw_uart_rx_consume_def tx_waiting_def tx_bytes_def)
qed (simp_all add: session_queues_def tx_transmit uart_poll)

text \<open>C38: in every run of the port from reset, the bytes that arrived are those the main loop took followed by those
  that wait, and the bytes that went out on the line followed by those that wait are the blocks that were accepted,
  in order; a block is accepted exactly when it fits beside what is queued, and one that is refused changes nothing.\<close>

theorem uart_rings_are_queues:
  assumes "steps uart_step (uart_reset, [], [], []) events (u, arrived, taken, accepted)"
  shows "arrived = taken @ rx_bytes u \<and> unat (hw_uart_rx_available u) = length (rx_bytes u) \<and> accepted = line u @ tx_waiting u \<and>
    (\<forall>data. length data < 2 ^ 16 \<longrightarrow>
      fst (hw_uart_tx u data (of_nat (length data))) = (length (tx_bytes u) + length data < UART_TX_SIZE) \<and>
      (UART_TX_SIZE \<le> length (tx_bytes u) + length data \<longrightarrow> snd (hw_uart_tx u data (of_nat (length data))) = u))"
proof -
  have "session_queues (u, arrived, taken, accepted)"
    using steps_invariant [where P = session_queues, OF assms session_start] session_step by blast
  then have s: "uart_ok u" "arrived = taken @ rx_bytes u" "accepted = line u @ tx_waiting u" by (simp_all add: session_queues_def)
  then show ?thesis using uart_tx(1,2) [OF s(1) u16_of_nat] by (auto simp: rx_available UART_TX_SIZE_def)
qed

lemma uart_port_runs:
  "fst (hw_uart_tx uart_reset [0x61, 3, 0xE0] 3)"
  "steps uart_step (uart_reset, [], [], []) [Queued [0x61, 3, 0xE0], Block_sent, Arrived 0x61]
     (dma_receive (dma_transmit (snd (hw_uart_tx uart_reset [0x61, 3, 0xE0] 3))) 0x61, [0x61], [], [0x61, 3, 0xE0])"
proof -
  let ?u = "snd (hw_uart_tx uart_reset [0x61, 3, 0xE0] 3)"
  have r: "tx_bytes uart_reset = []" "rx_bytes uart_reset = []"
    using session_start by (simp_all add: session_queues_def) (simp add: tx_bytes_def uart_reset_def ring_list_def)
  note q = uart_tx [OF uart_ok_reset, where len = 3 and data = "[0x61, 3, 0xE0]", simplified r, simplified]
  show f: "fst (hw_uart_tx uart_reset [0x61, 3, 0xE0] 3)" using q(1) by simp
  have "uart_ok (dma_transmit ?u)" "rx_bytes (dma_transmit ?u) = []" using tx_transmit [OF q(4)] q(6) by simp_all
  then have "hw_uart_rx_available (dma_transmit ?u) < 2047" using rx_available(1) by (simp add: word_less_nat_alt)
  then show "steps uart_step (uart_reset, [], [], []) [Queued [0x61, 3, 0xE0], Block_sent, Arrived 0x61]
     (dma_receive (dma_transmit ?u) 0x61, [0x61], [], [0x61, 3, 0xE0])"
    using uart_step.intros(5) [where data = "[0x61, 3, 0xE0]" and u = uart_reset and arrived = "[]" and taken = "[]" and accepted = "[]"] f
      uart_step.intros(3) [where u = ?u and arrived = "[]" and taken = "[]" and accepted = "[0x61, 3, 0xE0]"]
      uart_step.intros(1) [where u = "dma_transmit ?u" and arrived = "[]" and taken = "[]" and accepted = "[0x61, 3, 0xE0]" and b = "0x61"]
    by (auto intro!: steps_Cons steps_Nil)
qed

lemma uart_rings_are_queues_witness:
  "rx_bytes (dma_receive (dma_transmit (snd (hw_uart_tx uart_reset [0x61, 3, 0xE0] 3))) 0x61) = [0x61] \<and>
   line (dma_receive (dma_transmit (snd (hw_uart_tx uart_reset [0x61, 3, 0xE0] 3))) 0x61) @
   tx_waiting (dma_receive (dma_transmit (snd (hw_uart_tx uart_reset [0x61, 3, 0xE0] 3))) 0x61) = [0x61, 3, 0xE0]"
  using uart_rings_are_queues [OF uart_port_runs(2)] by simp

end
