(* ===== verification/ModemEngine.thy ===== *)
theory ModemEngine
  imports ModemUart
begin

section \<open>The modem firmware's engine: state and sample interrupt (modem/OPENMT_SAMPLE_STM32FXXX/engine.c)\<close>

text \<open>
  The static variables of engine.c as one record, with the outputs they drive (push to talk, LEDs, the
  UART of ModemUart), for the default build: MCU_F105, no debug frames, no test pattern, no DC filter.
  Signed samples and gains are \<open>int\<close> (that they stay in the range of their C types is proved), counters
  and indices are words, the flags that C keeps in bytes are truth values.  \<open>hw_millis\<close> is an argument
  \<open>now\<close> of the functions that read it; the chip's identity, the build date and the answer of
  \<open>hw_ext_clock_missing\<close> are fields.  \<open>hw_enter_bootloader\<close> does not return: it sets \<open>halted\<close>, after which
  the main loop does nothing.
\<close>

subsection \<open>Configuration and state\<close>

definition TX_BUF_SAMPLES :: nat where "TX_BUF_SAMPLES = 8192"
definition TX_MASK :: u16 where "TX_MASK = of_nat TX_BUF_SAMPLES - 1"
definition SAMPLES_PER_FRAME :: nat where "SAMPLES_PER_FRAME = 96"
definition TX_PRIME_SAMPLES :: nat where "TX_PRIME_SAMPLES = SAMPLES_PER_FRAME * 10"
definition TX_CYCLE_SAMPLES :: nat where "TX_CYCLE_SAMPLES = 1440"
definition TX_TIMING_REFRESH :: nat where "TX_TIMING_REFRESH = 7200"
definition TX_UNDERRUN_TIMEOUT_MS :: u32 where "TX_UNDERRUN_TIMEOUT_MS = 1500"
definition RX_FRAMES :: nat where "RX_FRAMES = 4"
definition RX_FRAME_BYTES :: nat where "RX_FRAME_BYTES = 3 + SAMPLES_PER_FRAME * 2"
definition RX_ACTIVITY_LEVEL :: int where "RX_ACTIVITY_LEVEL = 800"
definition RX_GAIN_Q8 :: int where "RX_GAIN_Q8 = 256"
definition TX_GAIN_Q8 :: int where "TX_GAIN_Q8 = 256"
definition RX_LEVEL_UNITY :: int where "RX_LEVEL_UNITY = 50"
definition TX_LEVEL_UNITY :: u8 where "TX_LEVEL_UNITY = 100"
definition RX_ADC_SHIFT :: nat where "RX_ADC_SHIFT = 4"
definition TX_DAC_SHIFT :: nat where "TX_DAC_SHIFT = 0"
definition ADC_MID :: int where "ADC_MID = 2048"
definition DAC_MID :: int where "DAC_MID = 2048"
definition TX_DC_OFFSET :: int where "TX_DC_OFFSET = 0"
definition RESYNC_QUIET_MS :: u32 where "RESYNC_QUIET_MS = 20"
definition PARSE_HOLD_MS :: u32 where "PARSE_HOLD_MS = 8"
definition NUM_LEDS :: nat where "NUM_LEDS = 8"
definition BOOTLOADER_COMMAND :: bool where "BOOTLOADER_COMMAND = True"

datatype tx_state = TX_IDLE | TX_PRIME | TX_PLAY

record engine_stats =
  rxFramesToHost :: u32
  txFramesFromHost :: u32
  txOverflow :: u32
  txUnderrun :: u32
  rxDropped :: u32
  badBytes :: u32
  lostFrames :: u32
  adcClip :: u32
  keyUps :: u32

record engine =
  txBuf :: "int list"
  txHead :: u16
  txTail :: u16
  txState :: tx_state
  txEot :: bool
  rxBuf :: "int list list"
  rxIdx :: u16
  rxWrCount :: u32
  rxRdCount :: u32
  rxGainQ8 :: int
  rxInvert :: bool
  duplex :: bool
  rxDcQ12 :: int
  isrClip :: bool
  isrActivity :: bool
  isrUnderrun :: bool
  stallCount :: u32
  stallAlign :: bool
  isrRxDropped :: u32
  isrUnderrunCount :: u32
  isrClipCount :: u32
  playIdx :: u32
  tmPending :: bool
  tmReady :: bool
  tmSeq :: u32
  tmK :: u32
  tmR :: u32
  stats :: engine_stats
  configured :: bool
  txInvert :: bool
  lastDataMs :: u32
  lastNakMs :: u32
  lastHostMs :: u32
  ledUntil :: "u32 list"
  lastUartErr :: u32
  lastUnderrunSeen :: u32
  lastClipSeen :: u32
  lastDropSeen :: u32
  resync :: bool
  resyncMs :: u32
  resyncBytes :: u16
  resyncFrame :: bool
  holding :: bool
  holdMs :: u32
  dbgRecovered :: u32
  dbgBadNext :: u8
  uart :: hw_uart
  pttWanted :: bool
  pttInvert :: bool
  pttPin :: bool
  leds :: "bool list"
  halted :: bool
  chip_id :: u32
  build_date :: string
  ext_clock_missing :: bool

subsection \<open>Push to talk (hw_f1.c)\<close>

text \<open>The pin is active high and the host may invert it.\<close>

definition pttApply :: "engine \<Rightarrow> engine" where
  "pttApply e = (let level = pttWanted e; level = (if pttInvert e then \<not> level else level) in e\<lparr>pttPin := level\<rparr>)"

definition hw_ptt :: "bool \<Rightarrow> engine \<Rightarrow> engine" where
  "hw_ptt on e = pttApply (e\<lparr>pttWanted := on\<rparr>)"

definition hw_set_ptt_invert :: "bool \<Rightarrow> engine \<Rightarrow> engine" where
  "hw_set_ptt_invert invert e = pttApply (e\<lparr>pttInvert := invert\<rparr>)"

subsection \<open>The sample interrupt\<close>

definition clamp16 :: "int \<Rightarrow> int" where
  "clamp16 v = (if v > 32767 then 32767 else if v < - 32767 then - 32767 else v)"

definition txCount :: "engine \<Rightarrow> u16" where
  "txCount e = (txHead e - txTail e) AND TX_MASK"

text \<open>The receive half: the level of one sample, and its place in the frame ring.\<close>

definition rx_raw :: "u16 \<Rightarrow> int" where
  "rx_raw adcRaw = (uint adcRaw - ADC_MID) * 2 ^ RX_ADC_SHIFT"

definition rx_level :: "engine \<Rightarrow> u16 \<Rightarrow> int" where
  "rx_level e adcRaw =
     (let s = rx_raw adcRaw;
          s = (if rxInvert e then - s else s);
          s = (s * rxGainQ8 e) div 2 ^ 8;
          s = clamp16 s
      in if \<not> duplex e \<and> txState e \<noteq> TX_IDLE then 0 else s)"

definition rx_clip :: "u16 \<Rightarrow> engine \<Rightarrow> engine" where
  "rx_clip adcRaw e = (if adcRaw \<le> 4 \<or> adcRaw \<ge> 4091 then e\<lparr>isrClip := True, isrClipCount := isrClipCount e + 1\<rparr> else e)"

definition rx_store :: "int \<Rightarrow> engine \<Rightarrow> engine" where
  "rx_store s e =
     (if rxWrCount e - rxRdCount e \<ge> of_nat RX_FRAMES
      then (let e = e\<lparr>rxIdx := rxIdx e + 1\<rparr>
            in if rxIdx e \<ge> of_nat SAMPLES_PER_FRAME then e\<lparr>rxIdx := 0, isrRxDropped := isrRxDropped e + 1\<rparr> else e)
      else (let i = unat (rxWrCount e AND (of_nat RX_FRAMES - 1));
                e = e\<lparr>rxBuf := (rxBuf e)[i := (rxBuf e ! i)[unat (rxIdx e) := s]], rxIdx := rxIdx e + 1\<rparr>
            in if rxIdx e \<ge> of_nat SAMPLES_PER_FRAME then e\<lparr>rxIdx := 0, rxWrCount := rxWrCount e + 1\<rparr> else e))"

definition rx_tick :: "u16 \<Rightarrow> engine \<Rightarrow> engine" where
  "rx_tick adcRaw e =
     (let e = rx_clip adcRaw e;
          s = rx_level e adcRaw;
          e = (if s > RX_ACTIVITY_LEVEL \<or> s < - RX_ACTIVITY_LEVEL then e\<lparr>isrActivity := True\<rparr> else e)
      in rx_store s e)"

text \<open>The transmit half: waiting for enough samples, and taking one sample.\<close>

definition tx_prime :: "engine \<Rightarrow> engine" where
  "tx_prime e =
     (if txState e = TX_PRIME then
        if txEot e \<or> (unat (txCount e) \<ge> TX_PRIME_SAMPLES \<and> (\<not> stallAlign e \<or> stallCount e mod of_nat TX_CYCLE_SAMPLES = 0))
        then e\<lparr>txState := TX_PLAY, stallAlign := False\<rparr>
        else if stallAlign e then e\<lparr>stallCount := stallCount e + 1\<rparr> else e
      else e)"

definition tx_take :: "u32 \<Rightarrow> engine \<Rightarrow> int \<times> engine" where
  "tx_take rxPos e =
     (let s = txBuf e ! unat (txTail e);
          e = e\<lparr>txTail := (txTail e + 1) AND TX_MASK\<rparr>;
          e = (if tmPending e
               then e\<lparr>tmSeq := tmSeq e + 1 + 1, tmK := playIdx e, tmR := rxPos, tmReady := True, tmPending := False\<rparr> else e);
          e = e\<lparr>playIdx := playIdx e + 1\<rparr>;
          e = (if playIdx e mod of_nat TX_TIMING_REFRESH = 0 then e\<lparr>tmPending := True\<rparr> else e)
      in (s, e))"

definition tx_play :: "u32 \<Rightarrow> engine \<Rightarrow> int \<times> engine" where
  "tx_play rxPos e =
     (if txCount e \<noteq> 0 then tx_take rxPos e
      else if txEot e then (0, hw_ptt False (e\<lparr>txState := TX_IDLE\<rparr>))
      else (0, e\<lparr>txState := TX_PRIME, stallAlign := True, stallCount := 1, tmPending := True,
                 isrUnderrun := True, isrUnderrunCount := isrUnderrunCount e + 1\<rparr>))"

definition dac_value :: "int \<Rightarrow> u16" where
  "dac_value s =
     (let dacv = DAC_MID + TX_DC_OFFSET + s div 2 ^ TX_DAC_SHIFT
      in word_of_int (if dacv < 0 then 0 else if dacv > 4095 then 4095 else dacv))"

text \<open>The sample that goes out, 0 when none is playing, and the state afterwards.\<close>

definition tick_sample :: "u16 \<Rightarrow> engine \<Rightarrow> int \<times> engine" where
  "tick_sample adcRaw e =
     (let rxPos = rxWrCount e * of_nat SAMPLES_PER_FRAME + ucast (rxIdx e);
          e = tx_prime (rx_tick adcRaw e)
      in if txState e = TX_PLAY then tx_play rxPos e else (0, e))"

definition engine_sample_tick :: "u16 \<Rightarrow> engine \<Rightarrow> u16 \<times> engine" where
  "engine_sample_tick adcRaw e = (let (s, e) = tick_sample adcRaw e in (dac_value s, e))"

end
