(* ===== verification/ModemLink.thy ===== *)
theory ModemLink
  imports ModemEngine
begin

section \<open>The modem firmware's engine: frames from and to the host (engine.c)\<close>

text \<open>
  The main loop: the handlers of the host's frames, the parser that finds the frames among the received
  bytes and replaces damaged sample frames by silence, the stream of received samples, the timing
  report, the LEDs and the housekeeping, composed in \<open>engine_poll\<close> as the code composes them.  The two
  loops that the number of waiting bytes or frames bounds are functions with that number as measure.
\<close>

subsection \<open>Frame types (engine.h)\<close>

definition OMT_START :: u8 where "OMT_START = 0x61"
definition OMT_SAMP_EOT :: u8 where "OMT_SAMP_EOT = 0x00"
definition OMT_GET_STATUS :: u8 where "OMT_GET_STATUS = 0x10"
definition OMT_SET_CONFIG :: u8 where "OMT_SET_CONFIG = 0x20"
definition OMT_SET_MODE :: u8 where "OMT_SET_MODE = 0x30"
definition OMT_ADD_MODE :: u8 where "OMT_ADD_MODE = 0x40"
definition OMT_DEL_MODE :: u8 where "OMT_DEL_MODE = 0x50"
definition OMT_SAMP_DATA :: u8 where "OMT_SAMP_DATA = 0x70"
definition OMT_TX_TIMING :: u8 where "OMT_TX_TIMING = 0xB0"
definition OMT_DEBUG :: u8 where "OMT_DEBUG = 0xC0"
definition OMT_GET_FW_VERSION :: u8 where "OMT_GET_FW_VERSION = 0xD0"
definition OMT_ACK :: u8 where "OMT_ACK = 0xE0"
definition OMT_NAK :: u8 where "OMT_NAK = 0xF0"
definition OMT_ERR_NO_SPACE :: u8 where "OMT_ERR_NO_SPACE = 6"

subsection \<open>Helpers\<close>

definition ledPulse :: "u32 \<Rightarrow> nat \<Rightarrow> u32 \<Rightarrow> engine \<Rightarrow> engine" where
  "ledPulse now n ms e = e\<lparr>ledUntil := (ledUntil e)[n := now + ms]\<rparr>"

text \<open>\<open>hw_uart_tx\<close> of a frame whose answer the caller does not look at.\<close>

definition uart_send :: "bytes \<Rightarrow> engine \<Rightarrow> engine" where
  "uart_send f e = e\<lparr>uart := snd (hw_uart_tx (uart e) f (of_nat (length f)))\<rparr>"

definition sendSmall :: "u8 \<Rightarrow> engine \<Rightarrow> engine" where
  "sendSmall typ e = uart_send [OMT_START, 3, typ] e"

definition sendAck :: "engine \<Rightarrow> engine" where
  "sendAck e = sendSmall OMT_ACK e"

definition sendNak :: "u8 \<Rightarrow> u8 \<Rightarrow> engine \<Rightarrow> engine" where
  "sendNak typ err e = uart_send [OMT_START, 5, OMT_NAK, typ, err] e"

definition freeSpaceNibble :: "engine \<Rightarrow> u8" where
  "freeSpaceNibble e =
     (let freeSamples = of_nat (TX_BUF_SAMPLES - 1) - ucast (txCount e) :: u32;
          frames = freeSamples div of_nat SAMPLES_PER_FRAME
      in ucast (if frames > 15 then 15 else frames))"

definition keyDown :: "engine \<Rightarrow> engine" where
  "keyDown e = (let e = e\<lparr>txState := TX_IDLE\<rparr>; e = e\<lparr>txTail := txHead e\<rparr> in hw_ptt False e)"

definition requestEot :: "engine \<Rightarrow> engine" where
  "requestEot e = (if txState e \<noteq> TX_IDLE then e\<lparr>txEot := True\<rparr> else e)"

definition version_text :: "engine \<Rightarrow> bytes" where
  "version_text e = map of_char (''OpenMT-SAMP-F105 v1.5.9 '' @ build_date e @ '' id='')"

definition hex_digits :: bytes where
  "hex_digits = map of_char ''0123456789ABCDEF''"

definition sendVersion :: "engine \<Rightarrow> engine" where
  "sendVersion e =
     (let text = version_text e;
          digits = map (\<lambda>i. hex_digits ! unat (drop_bit (28 - 4 * i) (chip_id e) AND 0xF)) [0..<8];
          n = 3 + length text + 8
      in uart_send ([OMT_START, of_nat n, OMT_DEBUG] @ text @ digits) e)"

subsection \<open>Frame handlers\<close>

definition set_levels :: "bytes \<Rightarrow> engine \<Rightarrow> engine" where
  "set_levels f e =
     (let flags = f ! 3;
          rxLevel = f ! 4;
          e = e\<lparr>duplex := flags AND 1 \<noteq> 0, rxInvert := flags AND 2 \<noteq> 0, txInvert := flags AND 4 \<noteq> 0\<rparr>;
          e = hw_set_ptt_invert (flags AND 8 \<noteq> 0) e;
          g = (uint rxLevel * RX_GAIN_Q8) div RX_LEVEL_UNITY;
          g = (if g > 255 * 16 then 255 * 16 else g)
      in e\<lparr>rxGainQ8 := g\<rparr>)"

definition handleSetConfig :: "bytes \<Rightarrow> u8 \<Rightarrow> engine \<Rightarrow> engine" where
  "handleSetConfig f len e =
     (let e = (if len \<ge> 5 then set_levels f e else e);
          first = \<not> configured e;
          e = e\<lparr>configured := True\<rparr>;
          e = sendAck e
      in if first then sendVersion e else e)"

text \<open>The sample \<open>i\<close> of a frame, and the value that is queued for it.\<close>

definition frame_sample :: "bytes \<Rightarrow> nat \<Rightarrow> int" where
  "frame_sample f i = sint (ucast (f ! (4 + 2 * i)) OR push_bit 8 (ucast (f ! (5 + 2 * i))) :: u16)"

definition tx_gain :: "u8 \<Rightarrow> int" where
  "tx_gain txLevel = (uint (if txLevel \<noteq> 0 then txLevel else TX_LEVEL_UNITY) * TX_GAIN_Q8) div uint TX_LEVEL_UNITY"

definition tx_value :: "engine \<Rightarrow> bytes \<Rightarrow> nat \<Rightarrow> int" where
  "tx_value e f i =
     (let v = frame_sample f i;
          v = (if txInvert e then - v else v)
      in clamp16 ((v * tx_gain (f ! 3)) div 2 ^ 8))"

definition tx_store :: "bytes \<Rightarrow> nat \<Rightarrow> engine \<Rightarrow> engine" where
  "tx_store f n e =
     (let (buf, head) = fold (\<lambda>i (buf, head). (buf[unat head := tx_value e f i], (head + 1) AND TX_MASK)) [0..<n] (txBuf e, txHead e)
      in e\<lparr>txBuf := buf, txHead := head\<rparr>)"

definition tx_key_up :: "engine \<Rightarrow> engine" where
  "tx_key_up e =
     (if txState e = TX_IDLE
      then hw_ptt True (e\<lparr>stats := (stats e)\<lparr>keyUps := keyUps (stats e) + 1\<rparr>, playIdx := 0, tmReady := False, stallAlign := False,
             tmPending := True, txState := TX_PRIME\<rparr>)
      else e)"

definition tx_refuse :: "u32 \<Rightarrow> engine \<Rightarrow> engine" where
  "tx_refuse now e =
     (let e = ledPulse now 7 500 (e\<lparr>stats := (stats e)\<lparr>txOverflow := txOverflow (stats e) + 1\<rparr>\<rparr>)
      in if now - lastNakMs e \<ge> 100 then sendNak OMT_SAMP_DATA OMT_ERR_NO_SPACE (e\<lparr>lastNakMs := now\<rparr>) else e)"

definition handleSampData :: "u32 \<Rightarrow> bytes \<Rightarrow> u8 \<Rightarrow> engine \<Rightarrow> engine" where
  "handleSampData now f len e =
     (if len < 4 then e
      else let n = (unat len - 4) div 2;
               e = e\<lparr>stats := (stats e)\<lparr>txFramesFromHost := txFramesFromHost (stats e) + 1\<rparr>\<rparr>
           in if (of_nat n :: u16) > of_nat (TX_BUF_SAMPLES - 1) - txCount e then tx_refuse now e
              else tx_key_up ((tx_store f n e)\<lparr>txEot := False, lastDataMs := now\<rparr>))"

text \<open>The boot loader: push to talk is released and the processor restarts; the 20 ms in which it lets the answer go out are left out.\<close>

definition hw_enter_bootloader :: "engine \<Rightarrow> engine" where
  "hw_enter_bootloader e = (hw_ptt False e)\<lparr>halted := True\<rparr>"

definition boot_request :: "bytes \<Rightarrow> u8 \<Rightarrow> bool" where
  "boot_request f len \<longleftrightarrow> BOOTLOADER_COMMAND \<and> len \<ge> 7 \<and> f ! 3 = of_char CHR ''B'' \<and> f ! 4 = of_char CHR ''O'' \<and>
     f ! 5 = of_char CHR ''O'' \<and> f ! 6 = of_char CHR ''T''"

definition handleFrame :: "u32 \<Rightarrow> bytes \<Rightarrow> u8 \<Rightarrow> engine \<Rightarrow> engine" where
  "handleFrame now f len e =
     (let typ = f ! 2 AND 0xF0;
          nib = f ! 2 AND 0x0F;
          e = ledPulse now 1 30 (e\<lparr>lastHostMs := now\<rparr>)
      in if typ = OMT_SAMP_EOT \<or> typ = 0x90 then requestEot e
         else if typ = OMT_GET_FW_VERSION then
           if nib = 0 then sendVersion e
           else if nib = 1 then
             if boot_request f len then hw_enter_bootloader (sendAck e) else sendNak (typ OR nib) 1 e
           else e
         else if typ = OMT_GET_STATUS then sendSmall (OMT_GET_STATUS OR freeSpaceNibble e) e
         else if typ = OMT_SET_CONFIG then handleSetConfig f len e
         else if typ = OMT_SET_MODE then sendAck (if nib = 0x0F then requestEot e else e)
         else if typ = OMT_ADD_MODE \<or> typ = OMT_DEL_MODE then sendAck e
         else if typ = OMT_SAMP_DATA then handleSampData now f len e
         else e)"

subsection \<open>The parser\<close>

definition knownType :: "u8 \<Rightarrow> bool" where
  "knownType t \<longleftrightarrow> t AND 0xF0 \<in> set [0x00, 0x10, 0x20, 0x30, 0x40, 0x50, 0x60, 0x70, 0x80, 0x90, 0xA0, 0xC0, 0xD0, 0xE0, 0xF0]"

definition SAMP_FRAME_BYTES :: nat where
  "SAMP_FRAME_BYTES = 4 + 2 * SAMPLES_PER_FRAME"

definition silence_frame :: bytes where
  "silence_frame = [OMT_START, of_nat SAMP_FRAME_BYTES, OMT_SAMP_DATA, TX_LEVEL_UNITY] @ replicate (2 * SAMPLES_PER_FRAME) 0"

definition insertSilenceFrame :: "u32 \<Rightarrow> engine \<Rightarrow> engine" where
  "insertSilenceFrame now e =
     (if txState e = TX_IDLE then e
      else handleSampData now silence_frame (of_nat SAMP_FRAME_BYTES)
             (e\<lparr>stats := (stats e)\<lparr>lostFrames := lostFrames (stats e) + 1\<rparr>\<rparr>))"

definition NOTE_SKIP :: "u32 \<Rightarrow> engine \<Rightarrow> engine" where
  "NOTE_SKIP now e = e\<lparr>resyncBytes := (if resyncBytes e < 60000 then resyncBytes e + 1 else resyncBytes e), resync := True, resyncMs := now\<rparr>"

definition endResync :: "u32 \<Rightarrow> engine \<Rightarrow> engine" where
  "endResync now e =
     (let n = (resyncBytes e + 98) div 196;
          n = (if resyncFrame e \<and> n = 0 then 1 else n);
          e = e\<lparr>resyncFrame := False, resyncBytes := 0, resync := False\<rparr>
      in (insertSilenceFrame now ^^ unat n) e)"

primrec nextIsStart_loop :: "nat \<Rightarrow> u16 \<Rightarrow> nat \<Rightarrow> engine \<Rightarrow> bool \<times> engine" where
  "nextIsStart_loop 0 len k e = (False, e\<lparr>dbgBadNext := hw_uart_rx_peek (uart e) len\<rparr>)"
| "nextIsStart_loop (Suc tries) len k e =
     (if hw_uart_rx_peek (uart e) len = OMT_START then (True, if k \<noteq> 0 then e\<lparr>dbgRecovered := dbgRecovered e + 1\<rparr> else e)
      else nextIsStart_loop tries len (k + 1) e)"

definition nextIsStart :: "u16 \<Rightarrow> engine \<Rightarrow> bool \<times> engine" where
  "nextIsStart len e = nextIsStart_loop 4 len 0 e"

definition rx_consume :: "u16 \<Rightarrow> engine \<Rightarrow> engine" where
  "rx_consume n e = e\<lparr>uart := hw_uart_rx_consume (uart e) n\<rparr>"

text \<open>One byte is skipped.\<close>

definition skip_byte :: "u32 \<Rightarrow> engine \<Rightarrow> engine" where
  "skip_byte now e = NOTE_SKIP now ((rx_consume 1 e)\<lparr>stats := (stats e)\<lparr>badBytes := badBytes (stats e) + 1\<rparr>\<rparr>)"

definition skip_damaged :: "u32 \<Rightarrow> engine \<Rightarrow> engine" where
  "skip_damaged now e =
     (let e = rx_consume 1 (e\<lparr>holding := False\<rparr>);
          e = e\<lparr>stats := (stats e)\<lparr>badBytes := badBytes (stats e) + 1\<rparr>\<rparr>;
          e = (if \<not> resync e then e\<lparr>resyncFrame := True\<rparr> else e)
      in NOTE_SKIP now e)"

text \<open>A whole frame is taken and handled.\<close>

definition take_frame :: "u32 \<Rightarrow> u8 \<Rightarrow> engine \<Rightarrow> engine" where
  "take_frame now len e =
     (let e = e\<lparr>holding := False\<rparr>;
          frame = map (\<lambda>i. hw_uart_rx_peek (uart e) (of_nat i)) [0..<unat len]
      in handleFrame now frame len (rx_consume (ucast len) e))"

text \<open>One round of the parser's loop with at least one byte waiting, and whether the loop goes on.\<close>

definition parse_samp :: "u32 \<Rightarrow> u16 \<Rightarrow> u8 \<Rightarrow> engine \<Rightarrow> bool \<times> engine" where
  "parse_samp now avail len e =
     (if avail = ucast len then
        let e = (if \<not> holding e then e\<lparr>holding := True, holdMs := now\<rparr> else e)
        in if now - holdMs e < PARSE_HOLD_MS then (False, e) else (True, take_frame now len e)
      else let (ok, e) = nextIsStart (ucast len) e
           in if \<not> ok then (True, skip_damaged now e)
              else (True, take_frame now len (if resync e then endResync now e else e)))"

definition parse_body :: "u32 \<Rightarrow> u16 \<Rightarrow> u8 \<Rightarrow> u8 \<Rightarrow> engine \<Rightarrow> bool \<times> engine" where
  "parse_body now avail len typ e =
     (let isSamp = (len = of_nat SAMP_FRAME_BYTES \<and> typ AND 0xF0 = OMT_SAMP_DATA)
      in if resync e \<and> len \<noteq> 3 \<and> len \<noteq> of_nat SAMP_FRAME_BYTES then (True, skip_byte now e)
         else if avail < ucast len then (False, e)
         else if isSamp then parse_samp now avail len e
         else (True, take_frame now len e))"

definition parse_round :: "u32 \<Rightarrow> engine \<Rightarrow> bool \<times> engine" where
  "parse_round now e =
     (let avail = hw_uart_rx_available (uart e)
      in if hw_uart_rx_peek (uart e) 0 \<noteq> OMT_START then (True, skip_byte now e)
         else if avail < 3 then (False, e)
         else let len = hw_uart_rx_peek (uart e) 1;
                  typ = hw_uart_rx_peek (uart e) 2
              in if len < 3 \<or> \<not> knownType typ then (True, skip_byte now e)
                 else parse_body now avail len typ
                        (if resync e \<and> now - resyncMs e > RESYNC_QUIET_MS then endResync now e else e))"

subsection \<open>The parser's loop ends\<close>

text \<open>No handler touches the receiving side of the port.\<close>

definition rx_side :: "engine \<Rightarrow> bytes \<times> u32 \<times> u16" where
  "rx_side e = (uartRx (uart e), cndtr (uart e), uartRxTail (uart e))"

lemma hw_uart_tx_rx_side:
  "uartRx (snd (hw_uart_tx u f n)) = uartRx u" "cndtr (snd (hw_uart_tx u f n)) = cndtr u" "uartRxTail (snd (hw_uart_tx u f n)) = uartRxTail u"
proof -
  have put: "uartRx (fold (\<lambda>i. tx_put (f ! i)) is u) = uartRx u \<and> cndtr (fold (\<lambda>i. tx_put (f ! i)) is u) = cndtr u \<and>
      uartRxTail (fold (\<lambda>i. tx_put (f ! i)) is u) = uartRxTail u" for "is"
    by (induction "is" arbitrary: u) (simp_all add: tx_put_def)
  have poll: "uartRx (hw_uart_poll u) = uartRx u" "cndtr (hw_uart_poll u) = cndtr u" "uartRxTail (hw_uart_poll u) = uartRxTail u" for u
    by (simp_all add: hw_uart_poll_def Let_def)
  show "uartRx (snd (hw_uart_tx u f n)) = uartRx u" "cndtr (snd (hw_uart_tx u f n)) = cndtr u" "uartRxTail (snd (hw_uart_tx u f n)) = uartRxTail u"
    using put by (simp_all add: hw_uart_tx_put poll)
qed

lemma uart_send_rx_side [simp]: "rx_side (uart_send f e) = rx_side e"
  by (simp add: rx_side_def uart_send_def hw_uart_tx_rx_side)

lemma rx_side_kept [simp]:
  "rx_side (e\<lparr>lastHostMs := x\<rparr>) = rx_side e" "rx_side (e\<lparr>configured := b\<rparr>) = rx_side e" "rx_side (e\<lparr>stats := st\<rparr>) = rx_side e"
  "rx_side (e\<lparr>lastNakMs := x\<rparr>) = rx_side e" "rx_side (e\<lparr>txEot := b\<rparr>) = rx_side e" "rx_side (e\<lparr>lastDataMs := x\<rparr>) = rx_side e"
  "rx_side (e\<lparr>resyncFrame := b\<rparr>) = rx_side e" "rx_side (e\<lparr>resyncBytes := w\<rparr>) = rx_side e" "rx_side (e\<lparr>resync := b\<rparr>) = rx_side e"
  "rx_side (e\<lparr>holding := b\<rparr>) = rx_side e" "rx_side (e\<lparr>holdMs := x\<rparr>) = rx_side e" "rx_side (e\<lparr>dbgRecovered := x\<rparr>) = rx_side e"
  "rx_side (e\<lparr>dbgBadNext := y\<rparr>) = rx_side e" "rx_side (e\<lparr>rxRdCount := x\<rparr>) = rx_side e"
  "rx_side (ledPulse now n ms e) = rx_side e" "rx_side (hw_ptt on e) = rx_side e" "rx_side (keyDown e) = rx_side e"
  "rx_side (requestEot e) = rx_side e" "rx_side (tx_store f m e) = rx_side e" "rx_side (tx_key_up e) = rx_side e" "rx_side (NOTE_SKIP now e) = rx_side e"
  "rx_side (hw_enter_bootloader e) = rx_side e" "rx_side (set_levels f e) = rx_side e"
  by (simp_all add: rx_side_def ledPulse_def hw_ptt_def hw_set_ptt_invert_def pttApply_def keyDown_def requestEot_def tx_store_def tx_key_up_def
      NOTE_SKIP_def hw_enter_bootloader_def set_levels_def Let_def split_def)

lemma send_rx_side [simp]:
  "rx_side (sendSmall y e) = rx_side e" "rx_side (sendAck e) = rx_side e" "rx_side (sendNak y z e) = rx_side e" "rx_side (sendVersion e) = rx_side e"
  by (simp_all add: sendSmall_def sendAck_def sendNak_def sendVersion_def Let_def)

lemma handle_rx_side [simp]: "rx_side (handleSampData now f len e) = rx_side e" "rx_side (handleSetConfig f len e) = rx_side e"
  by (simp_all add: handleSampData_def tx_refuse_def handleSetConfig_def Let_def)

lemma handleFrame_rx_side [simp]: "rx_side (handleFrame now f len e) = rx_side e"
  by (simp add: handleFrame_def Let_def)

lemma insertSilenceFrame_rx_side [simp]: "rx_side (insertSilenceFrame now e) = rx_side e"
  by (simp add: insertSilenceFrame_def)

lemma endResync_rx_side [simp]: "rx_side (endResync now e) = rx_side e"
proof -
  have "rx_side ((insertSilenceFrame now ^^ n) e) = rx_side e" for n e by (induction n) simp_all
  then show ?thesis by (simp add: endResync_def Let_def)
qed

lemma nextIsStart_rx_side [simp]: "rx_side (snd (nextIsStart n e)) = rx_side e"
proof -
  have "rx_side (snd (nextIsStart_loop j n k e)) = rx_side e" for j k by (induction j arbitrary: k) simp_all
  then show ?thesis by (simp add: nextIsStart_def)
qed

text \<open>The number of waiting bytes, and that a round that goes on consumes some.\<close>

definition rx_avail :: "engine \<Rightarrow> nat" where
  "rx_avail e = unat (hw_uart_rx_available (uart e))"

lemma rx_avail_rx_side: "rx_side e' = rx_side e \<Longrightarrow> rx_avail e' = rx_avail e"
  by (simp add: rx_side_def rx_avail_def hw_uart_rx_available_def rxHeadIndex_def)

lemma masked_advance:
  fixes h p n :: u16
  assumes "unat n \<le> unat ((h - p) AND mask 11)"
  shows "unat ((h - ((p + n) AND mask 11)) AND mask 11) = unat ((h - p) AND mask 11) - unat n"
proof -
  have m: "x mod 65536 mod 2048 = x mod 2048" for x :: int by (rule mod_mod_cancel) simp
  have int: "int (unat (x AND mask 11 :: u16)) = uint x mod 2048" for x :: u16
    using ring_int [where N = 2048 and k = 11 and a = x] by simp
  have sub: "uint (x - y) mod 2048 = (uint x - uint y) mod 2048" "uint (x + y) mod 2048 = (uint x + uint y) mod 2048" for x y :: u16
    by (simp_all add: uint_word_ariths m)
  have masked: "uint (x AND mask 11 :: u16) = uint x mod 2048" for x :: u16 using int [of x] by simp
  have "int (unat ((h - ((p + n) AND mask 11)) AND mask 11)) = (uint h - (uint p + uint n) mod 2048) mod 2048"
    by (simp only: int sub masked)
  also have "\<dots> = ((uint h - uint p) mod 2048 - uint n) mod 2048" by (simp only: mod_diff_right_eq mod_diff_left_eq diff_diff_eq)
  also have "(uint h - uint p) mod 2048 = int (unat ((h - p) AND mask 11))" by (simp only: int sub)
  also have "(int (unat ((h - p) AND mask 11)) - uint n) mod 2048 = int (unat ((h - p) AND mask 11) - unat n)"
  proof -
    have "(int (unat ((h - p) AND mask 11) - unat n)) mod 2048 = int (unat ((h - p) AND mask 11) - unat n)"
      using uart_ring_less [of "h - p"] by simp
    moreover have "int (unat ((h - p) AND mask 11)) - uint n = int (unat ((h - p) AND mask 11) - unat n)"
      using assms by (simp only: of_nat_diff uint_nat)
    ultimately show ?thesis by (simp only:)
  qed
  finally show ?thesis by (simp only: of_nat_eq_iff)
qed

lemma available_consume:
  assumes "unat n \<le> unat (hw_uart_rx_available u)"
  shows "unat (hw_uart_rx_available (hw_uart_rx_consume u n)) = unat (hw_uart_rx_available u) - unat n"
proof -
  have "rxHeadIndex (hw_uart_rx_consume u n) = rxHeadIndex u" by (simp add: rxHeadIndex_def hw_uart_rx_consume_def)
  then show ?thesis
    using masked_advance [of n "rxHeadIndex u" "uartRxTail u"] assms
    by (simp add: hw_uart_rx_available_def ring_sizes) (simp add: hw_uart_rx_consume_def ring_sizes)
qed

lemma rx_avail_consume: "unat n \<le> rx_avail e \<Longrightarrow> rx_avail (rx_consume n e) = rx_avail e - unat n"
  by (simp add: rx_avail_def rx_consume_def available_consume)

lemma skip_rx_avail: "0 < rx_avail e \<Longrightarrow> rx_avail (skip_byte now e) = rx_avail e - 1" "0 < rx_avail e \<Longrightarrow> rx_avail (skip_damaged now e) = rx_avail e - 1"
proof -
  have "rx_avail (skip_byte now e) = rx_avail (rx_consume 1 e)" by (rule rx_avail_rx_side) (simp add: skip_byte_def)
  then show "0 < rx_avail e \<Longrightarrow> rx_avail (skip_byte now e) = rx_avail e - 1" using rx_avail_consume [of 1 e] by simp
  have "rx_avail (skip_damaged now e) = rx_avail (rx_consume 1 (e\<lparr>holding := False\<rparr>))"
    by (rule rx_avail_rx_side) (simp add: skip_damaged_def Let_def)
  moreover have "rx_avail (e\<lparr>holding := False\<rparr>) = rx_avail e" by (rule rx_avail_rx_side) simp
  ultimately show "0 < rx_avail e \<Longrightarrow> rx_avail (skip_damaged now e) = rx_avail e - 1"
    using rx_avail_consume [of 1 "e\<lparr>holding := False\<rparr>"] by simp
qed

lemma take_frame_rx_avail: "unat len \<le> rx_avail e \<Longrightarrow> rx_avail (take_frame now len e) = rx_avail e - unat len"
proof -
  have h: "rx_avail (e\<lparr>holding := False\<rparr>) = rx_avail e" by (rule rx_avail_rx_side) simp
  have "rx_avail (take_frame now len e) = rx_avail (rx_consume (ucast len) (e\<lparr>holding := False\<rparr>))"
    by (rule rx_avail_rx_side) (simp add: take_frame_def Let_def)
  moreover have "unat (ucast len :: u16) = unat len" using unsigned_less [of len, where 'a = nat] by (simp add: unsigned_ucast_eq take_bit_eq_mod)
  ultimately show "unat len \<le> rx_avail e \<Longrightarrow> rx_avail (take_frame now len e) = rx_avail e - unat len"
    using rx_avail_consume [of "ucast len" "e\<lparr>holding := False\<rparr>"] h by simp
qed

lemma u8_u16 [simp]: "unat (ucast (w :: u8) :: u16) = unat w"
  using unsigned_less [of w, where 'a = nat] by (simp add: unsigned_ucast_eq take_bit_eq_mod)

lemma parse_samp_decreases:
  assumes "parse_samp now (hw_uart_rx_available (uart e)) len e = (True, e')" "3 \<le> unat len" "unat len \<le> rx_avail e"
  shows "rx_avail e' < rx_avail e"
proof -
  have keep: "rx_avail (if \<not> holding e then e\<lparr>holding := True, holdMs := now\<rparr> else e) = rx_avail e"
    "rx_avail (snd (nextIsStart (ucast len) e)) = rx_avail e"
    "rx_avail (endResync now x) = rx_avail x" for x
    by (rule rx_avail_rx_side, simp)+
  show ?thesis
    using assms keep take_frame_rx_avail [where len = len and now = now] skip_rx_avail(2) [where now = now]
    by (auto simp: parse_samp_def Let_def split_def split: if_splits)
qed

lemma parse_body_decreases:
  assumes "parse_body now (hw_uart_rx_available (uart e)) len typ e = (True, e')" "3 \<le> unat len" "0 < rx_avail e"
  shows "rx_avail e' < rx_avail e"
  using assms parse_samp_decreases [of now e len e'] skip_rx_avail(1) [of e now] take_frame_rx_avail [of len e now]
  by (auto simp: parse_body_def Let_def rx_avail_def word_less_nat_alt not_less split: if_splits)

lemma parse_round_decreases:
  assumes "parse_round now e = (True, e')" "hw_uart_rx_available (uart e) \<ge> 1"
  shows "rx_avail e' < rx_avail e"
proof -
  let ?e = "if resync e \<and> now - resyncMs e > RESYNC_QUIET_MS then endResync now e else e"
  have pos: "0 < rx_avail e" using assms(2) by (simp add: rx_avail_def word_le_nat_alt)
  have side: "rx_side ?e = rx_side e" by simp
  then have av: "rx_avail ?e = rx_avail e" "hw_uart_rx_available (uart ?e) = hw_uart_rx_available (uart e)"
    by (rule rx_avail_rx_side) (use side in \<open>simp add: rx_side_def hw_uart_rx_available_def rxHeadIndex_def\<close>)
  then have body: "parse_body now (hw_uart_rx_available (uart e)) len typ ?e = (True, e') \<Longrightarrow> 3 \<le> unat len \<Longrightarrow> ?thesis" for len "typ"
    using parse_body_decreases [of now ?e len "typ" e'] pos by simp
  show ?thesis
    using assms(1) skip_rx_avail(1) [OF pos, of now] pos body
    unfolding parse_round_def Let_def by (simp add: word_less_nat_alt not_less split: if_split_asm)
qed

function parseUart :: "u32 \<Rightarrow> engine \<Rightarrow> engine" where
  "parseUart now e =
     (if hw_uart_rx_available (uart e) \<ge> 1 \<and> \<not> halted e
      then let (more, e') = parse_round now e in if more then parseUart now e' else e'
      else e)"
  by pat_completeness auto
termination
  by (relation "measure (\<lambda>(now, e). rx_avail e)") (auto simp: parse_round_decreases)

declare parseUart.simps [simp del]

subsection \<open>Received samples to the host\<close>

definition sample_bytes :: "int \<Rightarrow> bytes" where
  "sample_bytes s = [word_of_int s, word_of_int (s div 2 ^ 8)]"

definition rx_frame :: "engine \<Rightarrow> bytes" where
  "rx_frame e = [OMT_START, of_nat RX_FRAME_BYTES, OMT_SAMP_DATA OR 0] @
     concat (map sample_bytes (rxBuf e ! unat (rxRdCount e AND (of_nat RX_FRAMES - 1))))"

text \<open>One round of the loop with a frame waiting, and whether the loop goes on.\<close>

definition rx_round :: "u32 \<Rightarrow> engine \<Rightarrow> bool \<times> engine" where
  "rx_round now e =
     (if \<not> configured e then (True, e\<lparr>rxRdCount := rxRdCount e + 1\<rparr>)
      else let (sent, u) = hw_uart_tx (uart e) (rx_frame e) (of_nat RX_FRAME_BYTES);
               e = e\<lparr>uart := u\<rparr>
           in if \<not> sent then (False, e)
              else (True, ledPulse now 2 20 (e\<lparr>rxRdCount := rxRdCount e + 1,
                     stats := (stats e)\<lparr>rxFramesToHost := rxFramesToHost (stats e) + 1\<rparr>\<rparr>)))"

definition rx_pending :: "engine \<Rightarrow> nat" where
  "rx_pending e = unat (rxWrCount e - rxRdCount e)"

lemma rx_round_decreases:
  assumes "rx_round now e = (True, e')" "rxWrCount e - rxRdCount e \<noteq> 0"
  shows "rx_pending e' < rx_pending e"
proof -
  have "rxRdCount e' = rxRdCount e + 1" "rxWrCount e' = rxWrCount e"
    using assms(1) by (auto simp: rx_round_def Let_def split_def ledPulse_def split: if_splits)
  then have "rxWrCount e' - rxRdCount e' = (rxWrCount e - rxRdCount e) - 1" by simp
  then show ?thesis using assms(2) by (simp add: rx_pending_def unat_minus_one unat_gt_0)
qed

function sendRxFrames :: "u32 \<Rightarrow> engine \<Rightarrow> engine" where
  "sendRxFrames now e =
     (if rxWrCount e - rxRdCount e \<noteq> 0
      then let (more, e') = rx_round now e in if more then sendRxFrames now e' else e'
      else e)"
  by pat_completeness auto
termination
  by (relation "measure (\<lambda>(now, e). rx_pending e)") (auto simp: rx_round_decreases)

declare sendRxFrames.simps [simp del]

text \<open>The four bytes of a 32 bit value, most significant first.\<close>

definition word_bytes :: "u32 \<Rightarrow> bytes" where
  "word_bytes w = [ucast (drop_bit 24 w), ucast (drop_bit 16 w), ucast (drop_bit 8 w), ucast w]"

definition sendTimingReport :: "engine \<Rightarrow> engine" where
  "sendTimingReport e =
     (if \<not> tmReady e \<or> \<not> configured e then e
      else let s1 = tmSeq e; k = tmK e; r = tmR e; s2 = tmSeq e
           in if s1 AND 1 \<noteq> 0 \<or> s1 \<noteq> s2 then e
              else let off = r - rxRdCount e * of_nat SAMPLES_PER_FRAME;
                       f = [OMT_START, 11, OMT_TX_TIMING] @ word_bytes off @ word_bytes k;
                       (sent, u) = hw_uart_tx (uart e) f 11;
                       e = e\<lparr>uart := u\<rparr>
                   in if sent then e\<lparr>tmReady := False\<rparr> else e)"

subsection \<open>LEDs and housekeeping\<close>

definition PIN_NONE :: u8 where "PIN_NONE = 0xFF"

definition ledPin :: "u8 list" where
  "ledPin = [0x19, 0x18, 0x17, PIN_NONE, 0x16, 0x15, 0x14, 0x1A]"

definition led_on :: "u32 \<Rightarrow> engine \<Rightarrow> bool list" where
  "led_on now e =
     (let on = map (\<lambda>i. sint (ledUntil e ! i - now) > 0) [0..<NUM_LEDS];
          on = on[0 := (if \<not> configured e \<or> now - lastHostMs e > 5000 then (now div 500) AND 1 \<noteq> 0 else now mod 1000 < 80)];
          on = on[3 := (txState e \<noteq> TX_IDLE)];
          on = on[4 := (txState e = TX_PLAY)]
      in on[7 := (on ! 7 \<or> ext_clock_missing e)])"

definition updateLeds :: "u32 \<Rightarrow> engine \<Rightarrow> engine" where
  "updateLeds now e =
     (let on = led_on now e
      in e\<lparr>leds := map (\<lambda>i. if ledPin ! i \<noteq> PIN_NONE then on ! i else leds e ! i) [0..<NUM_LEDS]\<rparr>)"

definition seen_underrun :: "u32 \<Rightarrow> engine \<Rightarrow> engine" where
  "seen_underrun now e = (let v = isrUnderrunCount e in
     if v \<noteq> lastUnderrunSeen e
     then ledPulse now 7 500 (e\<lparr>stats := (stats e)\<lparr>txUnderrun := txUnderrun (stats e) + (v - lastUnderrunSeen e)\<rparr>, lastUnderrunSeen := v\<rparr>) else e)"

definition seen_clip :: "engine \<Rightarrow> engine" where
  "seen_clip e = (let v = isrClipCount e in
     if v \<noteq> lastClipSeen e
     then e\<lparr>stats := (stats e)\<lparr>adcClip := adcClip (stats e) + (v - lastClipSeen e)\<rparr>, lastClipSeen := v\<rparr> else e)"

definition seen_drop :: "u32 \<Rightarrow> engine \<Rightarrow> engine" where
  "seen_drop now e = (let v = isrRxDropped e in
     if v \<noteq> lastDropSeen e
     then ledPulse now 7 500 (e\<lparr>stats := (stats e)\<lparr>rxDropped := rxDropped (stats e) + (v - lastDropSeen e)\<rparr>, lastDropSeen := v\<rparr>) else e)"

definition seen_uart :: "u32 \<Rightarrow> engine \<Rightarrow> engine" where
  "seen_uart now e = (let v = hw_uart_errors (uart e) in if v \<noteq> lastUartErr e then ledPulse now 7 500 (e\<lparr>lastUartErr := v\<rparr>) else e)"

definition housekeeping :: "u32 \<Rightarrow> engine \<Rightarrow> engine" where
  "housekeeping now e =
     (let e = (if isrActivity e then ledPulse now 5 100 (e\<lparr>isrActivity := False\<rparr>) else e);
          e = (if isrClip e then ledPulse now 6 200 (e\<lparr>isrClip := False\<rparr>) else e);
          e = seen_uart now (seen_drop now (seen_clip (seen_underrun now e)));
          e = (if txState e \<noteq> TX_IDLE \<and> now - lastDataMs e > TX_UNDERRUN_TIMEOUT_MS then keyDown e else e)
      in if txState e = TX_IDLE then hw_ptt False e else e)"

subsection \<open>The main loop\<close>

definition zero_stats :: engine_stats where
  "zero_stats = \<lparr>rxFramesToHost = 0, txFramesFromHost = 0, txOverflow = 0, txUnderrun = 0, rxDropped = 0, badBytes = 0,
     lostFrames = 0, adcClip = 0, keyUps = 0\<rparr>"

definition engine_init :: "u32 \<Rightarrow> engine \<Rightarrow> engine" where
  "engine_init now e = hw_ptt False (e\<lparr>stats := zero_stats, resync := False, resyncBytes := 0, resyncFrame := False, holding := False,
     txHead := 0, txTail := 0, txState := TX_IDLE, txEot := False, rxIdx := 0, rxWrCount := 0, rxRdCount := 0, rxDcQ12 := 0,
     rxGainQ8 := RX_GAIN_Q8, rxInvert := False, duplex := False, txInvert := False, configured := False,
     lastHostMs := now, lastDataMs := now, ledUntil := replicate NUM_LEDS 0\<rparr>)"

definition poll_uart :: "engine \<Rightarrow> engine" where
  "poll_uart e = e\<lparr>uart := hw_uart_poll (uart e)\<rparr>"

definition engine_poll :: "u32 \<Rightarrow> engine \<Rightarrow> engine" where
  "engine_poll now e =
     (if halted e then e
      else let e = parseUart now (poll_uart e)
           in if halted e then e
              else poll_uart (updateLeds now (housekeeping now (sendTimingReport (sendRxFrames now e)))))"

definition engine_is_keyed :: "engine \<Rightarrow> bool" where
  "engine_is_keyed e \<longleftrightarrow> txState e \<noteq> TX_IDLE"

definition engine_configured :: "engine \<Rightarrow> bool" where
  "engine_configured e = configured e"

end
