(* ===== verification/ModemInv.thy ===== *)
theory ModemInv
  imports ModemLink
begin

section \<open>The modem firmware's engine: steps and invariants\<close>

text \<open>
  The steps of the firmware: the sample interrupt, the hardware of the port, and the parts of the main
  loop one parser round or frame at a time, so that interrupts may fall between them.  The invariants:
  buffer sizes, indices and sample ranges; the push to talk output agrees with the transmit state; the
  port's rings stay well formed.
\<close>

subsection \<open>The transmit ring as a list\<close>

lemma tx_mask: "TX_MASK = mask 13"
  by (simp add: TX_MASK_def TX_BUF_SAMPLES_def mask_eq_exp_minus_1)

lemmas tx_ring_add = ring_add [where N = 8192 and k = 13 and 'a = 16, simplified]
lemmas tx_ring_less = ring_less [where N = 8192 and k = 13 and 'a = 16, simplified]
lemmas tx_ring_diff = ring_diff [where N = 8192 and k = 13 and 'a = 16, simplified]

definition tx_queue :: "engine \<Rightarrow> int list" where
  "tx_queue e = ring_list 8192 (txBuf e) (unat (txTail e)) (unat (txHead e))"

definition sample_range :: "int \<Rightarrow> bool" where
  "sample_range s \<longleftrightarrow> - 32767 \<le> s \<and> s \<le> 32767"

definition tx_ok :: "engine \<Rightarrow> bool" where
  "tx_ok e \<longleftrightarrow> length (txBuf e) = 8192 \<and> unat (txHead e) < 8192 \<and> unat (txTail e) < 8192 \<and> (\<forall>s\<in>set (txBuf e). sample_range s)"

definition rx_ok :: "engine \<Rightarrow> bool" where
  "rx_ok e \<longleftrightarrow> length (rxBuf e) = 4 \<and> (\<forall>f\<in>set (rxBuf e). length f = 96 \<and> (\<forall>s\<in>set f. sample_range s)) \<and>
     rxIdx e < 96 \<and> rxWrCount e - rxRdCount e \<le> 4 \<and> 0 \<le> rxGainQ8 e \<and> rxGainQ8 e \<le> 4080"

definition ptt_ok :: "engine \<Rightarrow> bool" where
  "ptt_ok e \<longleftrightarrow> (\<not> halted e \<longrightarrow> pttWanted e = (txState e \<noteq> TX_IDLE)) \<and> pttPin e = (pttWanted e \<noteq> pttInvert e) \<and>
     (halted e \<longrightarrow> \<not> pttWanted e)"

definition engine_ok :: "engine \<Rightarrow> bool" where
  "engine_ok e \<longleftrightarrow> tx_ok e \<and> rx_ok e \<and> ptt_ok e \<and> uart_ok (uart e) \<and> length (ledUntil e) = 8 \<and> length (leds e) = 8"

lemma txCount_queue: "tx_ok e \<Longrightarrow> unat (txCount e) = length (tx_queue e)"
  unfolding txCount_def tx_mask tx_queue_def ring_list_length by (rule tx_ring_diff) (simp_all add: tx_ok_def)

lemma tx_queue_short: "tx_ok e \<Longrightarrow> length (tx_queue e) < 8192"
  unfolding tx_queue_def ring_list_length by (rule ring_dist_less) (simp_all add: tx_ok_def)

lemma txCount_0: "tx_ok e \<Longrightarrow> txCount e = 0 \<longleftrightarrow> tx_queue e = []"
  using txCount_queue [of e] by (metis length_0_conv unat_0 unat_eq_zero)

lemma clamp16_range: "sample_range (clamp16 v)"
  by (simp add: sample_range_def clamp16_def)

lemma clamp16_id: "sample_range v \<Longrightarrow> clamp16 v = v"
  by (simp add: sample_range_def clamp16_def)

subsection \<open>Taking and adding samples\<close>

lemma tx_take_queue:
  assumes "tx_ok e" "tx_queue e \<noteq> []"
  shows "fst (tx_take p e) = hd (tx_queue e)" "tx_queue (snd (tx_take p e)) = tl (tx_queue e)" "tx_ok (snd (tx_take p e))"
proof -
  have d: "0 < ring_dist 8192 (unat (txTail e)) (unat (txHead e))" using assms(2) by (simp add: tx_queue_def flip: length_0_conv)
  have p: "unat (txTail e) < 8192" "unat (txHead e) < 8192" using assms(1) by (simp_all add: tx_ok_def)
  have f: "txBuf (snd (tx_take p e)) = txBuf e" "txHead (snd (tx_take p e)) = txHead e" "txTail (snd (tx_take p e)) = (txTail e + 1) AND TX_MASK"
    by (simp_all add: tx_take_def Let_def)
  show "fst (tx_take p e) = hd (tx_queue e)"
    using ring_list_hd [OF p(1) d, of "txBuf e"] by (simp add: tx_take_def Let_def tx_queue_def)
  show "tx_queue (snd (tx_take p e)) = tl (tx_queue e)"
    unfolding tx_queue_def f tx_mask tx_ring_add
    using ring_list_drop [OF p, of 1 "txBuf e"] d by (simp add: drop_Suc)
  show "tx_ok (snd (tx_take p e))" using assms(1) unfolding tx_ok_def f tx_mask by (simp add: tx_ring_less)
qed

lemma tx_fold_store:
  assumes "length buf = 8192" "unat tail < 8192" "unat head < 8192" "ring_dist 8192 (unat tail) (unat head) + n \<le> 8191"
  shows "let (buf', head') = fold (\<lambda>i (buf, head). (buf[unat head := g i], (head + 1) AND TX_MASK)) [0..<n] (buf, head) in
    length buf' = 8192 \<and> unat head' < 8192 \<and> ring_list 8192 buf' (unat tail) (unat head') = ring_list 8192 buf (unat tail) (unat head) @ map g [0..<n] \<and>
    set buf' \<subseteq> set buf \<union> g ` {..<n}"
  using assms(4)
proof (induction n)
  case 0
  then show ?case using assms by simp
next
  case (Suc n)
  let ?r = "fold (\<lambda>i (buf, head). (buf[unat head := g i], (head + 1) AND TX_MASK)) [0..<n] (buf, head)"
  obtain b h where r: "?r = (b, h)" by force
  have b: "length b = 8192" "unat h < 8192" "ring_list 8192 b (unat tail) (unat h) = ring_list 8192 buf (unat tail) (unat head) @ map g [0..<n]"
    "set b \<subseteq> set buf \<union> g ` {..<n}"
    using Suc.IH Suc.prems r by simp_all
  have "ring_dist 8192 (unat tail) (unat h) = length (ring_list 8192 b (unat tail) (unat h))" by simp
  then have "ring_dist 8192 (unat tail) (unat h) = ring_dist 8192 (unat tail) (unat head) + n" unfolding b(3) by simp
  then have "ring_list 8192 (b[unat h := g n]) (unat tail) ((unat h + 1) mod 8192) = ring_list 8192 b (unat tail) (unat h) @ [g n]"
    using Suc.prems by (intro ring_list_put assms(2) b) simp
  moreover have "unat ((h + 1) AND TX_MASK) = (unat h + 1) mod 8192" unfolding tx_mask tx_ring_add by simp
  moreover have "set (b[unat h := g n]) \<subseteq> set buf \<union> g ` {..<Suc n}"
    using b(4) set_update_subset_insert [of b "unat h" "g n"] by fastforce
  ultimately show ?case using r b by simp
qed

text \<open>A frame's samples are stored behind those that wait.\<close>

lemma tx_store_queue:
  assumes "tx_ok e" "length (tx_queue e) + n \<le> 8191"
  shows "tx_queue (tx_store f n e) = tx_queue e @ map (tx_value e f) [0..<n]" "tx_ok (tx_store f n e)"
proof -
  obtain b h where r: "fold (\<lambda>i (buf, head). (buf[unat head := tx_value e f i], (head + 1) AND TX_MASK)) [0..<n] (txBuf e, txHead e) = (b, h)" by force
  then have s: "tx_store f n e = e\<lparr>txBuf := b, txHead := h\<rparr>" by (simp add: tx_store_def)
  have g: "sample_range (tx_value e f i)" for i by (simp add: tx_value_def Let_def clamp16_range)
  have "length b = 8192 \<and> unat h < 8192 \<and> ring_list 8192 b (unat (txTail e)) (unat h) = tx_queue e @ map (tx_value e f) [0..<n] \<and>
      set b \<subseteq> set (txBuf e) \<union> tx_value e f ` {..<n}"
    using tx_fold_store [of "txBuf e" "txTail e" "txHead e" n "tx_value e f"] assms r by (simp add: tx_ok_def tx_queue_def)
  then show "tx_queue (tx_store f n e) = tx_queue e @ map (tx_value e f) [0..<n]" "tx_ok (tx_store f n e)"
    using assms(1) g unfolding s by (auto simp: tx_queue_def tx_ok_def)
qed

subsection \<open>The invariant is kept by the handlers\<close>

lemmas engine_parts = engine_ok_def tx_ok_def rx_ok_def ptt_ok_def
lemmas ptt_defs = hw_ptt_def hw_set_ptt_invert_def pttApply_def

lemma ok_ledPulse [simp]: "engine_ok (ledPulse now n ms e) = engine_ok e"
  by (simp add: engine_parts ledPulse_def)

lemma ok_fields [simp]:
  "engine_ok (e\<lparr>stats := st\<rparr>) = engine_ok e" "engine_ok (e\<lparr>lastHostMs := x\<rparr>) = engine_ok e" "engine_ok (e\<lparr>lastNakMs := x\<rparr>) = engine_ok e"
  "engine_ok (e\<lparr>lastDataMs := x\<rparr>) = engine_ok e" "engine_ok (e\<lparr>txEot := b\<rparr>) = engine_ok e" "engine_ok (e\<lparr>configured := b\<rparr>) = engine_ok e"
  "engine_ok (e\<lparr>resyncFrame := b\<rparr>) = engine_ok e" "engine_ok (e\<lparr>resyncBytes := w\<rparr>) = engine_ok e" "engine_ok (e\<lparr>resync := b\<rparr>) = engine_ok e"
  "engine_ok (e\<lparr>resyncMs := x\<rparr>) = engine_ok e" "engine_ok (e\<lparr>holding := b\<rparr>) = engine_ok e" "engine_ok (e\<lparr>holdMs := x\<rparr>) = engine_ok e"
  "engine_ok (e\<lparr>dbgRecovered := x\<rparr>) = engine_ok e" "engine_ok (e\<lparr>dbgBadNext := y\<rparr>) = engine_ok e" "engine_ok (e\<lparr>tmReady := b\<rparr>) = engine_ok e"
  "engine_ok (e\<lparr>isrActivity := b\<rparr>) = engine_ok e" "engine_ok (e\<lparr>isrClip := b\<rparr>) = engine_ok e" "engine_ok (e\<lparr>lastUartErr := x\<rparr>) = engine_ok e"
  "engine_ok (e\<lparr>lastUnderrunSeen := x\<rparr>) = engine_ok e" "engine_ok (e\<lparr>lastClipSeen := x\<rparr>) = engine_ok e" "engine_ok (e\<lparr>lastDropSeen := x\<rparr>) = engine_ok e"
  "engine_ok (e\<lparr>isrClipCount := x\<rparr>) = engine_ok e" "engine_ok (e\<lparr>ext_clock_missing := b\<rparr>) = engine_ok e"
  by (simp_all add: engine_parts)

lemma ok_uart: "engine_ok e \<Longrightarrow> uart_ok u \<Longrightarrow> engine_ok (e\<lparr>uart := u\<rparr>)"
  by (simp add: engine_parts)

lemma ok_uart_ok: "engine_ok e \<Longrightarrow> uart_ok (uart e)"
  by (simp add: engine_ok_def)

lemma ok_uart_send: "engine_ok e \<Longrightarrow> length f < 65536 \<Longrightarrow> engine_ok (uart_send f e)"
  unfolding uart_send_def by (intro ok_uart uart_tx(4)) (simp_all add: ok_uart_ok)

lemma ok_send:
  assumes "engine_ok e"
  shows "engine_ok (sendSmall y e)" "engine_ok (sendAck e)" "engine_ok (sendNak y z e)"
    "length (build_date e) < 60000 \<Longrightarrow> engine_ok (sendVersion e)"
  using assms unfolding sendSmall_def sendAck_def sendNak_def sendVersion_def version_text_def Let_def
  by (intro ok_uart_send, simp, simp)+

lemma ok_requestEot [simp]: "engine_ok (requestEot e) = engine_ok e"
  by (simp add: requestEot_def)

lemma ok_keyDown: "engine_ok e \<Longrightarrow> engine_ok (keyDown e)"
  by (simp add: keyDown_def Let_def engine_parts ptt_defs)

lemma ok_set_levels: "engine_ok e \<Longrightarrow> engine_ok (set_levels f e)"
  by (simp add: set_levels_def Let_def engine_parts ptt_defs RX_GAIN_Q8_def RX_LEVEL_UNITY_def pos_imp_zdiv_nonneg_iff)

lemma build_date_kept [simp]:
  "build_date (set_levels f e) = build_date e" "build_date (sendAck e) = build_date e" "build_date (ledPulse now n ms e) = build_date e"
  by (simp_all add: set_levels_def Let_def ptt_defs sendAck_def sendSmall_def uart_send_def ledPulse_def)

lemma ok_handleSetConfig:
  assumes "engine_ok e" "length (build_date e) < 60000"
  shows "engine_ok (handleSetConfig f len e)"
  using assms ok_send(2,4) ok_set_levels [OF assms(1)] by (simp add: handleSetConfig_def Let_def)

lemma ok_tx_key_up: "engine_ok e \<Longrightarrow> \<not> halted e \<Longrightarrow> engine_ok (tx_key_up e)"
  by (simp add: tx_key_up_def engine_parts ptt_defs)

lemma ok_tx_store: "engine_ok e \<Longrightarrow> length (tx_queue e) + n \<le> 8191 \<Longrightarrow> engine_ok (tx_store f n e)"
proof -
  assume e: "engine_ok e" "length (tx_queue e) + n \<le> 8191"
  then have "tx_ok (tx_store f n e)" by (simp add: tx_store_queue(2) engine_ok_def)
  moreover obtain b h where "tx_store f n e = e\<lparr>txBuf := b, txHead := h\<rparr>" unfolding tx_store_def Let_def split_def by blast
  ultimately show ?thesis using e by (simp add: engine_ok_def rx_ok_def ptt_ok_def)
qed

lemma ok_tx_refuse: "engine_ok e \<Longrightarrow> engine_ok (tx_refuse now e)"
  by (simp add: tx_refuse_def Let_def ok_send(3))

text \<open>A frame fits exactly when its samples and those that wait leave one place free.\<close>

lemma sample_count: "len \<ge> 4 \<Longrightarrow> (unat (len :: u8) - 4) div 2 \<le> 125"
  using unsigned_less [of len, where 'a = nat] by simp

lemma fits:
  assumes "tx_ok e" "n \<le> 125"
  shows "((of_nat n :: u16) > of_nat (TX_BUF_SAMPLES - 1) - txCount e) = (length (tx_queue e) + n > 8191)"
proof -
  have "unat (of_nat (TX_BUF_SAMPLES - 1) - txCount e) = 8191 - length (tx_queue e)"
    using tx_queue_short [OF assms(1)] txCount_queue [OF assms(1)] by (simp add: TX_BUF_SAMPLES_def unat_sub word_le_nat_alt)
  then show ?thesis using assms(2) tx_queue_short [OF assms(1)] by (auto simp: word_less_nat_alt)
qed

lemma halted_kept [simp]:
  "halted (tx_store f n e) = halted e" "halted (ledPulse now n ms e) = halted e" "halted (requestEot e) = halted e" "halted (sendAck e) = halted e"
  "halted (uart_send f e) = halted e" "halted (rx_consume w e) = halted e" "halted (NOTE_SKIP now e) = halted e" "halted (tx_key_up e) = halted e"
  "halted (hw_ptt b e) = halted e" "halted (tx_refuse now e) = halted e" "halted (keyDown e) = halted e"
  by (simp_all add: tx_store_def ledPulse_def requestEot_def sendAck_def sendSmall_def uart_send_def rx_consume_def NOTE_SKIP_def split_def ptt_defs
      tx_key_up_def Let_def tx_refuse_def sendNak_def keyDown_def)

lemma halted_handleSampData [simp]: "halted (handleSampData now f len e) = halted e"
  by (simp add: handleSampData_def Let_def)

lemma ok_handleSampData:
  assumes "engine_ok e" "\<not> halted e"
  shows "engine_ok (handleSampData now f len e)"
proof (cases "len < 4")
  case True
  then show ?thesis using assms by (simp add: handleSampData_def)
next
  case False
  let ?n = "(unat len - 4) div 2" and ?e = "e\<lparr>stats := (stats e)\<lparr>txFramesFromHost := txFramesFromHost (stats e) + 1\<rparr>\<rparr>"
  have e: "engine_ok ?e" "\<not> halted ?e" using assms by simp_all
  then have n: "((of_nat ?n :: u16) > of_nat (TX_BUF_SAMPLES - 1) - txCount ?e) = (length (tx_queue ?e) + ?n > 8191)"
    using False sample_count [of len] by (intro fits) (simp_all add: engine_ok_def)
  have "engine_ok (tx_key_up ((tx_store f ?n ?e)\<lparr>txEot := False, lastDataMs := now\<rparr>))" if "length (tx_queue ?e) + ?n \<le> 8191"
    using ok_tx_key_up [of "(tx_store f ?n ?e)\<lparr>txEot := False, lastDataMs := now\<rparr>"] ok_tx_store [OF e(1) that] e(2) by simp
  then show ?thesis
    unfolding handleSampData_def Let_def n if_not_P [OF False] using ok_tx_refuse [OF e(1)] by (simp add: not_less)
qed

lemma ok_hw_enter_bootloader: "engine_ok e \<Longrightarrow> engine_ok (hw_enter_bootloader e)"
  by (simp add: hw_enter_bootloader_def engine_parts ptt_defs)

lemma ok_handleFrame:
  assumes "engine_ok e" "\<not> halted e" "length (build_date e) < 60000"
  shows "engine_ok (handleFrame now f len e)"
proof -
  let ?e = "ledPulse now 1 30 (e\<lparr>lastHostMs := now\<rparr>)"
  have e: "engine_ok ?e" "\<not> halted ?e" "length (build_date ?e) < 60000" using assms by simp_all
  show ?thesis
    unfolding handleFrame_def Let_def
    using e(1) ok_send [OF e(1)] ok_send(2) [of "requestEot ?e"] ok_handleSampData [OF e(1,2)] ok_handleSetConfig [OF e(1,3)] e(3)
      ok_hw_enter_bootloader [OF ok_send(2) [OF e(1)]]
    by (simp del: ok_ledPulse)
qed

subsection \<open>The invariant is kept by the parser\<close>

text \<open>\<open>engine_live\<close>: the invariant while the main loop runs.\<close>

definition engine_live :: "engine \<Rightarrow> bool" where
  "engine_live e \<longleftrightarrow> engine_ok e \<and> \<not> halted e \<and> length (build_date e) < 60000"

lemma build_date_more [simp]:
  "build_date (tx_store f n e) = build_date e" "build_date (requestEot e) = build_date e" "build_date (uart_send f e) = build_date e"
  "build_date (rx_consume w e) = build_date e" "build_date (NOTE_SKIP now e) = build_date e" "build_date (tx_key_up e) = build_date e"
  "build_date (hw_ptt b e) = build_date e" "build_date (keyDown e) = build_date e" "build_date (tx_refuse now e) = build_date e"
  by (simp_all add: tx_store_def ledPulse_def requestEot_def uart_send_def rx_consume_def NOTE_SKIP_def split_def ptt_defs
      tx_key_up_def Let_def tx_refuse_def sendNak_def keyDown_def)

lemma build_date_handleSampData [simp]: "build_date (handleSampData now f len e) = build_date e"
  by (simp add: handleSampData_def Let_def)

lemma live_insertSilenceFrame: "engine_live e \<Longrightarrow> engine_live (insertSilenceFrame now e)"
  by (simp add: insertSilenceFrame_def engine_live_def ok_handleSampData)

lemma live_endResync: "engine_live e \<Longrightarrow> engine_live (endResync now e)"
proof -
  have iter: "engine_live x \<Longrightarrow> engine_live ((insertSilenceFrame now ^^ n) x)" for n x by (induction n) (simp_all add: live_insertSilenceFrame)
  assume "engine_live e"
  then have "engine_live (e\<lparr>resyncFrame := False, resyncBytes := 0, resync := False\<rparr>)" by (simp add: engine_live_def)
  then show ?thesis unfolding endResync_def Let_def by (rule iter)
qed

lemma nextIsStart_cases: "\<exists>b x y. nextIsStart n e = (b, e\<lparr>dbgRecovered := x, dbgBadNext := y\<rparr>)"
proof -
  have "\<exists>b x y. nextIsStart_loop j n k e = (b, e\<lparr>dbgRecovered := x, dbgBadNext := y\<rparr>)" for j k
  proof (induction j arbitrary: k)
    case 0
    show ?case by (rule exI [of _ False], rule exI [of _ "dbgRecovered e"]) auto
  next
    case (Suc j)
    show ?case
    proof (cases "hw_uart_rx_peek (uart e) n = OMT_START")
      case True
      show ?thesis
        by (rule exI [of _ True], rule exI [of _ "if k \<noteq> 0 then dbgRecovered e + 1 else dbgRecovered e"], rule exI [of _ "dbgBadNext e"]) (simp add: True)
    next
      case False
      then show ?thesis using Suc.IH [of "k + 1"] by simp
    qed
  qed
  then show ?thesis unfolding nextIsStart_def by blast
qed

lemma live_nextIsStart: "engine_live e \<Longrightarrow> engine_live (snd (nextIsStart n e))"
proof -
  obtain b x y where "nextIsStart n e = (b, e\<lparr>dbgRecovered := x, dbgBadNext := y\<rparr>)" using nextIsStart_cases by blast
  then show "engine_live e \<Longrightarrow> ?thesis" by (simp add: engine_live_def)
qed

lemma live_rx_consume:
  assumes "engine_live e" "unat n \<le> rx_avail e"
  shows "engine_live (rx_consume n e)"
proof -
  have u: "uart_ok (uart e)" using assms(1) by (simp add: engine_live_def engine_ok_def)
  then have "uart_ok (hw_uart_rx_consume (uart e) n)" using assms(2) rx_available(1) [OF u] by (intro rx_consume(2)) (simp_all add: rx_avail_def)
  then show ?thesis using assms(1) ok_uart by (simp add: engine_live_def rx_consume_def)
qed

lemma live_skip: "engine_live e \<Longrightarrow> 0 < rx_avail e \<Longrightarrow> engine_live (skip_byte now e)" "engine_live e \<Longrightarrow> 0 < rx_avail e \<Longrightarrow> engine_live (skip_damaged now e)"
proof -
  have n: "engine_live (NOTE_SKIP now x) = engine_live x" "engine_live (x\<lparr>stats := st\<rparr>) = engine_live x" "engine_live (x\<lparr>resyncFrame := b\<rparr>) = engine_live x"
    "engine_live (x\<lparr>holding := b\<rparr>) = engine_live x" for x st b
    by (simp_all add: engine_live_def NOTE_SKIP_def)
  have h: "rx_avail (e\<lparr>holding := False\<rparr>) = rx_avail e" by (rule rx_avail_rx_side) simp
  show "engine_live e \<Longrightarrow> 0 < rx_avail e \<Longrightarrow> engine_live (skip_byte now e)" by (simp add: skip_byte_def n live_rx_consume)
  show "engine_live e \<Longrightarrow> 0 < rx_avail e \<Longrightarrow> engine_live (skip_damaged now e)" by (simp add: skip_damaged_def Let_def n live_rx_consume h)
qed

text \<open>Handling a frame leaves the invariant; a boot request ends the main loop.\<close>

lemma ok_take_frame:
  assumes "engine_live e" "unat len \<le> rx_avail e"
  shows "engine_ok (take_frame now len e)"
proof -
  let ?e = "e\<lparr>holding := False\<rparr>"
  have "rx_avail ?e = rx_avail e" by (rule rx_avail_rx_side) simp
  then have "engine_live (rx_consume (ucast len) ?e)" using assms by (intro live_rx_consume) (simp_all add: engine_live_def)
  then show ?thesis by (simp add: take_frame_def Let_def ok_handleFrame engine_live_def)
qed

lemma build_date_handleFrame [simp]: "build_date (handleFrame now f len e) = build_date e"
  by (simp add: handleFrame_def handleSetConfig_def Let_def sendVersion_def sendNak_def sendSmall_def hw_enter_bootloader_def)

lemma build_date_take_frame [simp]: "build_date (take_frame now len e) = build_date e"
  by (simp add: take_frame_def Let_def)

lemma ok_parse_samp:
  assumes "engine_live e" "3 \<le> unat len" "unat len \<le> rx_avail e"
  shows "engine_ok (snd (parse_samp now (hw_uart_rx_available (uart e)) len e))"
    "build_date (snd (parse_samp now (hw_uart_rx_available (uart e)) len e)) = build_date e"
proof -
  let ?h = "if \<not> holding e then e\<lparr>holding := True, holdMs := now\<rparr> else e" and ?n = "snd (nextIsStart (ucast len) e)"
  have keep: "rx_avail ?h = rx_avail e" "rx_avail ?n = rx_avail e" "rx_avail (endResync now x) = rx_avail x" for x by (rule rx_avail_rx_side, simp)+
  have h: "engine_live ?h" using assms(1) by (simp add: engine_live_def)
  have n: "engine_live ?n" using live_nextIsStart [OF assms(1)] by simp
  have r: "engine_ok (take_frame now len (if resync ?n then endResync now ?n else ?n))"
    using live_endResync [OF n] n keep assms(3) by (intro ok_take_frame) simp_all
  have "engine_ok (skip_damaged now ?n)" using live_skip(2) [OF n] keep assms(2,3) by (simp add: engine_live_def)
  then show "engine_ok (snd (parse_samp now (hw_uart_rx_available (uart e)) len e))"
    using r ok_take_frame [OF h] keep assms(3) h unfolding parse_samp_def Let_def split_def by (auto simp: engine_live_def)
  have ni: "build_date ?n = build_date e" using nextIsStart_cases [of "ucast len" e] by auto
  have "build_date ((insertSilenceFrame now ^^ k) x) = build_date x" for k x by (induction k) (simp_all add: insertSilenceFrame_def)
  then have er: "build_date (endResync now x) = build_date x" for x by (simp add: endResync_def Let_def)
  show "build_date (snd (parse_samp now (hw_uart_rx_available (uart e)) len e)) = build_date e"
    using ni er by (simp add: parse_samp_def Let_def split_def skip_damaged_def)
qed

lemma ok_parse_body:
  assumes "engine_live e" "3 \<le> unat len" "0 < rx_avail e"
  shows "engine_ok (snd (parse_body now (hw_uart_rx_available (uart e)) len typ e))"
    "build_date (snd (parse_body now (hw_uart_rx_available (uart e)) len typ e)) = build_date e"
proof -
  have s: "build_date (skip_byte now x) = build_date x" for x by (simp add: skip_byte_def)
  have le: "\<not> hw_uart_rx_available (uart e) < ucast len \<Longrightarrow> unat len \<le> rx_avail e" by (simp add: word_less_nat_alt rx_avail_def)
  have live: "engine_live x \<Longrightarrow> engine_ok x" for x by (simp add: engine_live_def)
  show "engine_ok (snd (parse_body now (hw_uart_rx_available (uart e)) len typ e))"
    using live [OF assms(1)] live [OF live_skip(1) [OF assms(1,3)]] ok_take_frame [OF assms(1) le] ok_parse_samp(1) [OF assms(1,2) le]
    by (auto simp: parse_body_def Let_def)
  show "build_date (snd (parse_body now (hw_uart_rx_available (uart e)) len typ e)) = build_date e"
    using s ok_parse_samp(2) [OF assms(1,2) le] by (auto simp: parse_body_def Let_def)
qed

lemma build_date_endResync [simp]: "build_date (endResync now e) = build_date e"
proof -
  have "build_date ((insertSilenceFrame now ^^ k) x) = build_date x" for k x by (induction k) (simp_all add: insertSilenceFrame_def)
  then show ?thesis by (simp add: endResync_def Let_def)
qed

lemma ok_parse_round:
  assumes "engine_live e" "hw_uart_rx_available (uart e) \<ge> 1"
  shows "engine_ok (snd (parse_round now e))" "build_date (snd (parse_round now e)) = build_date e"
proof -
  let ?e = "if resync e \<and> now - resyncMs e > RESYNC_QUIET_MS then endResync now e else e"
  have pos: "0 < rx_avail e" using assms(2) by (simp add: rx_avail_def word_le_nat_alt)
  have side: "rx_side ?e = rx_side e" by simp
  then have av: "rx_avail ?e = rx_avail e" "hw_uart_rx_available (uart ?e) = hw_uart_rx_available (uart e)"
    by (rule rx_avail_rx_side) (use side in \<open>simp add: rx_side_def hw_uart_rx_available_def rxHeadIndex_def\<close>)
  have d: "build_date ?e = build_date e" by simp
  have l: "engine_live ?e" using live_endResync assms(1) by simp
  have body: "engine_ok (snd (parse_body now (hw_uart_rx_available (uart e)) len y ?e))"
    "build_date (snd (parse_body now (hw_uart_rx_available (uart e)) len y ?e)) = build_date e" if "3 \<le> unat len" for len y
    using ok_parse_body [OF l that, of now y] pos unfolding av d by simp_all
  have s: "build_date (skip_byte now x) = build_date x" for x by (simp add: skip_byte_def)
  have sk: "engine_ok (skip_byte now e)" using live_skip(1) [OF assms(1) pos] by (simp add: engine_live_def)
  have e: "engine_ok e" using assms(1) by (simp add: engine_live_def)
  show "engine_ok (snd (parse_round now e))"
    unfolding parse_round_def Let_def using e sk body by (simp add: word_less_nat_alt not_less del: build_date_endResync)
  show "build_date (snd (parse_round now e)) = build_date e"
    unfolding parse_round_def Let_def using s body by (simp add: word_less_nat_alt not_less del: build_date_endResync)
qed

subsection \<open>The invariant is kept by the rest of the main loop\<close>

lemma rx_frame_length: "rx_ok e \<Longrightarrow> length (rx_frame e) = 195"
proof -
  assume e: "rx_ok e"
  have "unat (rxRdCount e AND (of_nat RX_FRAMES - 1)) < 4"
    using ring_less [where N = 4 and k = 2 and a = "rxRdCount e"] by (simp add: RX_FRAMES_def mask_eq_exp_minus_1)
  then have "length (rxBuf e ! unat (rxRdCount e AND (of_nat RX_FRAMES - 1))) = 96"
    using e nth_mem [of "unat (rxRdCount e AND (of_nat RX_FRAMES - 1))" "rxBuf e"] by (auto simp: rx_ok_def)
  moreover have "length (concat (map sample_bytes ss)) = 2 * length ss" for ss by (induction ss) (simp_all add: sample_bytes_def)
  ultimately show ?thesis by (simp add: rx_frame_def)
qed

lemma ok_rx_round:
  assumes "engine_ok e" "rxWrCount e - rxRdCount e \<noteq> 0"
  shows "engine_ok (snd (rx_round now e))"
proof -
  have len: "unat (of_nat RX_FRAME_BYTES :: u16) = length (rx_frame e)"
    using rx_frame_length [of e] assms(1) by (simp add: engine_ok_def RX_FRAME_BYTES_def SAMPLES_PER_FRAME_def)
  have u: "uart_ok (snd (hw_uart_tx (uart e) (rx_frame e) (of_nat RX_FRAME_BYTES)))"
    using uart_tx(4) [OF ok_uart_ok [OF assms(1)] len] .
  have "unat (rxWrCount e - (rxRdCount e + 1)) = unat (rxWrCount e - rxRdCount e) - 1"
    using assms(2) by (metis diff_diff_eq unat_minus_one)
  moreover have "unat (rxWrCount e - rxRdCount e) \<le> 4" using assms(1) by (simp add: engine_ok_def rx_ok_def word_le_nat_alt)
  ultimately have c: "rxWrCount e - (rxRdCount e + 1) \<le> 4" by (simp add: word_le_nat_alt)
  show ?thesis
    using assms(1) u c by (simp add: rx_round_def Let_def split_def engine_parts ledPulse_def)
qed

lemma ok_sendTimingReport: "engine_ok e \<Longrightarrow> engine_ok (sendTimingReport e)"
proof -
  assume e: "engine_ok e"
  have "engine_ok (e\<lparr>uart := snd (hw_uart_tx (uart e) ([OMT_START, 11, OMT_TX_TIMING] @ word_bytes x @ word_bytes y) 11)\<rparr>)" for x y
    by (intro ok_uart e uart_tx(4) ok_uart_ok) (simp add: word_bytes_def)
  then show ?thesis using e by (simp add: sendTimingReport_def Let_def split_def)
qed

lemma ok_updateLeds: "engine_ok e \<Longrightarrow> engine_ok (updateLeds now e)"
  by (simp add: updateLeds_def Let_def engine_parts NUM_LEDS_def)

lemma ok_hw_ptt_idle: "engine_ok e \<Longrightarrow> txState e = TX_IDLE \<Longrightarrow> engine_ok (hw_ptt False e)"
  by (simp add: engine_parts ptt_defs)

lemma ok_seen [simp]:
  "engine_ok (seen_underrun now e) = engine_ok e" "engine_ok (seen_clip e) = engine_ok e" "engine_ok (seen_drop now e) = engine_ok e" "engine_ok (seen_uart now e) = engine_ok e"
  by (simp_all add: seen_underrun_def seen_clip_def seen_drop_def seen_uart_def Let_def)

text \<open>What the first part of the housekeeping leaves alone.\<close>

definition count_flags :: "u32 \<Rightarrow> engine \<Rightarrow> engine" where
  "count_flags now e =
     (let e = (if isrActivity e then ledPulse now 5 100 (e\<lparr>isrActivity := False\<rparr>) else e);
          e = (if isrClip e then ledPulse now 6 200 (e\<lparr>isrClip := False\<rparr>) else e)
      in seen_uart now (seen_drop now (seen_clip (seen_underrun now e))))"

lemma housekeeping_split:
  "housekeeping now e =
     (let e = count_flags now e;
          e = (if txState e \<noteq> TX_IDLE \<and> now - lastDataMs e > TX_UNDERRUN_TIMEOUT_MS then keyDown e else e)
      in if txState e = TX_IDLE then hw_ptt False e else e)"
  by (simp add: housekeeping_def count_flags_def Let_def)

lemma ledPulse_keeps [simp]:
  "txInvert (ledPulse now n ms e) = txInvert e" "txState (ledPulse now n ms e) = txState e" "lastDataMs (ledPulse now n ms e) = lastDataMs e" "txBuf (ledPulse now n ms e) = txBuf e" "txHead (ledPulse now n ms e) = txHead e" "txTail (ledPulse now n ms e) = txTail e" "txEot (ledPulse now n ms e) = txEot e" "stallAlign (ledPulse now n ms e) = stallAlign e" "stallCount (ledPulse now n ms e) = stallCount e" 
  by (simp_all add: ledPulse_def)

lemma seen_underrun_keeps [simp]:
  "txInvert (seen_underrun now e) = txInvert e" "txState (seen_underrun now e) = txState e" "lastDataMs (seen_underrun now e) = lastDataMs e" "txBuf (seen_underrun now e) = txBuf e" "txHead (seen_underrun now e) = txHead e" "txTail (seen_underrun now e) = txTail e" "txEot (seen_underrun now e) = txEot e" "stallAlign (seen_underrun now e) = stallAlign e" "stallCount (seen_underrun now e) = stallCount e" "halted (seen_underrun now e) = halted e" "build_date (seen_underrun now e) = build_date e"
  by (simp_all add: seen_underrun_def Let_def)

lemma seen_clip_keeps [simp]:
  "txInvert (seen_clip e) = txInvert e" "txState (seen_clip e) = txState e" "lastDataMs (seen_clip e) = lastDataMs e" "txBuf (seen_clip e) = txBuf e" "txHead (seen_clip e) = txHead e" "txTail (seen_clip e) = txTail e" "txEot (seen_clip e) = txEot e" "stallAlign (seen_clip e) = stallAlign e" "stallCount (seen_clip e) = stallCount e" "halted (seen_clip e) = halted e" "build_date (seen_clip e) = build_date e"
  by (simp_all add: seen_clip_def Let_def)

lemma seen_drop_keeps [simp]:
  "txInvert (seen_drop now e) = txInvert e" "txState (seen_drop now e) = txState e" "lastDataMs (seen_drop now e) = lastDataMs e" "txBuf (seen_drop now e) = txBuf e" "txHead (seen_drop now e) = txHead e" "txTail (seen_drop now e) = txTail e" "txEot (seen_drop now e) = txEot e" "stallAlign (seen_drop now e) = stallAlign e" "stallCount (seen_drop now e) = stallCount e" "halted (seen_drop now e) = halted e" "build_date (seen_drop now e) = build_date e"
  by (simp_all add: seen_drop_def Let_def)

lemma seen_uart_keeps [simp]:
  "txInvert (seen_uart now e) = txInvert e" "txState (seen_uart now e) = txState e" "lastDataMs (seen_uart now e) = lastDataMs e" "txBuf (seen_uart now e) = txBuf e" "txHead (seen_uart now e) = txHead e" "txTail (seen_uart now e) = txTail e" "txEot (seen_uart now e) = txEot e" "stallAlign (seen_uart now e) = stallAlign e" "stallCount (seen_uart now e) = stallCount e" "halted (seen_uart now e) = halted e" "build_date (seen_uart now e) = build_date e"
  by (simp_all add: seen_uart_def Let_def)

lemma count_flags_keeps [simp]:
  "txInvert (count_flags now e) = txInvert e" "txState (count_flags now e) = txState e" "lastDataMs (count_flags now e) = lastDataMs e" "txBuf (count_flags now e) = txBuf e" "txHead (count_flags now e) = txHead e" "txTail (count_flags now e) = txTail e" "txEot (count_flags now e) = txEot e" "stallAlign (count_flags now e) = stallAlign e" "stallCount (count_flags now e) = stallCount e" "halted (count_flags now e) = halted e" "build_date (count_flags now e) = build_date e"
  by (simp_all add: count_flags_def Let_def)

lemma ok_count_flags [simp]: "engine_ok (count_flags now e) = engine_ok e"
  by (simp add: count_flags_def Let_def)

lemma ok_housekeeping: "engine_ok e \<Longrightarrow> engine_ok (housekeeping now e)"
proof -
  assume e: "engine_ok e"
  let ?c = "count_flags now e"
  have c: "engine_ok ?c" using e by simp
  have k: "engine_ok (hw_ptt False (keyDown ?c))" using ok_keyDown [OF c] by (intro ok_hw_ptt_idle) (simp_all add: keyDown_def Let_def ptt_defs)
  have "txState (keyDown ?c) = TX_IDLE" by (simp add: keyDown_def Let_def ptt_defs)
  then show ?thesis using c k ok_hw_ptt_idle [OF c] by (simp add: housekeeping_split Let_def)
qed

lemma ok_poll_uart: "engine_ok e \<Longrightarrow> engine_ok (poll_uart e)"
  unfolding poll_uart_def by (intro ok_uart uart_poll(1) ok_uart_ok)

lemma ok_engine_init: "engine_ok e \<Longrightarrow> \<not> halted e \<Longrightarrow> engine_ok (engine_init now e)"
  by (simp add: engine_init_def engine_parts ptt_defs RX_GAIN_Q8_def NUM_LEDS_def)

subsection \<open>The invariant is kept by the sample interrupt\<close>

lemma word_suc: "w < 96 \<Longrightarrow> unat (w + 1 :: u16) = unat w + 1"
  by (simp add: word_less_nat_alt unat_word_ariths)

lemma rx_level_range: "sample_range (rx_level e adc)"
  by (auto simp: rx_level_def Let_def clamp16_range) (simp add: sample_range_def)

lemma ok_rx_clip [simp]: "engine_ok (rx_clip adc e) = engine_ok e"
  by (simp add: rx_clip_def)

lemma ok_rx_store:
  assumes "engine_ok e" "sample_range s"
  shows "engine_ok (rx_store s e)"
proof (cases "rxWrCount e - rxRdCount e \<ge> of_nat RX_FRAMES")
  case True
  have "rxIdx e < 96" using assms(1) by (simp add: engine_parts)
  then show ?thesis using True assms(1) unfolding rx_store_def
    by (simp add: Let_def engine_parts SAMPLES_PER_FRAME_def not_le)
next
  case False
  let ?i = "unat (rxWrCount e AND (of_nat RX_FRAMES - 1))"
  have i: "?i < 4" using ring_less [where N = 4 and k = 2 and a = "rxWrCount e"] by (simp add: RX_FRAMES_def mask_eq_exp_minus_1)
  have b: "length (rxBuf e) = 4" "\<forall>f\<in>set (rxBuf e). length f = 96 \<and> (\<forall>s\<in>set f. sample_range s)" using assms(1) by (simp_all add: engine_parts)
  then have f: "length (rxBuf e ! ?i) = 96" "\<forall>s\<in>set (rxBuf e ! ?i). sample_range s" using i nth_mem [of ?i "rxBuf e"] by auto
  let ?f = "(rxBuf e ! ?i)[unat (rxIdx e) := s]"
  have "\<forall>x\<in>set ?f. sample_range x" using f(2) assms(2) set_update_subset_insert [of "rxBuf e ! ?i" "unat (rxIdx e)" s] by blast
  then have g: "\<forall>f\<in>set ((rxBuf e)[?i := ?f]). length f = 96 \<and> (\<forall>s\<in>set f. sample_range s)"
    using b(2) f(1) set_update_subset_insert [of "rxBuf e" ?i ?f] by force
  have d: "rxWrCount e - rxRdCount e < 4" using False by (simp add: RX_FRAMES_def)
  then have "unat (rxWrCount e - rxRdCount e + 1) = unat (rxWrCount e - rxRdCount e) + 1" by (simp add: word_less_nat_alt unat_word_ariths)
  then have c: "rxWrCount e + 1 - rxRdCount e \<le> 4" using d by (simp add: word_le_nat_alt word_less_nat_alt algebra_simps)
  show ?thesis
    using False assms(1) g c b(1) unfolding rx_store_def
    by (simp add: Let_def engine_parts SAMPLES_PER_FRAME_def not_le)
qed

lemma ok_rx_tick: "engine_ok e \<Longrightarrow> engine_ok (rx_tick adc e)"
  by (simp add: rx_tick_def Let_def) (intro conjI impI ok_rx_store rx_level_range; simp)

lemma ok_tx_prime: "engine_ok e \<Longrightarrow> engine_ok (tx_prime e)"
  by (auto simp: tx_prime_def engine_parts)

lemma ok_tx_play: "engine_ok e \<Longrightarrow> txState e = TX_PLAY \<Longrightarrow> engine_ok (snd (tx_play p e))"
proof -
  assume e: "engine_ok e" "txState e = TX_PLAY"
  have "engine_ok (snd (tx_take p e))"
    using e(1) tx_ring_less [of "txTail e + 1"] by (simp add: tx_take_def Let_def engine_parts tx_mask)
  then show ?thesis using e by (simp add: tx_play_def) (simp add: engine_parts ptt_defs)
qed

lemma ok_tick: "engine_ok e \<Longrightarrow> engine_ok (snd (engine_sample_tick adc e))"
proof -
  assume e: "engine_ok e"
  have p: "engine_ok (tx_prime (rx_tick adc e))" by (intro ok_tx_prime ok_rx_tick e)
  then show ?thesis
    using ok_tx_play [OF p] by (simp add: engine_sample_tick_def tick_sample_def Let_def split_def)
qed

end
