(* ===== verification/ModemRuns.thy ===== *)
theory ModemRuns
  imports ModemInv
begin

section \<open>The modem firmware: runs and what holds in all of them\<close>

text \<open>
  The events of a run, and the step each makes: a sample interrupt, the hardware of the serial port, the
  external clock, and the parts of the main loop in any order, each for one parser round or one frame.
  \<open>engine_poll\<close> is a run of these parts, so what holds in every run holds however interrupts fall between
  them.
\<close>

subsection \<open>Events and steps\<close>

datatype engine_event = Sample u16 | Byte_in u8 | Line_noise | Block_out | Clock_missing bool
  | Serve_uart | Parse u32 | Send_rx u32 | Report | House u32 | Lamps u32

inductive engine_step :: "engine \<Rightarrow> engine_event \<Rightarrow> engine \<Rightarrow> bool" where
  Sample: "adc < 4096 \<Longrightarrow> engine_step e (Sample adc) (snd (engine_sample_tick adc e))"
| Byte_in: "hw_uart_rx_available (uart e) < 2047 \<Longrightarrow> engine_step e (Byte_in b) (e\<lparr>uart := dma_receive (uart e) b\<rparr>)"
| Line_noise: "engine_step e Line_noise (e\<lparr>uart := (uart e)\<lparr>line_error := True\<rparr>\<rparr>)"
| Block_out: "engine_step e Block_out (e\<lparr>uart := dma_transmit (uart e)\<rparr>)"
| Clock_missing: "engine_step e (Clock_missing b) (e\<lparr>ext_clock_missing := b\<rparr>)"
| Serve_uart: "\<not> halted e \<Longrightarrow> engine_step e Serve_uart (poll_uart e)"
| Parse: "\<not> halted e \<Longrightarrow> hw_uart_rx_available (uart e) \<ge> 1 \<Longrightarrow> engine_step e (Parse now) (snd (parse_round now e))"
| Send_rx: "\<not> halted e \<Longrightarrow> rxWrCount e - rxRdCount e \<noteq> 0 \<Longrightarrow> engine_step e (Send_rx now) (snd (rx_round now e))"
| Report: "\<not> halted e \<Longrightarrow> engine_step e Report (sendTimingReport e)"
| House: "\<not> halted e \<Longrightarrow> engine_step e (House now) (housekeeping now e)"
| Lamps: "\<not> halted e \<Longrightarrow> engine_step e (Lamps now) (updateLeds now e)"

inductive_simps engine_step_simps:
  "engine_step e (Sample adc) e'" "engine_step e (House now) e'" "engine_step e (Parse now) e'"

text \<open>Power on: the static variables, then \<open>engine_init\<close>.\<close>

definition power_on :: "u32 \<Rightarrow> string \<Rightarrow> engine" where
  "power_on chip date = \<lparr>txBuf = replicate TX_BUF_SAMPLES 0, txHead = 0, txTail = 0, txState = TX_IDLE, txEot = False,
     rxBuf = replicate RX_FRAMES (replicate SAMPLES_PER_FRAME 0), rxIdx = 0, rxWrCount = 0, rxRdCount = 0,
     rxGainQ8 = RX_GAIN_Q8, rxInvert = False, duplex = False, rxDcQ12 = 0, isrClip = False, isrActivity = False, isrUnderrun = False,
     stallCount = 0, stallAlign = False, isrRxDropped = 0, isrUnderrunCount = 0, isrClipCount = 0,
     playIdx = 0, tmPending = False, tmReady = False, tmSeq = 0, tmK = 0, tmR = 0, stats = zero_stats,
     configured = False, txInvert = False, lastDataMs = 0, lastNakMs = 0, lastHostMs = 0, ledUntil = replicate NUM_LEDS 0,
     lastUartErr = 0, lastUnderrunSeen = 0, lastClipSeen = 0, lastDropSeen = 0,
     resync = False, resyncMs = 0, resyncBytes = 0, resyncFrame = False, holding = False, holdMs = 0, dbgRecovered = 0, dbgBadNext = 0,
     uart = uart_reset, pttWanted = False, pttInvert = False, pttPin = False, leds = replicate NUM_LEDS False, halted = False,
     chip_id = chip, build_date = date, ext_clock_missing = False\<rparr>"

definition engine_start :: "u32 \<Rightarrow> u32 \<Rightarrow> string \<Rightarrow> engine" where
  "engine_start now chip date = engine_init now (power_on chip date)"

subsection \<open>The invariant holds in every run\<close>

definition run_ok :: "engine \<Rightarrow> bool" where
  "run_ok e \<longleftrightarrow> engine_ok e \<and> length (build_date e) < 60000"

lemma power_on_ok: "engine_ok (power_on chip date)" "\<not> halted (power_on chip date)" "build_date (power_on chip date) = date"
  using uart_ok_reset
  by (simp_all add: engine_parts power_on_def TX_BUF_SAMPLES_def RX_FRAMES_def SAMPLES_PER_FRAME_def RX_GAIN_Q8_def NUM_LEDS_def sample_range_def)

lemma run_start: "length date < 60000 \<Longrightarrow> run_ok (engine_start now chip date)"
  using ok_engine_init [OF power_on_ok(1,2)] power_on_ok(3)
  by (simp add: run_ok_def engine_start_def) (simp add: engine_init_def)

lemma build_date_steps [simp]:
  "build_date (snd (engine_sample_tick adc e)) = build_date e" "build_date (snd (rx_round now e)) = build_date e"
  "build_date (sendTimingReport e) = build_date e" "build_date (housekeeping now e) = build_date e" "build_date (updateLeds now e) = build_date e"
  "build_date (poll_uart e) = build_date e"
proof -
  have "build_date (rx_tick adc e) = build_date e" by (simp add: rx_tick_def Let_def rx_store_def rx_clip_def)
  moreover have "build_date (snd (tx_play p x)) = build_date x" for p x by (simp add: tx_play_def tx_take_def Let_def)
  moreover have "build_date (tx_prime x) = build_date x" for x by (simp add: tx_prime_def)
  ultimately show "build_date (snd (engine_sample_tick adc e)) = build_date e"
    by (simp add: engine_sample_tick_def tick_sample_def Let_def split_def)
  show "build_date (snd (rx_round now e)) = build_date e" by (simp add: rx_round_def Let_def split_def)
  show "build_date (sendTimingReport e) = build_date e" by (simp add: sendTimingReport_def Let_def split_def)
  show "build_date (housekeeping now e) = build_date e" by (simp add: housekeeping_split Let_def)
  show "build_date (updateLeds now e) = build_date e" "build_date (poll_uart e) = build_date e" by (simp_all add: updateLeds_def Let_def poll_uart_def)
qed

lemma run_step: "engine_step e ev e' \<Longrightarrow> run_ok e \<Longrightarrow> run_ok e'"
proof (induction rule: engine_step.induct)
  case (Byte_in e b)
  then have u: "uart_ok (uart e)" by (simp add: run_ok_def engine_ok_def)
  then have "uart_ok (dma_receive (uart e) b)" using Byte_in rx_available(1) [OF u] by (intro rx_receive(2)) (simp_all add: word_less_nat_alt)
  then show ?case using Byte_in by (simp add: run_ok_def ok_uart)
next
  case (Line_noise e)
  then have "uart_ok ((uart e)\<lparr>line_error := True\<rparr>)" by (simp add: run_ok_def engine_ok_def uart_ok_def tx_bytes_def)
  then show ?case using Line_noise by (simp add: run_ok_def ok_uart)
next
  case (Parse e now)
  then show ?case using ok_parse_round [of e now] by (simp add: run_ok_def engine_live_def)
qed (simp_all add: run_ok_def ok_tick ok_uart tx_transmit(2) ok_uart_ok ok_poll_uart ok_rx_round ok_sendTimingReport ok_housekeeping ok_updateLeds)

lemma run_reach:
  assumes "steps engine_step (engine_start now chip date) events e" "length date < 60000"
  shows "run_ok e"
  using steps_invariant [where P = run_ok, OF assms(1) run_start [OF assms(2)]] run_step by blast

text \<open>The main loop as a run.\<close>

lemma steps_append: "steps R s as s1 \<Longrightarrow> steps R s1 bs s2 \<Longrightarrow> steps R s (as @ bs) s2"
  by (induction rule: steps.induct) (auto intro: steps_Cons)

lemma steps_one: "R s a s' \<Longrightarrow> steps R s [a] s'"
  by (blast intro: steps.intros)

lemma parseUart_runs: "\<exists>events. steps engine_step e events (parseUart now e)"
proof (induction now e rule: parseUart.induct)
  case (1 now e)
  obtain more e' where r: "parse_round now e = (more, e')" by force
  show ?case
  proof (cases "hw_uart_rx_available (uart e) \<ge> 1 \<and> \<not> halted e")
    case c: True
    have eq: "parseUart now e = (if more then parseUart now e' else e')" using r c by (subst parseUart.simps) simp
    have s: "engine_step e (Parse now) e'" using engine_step.Parse [of e now] r c by simp
    have "\<exists>events. steps engine_step e' events (if more then parseUart now e' else e')"
    proof (cases more)
      case True
      then show ?thesis using "1.IH" [OF c refl r [symmetric]] by simp
    next
      case False
      then show ?thesis using steps_Nil [of engine_step e'] by auto
    qed
    then show ?thesis unfolding eq using steps_Cons [of engine_step, OF s] by blast
  next
    case False
    then have "parseUart now e = e" by (subst parseUart.simps) auto
    then show ?thesis using steps_Nil [of engine_step e] by auto
  qed
qed

lemma halted_rest [simp]:
  "halted (snd (rx_round now e)) = halted e" "halted (sendTimingReport e) = halted e" "halted (housekeeping now e) = halted e"
  "halted (updateLeds now e) = halted e" "halted (poll_uart e) = halted e"
  by (simp_all add: rx_round_def sendTimingReport_def housekeeping_split updateLeds_def poll_uart_def Let_def split_def)

lemma sendRxFrames_runs: "\<not> halted e \<Longrightarrow> \<exists>events. steps engine_step e events (sendRxFrames now e) \<and> \<not> halted (sendRxFrames now e)"
proof (induction now e rule: sendRxFrames.induct)
  case (1 now e)
  obtain more e' where r: "rx_round now e = (more, e')" by force
  show ?case
  proof (cases "rxWrCount e - rxRdCount e \<noteq> 0")
    case c: True
    have eq: "sendRxFrames now e = (if more then sendRxFrames now e' else e')" using r c by (subst sendRxFrames.simps) simp
    have s: "engine_step e (Send_rx now) e'" "\<not> halted e'"
      using engine_step.Send_rx [of e now] halted_rest(1) [of now e] "1.prems" r c by simp_all
    have "\<exists>events. steps engine_step e' events (if more then sendRxFrames now e' else e') \<and> \<not> halted (if more then sendRxFrames now e' else e')"
    proof (cases more)
      case True
      then show ?thesis using "1.IH" [OF c refl r [symmetric]] s(2) by simp
    next
      case False
      then show ?thesis using steps_Nil [of engine_step e'] s(2) by auto
    qed
    then show ?thesis unfolding eq using steps_Cons [of engine_step, OF s(1)] by blast
  next
    case False
    then have "sendRxFrames now e = e" by (subst sendRxFrames.simps) simp
    then show ?thesis using "1.prems" steps_Nil [of engine_step e] by auto
  qed
qed

lemma engine_poll_runs: "\<exists>events. steps engine_step e events (engine_poll now e)"
proof (cases "halted e")
  case True
  then show ?thesis using steps_Nil by (metis engine_poll_def)
next
  case False
  obtain es where p: "steps engine_step (poll_uart e) es (parseUart now (poll_uart e))" using parseUart_runs by blast
  have s: "steps engine_step e (Serve_uart # es) (parseUart now (poll_uart e))"
    by (rule steps_Cons [of engine_step, OF engine_step.Serve_uart [OF False] p])
  let ?p = "parseUart now (poll_uart e)"
  show ?thesis
  proof (cases "halted ?p")
    case True
    then show ?thesis using s False by (auto simp: engine_poll_def Let_def)
  next
    case live: False
    obtain rs where r: "steps engine_step ?p rs (sendRxFrames now ?p)" "\<not> halted (sendRxFrames now ?p)"
      using sendRxFrames_runs [OF live] by blast
    let ?r = "sendRxFrames now ?p"
    have rest: "steps engine_step ?r [Report, House now, Lamps now, Serve_uart]
        (poll_uart (updateLeds now (housekeeping now (sendTimingReport ?r))))"
      by (rule steps_Cons [of engine_step, OF engine_step.Report], simp add: r(2), rule steps_Cons [of engine_step, OF engine_step.House], simp add: r(2),
          rule steps_Cons [of engine_step, OF engine_step.Lamps], simp add: r(2), rule steps_one [where R = engine_step], rule engine_step.Serve_uart, simp add: r(2))
    have "engine_poll now e = poll_uart (updateLeds now (housekeeping now (sendTimingReport ?r)))"
      using False live by (simp add: engine_poll_def Let_def)
    then show ?thesis using steps_append [OF s steps_append [OF r(1) rest]] by auto
  qed
qed

subsection \<open>Bounds\<close>

lemma rx_product_bound:
  assumes "adc < 4096" "0 \<le> g" "g \<le> 4080"
  shows "\<bar>rx_raw adc * g\<bar> < 2 ^ 31"
proof -
  have "uint adc < 4096" "0 \<le> uint adc" using assms(1) by (simp_all add: word_less_def)
  then have "\<bar>(uint adc - 2048) * 16\<bar> \<le> 32768" by arith
  then have "\<bar>rx_raw adc\<bar> \<le> 32768" by (simp add: rx_raw_def ADC_MID_def RX_ADC_SHIFT_def)
  then have "\<bar>rx_raw adc\<bar> * g \<le> 32768 * 4080" using assms(2,3) by (intro mult_mono) simp_all
  then show ?thesis using assms(2) by (simp add: abs_mult)
qed

lemma tx_product_bound: "\<bar>frame_sample f i * tx_gain w\<bar> < 2 ^ 31"
proof -
  have u: "uint (if w \<noteq> 0 then w else TX_LEVEL_UNITY) \<le> 255"
    using unsigned_less [of "if w \<noteq> 0 then w else TX_LEVEL_UNITY", where 'a = int] by simp
  then have "uint (if w \<noteq> 0 then w else TX_LEVEL_UNITY) * 256 div 100 \<le> 65280 div 100" by (intro zdiv_mono1) simp_all
  then have g: "0 \<le> tx_gain w" "tx_gain w \<le> 652"
    by (simp_all add: tx_gain_def TX_GAIN_Q8_def TX_LEVEL_UNITY_def pos_imp_zdiv_nonneg_iff)
  have "\<bar>sint x\<bar> \<le> 32768" for x :: u16 using sint_ge [of x] sint_lt [of x] by simp
  then have "\<bar>frame_sample f i\<bar> \<le> 32768" by (simp only: frame_sample_def)
  then have "\<bar>frame_sample f i\<bar> * tx_gain w \<le> 32768 * 652" using g by (intro mult_mono) simp_all
  then show ?thesis using g by (simp add: abs_mult)
qed

lemma dac_12_bits: "dac_value s \<le> 4095"
proof -
  have "uint (word_of_int x :: u16) \<le> 4095" if "0 \<le> x" "x \<le> 4095" for x using that by (simp add: uint_word_of_int)
  then show ?thesis by (auto simp: dac_value_def Let_def word_le_def)
qed

text \<open>C37: in every run from power on, with 12 bit converter readings, all indices stay inside their buffers, at most
  four frames wait, every stored sample is in the symmetric 16 bit range, the products of a sample and a gain fit in
  32 bits, and the value for the converter has 12 bits.\<close>

theorem modem_run_in_bounds:
  assumes "steps engine_step (engine_start now chip date) events e" "length date < 60000"
  shows "length (txBuf e) = TX_BUF_SAMPLES \<and> unat (txHead e) < TX_BUF_SAMPLES \<and> unat (txTail e) < TX_BUF_SAMPLES \<and>
    (\<forall>s\<in>set (txBuf e). - 32767 \<le> s \<and> s \<le> 32767) \<and>
    length (rxBuf e) = RX_FRAMES \<and> unat (rxIdx e) < SAMPLES_PER_FRAME \<and> unat (rxWrCount e - rxRdCount e) \<le> RX_FRAMES \<and>
    (\<forall>f\<in>set (rxBuf e). length f = SAMPLES_PER_FRAME \<and> (\<forall>s\<in>set f. - 32767 \<le> s \<and> s \<le> 32767)) \<and>
    (\<forall>adc<4096. \<bar>rx_raw adc * rxGainQ8 e\<bar> < 2 ^ 31 \<and> fst (engine_sample_tick adc e) \<le> 4095) \<and>
    (\<forall>f i. \<bar>frame_sample f i * tx_gain (f ! 3)\<bar> < 2 ^ 31)"
proof -
  have e: "tx_ok e" "rx_ok e" using run_reach [OF assms] by (simp_all add: run_ok_def engine_ok_def)
  have r: "\<bar>rx_raw adc * rxGainQ8 e\<bar> < 2 ^ 31" if "adc < 4096" for adc
    using rx_product_bound [OF that] e(2) by (simp add: rx_ok_def)
  have "fst (engine_sample_tick adc e) \<le> 4095" for adc by (simp add: engine_sample_tick_def Let_def split_def dac_12_bits)
  then show ?thesis using e r tx_product_bound
    by (simp add: tx_ok_def rx_ok_def sample_range_def TX_BUF_SAMPLES_def RX_FRAMES_def SAMPLES_PER_FRAME_def word_less_nat_alt word_le_nat_alt)
qed

lemma start_runs:
  "steps engine_step (engine_start 0 0x418 ''Jan 01 2026'') [Sample 2048, House 1] (housekeeping 1 (snd (engine_sample_tick 2048 (engine_start 0 0x418 ''Jan 01 2026''))))"
proof -
  have "\<not> halted (engine_start 0 0x418 ''Jan 01 2026'')" by (simp add: engine_start_def power_on_ok engine_init_def)
  moreover have "halted (snd (engine_sample_tick 2048 x)) = halted x" for x
  proof -
    have "halted (rx_tick 2048 x) = halted x" by (simp add: rx_tick_def rx_store_def rx_clip_def Let_def)
    moreover have "halted (snd (tx_play p y)) = halted y" "halted (tx_prime y) = halted y" for p y by (simp_all add: tx_play_def tx_take_def Let_def tx_prime_def)
    ultimately show ?thesis by (simp add: engine_sample_tick_def tick_sample_def Let_def split_def)
  qed
  ultimately show ?thesis
    by (intro steps_Cons [of engine_step, OF engine_step.Sample] steps_one [where R = engine_step] engine_step.House) simp_all
qed

lemma modem_run_in_bounds_witness:
  "unat (txTail (housekeeping 1 (snd (engine_sample_tick 2048 (engine_start 0 0x418 ''Jan 01 2026''))))) < 8192 \<and>
   fst (engine_sample_tick 4095 (housekeeping 1 (snd (engine_sample_tick 2048 (engine_start 0 0x418 ''Jan 01 2026''))))) \<le> 4095"
  using modem_run_in_bounds [OF start_runs] by (auto simp: TX_BUF_SAMPLES_def)

text \<open>C28: in every run from power on the push to talk output is wanted exactly while a transmission is in progress, and its pin
  carries the host's polarity; once the boot loader is entered it is off.  The same holds after a whole round of the main loop.\<close>

theorem modem_ptt_follows_state:
  assumes "steps engine_step (engine_start now chip date) events e" "length date < 60000"
  shows "(\<not> halted e \<longrightarrow> pttWanted e = engine_is_keyed e) \<and> (halted e \<longrightarrow> \<not> pttWanted e) \<and> pttPin e = (pttWanted e \<noteq> pttInvert e) \<and>
    (\<not> halted (engine_poll t e) \<longrightarrow> pttWanted (engine_poll t e) = engine_is_keyed (engine_poll t e)) \<and>
    (halted (engine_poll t e) \<longrightarrow> \<not> pttWanted (engine_poll t e)) \<and>
    pttPin (engine_poll t e) = (pttWanted (engine_poll t e) \<noteq> pttInvert (engine_poll t e))"
proof -
  obtain more where "steps engine_step e more (engine_poll t e)" using engine_poll_runs by blast
  then have "run_ok e" "run_ok (engine_poll t e)" using run_reach [OF assms] run_reach [OF steps_append [OF assms(1)] assms(2)] by auto
  then show ?thesis by (simp add: run_ok_def engine_ok_def ptt_ok_def engine_is_keyed_def)
qed

lemma modem_ptt_follows_state_witness:
  "let e = engine_poll 2 (housekeeping 1 (snd (engine_sample_tick 2048 (engine_start 0 0x418 ''Jan 01 2026'')))) in
   pttPin e = (pttWanted e \<noteq> pttInvert e)"
  using modem_ptt_follows_state [OF start_runs, of 2] by (simp add: Let_def)

end
