(* ===== verification/ModemAudio.thy ===== *)
theory ModemAudio
  imports ModemRuns
begin

section \<open>The modem firmware: the audio that is transmitted\<close>

text \<open>
  What goes to the converter is a queue's front: sample frames append to it, the sample interrupt takes one
  sample per tick while playing, a time-out empties it.  Shown: the queue over all runs, the end of a
  transmission after the host's end frame and after the host falls silent, and the length of a gap after an
  underrun.
\<close>

subsection \<open>One tick\<close>

definition played :: "u16 \<Rightarrow> engine \<Rightarrow> int list" where
  "played adc e =
     (let e = tx_prime (rx_tick adc e)
      in if txState e = TX_PLAY \<and> txCount e \<noteq> 0 then [txBuf e ! unat (txTail e)] else [])"

lemma rx_tick_tx_side [simp]:
  "txBuf (rx_tick adc e) = txBuf e" "txHead (rx_tick adc e) = txHead e" "txTail (rx_tick adc e) = txTail e"
  "txState (rx_tick adc e) = txState e" "txEot (rx_tick adc e) = txEot e" "stallAlign (rx_tick adc e) = stallAlign e"
  "stallCount (rx_tick adc e) = stallCount e" "pttWanted (rx_tick adc e) = pttWanted e" "halted (rx_tick adc e) = halted e"
  by (simp_all add: rx_tick_def rx_store_def rx_clip_def Let_def)

lemma tx_prime_tx_side [simp]:
  "txBuf (tx_prime e) = txBuf e" "txHead (tx_prime e) = txHead e" "txTail (tx_prime e) = txTail e" "txEot (tx_prime e) = txEot e"
  "pttWanted (tx_prime e) = pttWanted e" "halted (tx_prime e) = halted e"
  by (simp_all add: tx_prime_def)

lemma tx_side_queue: "txBuf e' = txBuf e \<Longrightarrow> txHead e' = txHead e \<Longrightarrow> txTail e' = txTail e \<Longrightarrow> tx_queue e' = tx_queue e"
  by (simp add: tx_queue_def)

lemma tx_side_ok: "txBuf e' = txBuf e \<Longrightarrow> txHead e' = txHead e \<Longrightarrow> txTail e' = txTail e \<Longrightarrow> tx_ok e' = tx_ok e"
  by (simp add: tx_ok_def)

lemma tick_queue:
  assumes "tx_ok e"
  shows "tx_queue e = played adc e @ tx_queue (snd (engine_sample_tick adc e))"
    and "fst (engine_sample_tick adc e) = dac_value (if played adc e = [] then 0 else hd (played adc e))"
    and "tx_ok (snd (engine_sample_tick adc e))"
proof -
  let ?e = "tx_prime (rx_tick adc e)"
  let ?p = "rxWrCount e * of_nat SAMPLES_PER_FRAME + ucast (rxIdx e)"
  have q: "tx_queue ?e = tx_queue e" "tx_ok ?e = tx_ok e" by (rule tx_side_queue tx_side_ok; simp)+
  have t: "engine_sample_tick adc e = (if txState ?e = TX_PLAY then (dac_value (fst (tx_play ?p ?e)), snd (tx_play ?p ?e)) else (dac_value 0, ?e))"
    by (simp add: engine_sample_tick_def tick_sample_def Let_def split_def)
  have goal: "tx_queue e = played adc e @ tx_queue (snd (engine_sample_tick adc e)) \<and>
      fst (engine_sample_tick adc e) = dac_value (if played adc e = [] then 0 else hd (played adc e)) \<and> tx_ok (snd (engine_sample_tick adc e))"
  proof (cases "txState ?e = TX_PLAY \<and> txCount ?e \<noteq> 0")
    case True
    then have ne: "tx_queue ?e \<noteq> []" using txCount_0 [of ?e] assms q by simp
    have d: "0 < ring_dist 8192 (unat (txTail ?e)) (unat (txHead ?e))" using ne by (simp add: tx_queue_def flip: length_0_conv)
    have "unat (txTail ?e) < 8192" using assms by (simp add: tx_ok_def)
    then have "played adc e = [hd (tx_queue ?e)]"
      using True ring_list_hd [OF _ d, of "txBuf ?e"] by (simp add: played_def Let_def tx_queue_def)
    then show ?thesis using tx_take_queue [of ?e ?p] True ne assms q by (simp add: t tx_play_def)
  next
    case False
    then have n: "played adc e = []" by (simp add: played_def Let_def)
    have "tx_queue (snd (tx_play ?p ?e)) = tx_queue e \<and> tx_ok (snd (tx_play ?p ?e)) \<and> fst (tx_play ?p ?e) = 0" if "txCount ?e = 0"
      using that assms by (simp add: tx_play_def tx_queue_def tx_ok_def ptt_defs)
    then show ?thesis using False n q assms by (auto simp: t)
  qed
  then show "tx_queue e = played adc e @ tx_queue (snd (engine_sample_tick adc e))"
    "fst (engine_sample_tick adc e) = dac_value (if played adc e = [] then 0 else hd (played adc e))" "tx_ok (snd (engine_sample_tick adc e))" by simp_all
qed

subsection \<open>Sample frames\<close>

lemma tx_key_up_keeps [simp]:
  "txBuf (tx_key_up e) = txBuf e" "txHead (tx_key_up e) = txHead e" "txTail (tx_key_up e) = txTail e" "txEot (tx_key_up e) = txEot e"
  "lastDataMs (tx_key_up e) = lastDataMs e" "lastNakMs (tx_key_up e) = lastNakMs e" "uart (tx_key_up e) = uart e" "txState (tx_key_up e) = (if txState e = TX_IDLE then TX_PRIME else txState e)"
  by (simp_all add: tx_key_up_def ptt_defs)

lemma tx_store_keeps [simp]:
  "txState (tx_store f n e) = txState e" "pttWanted (tx_store f n e) = pttWanted e" "txTail (tx_store f n e) = txTail e"
  "lastNakMs (tx_store f n e) = lastNakMs e" "uart (tx_store f n e) = uart e"
  by (simp_all add: tx_store_def split_def Let_def)

lemma uart_send_keeps [simp]:
  "txBuf (uart_send f e) = txBuf e" "txHead (uart_send f e) = txHead e" "txTail (uart_send f e) = txTail e" "txEot (uart_send f e) = txEot e"
  "txState (uart_send f e) = txState e" "stallAlign (uart_send f e) = stallAlign e" "stallCount (uart_send f e) = stallCount e"
  "stats (uart_send f e) = stats e" "lastDataMs (uart_send f e) = lastDataMs e" "pttWanted (uart_send f e) = pttWanted e" "lastNakMs (uart_send f e) = lastNakMs e"
  by (simp_all add: uart_send_def)

lemma ledPulse_lastNakMs [simp]: "lastNakMs (ledPulse now n ms e) = lastNakMs e"
  by (simp add: ledPulse_def)

lemma tx_refuse_keeps [simp]:
  "txBuf (tx_refuse now e) = txBuf e" "txHead (tx_refuse now e) = txHead e" "txTail (tx_refuse now e) = txTail e" "txEot (tx_refuse now e) = txEot e"
  "txState (tx_refuse now e) = txState e" "stallAlign (tx_refuse now e) = stallAlign e" "stallCount (tx_refuse now e) = stallCount e"
  by (simp_all add: tx_refuse_def Let_def sendNak_def)

lemma sampData_cases:
  assumes "tx_ok e" "len \<ge> 4"
  defines "n \<equiv> (unat len - 4) div 2" and "e1 \<equiv> e\<lparr>stats := (stats e)\<lparr>txFramesFromHost := txFramesFromHost (stats e) + 1\<rparr>\<rparr>"
  shows "length (tx_queue e) + n < TX_BUF_SAMPLES \<Longrightarrow>
      handleSampData now f len e = tx_key_up ((tx_store f n e1)\<lparr>txEot := False, lastDataMs := now\<rparr>) \<and>
      tx_queue (handleSampData now f len e) = tx_queue e @ map (tx_value e f) [0..<n] \<and> tx_ok (handleSampData now f len e)"
    and "TX_BUF_SAMPLES \<le> length (tx_queue e) + n \<Longrightarrow> handleSampData now f len e = tx_refuse now e1"
proof -
  have q: "tx_queue e1 = tx_queue e" "tx_ok e1 = tx_ok e" by (rule tx_side_queue tx_side_ok; simp add: e1_def)+
  have v: "tx_value e1 f i = tx_value e f i" for i by (simp add: tx_value_def e1_def)
  have "\<not> len < 4" using assms(2) by simp
  then have h: "handleSampData now f len e = (if length (tx_queue e) + n > 8191 then tx_refuse now e1
      else tx_key_up ((tx_store f n e1)\<lparr>txEot := False, lastDataMs := now\<rparr>))"
    unfolding handleSampData_def Let_def n_def [symmetric] e1_def [symmetric]
    using fits [of e1 n] sample_count [OF assms(2)] assms(1) q by (simp add: n_def)
  show "TX_BUF_SAMPLES \<le> length (tx_queue e) + n \<Longrightarrow> handleSampData now f len e = tx_refuse now e1" by (simp add: h TX_BUF_SAMPLES_def)
  assume "length (tx_queue e) + n < TX_BUF_SAMPLES"
  then have le: "length (tx_queue e) + n \<le> 8191" by (simp add: TX_BUF_SAMPLES_def)
  then have s: "tx_queue (tx_store f n e1) = tx_queue e @ map (tx_value e f) [0..<n]" "tx_ok (tx_store f n e1)"
    using tx_store_queue [of e1 n f] assms(1) q v by simp_all
  let ?r = "tx_key_up ((tx_store f n e1)\<lparr>txEot := False, lastDataMs := now\<rparr>)"
  have "tx_queue ?r = tx_queue (tx_store f n e1)" "tx_ok ?r = tx_ok (tx_store f n e1)" by (rule tx_side_queue tx_side_ok; simp)+
  then show "handleSampData now f len e = ?r \<and>
      tx_queue (handleSampData now f len e) = tx_queue e @ map (tx_value e f) [0..<n] \<and> tx_ok (handleSampData now f len e)"
    using le s h by simp
qed

subsection \<open>What a parser round does to the transmission\<close>

text \<open>
  A relation between states that holds when the transmission and the time of the last refusal are left alone, that is transitive and that every
  sample frame keeps, holds between the states before and after a parser round.
\<close>

definition tx_view :: "engine \<Rightarrow> int list \<times> u16 \<times> u16 \<times> tx_state \<times> bool \<times> u32 \<times> u32" where
  "tx_view e = (txBuf e, txHead e, txTail e, txState e, stallAlign e, stallCount e, lastNakMs e)"

lemma tx_view_ok: "tx_view e' = tx_view e \<Longrightarrow> tx_ok e' = tx_ok e"
  by (simp add: tx_view_def tx_ok_def)

lemmas send_unfold = sendVersion_def sendNak_def sendAck_def sendSmall_def

lemma tx_view_kept [simp]:
  "tx_view (e\<lparr>lastHostMs := x\<rparr>) = tx_view e" "tx_view (e\<lparr>stats := st\<rparr>) = tx_view e" "tx_view (e\<lparr>configured := b\<rparr>) = tx_view e"
  "tx_view (e\<lparr>holding := b\<rparr>) = tx_view e" "tx_view (e\<lparr>holdMs := x\<rparr>) = tx_view e" "tx_view (e\<lparr>resyncFrame := b\<rparr>) = tx_view e"
  "tx_view (e\<lparr>resyncBytes := w\<rparr>) = tx_view e" "tx_view (e\<lparr>resync := b\<rparr>) = tx_view e"
  "tx_view (e\<lparr>dbgRecovered := x\<rparr>) = tx_view e" "tx_view (e\<lparr>dbgBadNext := y\<rparr>) = tx_view e"
  "tx_view (ledPulse now n ms e) = tx_view e" "tx_view (uart_send f e) = tx_view e" "tx_view (requestEot e) = tx_view e"
  "tx_view (set_levels f e) = tx_view e" "tx_view (rx_consume w e) = tx_view e" "tx_view (NOTE_SKIP now e) = tx_view e"
  "tx_view (hw_enter_bootloader e) = tx_view e" "tx_view (hw_ptt b e) = tx_view e"
  by (simp_all add: tx_view_def requestEot_def set_levels_def rx_consume_def NOTE_SKIP_def hw_enter_bootloader_def ptt_defs Let_def)

lemma tx_view_send [simp]:
  "tx_view (sendSmall y e) = tx_view e" "tx_view (sendAck e) = tx_view e" "tx_view (sendNak y z e) = tx_view e" "tx_view (sendVersion e) = tx_view e"
  "tx_view (handleSetConfig f len e) = tx_view e" "tx_view (skip_byte now e) = tx_view e" "tx_view (skip_damaged now e) = tx_view e"
  by (simp_all add: send_unfold handleSetConfig_def skip_byte_def skip_damaged_def Let_def)

locale parser_relation =
  fixes R :: "engine \<Rightarrow> engine \<Rightarrow> bool" and now :: u32
  assumes same: "tx_view e' = tx_view e \<Longrightarrow> R e e'"
    and trans: "R e e' \<Longrightarrow> R e' e'' \<Longrightarrow> R e e''"
    and data: "tx_ok e \<Longrightarrow> R e (handleSampData now f len e)"
begin

lemma from_view: "tx_view e' = tx_view e \<Longrightarrow> R e' e'' \<Longrightarrow> R e e''"
  using same trans by blast

lemma frame: "tx_ok e \<Longrightarrow> R e (handleFrame now f len e)"
proof -
  assume e: "tx_ok e"
  let ?e = "ledPulse now 1 30 (e\<lparr>lastHostMs := now\<rparr>)"
  have "tx_ok ?e" using e tx_view_ok [of ?e e] by simp
  then have "R e (handleSampData now f len ?e)" using from_view [OF _ data] by simp
  then show ?thesis unfolding handleFrame_def Let_def by (simp add: same)
qed

lemma silence: "tx_ok e \<Longrightarrow> R e (insertSilenceFrame now e)"
proof -
  assume e: "tx_ok e"
  let ?e = "e\<lparr>stats := (stats e)\<lparr>lostFrames := lostFrames (stats e) + 1\<rparr>\<rparr>"
  have "tx_ok ?e" using e tx_view_ok [of ?e e] by simp
  then have "R e (handleSampData now silence_frame (of_nat SAMP_FRAME_BYTES) ?e)" using from_view [OF _ data] by simp
  then show ?thesis by (simp add: insertSilenceFrame_def same)
qed

lemma resynchronised: "engine_live e \<Longrightarrow> R e (endResync now e)"
proof -
  have iter: "engine_live x \<Longrightarrow> R x ((insertSilenceFrame now ^^ n) x) \<and> engine_live ((insertSilenceFrame now ^^ n) x)" for n x
  proof (induction n)
    case 0
    then show ?case by (simp add: same)
  next
    case (Suc n)
    let ?y = "(insertSilenceFrame now ^^ n) x"
    have y: "R x ?y" "engine_live ?y" using Suc by simp_all
    then have "R ?y (insertSilenceFrame now ?y)" by (intro silence) (simp add: engine_live_def engine_ok_def)
    then show ?case using y trans live_insertSilenceFrame by auto
  qed
  assume "engine_live e"
  then have live: "engine_live (e\<lparr>resyncFrame := False, resyncBytes := 0, resync := False\<rparr>)" by (simp add: engine_live_def)
  have "tx_view (e\<lparr>resyncFrame := False, resyncBytes := 0, resync := False\<rparr>) = tx_view e" by simp
  then show ?thesis unfolding endResync_def Let_def by (rule from_view [OF _ conjunct1 [OF iter [OF live]]])
qed

lemma taken: "engine_live e \<Longrightarrow> R e (take_frame now len e)"
proof -
  assume e: "engine_live e"
  let ?e = "rx_consume (ucast len) (e\<lparr>holding := False\<rparr>)"
  have v: "tx_view ?e = tx_view e" by simp
  have "tx_ok ?e" using e unfolding tx_view_ok [OF v] by (simp add: engine_live_def engine_ok_def)
  then show ?thesis unfolding take_frame_def Let_def by (rule from_view [OF v frame])
qed

lemma sample_frame: "engine_live e \<Longrightarrow> R e (snd (parse_samp now avail len e))"
proof -
  assume e: "engine_live e"
  let ?h = "if \<not> holding e then e\<lparr>holding := True, holdMs := now\<rparr> else e" and ?n = "snd (nextIsStart (ucast len) e)"
  obtain b x y where n: "nextIsStart (ucast len) e = (b, e\<lparr>dbgRecovered := x, dbgBadNext := y\<rparr>)" using nextIsStart_cases by blast
  have h: "engine_live ?h" "tx_view ?h = tx_view e" using e by (simp_all add: engine_live_def)
  have l: "engine_live ?n" "tx_view ?n = tx_view e" using e n by (simp_all add: engine_live_def)
  have r: "engine_live (if resync ?n then endResync now ?n else ?n)" "R e (if resync ?n then endResync now ?n else ?n)"
    using l(1) live_endResync [OF l(1)] from_view [OF l(2) resynchronised [OF l(1)]] same [OF l(2)] by (simp_all only: if_split simp_thms)
  obtain H where H: "H = ?h" by simp
  obtain S where S: "S = (if resync ?n then endResync now ?n else ?n)" by simp
  have "R e (take_frame now len H)" unfolding H by (rule from_view [OF h(2) taken [OF h(1)]])
  moreover have "R e (take_frame now len S)" unfolding S by (rule trans [OF r(2) taken [OF r(1)]])
  moreover have "R e H" unfolding H by (rule same [OF h(2)])
  moreover have "R e (skip_damaged now ?n)" by (rule same) (simp only: tx_view_send l(2))
  ultimately show ?thesis unfolding parse_samp_def Let_def split_def H [symmetric] S [symmetric] by simp
qed

lemma round: "engine_live e \<Longrightarrow> R e (snd (parse_round now e))"
proof -
  assume e: "engine_live e"
  let ?e = "if resync e \<and> now - resyncMs e > RESYNC_QUIET_MS then endResync now e else e"
  have x: "engine_live ?e" "R e ?e" using e live_endResync resynchronised same by simp_all
  have "R ?e (snd (parse_body now a len y ?e))" for a len y
    using same [of "skip_byte now ?e" ?e] same [of ?e ?e] sample_frame [OF x(1)] taken [OF x(1)]
    unfolding parse_body_def Let_def by auto
  then have "R e (snd (parse_body now a len y ?e))" for a len y using trans [OF x(2)] by blast
  then show ?thesis using same [of "skip_byte now e" e] same [of e e] unfolding parse_round_def Let_def by simp
qed

end

text \<open>Appending to the queue is all a round does to it.\<close>

definition grows :: "engine \<Rightarrow> engine \<Rightarrow> bool" where
  "grows e e' \<longleftrightarrow> (\<exists>ys. tx_queue e' = tx_queue e @ ys)"

lemma grows_handleSampData:
  assumes "tx_ok e"
  shows "grows e (handleSampData now f len e)"
proof (cases "len < 4")
  case True
  then show ?thesis by (simp add: handleSampData_def grows_def)
next
  case False
  then have l: "len \<ge> 4" by simp
  show ?thesis
  proof (cases "length (tx_queue e) + (unat len - 4) div 2 < TX_BUF_SAMPLES")
    case True
    then show ?thesis using sampData_cases(1) [OF assms l, of now f] unfolding grows_def by blast
  next
    case False
    then show ?thesis using sampData_cases(2) [OF assms l] by (simp add: grows_def tx_queue_def)
  qed
qed

interpretation grow: parser_relation grows now for now
  by unfold_locales (auto simp: grows_handleSampData, auto simp: grows_def tx_view_def tx_queue_def)

text \<open>The only change of the transmit state is keying up from idle.\<close>

definition keys :: "engine \<Rightarrow> engine \<Rightarrow> bool" where
  "keys e e' \<longleftrightarrow> (txState e', stallAlign e', stallCount e') = (txState e, stallAlign e, stallCount e) \<or>
     txState e = TX_IDLE \<and> txState e' = TX_PRIME \<and> \<not> stallAlign e'"

lemma keys_key_up: "keys x (tx_key_up x)"
  by (simp add: keys_def tx_key_up_def ptt_defs)

lemma keys_handleSampData: "keys e (handleSampData now f len e)"
proof -
  have s: "keys e (tx_key_up x)" if "txState x = txState e" "stallAlign x = stallAlign e" "stallCount x = stallCount e" for x
    using keys_key_up [of x] that by (simp add: keys_def)
  have st: "stallAlign (tx_store f n x) = stallAlign x" "stallCount (tx_store f n x) = stallCount x" for n x
    by (simp_all add: tx_store_def split_def Let_def)
  have same: "keys e e" "keys e (tx_refuse now (e\<lparr>stats := y\<rparr>))" for y by (simp_all add: keys_def)
  show ?thesis unfolding handleSampData_def Let_def using same by (simp add: s st)
qed

interpretation key: parser_relation keys now for now
  by unfold_locales (auto simp: keys_handleSampData, auto simp: keys_def tx_view_def)

text \<open>The time of the last refusal is only moved by a refusal, to the present, when it is 100 ms old.\<close>

definition refusal_spaced :: "u32 \<Rightarrow> engine \<Rightarrow> engine \<Rightarrow> bool" where
  "refusal_spaced now e e' \<longleftrightarrow> lastNakMs e' = lastNakMs e \<or> now - lastNakMs e \<ge> 100 \<and> lastNakMs e' = now"

lemma refusal_handleSampData: "refusal_spaced now e (handleSampData now f len e)"
proof -
  have "refusal_spaced now e (tx_refuse now (e\<lparr>stats := x\<rparr>))" for x
    by (simp add: refusal_spaced_def tx_refuse_def Let_def sendNak_def)
  then show ?thesis unfolding handleSampData_def Let_def by (simp add: refusal_spaced_def)
qed

interpretation refusal: parser_relation "refusal_spaced now" now for now
  by unfold_locales (simp_all add: refusal_handleSampData, auto simp: refusal_spaced_def tx_view_def)

lemma step_refusals:
  assumes "engine_step e ev e2" "run_ok e"
  shows "lastNakMs e2 = lastNakMs e \<or> (\<exists>t. ev = Parse t \<and> t - lastNakMs e \<ge> 100 \<and> lastNakMs e2 = t)"
  using assms
proof (induction rule: engine_step.induct)
  case (Sample adc e)
  have r: "lastNakMs (rx_tick adc e) = lastNakMs e" by (simp add: rx_tick_def rx_store_def rx_clip_def Let_def)
  have p: "lastNakMs (snd (tx_play n x)) = lastNakMs x" for n x by (simp add: tx_play_def tx_take_def ptt_defs Let_def)
  have q: "lastNakMs (tx_prime x) = lastNakMs x" for x by (simp add: tx_prime_def)
  show ?case using r p q by (simp add: engine_sample_tick_def tick_sample_def Let_def split_def)
next
  case (Parse e now)
  then have "refusal_spaced now e (snd (parse_round now e))" by (intro refusal.round) (simp add: run_ok_def engine_live_def)
  then show ?case by (auto simp: refusal_spaced_def)
next
  case (House e now)
  have s: "lastNakMs (seen_uart now x) = lastNakMs x" "lastNakMs (seen_drop now x) = lastNakMs x" "lastNakMs (seen_clip x) = lastNakMs x"
    "lastNakMs (seen_underrun now x) = lastNakMs x" for x
    by (simp_all add: seen_uart_def seen_drop_def seen_clip_def seen_underrun_def Let_def)
  have "lastNakMs (count_flags now x) = lastNakMs x" for x by (simp add: count_flags_def Let_def s)
  then show ?case by (simp add: housekeeping_split Let_def keyDown_def ptt_defs)
qed (simp_all add: poll_uart_def rx_round_def sendTimingReport_def updateLeds_def Let_def split_def)

text \<open>C34: in every state a run reaches, a sample frame of \<open>n\<close> samples that leaves one place of the ring free is appended to
  the queue, scaled and limited, keys the transmitter and cancels a pending end, without an answer; one that does not fit
  changes nothing of the transmission and is counted as an overflow.  It is answered by a refusal if the last one is at least
  100 ms old, whose time is then noted; no step of the engine other than such a refusal, in a round of the parser 100 ms or
  more after the noted time, changes the noted time, so refusals are at least 100 ms apart.\<close>

theorem modem_sample_frame_queued:
  assumes "steps engine_step (engine_start now0 chip date) events e" "length date < 60000" "\<not> halted e" "4 \<le> len"
  shows "let n = (unat len - 4) div 2; e' = handleSampData now f len e in
    (length (tx_queue e) + n < TX_BUF_SAMPLES \<longrightarrow>
       tx_queue e' = tx_queue e @ map (tx_value e f) [0..<n] \<and> pttWanted e' \<and> \<not> txEot e' \<and> lastDataMs e' = now \<and>
       txState e' = (if txState e = TX_IDLE then TX_PRIME else txState e) \<and> lastNakMs e' = lastNakMs e \<and> uart e' = uart e) \<and>
    (TX_BUF_SAMPLES \<le> length (tx_queue e) + n \<longrightarrow>
       tx_queue e' = tx_queue e \<and> txState e' = txState e \<and> txEot e' = txEot e \<and> txOverflow (stats e') = txOverflow (stats e) + 1 \<and>
       uart e' = (if now - lastNakMs e \<ge> 100
         then snd (hw_uart_tx (uart e) [OMT_START, 5, OMT_NAK, OMT_SAMP_DATA, OMT_ERR_NO_SPACE] 5) else uart e) \<and>
       lastNakMs e' = (if now - lastNakMs e \<ge> 100 then now else lastNakMs e)) \<and>
    (\<forall>ev e2. engine_step e ev e2 \<longrightarrow>
       lastNakMs e2 = lastNakMs e \<or> (\<exists>t. ev = Parse t \<and> t - lastNakMs e \<ge> 100 \<and> lastNakMs e2 = t))"
proof -
  let ?n = "(unat len - 4) div 2" and ?e1 = "e\<lparr>stats := (stats e)\<lparr>txFramesFromHost := txFramesFromHost (stats e) + 1\<rparr>\<rparr>"
  have e: "run_ok e" "tx_ok e" "pttWanted e = (txState e \<noteq> TX_IDLE)"
    using run_reach [OF assms(1,2)] assms(3) by (simp_all add: run_ok_def engine_ok_def ptt_ok_def)
  have p: "pttWanted (tx_key_up x)" if "pttWanted x = (txState x \<noteq> TX_IDLE)" for x using that by (simp add: tx_key_up_def ptt_defs)
  have pk: "pttWanted (tx_key_up ((tx_store f ?n ?e1)\<lparr>txEot := False, lastDataMs := now\<rparr>))" by (rule p) (simp add: e(3))
  have fit: "length (tx_queue e) + ?n < TX_BUF_SAMPLES \<Longrightarrow>
       tx_queue (handleSampData now f len e) = tx_queue e @ map (tx_value e f) [0..<?n] \<and> pttWanted (handleSampData now f len e) \<and>
       \<not> txEot (handleSampData now f len e) \<and> lastDataMs (handleSampData now f len e) = now \<and>
       txState (handleSampData now f len e) = (if txState e = TX_IDLE then TX_PRIME else txState e) \<and>
       lastNakMs (handleSampData now f len e) = lastNakMs e \<and> uart (handleSampData now f len e) = uart e"
    using sampData_cases(1) [OF e(2) assms(4), of now f] pk by auto
  have "tx_queue (tx_refuse now ?e1) = tx_queue e" by (rule tx_side_queue) simp_all
  then have "TX_BUF_SAMPLES \<le> length (tx_queue e) + ?n \<Longrightarrow>
       tx_queue (handleSampData now f len e) = tx_queue e \<and> txState (handleSampData now f len e) = txState e \<and>
       txEot (handleSampData now f len e) = txEot e \<and> txOverflow (stats (handleSampData now f len e)) = txOverflow (stats e) + 1 \<and>
       uart (handleSampData now f len e) = (if now - lastNakMs e \<ge> 100
         then snd (hw_uart_tx (uart e) [OMT_START, 5, OMT_NAK, OMT_SAMP_DATA, OMT_ERR_NO_SPACE] 5) else uart e) \<and>
       lastNakMs (handleSampData now f len e) = (if now - lastNakMs e \<ge> 100 then now else lastNakMs e)"
    using sampData_cases(2) [OF e(2) assms(4), of now f]
    by (simp add: tx_refuse_def Let_def sendNak_def ledPulse_def) (simp add: uart_send_def)
  then show ?thesis unfolding Let_def using fit step_refusals [OF _ e(1)] by blast
qed

lemma modem_sample_frame_queued_witness:
  "let e = housekeeping 1 (snd (engine_sample_tick 2048 (engine_start 0 0x418 ''Jan 01 2026''))) in
   tx_queue (handleSampData 2 [0x61, 8, 0x70, 100, 0x00, 0x01, 0xFF, 0xFF] 8 e) = tx_queue e @ [256, - 1]"
proof -
  let ?e = "housekeeping 1 (snd (engine_sample_tick 2048 (engine_start 0 0x418 ''Jan 01 2026'')))"
  have h: "\<not> halted ?e" and inv: "\<not> txInvert ?e" and q: "tx_queue ?e = []"
  proof -
    let ?s = "engine_start 0 0x418 ''Jan 01 2026''"
    have s: "txState ?s = TX_IDLE" "\<not> txInvert ?s" "\<not> halted ?s" "txHead ?s = 0" "txTail ?s = 0" by (simp_all add: engine_start_def engine_init_def ptt_defs power_on_def)
    have r: "txInvert (rx_tick 2048 x) = txInvert x" for x by (simp add: rx_tick_def rx_store_def rx_clip_def Let_def)
    have t: "snd (engine_sample_tick 2048 ?s) = rx_tick 2048 ?s" using s by (simp add: engine_sample_tick_def tick_sample_def tx_prime_def Let_def)
    show "\<not> halted ?e" "\<not> txInvert ?e" using s r by (simp_all add: t housekeeping_split Let_def ptt_defs)
    show "tx_queue ?e = []" using s by (simp add: t housekeeping_split Let_def ptt_defs tx_queue_def)
  qed
  have fs: "frame_sample [0x61, 8, 0x70, 100, 0x00, 0x01, 0xFF, 0xFF] 0 = 256" "frame_sample [0x61, 8, 0x70, 100, 0x00, 0x01, 0xFF, 0xFF] (Suc 0) = - 1" by code_simp+
  have g: "tx_gain 100 = 256" by code_simp
  have v: "map (tx_value ?e [0x61, 8, 0x70, 100, 0x00, 0x01, 0xFF, 0xFF]) [0..<2] = [256, - 1]"
    unfolding tx_value_def Let_def if_not_P [OF inv] by (simp add: fs g clamp16_def numeral_2_eq_2 upt_rec)
  show ?thesis
    using modem_sample_frame_queued [OF start_runs _ h, where len = 8 and f = "[0x61, 8, 0x70, 100, 0x00, 0x01, 0xFF, 0xFF]" and now = 2] v q
    unfolding Let_def TX_BUF_SAMPLES_def by simp
qed

subsection \<open>The queue over a run\<close>

text \<open>The housekeeping drops what is queued when the host has been silent too long.\<close>

definition host_silent :: "u32 \<Rightarrow> engine \<Rightarrow> bool" where
  "host_silent now e \<longleftrightarrow> txState e \<noteq> TX_IDLE \<and> now - lastDataMs e > TX_UNDERRUN_TIMEOUT_MS"

lemma housekeeping_tx_side:
  "tx_queue (housekeeping now e) = (if host_silent now e then [] else tx_queue e)"
  "txState (housekeeping now e) = (if host_silent now e then TX_IDLE else txState e)"
  "txEot (housekeeping now e) = txEot e" "stallAlign (housekeeping now e) = stallAlign e" "stallCount (housekeeping now e) = stallCount e"
  "lastDataMs (housekeeping now e) = lastDataMs e"
  by (simp_all add: housekeeping_split Let_def host_silent_def keyDown_def ptt_defs tx_queue_def)

text \<open>A run with the samples that were queued (less those a time-out dropped) and the samples that were played.\<close>

type_synonym audio_session = "engine \<times> int list \<times> int list"

fun heard_in :: "engine_event \<Rightarrow> engine \<Rightarrow> int list" where
  "heard_in (Sample adc) e = played adc e"
| "heard_in _ e = []"

definition queued_in :: "engine \<Rightarrow> engine \<Rightarrow> int list" where
  "queued_in e e' = drop (length (tx_queue e)) (tx_queue e')"

inductive audio_step :: "audio_session \<Rightarrow> engine_event \<Rightarrow> audio_session \<Rightarrow> bool" where
  "engine_step e ev e' \<Longrightarrow> ev = House now \<Longrightarrow> host_silent now e \<Longrightarrow> audio_step (e, queued, heard) ev (e', heard, heard)"
| "engine_step e ev e' \<Longrightarrow> \<forall>now. ev = House now \<longrightarrow> \<not> host_silent now e \<Longrightarrow>
     audio_step (e, queued, heard) ev (e', queued @ queued_in e e', heard @ heard_in ev e)"

definition audio_ok :: "audio_session \<Rightarrow> bool" where
  "audio_ok = (\<lambda>(e, queued, heard). run_ok e \<and> queued = heard @ tx_queue e)"

lemma step_queue:
  assumes "engine_step e ev e'" "run_ok e" "\<forall>now. ev = House now \<longrightarrow> \<not> host_silent now e"
  shows "\<exists>ys. heard_in ev e @ tx_queue e' = tx_queue e @ ys \<and> (ev = Sample adc \<longrightarrow> ys = [])"
  using assms
proof (induction rule: engine_step.induct)
  case (Sample adc e)
  then have "tx_ok e" by (simp add: run_ok_def engine_ok_def)
  then show ?case using tick_queue(1) [of e adc] by auto
next
  case (Parse e now)
  then have "grows e (snd (parse_round now e))" by (intro grow.round) (simp add: run_ok_def engine_live_def)
  then show ?case by (simp add: grows_def)
next
  case (House e now)
  then show ?case by (simp add: housekeeping_tx_side)
qed (simp_all add: tx_queue_def poll_uart_def rx_round_def sendTimingReport_def updateLeds_def Let_def split_def)

lemma audio_step_ok: "audio_step s ev s' \<Longrightarrow> audio_ok s \<Longrightarrow> audio_ok s'"
proof (induction rule: audio_step.induct)
  case (1 e ev e' now queued heard)
  then have "e' = housekeeping now e" by (simp add: engine_step_simps)
  then show ?case using 1 run_step [OF 1(1)] by (simp add: audio_ok_def housekeeping_tx_side)
next
  case (2 e ev e' queued heard)
  then have r: "run_ok e" "queued = heard @ tx_queue e" by (simp_all add: audio_ok_def)
  obtain ys where ys: "heard_in ev e @ tx_queue e' = tx_queue e @ ys" using step_queue [OF 2(1) r(1) 2(2)] by blast
  have "queued @ queued_in e e' = (heard @ heard_in ev e) @ tx_queue e'"
  proof (cases "\<exists>adc. ev = Sample adc")
    case True
    then obtain adc where ev: "ev = Sample adc" by blast
    then have "e' = snd (engine_sample_tick adc e)" using 2(1) by (simp add: engine_step_simps)
    moreover have "tx_ok e" using r(1) by (simp add: run_ok_def engine_ok_def)
    ultimately have "tx_queue e = played adc e @ tx_queue e'" using tick_queue(1) by simp
    then show ?thesis using r(2) by (simp add: queued_in_def ev)
  next
    case False
    then have "heard_in ev e = []" by (cases ev) auto
    then show ?thesis using r(2) ys by (simp add: queued_in_def)
  qed
  then show ?case using r run_step [OF 2(1)] by (simp add: audio_ok_def)
qed

text \<open>C29: in every run the samples that were played are, in order and without gaps, the samples that were queued: what was
  queued is what was played followed by what still waits, only a time-out drops anything, and each tick writes the sample it
  plays to the converter and mid scale when it plays none.\<close>

theorem modem_audio_fifo:
  assumes "steps audio_step (engine_start now chip date, [], []) events (e, queued, heard)" "length date < 60000"
  shows "queued = heard @ tx_queue e \<and> length (tx_queue e) < TX_BUF_SAMPLES \<and>
    (\<forall>adc. tx_queue e = played adc e @ tx_queue (snd (engine_sample_tick adc e)) \<and>
      fst (engine_sample_tick adc e) = dac_value (case played adc e of [] \<Rightarrow> 0 | s # _ \<Rightarrow> s))"
proof -
  have "tx_queue (engine_start now chip date) = []" by (simp add: engine_start_def engine_init_def ptt_defs tx_queue_def)
  then have "audio_ok (engine_start now chip date, [], [])" using run_start [OF assms(2)] by (simp add: audio_ok_def)
  then have a: "audio_ok (e, queued, heard)" using steps_invariant [where P = audio_ok, OF assms(1)] audio_step_ok by blast
  then have ok: "tx_ok e" by (simp add: audio_ok_def run_ok_def engine_ok_def)
  have "fst (engine_sample_tick adc e) = dac_value (case played adc e of [] \<Rightarrow> 0 | s # _ \<Rightarrow> s)" for adc
    unfolding tick_queue(2) [OF ok] by (simp add: list.case_eq_if)
  then show ?thesis using a tx_queue_short [OF ok] tick_queue(1) [OF ok] by (simp add: audio_ok_def TX_BUF_SAMPLES_def)
qed

lemma audio_runs: "steps engine_step e events e' \<Longrightarrow> \<exists>queued' heard'. steps audio_step (e, queued, heard) events (e', queued', heard')"
proof (induction arbitrary: queued heard rule: steps.induct)
  case (steps_Nil e)
  then show ?case using steps.steps_Nil [of audio_step] by blast
next
  case (steps_Cons e ev e1 events e')
  have "\<exists>q h. audio_step (e, queued, heard) ev (e1, q, h)" using audio_step.intros [OF steps_Cons.hyps(1)] by blast
  then show ?case using steps_Cons.IH steps.steps_Cons [of audio_step] by blast
qed

lemma modem_audio_fifo_witness:
  "\<exists>queued heard. queued = heard @ tx_queue (housekeeping 1 (snd (engine_sample_tick 2048 (engine_start 0 0x418 ''Jan 01 2026''))))
     \<and> steps audio_step (engine_start 0 0x418 ''Jan 01 2026'', [], []) [Sample 2048, House 1]
         (housekeeping 1 (snd (engine_sample_tick 2048 (engine_start 0 0x418 ''Jan 01 2026''))), queued, heard)"
proof -
  obtain queued heard where r: "steps audio_step (engine_start 0 0x418 ''Jan 01 2026'', [], []) [Sample 2048, House 1]
      (housekeeping 1 (snd (engine_sample_tick 2048 (engine_start 0 0x418 ''Jan 01 2026''))), queued, heard)"
    using audio_runs [OF start_runs] by blast
  then show ?thesis using modem_audio_fifo [OF r] by auto
qed

subsection \<open>The end of a transmission\<close>

primrec ticks :: "u16 list \<Rightarrow> engine \<Rightarrow> u16 list \<times> engine" where
  "ticks [] e = ([], e)"
| "ticks (adc # adcs) e = (let (w, e) = engine_sample_tick adc e; (ws, e) = ticks adcs e in (w # ws, e))"

lemma tick_eot:
  assumes "tx_ok e" "txEot e" "txState e \<noteq> TX_IDLE"
  shows "tx_queue e \<noteq> [] \<Longrightarrow> played adc e = [hd (tx_queue e)] \<and> txState (snd (engine_sample_tick adc e)) \<noteq> TX_IDLE \<and> txEot (snd (engine_sample_tick adc e))"
    and "tx_queue e = [] \<Longrightarrow> played adc e = [] \<and> txState (snd (engine_sample_tick adc e)) = TX_IDLE \<and> \<not> pttWanted (snd (engine_sample_tick adc e))"
proof -
  let ?e = "tx_prime (rx_tick adc e)"
  have s: "txState ?e = TX_PLAY" using assms(2,3) by (cases "txState e") (simp_all add: tx_prime_def)
  have q: "tx_queue ?e = tx_queue e" "tx_ok ?e" using assms(1) by (simp_all add: tx_queue_def tx_ok_def)
  have t: "snd (engine_sample_tick adc e) = snd (tx_play (rxWrCount e * of_nat SAMPLES_PER_FRAME + ucast (rxIdx e)) ?e)"
    using s by (simp add: engine_sample_tick_def tick_sample_def Let_def split_def)
  show "played adc e = [hd (tx_queue e)] \<and> txState (snd (engine_sample_tick adc e)) \<noteq> TX_IDLE \<and> txEot (snd (engine_sample_tick adc e))" if n: "tx_queue e \<noteq> []"
  proof -
    have c: "txCount ?e \<noteq> 0" using txCount_0 [OF q(2)] q(1) n by simp
    then have "played adc e \<noteq> []" using s by (simp add: played_def)
    then obtain a where "played adc e = [a]" by (auto simp: played_def Let_def split: if_splits)
    then have "played adc e = [hd (tx_queue e)]" using tick_queue(1) [OF assms(1), of adc] by (metis append_Cons list.sel(1))
    then show ?thesis using c s assms(2) by (simp add: t tx_play_def tx_take_def Let_def)
  qed
  show "played adc e = [] \<and> txState (snd (engine_sample_tick adc e)) = TX_IDLE \<and> \<not> pttWanted (snd (engine_sample_tick adc e))" if n: "tx_queue e = []"
  proof -
    have c: "txCount ?e = 0" using txCount_0 [OF q(2)] q(1) n by simp
    then show ?thesis using assms(2) by (simp add: t tx_play_def played_def Let_def ptt_defs)
  qed
qed

lemma ticks_eot:
  "tx_ok e \<Longrightarrow> txEot e \<Longrightarrow> txState e \<noteq> TX_IDLE \<Longrightarrow> length adcs = length (tx_queue e) + 1 \<Longrightarrow>
   fst (ticks adcs e) = map dac_value (tx_queue e) @ [dac_value 0] \<and>
   txState (snd (ticks adcs e)) = TX_IDLE \<and> \<not> pttWanted (snd (ticks adcs e)) \<and> tx_queue (snd (ticks adcs e)) = []"
proof (induction "tx_queue e" arbitrary: e adcs)
  case Nil
  then obtain adc where "adcs = [adc]" by (auto simp: length_Suc_conv)
  then show ?case
    using tick_eot(2) [OF Nil.prems(1-3) Nil.hyps [symmetric], of adc] tick_queue(1,2) [OF Nil.prems(1), of adc] Nil.hyps
    by (simp add: split_def Let_def)
next
  case (Cons s ss)
  then obtain adc rest where a: "adcs = adc # rest" by (cases adcs) auto
  let ?e = "snd (engine_sample_tick adc e)"
  have n: "tx_queue e \<noteq> []" "tx_queue e = s # ss" using Cons.hyps(2) by auto
  note p = tick_eot(1) [OF Cons.prems(1-3) n(1), of adc]
  have q: "ss = tx_queue ?e" "fst (engine_sample_tick adc e) = dac_value s" "tx_ok ?e"
    using tick_queue [OF Cons.prems(1), of adc] p n by simp_all
  have "length rest = length (tx_queue ?e) + 1" using Cons.prems(4) a n(2) q(1) by simp
  then show ?case using Cons.hyps(1) [OF q(1,3) _ _, of rest] p q n(2) a by (simp add: split_def Let_def)
qed

text \<open>C31: after the host has ended a transmission, one tick more than samples wait ends it: those ticks play exactly the
  samples that wait, then mid scale, and leave the transmitter idle with the push to talk output off.\<close>

theorem modem_eot_drains:
  assumes "steps engine_step (engine_start now chip date) events e" "length date < 60000" "engine_is_keyed e"
    and "length adcs = length (tx_queue e) + 1"
  shows "let e' = snd (ticks adcs (requestEot e)) in
    fst (ticks adcs (requestEot e)) = map dac_value (tx_queue e) @ [dac_value 0] \<and>
    \<not> engine_is_keyed e' \<and> \<not> pttWanted e' \<and> tx_queue e' = []"
proof -
  have "tx_ok e" using run_reach [OF assms(1,2)] by (simp add: run_ok_def engine_ok_def)
  then have "tx_ok (requestEot e)" by (simp add: tx_view_ok [of "requestEot e" e])
  moreover have q: "tx_queue (requestEot e) = tx_queue e" by (rule tx_side_queue) (simp_all add: requestEot_def)
  moreover have "txEot (requestEot e)" "txState (requestEot e) \<noteq> TX_IDLE" using assms(3) by (simp_all add: requestEot_def engine_is_keyed_def)
  ultimately show ?thesis using ticks_eot [of "requestEot e" adcs] assms(4) by (simp add: Let_def engine_is_keyed_def)
qed

subsection \<open>A host that falls silent\<close>

lemma rx_round_tx_side [simp]:
  "txState (snd (rx_round now e)) = txState e" "lastDataMs (snd (rx_round now e)) = lastDataMs e"
  by (simp_all add: rx_round_def Let_def split_def)

lemma sendRxFrames_tx_side [simp]: "txState (sendRxFrames now e) = txState e" "lastDataMs (sendRxFrames now e) = lastDataMs e"
proof (induction now e rule: sendRxFrames.induct)
  case (1 now e)
  obtain more e' where r: "rx_round now e = (more, e')" by force
  have k: "txState e' = txState e" "lastDataMs e' = lastDataMs e" using rx_round_tx_side [of now e] r by simp_all
  have s: "sendRxFrames now e = (if rxWrCount e - rxRdCount e \<noteq> 0 then if more then sendRxFrames now e' else e' else e)"
    using r by (subst sendRxFrames.simps) simp
  {
    case 1
    then show ?case using k s "1.IH"(1) [OF _ refl r [symmetric]] by simp
  next
    case 2
    then show ?case using k s "1.IH"(2) [OF _ refl r [symmetric]] by simp
  }
qed

lemma late_steps_tx_side [simp]:
  "txState (sendTimingReport e) = txState e" "lastDataMs (sendTimingReport e) = lastDataMs e"
  "txState (updateLeds now e) = txState e" "lastDataMs (updateLeds now e) = lastDataMs e"
  "txState (poll_uart e) = txState e" "lastDataMs (poll_uart e) = lastDataMs e"
  by (simp_all add: sendTimingReport_def updateLeds_def poll_uart_def Let_def split_def)

lemma poll_timeout:
  assumes "\<not> halted (engine_poll now e)"
  shows "engine_is_keyed (engine_poll now e) \<Longrightarrow> now - lastDataMs (engine_poll now e) \<le> TX_UNDERRUN_TIMEOUT_MS"
proof -
  let ?p = "parseUart now (poll_uart e)"
  have "\<not> halted e" "\<not> halted ?p" using assms by (auto simp: engine_poll_def Let_def split: if_splits)
  then have "engine_poll now e = poll_uart (updateLeds now (housekeeping now (sendTimingReport (sendRxFrames now ?p))))"
    by (simp add: engine_poll_def Let_def)
  then show "engine_is_keyed (engine_poll now e) \<Longrightarrow> ?thesis"
    by (auto simp: engine_is_keyed_def housekeeping_tx_side host_silent_def not_less split: if_splits)
qed

lemma poll_without_bytes:
  assumes "hw_uart_rx_available (uart e) = 0"
  shows "lastDataMs (engine_poll now e) = lastDataMs e" "halted (engine_poll now e) = halted e"
proof -
  have "rx_side (poll_uart e) = rx_side e" by (simp add: rx_side_def poll_uart_def hw_uart_poll_def Let_def)
  then have "rx_avail (poll_uart e) = rx_avail e" by (rule rx_avail_rx_side)
  then have "hw_uart_rx_available (uart (poll_uart e)) = 0" using assms by (simp add: rx_avail_def unat_eq_0)
  then have "parseUart now (poll_uart e) = poll_uart e" by (subst parseUart.simps) simp
  moreover have "\<not> halted e \<Longrightarrow> \<not> halted (sendRxFrames now (poll_uart e))" using sendRxFrames_runs [of "poll_uart e" now] by auto
  ultimately show "lastDataMs (engine_poll now e) = lastDataMs e" "halted (engine_poll now e) = halted e"
    by (auto simp: engine_poll_def Let_def housekeeping_tx_side)
qed

text \<open>C32: after every round of the main loop a transmission that goes on has had a sample frame within the last 1500 ms; so when
  the host sends nothing more, the first round later than that ends the transmission and releases push to talk.\<close>

theorem modem_host_silence_unkeys:
  assumes "steps engine_step (engine_start now0 chip date) events e" "length date < 60000" "\<not> halted e"
  shows "(engine_is_keyed (engine_poll now e) \<and> \<not> halted (engine_poll now e) \<longrightarrow> now - lastDataMs (engine_poll now e) \<le> 1500) \<and>
    (hw_uart_rx_available (uart e) = 0 \<and> now - lastDataMs e > 1500 \<longrightarrow>
      \<not> engine_is_keyed (engine_poll now e) \<and> \<not> pttWanted (engine_poll now e))"
proof -
  obtain more where "steps engine_step e more (engine_poll now e)" using engine_poll_runs by blast
  then have p: "ptt_ok (engine_poll now e)" using run_reach [OF steps_append [OF assms(1)] assms(2)] by (simp add: run_ok_def engine_ok_def)
  have "\<not> engine_is_keyed (engine_poll now e)" if "hw_uart_rx_available (uart e) = 0" "now - lastDataMs e > 1500"
    using poll_without_bytes [OF that(1), of now] poll_timeout [of now e] that(2) assms(3) by (auto simp: TX_UNDERRUN_TIMEOUT_MS_def)
  then show ?thesis
    using poll_timeout [of now e] p poll_without_bytes(2) [of e now] assms(3)
    by (auto simp: TX_UNDERRUN_TIMEOUT_MS_def ptt_ok_def engine_is_keyed_def)
qed

subsection \<open>The gap after an underrun\<close>

text \<open>A run with the number of ticks since a sample was last played.\<close>

inductive gap_step :: "engine \<times> nat \<Rightarrow> engine_event \<Rightarrow> engine \<times> nat \<Rightarrow> bool" where
  "engine_step e ev e' \<Longrightarrow> gap_step (e, gap) ev (e', case ev of Sample adc \<Rightarrow> if played adc e = [] then gap + 1 else 0 | _ \<Rightarrow> gap)"

definition gap_ok :: "engine \<times> nat \<Rightarrow> bool" where
  "gap_ok = (\<lambda>(e, gap). run_ok e \<and> (txState e = TX_PLAY \<longrightarrow> gap = 0) \<and> (txState e = TX_PRIME \<and> stallAlign e \<longrightarrow> stallCount e = of_nat gap))"

lemma tick_stall:
  assumes "tx_ok e"
  shows "txState (snd (engine_sample_tick adc e)) = TX_PLAY \<Longrightarrow> played adc e \<noteq> []"
    and "txState (snd (engine_sample_tick adc e)) = TX_PRIME \<Longrightarrow> stallAlign (snd (engine_sample_tick adc e)) \<Longrightarrow>
      played adc e = [] \<and> (txState e = TX_PRIME \<and> stallAlign e \<and> stallCount (snd (engine_sample_tick adc e)) = stallCount e + 1 \<or>
        txState e = TX_PLAY \<and> stallCount (snd (engine_sample_tick adc e)) = 1)"
proof -
  let ?e = "tx_prime (rx_tick adc e)"
  let ?p = "rxWrCount e * of_nat SAMPLES_PER_FRAME + ucast (rxIdx e)"
  have t: "snd (engine_sample_tick adc e) = (if txState ?e = TX_PLAY then snd (tx_play ?p ?e) else ?e)"
    by (simp add: engine_sample_tick_def tick_sample_def Let_def split_def)
  have empty: "txCount ?e = 0 \<Longrightarrow> txState ?e = TX_PLAY \<Longrightarrow> txState e = TX_PLAY \<or> txEot ?e"
    using txCount_def by (auto simp: tx_prime_def TX_PRIME_SAMPLES_def SAMPLES_PER_FRAME_def txCount_def split: if_splits)
  show "txState (snd (engine_sample_tick adc e)) = TX_PLAY \<Longrightarrow> played adc e \<noteq> []"
    unfolding t by (auto simp: tx_play_def played_def Let_def ptt_defs split: if_splits)
  show "txState (snd (engine_sample_tick adc e)) = TX_PRIME \<Longrightarrow> stallAlign (snd (engine_sample_tick adc e)) \<Longrightarrow>
      played adc e = [] \<and> (txState e = TX_PRIME \<and> stallAlign e \<and> stallCount (snd (engine_sample_tick adc e)) = stallCount e + 1 \<or>
        txState e = TX_PLAY \<and> stallCount (snd (engine_sample_tick adc e)) = 1)"
  proof (cases "txState ?e = TX_PLAY")
    case True
    assume "txState (snd (engine_sample_tick adc e)) = TX_PRIME"
    then have s: "txState (snd (tx_play ?p ?e)) = TX_PRIME" using True t by simp
    then have c: "txCount ?e = 0" "\<not> txEot ?e" using True by (auto simp: tx_play_def tx_take_def Let_def ptt_defs split: if_splits)
    then show ?thesis using empty [OF c(1) True] True t by (simp add: tx_play_def played_def Let_def)
  next
    case False
    assume "txState (snd (engine_sample_tick adc e)) = TX_PRIME" "stallAlign (snd (engine_sample_tick adc e))"
    then have "txState ?e = TX_PRIME" "stallAlign ?e" using False t by simp_all
    then show ?thesis using False t by (auto simp: tx_prime_def played_def Let_def split: if_splits)
  qed
qed

lemma gap_step_ok: "gap_step s ev s' \<Longrightarrow> gap_ok s \<Longrightarrow> gap_ok s'"
proof (induction rule: gap_step.induct)
  case (1 e ev e' gap)
  have r: "run_ok e" "txState e = TX_PLAY \<longrightarrow> gap = 0" "txState e = TX_PRIME \<and> stallAlign e \<longrightarrow> stallCount e = of_nat gap" "run_ok e'"
    using 1 run_step by (simp_all add: gap_ok_def)
  have ok: "tx_ok e" using r(1) by (simp add: run_ok_def engine_ok_def)
  show ?case
  proof (cases "\<exists>adc. ev = Sample adc")
    case True
    then obtain adc where ev: "ev = Sample adc" by blast
    then have e': "e' = snd (engine_sample_tick adc e)" using 1 by (simp add: engine_step_simps)
    then have "stallCount e' = of_nat (gap + 1) \<and> played adc e = []" if "txState e' = TX_PRIME" "stallAlign e'"
      using tick_stall(2) [OF ok, of adc] r(2,3) that by auto
    then show ?thesis using tick_stall(1) [OF ok, of adc] r(4) e' ev by (auto simp: gap_ok_def)
  next
    case False
    have "keys e e' \<or> txState e' = TX_IDLE"
    proof -
      have "keys e (snd (parse_round now e))" if "\<not> halted e" for now
        using that r(1) by (intro key.round) (simp add: run_ok_def engine_live_def)
      then show ?thesis using 1(1) False
        by (elim engine_step.cases)
          (auto simp: keys_def housekeeping_tx_side poll_uart_def rx_round_def sendTimingReport_def updateLeds_def Let_def split_def)
    qed
    moreover have "(case ev of Sample adc \<Rightarrow> if played adc e = [] then gap + 1 else 0 | _ \<Rightarrow> gap) = gap" using False by (cases ev) auto
    ultimately show ?thesis using r by (auto simp: gap_ok_def keys_def)
  qed
qed

lemma gap_start: "length date < 60000 \<Longrightarrow> gap_ok (engine_start now chip date, 0)"
proof -
  have "txState (engine_start now chip date) = TX_IDLE" by (simp add: engine_start_def engine_init_def ptt_defs)
  then show "length date < 60000 \<Longrightarrow> ?thesis" using run_start by (simp add: gap_ok_def)
qed

text \<open>C33: power on is a state in which the stall counter is right (\<open>gap_ok\<close>); from every such state, when the audio comes back
  within a transmission after an underrun, the silence on the air has lasted a whole number of DMR cycles of 1440 samples,
  unless the host has ended the transmission; so the timeslots keep their phase.\<close>

theorem modem_stall_is_whole_cycles:
  assumes "gap_ok (e0, gap0)" "steps gap_step (e0, gap0) events (e, gap)"
    and "txState e = TX_PRIME" "stallAlign e" "played adc e \<noteq> []" "gap < 2 ^ 32"
  shows "(txEot e \<or> TX_CYCLE_SAMPLES dvd gap) \<and> gap_ok (engine_start 0 chip ''Jan 01 2026'', 0)"
proof -
  have "gap_ok (e, gap)" using steps_invariant [where P = gap_ok, OF assms(2,1)] gap_step_ok by blast
  then have s: "stallCount e = of_nat gap" using assms(3,4) by (simp add: gap_ok_def)
  have "txState (tx_prime (rx_tick adc e)) = TX_PLAY" using assms(5) by (auto simp: played_def Let_def split: if_splits)
  then have "txEot e \<or> stallCount e mod of_nat TX_CYCLE_SAMPLES = 0" using assms(3,4) by (auto simp: tx_prime_def split: if_splits)
  moreover have "unat (stallCount e mod of_nat TX_CYCLE_SAMPLES) = gap mod 1440"
    unfolding s TX_CYCLE_SAMPLES_def unat_mod using assms(6) by (simp add: unat_of_nat)
  ultimately have "txEot e \<or> gap mod 1440 = 0" by (metis unat_0)
  then show ?thesis using gap_start by (simp add: TX_CYCLE_SAMPLES_def dvd_eq_mod_eq_0)
qed

text \<open>A stalled transmission with 960 samples waiting, after 1440 silent ticks.\<close>

definition stalled_engine :: engine where
  "stalled_engine = (engine_start 0 0x418 ''Jan 01 2026'')\<lparr>txHead := 960, txState := TX_PRIME, stallAlign := True, stallCount := 1440,
     pttWanted := True, pttPin := True\<rparr>"

lemma modem_stall_is_whole_cycles_witness:
  "played 2048 stalled_engine = [0] \<and> \<not> txEot stalled_engine \<and> TX_CYCLE_SAMPLES dvd 1440"
proof -
  let ?e = stalled_engine
  have s: "engine_ok (engine_start 0 0x418 ''Jan 01 2026'')" using run_start [of "''Jan 01 2026''"] by (simp add: run_ok_def)
  have i: "\<not> pttInvert (engine_start 0 0x418 ''Jan 01 2026'')" "\<not> halted (engine_start 0 0x418 ''Jan 01 2026'')"
    "txTail (engine_start 0 0x418 ''Jan 01 2026'') = 0" "txEot (engine_start 0 0x418 ''Jan 01 2026'') = False"
    "txBuf (engine_start 0 0x418 ''Jan 01 2026'') = replicate 8192 0"
    by (simp_all add: engine_start_def engine_init_def ptt_defs power_on_def TX_BUF_SAMPLES_def)
  have ok: "engine_ok ?e" using s i by (simp add: stalled_engine_def engine_parts)
  have d: "build_date ?e = ''Jan 01 2026''" by (simp add: stalled_engine_def engine_start_def engine_init_def power_on_def)
  have g: "gap_ok (?e, 1440)" using ok d by (simp add: gap_ok_def run_ok_def) (simp add: stalled_engine_def)
  have c: "txCount ?e = 960" using i by (simp add: txCount_def stalled_engine_def tx_mask mask_eq_exp_minus_1)
  have m: "(1440 :: u32) mod 1440 = 0" by simp
  have p: "txState (tx_prime (rx_tick 2048 ?e)) = TX_PLAY"
    using c by (simp add: tx_prime_def txCount_def TX_PRIME_SAMPLES_def SAMPLES_PER_FRAME_def TX_CYCLE_SAMPLES_def) (simp add: stalled_engine_def)
  have "played 2048 ?e = [0]" using p c i by (simp add: played_def txCount_def Let_def) (simp add: stalled_engine_def)
  moreover have "\<not> txEot ?e" "txState ?e = TX_PRIME" "stallAlign ?e" using i by (simp_all add: stalled_engine_def)
  ultimately show ?thesis using modem_stall_is_whole_cycles [OF g steps_Nil, of 2048] by simp
qed

end
