(* ===== verification/ModemParser.thy ===== *)
theory ModemParser
  imports ModemAudio
begin

section \<open>The modem firmware: the host's frames\<close>

text \<open>
  The parser against its specification on an intact stream: every frame is handled, in order and once, and
  only a sample frame that is the last thing received is held back, for at most 8 ms.  After damage the
  skipped bytes come back as silence.
\<close>

subsection \<open>Frames\<close>

definition host_frame_ok :: "bytes \<Rightarrow> bool" where
  "host_frame_ok f \<longleftrightarrow> 3 \<le> length f \<and> length f \<le> 255 \<and> f ! 0 = OMT_START \<and> f ! 1 = of_nat (length f) \<and> knownType (f ! 2)"

definition samp_frame :: "bytes \<Rightarrow> bool" where
  "samp_frame f \<longleftrightarrow> length f = SAMP_FRAME_BYTES \<and> f ! 2 AND 0xF0 = OMT_SAMP_DATA"

definition reboots :: "bytes \<Rightarrow> bool" where
  "reboots f \<longleftrightarrow> f ! 2 AND 0xF0 = OMT_GET_FW_VERSION \<and> f ! 2 AND 0x0F = 1 \<and> boot_request f (of_nat (length f))"

text \<open>Handling one frame, and what the parser makes of a list of intact frames.\<close>

definition deliver :: "u32 \<Rightarrow> bytes \<Rightarrow> engine \<Rightarrow> engine" where
  "deliver now f e = handleFrame now f (of_nat (length f)) (rx_consume (of_nat (length f)) (e\<lparr>holding := False\<rparr>))"

definition hold_last :: "u32 \<Rightarrow> bytes \<Rightarrow> engine \<Rightarrow> engine" where
  "hold_last now f e =
     (let e = (if holding e then e else e\<lparr>holding := True, holdMs := now\<rparr>)
      in if now - holdMs e < PARSE_HOLD_MS then e else deliver now f e)"

fun delivered :: "u32 \<Rightarrow> bytes list \<Rightarrow> engine \<Rightarrow> engine" where
  "delivered now [] e = e"
| "delivered now [f] e = (if samp_frame f then hold_last now f e else deliver now f e)"
| "delivered now (f # g # fs) e = delivered now (g # fs) (deliver now f e)"

subsection \<open>One round\<close>

lemma u8_of_nat [simp]: "n \<le> 255 \<Longrightarrow> unat (of_nat n :: u8) = n"
  by (simp add: unat_of_nat)

lemma u16_u8_of_nat [simp]: "n \<le> 255 \<Longrightarrow> (ucast (of_nat n :: u8) :: u16) = of_nat n"
  by (simp add: word_unat_eq_iff)

lemma parse_intact:
  assumes u: "uart_ok (uart e)" and n: "\<not> resync e" and r: "rx_bytes (uart e) = f @ rest" and f: "host_frame_ok f"
    and s: "samp_frame f \<Longrightarrow> rest \<noteq> [] \<Longrightarrow> hd rest = OMT_START"
  shows "parse_round now e =
    (if samp_frame f \<and> rest = [] \<and> (holding e \<longrightarrow> now - holdMs e < PARSE_HOLD_MS)
     then (False, if holding e then e else e\<lparr>holding := True, holdMs := now\<rparr>) else (True, deliver now f e))"
proof -
  let ?L = "length f" and ?u = "uart e"
  have L: "3 \<le> ?L" "?L \<le> 255" "f \<noteq> []" using f by (auto simp: host_frame_ok_def)
  have len: "length (rx_bytes ?u) = ?L + length rest" using r by simp
  have av: "unat (hw_uart_rx_available ?u) = ?L + length rest" using rx_available(1) [OF u] len by simp
  have p: "hw_uart_rx_peek ?u off = (f @ rest) ! unat off" if "unat off < ?L + length rest" for off
    using rx_peek [of "unat off" ?u off] that r len by simp
  have p0: "hw_uart_rx_peek ?u 0 = OMT_START" using p [of 0] L f by (simp add: nth_append host_frame_ok_def)
  have p1: "hw_uart_rx_peek ?u 1 = of_nat ?L" using p [of 1] L f by (simp add: nth_append host_frame_ok_def)
  have p2: "hw_uart_rx_peek ?u 2 = f ! 2" using p [of 2] L f by (simp add: nth_append host_frame_ok_def)
  have a3: "\<not> hw_uart_rx_available ?u < 3" using av L by (simp add: word_less_nat_alt)
  have l3: "\<not> (of_nat ?L :: u8) < 3" using L by (simp add: word_less_nat_alt)
  have al: "\<not> hw_uart_rx_available ?u < ucast (of_nat ?L :: u8)" using av L by (simp add: word_less_nat_alt)
  have sm: "((of_nat ?L :: u8) = of_nat SAMP_FRAME_BYTES \<and> f ! 2 AND 0xF0 = OMT_SAMP_DATA) = samp_frame f"
    using L by (auto simp: samp_frame_def SAMP_FRAME_BYTES_def SAMPLES_PER_FRAME_def word_unat_eq_iff)
  have "map (\<lambda>i. hw_uart_rx_peek ?u (of_nat i)) [0..<?L] = f" using take_peeks [OF u, of ?L] r by simp
  then have fr: "map (\<lambda>i. hw_uart_rx_peek (uart (x\<lparr>holding := b\<rparr>)) (of_nat i)) [0..<unat (of_nat ?L :: u8)] = f" if "uart x = ?u" for x b
    using that L by simp
  have tk: "take_frame now (of_nat ?L) x = deliver now f x" if "uart x = ?u" for x
    unfolding take_frame_def Let_def fr [OF that] deliver_def using L by simp
  have eq: "hw_uart_rx_available ?u = ucast (of_nat ?L :: u8) \<longleftrightarrow> rest = []" using av L by (simp add: word_unat_eq_iff)
  have nx: "nextIsStart (ucast (of_nat ?L :: u8)) e = (True, e)" if "rest \<noteq> []" "hd rest = OMT_START"
  proof -
    have "hw_uart_rx_peek ?u (of_nat ?L) = rest ! 0" using p [of "of_nat ?L"] that(1) L by (simp add: nth_append)
    then show ?thesis using that L by (simp add: nextIsStart_def numeral_eq_Suc hd_conv_nth)
  qed
  have h: "deliver now f (e\<lparr>holding := True, holdMs := now\<rparr>) = deliver now f (e\<lparr>holdMs := now\<rparr>)" by (simp add: deliver_def)
  have body: "parse_round now e = parse_body now (hw_uart_rx_available ?u) (of_nat ?L) (f ! 2) e"
    unfolding parse_round_def Let_def p0 p1 p2 using a3 l3 f n by (simp add: host_frame_ok_def)
  show ?thesis
  proof (cases "samp_frame f")
    case False
    then show ?thesis unfolding body parse_body_def Let_def sm using n al tk [of e] by simp
  next
    case True
    then have b: "parse_round now e = parse_samp now (hw_uart_rx_available ?u) (of_nat ?L) e"
      unfolding body parse_body_def Let_def sm using n al by simp
    show ?thesis
    proof (cases "rest = []")
      case False
      then show ?thesis using True nx [OF False s [OF True False]] tk [of e] n eq unfolding b parse_samp_def Let_def by simp
    next
      case r: True
      then show ?thesis using True h tk [of e] tk [of "e\<lparr>holding := True, holdMs := now\<rparr>"] eq
        unfolding b parse_samp_def Let_def by (simp add: PARSE_HOLD_MS_def)
    qed
  qed
qed

subsection \<open>A stream of intact frames\<close>

definition resync_view :: "engine \<Rightarrow> bool \<times> u16 \<times> bool" where
  "resync_view e = (resync e, resyncBytes e, resyncFrame e)"

lemma resync_kept [simp]:
  "resync_view (e\<lparr>lastHostMs := x\<rparr>) = resync_view e" "resync_view (e\<lparr>configured := b\<rparr>) = resync_view e" "resync_view (e\<lparr>stats := st\<rparr>) = resync_view e"
  "resync_view (e\<lparr>txEot := b\<rparr>) = resync_view e" "resync_view (e\<lparr>lastDataMs := x\<rparr>) = resync_view e" "resync_view (e\<lparr>holding := b\<rparr>) = resync_view e"
  "resync_view (ledPulse now n ms e) = resync_view e" "resync_view (uart_send f e) = resync_view e" "resync_view (requestEot e) = resync_view e" "resync_view (set_levels f e) = resync_view e"
  "resync_view (rx_consume w e) = resync_view e" "resync_view (hw_ptt b e) = resync_view e" "resync_view (hw_enter_bootloader e) = resync_view e" "resync_view (tx_key_up e) = resync_view e"
  "resync_view (tx_store f n e) = resync_view e" "resync_view (tx_refuse now e) = resync_view e"
  by (simp_all add: resync_view_def ledPulse_def uart_send_def requestEot_def set_levels_def rx_consume_def ptt_defs hw_enter_bootloader_def tx_key_up_def tx_store_def
      tx_refuse_def Let_def split_def sendNak_def)

lemma resync_send [simp]:
  "resync_view (sendSmall y e) = resync_view e" "resync_view (sendAck e) = resync_view e" "resync_view (sendNak y z e) = resync_view e" "resync_view (sendVersion e) = resync_view e"
  "resync_view (handleSetConfig f len e) = resync_view e" "resync_view (handleSampData now f len e) = resync_view e"
  by (simp_all add: send_unfold handleSetConfig_def handleSampData_def Let_def)

lemma resync_handleFrame [simp]: "resync_view (handleFrame now f len e) = resync_view e"
  by (simp add: handleFrame_def Let_def)

lemma halted_send [simp]:
  "halted (sendSmall y e) = halted e" "halted (sendNak y z e) = halted e" "halted (sendVersion e) = halted e"
  "halted (set_levels f e) = halted e" "halted (handleSetConfig f len e) = halted e"
  by (simp_all add: send_unfold set_levels_def handleSetConfig_def ptt_defs Let_def)

lemma halted_handleFrame: "\<not> reboots f \<Longrightarrow> halted (handleFrame now f (of_nat (length f)) e) = halted e"
  by (auto simp: handleFrame_def Let_def reboots_def)

lemma deliver_keeps:
  assumes e: "engine_live e" and r: "rx_bytes (uart e) = f @ rest" and f: "host_frame_ok f" "\<not> reboots f"
  shows "engine_live (deliver now f e)" "rx_bytes (uart (deliver now f e)) = rest" "resync_view (deliver now f e) = resync_view e" "resync (deliver now f e) = resync e"
proof -
  have L: "length f \<le> 255" using f by (simp add: host_frame_ok_def)
  have u: "uart_ok (uart e)" using e by (simp add: engine_live_def engine_ok_def)
  have le: "unat (of_nat (length f) :: u16) \<le> length (rx_bytes (uart e))" using r L by simp
  let ?c = "rx_consume (of_nat (length f)) (e\<lparr>holding := False\<rparr>)"
  have a: "rx_avail (e\<lparr>holding := False\<rparr>) = length (rx_bytes (uart e))" using rx_available(1) [OF u] by (simp add: rx_avail_def)
  have "engine_live ?c" using e le a by (intro live_rx_consume) (simp_all add: engine_live_def)
  then show "engine_live (deliver now f e)"
    using ok_handleFrame [of ?c now f "of_nat (length f)"] halted_handleFrame [OF f(2), of now ?c]
    by (simp add: engine_live_def deliver_def)
  have side: "rx_side x = rx_side y \<Longrightarrow> rx_bytes (uart x) = rx_bytes (uart y)" for x y :: engine
    by (simp add: rx_side_def rx_bytes_def rx_pos_def)
  have "rx_bytes (uart (deliver now f e)) = rx_bytes (uart ?c)" by (rule side) (simp add: deliver_def)
  then show "rx_bytes (uart (deliver now f e)) = rest"
    using rx_consume(1) [OF u le] r L by (simp add: rx_consume_def)
  show "resync_view (deliver now f e) = resync_view e" by (simp add: deliver_def)
  then show "resync (deliver now f e) = resync e" by (simp add: resync_view_def)
qed

lemma parseUart_round:
  assumes "engine_live e" "rx_bytes (uart e) \<noteq> []"
  shows "parseUart now e = (if fst (parse_round now e) then parseUart now (snd (parse_round now e)) else snd (parse_round now e))"
proof -
  have u: "uart_ok (uart e)" using assms(1) by (simp add: engine_live_def engine_ok_def)
  have "unat (hw_uart_rx_available (uart e)) \<noteq> 0" using rx_available(1) [OF u] assms(2) by simp
  then have "hw_uart_rx_available (uart e) \<ge> 1" by (simp add: word_le_nat_alt)
  then show ?thesis using assms(1) by (subst parseUart.simps) (simp add: engine_live_def split_def)
qed

lemma parseUart_empty:
  assumes "engine_live e" "rx_bytes (uart e) = []"
  shows "parseUart now e = e"
proof -
  have u: "uart_ok (uart e)" using assms(1) by (simp add: engine_live_def engine_ok_def)
  have "\<not> hw_uart_rx_available (uart e) \<ge> 1" using rx_available(1) [OF u] assms(2) by (simp add: word_le_nat_alt)
  then show ?thesis by (subst parseUart.simps) simp
qed

lemma parseUart_delivers:
  assumes "engine_live e" "\<not> resync e" "rx_bytes (uart e) = concat fs" "\<forall>f\<in>set fs. host_frame_ok f \<and> \<not> reboots f"
  shows "parseUart now e = delivered now fs e"
  using assms
proof (induction now fs e rule: delivered.induct)
  case (1 now e)
  then show ?case using parseUart_empty by simp
next
  case (2 now f e)
  then have r: "rx_bytes (uart e) = f @ []" and f: "host_frame_ok f" "\<not> reboots f" by simp_all
  have u: "uart_ok (uart e)" using 2(1) by (simp add: engine_live_def engine_ok_def)
  have ne: "rx_bytes (uart e) \<noteq> []" using r f by (auto simp: host_frame_ok_def)
  have d: "parseUart now (deliver now f e) = deliver now f e"
    using deliver_keeps [OF 2(1) r f] parseUart_empty by simp
  show ?case
    unfolding parseUart_round [OF 2(1) ne] parse_intact [where e = e and f = f and rest = "[]" and now = now, OF u 2(2) r f(1), simplified]
    using d by (simp add: hold_last_def PARSE_HOLD_MS_def)
next
  case (3 now f g fs e)
  then have r: "rx_bytes (uart e) = f @ (g @ concat fs)" and f: "host_frame_ok f" "\<not> reboots f" and g: "host_frame_ok g" by simp_all
  have u: "uart_ok (uart e)" using 3(2) by (simp add: engine_live_def engine_ok_def)
  have rest: "g @ concat fs \<noteq> []" "hd (g @ concat fs) = OMT_START" using g by (auto simp: host_frame_ok_def hd_conv_nth hd_append)
  have ne: "rx_bytes (uart e) \<noteq> []" using r rest by simp
  have "parse_round now e = (True, deliver now f e)"
    using parse_intact [OF u 3(3) r f(1), of now] rest by simp
  then have "parseUart now e = parseUart now (deliver now f e)" using parseUart_round [OF 3(2) ne] by simp
  also have "\<dots> = delivered now (g # fs) (deliver now f e)"
    using deliver_keeps [OF 3(2) r f, of now] 3(3,5) by (intro 3(1)) simp_all
  finally show ?case by simp
qed

text \<open>C30: when the bytes that wait are a sequence of intact frames and the parser is in step, one run of the parser handles every
  frame, in order and once; only when the last frame is a sample frame it is held back until 8 ms have passed since it was
  first seen.\<close>

theorem modem_parser_delivers:
  assumes "steps engine_step (engine_start now0 chip date) events e" "length date < 60000" "\<not> halted e" "\<not> resync e"
    and "rx_bytes (uart e) = concat fs" "\<forall>f\<in>set fs. host_frame_ok f \<and> \<not> reboots f"
  shows "parseUart now e = delivered now fs e"
  using run_reach [OF assms(1,2)] assms(3-6) by (intro parseUart_delivers) (simp_all add: run_ok_def engine_live_def)

subsection \<open>Runs that receive bytes\<close>

definition received :: "bytes \<Rightarrow> engine \<Rightarrow> engine" where
  "received bs e = e\<lparr>uart := fold (\<lambda>b u. dma_receive u b) bs (uart e)\<rparr>"

lemma received_runs:
  assumes "run_ok e" "length (rx_bytes (uart e)) + length bs < 2048"
  shows "steps engine_step e (map Byte_in bs) (received bs e) \<and> rx_bytes (uart (received bs e)) = rx_bytes (uart e) @ bs"
  using assms
proof (induction bs arbitrary: e)
  case Nil
  then show ?case by (simp add: received_def steps_Nil [of engine_step])
next
  case (Cons b bs)
  have u: "uart_ok (uart e)" using Cons.prems(1) by (simp add: run_ok_def engine_ok_def)
  have "hw_uart_rx_available (uart e) < 2047" using rx_available(1) [OF u] Cons.prems(2) by (simp add: word_less_nat_alt)
  then have s: "engine_step e (Byte_in b) (e\<lparr>uart := dma_receive (uart e) b\<rparr>)" by (rule engine_step.Byte_in)
  have r: "rx_bytes (dma_receive (uart e) b) = rx_bytes (uart e) @ [b]" using rx_receive(1) [OF u] Cons.prems(2) by simp
  have "received (b # bs) e = received bs (e\<lparr>uart := dma_receive (uart e) b\<rparr>)" by (simp add: received_def)
  moreover have "steps engine_step (e\<lparr>uart := dma_receive (uart e) b\<rparr>) (map Byte_in bs) (received bs (e\<lparr>uart := dma_receive (uart e) b\<rparr>)) \<and>
      rx_bytes (uart (received bs (e\<lparr>uart := dma_receive (uart e) b\<rparr>))) = (rx_bytes (uart e) @ [b]) @ bs"
    using Cons.IH [of "e\<lparr>uart := dma_receive (uart e) b\<rparr>"] run_step [OF s Cons.prems(1)] Cons.prems(2) r by simp
  ultimately show ?case using steps_Cons [of engine_step, OF s] by simp
qed

text \<open>A status request and a short sample frame arrive after power on.\<close>

definition demo_start :: engine where "demo_start = engine_start 0 0x418 ''Jan 01 2026''"
definition demo_frame :: bytes where "demo_frame = [0x61, 8, 0x70, 100, 0x00, 0x01, 0xFF, 0xFF]"
definition demo_received :: engine where "demo_received = received ([0x61, 3, 0x10] @ demo_frame) demo_start"

lemma demo_start_facts:
  "run_ok demo_start" "rx_bytes (uart demo_start) = []" "\<not> halted demo_start" "\<not> resync demo_start" "txState demo_start = TX_IDLE"
  "tx_queue demo_start = []" "\<not> txInvert demo_start"
proof -
  have "uart demo_start = uart_reset" by (simp add: demo_start_def engine_start_def engine_init_def power_on_def ptt_defs)
  then show "rx_bytes (uart demo_start) = []" using session_start by (simp add: session_queues_def)
  show "run_ok demo_start" using run_start [of "''Jan 01 2026''"] by (simp add: demo_start_def)
  show "\<not> halted demo_start" "\<not> resync demo_start" "txState demo_start = TX_IDLE" "tx_queue demo_start = []" "\<not> txInvert demo_start"
    by (simp_all add: demo_start_def engine_start_def engine_init_def power_on_def ptt_defs tx_queue_def)
qed

lemma demo_received_facts:
  "steps engine_step demo_start (map Byte_in ([0x61, 3, 0x10] @ demo_frame)) demo_received"
  "rx_bytes (uart demo_received) = concat [[0x61, 3, 0x10], demo_frame]"
  "\<not> halted demo_received" "\<not> resync demo_received"
  using received_runs [OF demo_start_facts(1), of "[0x61, 3, 0x10] @ demo_frame"] demo_start_facts
  by (simp_all add: demo_received_def demo_frame_def) (simp_all add: received_def)

lemma demo_frames: "\<forall>f\<in>set [[0x61, 3, 0x10], demo_frame]. host_frame_ok f \<and> \<not> reboots f"
  by (simp add: demo_frame_def host_frame_ok_def reboots_def OMT_START_def knownType_def OMT_GET_FW_VERSION_def)

lemma modem_parser_delivers_witness:
  "parseUart 7 demo_received = deliver 7 demo_frame (deliver 7 [0x61, 3, 0x10] demo_received)"
proof -
  have "\<not> samp_frame demo_frame" by (simp add: samp_frame_def demo_frame_def SAMP_FRAME_BYTES_def SAMPLES_PER_FRAME_def)
  then show ?thesis
    using modem_parser_delivers [OF demo_received_facts(1) [unfolded demo_start_def] _ demo_received_facts(3,4,2) demo_frames, of 7] by simp
qed

text \<open>The state afterwards: a transmission with two samples waiting.\<close>

definition demo_keyed :: engine where "demo_keyed = parseUart 7 demo_received"

lemma demo_keyed_facts:
  "\<exists>events. steps engine_step (engine_start 0 0x418 ''Jan 01 2026'') events demo_keyed"
  "txState demo_keyed = TX_PRIME" "tx_queue demo_keyed = [256, - 1]" "\<not> halted demo_keyed" "rx_bytes (uart demo_keyed) = []" "lastDataMs demo_keyed = 7"
  "resync_view demo_keyed = (False, 0, False)"
proof -
  obtain more where m: "steps engine_step demo_received more demo_keyed" using parseUart_runs unfolding demo_keyed_def by blast
  show "\<exists>events. steps engine_step (engine_start 0 0x418 ''Jan 01 2026'') events demo_keyed"
    using steps_append [OF demo_received_facts(1) m] unfolding demo_start_def by blast
  have live: "engine_live demo_received"
    using run_reach [OF demo_received_facts(1) [unfolded demo_start_def]] demo_received_facts(3) by (simp add: run_ok_def engine_live_def)
  let ?s = "deliver 7 [0x61, 3, 0x10] demo_received"
  have d: "parseUart 7 demo_received = deliver 7 demo_frame ?s"
    using parseUart_delivers [OF live demo_received_facts(4,2) demo_frames, of 7]
    by (simp add: samp_frame_def demo_frame_def SAMP_FRAME_BYTES_def SAMPLES_PER_FRAME_def)
  have r: "rx_bytes (uart demo_received) = [0x61, 3, 0x10] @ demo_frame" using demo_received_facts(2) by simp
  note s = deliver_keeps [OF live r, of 7]
  have s1: "engine_live ?s" "rx_bytes (uart ?s) = demo_frame" using s demo_frames by simp_all
  have s2: "txState ?s = TX_IDLE \<and> tx_view ?s = tx_view demo_received \<and> txInvert ?s = txInvert demo_received"
    using demo_start_facts
    by (simp add: deliver_def handleFrame_def Let_def OMT_SAMP_EOT_def OMT_GET_FW_VERSION_def OMT_GET_STATUS_def sendSmall_def uart_send_def
        tx_view_def rx_consume_def demo_received_def received_def)
  have q: "tx_queue ?s = []" "\<not> txInvert ?s"
    using s2 demo_start_facts(6,7) by (simp_all add: tx_view_def tx_queue_def demo_received_def received_def)
  obtain ready where rd: "ready = ledPulse 7 1 30 ((rx_consume 8 (?s\<lparr>holding := False\<rparr>))\<lparr>lastHostMs := 7\<rparr>)" by simp
  have t: "tx_view ready = tx_view ?s" by (simp add: rd)
  have tq: "tx_queue ready = []" "tx_ok ready" "txState ready = TX_IDLE" using q s2 t s1(1) tx_view_ok [OF t]
    by (simp_all add: tx_view_def tx_queue_def engine_live_def engine_ok_def)
  have inv: "\<not> txInvert ready" using q(2) by (simp add: rd rx_consume_def)
  have h: "parseUart 7 demo_received = handleSampData 7 demo_frame 8 ready"
    unfolding d deliver_def rd
    by (simp add: handleFrame_def Let_def demo_frame_def OMT_SAMP_EOT_def OMT_GET_FW_VERSION_def OMT_GET_STATUS_def OMT_SET_CONFIG_def
        OMT_SET_MODE_def OMT_ADD_MODE_def OMT_DEL_MODE_def OMT_SAMP_DATA_def)
  have fs: "frame_sample demo_frame 0 = 256" "frame_sample demo_frame (Suc 0) = - 1" "tx_gain (demo_frame ! 3) = 256" by code_simp+
  have v: "map (tx_value ready demo_frame) [0..<2] = [256, - 1]"
    unfolding tx_value_def Let_def if_not_P [OF inv] by (simp add: fs clamp16_def numeral_2_eq_2 upt_rec)
  have "length (tx_queue ready) + (unat (8 :: u8) - 4) div 2 < TX_BUF_SAMPLES" by (simp add: tq(1) TX_BUF_SAMPLES_def)
  moreover have "(8 :: u8) \<ge> 4" by simp
  ultimately have c0: "handleSampData 7 demo_frame 8 ready = tx_key_up ((tx_store demo_frame ((unat (8 :: u8) - 4) div 2)
      (ready\<lparr>stats := (stats ready)\<lparr>txFramesFromHost := txFramesFromHost (stats ready) + 1\<rparr>\<rparr>))\<lparr>txEot := False, lastDataMs := 7\<rparr>)"
    "tx_queue (handleSampData 7 demo_frame 8 ready) = tx_queue ready @ map (tx_value ready demo_frame) [0..<(unat (8 :: u8) - 4) div 2]"
    using sampData_cases(1) [OF tq(2), of 8 7 demo_frame] by blast+
  have c: "tx_queue (handleSampData 7 demo_frame 8 ready) = [256, - 1]" "txState (handleSampData 7 demo_frame 8 ready) = TX_PRIME"
    "lastDataMs (handleSampData 7 demo_frame 8 ready) = 7"
    subgoal using c0(2) tq(1) v by simp
    subgoal unfolding c0(1) using tq(3) by simp
    subgoal unfolding c0(1) by simp
    done
  show "tx_queue demo_keyed = [256, - 1]" "txState demo_keyed = TX_PRIME" "lastDataMs demo_keyed = 7"
    unfolding demo_keyed_def h using c by simp_all
  have "resync_view demo_received = (False, 0, False)"
    by (simp add: demo_received_def received_def demo_start_def engine_start_def engine_init_def ptt_defs resync_view_def)
  then show "resync_view demo_keyed = (False, 0, False)"
    using s(3) deliver_keeps(3) [OF s1(1), of demo_frame "[]" 7] s1(2) demo_frames unfolding demo_keyed_def d by simp
  show "\<not> halted demo_keyed" "rx_bytes (uart demo_keyed) = []"
    using deliver_keeps [OF s1(1), of demo_frame "[]" 7] s1(2) demo_frames unfolding demo_keyed_def d by (simp_all add: engine_live_def)
qed

lemma modem_eot_drains_witness:
  "fst (ticks [2048, 2048, 2048] (requestEot demo_keyed)) = [dac_value 256, dac_value (- 1), dac_value 0] \<and>
   \<not> pttWanted (snd (ticks [2048, 2048, 2048] (requestEot demo_keyed)))"
proof -
  obtain events where "steps engine_step (engine_start 0 0x418 ''Jan 01 2026'') events demo_keyed" using demo_keyed_facts(1) by blast
  from modem_eot_drains [OF this, of "[2048, 2048, 2048]"] demo_keyed_facts(2,3) show ?thesis
    by (simp add: engine_is_keyed_def Let_def del: ticks.simps)
qed

lemma modem_host_silence_unkeys_witness:
  "engine_is_keyed demo_keyed \<and> \<not> engine_is_keyed (engine_poll 2000 demo_keyed) \<and> \<not> pttWanted (engine_poll 2000 demo_keyed)"
proof -
  obtain events where s: "steps engine_step (engine_start 0 0x418 ''Jan 01 2026'') events demo_keyed" using demo_keyed_facts(1) by blast
  have "uart_ok (uart demo_keyed)" using run_reach [OF s] by (simp add: run_ok_def engine_ok_def)
  then have "hw_uart_rx_available (uart demo_keyed) = 0" using rx_available(1) demo_keyed_facts(5) by (simp add: word_unat_eq_iff)
  then show ?thesis
    using modem_host_silence_unkeys [OF s _ demo_keyed_facts(4), of 2000] demo_keyed_facts(2,6) by (simp add: engine_is_keyed_def)
qed

end
