(* ===== verification/ModemRx.thy ===== *)
theory ModemRx
  imports ModemParser
begin

section \<open>The modem firmware: received samples and damaged streams\<close>

text \<open>
  Which samples a frame for the host holds: those of consecutive ticks when recording starts with an empty
  frame; but a frame whose first ticks fell into a full ring is completed with what its slot held before.
  And the silence that stands for damaged frames.
\<close>

subsection \<open>Frames of received samples\<close>

primrec levels :: "u16 list \<Rightarrow> engine \<Rightarrow> int list" where
  "levels [] e = []"
| "levels (adc # adcs) e = rx_level e adc # levels adcs (snd (engine_sample_tick adc e))"

lemma levels_length [simp]: "length (levels adcs e) = length adcs"
  by (induction adcs arbitrary: e) simp_all

text \<open>Only the receive half of a tick touches the receive side.\<close>

definition rx_view :: "engine \<Rightarrow> int list list \<times> u16 \<times> u32 \<times> u32" where
  "rx_view e = (rxBuf e, rxIdx e, rxWrCount e, rxRdCount e)"

lemma tick_rx_view: "rx_view (snd (engine_sample_tick adc e)) = rx_view (rx_store (rx_level e adc) e)"
proof -
  have p: "rx_view (tx_prime x) = rx_view x" for x by (simp add: rx_view_def tx_prime_def)
  have q: "rx_view (snd (tx_play r x)) = rx_view x" for r x by (simp add: rx_view_def tx_play_def tx_take_def Let_def ptt_defs)
  have l: "rx_level (rx_clip adc e) adc = rx_level e adc" by (simp add: rx_level_def rx_clip_def Let_def)
  have "rx_view (rx_tick adc e) = rx_view (rx_store (rx_level e adc) e)"
    unfolding rx_tick_def Let_def l by (simp add: rx_view_def rx_store_def rx_clip_def Let_def)
  then show ?thesis using p q by (simp add: engine_sample_tick_def tick_sample_def Let_def split_def)
qed

definition rx_slot :: "engine \<Rightarrow> nat" where
  "rx_slot e = unat (rxWrCount e AND (of_nat RX_FRAMES - 1))"

lemma rx_slot_less: "rx_slot e < 4"
  using ring_less [where N = 4 and k = 2 and a = "rxWrCount e"] by (simp add: rx_slot_def RX_FRAMES_def mask_eq_exp_minus_1)

lemma tick_records:
  fixes adc :: u16
  assumes "rx_ok e" "unat (rxWrCount e - rxRdCount e) < 4"
  defines "e' \<equiv> snd (engine_sample_tick adc e)"
  shows "rxBuf e' = (rxBuf e)[rx_slot e := (rxBuf e ! rx_slot e)[unat (rxIdx e) := rx_level e adc]]" "rxRdCount e' = rxRdCount e"
    and "unat (rxIdx e) < 95 \<Longrightarrow> unat (rxIdx e') = unat (rxIdx e) + 1 \<and> rxWrCount e' = rxWrCount e"
    and "unat (rxIdx e) = 95 \<Longrightarrow> rxIdx e' = 0 \<and> rxWrCount e' = rxWrCount e + 1"
proof -
  have nf: "\<not> rxWrCount e - rxRdCount e \<ge> of_nat RX_FRAMES" using assms(2) by (simp add: RX_FRAMES_def word_le_nat_alt)
  have i: "rxIdx e < 96" using assms(1) by (simp add: rx_ok_def)
  note s = word_suc [OF i]
  have v: "rx_view e' = rx_view (rx_store (rx_level e adc) e)" unfolding e'_def by (rule tick_rx_view)
  have st: "rx_view (rx_store (rx_level e adc) e) =
    ((rxBuf e)[rx_slot e := (rxBuf e ! rx_slot e)[unat (rxIdx e) := rx_level e adc]],
     if unat (rxIdx e) < 95 then rxIdx e + 1 else 0, if unat (rxIdx e) < 95 then rxWrCount e else rxWrCount e + 1, rxRdCount e)"
    unfolding rx_store_def if_not_P [OF nf] Let_def rx_slot_def
    using s by (auto simp: rx_view_def SAMPLES_PER_FRAME_def word_le_nat_alt)
  show "rxBuf e' = (rxBuf e)[rx_slot e := (rxBuf e ! rx_slot e)[unat (rxIdx e) := rx_level e adc]]" "rxRdCount e' = rxRdCount e"
    "unat (rxIdx e) < 95 \<Longrightarrow> unat (rxIdx e') = unat (rxIdx e) + 1 \<and> rxWrCount e' = rxWrCount e"
    "unat (rxIdx e) = 95 \<Longrightarrow> rxIdx e' = 0 \<and> rxWrCount e' = rxWrCount e + 1"
    using v s unfolding st by (simp_all add: rx_view_def)
qed

lemma rx_ok_tick: "engine_ok e \<Longrightarrow> rx_ok (snd (engine_sample_tick adc e))"
  using ok_tick [of e adc] by (simp add: engine_ok_def)

lemma ticks_record:
  assumes "engine_ok e" "unat (rxWrCount e - rxRdCount e) < 4" "length adcs + unat (rxIdx e) = 96"
  shows "let e' = snd (ticks adcs e) in rxIdx e' = 0 \<and> rxWrCount e' = rxWrCount e + 1 \<and>
    rxBuf e' = (rxBuf e)[rx_slot e := take (unat (rxIdx e)) (rxBuf e ! rx_slot e) @ levels adcs e]"
  using assms
proof (induction adcs arbitrary: e)
  case Nil
  then show ?case by (simp add: engine_parts word_less_nat_alt)
next
  case (Cons adc adcs)
  let ?e = "snd (engine_sample_tick adc e)" and ?i = "unat (rxIdx e)" and ?s = "rx_slot e"
  have rx: "rx_ok e" using Cons.prems(1) by (simp add: engine_ok_def)
  have len: "length (rxBuf e) = 4" "length (rxBuf e ! ?s) = 96" "?s < length (rxBuf e)"
    using rx rx_slot_less [of e] nth_mem [of ?s "rxBuf e"] by (auto simp: rx_ok_def)
  note r = tick_records [OF rx Cons.prems(2), of adc]
  show ?case
  proof (cases adcs)
    case Nil
    then have "?i = 95" using Cons.prems(3) by simp
    moreover have "(rxBuf e ! ?s)[95 := x] = take 95 (rxBuf e ! ?s) @ [x]" for x
      using len(2) upd_conv_take_nth_drop [of 95 "rxBuf e ! ?s" x] by simp
    ultimately show ?thesis using r Nil by (simp add: Let_def split_def)
  next
    case (Cons a as)
    then have i: "?i < 95" using Cons.prems(3) by simp
    have w: "rxWrCount ?e = rxWrCount e" "unat (rxIdx ?e) = ?i + 1" "rxRdCount ?e = rxRdCount e" using r i by simp_all
    have sl: "rx_slot ?e = ?s" using w(1) by (simp add: rx_slot_def)
    have "length adcs + unat (rxIdx ?e) = 96" using Cons.prems(3) w(2) by simp
    then have ih: "let e' = snd (ticks adcs ?e) in rxIdx e' = 0 \<and> rxWrCount e' = rxWrCount ?e + 1 \<and>
      rxBuf e' = (rxBuf ?e)[rx_slot ?e := take (unat (rxIdx ?e)) (rxBuf ?e ! rx_slot ?e) @ levels adcs ?e]"
      using Cons.prems(2) w by (intro Cons.IH ok_tick Cons.prems(1)) simp_all
    have "take (?i + 1) (rxBuf ?e ! ?s) = take ?i (rxBuf e ! ?s) @ [rx_level e adc]"
      using r(1) len i by (simp add: take_Suc_conv_app_nth)
    then show ?thesis using ih w sl r(1) by (simp add: Let_def split_def)
  qed
qed

text \<open>A sample goes to the host in two bytes that read back as the sample.\<close>

lemma sample_bytes_read:
  assumes "sample_range s"
  shows "sint (ucast (sample_bytes s ! 0) OR push_bit 8 (ucast (sample_bytes s ! 1)) :: u16) = s"
proof -
  have "(ucast (word_of_int s :: u8) OR push_bit 8 (ucast (word_of_int (s div 2 ^ 8) :: u8)) :: u16) = word_of_int s"
    unfolding drop_bit_eq_div [symmetric] by (rule bit_word_eqI) (auto simp: bit_simps)
  then show ?thesis using assms by (simp add: sample_bytes_def sample_range_def int_word_sint)
qed

text \<open>C36: from a state any run reaches with fewer than four frames waiting, the ticks that complete the current frame publish
  exactly one frame, whose samples from the current position on are the levels of those ticks; the part before the current
  position is what the slot held.  So a frame that is begun in an empty position holds 96 consecutive samples, and one whose
  first ticks were dropped (with four frames waiting a tick only advances the position) keeps old samples.  Each sample
  reads back from the two bytes sent for it.\<close>

theorem modem_rx_frame_contents:
  assumes "steps engine_step (engine_start now chip date) events e" "length date < 60000"
  shows "(unat (rxWrCount e - rxRdCount e) < RX_FRAMES \<and> length adcs + unat (rxIdx e) = SAMPLES_PER_FRAME \<longrightarrow>
      rxIdx (snd (ticks adcs e)) = 0 \<and> rxWrCount (snd (ticks adcs e)) = rxWrCount e + 1 \<and>
      rxBuf (snd (ticks adcs e)) = (rxBuf e)[rx_slot e := take (unat (rxIdx e)) (rxBuf e ! rx_slot e) @ levels adcs e]) \<and>
    (unat (rxWrCount e - rxRdCount e) = RX_FRAMES \<and> unat (rxIdx e) < 95 \<longrightarrow>
      rxBuf (snd (engine_sample_tick adc e)) = rxBuf e \<and> unat (rxIdx (snd (engine_sample_tick adc e))) = unat (rxIdx e) + 1 \<and>
      rxWrCount (snd (engine_sample_tick adc e)) = rxWrCount e) \<and>
    (\<forall>s\<in>set (rxBuf e ! rx_slot e). sint (ucast (sample_bytes s ! 0) OR push_bit 8 (ucast (sample_bytes s ! 1)) :: u16) = s)"
proof -
  have ok: "engine_ok e" using run_reach [OF assms] by (simp add: run_ok_def)
  then have rx: "rx_ok e" by (simp add: engine_ok_def)
  have "rxBuf e ! rx_slot e \<in> set (rxBuf e)" using rx rx_slot_less [of e] by (simp add: rx_ok_def)
  then have s: "\<forall>s\<in>set (rxBuf e ! rx_slot e). sample_range s" using rx by (auto simp: rx_ok_def)
  have "rxBuf (snd (engine_sample_tick adc e)) = rxBuf e \<and> unat (rxIdx (snd (engine_sample_tick adc e))) = unat (rxIdx e) + 1 \<and>
      rxWrCount (snd (engine_sample_tick adc e)) = rxWrCount e"
    if f: "unat (rxWrCount e - rxRdCount e) = RX_FRAMES" "unat (rxIdx e) < 95"
  proof -
    have "rxWrCount e - rxRdCount e \<ge> of_nat RX_FRAMES" using f(1) by (simp add: RX_FRAMES_def word_le_nat_alt)
    moreover have "unat (rxIdx e + 1) = unat (rxIdx e) + 1" using f(2) by (intro word_suc) (simp add: word_less_nat_alt)
    moreover from this f(2) have "\<not> rxIdx e + 1 \<ge> of_nat SAMPLES_PER_FRAME" by (simp add: SAMPLES_PER_FRAME_def word_le_nat_alt)
    ultimately have "rx_view (rx_store x e) = (rxBuf e, rxIdx e + 1, rxWrCount e, rxRdCount e)" "unat (rxIdx e + 1) = unat (rxIdx e) + 1" for x
      by (simp_all add: rx_store_def Let_def rx_view_def)
    then show ?thesis using tick_rx_view [of adc e] by (simp add: rx_view_def)
  qed
  then show ?thesis
    using ticks_record [OF ok, of adcs] s sample_bytes_read by (simp add: Let_def RX_FRAMES_def SAMPLES_PER_FRAME_def)
qed

lemma modem_rx_frame_contents_witness:
  "rxWrCount (snd (ticks (replicate 96 3000) demo_start)) = 1 \<and>
   rxBuf (snd (ticks (replicate 96 3000) demo_start)) = (rxBuf demo_start)[0 := levels (replicate 96 3000) demo_start]"
proof -
  have d: "rxIdx demo_start = 0" "rxWrCount demo_start = 0" "rxRdCount demo_start = 0"
    by (simp_all add: demo_start_def engine_start_def engine_init_def ptt_defs)
  then have "rx_slot demo_start = 0" by (simp add: rx_slot_def)
  then show ?thesis
    using modem_rx_frame_contents [OF steps_Nil, where now = 0 and chip = "0x418" and date = "''Jan 01 2026''" and adcs = "replicate 96 3000"] d
    unfolding demo_start_def [symmetric] by (simp add: RX_FRAMES_def SAMPLES_PER_FRAME_def del: replicate.simps)
qed

subsection \<open>Damaged streams\<close>

lemma silence_value: "tx_value e silence_frame i = 0" if "i < 96"
proof -
  have z: "silence_frame ! (4 + k) = 0" if "k < 192" for k
    using that by (simp add: silence_frame_def nth_append SAMPLES_PER_FRAME_def)
  have "silence_frame ! (4 + 2 * i) = 0" "silence_frame ! (5 + 2 * i) = 0" using z [of "2 * i"] z [of "2 * i + 1"] that by simp_all
  then show ?thesis by (simp add: tx_value_def frame_sample_def Let_def clamp16_def)
qed

lemma silence_added:
  assumes "engine_live e" "txState e \<noteq> TX_IDLE" "length (tx_queue e) + 96 < 8192"
  shows "tx_queue (insertSilenceFrame now e) = tx_queue e @ replicate 96 0" "txState (insertSilenceFrame now e) = txState e"
    "lostFrames (stats (insertSilenceFrame now e)) = lostFrames (stats e) + 1"
proof -
  let ?e = "e\<lparr>stats := (stats e)\<lparr>lostFrames := lostFrames (stats e) + 1\<rparr>\<rparr>"
  have v: "tx_view ?e = tx_view e" by simp
  have ok: "tx_ok ?e" using assms(1) tx_view_ok [OF v] by (simp add: engine_live_def engine_ok_def)
  have q: "tx_queue ?e = tx_queue e" by (simp add: tx_queue_def)
  have n: "(unat (of_nat SAMP_FRAME_BYTES :: u8) - 4) div 2 = 96" by (simp add: SAMP_FRAME_BYTES_def SAMPLES_PER_FRAME_def)
  have len: "(of_nat SAMP_FRAME_BYTES :: u8) \<ge> 4" by (simp add: SAMP_FRAME_BYTES_def SAMPLES_PER_FRAME_def)
  have i: "insertSilenceFrame now e = handleSampData now silence_frame (of_nat SAMP_FRAME_BYTES) ?e" using assms(2) by (simp add: insertSilenceFrame_def)
  have fit: "length (tx_queue ?e) + (unat (of_nat SAMP_FRAME_BYTES :: u8) - 4) div 2 < TX_BUF_SAMPLES" unfolding n q using assms(3) by (simp add: TX_BUF_SAMPLES_def)
  note c = sampData_cases(1) [OF ok len fit, of now silence_frame, unfolded n]
  have "map (tx_value ?e silence_frame) [0..<96] = map (\<lambda>_. 0) [0..<96]" by (rule map_cong [OF refl]) (simp add: silence_value)
  then have m: "map (tx_value ?e silence_frame) [0..<96] = replicate 96 0" by (simp add: map_replicate_const)
  show "tx_queue (insertSilenceFrame now e) = tx_queue e @ replicate 96 0"
    unfolding i using conjunct1 [OF conjunct2 [OF c]] by (simp only: m q)
  show "txState (insertSilenceFrame now e) = txState e" unfolding i conjunct1 [OF c] using assms(2) by simp
  have "stats (tx_store f n x) = stats x" for f n x by (simp add: tx_store_def split_def Let_def)
  then show "lostFrames (stats (insertSilenceFrame now e)) = lostFrames (stats e) + 1"
    unfolding i conjunct1 [OF c] using assms(2) by (simp add: tx_key_up_def)
qed

lemma silence_iterated:
  "engine_live e \<Longrightarrow> txState e \<noteq> TX_IDLE \<Longrightarrow> length (tx_queue e) + 96 * n < 8192 \<Longrightarrow>
   let e' = (insertSilenceFrame now ^^ n) e in
   tx_queue e' = tx_queue e @ replicate (96 * n) 0 \<and> txState e' = txState e \<and> lostFrames (stats e') = lostFrames (stats e) + of_nat n \<and> engine_live e'"
proof (induction n)
  case (Suc n)
  let ?y = "(insertSilenceFrame now ^^ n) e"
  have y: "tx_queue ?y = tx_queue e @ replicate (96 * n) 0" "txState ?y = txState e" "lostFrames (stats ?y) = lostFrames (stats e) + of_nat n" "engine_live ?y"
    using Suc by (simp_all add: Let_def)
  have "length (tx_queue ?y) + 96 < 8192" using Suc.prems(3) y(1) by simp
  note s = silence_added [OF y(4) _ this, of now]
  have "replicate (96 * n) 0 @ replicate 96 0 = replicate (96 * Suc n) (0 :: int)" by (simp flip: replicate_add)
  then show ?case using s y Suc.prems(2) live_insertSilenceFrame [OF y(4)] by (simp add: Let_def)
qed simp

text \<open>C35: the end of a hunt for the next frame during a transmission puts one frame of silence on the queue for every 196 bytes
  that were skipped, rounded, and at least one when the hunt began inside a frame, so that the audio keeps its timing; the lost
  frames are counted and the parser is in step again.\<close>

theorem modem_damage_keeps_timeline:
  assumes "steps engine_step (engine_start now0 chip date) events e" "length date < 60000" "\<not> halted e" "engine_is_keyed e"
    and "n = (if resyncFrame e \<and> resyncBytes e < 98 then 1 else unat ((resyncBytes e + 98) div 196))" "resyncBytes e \<le> 60000"
    and "length (tx_queue e) + SAMPLES_PER_FRAME * n < TX_BUF_SAMPLES"
  shows "tx_queue (endResync now e) = tx_queue e @ replicate (SAMPLES_PER_FRAME * n) 0 \<and> txState (endResync now e) = txState e \<and>
    lostFrames (stats (endResync now e)) = lostFrames (stats e) + of_nat n \<and> \<not> resync (endResync now e)"
proof -
  let ?e = "e\<lparr>resyncFrame := False, resyncBytes := 0, resync := False\<rparr>"
  let ?n = "if resyncFrame e \<and> (resyncBytes e + 98) div 196 = 0 then 1 else (resyncBytes e + 98) div 196 :: u16"
  have b: "unat (resyncBytes e) \<le> 60000" using assms(6) by (simp add: word_le_nat_alt)
  then have a: "unat (resyncBytes e + 98) = unat (resyncBytes e) + 98" by (simp add: unat_word_ariths)
  then have "unat ((resyncBytes e + 98) div 196) = (unat (resyncBytes e) + 98) div 196" by (simp add: unat_div)
  then have "(resyncBytes e + 98) div 196 = 0 \<longleftrightarrow> resyncBytes e < 98" by (simp add: word_unat_eq_iff word_less_nat_alt div_eq_0_iff) 
  then have n: "unat ?n = n" using assms(5) by simp
  have live: "engine_live ?e" using run_reach [OF assms(1,2)] assms(3) by (simp add: run_ok_def engine_live_def)
  have q: "tx_queue ?e = tx_queue e" by (simp add: tx_queue_def)
  have r: "endResync now e = (insertSilenceFrame now ^^ n) ?e" unfolding endResync_def Let_def n ..
  have "resync_view (insertSilenceFrame now x) = resync_view x" for x by (simp add: insertSilenceFrame_def)
  then have "resync_view ((insertSilenceFrame now ^^ k) x) = resync_view x" for k x by (induction k) simp_all
  then have "resync ((insertSilenceFrame now ^^ k) x) = resync x" for k x by (simp add: resync_view_def)
  then show ?thesis
    using silence_iterated [OF live, of n now] assms(4,7) q
    by (simp add: r Let_def engine_is_keyed_def SAMPLES_PER_FRAME_def TX_BUF_SAMPLES_def)
qed

text \<open>Bytes that cannot begin a frame are skipped and counted.\<close>

lemma skip_keeps:
  assumes "engine_live e" "rx_bytes (uart e) = b # rest" "unat (resyncBytes e) < 60000"
  shows "engine_live (skip_byte now e)" "rx_bytes (uart (skip_byte now e)) = rest" "resyncBytes (skip_byte now e) = resyncBytes e + 1"
    "tx_view (skip_byte now e) = tx_view e" "resyncFrame (skip_byte now e) = resyncFrame e"
proof -
  have u: "uart_ok (uart e)" using assms(1) by (simp add: engine_live_def engine_ok_def)
  have a: "0 < rx_avail e" using rx_available(1) [OF u] assms(2) by (simp add: rx_avail_def)
  show "engine_live (skip_byte now e)" by (rule live_skip(1) [OF assms(1) a])
  have "rx_bytes (uart (skip_byte now e)) = rx_bytes (hw_uart_rx_consume (uart e) 1)" by (simp add: skip_byte_def NOTE_SKIP_def rx_consume_def)
  then show "rx_bytes (uart (skip_byte now e)) = rest" using rx_consume(1) [OF u, of 1] assms(2) by simp
  show "resyncBytes (skip_byte now e) = resyncBytes e + 1"
    using assms(3) by (simp add: skip_byte_def NOTE_SKIP_def rx_consume_def word_less_nat_alt)
  show "tx_view (skip_byte now e) = tx_view e" "resyncFrame (skip_byte now e) = resyncFrame e"
    by (simp_all, simp add: skip_byte_def NOTE_SKIP_def rx_consume_def)
qed

lemma parseUart_skips:
  "engine_live e \<Longrightarrow> rx_bytes (uart e) = junk \<Longrightarrow> OMT_START \<notin> set junk \<Longrightarrow> unat (resyncBytes e) + length junk < 60000 \<Longrightarrow>
   engine_live (parseUart now e) \<and> resyncBytes (parseUart now e) = resyncBytes e + of_nat (length junk) \<and>
   tx_view (parseUart now e) = tx_view e \<and> resyncFrame (parseUart now e) = resyncFrame e"
proof (induction junk arbitrary: e)
  case Nil
  then show ?case using parseUart_empty by simp
next
  case (Cons b junk)
  have u: "uart_ok (uart e)" using Cons.prems(1) by (simp add: engine_live_def engine_ok_def)
  have s60: "unat (resyncBytes e) < 60000" using Cons.prems(4) by simp
  note s = skip_keeps [OF Cons.prems(1,2) s60, of now]
  have "hw_uart_rx_peek (uart e) 0 = b" using rx_peek [of 0 "uart e" 0] Cons.prems(2) by simp
  then have "parse_round now e = (True, skip_byte now e)" using Cons.prems(3) by (auto simp: parse_round_def Let_def)
  then have p: "parseUart now e = parseUart now (skip_byte now e)" using parseUart_round [OF Cons.prems(1)] Cons.prems(2) by simp
  have "unat (resyncBytes e + 1) = unat (resyncBytes e) + 1" using s60 by (simp add: unat_word_ariths)
  then show ?case unfolding p using Cons.IH [OF s(1,2)] s Cons.prems(3,4) by simp
qed

text \<open>A hundred bytes of noise during the transmission of \<open>demo_keyed\<close>: one frame is replaced.\<close>

definition demo_damaged :: engine where "demo_damaged = parseUart 9 (received (replicate 100 0) demo_keyed)"

lemma modem_damage_keeps_timeline_witness:
  "tx_queue (endResync 9 demo_damaged) = [256, - 1] @ replicate 96 0 \<and> resyncBytes demo_damaged = 100"
proof -
  obtain events where k: "steps engine_step (engine_start 0 0x418 ''Jan 01 2026'') events demo_keyed" using demo_keyed_facts(1) by blast
  have run: "run_ok demo_keyed" using run_reach [OF k] by simp
  let ?j = "replicate 100 (0 :: u8)" and ?r = "received (replicate 100 0) demo_keyed"
  have r: "steps engine_step demo_keyed (map Byte_in ?j) ?r" "rx_bytes (uart ?r) = ?j"
    using received_runs [OF run, of ?j] demo_keyed_facts(5) by simp_all
  have live: "engine_live ?r"
    using run_reach [OF steps_append [OF k r(1)]] demo_keyed_facts(4) by (simp add: run_ok_def engine_live_def) (simp add: received_def)
  have f: "resyncBytes demo_keyed = 0" "\<not> resyncFrame demo_keyed" using demo_keyed_facts(7) by (simp_all add: resync_view_def)
  obtain more where "steps engine_step ?r more demo_damaged" using parseUart_runs unfolding demo_damaged_def by blast
  note d = steps_append [OF steps_append [OF k r(1)] this]
  have v: "tx_view ?r = tx_view demo_keyed" "resyncBytes ?r = resyncBytes demo_keyed" "resyncFrame ?r = resyncFrame demo_keyed"
    by (simp_all add: received_def tx_view_def)
  have p: "engine_live demo_damaged" "resyncBytes demo_damaged = 100" "tx_view demo_damaged = tx_view demo_keyed" "\<not> resyncFrame demo_damaged"
    using parseUart_skips [OF live r(2), of 9] f v unfolding demo_damaged_def by (simp_all add: OMT_START_def)
  have q: "tx_queue demo_damaged = [256, - 1]" "engine_is_keyed demo_damaged" "\<not> halted demo_damaged"
    using p(1,3) demo_keyed_facts(2,3) by (simp_all add: tx_view_def tx_queue_def engine_is_keyed_def engine_live_def)
  show ?thesis
    using modem_damage_keeps_timeline [OF d _ q(3,2), of 1 9] p(2,4) q(1)
    by (simp add: SAMPLES_PER_FRAME_def TX_BUF_SAMPLES_def del: replicate.simps)
qed

end
