(* ===== verification/Spec2Isabelle.thy ===== *)
theory Spec2Isabelle
  imports HammingCode GolayCode Qr1676 Crc Rs129 Rs24 Bch VoiceFec Trellis RingBuffer NxdnLink ModemRx
begin

section \<open>OpenMT: error correction, NXDN call control and the modem firmware\<close>

text \<open>
  OpenMT is a digital voice repeater.  A modem samples the radio (firmware under src/modem), a host process per
  protocol (src/protocols) turns samples into frames and frames into samples, and gateways (the gateway
  directories) exchange the frames with networks; the hosts share the coding library src/tools/fec_tools.c.
  This development models the parts that compute: the coding library, the NXDN channel coding and call control,
  the helpers the hosts pass bytes through, and the engine of the sample mode modem firmware.

  The order follows the data.  The firmware takes sample frames from the host's serial line and plays them on
  the radio; received samples go back the same way; a host decodes them with the codes of the library, the NXDN
  control follows the call and exchanges packets with the gateway.

  \<^bold>\<open>How C is modelled\<close>

  An integer is a word of its width (\<open>u8\<close>, \<open>u16\<close>, \<open>u32\<close>, \<open>u64\<close>), so that it wraps as in C; signed samples and
  gains are \<open>int\<close>, with the proof that they stay in the range of their C types.  A buffer is a list, a struct or
  the static variables of a file a record, an enum a datatype.  A function returns the values of its output
  parameters and the changed state.  A counted loop is a fold over its indices; a loop with a variant is a
  function with that measure; a loop that may not end is a \<open>partial_function (option)\<close>, and that it returns is
  proved.  What C leaves undefined gets no meaning: uninitialised locals that are read before
  they are written are parameters of the definition (\<open>conv0\<close> and \<open>t0\<close> of the NXDN control, \<open>temp2\<close> of its channel
  decoders), arrays that are written first start as zeros, and reads outside a buffer are excluded by the sizes that
  the properties assume or prove.

  \<^bold>\<open>Shared theories\<close>

  Prelude holds the types and the lemmas on exclusive-or, words and loops; BitWords relates bit lists to words.
  Bits models the bit and byte helpers of fec_tools.c and the interface \<open>bit_store\<close> (what a read returns after a
  write), interpreted on packed bytes and on bool arrays.  Simulation is the contract of a refinement
  (\<open>simulation\<close>), Machine the runs of a step relation and the contract of a watchdog (\<open>watchdog\<close>), RingIndex the
  index arithmetic of rings whose size is a power of two.

  \<^bold>\<open>The coding library (src/tools/fec_tools.c)\<close>

  Hamming, HammingCode: the six encoders and decoders.  \<open>single_error_code\<close> and its extension
  \<open>double_error_code\<close> state what a parity check matrix with distinct columns gives; each code interprets one.
  GolayTables, Golay, GolayCode and Qr1676: tables, syndrome loop, encoders and decoders of the Golay (23,12) and
  (24,12) codes and the quadratic residue code; Cyclic holds \<open>syndrome_code\<close> (a table indexed by the syndrome
  corrects every listed error), interpreted by both.  The tables are proved to be those of the generator
  polynomials, never assumed.
  Crc: the table driven checksums equal bit serial division (\<open>byte_checksum\<close>, interpreted for all three), and the
  incremental object of CCITTChecksumReverse.c equals the one shot function.
  Gf, Gf256, Gf64, Decoding, Rs129, Rs6, Rs6Code, Rs6Matrix, Rs24: \<open>gf_mult\<close> gives field arithmetic from a shift
  and add multiplication and is interpreted on the table driven \<open>gmult\<close> and \<open>gf6Mult\<close>; Decoding is the theory of
  syndromes, locators and Forney's formula; the P25 decoders are proved to correct up to eight (four) wrong
  symbols and to accept nothing else, and the (24,12,13) decoder to refuse every block with one to six wrong
  symbols, which is a defect of its position arithmetic.  The Berlekamp-Massey recursion keeps 18 entries, enough
  for 16 syndromes.
  Bch: the shift register encoder of the P25 network identifier and the distance of its code words.
  Trellis: both rates and both interleavings, with the repair loop of at most 20 rounds.
  AmbeTable, VoiceFec: the scrambling table and the regeneration of DMR and D-Star voice frames (dmr_fec.h,
  dstar_fec.h).

  \<^bold>\<open>RingBuffer (src/tools/RingBuffer.c)\<close>

  The ring buffer refines a bounded queue that an overflowing addition empties (interpretation of \<open>simulation\<close>).

  \<^bold>\<open>NXDN (src/protocols/NXDN/nxdn_func.c)\<close>

  NxdnChan, NxdnCoding, NxdnChannels: scrambling, sync, checksums, puncturing, interleaving, the convolutional
  coder and the LICH, SACCH, FACCH1 and UDCH.  Viterbi proves the Viterbi algorithm in the abstract (\<open>viterbi\<close>,
  \<open>code_distance\<close>, \<open>hard_viterbi\<close>); NxdnViterbi interprets it on the metrics and decision words of
  \<open>convDecode\<close>, for up to the 300 steps the record holds.  NxdnMargin computes, over all paths of the SACCH's code,
  how much more a wrong path costs (\<open>least_gain\<close>), which shows what the one symbol that \<open>chanDecode\<close> reads without
  writing it can do.
  NxdnVoice: the voice blocks and the chip layouts.
  NxdnCtrl: the record \<open>NxdnCtrl\<close>, the handlers \<open>nxdnCtrlRf\<close>, \<open>nxdnCtrlNet\<close> and \<open>nxdnCtrlClock\<close> with every function
  they call; the callbacks append to the field \<open>trace\<close>.  NxdnFrames describes what they send, NxdnCtrlInv the
  step relation and its invariants, NxdnControl the properties over all runs (the watchdog by interpreting
  \<open>watchdog\<close>), NxdnLink a repeater and a gateway joined by the air.

  \<^bold>\<open>The modem firmware (src/modem/OPENMT_SAMPLE_STM32FXXX)\<close>

  The default build is modelled: MCU_F105, no debug frames, no test pattern, no DC filter.
  ModemUart: the serial port's rings (hw_f1.c) with their DMA as steps of the hardware.  The interface \<open>byte_source\<close>
  (available, peek, consume) is interpreted on them and is what the parser's lemmas use.
  ModemEngine: the static variables of engine.c as the record \<open>engine\<close> and the sample interrupt
  \<open>engine_sample_tick\<close>.  ModemLink: the handlers of the host's frames, the parser, the streams to the host, LEDs,
  housekeeping and \<open>engine_poll\<close>; \<open>parseUart\<close> and \<open>sendRxFrames\<close> end because every round consumes bytes or a
  frame.  ModemInv: the invariant of every operation.  ModemRuns: the step relation, with interrupts and hardware
  between the rounds of the main loop, and bounds and push to talk over all runs.  ModemAudio: the transmitted
  audio as a queue, the end of a transmission, the host's silence, the gap after an underrun; \<open>parser_relation\<close>
  carries a relation through the parser and is interpreted on what is queued, on keying and on the time of the last
  refusal.  ModemParser: the parser on an intact stream.
  ModemRx: the frames of received samples and the silence that replaces damaged frames.

  A handler or a parser round is one step: the interrupt is not modelled inside it.  The code shares only the
  two rings and single words between the interrupt and the main loop; the order of the writes inside a round is
  not part of what is shown.  \<open>hw_millis\<close> is constant during a round.

  \<^bold>\<open>What the properties show\<close>

  Decoders recover what was sent up to their distance, and beyond it refuse or keep the buffer; table driven
  code equals its reference; encoders and decoders are inverse.  The NXDN control answers every input, brackets
  network calls and ends them by its watchdog.  The firmware keeps its indices in bounds, keys exactly while it
  transmits, plays what it was given in order, and stops when the host stops.

  \<^bold>\<open>Not modelled\<close>

  Sockets, serial set-up, threads, shared memory, files and databases (the hosts' main programs, gateways,
  service manager, tools.c): they are system calls.  Floating point filters and demodulators (nxdn_dsp.c,
  fm_dsp.c, dsp_tools.c, the SDR bridges): HOL's reals are not IEEE numbers.  The DMR, P25, YSF, D-Star, FM and
  M17 hosts and the firmware loader are not modelled yet; their error correction is, where it is in
  fec_tools.c or in the headers named above.  The vendor headers and libraries of the microcontrollers are
  not OpenMT's code.
\<close>

end
